(* ===== verification/Prelude.thy ===== *)
theory Prelude
  imports Main "HOL-Library.Word" "HOL-Library.AList"
begin

unbundle bit_operations_syntax

text \<open>
  What every component shares: bytes and their little-endian encodings (the \<open>struct\<close>
  formats of the sources), Python slices, the exceptions of the whole program as one
  datatype, and the state-and-exception monad in which every operation that mutates an
  object is written, with its weakest-precondition calculus.

  Python integers are unbounded and modelled as \<open>int\<close>, so every mask of the source
  (\<open>& 0xFFFFFFFF\<close>) is written out; the bytes of a \<open>bytes\<close> or \<open>bytearray\<close>, which Python
  keeps in 0..255, are \<open>8 word\<close>. Strings are Latin-1 strings. The text of an error
  message is not modelled; its class, its error number and its other fields are.
\<close>

named_theorems wp_simps \<open>equations that push a postcondition through the monad\<close>
named_theorems byte_simps \<open>lengths and contents of encoded and sliced byte strings\<close>

section \<open>Bytes\<close>

type_synonym byte = "8 word"
type_synonym bytes = "byte list"

definition le16 :: "bytes \<Rightarrow> int" where
  "le16 bs = uint (bs ! 0) + 256 * uint (bs ! 1)"

definition le32 :: "bytes \<Rightarrow> int" where
  "le32 bs = uint (bs ! 0) + 256 * uint (bs ! 1) + 65536 * uint (bs ! 2)
             + 16777216 * uint (bs ! 3)"

definition u16_at :: "bytes \<Rightarrow> nat \<Rightarrow> int" where
  "u16_at bs k = le16 (drop k bs)"

definition u32_at :: "bytes \<Rightarrow> nat \<Rightarrow> int" where
  "u32_at bs k = le32 (drop k bs)"

definition pack16 :: "int \<Rightarrow> bytes" where
  "pack16 v = [word_of_int v, word_of_int (v div 256)]"

definition pack32 :: "int \<Rightarrow> bytes" where
  "pack32 v = [word_of_int v, word_of_int (v div 256), word_of_int (v div 65536),
               word_of_int (v div 16777216)]"

lemma uint_byte_bounds [simp]: "0 \<le> uint (b :: byte)" "uint (b :: byte) < 256"
  using uint_bounded [of b] by simp_all

lemma uint_byte_of_int: "uint (word_of_int v :: byte) = v mod 256"
  by (simp add: uint_word_of_int)

lemma le16_bounds: "0 \<le> le16 bs" "le16 bs < 65536"
  using uint_byte_bounds [of "bs ! 0"] uint_byte_bounds [of "bs ! 1"]
  unfolding le16_def by linarith+

lemma le32_bounds: "0 \<le> le32 bs" "le32 bs < 4294967296"
  using uint_byte_bounds [of "bs ! 0"] uint_byte_bounds [of "bs ! 1"]
    uint_byte_bounds [of "bs ! 2"] uint_byte_bounds [of "bs ! 3"]
  unfolding le32_def by linarith+

lemma u16_at_bounds: "0 \<le> u16_at bs k" "u16_at bs k < 65536"
  by (simp_all add: u16_at_def le16_bounds)

lemma u32_at_bounds: "0 \<le> u32_at bs k" "u32_at bs k < 4294967296"
  by (simp_all add: u32_at_def le32_bounds)

lemma length_pack16 [simp, byte_simps]: "length (pack16 v) = 2"
  by (simp add: pack16_def)

lemma length_pack32 [simp, byte_simps]: "length (pack32 v) = 4"
  by (simp add: pack32_def)

lemma mod_digit: "0 \<le> c \<Longrightarrow> (v :: int) mod (b * c) = v mod b + b * (v div b mod c)"
  by (simp add: zmod_zmult2_eq)

lemma le16_pack16: "le16 (pack16 v) = v mod 65536"
  using mod_digit [of 256 v 256] by (simp add: le16_def pack16_def uint_byte_of_int)

lemma horner4:
  "(x :: int) + 256 * (y + 256 * (z + 256 * w)) = x + 256 * y + 65536 * z + 16777216 * w"
  by simp

lemma le32_pack32: "le32 (pack32 v) = v mod 4294967296"
proof -
  have "v mod 4294967296 = v mod 256 + 256 * (v div 256 mod 16777216)"
    using mod_digit [of 16777216 v 256] by simp
  also have "v div 256 mod 16777216 = v div 256 mod 256 + 256 * (v div 65536 mod 65536)"
    using mod_digit [of 65536 "v div 256" 256] zdiv_zmult2_eq [of 256 v 256] by simp
  also have "v div 65536 mod 65536 = v div 65536 mod 256 + 256 * (v div 16777216 mod 256)"
    using mod_digit [of 256 "v div 65536" 256] zdiv_zmult2_eq [of 256 v 65536] by simp
  finally have "v mod 4294967296 = v mod 256 + 256 * (v div 256 mod 256 +
      256 * (v div 65536 mod 256 + 256 * (v div 16777216 mod 256)))" .
  moreover have "le32 (pack32 v) = v mod 256 + 256 * (v div 256 mod 256)
      + 65536 * (v div 65536 mod 256) + 16777216 * (v div 16777216 mod 256)"
    unfolding le32_def pack32_def by (simp only: uint_byte_of_int nth_Cons_0 nth_Cons_numeral
        nth_Cons_Suc One_nat_def numeral_2_eq_2 numeral_3_eq_3)
  ultimately show ?thesis
    by (simp only: horner4)
qed

lemma le16_append: "length xs = 2 \<Longrightarrow> le16 (xs @ ys) = le16 xs"
  by (simp add: le16_def nth_append)

lemma le32_append: "length xs = 4 \<Longrightarrow> le32 (xs @ ys) = le32 xs"
  by (simp add: le32_def nth_append)

section \<open>Masks\<close>

lemma and_mask_mod: "(x :: int) AND mask n = x mod 2 ^ n"
  by (simp add: take_bit_eq_mask [symmetric] take_bit_eq_mod)

lemma and_0xFF: "(x :: int) AND 255 = x mod 256"
  using and_mask_mod [of x 8] by (simp add: mask_eq_exp_minus_1)

lemma and_0xFFFF: "(x :: int) AND 65535 = x mod 65536"
  using and_mask_mod [of x 16] by (simp add: mask_eq_exp_minus_1)

lemma and_0xFFFFFFFF: "(x :: int) AND 4294967295 = x mod 4294967296"
  using and_mask_mod [of x 32] by (simp add: mask_eq_exp_minus_1)

lemmas and_masks = and_0xFF and_0xFFFF and_0xFFFFFFFF

lemma or_plus: "(a :: int) AND b = 0 \<Longrightarrow> a OR b = a + b"
  by (rule disjunctive_add_eq_or [symmetric])

lemma and_not_mask: "(f :: int) AND NOT (mask n) = f - f mod 2 ^ n"
proof -
  have d: "(f AND mask n) AND (f AND NOT (mask n)) = 0"
    by (rule bit_eqI) (auto simp: bit_simps)
  have "f = (f AND mask n) OR (f AND NOT (mask n))"
    by (rule bit_eqI) (auto simp: bit_simps)
  also have "\<dots> = (f AND mask n) + (f AND NOT (mask n))"
    by (rule or_plus [OF d])
  finally show ?thesis
    by (simp add: and_mask_mod)
qed

lemma word_of_int_mod_byte: "(word_of_int (v mod 256) :: byte) = word_of_int v"
  by (rule word_uint_eqI) (simp add: uint_byte_of_int)

lemma word_of_int_byte_cong: "v mod 256 = w mod 256 \<Longrightarrow> (word_of_int v :: byte) = word_of_int w"
  by (metis word_of_int_mod_byte)

lemma mod_div_digit:
  assumes "0 < b" and "0 \<le> c"
  shows "(v :: int) mod (b * c) div b = v div b mod c"
  using assms by (simp add: mod_digit [OF assms(2)])

lemma digit_mod:
  assumes "0 < b" and "0 \<le> c" and "256 dvd c"
  shows "(v :: int) mod (b * c) div b mod 256 = v div b mod 256"
  using assms by (simp add: mod_div_digit mod_mod_cancel)

lemma pack16_mod: "pack16 (v mod 65536) = pack16 v"
  using digit_mod [of 256 256 v]
  by (auto simp: pack16_def mod_mod_cancel intro: word_of_int_byte_cong)

lemma pack32_mod: "pack32 (v mod 4294967296) = pack32 v"
proof -
  have "(word_of_int (v mod 4294967296) :: byte) = word_of_int v"
    by (rule word_of_int_byte_cong) (rule mod_mod_cancel, simp)
  moreover have "(word_of_int (v mod 4294967296 div 256) :: byte) = word_of_int (v div 256)"
    by (rule word_of_int_byte_cong) (use digit_mod [of 256 16777216 v] in simp)
  moreover have "(word_of_int (v mod 4294967296 div 65536) :: byte) = word_of_int (v div 65536)"
    by (rule word_of_int_byte_cong) (use digit_mod [of 65536 65536 v] in simp)
  moreover have "(word_of_int (v mod 4294967296 div 16777216) :: byte) = word_of_int (v div 16777216)"
    by (rule word_of_int_byte_cong) (use digit_mod [of 16777216 256 v] in simp)
  ultimately show ?thesis
    by (simp only: pack32_def)
qed

lemma le16_take: "2 \<le> n \<Longrightarrow> le16 (take n bs) = le16 bs"
  by (simp add: le16_def)

lemma le32_take: "4 \<le> n \<Longrightarrow> le32 (take n bs) = le32 bs"
  by (simp add: le32_def)

section \<open>Python slices\<close>

definition py_clamp :: "int \<Rightarrow> int \<Rightarrow> int" where
  "py_clamp n i = (if i < 0 then max 0 (n + i) else min i n)"

definition py_slice :: "'a list \<Rightarrow> int \<Rightarrow> int \<Rightarrow> 'a list" where
  "py_slice xs i j =
     (let n = int (length xs); a = py_clamp n i; b = py_clamp n j
      in take (nat (b - a)) (drop (nat a) xs))"

text \<open>\<open>xs[a:a+len(ys)] = ys\<close> on a \<open>bytearray\<close>, for a range inside it.\<close>

definition blit :: "'a list \<Rightarrow> nat \<Rightarrow> 'a list \<Rightarrow> 'a list" where
  "blit xs a ys = take a xs @ ys @ drop (a + length ys) xs"

lemma py_slice_nonneg:
  "0 \<le> i \<Longrightarrow> 0 \<le> j \<Longrightarrow> py_slice xs i j = take (nat (j - i)) (drop (nat i) xs)"
  by (cases "i \<le> int (length xs)"; cases "j \<le> int (length xs)")
    (auto simp: py_slice_def py_clamp_def Let_def nat_diff_distrib min_def)

lemma length_blit [simp, byte_simps]:
  "a + length ys \<le> length xs \<Longrightarrow> length (blit xs a ys) = length xs"
  by (simp add: blit_def)

lemma nth_blit:
  assumes "a + length ys \<le> length xs" and "k < length xs"
  shows "blit xs a ys ! k =
    (if a \<le> k \<and> k < a + length ys then ys ! (k - a) else xs ! k)"
  using assms by (auto simp: blit_def nth_append)

lemma take_drop_blit_same:
  "a + length ys \<le> length xs \<Longrightarrow> take (length ys) (drop a (blit xs a ys)) = ys"
  by (simp add: blit_def)

lemma take_drop_blit_other:
  assumes "a + length ys \<le> length xs" and "b + m \<le> a \<or> a + length ys \<le> b"
    and "b + m \<le> length xs"
  shows "take m (drop b (blit xs a ys)) = take m (drop b xs)"
  by (rule nth_equalityI) (use assms in \<open>auto simp: nth_blit\<close>)

section \<open>Exceptions\<close>

text \<open>
  One datatype for the exception classes the modules raise: \<open>MinixError\<close> (minixfs),
  \<open>FsError\<close> (kvfs), \<open>ExecError\<close> (kexec), \<open>SegFault\<close> (x86mem), \<open>CpuError\<close>,
  \<open>DivideError\<close>, \<open>MagicJump\<close> and \<open>_Halt\<close> (cpu86), \<open>Blocked\<close> (ksyscall) with the channel
  the process sleeps on, \<open>Exited\<close> and \<open>Replaced\<close> (kernel), and Python's own where the code
  can reach them. A channel is the tuple or the object the kernel stores in
  \<open>wait_channel\<close>; a pipe is named by its number in the kernel's heap.
\<close>

datatype channel =
    PipeRead nat
  | PipeWrite nat
  | OnTerminal
  | ForChild int
  | Pausing int

datatype exn =
    MinixError
  | FsError int
  | ExecError int
  | SegFault int int bool
  | CpuError int int bytes
  | DivideError
  | MagicJump int
  | Halt
  | Blocked channel
  | Exited int
  | Replaced
  | IndexError
  | KeyError
  | ValueError
  | StructError
  | AttributeError
  | ZeroDivisionError

section \<open>State and exceptions\<close>

text \<open>
  An operation that mutates its object and may raise takes the state and returns the
  result or the exception together with the state as it is left: what the code changed
  before it raised stays changed.
\<close>

type_synonym ('s, 'a) sm = "'s \<Rightarrow> (exn + 'a) \<times> 's"

definition ret :: "'a \<Rightarrow> ('s, 'a) sm" where
  "ret x s = (Inr x, s)"

definition raise :: "exn \<Rightarrow> ('s, 'a) sm" where
  "raise e s = (Inl e, s)"

definition bindE :: "('s, 'a) sm \<Rightarrow> ('a \<Rightarrow> ('s, 'b) sm) \<Rightarrow> ('s, 'b) sm" where
  "bindE m f s = (case m s of (Inl e, t) \<Rightarrow> (Inl e, t) | (Inr x, t) \<Rightarrow> f x t)"

definition thenE :: "('s, 'a) sm \<Rightarrow> ('s, 'b) sm \<Rightarrow> ('s, 'b) sm" where
  "thenE m n = bindE m (\<lambda>_. n)"

definition gets :: "('s \<Rightarrow> 'a) \<Rightarrow> ('s, 'a) sm" where
  "gets f s = (Inr (f s), s)"

definition modify :: "('s \<Rightarrow> 's) \<Rightarrow> ('s, unit) sm" where
  "modify f s = (Inr (), f s)"

definition liftR :: "exn + 'a \<Rightarrow> ('s, 'a) sm" where
  "liftR r s = (r, s)"

definition bindR :: "exn + 'a \<Rightarrow> ('a \<Rightarrow> exn + 'b) \<Rightarrow> exn + 'b" where
  "bindR r f = (case r of Inl e \<Rightarrow> Inl e | Inr x \<Rightarrow> f x)"

lemma bindR_simps [simp]: "bindR (Inl e) f = Inl e" "bindR (Inr x) f = f x"
  by (simp_all add: bindR_def)

lemma bindR_Inr_iff: "bindR r f = Inr y \<longleftrightarrow> (\<exists>x. r = Inr x \<and> f x = Inr y)"
  by (cases r) auto

lemma bindR_cong [fundef_cong]:
  "r = r' \<Longrightarrow> (\<And>x. r' = Inr x \<Longrightarrow> f x = f' x) \<Longrightarrow> bindR r f = bindR r' f'"
  by (cases r') auto

lemma bindE_cong [fundef_cong]:
  "m s = m' s' \<Longrightarrow> s = s' \<Longrightarrow> (\<And>x t. m' s' = (Inr x, t) \<Longrightarrow> f x t = f' x t) \<Longrightarrow>
   bindE m f s = bindE m' f' s'"
  by (auto simp: bindE_def split: prod.splits sum.splits)

text \<open>
  The postcondition of a run: \<open>Q\<close> for a returned value, \<open>E\<close> for an exception, each with
  the state it leaves.
\<close>

definition wp :: "('s, 'a) sm \<Rightarrow> ('a \<Rightarrow> 's \<Rightarrow> bool) \<Rightarrow> (exn \<Rightarrow> 's \<Rightarrow> bool) \<Rightarrow> 's \<Rightarrow> bool" where
  "wp m Q E s = (case m s of (Inl e, t) \<Rightarrow> E e t | (Inr x, t) \<Rightarrow> Q x t)"

lemma wp_ret [wp_simps]: "wp (ret x) Q E s = Q x s"
  by (simp add: wp_def ret_def)

lemma wp_raise [wp_simps]: "wp (raise e) Q E s = E e s"
  by (simp add: wp_def raise_def)

lemma wp_bindE [wp_simps]: "wp (bindE m f) Q E s = wp m (\<lambda>x. wp (f x) Q E) E s"
  by (simp add: wp_def bindE_def split: prod.splits sum.splits)

lemma wp_thenE [wp_simps]: "wp (thenE m n) Q E s = wp m (\<lambda>_. wp n Q E) E s"
  by (simp add: thenE_def wp_bindE)

lemma wp_gets [wp_simps]: "wp (gets f) Q E s = Q (f s) s"
  by (simp add: wp_def gets_def)

lemma wp_modify [wp_simps]: "wp (modify f) Q E s = Q () (f s)"
  by (simp add: wp_def modify_def)

lemma wp_liftR [wp_simps]:
  "wp (liftR r) Q E s = (case r of Inl e \<Rightarrow> E e s | Inr x \<Rightarrow> Q x s)"
  by (simp add: wp_def liftR_def split: sum.splits)

lemma wp_if [wp_simps]:
  "wp (if b then m else n) Q E s = (if b then wp m Q E s else wp n Q E s)"
  by simp

lemma wp_mono:
  assumes "wp m Q E s" and "\<And>x t. Q x t \<Longrightarrow> Q' x t" and "\<And>e t. E e t \<Longrightarrow> E' e t"
  shows "wp m Q' E' s"
  using assms by (auto simp: wp_def split: prod.splits sum.splits)

lemma wp_snd: "wp m (\<lambda>_. P) (\<lambda>_. P) s \<longleftrightarrow> P (snd (m s))"
  by (auto simp: wp_def split: prod.splits sum.splits)

text \<open>\<open>keeps I m\<close>: the operation leaves \<open>I\<close> true, whether it returns or raises.\<close>

definition keeps :: "('s \<Rightarrow> bool) \<Rightarrow> ('s, 'a) sm \<Rightarrow> bool" where
  "keeps I m \<longleftrightarrow> (\<forall>s. I s \<longrightarrow> I (snd (m s)))"

lemma keepsI: "(\<And>s. I s \<Longrightarrow> I (snd (m s))) \<Longrightarrow> keeps I m"
  by (simp add: keeps_def)

lemma keepsD: "keeps I m \<Longrightarrow> I s \<Longrightarrow> I (snd (m s))"
  by (simp add: keeps_def)

lemma keeps_ret [intro!, simp]: "keeps I (ret x)"
  by (simp add: keeps_def ret_def)

lemma keeps_raise [intro!, simp]: "keeps I (raise e)"
  by (simp add: keeps_def raise_def)

lemma keeps_gets [intro!, simp]: "keeps I (gets f)"
  by (simp add: keeps_def gets_def)

lemma keeps_liftR [intro!, simp]: "keeps I (liftR r)"
  by (simp add: keeps_def liftR_def)

lemma keeps_bindE [intro]: "keeps I m \<Longrightarrow> (\<And>x. keeps I (f x)) \<Longrightarrow> keeps I (bindE m f)"
  by (auto simp: keeps_def bindE_def split: prod.splits sum.splits)

lemma keeps_thenE [intro]: "keeps I m \<Longrightarrow> keeps I n \<Longrightarrow> keeps I (thenE m n)"
  by (auto simp: thenE_def)

lemma keeps_modify [intro]: "(\<And>s. I s \<Longrightarrow> I (f s)) \<Longrightarrow> keeps I (modify f)"
  by (simp add: keeps_def modify_def)

text \<open>
  \<open>gives I m R\<close>: the operation leaves \<open>I\<close> true whether it returns or raises, and a returned
  value has the property \<open>R\<close>. The rules follow the structure of a program.
\<close>

definition gives :: "('s \<Rightarrow> bool) \<Rightarrow> ('s, 'a) sm \<Rightarrow> ('a \<Rightarrow> bool) \<Rightarrow> bool" where
  "gives I m R \<longleftrightarrow> (\<forall>s. I s \<longrightarrow> I (snd (m s)) \<and> (\<forall>x. fst (m s) = Inr x \<longrightarrow> R x))"

named_theorems gives_rules \<open>introduction rules for \<open>gives\<close>, one per construct\<close>

lemma gives_ret [gives_rules]: "R x \<Longrightarrow> gives I (ret x) R"
  by (simp add: gives_def ret_def)

lemma gives_raise [gives_rules]: "gives I (raise e) R"
  by (simp add: gives_def raise_def)

lemma gives_gets [gives_rules]: "(\<And>s. I s \<Longrightarrow> R (f s)) \<Longrightarrow> gives I (gets f) R"
  by (simp add: gives_def gets_def)

lemma gives_modify [gives_rules]: "(\<And>s. I s \<Longrightarrow> I (f s)) \<Longrightarrow> R () \<Longrightarrow> gives I (modify f) R"
  by (simp add: gives_def modify_def)

lemma gives_liftR [gives_rules]: "(\<And>x. r = Inr x \<Longrightarrow> R x) \<Longrightarrow> gives I (liftR r) R"
  by (simp add: gives_def liftR_def)

lemma gives_bindE:
  "gives I m R \<Longrightarrow> (\<And>x. R x \<Longrightarrow> gives I (f x) Q) \<Longrightarrow> gives I (bindE m f) Q"
  by (fastforce simp: gives_def bindE_def split: prod.splits sum.splits)

lemma gives_thenE: "gives I m (\<lambda>_. True) \<Longrightarrow> gives I n Q \<Longrightarrow> gives I (thenE m n) Q"
  unfolding thenE_def by (rule gives_bindE)

lemma gives_if [gives_rules]:
  "(b \<Longrightarrow> gives I m R) \<Longrightarrow> (\<not> b \<Longrightarrow> gives I n R) \<Longrightarrow> gives I (if b then m else n) R"
  by simp

lemma gives_option [gives_rules]:
  "(r = None \<Longrightarrow> gives I m R) \<Longrightarrow> (\<And>x. r = Some x \<Longrightarrow> gives I (f x) R) \<Longrightarrow>
   gives I (case r of None \<Rightarrow> m | Some x \<Rightarrow> f x) R"
  by (cases r) auto

lemma gives_weaken: "gives I m R \<Longrightarrow> (\<And>x. R x \<Longrightarrow> Q x) \<Longrightarrow> gives I m Q"
  by (auto simp: gives_def)

lemma gives_True: "gives I m R \<Longrightarrow> gives I m (\<lambda>_. True)"
  by (simp add: gives_def)

lemma givesD: "gives I m R \<Longrightarrow> I s \<Longrightarrow> I (snd (m s))"
  by (simp add: gives_def)

lemma keeps_gives: "keeps I m \<longleftrightarrow> gives I m (\<lambda>_. True)"
  by (auto simp: keeps_def gives_def)

lemma bindE_Inr_iff:
  "bindE m f s = (Inr y, t) \<longleftrightarrow> (\<exists>x u. m s = (Inr x, u) \<and> f x u = (Inr y, t))"
  by (auto simp: bindE_def split: prod.splits sum.splits)

lemma thenE_Inr_iff:
  "thenE m n s = (Inr y, t) \<longleftrightarrow> (\<exists>x u. m s = (Inr x, u) \<and> n u = (Inr y, t))"
  by (simp add: thenE_def bindE_Inr_iff)

lemma sm_results:
  "ret x s = (Inr y, t) \<longleftrightarrow> y = x \<and> t = s" "raise e s \<noteq> (Inr y, t)"
  "gets g s = (Inr z, t) \<longleftrightarrow> z = g s \<and> t = s" "modify h s = (Inr u, t) \<longleftrightarrow> t = h s"
  "liftR r s = (Inr w, t) \<longleftrightarrow> r = Inr w \<and> t = s"
  by (auto simp: ret_def raise_def gets_def modify_def liftR_def)

lemmas sm_iffs = bindE_Inr_iff thenE_Inr_iff sm_results

text \<open>
  \<open>kept f m\<close>: the operation leaves the view \<open>f\<close> of the state as it is, whether it returns or
  raises. An operation that keeps a view keeps every invariant of the view.
\<close>

definition kept :: "('s \<Rightarrow> 'b) \<Rightarrow> ('s, 'a) sm \<Rightarrow> bool" where
  "kept f m \<longleftrightarrow> (\<forall>s. f (snd (m s)) = f s)"

named_theorems kept_rules \<open>introduction rules for \<open>kept\<close>, one per construct\<close>

lemma keptD: "kept f m \<Longrightarrow> f (snd (m s)) = f s"
  by (simp add: kept_def)

lemma kept_plain [kept_rules]:
  "kept f (ret x)" "kept f (raise e)" "kept f (gets g)" "kept f (liftR r)"
  by (simp_all add: kept_def ret_def raise_def gets_def liftR_def)

lemma kept_modify [kept_rules]: "(\<And>s. f (g s) = f s) \<Longrightarrow> kept f (modify g)"
  by (simp add: kept_def modify_def)

lemma kept_bindE [kept_rules]: "kept f m \<Longrightarrow> (\<And>x. kept f (n x)) \<Longrightarrow> kept f (bindE m n)"
  by (auto simp: kept_def bindE_def split: prod.splits sum.splits) (metis snd_conv)+

lemma kept_thenE [kept_rules]: "kept f m \<Longrightarrow> kept f n \<Longrightarrow> kept f (thenE m n)"
  unfolding thenE_def by (rule kept_bindE)

lemma kept_if [kept_rules]: "(b \<Longrightarrow> kept f m) \<Longrightarrow> (\<not> b \<Longrightarrow> kept f n) \<Longrightarrow> kept f (if b then m else n)"
  by simp

lemma kept_let [kept_rules]: "(\<And>x. x = v \<Longrightarrow> kept f (m x)) \<Longrightarrow> kept f (Let v m)"
  by simp

lemma kept_option [kept_rules]:
  "kept f m \<Longrightarrow> (\<And>x. kept f (n x)) \<Longrightarrow> kept f (case r of None \<Rightarrow> m | Some x \<Rightarrow> n x)"
  by (simp split: option.split)

lemma kept_prod [kept_rules]: "(\<And>x y. kept f (n x y)) \<Longrightarrow> kept f (case p of (x, y) \<Rightarrow> n x y)"
  by (simp split: prod.split)

lemma kept_gives: "kept f m \<Longrightarrow> gives (\<lambda>s. I (f s)) m (\<lambda>_. True)"
  by (simp add: gives_def kept_def)

lemma gives_conj: "gives I m R \<Longrightarrow> gives J m (\<lambda>_. True) \<Longrightarrow> gives (\<lambda>s. I s \<and> J s) m R"
  by (auto simp: gives_def)

lemma gives_result: "gives I m R \<Longrightarrow> I s \<Longrightarrow> m s = (Inr x, t) \<Longrightarrow> R x"
  by (auto simp: gives_def dest!: spec [of _ s])

lemma gives_anything [simp]: "gives (\<lambda>_. True) m (\<lambda>_. True)"
  by (simp add: gives_def)

end
