(* ===== verification/Byte_Memory.thy ===== *)
theory Byte_Memory
  imports Prelude
begin

text \<open>
  What the loader, the CPU and the system calls rely on when they use an address space: a
  contents function \<open>at\<close>, a read and a write that agree with it, and a write that leaves
  the bytes outside its range alone. The lemmas are proved once from these laws.
\<close>

definition holds :: "('s \<Rightarrow> int \<Rightarrow> byte option) \<Rightarrow> 's \<Rightarrow> int \<Rightarrow> bytes \<Rightarrow> bool" where
  "holds at s a bs \<longleftrightarrow> (\<forall>i < length bs. at s (a + int i) = Some (bs ! i))"

definition apart :: "int \<Rightarrow> int \<Rightarrow> int \<Rightarrow> int \<Rightarrow> bool" where
  "apart a m b n \<longleftrightarrow> a + m \<le> b \<or> b + n \<le> a"

lemma holds_Nil [simp]: "holds at s a []"
  by (simp add: holds_def)

lemma holds_append:
  "holds at s a (xs @ ys) \<longleftrightarrow> holds at s a xs \<and> holds at s (a + int (length xs)) ys"
proof (intro iffI conjI)
  assume h: "holds at s a (xs @ ys)"
  show "holds at s a xs"
    using h by (auto simp: holds_def nth_append)
  show "holds at s (a + int (length xs)) ys"
    unfolding holds_def
  proof (intro allI impI)
    fix i
    assume "i < length ys"
    with h show "at s (a + int (length xs) + int i) = Some (ys ! i)"
      by (auto simp: holds_def nth_append add.assoc dest!: spec [of _ "length xs + i"])
  qed
next
  assume h: "holds at s a xs \<and> holds at s (a + int (length xs)) ys"
  show "holds at s a (xs @ ys)"
    unfolding holds_def
  proof (intro allI impI)
    fix i
    assume i: "i < length (xs @ ys)"
    show "at s (a + int i) = Some ((xs @ ys) ! i)"
    proof (cases "i < length xs")
      case True
      with h show ?thesis by (simp add: holds_def nth_append)
    next
      case False
      with h i show ?thesis
        by (auto simp: holds_def nth_append dest!: spec [of _ "i - length xs"])
    qed
  qed
qed

text \<open>A sequence of writes, stopping at the first that raises.\<close>

fun write_all :: "(int \<Rightarrow> bytes \<Rightarrow> ('s, unit) sm) \<Rightarrow> (int \<times> bytes) list \<Rightarrow> ('s, unit) sm" where
  "write_all wr [] = ret ()"
| "write_all wr ((a, d) # ws) = thenE (wr a d) (write_all wr ws)"

locale byte_memory =
  fixes ok :: "'s \<Rightarrow> bool"
    and at :: "'s \<Rightarrow> int \<Rightarrow> byte option"
    and rd :: "int \<Rightarrow> int \<Rightarrow> 's \<Rightarrow> exn + bytes"
    and wr :: "int \<Rightarrow> bytes \<Rightarrow> ('s, unit) sm"
  assumes wr_ok: "ok s \<Longrightarrow> ok (snd (wr a d s))"
    and wr_at: "ok s \<Longrightarrow> wr a d s = (Inr (), t) \<Longrightarrow> i < length d \<Longrightarrow>
                at t (a + int i) = Some (d ! i)"
    and wr_frame: "ok s \<Longrightarrow> wr a d s = (r, t) \<Longrightarrow> at s x = Some b \<Longrightarrow>
                   x < a \<or> a + int (length d) \<le> x \<Longrightarrow> at t x = Some b"
    and rd_at: "ok s \<Longrightarrow> 0 \<le> n \<Longrightarrow> rd a n s = Inr bs \<Longrightarrow> int (length bs) = n \<and> holds at s a bs"
begin

lemma wr_holds: "ok s \<Longrightarrow> wr a d s = (Inr (), t) \<Longrightarrow> holds at t a d"
  by (simp add: holds_def wr_at)

lemma holds_wr:
  assumes "ok s" and "wr a d s = (r, t)" and "holds at s b bs"
    and "apart a (int (length d)) b (int (length bs))"
  shows "holds at t b bs"
  unfolding holds_def
proof (intro allI impI)
  fix i
  assume "i < length bs"
  with assms show "at t (b + int i) = Some (bs ! i)"
    by (intro wr_frame [of s a d r t]) (auto simp: holds_def apart_def)
qed

lemma holds_rd:
  assumes "ok s" and "holds at s a bs" and "rd a (int (length bs)) s = Inr cs"
  shows "cs = bs"
proof -
  have "length cs = length bs" "holds at s a cs"
    using rd_at [of s "int (length bs)" a cs] assms by auto
  with assms(2) show ?thesis
    by (intro nth_equalityI) (auto simp: holds_def)
qed

lemma write_all_ok: "ok s \<Longrightarrow> ok (snd (write_all wr ws s))"
proof (induction ws arbitrary: s)
  case Nil
  then show ?case by (simp add: ret_def)
next
  case (Cons w ws)
  obtain a d where w: "w = (a, d)" by (cases w)
  obtain r t where t: "wr a d s = (r, t)" by (cases "wr a d s")
  have "ok t" using wr_ok [OF Cons.prems, of a d] t by simp
  with Cons.IH [of t] w t show ?case
    by (cases r) (auto simp: thenE_def bindE_def)
qed

lemma write_all_frame:
  assumes "ok s" and "write_all wr ws s = (r, t)" and "holds at s b bs"
    and "\<forall>(a, d) \<in> set ws. apart a (int (length d)) b (int (length bs))"
  shows "holds at t b bs"
  using assms
proof (induction ws arbitrary: s)
  case Nil
  then show ?case by (simp add: ret_def)
next
  case (Cons w ws)
  obtain a d where w: "w = (a, d)" by (cases w)
  obtain q u where u: "wr a d s = (q, u)" by (cases "wr a d s")
  have u_ok: "ok u" using wr_ok [OF Cons.prems(1), of a d] u by simp
  have hu: "holds at u b bs"
    using holds_wr [OF Cons.prems(1) u Cons.prems(3)] Cons.prems(4) w by simp
  show ?case
  proof (cases q)
    case (Inl e)
    with Cons.prems(2) w u hu show ?thesis by (simp add: thenE_def bindE_def)
  next
    case (Inr v)
    with Cons.prems(2) w u have "write_all wr ws u = (r, t)"
      by (simp add: thenE_def bindE_def)
    with Cons.IH [OF u_ok _ hu] Cons.prems(4) show ?thesis by simp
  qed
qed

text \<open>Writes to pairwise disjoint ranges are all in place at the end.\<close>

lemma write_all_holds:
  assumes "ok s" and "write_all wr ws s = (Inr (), t)"
    and "sorted_wrt (\<lambda>(a, d) (b, e). apart a (int (length d)) b (int (length e))) ws"
    and "(a, d) \<in> set ws"
  shows "holds at t a d"
  using assms
proof (induction ws arbitrary: s)
  case Nil
  then show ?case by simp
next
  case (Cons w ws)
  obtain b e where w: "w = (b, e)" by (cases w)
  obtain q u where u: "wr b e s = (q, u)" by (cases "wr b e s")
  have u_ok: "ok u" using wr_ok [OF Cons.prems(1), of b e] u by simp
  from Cons.prems(2) w u have q: "q = Inr ()" and rest: "write_all wr ws u = (Inr (), t)"
    by (cases q; simp add: thenE_def bindE_def)+
  show ?case
  proof (cases "(a, d) = w")
    case True
    with w u q have "holds at u a d"
      using wr_holds [OF Cons.prems(1), of b e u] by simp
    moreover have "\<forall>(c, f) \<in> set ws. apart c (int (length f)) a (int (length d))"
      using Cons.prems(3) True by (auto simp: apart_def)
    ultimately show ?thesis
      using write_all_frame [OF u_ok rest] by blast
  next
    case False
    with Cons.prems(4) have "(a, d) \<in> set ws" by auto
    with Cons.IH [OF u_ok rest] Cons.prems(3) show ?thesis by simp
  qed
qed

end

end
