(* ===== verification/X86mem.thy ===== *)
theory X86mem
  imports Byte_Memory
begin

text \<open>
  \<open>src/x86mem.py\<close>: the flat user address space of one process, as two byte arrays.
  The low area \<open>[0, low_end)\<close> holds text, data, bss and heap; the high area
  \<open>[stack_low, TASK_SIZE)\<close> holds the stack and grows downwards when a write touches it.
  The record has the fields of \<open>AddressSpace.__slots__\<close>; what the decode cache holds is a
  type parameter, because this module only clears its slots.

  The lemmas show the invariant of the representation, that every operation keeps it, the
  address-level meaning of reads and writes (\<open>byte_at\<close>), and what a write leaves alone.
\<close>

section \<open>State\<close>

definition TASK_SIZE :: int where "TASK_SIZE = 67108864"
definition PAGE_SIZE :: int where "PAGE_SIZE = 4096"
definition ARG_AREA :: int where "ARG_AREA = 131072"
definition BRK_STACK_GAP :: int where "BRK_STACK_GAP = 16384"
definition DEFAULT_STACK :: int where "DEFAULT_STACK = 524288"
definition STACK_GROW_STEP :: int where "STACK_GROW_STEP = 65536"
definition ICACHE_MAX_TEXT :: int where "ICACHE_MAX_TEXT = 8388608"

lemmas x86mem_consts = TASK_SIZE_def PAGE_SIZE_def ARG_AREA_def BRK_STACK_GAP_def
  DEFAULT_STACK_def STACK_GROW_STEP_def ICACHE_MAX_TEXT_def

record 'e addrspace =
  low :: bytes
  low_end :: int
  stack :: bytes
  stack_low :: int
  brk :: int
  text_end :: int
  start_stack :: int
  icache :: "'e option list"

definition round_page :: "int \<Rightarrow> int" where
  "round_page x = (x + PAGE_SIZE - 1) AND NOT (PAGE_SIZE - 1)"

definition AddressSpace_init :: "int \<Rightarrow> 'e addrspace" where
  "AddressSpace_init stack_size =
     (let sz = round_page stack_size in
      \<lparr>low = [], low_end = 0, stack = replicate (nat sz) 0, stack_low = TASK_SIZE - sz,
       brk = 0, text_end = 0, start_stack = TASK_SIZE, icache = []\<rparr>)"

section \<open>Loading and growth\<close>

definition load_program :: "bytes \<Rightarrow> bytes \<Rightarrow> int \<Rightarrow> 'e addrspace \<Rightarrow> 'e addrspace" where
  "load_program text data bss s =
     (let lo = text @ data @ replicate (nat bss) 0;
          te = int (length text);
          n = (if te \<le> ICACHE_MAX_TEXT then te else 0)
      in s\<lparr>low := lo, text_end := te, low_end := int (length lo), brk := int (length lo),
           icache := replicate (nat n) None\<rparr>)"

definition set_brk :: "int \<Rightarrow> ('e addrspace, int) sm" where
  "set_brk addr s =
     (let s' = (if text_end s \<le> addr \<and> addr < start_stack s - BRK_STACK_GAP then
                  (if addr > low_end s
                   then s\<lparr>low := low s @ replicate (nat (addr - low_end s)) 0,
                          low_end := addr, brk := addr\<rparr>
                   else s\<lparr>brk := addr\<rparr>)
                else s)
      in (Inr (brk s'), s'))"

definition grow_stack :: "int \<Rightarrow> 'e addrspace \<Rightarrow> bool \<times> 'e addrspace" where
  "grow_stack addr s =
     (if addr \<ge> stack_low s \<or> addr < low_end s then (False, s)
      else
        let need = stack_low s - addr;
            step = round_page (max need STACK_GROW_STEP);
            new_low = stack_low s - step
        in if new_low < low_end s then
             let new_low = low_end s; step = stack_low s - new_low
             in if step \<le> 0 then (False, s)
                else (True, s\<lparr>stack := replicate (nat step) 0 @ stack s, stack_low := new_low\<rparr>)
           else (True, s\<lparr>stack := replicate (nat step) 0 @ stack s, stack_low := new_low\<rparr>))"

definition clone :: "'e addrspace \<Rightarrow> 'e addrspace" where
  "clone s = \<lparr>low = low s, low_end = low_end s, stack = stack s, stack_low = stack_low s,
              brk = brk s, text_end = text_end s, start_stack = start_stack s,
              icache = icache s\<rparr>"

definition flush_icache :: "int \<Rightarrow> int \<Rightarrow> 'e addrspace \<Rightarrow> 'e addrspace" where
  "flush_icache addr n s =
     (let cache = icache s;
          lo = (if addr > 15 then addr - 15 else 0);
          hi = (if addr + n > int (length cache) then int (length cache) else addr + n)
      in if lo < hi
         then s\<lparr>icache := blit cache (nat lo) (replicate (nat (hi - lo)) None)\<rparr>
         else s)"

section \<open>Reads and writes\<close>

definition in_low :: "int \<Rightarrow> int \<Rightarrow> 'e addrspace \<Rightarrow> bool" where
  "in_low addr n s \<longleftrightarrow> 0 \<le> addr \<and> addr + n \<le> low_end s"

definition in_stack :: "int \<Rightarrow> int \<Rightarrow> 'e addrspace \<Rightarrow> bool" where
  "in_stack addr n s \<longleftrightarrow> addr \<ge> stack_low s \<and> addr + n \<le> TASK_SIZE"

definition mem_read :: "int \<Rightarrow> int \<Rightarrow> 'e addrspace \<Rightarrow> exn + bytes" where
  "mem_read addr n s =
     (if in_low addr n s then Inr (py_slice (low s) addr (addr + n))
      else if in_stack addr n s then
        Inr (py_slice (stack s) (addr - stack_low s) (addr - stack_low s + n))
      else Inl (SegFault addr n False))"

definition poke_low :: "int \<Rightarrow> bytes \<Rightarrow> 'e addrspace \<Rightarrow> 'e addrspace" where
  "poke_low addr data s =
     (let s' = s\<lparr>low := blit (low s) (nat addr) data\<rparr>
      in if addr < text_end s' then flush_icache addr (int (length data)) s' else s')"

definition poke_stack :: "int \<Rightarrow> bytes \<Rightarrow> 'e addrspace \<Rightarrow> 'e addrspace" where
  "poke_stack addr data s = s\<lparr>stack := blit (stack s) (nat (addr - stack_low s)) data\<rparr>"

lemma round_page_div: "round_page x = (x + 4095) div 4096 * 4096"
proof -
  have "(x + 4095) AND NOT (mask 12 :: int) = push_bit 12 (drop_bit 12 (x + 4095))"
    by (rule bit_eqI) (auto simp: bit_simps)
  then show ?thesis
    by (simp add: round_page_def PAGE_SIZE_def mask_eq_exp_minus_1 push_bit_eq_mult
        drop_bit_eq_div add.commute)
qed

lemma round_page_bounds: "x \<le> round_page x" "round_page x < x + 4096"
  unfolding round_page_div by linarith+

lemma grow_stack_decreases:
  "fst (grow_stack addr s) \<Longrightarrow>
   low_end s \<le> stack_low (snd (grow_stack addr s)) \<and>
   stack_low (snd (grow_stack addr s)) \<le> addr \<and> addr < stack_low s \<and>
   low_end (snd (grow_stack addr s)) = low_end s"
  using round_page_bounds [of "max (stack_low s - addr) STACK_GROW_STEP"]
  by (auto simp: grow_stack_def Let_def STACK_GROW_STEP_def split: if_splits)

function mem_write :: "int \<Rightarrow> bytes \<Rightarrow> ('e addrspace, unit) sm" where
  "mem_write addr data s =
     (let n = int (length data) in
      if in_low addr n s then (Inr (), poke_low addr data s)
      else if in_stack addr n s then (Inr (), poke_stack addr data s)
      else if 0 \<le> addr \<and> addr < stack_low s then
        (case grow_stack addr s of
           (True, s') \<Rightarrow> mem_write addr data s'
         | (False, s') \<Rightarrow> (Inl (SegFault addr n True), s'))
      else (Inl (SegFault addr n True), s))"
  by pat_completeness auto

termination
proof (relation "measure (\<lambda>(addr, data, s). nat (stack_low s - low_end s))", goal_cases)
  case 1
  then show ?case by simp
next
  case (2 addr data s n g s')
  then have "fst (grow_stack addr s)" "s' = snd (grow_stack addr s)"
    by (metis fst_conv, metis snd_conv)
  with grow_stack_decreases [of addr s] show ?case by simp
qed

declare mem_write.simps [simp del]

definition read_u8 :: "int \<Rightarrow> 'e addrspace \<Rightarrow> exn + int" where
  "read_u8 addr s =
     (if 0 \<le> addr \<and> addr < low_end s then Inr (uint (low s ! nat addr))
      else if stack_low s \<le> addr \<and> addr < TASK_SIZE
      then Inr (uint (stack s ! nat (addr - stack_low s)))
      else Inl (SegFault addr 1 False))"

definition read_u16 :: "int \<Rightarrow> 'e addrspace \<Rightarrow> exn + int" where
  "read_u16 addr s =
     (if in_low addr 2 s then Inr (u16_at (low s) (nat addr))
      else if in_stack addr 2 s then Inr (u16_at (stack s) (nat (addr - stack_low s)))
      else Inl (SegFault addr 2 False))"

definition read_u32 :: "int \<Rightarrow> 'e addrspace \<Rightarrow> exn + int" where
  "read_u32 addr s =
     (if in_low addr 4 s then Inr (u32_at (low s) (nat addr))
      else if in_stack addr 4 s then Inr (u32_at (stack s) (nat (addr - stack_low s)))
      else Inl (SegFault addr 4 False))"

definition write_u8 :: "int \<Rightarrow> int \<Rightarrow> ('e addrspace, unit) sm" where
  "write_u8 addr val s =
     (let val = val AND 0xFF in
      if 0 \<le> addr \<and> addr < low_end s then (Inr (), poke_low addr [word_of_int val] s)
      else if stack_low s \<le> addr \<and> addr < TASK_SIZE
      then (Inr (), poke_stack addr [word_of_int val] s)
      else mem_write addr [word_of_int val] s)"

definition write_u16 :: "int \<Rightarrow> int \<Rightarrow> ('e addrspace, unit) sm" where
  "write_u16 addr val s =
     (let val = val AND 0xFFFF in
      if in_low addr 2 s then (Inr (), poke_low addr (pack16 val) s)
      else if in_stack addr 2 s then (Inr (), poke_stack addr (pack16 val) s)
      else mem_write addr (pack16 val) s)"

definition write_u32 :: "int \<Rightarrow> int \<Rightarrow> ('e addrspace, unit) sm" where
  "write_u32 addr val s =
     (let val = val AND 0xFFFFFFFF in
      if in_low addr 4 s then (Inr (), poke_low addr (pack32 val) s)
      else if in_stack addr 4 s then (Inr (), poke_stack addr (pack32 val) s)
      else mem_write addr (pack32 val) s)"

text \<open>The loop of \<open>read_cstr\<close>: at most \<open>limit\<close> bytes, collected until a NUL.\<close>

fun read_cstr_loop :: "nat \<Rightarrow> int \<Rightarrow> int \<Rightarrow> bytes \<Rightarrow> 'e addrspace \<Rightarrow> exn + bytes" where
  "read_cstr_loop 0 addr limit out s = Inl (SegFault addr limit False)"
| "read_cstr_loop (Suc k) addr limit out s =
     bindR (read_u8 (addr + int (length out)) s)
       (\<lambda>b. if b = 0 then Inr out
            else read_cstr_loop k addr limit (out @ [word_of_int b]) s)"

definition read_cstr :: "int \<Rightarrow> int \<Rightarrow> 'e addrspace \<Rightarrow> exn + bytes" where
  "read_cstr addr limit s = read_cstr_loop (nat limit) addr limit [] s"

section \<open>The representation invariant\<close>

definition as_wf :: "'e addrspace \<Rightarrow> bool" where
  "as_wf s \<longleftrightarrow> low_end s = int (length (low s)) \<and> stack_low s + int (length (stack s)) = TASK_SIZE
     \<and> 0 \<le> stack_low s \<and> 0 \<le> text_end s \<and> text_end s \<le> low_end s
     \<and> int (length (icache s)) \<le> text_end s"

text \<open>The two areas do not overlap. \<open>set_brk\<close> does not keep this in general.\<close>

definition separated :: "'e addrspace \<Rightarrow> bool" where
  "separated s \<longleftrightarrow> low_end s \<le> stack_low s"

lemma as_wf_init:
  assumes "0 \<le> n" and "n \<le> TASK_SIZE"
  shows "as_wf (AddressSpace_init n)" "separated (AddressSpace_init n)"
proof -
  have "round_page n \<le> TASK_SIZE" "0 \<le> round_page n"
    using assms by (auto simp: round_page_div TASK_SIZE_def)
  then show "as_wf (AddressSpace_init n)" "separated (AddressSpace_init n)"
    by (simp_all add: as_wf_def separated_def AddressSpace_init_def Let_def)
qed

lemma as_wf_load_program: "as_wf s \<Longrightarrow> as_wf (load_program text data bss s)"
  by (auto simp: as_wf_def load_program_def Let_def)

lemma as_wf_set_brk: "as_wf s \<Longrightarrow> as_wf (snd (set_brk addr s))"
  by (auto simp: as_wf_def set_brk_def Let_def)

lemma as_wf_grow_stack: "as_wf s \<Longrightarrow> as_wf (snd (grow_stack addr s))"
  using round_page_bounds [of "max (stack_low s - addr) STACK_GROW_STEP"]
  by (auto simp: as_wf_def grow_stack_def Let_def STACK_GROW_STEP_def)

lemma as_wf_flush: "as_wf s \<Longrightarrow> as_wf (flush_icache addr n s)"
  by (auto simp: as_wf_def flush_icache_def Let_def)

lemma flush_icache_fields [simp]:
  "low (flush_icache addr n s) = low s" "low_end (flush_icache addr n s) = low_end s"
  "stack (flush_icache addr n s) = stack s" "stack_low (flush_icache addr n s) = stack_low s"
  "brk (flush_icache addr n s) = brk s" "text_end (flush_icache addr n s) = text_end s"
  "start_stack (flush_icache addr n s) = start_stack s"
  by (simp_all add: flush_icache_def Let_def)

lemma poke_low_fields [simp]:
  "low (poke_low addr data s) = blit (low s) (nat addr) data"
  "low_end (poke_low addr data s) = low_end s"
  "stack (poke_low addr data s) = stack s" "stack_low (poke_low addr data s) = stack_low s"
  "brk (poke_low addr data s) = brk s" "text_end (poke_low addr data s) = text_end s"
  "start_stack (poke_low addr data s) = start_stack s"
  by (simp_all add: poke_low_def Let_def)

lemma poke_stack_fields [simp]:
  "stack (poke_stack addr data s) = blit (stack s) (nat (addr - stack_low s)) data"
  "low (poke_stack addr data s) = low s" "low_end (poke_stack addr data s) = low_end s"
  "stack_low (poke_stack addr data s) = stack_low s" "brk (poke_stack addr data s) = brk s"
  "text_end (poke_stack addr data s) = text_end s"
  "start_stack (poke_stack addr data s) = start_stack s"
  "icache (poke_stack addr data s) = icache s"
  by (simp_all add: poke_stack_def)

lemma as_wf_poke_low:
  assumes "as_wf s" and "in_low addr (int (length data)) s"
  shows "as_wf (poke_low addr data s)"
proof -
  have "as_wf (s\<lparr>low := blit (low s) (nat addr) data\<rparr>)"
    using assms by (auto simp: as_wf_def in_low_def)
  then show ?thesis by (simp add: poke_low_def Let_def as_wf_flush)
qed

lemma as_wf_poke_stack:
  "as_wf s \<Longrightarrow> in_stack addr (int (length data)) s \<Longrightarrow> as_wf (poke_stack addr data s)"
  by (auto simp: as_wf_def in_stack_def poke_stack_def)

text \<open>The recursion of \<open>write\<close> is at most one level deep.\<close>

lemma mem_write_unfold:
  "mem_write addr data s =
     (let n = int (length data) in
      if in_low addr n s then (Inr (), poke_low addr data s)
      else if in_stack addr n s then (Inr (), poke_stack addr data s)
      else if 0 \<le> addr \<and> addr < stack_low s then
        (case grow_stack addr s of
           (True, t) \<Rightarrow> if in_stack addr n t then (Inr (), poke_stack addr data t)
                       else (Inl (SegFault addr n True), t)
         | (False, t) \<Rightarrow> (Inl (SegFault addr n True), t))
      else (Inl (SegFault addr n True), s))"
proof (cases "grow_stack addr s")
  case (Pair g t)
  have "mem_write addr data t =
      (if in_stack addr (int (length data)) t then (Inr (), poke_stack addr data t)
       else (Inl (SegFault addr (int (length data)) True), t))"
    if "g" and "\<not> in_low addr (int (length data)) s"
    using that Pair grow_stack_decreases [of addr s]
    by (subst mem_write.simps) (auto simp: in_low_def Let_def)
  with Pair show ?thesis
    by (subst mem_write.simps) (auto simp: Let_def split: bool.splits)
qed

lemma grow_stack_cases:
  obtains (no) "fst (grow_stack addr s) = False" "snd (grow_stack addr s) = s"
  | (yes) t k where "grow_stack addr s = (True, t)"
      "t = s\<lparr>stack := replicate k 0 @ stack s, stack_low := stack_low s - int k\<rparr>"
      "low_end s \<le> stack_low s - int k" "stack_low s - int k \<le> addr"
proof (cases "fst (grow_stack addr s)")
  case True
  define step where "step = round_page (max (stack_low s - addr) STACK_GROW_STEP)"
  define k where "k = nat (if stack_low s - step < low_end s then stack_low s - low_end s else step)"
  have step: "0 < step"
    using round_page_bounds(1) [of "max (stack_low s - addr) STACK_GROW_STEP"]
    by (simp add: step_def STACK_GROW_STEP_def)
  have "snd (grow_stack addr s) =
      s\<lparr>stack := replicate k 0 @ stack s, stack_low := stack_low s - int k\<rparr>"
    using True step
    by (auto simp: grow_stack_def Let_def k_def step_def [symmetric] split: if_splits)
  moreover have "grow_stack addr s = (True, snd (grow_stack addr s))"
    using True by (metis prod.collapse)
  moreover have "low_end s \<le> stack_low (snd (grow_stack addr s))"
    "stack_low (snd (grow_stack addr s)) \<le> addr"
    using grow_stack_decreases [OF True] by auto
  ultimately show thesis
    by (intro yes [of "snd (grow_stack addr s)" k]) auto
next
  case False
  then have "snd (grow_stack addr s) = s"
    by (auto simp: grow_stack_def Let_def split: if_splits)
  with False show thesis by (intro no) auto
qed

section \<open>Address-level meaning\<close>

definition byte_at :: "'e addrspace \<Rightarrow> int \<Rightarrow> byte option" where
  "byte_at s a =
     (if 0 \<le> a \<and> a < low_end s then Some (low s ! nat a)
      else if stack_low s \<le> a \<and> a < TASK_SIZE then Some (stack s ! nat (a - stack_low s))
      else None)"

definition mem_ok :: "'e addrspace \<Rightarrow> bool" where
  "mem_ok s \<longleftrightarrow> as_wf s \<and> separated s"

lemma mem_ok_write: "mem_ok s \<Longrightarrow> mem_ok (snd (mem_write a d s))"
  by (rule grow_stack_cases [of a s])
    (auto simp: mem_ok_def mem_write_unfold Let_def as_wf_poke_low as_wf_poke_stack separated_def
      as_wf_grow_stack split: prod.splits bool.splits
      dest: as_wf_grow_stack [of s a] grow_stack_decreases [of a s])

lemma byte_at_grow:
  assumes "as_wf s" and "byte_at s x = Some b"
    and "t = s\<lparr>stack := replicate k 0 @ stack s, stack_low := stack_low s - int k\<rparr>"
  shows "byte_at t x = Some b"
proof -
  have "nat (x - (stack_low s - int k)) - k = nat (x - stack_low s)"
    by arith
  with assms show ?thesis
    by (auto simp: byte_at_def as_wf_def nth_append split: if_splits)
qed

lemma byte_at_poke_low:
  assumes "as_wf s" and "in_low a (int (length d)) s"
  shows "byte_at (poke_low a d s) x =
    (if a \<le> x \<and> x < a + int (length d) then Some (d ! nat (x - a)) else byte_at s x)"
  using assms by (auto simp: byte_at_def as_wf_def in_low_def nth_blit nat_diff_distrib)

lemma byte_at_poke_stack:
  assumes "mem_ok s" and "in_stack a (int (length d)) s"
  shows "byte_at (poke_stack a d s) x =
    (if a \<le> x \<and> x < a + int (length d) then Some (d ! nat (x - a)) else byte_at s x)"
  using assms
  by (auto simp: byte_at_def mem_ok_def separated_def as_wf_def in_stack_def nth_blit
      nat_diff_distrib)

lemma mem_write_error_state:
  assumes "mem_write a d s = (Inl e, t)"
  shows "t = s \<or> t = snd (grow_stack a s) \<and> fst (grow_stack a s)"
  using assms
  by (auto simp: mem_write_unfold Let_def grow_stack_def split: if_splits prod.splits bool.splits)

lemma byte_at_grow_stack:
  assumes "as_wf s" and "byte_at s x = Some b"
  shows "byte_at (snd (grow_stack a s)) x = Some b"
proof (rule grow_stack_cases [of a s])
  assume "snd (grow_stack a s) = s"
  with assms show ?thesis by simp
next
  fix t k
  assume "grow_stack a s = (True, t)"
    and "t = s\<lparr>stack := replicate k 0 @ stack s, stack_low := stack_low s - int k\<rparr>"
  with byte_at_grow [OF assms] show ?thesis by simp
qed

lemma mem_write_error_frame:
  assumes "mem_ok s" and "mem_write a d s = (Inl e, t)" and "byte_at s x = Some b"
  shows "byte_at t x = Some b"
  using mem_write_error_state [OF assms(2)] assms(1,3) byte_at_grow_stack [of s x b a]
  by (auto simp: mem_ok_def)

lemma mem_write_effect:
  fixes s t :: "'e addrspace"
  assumes "mem_ok s" and "mem_write a d s = (Inr (), t)"
  obtains u :: "'e addrspace" where "mem_ok u" "\<And>x b. byte_at s x = Some b \<Longrightarrow> byte_at u x = Some b"
    "\<And>x. byte_at t x = (if a \<le> x \<and> x < a + int (length d) then Some (d ! nat (x - a))
                        else byte_at u x)"
proof (cases "in_low a (int (length d)) s \<or> in_stack a (int (length d)) s")
  case True
  with assms show thesis
    by (intro that [of s])
      (auto simp: mem_write_unfold Let_def byte_at_poke_low byte_at_poke_stack mem_ok_def
        split: if_splits)
next
  case False
  from assms False obtain u where u: "grow_stack a s = (True, u)"
      "in_stack a (int (length d)) u" "t = poke_stack a d u"
    by (auto simp: mem_write_unfold Let_def split: if_splits prod.splits bool.splits)
  have "mem_ok u"
    using assms(1) u(1) as_wf_grow_stack [of s a] grow_stack_decreases [of a s]
    by (auto simp: mem_ok_def separated_def)
  moreover have "byte_at u x = Some b" if "byte_at s x = Some b" for x b
    using byte_at_grow_stack [of s x b a] u(1) that assms(1) by (simp add: mem_ok_def)
  ultimately show thesis
    using u by (intro that [of u]) (simp_all add: byte_at_poke_stack)
qed

lemma mem_write_at:
  assumes "mem_ok s" and "mem_write a d s = (Inr (), t)" and "i < length d"
  shows "byte_at t (a + int i) = Some (d ! i)"
  by (rule mem_write_effect [OF assms(1,2)]) (use assms(3) in simp)

lemma mem_write_frame:
  assumes "mem_ok s" and "mem_write a d s = (r, t)" and "byte_at s x = Some b"
    and "x < a \<or> a + int (length d) \<le> x"
  shows "byte_at t x = Some b"
proof (cases r)
  case (Inl e)
  with assms show ?thesis by (auto intro: mem_write_error_frame)
next
  case (Inr y)
  with assms(2) have "mem_write a d s = (Inr (), t)" by simp
  then show ?thesis
    by (rule mem_write_effect [OF assms(1)]) (use assms(3,4) in auto)
qed

lemma mem_read_holds:
  assumes "mem_ok s" and "0 \<le> n" and "mem_read a n s = Inr bs"
  shows "int (length bs) = n \<and> holds byte_at s a bs"
proof (cases "in_low a n s")
  case True
  with assms show ?thesis
    by (auto simp: mem_read_def py_slice_nonneg in_low_def mem_ok_def as_wf_def holds_def
        byte_at_def nat_add_distrib)
next
  case False
  with assms have st: "in_stack a n s"
    and bs: "bs = py_slice (stack s) (a - stack_low s) (a - stack_low s + n)"
    by (auto simp: mem_read_def split: if_splits)
  define k where "k = nat (a - stack_low s)"
  have k: "a = stack_low s + int k" using st by (simp add: k_def in_stack_def)
  have "bs = take (nat n) (drop k (stack s))"
    using bs assms(2) k by (simp add: py_slice_nonneg nat_add_distrib)
  with st k assms show ?thesis
    by (auto simp: in_stack_def mem_ok_def separated_def as_wf_def holds_def byte_at_def
        nat_add_distrib)
qed

interpretation addrspace: byte_memory mem_ok byte_at mem_read mem_write
  by unfold_locales
    (fact mem_ok_write mem_write_at mem_write_frame mem_read_holds)+

section \<open>The sized accessors\<close>

text \<open>
  The \<open>struct\<close> fast paths of the sized accessors do what the general \<open>read\<close> and
  \<open>write\<close> do.
\<close>

lemma write_u8_eq: "write_u8 a v s = mem_write a [word_of_int v] s"
  by (simp add: write_u8_def mem_write_unfold Let_def in_low_def in_stack_def and_masks
      word_of_int_mod_byte)

lemma write_u16_eq: "write_u16 a v s = mem_write a (pack16 v) s"
  by (simp add: write_u16_def mem_write_unfold Let_def and_masks pack16_mod)

lemma write_u32_eq: "write_u32 a v s = mem_write a (pack32 v) s"
  by (simp add: write_u32_def mem_write_unfold Let_def and_masks pack32_mod)

lemma read_u8_at: "read_u8 a s =
    (case byte_at s a of Some b \<Rightarrow> Inr (uint b) | None \<Rightarrow> Inl (SegFault a 1 False))"
  by (simp add: read_u8_def byte_at_def)

lemma read_u16_eq:
  "as_wf s \<Longrightarrow> read_u16 a s = bindR (mem_read a 2 s) (\<lambda>bs. Inr (le16 bs))"
  by (auto simp: read_u16_def mem_read_def in_low_def in_stack_def py_slice_nonneg u16_at_def
      le16_take as_wf_def)

lemma read_u32_eq:
  "as_wf s \<Longrightarrow> read_u32 a s = bindR (mem_read a 4 s) (\<lambda>bs. Inr (le32 bs))"
  by (auto simp: read_u32_def mem_read_def in_low_def in_stack_def py_slice_nonneg u32_at_def
      le32_take as_wf_def)

lemma mem_read_after_write:
  assumes "as_wf s" and "mem_write a d s = (Inr (), t)"
  shows "mem_read a (int (length d)) t = Inr d"
proof -
  have low: "mem_read a (int (length d)) (poke_low a d u) = Inr d"
    if "as_wf u" "in_low a (int (length d)) u" for u :: "'a addrspace"
    using that by (auto simp: mem_read_def in_low_def py_slice_nonneg nat_add_distrib
        take_drop_blit_same as_wf_def)
  have st: "mem_read a (int (length d)) (poke_stack a d u) = Inr d"
    if "as_wf u" "\<not> in_low a (int (length d)) u" "in_stack a (int (length d)) u"
    for u :: "'a addrspace"
    using that by (auto simp: mem_read_def in_low_def in_stack_def py_slice_nonneg
        take_drop_blit_same as_wf_def nat_diff_distrib)
  show ?thesis
    using assms as_wf_grow_stack [OF assms(1), of a] grow_stack_decreases [of a s]
    by (auto simp: mem_write_unfold Let_def low st in_low_def split: if_splits prod.splits
        bool.splits intro!: st)
qed

lemma read_u16_after_write:
  "as_wf s \<Longrightarrow> write_u16 a v s = (Inr (), t) \<Longrightarrow> as_wf t \<Longrightarrow> read_u16 a t = Inr (v mod 65536)"
  using mem_read_after_write [of s a "pack16 v" t]
  by (simp add: write_u16_eq read_u16_eq le16_pack16)

lemma read_u32_after_write:
  "as_wf s \<Longrightarrow> write_u32 a v s = (Inr (), t) \<Longrightarrow> as_wf t \<Longrightarrow> read_u32 a t = Inr (v mod 4294967296)"
  using mem_read_after_write [of s a "pack32 v" t]
  by (simp add: write_u32_eq read_u32_eq le32_pack32)

lemma read_u8_after_write:
  "mem_ok s \<Longrightarrow> write_u8 a v s = (Inr (), t) \<Longrightarrow> read_u8 a t = Inr (v mod 256)"
  using mem_write_at [of s a "[word_of_int v]" t 0]
  by (simp add: write_u8_eq read_u8_at uint_byte_of_int)

section \<open>Loading, growing and copying\<close>


text \<open>What survives in the decode cache after a write that starts in the text.\<close>

lemma flush_icache_survivor:
  assumes "i < length (icache (flush_icache a n s))" and "icache (flush_icache a n s) ! i = Some e"
    and "0 \<le> a" and "0 \<le> n"
  shows "i < length (icache s) \<and> icache s ! i = Some e \<and> (int i + 15 < a \<or> a + n \<le> int i)"
proof -
  define lo where "lo = (if a > 15 then a - 15 else 0)"
  define hi where "hi = (if a + n > int (length (icache s)) then int (length (icache s)) else a + n)"
  have f: "icache (flush_icache a n s) =
      (if lo < hi then blit (icache s) (nat lo) (replicate (nat (hi - lo)) None) else icache s)"
    by (simp add: flush_icache_def Let_def lo_def hi_def)
  show ?thesis
  proof (cases "lo < hi")
    case True
    have b: "nat lo + length (replicate (nat (hi - lo)) (None :: 'a option)) \<le> length (icache s)"
      using True assms(3) by (auto simp: lo_def hi_def split: if_splits)
    have i: "i < length (icache s)" using assms(1) b by (simp add: f True)
    from assms(2) have "\<not> (lo \<le> int i \<and> int i < hi) \<and> icache s ! i = Some e"
      using True by (auto simp: f nth_blit [OF b i] nth_blit [OF b i, simplified]
          split: if_splits)
    with i assms(3) show ?thesis by (auto simp: lo_def hi_def split: if_splits)
  next
    case False
    with assms show ?thesis by (auto simp: f lo_def hi_def split: if_splits)
  qed
qed

text \<open>\<open>sys_brk\<close> as the source has it: it keeps the invariant, but not the separation.\<close>

lemma set_brk_spec:
  "set_brk addr s = (Inr (brk t), t) \<longleftrightarrow> t = snd (set_brk addr s)"
  by (auto simp: set_brk_def Let_def)

lemma set_brk_bytes:
  assumes "as_wf s" and "byte_at s x = Some b" and "x < low_end s"
  shows "byte_at (snd (set_brk addr s)) x = Some b"
  using assms by (auto simp: set_brk_def Let_def byte_at_def nth_append as_wf_def split: if_splits)

lemma set_brk_zero:
  assumes "as_wf s" and "text_end s \<le> addr" and "addr < start_stack s - 16384"
    and "low_end s \<le> x" and "x < addr"
  shows "byte_at (snd (set_brk addr s)) x = Some 0"
proof -
  have "nat x < length (low s) + nat (addr - low_end s)" "\<not> nat x < length (low s)"
    using assms by (auto simp: as_wf_def)
  then show ?thesis
    using assms by (auto simp: set_brk_def Let_def byte_at_def nth_append as_wf_def BRK_STACK_GAP_def)
qed

lemma load_program_bytes:
  assumes "as_wf s" and "int (length text + length data) + bss \<le> stack_low s" and "0 \<le> bss"
  shows "mem_ok (load_program text data bss s)"
    and "holds byte_at (load_program text data bss s) 0 (text @ data @ replicate (nat bss) 0)"
    and "stack_low s \<le> a \<Longrightarrow> a < TASK_SIZE \<Longrightarrow>
         byte_at (load_program text data bss s) a = Some (stack s ! nat (a - stack_low s))"
proof -
  show "mem_ok (load_program text data bss s)"
    using assms as_wf_load_program [OF assms(1)]
    by (simp add: mem_ok_def separated_def) (simp add: load_program_def Let_def)
  show "holds byte_at (load_program text data bss s) 0 (text @ data @ replicate (nat bss) 0)"
    using assms(3) by (auto simp: holds_def byte_at_def load_program_def Let_def)
  show "byte_at (load_program text data bss s) a = Some (stack s ! nat (a - stack_low s))"
    if "stack_low s \<le> a" "a < TASK_SIZE"
    using that assms by (auto simp: byte_at_def load_program_def Let_def)
qed

section \<open>C strings\<close>

lemma read_cstr_loop_spec:
  assumes "read_cstr_loop k a limit out s = Inr bs"
  shows "\<exists>rest. bs = out @ rest \<and> length rest < k \<and> 0 \<notin> set rest \<and>
    holds byte_at s (a + int (length out)) (rest @ [0])"
  using assms
proof (induction k a limit out s rule: read_cstr_loop.induct)
  case (1 a limit out s)
  then show ?case by simp
next
  case (2 k a limit out s)
  then obtain b where b: "byte_at s (a + int (length out)) = Some b"
    by (auto simp: bindR_Inr_iff read_u8_at split: option.splits)
  then have r: "read_u8 (a + int (length out)) s = Inr (uint b)" by (simp add: read_u8_at)
  show ?case
  proof (cases "b = 0")
    case True
    with 2 r b show ?thesis by (intro exI [of _ "[]"]) (simp add: holds_def)
  next
    case False
    then have nz: "uint b \<noteq> 0" by (simp add: uint_0_iff)
    with "2.prems" r have "read_cstr_loop k a limit (out @ [b]) s = Inr bs" by simp
    with "2.IH" [OF r nz] obtain rest where "bs = (out @ [b]) @ rest" "length rest < k"
      "0 \<notin> set rest" "holds byte_at s (a + int (length (out @ [b]))) (rest @ [0])"
      by auto
    moreover from this(4) b have "holds byte_at s (a + int (length out)) ([b] @ rest @ [0])"
      unfolding holds_append by (simp add: holds_def add.assoc add.left_commute)
    ultimately show ?thesis using False by (intro exI [of _ "b # rest"]) auto
  qed
qed

lemma read_cstr_loop_complete:
  assumes "holds byte_at s (a + int (length out)) (rest @ [0])" and "0 \<notin> set rest"
    and "length rest < k"
  shows "read_cstr_loop k a limit out s = Inr (out @ rest)"
  using assms
proof (induction rest arbitrary: k out)
  case Nil
  then obtain k' where "k = Suc k'" by (cases k) auto
  with Nil show ?case by (simp add: holds_def read_u8_at)
next
  case (Cons b rest)
  then obtain k' where k: "k = Suc k'" by (cases k) auto
  have h: "holds byte_at s (a + int (length out)) ([b] @ rest @ [0])" using Cons.prems by simp
  then have b: "read_u8 (a + int (length out)) s = Inr (uint b)"
    unfolding holds_append by (simp add: holds_def read_u8_at)
  have "holds byte_at s (a + int (length (out @ [b]))) (rest @ [0])"
    using h unfolding holds_append by (simp add: add.assoc add.commute add.left_commute)
  with Cons.IH [of "out @ [b]" k'] Cons.prems k b show ?case by (simp add: uint_0_iff)
qed

lemma read_cstr_iff:
  "read_cstr a limit s = Inr bs \<longleftrightarrow>
     int (length bs) < limit \<and> 0 \<notin> set bs \<and> holds byte_at s a (bs @ [0])"
proof
  assume "read_cstr a limit s = Inr bs"
  then show "int (length bs) < limit \<and> 0 \<notin> set bs \<and> holds byte_at s a (bs @ [0])"
    using read_cstr_loop_spec [of "nat limit" a limit "[]" s bs] by (auto simp: read_cstr_def)
next
  assume "int (length bs) < limit \<and> 0 \<notin> set bs \<and> holds byte_at s a (bs @ [0])"
  then show "read_cstr a limit s = Inr bs"
    using read_cstr_loop_complete [of s a "[]" bs "nat limit" limit] by (auto simp: read_cstr_def)
qed

end
