(* ===== verification/X86mem_Props.thy ===== *)
theory X86mem_Props
  imports X86mem
begin

text \<open>
  The properties of the address space, with the concrete space their witnesses use.
\<close>

section \<open>The address space (x86mem)\<close>

text \<open>C30: a successful write to the address space reads back exactly, leaves every other
  mapped byte unchanged and keeps the representation invariant; it may have grown the stack.\<close>

lemma write_then_read:
  assumes "mem_ok s" and "mem_write a d s = (Inr (), t)"
  shows "mem_ok t \<and> mem_read a (int (length d)) t = Inr d \<and>
    (\<forall>x b. byte_at s x = Some b \<longrightarrow> (x < a \<or> a + int (length d) \<le> x) \<longrightarrow> byte_at t x = Some b)"
  using mem_ok_write [OF assms(1), of a d] mem_read_after_write [OF _ assms(2)]
    mem_write_frame [OF assms] assms by (auto simp: mem_ok_def)

definition small_space :: "unit addrspace" where
  "small_space = \<lparr>low = replicate 8192 0x90, low_end = 8192, stack = replicate 4096 7,
     stack_low = TASK_SIZE - 4096, brk = 8192, text_end = 64, start_stack = TASK_SIZE,
     icache = replicate 64 (Some ())\<rparr>"

lemma small_space_ok: "mem_ok small_space"
  by (simp add: mem_ok_def as_wf_def separated_def small_space_def TASK_SIZE_def)

lemma write_then_read_witness:
  "mem_read 67104764 2 (snd (mem_write 67104764 [1, 2] small_space)) = Inr [1, 2]"
proof -
  have "fst (mem_write 67104764 [1, 2] small_space) = Inr ()"
    by (simp add: mem_write_unfold small_space_def in_low_def in_stack_def grow_stack_def
        round_page_div TASK_SIZE_def STACK_GROW_STEP_def)
  then have "mem_write 67104764 [1, 2] small_space =
      (Inr (), snd (mem_write 67104764 [1, 2] small_space))"
    by (metis prod.collapse)
  from write_then_read [OF small_space_ok this] show ?thesis by simp
qed

text \<open>The sized stores wrap their value to the width and the sized loads return the
  wrapped value, although both take the \<open>struct\<close> fast paths instead of the general ones.\<close>

lemma sized_store_load:
  assumes "mem_ok s"
  shows "(write_u8 a v s = (Inr (), t) \<longrightarrow> read_u8 a t = Inr (v mod 2 ^ 8)) \<and>
    (write_u16 a v s = (Inr (), t) \<longrightarrow> read_u16 a t = Inr (v mod 2 ^ 16)) \<and>
    (write_u32 a v s = (Inr (), t) \<longrightarrow> read_u32 a t = Inr (v mod 2 ^ 32))"
proof -
  have wf: "as_wf t" if "mem_write a d s = (Inr (), t)" for d
    using mem_ok_write [OF assms, of a d] that by (simp add: mem_ok_def)
  show ?thesis
    using read_u8_after_write [OF assms, of a v t] read_u16_after_write [of s a v t]
      read_u32_after_write [of s a v t] wf assms
    by (simp add: write_u16_eq write_u32_eq mem_ok_def)
qed

lemma sized_store_load_witness:
  "read_u32 4096 (snd (write_u32 4096 (- 2) small_space)) = Inr 4294967294"
proof -
  have "fst (write_u32 4096 (- 2) small_space) = Inr ()"
    by (simp add: write_u32_def Let_def small_space_def in_low_def)
  then have "write_u32 4096 (- 2) small_space = (Inr (), snd (write_u32 4096 (- 2) small_space))"
    by (metis prod.collapse)
  from sized_store_load [OF small_space_ok, of 4096 "- 2"] this show ?thesis by simp
qed

text \<open>C31: a decode-cache slot that survives a write starting in the text is unchanged, and
  the sixteen bytes from its address do not meet the written bytes: a cached instruction of
  at most sixteen bytes is never stale.\<close>

lemma cache_survivors_fresh:
  assumes "as_wf s" and "mem_write a d s = (Inr (), t)" and "0 \<le> a" and "a < text_end s"
    and "i < length (icache t)" and "icache t ! i = Some e"
    and "text_end s \<le> stack_low s"
  shows "icache s ! i = Some e \<and> apart (int i) 16 a (int (length d))"
proof -
  have "a + int (length d) \<le> low_end s"
    using assms grow_stack_decreases [of a s]
    by (auto simp: mem_write_unfold Let_def in_low_def in_stack_def as_wf_def
        split: if_splits prod.splits bool.splits)
  then have "icache t = icache (flush_icache a (int (length d)) (s\<lparr>low := blit (low s) (nat a) d\<rparr>))"
    using assms by (auto simp: mem_write_unfold Let_def in_low_def poke_low_def)
  with flush_icache_survivor [of i a "int (length d)" "s\<lparr>low := blit (low s) (nat a) d\<rparr>" e] assms
  show ?thesis by (auto simp: apart_def)
qed

lemma cache_survivors_fresh_witness:
  "icache small_space ! 3 = Some () \<and> apart (int 3) 16 20 (int (length [1, 2 :: byte]))"
proof -
  have w: "mem_write 20 [1, 2] small_space = (Inr (), poke_low 20 [1, 2] small_space)"
    by (simp add: mem_write_unfold small_space_def in_low_def)
  have i: "icache (poke_low 20 [1, 2] small_space) ! 3 = Some ()"
      "3 < length (icache (poke_low 20 [1, 2] small_space))"
    by (simp_all add: poke_low_def flush_icache_def small_space_def blit_def nth_append)
  show ?thesis
    by (rule cache_survivors_fresh [OF _ w _ _ i(2,1)])
      (use small_space_ok in \<open>simp_all add: mem_ok_def small_space_def TASK_SIZE_def\<close>)
qed

text \<open>Loading a program places the text at address 0, the data right after it and the
  zeroed bss after that, keeps the stack area, and restores the representation invariant.\<close>

lemma load_program_image:
  assumes "as_wf s" and "int (length text + length data) + bss \<le> stack_low s" and "0 \<le> bss"
    and "t = load_program text data bss s"
  shows "mem_ok t \<and> holds byte_at t 0 (text @ data @ replicate (nat bss) 0) \<and>
    brk t = int (length text + length data) + bss \<and> text_end t = int (length text) \<and>
    set (icache t) \<subseteq> {None} \<and>
    (\<forall>a \<ge> stack_low s. a < TASK_SIZE \<longrightarrow> byte_at t a = Some (stack s ! nat (a - stack_low s)))"
  using load_program_bytes [OF assms(1-3)] assms(3)
  by (auto simp: assms(4) load_program_def Let_def)

lemma load_program_image_witness:
  "read_u8 1 (load_program [0x90, 0xC3] [5] 2 small_space) = Inr 0xC3"
proof -
  have "holds byte_at (load_program [0x90, 0xC3] [5] 2 small_space) 0
      ([0x90, 0xC3] @ [5] @ replicate (nat 2) 0)"
    using load_program_image [OF _ _ _ refl, of small_space "[0x90, 0xC3]" "[5]" 2] small_space_ok
    by (simp add: mem_ok_def small_space_def TASK_SIZE_def)
  then show ?thesis by (auto simp: holds_def read_u8_at dest!: spec [of _ 1])
qed

text \<open>C40: \<open>set_brk\<close> checks the new break against \<open>start_stack\<close> only, not against the lower
  end of the stack area; a break above that end is accepted and replaces the stack bytes below
  it by zeros. (The default stack area is 512 KB, the gap that is checked 16 KB.)\<close>

lemma set_brk_erases_stack:
  assumes "as_wf s" and "low_end s \<le> stack_low s" and "text_end s \<le> addr"
    and "addr < start_stack s - BRK_STACK_GAP" and "stack_low s \<le> x" and "x < addr"
  shows "fst (set_brk addr s) = Inr addr \<and> read_u8 x (snd (set_brk addr s)) = Inr 0"
  using set_brk_zero [OF assms(1,3) _ _ assms(6)] assms
  by (simp add: read_u8_at BRK_STACK_GAP_def) (simp add: set_brk_def BRK_STACK_GAP_def)

definition running_space :: "unit addrspace" where
  "running_space = (AddressSpace_init DEFAULT_STACK)\<lparr>stack := replicate 524288 7\<rparr>"

lemma set_brk_erases_stack_witness:
  "read_u8 66584580 running_space = Inr 7 \<and>
   read_u8 66584580 (snd (set_brk 67092000 running_space)) = Inr 0"
proof
  have st: "as_wf running_space" "low_end running_space = 0" "stack_low running_space = 66584576"
      "text_end running_space = 0" "start_stack running_space = 67108864"
      "stack running_space = replicate 524288 7"
    by (simp_all add: running_space_def AddressSpace_init_def round_page_div DEFAULT_STACK_def
        TASK_SIZE_def as_wf_def)
  then show "read_u8 66584580 running_space = Inr 7"
    by (simp add: read_u8_def TASK_SIZE_def)
  show "read_u8 66584580 (snd (set_brk 67092000 running_space)) = Inr 0"
    using set_brk_erases_stack [of running_space 67092000 66584580] st
    by (simp add: BRK_STACK_GAP_def)
qed

text \<open>\<open>read_cstr\<close> returns exactly the bytes before the first NUL at the address, when
  there is one within the limit and every byte up to it is mapped; otherwise it raises.\<close>

lemma read_cstr_exact:
  "read_cstr a limit s = Inr bs \<longleftrightarrow>
     int (length bs) < limit \<and> 0 \<notin> set bs \<and> holds byte_at s a (bs @ [0])"
  by (rule read_cstr_iff)

end
