(* ===== verification/Minixfs.thy ===== *)
theory Minixfs
  imports Prelude "HOL-Library.Product_Lexorder" "HOL-Library.Char_ord" "HOL-Library.List_Lexorder"
begin

text \<open>
  \<open>src/minixfs.py\<close>, the read-only parser: superblock and inode records, the location of the
  file system in the image, block access, the inode and zone bitmaps, the mapping of file
  blocks to zones through the direct, single and double indirect pointers, file contents,
  directories and path resolution.

  The image file is its contents, a byte string that never changes; the offset of the file
  system in it is not negative. A name is its Latin-1 decoding, as in the source.
\<close>

section \<open>Constants and Python helpers\<close>

definition BLOCK_SIZE :: int where "BLOCK_SIZE = 1024"
definition INODE_SIZE :: int where "INODE_SIZE = 32"
definition INODES_PER_BLOCK :: int where "INODES_PER_BLOCK = BLOCK_SIZE div INODE_SIZE"
definition ZONES_PER_BLOCK :: int where "ZONES_PER_BLOCK = BLOCK_SIZE div 2"
definition MINIX_MAGIC_14 :: int where "MINIX_MAGIC_14 = 0x137F"
definition MINIX_MAGIC_30 :: int where "MINIX_MAGIC_30 = 0x138F"
definition ROOT_INODE :: int where "ROOT_INODE = 1"
definition SECTOR_SIZE :: int where "SECTOR_SIZE = 512"
definition MBR_PART_TABLE_OFFSET :: int where "MBR_PART_TABLE_OFFSET = 0x1BE"
definition MBR_SIGNATURE_OFFSET :: int where "MBR_SIGNATURE_OFFSET = 0x1FE"

lemmas minix_consts = BLOCK_SIZE_def INODE_SIZE_def INODES_PER_BLOCK_def ZONES_PER_BLOCK_def
  MINIX_MAGIC_14_def MINIX_MAGIC_30_def ROOT_INODE_def SECTOR_SIZE_def
  MBR_PART_TABLE_OFFSET_def MBR_SIGNATURE_OFFSET_def

definition latin1 :: "bytes \<Rightarrow> string" where
  "latin1 bs = map (\<lambda>b. char_of (unat b)) bs"

definition file_read :: "bytes \<Rightarrow> int \<Rightarrow> int \<Rightarrow> bytes" where
  "file_read img pos n = take (nat n) (drop (nat pos) img)"

section \<open>Superblock\<close>

record superblock =
  ninodes :: int
  nzones :: int
  imap_blocks :: int
  zmap_blocks :: int
  firstdatazone :: int
  log_zone_size :: int
  max_size :: int
  magic :: int

definition magic_ok :: "int \<Rightarrow> bool" where
  "magic_ok m \<longleftrightarrow> m = MINIX_MAGIC_14 \<or> m = MINIX_MAGIC_30"

definition SuperBlock_parse :: "bytes \<Rightarrow> exn + superblock" where
  "SuperBlock_parse raw =
     (if length raw < 18 then Inl StructError
      else
        let s = \<lparr>ninodes = u16_at raw 0, nzones = u16_at raw 2, imap_blocks = u16_at raw 4,
                 zmap_blocks = u16_at raw 6, firstdatazone = u16_at raw 8,
                 log_zone_size = u16_at raw 10, max_size = u32_at raw 12, magic = u16_at raw 16\<rparr>
        in if \<not> magic_ok (magic s) then Inl MinixError
           else if log_zone_size s \<noteq> 0 then Inl MinixError
           else Inr s)"

definition name_len :: "superblock \<Rightarrow> int" where
  "name_len s = (if magic s = MINIX_MAGIC_14 then 14 else 30)"

definition dirent_size :: "superblock \<Rightarrow> int" where
  "dirent_size s = 2 + name_len s"

definition inode_table_block :: "superblock \<Rightarrow> int" where
  "inode_table_block s = 2 + imap_blocks s + zmap_blocks s"

section \<open>Inodes\<close>

record inode =
  i_num :: int
  i_mode :: int
  i_uid :: int
  i_size :: int
  i_mtime :: int
  i_gid :: int
  i_nlinks :: int
  i_zones :: "int list"

definition Inode_parse :: "int \<Rightarrow> bytes \<Rightarrow> exn + inode" where
  "Inode_parse num raw =
     (if length raw \<noteq> 32 then Inl StructError
      else Inr \<lparr>i_num = num, i_mode = u16_at raw 0, i_uid = u16_at raw 2, i_size = u32_at raw 4,
                i_mtime = u32_at raw 8, i_gid = uint (raw ! 12), i_nlinks = uint (raw ! 13),
                i_zones = map (\<lambda>k. u16_at raw (14 + 2 * k)) [0..<9]\<rparr>)"

text \<open>The type tests of the standard library's \<open>stat\<close> module, on the format bits.\<close>

definition S_IFMT :: "int \<Rightarrow> int" where "S_IFMT m = m AND 0xF000"
definition S_ISDIR :: "int \<Rightarrow> bool" where "S_ISDIR m \<longleftrightarrow> S_IFMT m = 0x4000"
definition S_ISREG :: "int \<Rightarrow> bool" where "S_ISREG m \<longleftrightarrow> S_IFMT m = 0x8000"
definition S_ISCHR :: "int \<Rightarrow> bool" where "S_ISCHR m \<longleftrightarrow> S_IFMT m = 0x2000"
definition S_ISBLK :: "int \<Rightarrow> bool" where "S_ISBLK m \<longleftrightarrow> S_IFMT m = 0x6000"
definition S_ISFIFO :: "int \<Rightarrow> bool" where "S_ISFIFO m \<longleftrightarrow> S_IFMT m = 0x1000"
definition S_ISLNK :: "int \<Rightarrow> bool" where "S_ISLNK m \<longleftrightarrow> S_IFMT m = 0xA000"

definition i_is_dir :: "inode \<Rightarrow> bool" where "i_is_dir i \<longleftrightarrow> S_ISDIR (i_mode i)"
definition i_is_regular :: "inode \<Rightarrow> bool" where "i_is_regular i \<longleftrightarrow> S_ISREG (i_mode i)"
definition i_is_chardev :: "inode \<Rightarrow> bool" where "i_is_chardev i \<longleftrightarrow> S_ISCHR (i_mode i)"
definition i_is_blockdev :: "inode \<Rightarrow> bool" where "i_is_blockdev i \<longleftrightarrow> S_ISBLK (i_mode i)"
definition i_is_device :: "inode \<Rightarrow> bool" where "i_is_device i \<longleftrightarrow> i_is_chardev i \<or> i_is_blockdev i"
definition i_is_fifo :: "inode \<Rightarrow> bool" where "i_is_fifo i \<longleftrightarrow> S_ISFIFO (i_mode i)"
definition i_is_symlink :: "inode \<Rightarrow> bool" where "i_is_symlink i \<longleftrightarrow> S_ISLNK (i_mode i)"

definition i_devno :: "inode \<Rightarrow> int \<times> int" where
  "i_devno i = (drop_bit 8 (i_zones i ! 0), i_zones i ! 0 AND 0xFF)"

definition i_type_name :: "inode \<Rightarrow> string" where
  "i_type_name i =
     (if i_is_dir i then ''directory''
      else if i_is_regular i then ''regular file''
      else if i_is_chardev i then ''character special file''
      else if i_is_blockdev i then ''block special file''
      else if i_is_fifo i then ''fifo''
      else if i_is_symlink i then ''symbolic link''
      else ''unknown'')"

definition type_char :: "int \<Rightarrow> char" where
  "type_char m =
     (if S_ISDIR m then CHR ''d'' else if S_ISCHR m then CHR ''c'' else if S_ISBLK m then CHR ''b''
      else if S_ISREG m then CHR ''-'' else if S_ISFIFO m then CHR ''p''
      else if S_ISLNK m then CHR ''l'' else CHR ''?'')"

definition rwx :: "int \<Rightarrow> string" where
  "rwx bits = [if bits AND 4 \<noteq> 0 then CHR ''r'' else CHR ''-'',
               if bits AND 2 \<noteq> 0 then CHR ''w'' else CHR ''-'',
               if bits AND 1 \<noteq> 0 then CHR ''x'' else CHR ''-'']"

definition mode_string :: "inode \<Rightarrow> string" where
  "mode_string i =
     (let m = i_mode i;
          out = type_char m # rwx (drop_bit 6 m) @ rwx (drop_bit 3 m) @ rwx m;
          out = (if m AND 0x800 \<noteq> 0
                 then out[3 := if out ! 3 = CHR ''x'' then CHR ''s'' else CHR ''S''] else out);
          out = (if m AND 0x400 \<noteq> 0
                 then out[6 := if out ! 6 = CHR ''x'' then CHR ''s'' else CHR ''S''] else out)
      in if m AND 0x200 \<noteq> 0
         then out[9 := if out ! 9 = CHR ''x'' then CHR ''t'' else CHR ''T''] else out)"

section \<open>Finding the file system in the image\<close>

definition has_magic :: "bytes \<Rightarrow> int \<Rightarrow> bool" where
  "has_magic img offset =
     (let raw = file_read img (offset + BLOCK_SIZE) BLOCK_SIZE
      in if length raw < 18 then False else magic_ok (u16_at raw 16))"

definition mbr_entry :: "bytes \<Rightarrow> int \<Rightarrow> (int \<times> int) list" where
  "mbr_entry mbr i =
     (let entry = py_slice mbr (MBR_PART_TABLE_OFFSET + i * 16) (MBR_PART_TABLE_OFFSET + (i + 1) * 16);
          ptype = uint (entry ! 4);
          start_lba = u32_at entry 8
      in if ptype \<noteq> 0 \<and> start_lba \<noteq> 0
         then [(if ptype = 0x80 \<or> ptype = 0x81 then 0 else 1, start_lba)] else [])"

fun first_with_magic :: "bytes \<Rightarrow> (int \<times> int) list \<Rightarrow> exn + int" where
  "first_with_magic img [] = Inl MinixError"
| "first_with_magic img ((p, start_lba) # cs) =
     (let offset = start_lba * SECTOR_SIZE
      in if has_magic img offset then Inr offset else first_with_magic img cs)"

definition find_minix_partition_offset :: "bytes \<Rightarrow> exn + int" where
  "find_minix_partition_offset img =
     (if has_magic img 0 then Inr 0
      else
        let mbr = file_read img 0 SECTOR_SIZE in
        if int (length mbr) = SECTOR_SIZE
           \<and> py_slice mbr MBR_SIGNATURE_OFFSET (MBR_SIGNATURE_OFFSET + 2) = [0x55, 0xAA]
        then first_with_magic img (sort (concat (map (mbr_entry mbr) [0, 1, 2, 3])))
        else Inl MinixError)"

section \<open>The file system object and its blocks\<close>

record minixfs =
  fp :: bytes
  offset :: int
  sb :: superblock

definition read_block_at :: "bytes \<Rightarrow> int \<Rightarrow> int \<Rightarrow> bytes" where
  "read_block_at img off block =
     (if block = 0 then replicate (nat BLOCK_SIZE) 0
      else
        let data = file_read img (off + block * BLOCK_SIZE) BLOCK_SIZE
        in if int (length data) < BLOCK_SIZE
           then data @ replicate (nat (BLOCK_SIZE - int (length data))) 0 else data)"

definition read_block :: "minixfs \<Rightarrow> int \<Rightarrow> bytes" where
  "read_block fs block = read_block_at (fp fs) (offset fs) block"

definition MinixFS_init :: "bytes \<Rightarrow> int option \<Rightarrow> exn + minixfs" where
  "MinixFS_init img off =
     bindR (case off of None \<Rightarrow> find_minix_partition_offset img | Some o' \<Rightarrow> Inr o')
       (\<lambda>o'. bindR (SuperBlock_parse (read_block_at img o' 1))
         (\<lambda>s. Inr \<lparr>fp = img, offset = o', sb = s\<rparr>))"

definition get_inode :: "minixfs \<Rightarrow> int \<Rightarrow> exn + inode" where
  "get_inode fs num =
     (if \<not> (1 \<le> num \<and> num \<le> ninodes (sb fs)) then Inl MinixError
      else
        let block = inode_table_block (sb fs) + (num - 1) div INODES_PER_BLOCK;
            off = ((num - 1) mod INODES_PER_BLOCK) * INODE_SIZE;
            raw = py_slice (read_block fs block) off (off + INODE_SIZE)
        in Inode_parse num raw)"

definition bit_of :: "int \<Rightarrow> int \<Rightarrow> bool" where
  "bit_of byte k \<longleftrightarrow> byte AND push_bit (nat k) 1 \<noteq> 0"

definition inode_allocated :: "minixfs \<Rightarrow> int \<Rightarrow> exn + bool" where
  "inode_allocated fs num =
     (if \<not> (1 \<le> num \<and> num \<le> ninodes (sb fs)) then Inl MinixError
      else
        let bmap = read_block fs (2 + num div (BLOCK_SIZE * 8));
            byte = uint (bmap ! nat ((num mod (BLOCK_SIZE * 8)) div 8))
        in Inr (bit_of byte (num mod 8)))"

definition zone_allocated :: "minixfs \<Rightarrow> int \<Rightarrow> exn + bool" where
  "zone_allocated fs zone =
     (if \<not> (firstdatazone (sb fs) \<le> zone \<and> zone < nzones (sb fs)) then Inl MinixError
      else
        let b = zone - firstdatazone (sb fs) + 1;
            bmap = read_block fs (2 + imap_blocks (sb fs) + b div (BLOCK_SIZE * 8));
            byte = uint (bmap ! nat ((b mod (BLOCK_SIZE * 8)) div 8))
        in Inr (bit_of byte (b mod 8)))"

definition read_blocks :: "minixfs \<Rightarrow> int \<Rightarrow> int \<Rightarrow> bytes" where
  "read_blocks fs start n = concat (map (\<lambda>i. read_block fs (start + int i)) [0..<nat n])"

definition bitmap_bit :: "bytes \<Rightarrow> int \<Rightarrow> exn + bool" where
  "bitmap_bit data i =
     (if nat (drop_bit 3 i) < length data
      then Inr (bit_of (uint (data ! nat (drop_bit 3 i))) (i AND 7)) else Inl IndexError)"

fun count_bits :: "bytes \<Rightarrow> int list \<Rightarrow> int \<Rightarrow> exn + int" where
  "count_bits data [] count = Inr count"
| "count_bits data (i # is) count =
     bindR (bitmap_bit data i) (\<lambda>b. count_bits data is (if b then count + 1 else count))"

definition count_bitmap :: "minixfs \<Rightarrow> int \<Rightarrow> int \<Rightarrow> int \<Rightarrow> exn + int" where
  "count_bitmap fs start_block nblocks nbits =
     count_bits (read_blocks fs start_block nblocks) [1..nbits] 0"

record fs_stat =
  total_inodes :: int
  used_inodes :: int
  total_zones :: int
  used_zones :: int

definition fs_stats :: "minixfs \<Rightarrow> exn + fs_stat" where
  "fs_stats fs =
     (let s = sb fs; tz = nzones s - firstdatazone s in
      bindR (count_bitmap fs 2 (imap_blocks s) (ninodes s)) (\<lambda>ui.
      bindR (count_bitmap fs (2 + imap_blocks s) (zmap_blocks s) tz) (\<lambda>uz.
      Inr \<lparr>total_inodes = ninodes s, used_inodes = ui, total_zones = tz, used_zones = uz\<rparr>)))"

section \<open>Zones and file contents\<close>

definition py_index :: "'a list \<Rightarrow> int \<Rightarrow> exn + 'a" where
  "py_index zs k =
     (if int (length zs) \<le> k \<or> k < - int (length zs) then Inl IndexError
      else if k < 0 then Inr (zs ! nat (int (length zs) + k)) else Inr (zs ! nat k))"

definition zone_at :: "minixfs \<Rightarrow> inode \<Rightarrow> int \<Rightarrow> exn + int" where
  "zone_at fs inode index =
     (if index < 7 then py_index (i_zones inode) index
      else
        let index = index - 7 in
        if index < ZONES_PER_BLOCK then
          let ind = i_zones inode ! 7
          in if ind = 0 then Inr 0 else Inr (u16_at (read_block fs ind) (nat (index * 2)))
        else
          let index = index - ZONES_PER_BLOCK in
          if index < ZONES_PER_BLOCK * ZONES_PER_BLOCK then
            let dbl = i_zones inode ! 8 in
            if dbl = 0 then Inr 0
            else
              let ind = u16_at (read_block fs dbl) (nat (index div ZONES_PER_BLOCK * 2)) in
              if ind = 0 then Inr 0
              else Inr (u16_at (read_block fs ind) (nat (index mod ZONES_PER_BLOCK * 2)))
          else Inl MinixError)"

function read_loop :: "minixfs \<Rightarrow> inode \<Rightarrow> int \<Rightarrow> int \<Rightarrow> int \<Rightarrow> int \<Rightarrow> exn + bytes" where
  "read_loop fs inode off end' block pos =
     (if pos < end' then
        bindR (zone_at fs inode block) (\<lambda>z.
        let data = read_block fs z; chunk = py_slice data (max (off - pos) 0) (end' - pos)
        in bindR (read_loop fs inode off end' (block + 1) (pos + BLOCK_SIZE)) (\<lambda>rest.
           Inr (chunk @ rest)))
      else Inr [])"
  by pat_completeness auto

termination
  by (relation "measure (\<lambda>(fs, inode, off, end', block, pos). nat (end' - pos))")
    (auto simp: BLOCK_SIZE_def)

declare read_loop.simps [simp del]

definition readable_type :: "inode \<Rightarrow> bool" where
  "readable_type i \<longleftrightarrow> i_is_dir i \<or> i_is_regular i \<or> i_is_symlink i"

definition read_file :: "minixfs \<Rightarrow> inode \<Rightarrow> int \<Rightarrow> int option \<Rightarrow> exn + bytes" where
  "read_file fs inode off len =
     (if \<not> readable_type inode then Inl MinixError
      else
        let len = (case len of None \<Rightarrow> i_size inode - off | Some l \<Rightarrow> l);
            end' = min (i_size inode) (off + max len 0)
        in if off \<ge> end' then Inr []
           else let block = off div BLOCK_SIZE
                in read_loop fs inode off end' block (block * BLOCK_SIZE))"

fun read_zones :: "minixfs \<Rightarrow> inode \<Rightarrow> int list \<Rightarrow> exn + bytes list" where
  "read_zones fs inode [] = Inr []"
| "read_zones fs inode (i # is) =
     bindR (zone_at fs inode i) (\<lambda>z. bindR (read_zones fs inode is) (\<lambda>bs.
       Inr (read_block fs z # bs)))"

definition iter_blocks :: "minixfs \<Rightarrow> inode \<Rightarrow> exn + bytes list" where
  "iter_blocks fs inode =
     (let nblocks = (i_size inode + BLOCK_SIZE - 1) div BLOCK_SIZE
      in read_zones fs inode [0..nblocks - 1])"

section \<open>Directories and paths\<close>

definition range_step :: "int \<Rightarrow> int \<Rightarrow> int list" where
  "range_step stop step = map (\<lambda>k. int k * step) [0..<nat ((stop + step - 1) div step)]"

fun dir_entries :: "bytes \<Rightarrow> int \<Rightarrow> int list \<Rightarrow> (int \<times> string) list" where
  "dir_entries raw esize [] = []"
| "dir_entries raw esize (off # offs) =
     (let ino = u16_at raw (nat off) in
      if ino = 0 then dir_entries raw esize offs
      else
        let name = takeWhile (\<lambda>b. b \<noteq> 0) (py_slice raw (off + 2) (off + esize))
        in (ino, latin1 name) # dir_entries raw esize offs)"

definition read_dir :: "minixfs \<Rightarrow> inode \<Rightarrow> exn + (int \<times> string) list" where
  "read_dir fs inode =
     (if \<not> i_is_dir inode then Inl MinixError
      else bindR (read_file fs inode 0 None) (\<lambda>raw.
        let esize = dirent_size (sb fs)
        in Inr (dir_entries raw esize (range_step (int (length raw) - esize + 1) esize))))"

fun first_named :: "string \<Rightarrow> (int \<times> string) list \<Rightarrow> int option" where
  "first_named name [] = None"
| "first_named name ((ino, ename) # es) = (if ename = name then Some ino else first_named name es)"

definition dir_lookup :: "minixfs \<Rightarrow> inode \<Rightarrow> string \<Rightarrow> exn + inode option" where
  "dir_lookup fs dir_inode name =
     bindR (read_dir fs dir_inode) (\<lambda>es.
       case first_named name es of
         None \<Rightarrow> Inr None
       | Some ino \<Rightarrow> bindR (get_inode fs ino) (\<lambda>i. Inr (Some i)))"

text \<open>\<open>path.split("/")\<close>: the pieces between the slashes, empty ones included.\<close>

fun split_slash_aux :: "string \<Rightarrow> string \<Rightarrow> string list" where
  "split_slash_aux acc [] = [rev acc]"
| "split_slash_aux acc (c # cs) =
     (if c = CHR ''/'' then rev acc # split_slash_aux [] cs else split_slash_aux (c # acc) cs)"

definition split_slash :: "string \<Rightarrow> string list" where
  "split_slash p = split_slash_aux [] p"

definition starts_slash :: "string \<Rightarrow> bool" where
  "starts_slash p \<longleftrightarrow> (case p of c # _ \<Rightarrow> c = CHR ''/'' | [] \<Rightarrow> False)"

fun resolve_parts :: "minixfs \<Rightarrow> inode \<Rightarrow> string list \<Rightarrow> exn + inode" where
  "resolve_parts fs cur [] = Inr cur"
| "resolve_parts fs cur (part # parts) =
     (if part = [] \<or> part = ''.'' then resolve_parts fs cur parts
      else if \<not> i_is_dir cur then Inl MinixError
      else bindR (dir_lookup fs cur part) (\<lambda>nxt.
        case nxt of None \<Rightarrow> Inl MinixError | Some i \<Rightarrow> resolve_parts fs i parts))"

definition resolve :: "minixfs \<Rightarrow> string \<Rightarrow> inode option \<Rightarrow> exn + inode" where
  "resolve fs path cwd =
     bindR (if starts_slash path then get_inode fs ROOT_INODE
            else case cwd of None \<Rightarrow> get_inode fs ROOT_INODE | Some c \<Rightarrow> Inr c)
       (\<lambda>cur. resolve_parts fs cur (split_slash path))"

section \<open>Blocks and inodes\<close>

lemma length_read_block [simp, byte_simps]: "length (read_block fs b) = 1024"
  by (auto simp: read_block_def read_block_at_def file_read_def BLOCK_SIZE_def Let_def)

definition inode_wf :: "inode \<Rightarrow> bool" where
  "inode_wf i \<longleftrightarrow> length (i_zones i) = 9 \<and> (\<forall>z \<in> set (i_zones i). 0 \<le> z \<and> z < 65536)
     \<and> 0 \<le> i_mode i \<and> i_mode i < 65536 \<and> 0 \<le> i_size i \<and> i_size i < 4294967296
     \<and> 0 \<le> i_nlinks i \<and> i_nlinks i < 256"

lemma Inode_parse_wf: "Inode_parse num raw = Inr i \<Longrightarrow> inode_wf i \<and> i_num i = num"
  by (auto simp: Inode_parse_def inode_wf_def u16_at_bounds u32_at_bounds split: if_splits)

lemma get_inode_range:
  assumes "1 \<le> num" and "num \<le> ninodes (sb fs)"
  obtains i where "get_inode fs num = Inr i" "inode_wf i" "i_num i = num"
proof -
  have "0 \<le> (num - 1) mod 32" "(num - 1) mod 32 < 32" by simp_all
  then have "length (py_slice (read_block fs (inode_table_block (sb fs) + (num - 1) div 32))
      ((num - 1) mod 32 * 32) ((num - 1) mod 32 * 32 + 32)) = 32"
    by (simp add: py_slice_nonneg nat_add_distrib)
  then obtain i where "get_inode fs num = Inr i"
    using assms by (auto simp: get_inode_def Let_def Inode_parse_def minix_consts)
  with that Inode_parse_wf show thesis
    by (metis (no_types, lifting) assms get_inode_def)
qed

lemma get_inode_Inr:
  "get_inode fs num = Inr i \<Longrightarrow> 1 \<le> num \<and> num \<le> ninodes (sb fs) \<and> inode_wf i \<and> i_num i = num"
  using Inode_parse_wf by (fastforce simp: get_inode_def Let_def split: if_splits)

lemma get_inode_Inl: "get_inode fs num = Inl e \<Longrightarrow> e = MinixError \<and> \<not> (1 \<le> num \<and> num \<le> ninodes (sb fs))"
  by (metis get_inode_def get_inode_range sum.distinct(1) sum.inject(1))

section \<open>Bitmaps\<close>

lemma bit_of_iff: "0 \<le> k \<Longrightarrow> bit_of byte k \<longleftrightarrow> bit byte (nat k)"
  by (simp add: bit_of_def bit_iff_and_push_bit_not_eq_0)

lemma nth_concat_blocks:
  assumes "\<And>i. length (f i) = m" and "k < m * n" and "0 < m"
  shows "concat (map f [0..<n]) ! k = f (k div m) ! (k mod m)"
  using assms(2)
proof (induction n)
  case 0
  then show ?case by simp
next
  case (Suc n)
  have len: "length (concat (map f [0..<n])) = m * n"
    using assms(1) by (simp add: length_concat comp_def sum_list_triv)
  show ?case
  proof (cases "k < m * n")
    case True
    with Suc.IH len show ?thesis by (simp add: nth_append)
  next
    case False
    with Suc.prems have d: "k div m = n"
      by (intro div_nat_eqI) (auto simp: algebra_simps)
    then have "k mod m = k - m * n"
      by (metis minus_mult_div_eq_mod)
    with d False len show ?thesis by (simp add: nth_append)
  qed
qed

lemma length_read_blocks: "length (read_blocks fs start n) = 1024 * nat n"
  by (simp add: read_blocks_def length_concat comp_def sum_list_triv)

lemma bitmap_bit_read_blocks:
  assumes "0 \<le> i" and "i < 8192 * n"
  shows "bitmap_bit (read_blocks fs start n) i =
    Inr (bit_of (uint (read_block fs (start + i div 8192) ! nat ((i mod 8192) div 8))) (i mod 8))"
proof -
  have k: "nat (i div 8) < 1024 * nat n" using assms by linarith
  have "int (nat (i div 8) div 1024) = i div 8192"
    using assms by (simp add: zdiv_int zdiv_zmult2_eq [symmetric])
  moreover have "nat (i div 8) mod 1024 = nat ((i mod 8192) div 8)"
  proof -
    have "int (nat (i div 8) mod 1024) = i div 8 mod 1024"
      using assms by (simp add: zmod_int)
    also have "\<dots> = (i mod 8192) div 8"
      using mod_div_digit [of 8 1024 i] by simp
    finally show ?thesis by (metis nat_int)
  qed
  moreover have "read_blocks fs start n ! nat (i div 8) =
      read_block fs (start + int (nat (i div 8) div 1024)) ! (nat (i div 8) mod 1024)"
    unfolding read_blocks_def using k by (subst nth_concat_blocks [where m = 1024]) auto
  moreover have "i AND 7 = i mod 8"
    using and_mask_mod [of i 3] by (simp add: mask_eq_exp_minus_1)
  moreover have "drop_bit 3 i = i div 8"
    by (simp add: drop_bit_eq_div)
  ultimately show ?thesis
    unfolding bitmap_bit_def length_read_blocks by (simp only: k if_True)
qed

lemma count_bits_card:
  assumes "\<forall>i \<in> set is. bitmap_bit data i = Inr (P i)"
  shows "count_bits data is c = Inr (c + int (length (filter P is)))"
  using assms by (induction "is" arbitrary: c) auto

lemma count_bitmap_card:
  assumes "\<And>i. 1 \<le> i \<Longrightarrow> i \<le> nbits \<Longrightarrow> i < 8192 * nblocks"
  shows "count_bitmap fs start nblocks nbits = Inr (int (card {i. 1 \<le> i \<and> i \<le> nbits \<and>
     bit_of (uint (read_block fs (start + i div 8192) ! nat ((i mod 8192) div 8))) (i mod 8)}))"
proof -
  define P where "P i \<longleftrightarrow>
    bit_of (uint (read_block fs (start + i div 8192) ! nat ((i mod 8192) div 8))) (i mod 8)" for i
  have "\<forall>i \<in> set [1..nbits]. bitmap_bit (read_blocks fs start nblocks) i = Inr (P i)"
    using assms by (auto simp: P_def intro!: bitmap_bit_read_blocks)
  moreover have "length (filter P [1..nbits]) = card {i. 1 \<le> i \<and> i \<le> nbits \<and> P i}"
    by (simp add: distinct_length_filter) (rule arg_cong [of _ _ card], auto)
  ultimately show ?thesis
    unfolding count_bitmap_def P_def [symmetric] by (subst count_bits_card [where P = P]) auto
qed

section \<open>File contents\<close>

text \<open>The byte at a position of a file, through the zone of its block.\<close>

definition file_byte :: "minixfs \<Rightarrow> inode \<Rightarrow> int \<Rightarrow> byte" where
  "file_byte fs inode k =
     (case zone_at fs inode (k div 1024) of
        Inr z \<Rightarrow> read_block fs z ! nat (k mod 1024) | Inl _ \<Rightarrow> 0)"

text \<open>The number of blocks the pointers of an inode can reach: 7 + 512 + 512 * 512.\<close>

definition MAX_BLOCKS :: int where "MAX_BLOCKS = 262663"

lemma zone_at_range:
  assumes "inode_wf i" and "0 \<le> b"
  shows "(\<exists>z. zone_at fs i b = Inr z) \<longleftrightarrow> b < MAX_BLOCKS"
  using assms
  by (auto simp: zone_at_def Let_def py_index_def inode_wf_def minix_consts MAX_BLOCKS_def)

lemma zone_at_beyond:
  "inode_wf i \<Longrightarrow> MAX_BLOCKS \<le> b \<Longrightarrow> zone_at fs i b = Inl MinixError"
  by (auto simp: zone_at_def Let_def minix_consts MAX_BLOCKS_def)

lemma chunk_bytes:
  assumes "0 \<le> off" and "off < pos + 1024" and "pos < end'" and "pos = b * 1024"
    and "zone_at fs i b = Inr z"
  shows "py_slice (read_block fs z) (max (off - pos) 0) (end' - pos) =
    map (file_byte fs i) [max off pos..min end' (pos + 1024) - 1]"
proof -
  define a where "a = nat (max (off - pos) 0)"
  define m where "m = nat (end' - pos)"
  have a: "max (off - pos) 0 = int a" "max off pos = pos + int a" "a < 1024"
    using assms by (auto simp: a_def)
  have m: "end' = pos + int m" "0 < m"
    using assms by (auto simp: m_def)
  have sl: "py_slice (read_block fs z) (int a) (int m) = take (m - a) (drop a (read_block fs z))"
    by (simp add: py_slice_nonneg) (simp add: nat_diff_distrib')
  have pt: "(pos + int k) div 1024 = b" "(pos + int k) mod 1024 = int k" if "k < 1024" for k
    using that assms(4) by auto
  have "py_slice (read_block fs z) (int a) (int m) =
      map (file_byte fs i) [pos + int a..min (pos + int m) (pos + 1024) - 1]"
  proof (rule nth_equalityI)
    show "length (py_slice (read_block fs z) (int a) (int m)) =
        length (map (file_byte fs i) [pos + int a..min (pos + int m) (pos + 1024) - 1])"
      using a(3) by (simp add: sl min_def) arith
  next
    fix k
    assume "k < length (py_slice (read_block fs z) (int a) (int m))"
    then have k: "k < m - a" "a + k < 1024" by (auto simp: sl)
    with a(3) assms(5) pt [of "a + k"]
    show "py_slice (read_block fs z) (int a) (int m) ! k =
        map (file_byte fs i) [pos + int a..min (pos + int m) (pos + 1024) - 1] ! k"
      by (simp add: sl nth_upto file_byte_def add.assoc nat_add_distrib)
  qed
  with a m show ?thesis by simp
qed

lemma read_loop_bytes:
  assumes "0 \<le> off" and "off < pos + 1024" and "pos = b * 1024" and "0 \<le> b"
    and "inode_wf i" and "end' \<le> MAX_BLOCKS * 1024"
  shows "read_loop fs i off end' b pos = Inr (map (file_byte fs i) [max off pos..end' - 1])"
  using assms
proof (induction fs i off end' b pos rule: read_loop.induct)
  case (1 fs i off end' b pos)
  show ?case
  proof (cases "pos < end'")
    case False
    then show ?thesis by (subst read_loop.simps) simp
  next
    case True
    with "1.prems" have "b < MAX_BLOCKS" by simp
    with "1.prems" obtain z where z: "zone_at fs i b = Inr z"
      using zone_at_range by blast
    have rec: "read_loop fs i off end' (b + 1) (pos + 1024) =
        Inr (map (file_byte fs i) [max off (pos + 1024)..end' - 1])"
      using "1.IH" [OF True z refl refl] "1.prems" by (simp add: BLOCK_SIZE_def)
    have ch: "py_slice (read_block fs z) (max (off - pos) 0) (end' - pos) =
        map (file_byte fs i) [max off pos..min end' (pos + 1024) - 1]"
      using "1.prems" True z by (intro chunk_bytes)
    have "[max off pos..min end' (pos + 1024) - 1] @ [max off (pos + 1024)..end' - 1] =
        [max off pos..end' - 1]"
    proof (cases "end' \<le> pos + 1024")
      case True
      then show ?thesis using "1.prems" by simp
    next
      case False
      then show ?thesis
        using "1.prems" upto_split1 [of "max off pos" "pos + 1024" "end' - 1"]
        by (simp add: min_def max_def)
    qed
    then show ?thesis
      using True z rec ch
      by (subst read_loop.simps) (simp add: BLOCK_SIZE_def flip: map_append)
  qed
qed

lemma read_file_bytes:
  assumes "readable_type i" and "inode_wf i" and "0 \<le> off"
    and "i_size i \<le> MAX_BLOCKS * 1024"
  shows "read_file fs i off len = Inr (map (file_byte fs i)
    [off..min (i_size i) (off + max (case len of None \<Rightarrow> i_size i - off | Some l \<Rightarrow> l) 0) - 1])"
proof -
  define e where "e = min (i_size i)
    (off + max (case len of None \<Rightarrow> i_size i - off | Some l \<Rightarrow> l) 0)"
  have "read_loop fs i off e (off div 1024) (off div 1024 * 1024) =
      Inr (map (file_byte fs i) [max off (off div 1024 * 1024)..e - 1])"
    using assms by (intro read_loop_bytes) (auto simp: e_def)
  moreover have "max off (off div 1024 * 1024) = off"
    by (simp add: max_def) linarith
  ultimately show ?thesis
    using assms(1) by (auto simp: read_file_def Let_def e_def [symmetric] BLOCK_SIZE_def)
qed

lemma py_slice_map_upto:
  "py_slice (map f [0..int m - 1]) (int a) (int a + int k) =
     map f [int a..min (int m) (int a + int k) - 1]"
proof (rule nth_equalityI)
  show "length (py_slice (map f [0..int m - 1]) (int a) (int a + int k)) =
      length (map f [int a..min (int m) (int a + int k) - 1])"
    by (simp add: py_slice_nonneg min_def) arith
next
  fix j
  assume "j < length (py_slice (map f [0..int m - 1]) (int a) (int a + int k))"
  then have "j < m - a" "j < k" by (auto simp: py_slice_nonneg)
  then show "py_slice (map f [0..int m - 1]) (int a) (int a + int k) ! j =
      map f [int a..min (int m) (int a + int k) - 1] ! j"
    by (simp add: py_slice_nonneg nth_upto)
qed

lemma read_file_slice:
  assumes "readable_type i" and "inode_wf i" and "0 \<le> off" and "0 \<le> n"
    and "i_size i \<le> MAX_BLOCKS * 1024" and "read_file fs i 0 None = Inr whole"
  shows "read_file fs i off (Some n) = Inr (py_slice whole off (off + n))"
    and "int (length whole) = i_size i"
proof -
  have sz: "0 \<le> i_size i" using assms(2) by (simp add: inode_wf_def)
  have w: "whole = map (file_byte fs i) [0..i_size i - 1]"
    using read_file_bytes [OF assms(1,2) _ assms(5), of 0 fs None] assms(6) sz
    by (simp add: min_def max_def split: if_splits)
  show "int (length whole) = i_size i" using w sz by simp
  have "py_slice whole off (off + n) = map (file_byte fs i) [off..min (i_size i) (off + n) - 1]"
    using py_slice_map_upto [of "file_byte fs i" "nat (i_size i)" "nat off" "nat n"] assms(3,4) w sz
    by simp
  with read_file_bytes [OF assms(1,2,3,5), of fs "Some n"] assms(4)
  show "read_file fs i off (Some n) = Inr (py_slice whole off (off + n))"
    by (simp add: max_def)
qed

section \<open>Bitmap queries\<close>

lemma fs_stats_used_inodes:
  assumes "ninodes (sb fs) < 8192 * imap_blocks (sb fs)" and "fs_stats fs = Inr st"
  shows "used_inodes st = int (card {n. inode_allocated fs n = Inr True})"
proof -
  have "count_bitmap fs 2 (imap_blocks (sb fs)) (ninodes (sb fs)) = Inr (used_inodes st)"
    using assms(2) by (auto simp: fs_stats_def Let_def bindR_Inr_iff)
  moreover have "{n. inode_allocated fs n = Inr True} = {i. 1 \<le> i \<and> i \<le> ninodes (sb fs) \<and>
     bit_of (uint (read_block fs (2 + i div 8192) ! nat ((i mod 8192) div 8))) (i mod 8)}"
    by (auto simp: inode_allocated_def Let_def BLOCK_SIZE_def split: if_splits)
  ultimately show ?thesis
    using count_bitmap_card [of "ninodes (sb fs)" "imap_blocks (sb fs)" fs 2] assms(1)
    by simp
qed

lemma fs_stats_used_zones:
  assumes "nzones (sb fs) - firstdatazone (sb fs) < 8192 * zmap_blocks (sb fs)"
    and "fs_stats fs = Inr st"
  shows "used_zones st = int (card {z. zone_allocated fs z = Inr True})"
proof -
  let ?f = "firstdatazone (sb fs)"
  let ?P = "\<lambda>i. bit_of (uint (read_block fs (2 + imap_blocks (sb fs) + i div 8192) !
    nat ((i mod 8192) div 8))) (i mod 8)"
  have "count_bitmap fs (2 + imap_blocks (sb fs)) (zmap_blocks (sb fs)) (nzones (sb fs) - ?f) =
      Inr (used_zones st)"
    using assms(2) by (auto simp: fs_stats_def Let_def bindR_Inr_iff)
  then have n: "used_zones st = int (card {i. 1 \<le> i \<and> i \<le> nzones (sb fs) - ?f \<and> ?P i})"
    using count_bitmap_card [of "nzones (sb fs) - ?f" "zmap_blocks (sb fs)" fs
        "2 + imap_blocks (sb fs)"] assms(1)
    by simp
  have "{z. zone_allocated fs z = Inr True} =
      (\<lambda>i. i + ?f - 1) ` {i. 1 \<le> i \<and> i \<le> nzones (sb fs) - ?f \<and> ?P i}"
  proof (intro set_eqI iffI)
    fix z
    assume "z \<in> {z. zone_allocated fs z = Inr True}"
    then show "z \<in> (\<lambda>i. i + ?f - 1) ` {i. 1 \<le> i \<and> i \<le> nzones (sb fs) - ?f \<and> ?P i}"
      by (intro image_eqI [of _ _ "z - ?f + 1"])
        (auto simp: zone_allocated_def Let_def BLOCK_SIZE_def split: if_splits)
  next
    fix z
    assume "z \<in> (\<lambda>i. i + ?f - 1) ` {i. 1 \<le> i \<and> i \<le> nzones (sb fs) - ?f \<and> ?P i}"
    then show "z \<in> {z. zone_allocated fs z = Inr True}"
      by (auto simp: zone_allocated_def Let_def BLOCK_SIZE_def)
  qed
  moreover have "inj_on (\<lambda>i. i + ?f - 1) A" for A by (simp add: inj_on_def)
  ultimately show ?thesis using n by (simp add: card_image)
qed

section \<open>Partition search\<close>

lemma first_with_magic_Inr: "first_with_magic img cs = Inr off \<Longrightarrow> has_magic img off"
  by (induction img cs rule: first_with_magic.induct) (auto simp: Let_def split: if_splits)

lemma first_with_magic_Inl:
  "first_with_magic img cs = Inl e \<Longrightarrow> \<forall>(p, l) \<in> set cs. \<not> has_magic img (l * SECTOR_SIZE)"
  by (induction img cs rule: first_with_magic.induct) (auto simp: Let_def split: if_splits)

lemma first_with_magic_priority:
  assumes "first_with_magic img cs = Inr off" and "sorted cs"
    and "(p, l) \<in> set cs" and "has_magic img (l * SECTOR_SIZE)"
  shows "\<exists>q m. (q, m) \<in> set cs \<and> off = m * SECTOR_SIZE \<and> (q, m) \<le> (p, l)"
  using assms
proof (induction img cs rule: first_with_magic.induct)
  case (1 img)
  then show ?case by simp
next
  case (2 img q m cs)
  show ?case
  proof (cases "has_magic img (m * SECTOR_SIZE)")
    case True
    with "2.prems" have "off = m * SECTOR_SIZE" by (simp add: Let_def)
    moreover have "(q, m) \<le> (p, l)" using "2.prems"(2,3) by auto
    ultimately show ?thesis by auto
  next
    case False
    with "2.prems" have "(p, l) \<in> set cs" by auto
    with "2.IH" [OF refl False] False "2.prems" show ?thesis by (auto simp: Let_def)
  qed
qed

lemma find_offset_sound: "find_minix_partition_offset img = Inr off \<Longrightarrow> has_magic img off"
  by (auto simp: find_minix_partition_offset_def Let_def split: if_splits
      dest: first_with_magic_Inr)

lemma MinixFS_init_sound:
  assumes "MinixFS_init img None = Inr fs"
  shows "fp fs = img \<and> has_magic img (offset fs) \<and> magic_ok (magic (sb fs))
    \<and> log_zone_size (sb fs) = 0"
  using assms find_offset_sound
  by (auto simp: MinixFS_init_def bindR_Inr_iff SuperBlock_parse_def Let_def split: if_splits)

section \<open>Paths\<close>

lemma split_slash_aux_append:
  "split_slash_aux acc (p @ CHR ''/'' # q) = split_slash_aux acc p @ split_slash_aux [] q"
  by (induction acc p rule: split_slash_aux.induct) auto

lemma split_slash_join: "split_slash (p @ CHR ''/'' # q) = split_slash p @ split_slash q"
  by (simp add: split_slash_def split_slash_aux_append)

lemma resolve_parts_append:
  "resolve_parts fs c (ps @ qs) = bindR (resolve_parts fs c ps) (\<lambda>d. resolve_parts fs d qs)"
proof (induction ps arbitrary: c)
  case Nil
  then show ?case by simp
next
  case (Cons p ps)
  then show ?case
    by (cases "dir_lookup fs c p") (auto split: option.splits)
qed

lemma resolve_join:
  assumes "p \<noteq> []" and "\<not> starts_slash q"
  shows "resolve fs (p @ ''/'' @ q) cwd = bindR (resolve fs p cwd) (\<lambda>d. resolve fs q (Some d))"
proof -
  have s: "starts_slash (p @ CHR ''/'' # q) = starts_slash p"
    using assms(1) by (cases p) (auto simp: starts_slash_def)
  define start where "start = (if starts_slash p then get_inode fs ROOT_INODE
      else case cwd of None \<Rightarrow> get_inode fs ROOT_INODE | Some c \<Rightarrow> Inr c)"
  show ?thesis
    using assms(2)
    by (cases start)
      (simp_all add: resolve_def s start_def [symmetric] split_slash_join resolve_parts_append)
qed

lemma first_named_Some:
  "first_named name es = Some ino \<Longrightarrow> (ino, name) \<in> set es"
  by (induction name es rule: first_named.induct) (auto split: if_splits)

lemma first_named_None:
  "first_named name es = None \<longleftrightarrow> name \<notin> snd ` set es"
  by (induction name es rule: first_named.induct) (auto split: if_splits)

text \<open>What a component of a path may name: an entry of the directory, by an inode in range.\<close>

lemma dir_lookup_Some:
  assumes "dir_lookup fs d name = Inr (Some i)"
  shows "\<exists>es ino. read_dir fs d = Inr es \<and> (ino, name) \<in> set es \<and> get_inode fs ino = Inr i"
  using assms
  by (auto simp: dir_lookup_def bindR_Inr_iff split: option.splits dest: first_named_Some)

text \<open>A file that can be read at all has only blocks its pointers can reach.\<close>

lemma read_loop_reach:
  assumes "read_loop fs i off end' b pos = Inr w" and "pos = b * 1024" and "0 \<le> b"
    and "b \<le> MAX_BLOCKS" and "inode_wf i"
  shows "end' \<le> MAX_BLOCKS * 1024"
  using assms
proof (induction fs i off end' b pos arbitrary: w rule: read_loop.induct)
  case (1 fs i off end' b pos)
  show ?case
  proof (cases "pos < end'")
    case False
    with "1.prems" show ?thesis by simp
  next
    case True
    with "1.prems" obtain z rest where z: "zone_at fs i b = Inr z"
      and r: "read_loop fs i off end' (b + 1) (pos + BLOCK_SIZE) = Inr rest"
      by (subst (asm) read_loop.simps) (auto simp: bindR_Inr_iff)
    have "b < MAX_BLOCKS" using zone_at_range [OF "1.prems"(5,3), of fs] z by blast
    with "1.IH" [OF True z refl refl r] "1.prems" show ?thesis by (simp add: BLOCK_SIZE_def)
  qed
qed

lemma read_file_reach:
  assumes "read_file fs i 0 None = Inr w" and "inode_wf i"
  shows "readable_type i \<and> i_size i \<le> MAX_BLOCKS * 1024"
proof -
  have "readable_type i" using assms(1) by (auto simp: read_file_def split: if_splits)
  moreover have "i_size i \<le> MAX_BLOCKS * 1024"
  proof (cases "i_size i = 0")
    case True
    then show ?thesis by (simp add: MAX_BLOCKS_def)
  next
    case False
    with assms \<open>readable_type i\<close> have "read_loop fs i 0 (i_size i) 0 0 = Inr w"
      by (simp add: read_file_def Let_def inode_wf_def max_def)
    from read_loop_reach [OF this _ _ _ assms(2)] show ?thesis by (simp add: MAX_BLOCKS_def)
  qed
  ultimately show ?thesis by simp
qed

lemma read_file_window_law:
  assumes "read_file fs i 0 None = Inr w" and "inode_wf i" and "0 \<le> off" and "0 \<le> n"
  shows "read_file fs i off (Some n) = Inr (py_slice w off (off + n))"
  using read_file_reach [OF assms(1,2)] read_file_slice(1) [OF _ assms(2,3,4) _ assms(1)] by simp

end
