(* ===== verification/Minixfs_Check.thy ===== *)
theory Minixfs_Check
  imports Minixfs "HOL-Library.Multiset"
begin

text \<open>
  The two walks over the whole directory tree of \<open>src/minixfs.py\<close>: \<open>find_references\<close>,
  which lists every directory entry that names an inode, and \<open>check_fs\<close>, the consistency
  check. Both keep an explicit stack of directories; both definitions come with their
  termination proofs. A stack of the source is a list whose head is its top.

  A problem of the report carries the data its message prints; the message text itself is
  not modelled.
\<close>

section \<open>References to an inode\<close>

definition dot_name :: "string \<Rightarrow> bool" where
  "dot_name n \<longleftrightarrow> n = ''.'' \<or> n = ''..''"

definition rstrip_slash :: "string \<Rightarrow> string" where
  "rstrip_slash p = rev (dropWhile (\<lambda>c. c = CHR ''/'') (rev p))"

definition child_path :: "string \<Rightarrow> string \<Rightarrow> string" where
  "child_path dpath name = rstrip_slash dpath @ ''/'' @ name"

definition in_range :: "minixfs \<Rightarrow> int \<Rightarrow> bool" where
  "in_range fs ino \<longleftrightarrow> 1 \<le> ino \<and> ino \<le> ninodes (sb fs)"

type_synonym dstack = "(string \<times> int) list"

fun ref_scan :: "minixfs \<Rightarrow> int \<Rightarrow> string \<Rightarrow> (int \<times> string) list \<Rightarrow> (string \<times> string) list
    \<Rightarrow> dstack \<Rightarrow> int list \<Rightarrow> exn + (string \<times> string) list \<times> dstack \<times> int list" where
  "ref_scan fs target dpath [] results stk seen = Inr (results, stk, seen)"
| "ref_scan fs target dpath ((ino, name) # es) results stk seen =
     (let results = (if ino = target then results @ [(dpath, name)] else results) in
      if dot_name name \<or> \<not> in_range fs ino then ref_scan fs target dpath es results stk seen
      else bindR (get_inode fs ino) (\<lambda>child.
        if i_is_dir child \<and> ino \<notin> set seen
        then ref_scan fs target dpath es results ((child_path dpath name, ino) # stk) (ino # seen)
        else ref_scan fs target dpath es results stk seen))"

definition unseen :: "minixfs \<Rightarrow> int list \<Rightarrow> nat" where
  "unseen fs seen = card ({1..ninodes (sb fs)} - set seen)"

lemma unseen_Cons:
  assumes "in_range fs ino" and "ino \<notin> set seen"
  shows "Suc (unseen fs (ino # seen)) = unseen fs seen"
proof -
  define A where "A = {1..ninodes (sb fs)} - set seen"
  have "ino \<in> A" "finite A"
    using assms by (auto simp: in_range_def A_def)
  then have "Suc (card (A - {ino})) = card A"
    by (rule card_Suc_Diff1 [rotated])
  moreover have "{1..ninodes (sb fs)} - set (ino # seen) = A - {ino}"
    by (auto simp: A_def)
  ultimately show ?thesis
    by (simp only: unseen_def A_def)
qed

lemma ref_scan_measure:
  "ref_scan fs target dpath es results stk seen = Inr (results', stk', seen') \<Longrightarrow>
   2 * unseen fs seen' + length stk' \<le> 2 * unseen fs seen + length stk"
proof (induction fs target dpath es results stk seen rule: ref_scan.induct)
  case (1 fs target dpath results stk seen)
  then show ?case by simp
next
  case (2 fs target dpath ino name es results stk seen)
  show ?case
  proof (cases "dot_name name \<or> \<not> in_range fs ino")
    case True
    with 2 show ?thesis by (simp add: Let_def)
  next
    case False
    with "2.prems" obtain child where child: "get_inode fs ino = Inr child"
      by (auto simp: Let_def bindR_Inr_iff)
    show ?thesis
    proof (cases "i_is_dir child \<and> ino \<notin> set seen")
      case True
      with "2.IH"(2) [OF refl False child True] "2.prems" False child
        unseen_Cons [of fs ino seen]
      show ?thesis by (simp add: Let_def)
    next
      case rest: False
      with "2.IH"(3) [OF refl False child rest] "2.prems" False child
      show ?thesis by (simp add: Let_def)
    qed
  qed
qed

function ref_loop :: "minixfs \<Rightarrow> int \<Rightarrow> dstack \<Rightarrow> int list \<Rightarrow> (string \<times> string) list
    \<Rightarrow> exn + (string \<times> string) list" where
  "ref_loop fs target [] seen results = Inr results"
| "ref_loop fs target ((dpath, dnum) # stk) seen results =
     bindR (get_inode fs dnum) (\<lambda>d.
     bindR (read_dir fs d) (\<lambda>es.
     bindR (ref_scan fs target dpath es results stk seen) (\<lambda>(results', stk', seen').
       ref_loop fs target stk' seen' results')))"
  by pat_completeness auto

termination
  by (relation "measure (\<lambda>(fs, target, stk, seen, results). 2 * unseen fs seen + length stk)")
    (auto dest: ref_scan_measure)

definition find_references :: "minixfs \<Rightarrow> int \<Rightarrow> exn + (string \<times> string) list" where
  "find_references fs target =
     bindR (ref_loop fs target [(''/'', ROOT_INODE)] [ROOT_INODE] []) (\<lambda>rs. Inr (sort rs))"

section \<open>The consistency check\<close>

datatype desc = DataBlock int | Indirect | DoubleIndirect | SubIndirect int

datatype problem_kind =
    ZoneIllegal desc int
  | ZoneUnmarked desc int
  | ZoneShared desc int string int
  | SizeMismatch int int int int
  | DirSizeOdd int
  | InodeUnmarked
  | InodeOutOfRange string
  | UnknownType int
  | Orphan int int int
  | BitmapLeak
  | LostZones "int list"

record problem =
  p_path :: string
  p_inode :: int
  p_kind :: problem_kind

record fsck_report =
  problems :: "problem list"
  inodes_checked :: int
  zones_checked :: int

definition clean :: "fsck_report \<Rightarrow> bool" where
  "clean r \<longleftrightarrow> problems r = []"

text \<open>The bitmaps read once, and the state of the walk.\<close>

record fsck =
  probs :: "problem list"
  zone_owner :: "(int \<times> string \<times> int) list"
  referenced :: "(int \<times> string) list"
  checked :: "int list"

definition imap_of :: "minixfs \<Rightarrow> bytes" where
  "imap_of fs = read_blocks fs 2 (imap_blocks (sb fs))"

definition zmap_of :: "minixfs \<Rightarrow> bytes" where
  "zmap_of fs = read_blocks fs (2 + imap_blocks (sb fs)) (zmap_blocks (sb fs))"

definition ibit :: "minixfs \<Rightarrow> int \<Rightarrow> exn + bool" where
  "ibit fs num = bitmap_bit (imap_of fs) num"

definition zbit :: "minixfs \<Rightarrow> int \<Rightarrow> exn + bool" where
  "zbit fs zone = bitmap_bit (zmap_of fs) (zone - firstdatazone (sb fs) + 1)"

definition valid_zone :: "minixfs \<Rightarrow> int \<Rightarrow> bool" where
  "valid_zone fs z \<longleftrightarrow> firstdatazone (sb fs) \<le> z \<and> z < nzones (sb fs)"

definition block_zones :: "minixfs \<Rightarrow> int \<Rightarrow> int list" where
  "block_zones fs z = map (\<lambda>j. u16_at (read_block fs z) (2 * j)) [0..<512]"

definition nonzero_from :: "int \<Rightarrow> int list \<Rightarrow> (int \<times> int) list" where
  "nonzero_from base zs =
     concat (map (\<lambda>j. if zs ! j \<noteq> 0 then [(base + int j, zs ! j)] else []) [0..<length zs])"

definition collect_zones :: "minixfs \<Rightarrow> inode \<Rightarrow> (int \<times> int) list \<times> (desc \<times> int) list" where
  "collect_zones fs inode =
     (let direct = nonzero_from 0 (take 7 (i_zones inode));
          ind = i_zones inode ! 7;
          dbl = i_zones inode ! 8;
          meta1 = (if ind \<noteq> 0 then [(Indirect, ind)] else []);
          data1 = (if ind \<noteq> 0 \<and> valid_zone fs ind then nonzero_from 7 (block_zones fs ind) else []);
          subs = (if dbl \<noteq> 0 \<and> valid_zone fs dbl then nonzero_from 0 (block_zones fs dbl) else []);
          meta2 = (if dbl \<noteq> 0 then (DoubleIndirect, dbl) # map (\<lambda>(j, z). (SubIndirect j, z)) subs
                   else []);
          data2 = concat (map (\<lambda>(j, z).
                    if valid_zone fs z
                    then nonzero_from (7 + ZONES_PER_BLOCK + j * ZONES_PER_BLOCK) (block_zones fs z)
                    else []) subs)
      in (direct @ data1 @ data2, meta1 @ meta2))"

definition report_problem :: "string \<Rightarrow> int \<Rightarrow> problem_kind \<Rightarrow> fsck \<Rightarrow> fsck" where
  "report_problem path ino k s = s\<lparr>probs := probs s @ [\<lparr>p_path = path, p_inode = ino, p_kind = k\<rparr>]\<rparr>"

fun check_zones :: "minixfs \<Rightarrow> string \<Rightarrow> int \<Rightarrow> (desc \<times> int) list \<Rightarrow> fsck \<Rightarrow> exn + fsck" where
  "check_zones fs path num [] s = Inr s"
| "check_zones fs path num ((d, zone) # zs) s =
     (if \<not> valid_zone fs zone
      then check_zones fs path num zs (report_problem path num (ZoneIllegal d zone) s)
      else bindR (zbit fs zone) (\<lambda>b.
        let s = (if b then s else report_problem path num (ZoneUnmarked d zone) s);
            s = (case map_of (zone_owner s) zone of
                   Some (opath, oino) \<Rightarrow> report_problem path num (ZoneShared d zone opath oino) s
                 | None \<Rightarrow> s\<lparr>zone_owner := (zone, path, num) # zone_owner s\<rparr>)
        in check_zones fs path num zs s))"

definition zone_items :: "minixfs \<Rightarrow> inode \<Rightarrow> (desc \<times> int) list" where
  "zone_items fs inode =
     (case collect_zones fs inode of (data, meta) \<Rightarrow> map (\<lambda>(i, z). (DataBlock i, z)) data @ meta)"

definition check_inode :: "minixfs \<Rightarrow> string \<Rightarrow> inode \<Rightarrow> fsck \<Rightarrow> exn + fsck" where
  "check_inode fs path inode s =
     (if i_is_device inode \<or> i_is_fifo inode then Inr s
      else
        bindR (check_zones fs path (i_num inode) (zone_items fs inode) s) (\<lambda>s.
        let data = fst (collect_zones fs inode);
            expected = (i_size inode + BLOCK_SIZE - 1) div BLOCK_SIZE;
            beyond = filter (\<lambda>(i, z). i \<ge> expected) data;
            s = (if int (length data) \<noteq> expected \<or> beyond \<noteq> []
                 then report_problem path (i_num inode)
                        (SizeMismatch (i_size inode) expected (int (length data))
                           (int (length beyond))) s
                 else s);
            s = (if i_is_dir inode \<and> i_size inode mod dirent_size (sb fs) \<noteq> 0
                 then report_problem path (i_num inode) (DirSizeOdd (i_size inode)) s else s)
        in Inr s))"

definition setdefault :: "int \<Rightarrow> string \<Rightarrow> (int \<times> string) list \<Rightarrow> (int \<times> string) list" where
  "setdefault k v m = (case map_of m k of None \<Rightarrow> (k, v) # m | Some _ \<Rightarrow> m)"

text \<open>The first visit of an inode: bitmap, file type (for an entry that is not a directory), contents.\<close>

definition visit :: "minixfs \<Rightarrow> bool \<Rightarrow> string \<Rightarrow> int \<Rightarrow> inode \<Rightarrow> fsck \<Rightarrow> exn + fsck" where
  "visit fs is_entry path ino inode s =
     (let s = s\<lparr>checked := ino # checked s\<rparr> in
      bindR (ibit fs ino) (\<lambda>b.
      let s = (if b then s else report_problem path ino InodeUnmarked s);
          s = (if is_entry \<and> \<not> (i_is_regular inode \<or> i_is_device inode \<or> i_is_fifo inode
                  \<or> i_is_symlink inode)
               then report_problem path ino (UnknownType (i_mode inode)) s else s)
      in check_inode fs path inode s))"

fun scan_entries :: "minixfs \<Rightarrow> string \<Rightarrow> (int \<times> string) list \<Rightarrow> dstack \<Rightarrow> fsck
    \<Rightarrow> exn + dstack \<times> fsck" where
  "scan_entries fs dpath [] stk s = Inr (stk, s)"
| "scan_entries fs dpath ((ino, name) # es) stk s =
     (let epath = (if dot_name name then dpath else child_path dpath name) in
      if \<not> in_range fs ino
      then scan_entries fs dpath es stk (report_problem epath ino (InodeOutOfRange name) s)
      else
        let s = s\<lparr>referenced := setdefault ino epath (referenced s)\<rparr> in
        if dot_name name then scan_entries fs dpath es stk s
        else bindR (get_inode fs ino) (\<lambda>child.
          if i_is_dir child then
            scan_entries fs dpath es
              (if ino \<notin> set (checked s) then (epath, ino) # stk else stk) s
          else if ino \<notin> set (checked s) then
            bindR (visit fs True epath ino child s) (\<lambda>s. scan_entries fs dpath es stk s)
          else scan_entries fs dpath es stk s))"

text \<open>
  The measure of the outer loop: inodes not yet checked, then checked directories on the
  stack. A directory pushed several times is popped several times, but after its first
  visit a pop pushes only unchecked directories.
\<close>

lemma check_zones_checked:
  "check_zones fs path num zs s = Inr t \<Longrightarrow> checked t = checked s"
  by (induction fs path num zs s rule: check_zones.induct)
    (auto simp: Let_def bindR_Inr_iff report_problem_def split: if_splits option.splits prod.splits)

lemma check_inode_checked: "check_inode fs path i s = Inr t \<Longrightarrow> checked t = checked s"
  by (auto simp: check_inode_def Let_def bindR_Inr_iff report_problem_def
      split: if_splits dest!: check_zones_checked)

lemma visit_checked: "visit fs e path ino i s = Inr t \<Longrightarrow> checked t = ino # checked s"
  by (auto simp: visit_def Let_def bindR_Inr_iff report_problem_def
      split: if_splits dest!: check_inode_checked)

definition stale :: "fsck \<Rightarrow> dstack \<Rightarrow> nat" where
  "stale s stk = length (filter (\<lambda>(p, n). n \<in> set (checked s)) stk)"

lemma unseen_antimono: "set xs \<subseteq> set ys \<Longrightarrow> unseen fs ys \<le> unseen fs xs"
  unfolding unseen_def by (intro card_mono) auto

lemma scan_entries_measure:
  "scan_entries fs dpath es stk s = Inr (stk', s') \<Longrightarrow>
   set (checked s) \<subseteq> set (checked s') \<and>
   (unseen fs (checked s') < unseen fs (checked s) \<or>
    unseen fs (checked s') = unseen fs (checked s) \<and> checked s' = checked s
      \<and> stale s' stk' = stale s stk)"
proof (induction fs dpath es stk s rule: scan_entries.induct)
  case (1 fs dpath stk s)
  then show ?case by simp
next
  case (2 fs dpath ino name es stk s)
  show ?case
  proof (cases "in_range fs ino")
    case False
    with 2 show ?thesis by (simp add: Let_def report_problem_def stale_def)
  next
    case True
    define epath where "epath = (if dot_name name then dpath else child_path dpath name)"
    define s1 where "s1 = s\<lparr>referenced := setdefault ino epath (referenced s)\<rparr>"
    show ?thesis
    proof (cases "dot_name name")
      case True
      with \<open>in_range fs ino\<close> 2 show ?thesis by (simp add: Let_def stale_def)
    next
      case False
      with \<open>in_range fs ino\<close> "2.prems" obtain child where child: "get_inode fs ino = Inr child"
        by (auto simp: Let_def bindR_Inr_iff)
      show ?thesis
      proof (cases "i_is_dir child \<or> ino \<in> set (checked s)")
        case True
        with \<open>in_range fs ino\<close> False child 2 show ?thesis
          by (auto simp: Let_def stale_def split: if_splits)
      next
        case rest: False
        with \<open>in_range fs ino\<close> False child "2.prems" obtain t where
          t: "visit fs True epath ino child s1 = Inr t"
          and r: "scan_entries fs dpath es stk t = Inr (stk', s')"
          by (auto simp: Let_def bindR_Inr_iff epath_def s1_def)
        have c: "checked t = ino # checked s"
          using visit_checked [OF t] by (simp add: s1_def)
        have "set (checked t) \<subseteq> set (checked s') \<and> unseen fs (checked s') \<le> unseen fs (checked t)"
          using "2.IH"(4) [OF epath_def _ s1_def _ child _ _ t r] \<open>in_range fs ino\<close> False rest t
          by (auto simp: s1_def)
        with c unseen_Cons [of fs ino "checked s"] \<open>in_range fs ino\<close> rest show ?thesis
          by auto
      qed
    qed
  qed
qed

lemma check_loop_measure:
  assumes d: "get_inode fs dnum = Inr dnode"
    and v: "(if dnum \<notin> set (checked s) then visit fs False dpath dnum dnode s else Inr s) = Inr s1"
    and e: "scan_entries fs dpath es stk s1 = Inr (stk', s')"
  shows "unseen fs (checked s') < unseen fs (checked s) \<or>
    unseen fs (checked s') = unseen fs (checked s) \<and> stale s' stk' < stale s ((dpath, dnum) # stk)"
proof (cases "dnum \<in> set (checked s)")
  case True
  with v have "s1 = s" by simp
  with scan_entries_measure [OF e] True show ?thesis by (auto simp: stale_def)
next
  case False
  with v have "checked s1 = dnum # checked s" by (simp add: visit_checked)
  moreover have "in_range fs dnum"
    using get_inode_Inr [OF d] by (simp add: in_range_def)
  ultimately show ?thesis
    using scan_entries_measure [OF e] unseen_Cons [of fs dnum "checked s"] False by auto
qed

function check_loop :: "minixfs \<Rightarrow> dstack \<Rightarrow> fsck \<Rightarrow> exn + fsck" where
  "check_loop fs [] s = Inr s"
| "check_loop fs ((dpath, dnum) # stk) s =
     bindR (get_inode fs dnum) (\<lambda>dnode.
     bindR (if dnum \<notin> set (checked s) then visit fs False dpath dnum dnode s else Inr s) (\<lambda>s1.
     bindR (read_dir fs dnode) (\<lambda>es.
     bindR (scan_entries fs dpath es stk s1) (\<lambda>(stk', s'). check_loop fs stk' s'))))"
  by pat_completeness auto

termination
  by (relation "measures [\<lambda>(fs, stk, s). unseen fs (checked s), \<lambda>(fs, stk, s). stale s stk]")
    (auto dest: check_loop_measure)

fun orphans :: "minixfs \<Rightarrow> int list \<Rightarrow> fsck \<Rightarrow> exn + fsck" where
  "orphans fs [] s = Inr s"
| "orphans fs (i # is) s =
     bindR (ibit fs i) (\<lambda>b.
       if b \<and> i \<notin> fst ` set (referenced s) then
         bindR (get_inode fs i) (\<lambda>node.
           orphans fs is
             (if i_mode node \<noteq> 0 \<or> i_nlinks node \<noteq> 0 \<or> i_size node \<noteq> 0
              then report_problem ''-'' i (Orphan (i_mode node) (i_size node) (i_nlinks node)) s
              else report_problem ''-'' i BitmapLeak s))
       else orphans fs is s)"

fun lost_zones :: "minixfs \<Rightarrow> int list \<Rightarrow> fsck \<Rightarrow> exn + int list" where
  "lost_zones fs [] s = Inr []"
| "lost_zones fs (z # zs) s =
     bindR (zbit fs z) (\<lambda>b. bindR (lost_zones fs zs s) (\<lambda>rest.
       Inr (if b \<and> z \<notin> fst ` set (zone_owner s) then z # rest else rest)))"

definition check_fs :: "minixfs \<Rightarrow> exn + fsck_report" where
  "check_fs fs =
     bindR (check_loop fs [(''/'', ROOT_INODE)]
       \<lparr>probs = [], zone_owner = [], referenced = [(ROOT_INODE, ''/'')], checked = []\<rparr>) (\<lambda>s.
     bindR (orphans fs [1..ninodes (sb fs)] s) (\<lambda>s.
     bindR (lost_zones fs [firstdatazone (sb fs)..nzones (sb fs) - 1] s) (\<lambda>lost.
     let s = (if lost \<noteq> [] then report_problem ''-'' 0 (LostZones lost) s else s)
     in Inr \<lparr>problems = probs s, inodes_checked = int (length (checked s)),
             zones_checked = int (length (zone_owner s))\<rparr>)))"

section \<open>What the walks visit\<close>

text \<open>The inodes the directory tree reaches, through entries other than \<open>.\<close> and \<open>..\<close>.\<close>

definition dir_entry :: "minixfs \<Rightarrow> int \<Rightarrow> int \<Rightarrow> string \<Rightarrow> bool" where
  "dir_entry fs d ino name \<longleftrightarrow>
     (\<exists>i es. get_inode fs d = Inr i \<and> read_dir fs i = Inr es \<and> (ino, name) \<in> set es)"

inductive reach :: "minixfs \<Rightarrow> int \<Rightarrow> bool" for fs where
  root: "reach fs ROOT_INODE"
| child: "reach fs d \<Longrightarrow> dir_entry fs d ino name \<Longrightarrow> \<not> dot_name name \<Longrightarrow> in_range fs ino \<Longrightarrow>
          reach fs ino"

definition is_dir_ino :: "minixfs \<Rightarrow> int \<Rightarrow> bool" where
  "is_dir_ino fs n \<longleftrightarrow> (\<exists>i. get_inode fs n = Inr i \<and> i_is_dir i)"

lemma dir_entryI:
  "get_inode fs d = Inr i \<Longrightarrow> read_dir fs i = Inr es \<Longrightarrow> (ino, name) \<in> set es \<Longrightarrow>
   dir_entry fs d ino name"
  by (auto simp: dir_entry_def)

lemma dir_entry_is_dir: "dir_entry fs d ino name \<Longrightarrow> is_dir_ino fs d"
  by (auto simp: dir_entry_def is_dir_ino_def read_dir_def split: if_splits)

text \<open>\<open>find_references\<close>: the references met so far are those of the directories popped so far.\<close>

definition refs_of :: "minixfs \<Rightarrow> int \<Rightarrow> int set \<Rightarrow> string set" where
  "refs_of fs target D = {name. \<exists>d \<in> D. dir_entry fs d target name}"

definition sub_dirs :: "minixfs \<Rightarrow> (int \<times> string) list \<Rightarrow> int set" where
  "sub_dirs fs es = {ino. \<exists>name. (ino, name) \<in> set es \<and> \<not> dot_name name \<and> in_range fs ino
     \<and> is_dir_ino fs ino}"

definition naming :: "int \<Rightarrow> (int \<times> string) list \<Rightarrow> string list" where
  "naming target es = map snd (filter (\<lambda>(i, n). i = target) es)"

lemma ref_scan_effect:
  assumes "ref_scan fs target dpath es results stk seen = Inr (results', stk', seen')"
  shows "results' = results @ map (Pair dpath) (naming target es) \<and>
    (\<exists>new. stk' = new @ stk \<and> seen' = map snd new @ seen \<and> distinct (map snd new)
       \<and> set (map snd new) \<inter> set seen = {}
       \<and> set (map snd new) \<union> set seen = set seen \<union> sub_dirs fs es)"
  using assms
proof (induction fs target dpath es results stk seen rule: ref_scan.induct)
  case (1 fs target dpath results stk seen)
  then show ?case by (auto simp: sub_dirs_def naming_def)
next
  case (2 fs target dpath ino name es results stk seen)
  show ?case
  proof (cases "dot_name name \<or> \<not> in_range fs ino")
    case True
    moreover from this have "sub_dirs fs ((ino, name) # es) = sub_dirs fs es"
      by (auto simp: sub_dirs_def)
    ultimately show ?thesis
      using "2.IH"(1) [OF refl True] "2.prems" by (simp add: Let_def naming_def split: if_splits)
  next
    case False
    with "2.prems" obtain child where child: "get_inode fs ino = Inr child"
      by (auto simp: Let_def bindR_Inr_iff)
    then have dir: "is_dir_ino fs ino \<longleftrightarrow> i_is_dir child" by (simp add: is_dir_ino_def)
    show ?thesis
    proof (cases "i_is_dir child \<and> ino \<notin> set seen")
      case True
      have sd: "sub_dirs fs ((ino, name) # es) = insert ino (sub_dirs fs es)"
        using False True dir by (auto simp: sub_dirs_def)
      have "ref_scan fs target dpath es
          (if ino = target then results @ [(dpath, name)] else results)
          ((child_path dpath name, ino) # stk) (ino # seen) = Inr (results', stk', seen')"
        using "2.prems" False child True by (simp add: Let_def)
      from "2.IH"(2) [OF refl False child True this] obtain new where
        res: "results' = (if ino = target then results @ [(dpath, name)] else results)
               @ map (Pair dpath) (naming target es)"
        and new: "stk' = new @ (child_path dpath name, ino) # stk" "seen' = map snd new @ ino # seen"
          "distinct (map snd new)" "set (map snd new) \<inter> set (ino # seen) = {}"
          "set (map snd new) \<union> set (ino # seen) = set (ino # seen) \<union> sub_dirs fs es"
        by blast
      have "results' = results @ map (Pair dpath) (naming target ((ino, name) # es))"
        using res by (simp add: naming_def)
      moreover have "set (map snd new) \<union> insert ino (set seen) = set seen \<union> insert ino (sub_dirs fs es)"
        using new(5) by auto
      ultimately show ?thesis
        using new True sd by (intro conjI exI [of _ "new @ [(child_path dpath name, ino)]"]) auto
    next
      case rest: False
      have "set seen \<union> sub_dirs fs ((ino, name) # es) = set seen \<union> sub_dirs fs es"
        using False rest dir by (auto simp: sub_dirs_def)
      with "2.IH"(3) [OF refl False child rest] "2.prems" False child rest
      show ?thesis by (simp add: Let_def naming_def split: if_splits)
    qed
  qed
qed

text \<open>The entries of a directory, by inode number; none for anything else.\<close>

definition entries_of :: "minixfs \<Rightarrow> int \<Rightarrow> (int \<times> string) list" where
  "entries_of fs d =
     (case bindR (get_inode fs d) (read_dir fs) of Inr es \<Rightarrow> es | Inl _ \<Rightarrow> [])"

lemma dir_entry_entries_of: "dir_entry fs d ino name \<longleftrightarrow> (ino, name) \<in> set (entries_of fs d)"
  by (cases "get_inode fs d"; cases "read_dir fs (projr (get_inode fs d))")
    (auto simp: dir_entry_def entries_of_def)

definition closed_dirs :: "minixfs \<Rightarrow> int set \<Rightarrow> int set \<Rightarrow> bool" where
  "closed_dirs fs D S \<longleftrightarrow> (\<forall>d \<in> D. sub_dirs fs (entries_of fs d) \<subseteq> S)"

lemma ref_loop_effect:
  assumes "ref_loop fs target stk seen results = Inr rs"
    and "distinct (map snd stk)" and "set (map snd stk) \<subseteq> set seen"
    and "closed_dirs fs (set seen - set (map snd stk)) (set seen)"
    and "\<forall>d \<in> set seen. reach fs d \<and> is_dir_ino fs d"
  shows "\<exists>F. finite F \<and> set seen \<subseteq> F \<and> closed_dirs fs F F \<and> (\<forall>d \<in> F. reach fs d \<and> is_dir_ino fs d)
    \<and> mset (map snd rs) = mset (map snd results)
        + (\<Sum>d \<in> F - (set seen - set (map snd stk)). mset (naming target (entries_of fs d)))"
  using assms
proof (induction fs target stk seen results rule: ref_loop.induct)
  case (1 fs target seen results)
  then show ?case by (intro exI [of _ "set seen"]) auto
next
  case (2 fs target dpath dnum stk seen results)
  obtain d es results' stk' seen' where d: "get_inode fs dnum = Inr d" and es: "read_dir fs d = Inr es"
    and sc: "ref_scan fs target dpath es results stk seen = Inr (results', stk', seen')"
    and lp: "ref_loop fs target stk' seen' results' = Inr rs"
    using "2.prems"(1) by (auto simp: bindR_Inr_iff split: prod.splits)
  have ent: "entries_of fs dnum = es" by (simp add: entries_of_def d es)
  from ref_scan_effect [OF sc] obtain new where
    res: "results' = results @ map (Pair dpath) (naming target es)"
    and new: "stk' = new @ stk" "seen' = map snd new @ seen" "distinct (map snd new)"
      "set (map snd new) \<inter> set seen = {}"
      "set (map snd new) \<union> set seen = set seen \<union> sub_dirs fs es"
    by blast
  let ?done = "set seen - set (map snd stk) - {dnum}"
  have done': "set seen' - set (map snd stk') = insert dnum ?done" "dnum \<notin> ?done"
    using new "2.prems"(2,3) by auto
  have sub: "sub_dirs fs es \<subseteq> set seen'" using new by auto
  have r: "\<forall>x \<in> set seen'. reach fs x \<and> is_dir_ino fs x"
  proof
    fix x
    assume "x \<in> set seen'"
    then consider "x \<in> set seen" | "x \<in> sub_dirs fs es" using new by auto
    then show "reach fs x \<and> is_dir_ino fs x"
    proof cases
      case 1
      with "2.prems"(5) show ?thesis by simp
    next
      case 2
      with "2.prems"(3,5) dir_entryI [OF d es] show ?thesis
        by (auto simp: sub_dirs_def intro: reach.child)
    qed
  qed
  have "closed_dirs fs (set seen' - set (map snd stk')) (set seen')"
    using "2.prems"(4) sub ent new(2) unfolding done'(1) by (auto simp: closed_dirs_def)
  moreover have "set (map snd new) \<inter> set (map snd stk) = {}"
    using new(4) "2.prems"(3) by (simp del: set_map) blast
  then have "distinct (map snd stk')" "set (map snd stk') \<subseteq> set seen'"
    using new "2.prems"(2,3) by auto
  ultimately obtain F where F: "finite F" "set seen' \<subseteq> F" "closed_dirs fs F F"
    "\<forall>x \<in> F. reach fs x \<and> is_dir_ino fs x"
    "mset (map snd rs) = mset (map snd results')
        + (\<Sum>x \<in> F - (set seen' - set (map snd stk')). mset (naming target (entries_of fs x)))"
    using "2.IH" [OF d es sc refl refl lp] r by blast
  have "F - ?done = insert dnum (F - (set seen' - set (map snd stk')))"
    unfolding done'(1) using done'(2) F(2) new(2) "2.prems"(3) by auto
  moreover have "dnum \<notin> F - (set seen' - set (map snd stk'))" unfolding done'(1) by simp
  ultimately have "(\<Sum>x \<in> F - ?done. mset (naming target (entries_of fs x))) =
      mset (naming target es) +
      (\<Sum>x \<in> F - (set seen' - set (map snd stk')). mset (naming target (entries_of fs x)))"
    using F(1) ent by simp
  then have "mset (map snd rs) = mset (map snd results)
      + (\<Sum>x \<in> F - ?done. mset (naming target (entries_of fs x)))"
    using F(5) res by (simp add: comp_def)
  moreover have "set seen - set (map snd ((dpath, dnum) # stk)) = ?done" by auto
  ultimately show ?case
    using F new(2) by (intro exI [of _ F]) auto
qed

lemma find_references_mset:
  assumes "find_references fs target = Inr rs"
  shows "mset (map snd rs) =
    (\<Sum>d \<in> {d. reach fs d \<and> is_dir_ino fs d}. mset (naming target (entries_of fs d)))"
proof -
  obtain rs' where lp: "ref_loop fs target [(''/'', ROOT_INODE)] [ROOT_INODE] [] = Inr rs'"
    and rs: "rs = sort rs'"
    using assms by (auto simp: find_references_def bindR_Inr_iff)
  have root: "is_dir_ino fs ROOT_INODE"
    using lp by (auto simp: bindR_Inr_iff is_dir_ino_def read_dir_def split: if_splits)
  obtain F where F: "finite F" "ROOT_INODE \<in> F" "closed_dirs fs F F"
      "\<forall>d \<in> F. reach fs d \<and> is_dir_ino fs d"
      "mset (map snd rs') = (\<Sum>d \<in> F. mset (naming target (entries_of fs d)))"
    using ref_loop_effect [OF lp] root reach.root by (auto simp: closed_dirs_def)
  have "x \<in> F" if "reach fs x" "is_dir_ino fs x" for x
    using that
  proof (induction rule: reach.induct)
    case root
    show ?case by (rule F(2))
  next
    case (child d ino name)
    then have "d \<in> F" using dir_entry_is_dir by blast
    moreover have "ino \<in> sub_dirs fs (entries_of fs d)"
      using child by (auto simp: sub_dirs_def dir_entry_entries_of)
    ultimately show ?case using F(3) by (auto simp: closed_dirs_def)
  qed
  with F(4) have "F = {d. reach fs d \<and> is_dir_ino fs d}" by blast
  with F(5) rs show ?thesis by simp
qed

section \<open>What a clean report means\<close>

definition zone_set :: "minixfs \<Rightarrow> inode \<Rightarrow> int set" where
  "zone_set fs i = snd ` set (zone_items fs i)"

definition has_data :: "inode \<Rightarrow> bool" where
  "has_data i \<longleftrightarrow> \<not> (i_is_device i \<or> i_is_fifo i)"

definition size_matches :: "minixfs \<Rightarrow> inode \<Rightarrow> bool" where
  "size_matches fs i \<longleftrightarrow>
     int (length (fst (collect_zones fs i))) = (i_size i + 1023) div 1024 \<and>
     (\<forall>(k, z) \<in> set (fst (collect_zones fs i)). k < (i_size i + 1023) div 1024)"

text \<open>An inode that passed its check, with the owners its zones were recorded under.\<close>

definition inode_ok :: "minixfs \<Rightarrow> (int \<times> string \<times> int) list \<Rightarrow> int \<Rightarrow> bool" where
  "inode_ok fs owner n \<longleftrightarrow> ibit fs n = Inr True \<and>
     (\<exists>i. get_inode fs n = Inr i \<and> (has_data i \<longrightarrow>
        distinct (map snd (zone_items fs i)) \<and> size_matches fs i \<and>
        (\<forall>z \<in> zone_set fs i. valid_zone fs z \<and> zbit fs z = Inr True
           \<and> (\<exists>p. map_of owner z = Some (p, n)))))"

definition grows :: "fsck \<Rightarrow> fsck \<Rightarrow> bool" where
  "grows s t \<longleftrightarrow> (probs t = [] \<longrightarrow> probs s = []) \<and>
     (\<forall>z v. map_of (zone_owner s) z = Some v \<longrightarrow> map_of (zone_owner t) z = Some v)"

lemma grows_refl [simp]: "grows s s"
  by (simp add: grows_def)

lemma grows_trans [trans]: "grows s t \<Longrightarrow> grows t u \<Longrightarrow> grows s u"
  by (simp add: grows_def)

lemma grows_report [simp]: "grows s (report_problem p n k s)"
  by (simp add: grows_def report_problem_def)

lemma grows_report_trans: "grows s t \<Longrightarrow> grows s (report_problem p n k t)"
  by (rule grows_trans [OF _ grows_report])

lemma probs_report [simp]: "probs (report_problem p n k s) \<noteq> []"
  by (simp add: report_problem_def)

lemma zone_owner_report [simp]:
  "zone_owner (report_problem p n k s) = zone_owner s"
  "checked (report_problem p n k s) = checked s"
  "referenced (report_problem p n k s) = referenced s"
  by (simp_all add: report_problem_def)

lemma check_zones_sound:
  assumes "check_zones fs path num zs s = Inr t"
  shows "grows s t \<and> referenced t = referenced s
    \<and> fst ` set (zone_owner t) \<subseteq> fst ` set (zone_owner s) \<union> snd ` set zs
    \<and> (probs t = [] \<longrightarrow> distinct (map snd zs) \<and>
        (\<forall>z \<in> snd ` set zs. valid_zone fs z \<and> zbit fs z = Inr True
           \<and> map_of (zone_owner s) z = None \<and> map_of (zone_owner t) z = Some (path, num)))"
  using assms
proof (induction fs path num zs s rule: check_zones.induct)
  case (1 fs path num s)
  then show ?case by simp
next
  case (2 fs path num d zone zs s)
  show ?case
  proof (cases "valid_zone fs zone")
    case False
    define s1 where "s1 = report_problem path num (ZoneIllegal d zone) s"
    have r: "check_zones fs path num zs s1 = Inr t"
      using "2.prems" False by (simp add: s1_def)
    note IH = "2.IH"(1) [OF False r [unfolded s1_def]]
    have "probs t \<noteq> []"
      using IH by (auto simp: grows_def)
    moreover have "grows s t"
      using IH by (auto intro: grows_trans [OF grows_report])
    ultimately show ?thesis
      using IH by auto
  next
    case True
    with "2.prems" obtain b where b: "zbit fs zone = Inr b" by (auto simp: bindR_Inr_iff)
    define s1 where "s1 = (if b then s else report_problem path num (ZoneUnmarked d zone) s)"
    define s2 where "s2 = (case map_of (zone_owner s1) zone of
         Some (opath, oino) \<Rightarrow> report_problem path num (ZoneShared d zone opath oino) s1
       | None \<Rightarrow> s1\<lparr>zone_owner := (zone, path, num) # zone_owner s1\<rparr>)"
    have rest: "check_zones fs path num zs s2 = Inr t"
      using "2.prems" unfolding s2_def s1_def
      by (simp only: check_zones.simps True b bindR_simps Let_def not_True_eq_False if_False)
    have s12: "grows s s1" "grows s1 s2" "referenced s2 = referenced s"
        "zone_owner s1 = zone_owner s"
        "fst ` set (zone_owner s2) \<subseteq> insert zone (fst ` set (zone_owner s))"
      by (auto simp: s1_def s2_def grows_def split: option.splits)
    have IH: "grows s2 t \<and> referenced t = referenced s2
        \<and> fst ` set (zone_owner t) \<subseteq> fst ` set (zone_owner s2) \<union> snd ` set zs
        \<and> (probs t = [] \<longrightarrow> distinct (map snd zs) \<and>
          (\<forall>z \<in> snd ` set zs. valid_zone fs z \<and> zbit fs z = Inr True
           \<and> map_of (zone_owner s2) z = None \<and> map_of (zone_owner t) z = Some (path, num)))"
      using "2.IH"(2) [OF _ b s1_def s2_def rest] True by simp
    show ?thesis
    proof (intro conjI impI)
      show "grows s t" by (rule grows_trans [OF grows_trans [OF s12(1,2)] conjunct1 [OF IH]])
      show "referenced t = referenced s" using s12 IH by simp
      show "fst ` set (zone_owner t) \<subseteq> fst ` set (zone_owner s) \<union> snd ` set ((d, zone) # zs)"
      proof -
        have "fst ` set (zone_owner t) \<subseteq> fst ` set (zone_owner s2) \<union> snd ` set zs"
          using IH by simp
        also have "\<dots> \<subseteq> insert zone (fst ` set (zone_owner s)) \<union> snd ` set zs"
          by (rule Un_mono [OF s12(5) order_refl])
        finally show ?thesis by simp
      qed
    next
      assume pt: "probs t = []"
      then have "probs s2 = []" "probs s1 = []" using IH s12 by (auto simp: grows_def)
      then have "b" by (auto simp: s1_def split: if_splits)
      then have s1: "s1 = s" by (simp add: s1_def)
      have none: "map_of (zone_owner s) zone = None"
        using \<open>probs s2 = []\<close> by (auto simp: s2_def s1 split: option.splits prod.splits)
      then have fresh: "map_of (zone_owner s) zone = None" "b"
          "zone_owner s2 = (zone, path, num) # zone_owner s"
        using \<open>b\<close> by (simp_all add: s2_def s1)
      have own: "map_of (zone_owner t) zone = Some (path, num)"
        using IH fresh(3) by (simp add: grows_def)
      have notin: "zone \<notin> snd ` set zs" using IH pt fresh(3) by auto
      show "distinct (map snd ((d, zone) # zs))" using IH pt notin by simp
      show "\<forall>z \<in> snd ` set ((d, zone) # zs). valid_zone fs z \<and> zbit fs z = Inr True
           \<and> map_of (zone_owner s) z = None \<and> map_of (zone_owner t) z = Some (path, num)"
      proof
        fix z
        assume "z \<in> snd ` set ((d, zone) # zs)"
        then consider "z = zone" | "z \<in> snd ` set zs" "z \<noteq> zone" by auto
        then show "valid_zone fs z \<and> zbit fs z = Inr True
           \<and> map_of (zone_owner s) z = None \<and> map_of (zone_owner t) z = Some (path, num)"
        proof cases
          case 1
          with True b fresh own show ?thesis by simp
        next
          case 2
          from IH pt have "\<forall>z \<in> snd ` set zs. valid_zone fs z \<and> zbit fs z = Inr True
              \<and> map_of (zone_owner s2) z = None \<and> map_of (zone_owner t) z = Some (path, num)"
            by (elim conjE) simp
          from bspec [OF this 2(1)] have "valid_zone fs z \<and> zbit fs z = Inr True
              \<and> map_of (zone_owner s2) z = None \<and> map_of (zone_owner t) z = Some (path, num)" .
          with 2(2) fresh(3) show ?thesis by simp
        qed
      qed
    qed
  qed
qed

lemma check_inode_sound:
  assumes "check_inode fs path i s = Inr t"
  shows "grows s t \<and> referenced t = referenced s
    \<and> fst ` set (zone_owner t) \<subseteq> fst ` set (zone_owner s) \<union> (if has_data i then zone_set fs i else {})
    \<and> (probs t = [] \<longrightarrow> has_data i \<longrightarrow> distinct (map snd (zone_items fs i)) \<and> size_matches fs i \<and>
        (\<forall>z \<in> zone_set fs i. valid_zone fs z \<and> zbit fs z = Inr True
           \<and> map_of (zone_owner t) z = Some (path, i_num i)))"
proof (cases "has_data i")
  case False
  with assms show ?thesis by (simp add: check_inode_def has_data_def)
next
  case True
  define data where "data = fst (collect_zones fs i)"
  define ex where "ex = (i_size i + BLOCK_SIZE - 1) div BLOCK_SIZE"
  define bad where "bad \<longleftrightarrow> int (length data) \<noteq> ex \<or> filter (\<lambda>(k, z). k \<ge> ex) data \<noteq> []"
  obtain u where u: "check_zones fs path (i_num i) (zone_items fs i) s = Inr u"
    using assms True by (auto simp: check_inode_def has_data_def bindR_Inr_iff)
  define v where "v = (if bad then report_problem path (i_num i) (SizeMismatch (i_size i) ex
      (int (length data)) (int (length (filter (\<lambda>(k, z). k \<ge> ex) data)))) u else u)"
  have "check_inode fs path i s = Inr (if i_is_dir i \<and> i_size i mod dirent_size (sb fs) \<noteq> 0
      then report_problem path (i_num i) (DirSizeOdd (i_size i)) v else v)"
    using True u unfolding has_data_def check_inode_def v_def bad_def data_def ex_def
    by (simp only: if_False bindR_simps Let_def)
  then have t: "t = (if i_is_dir i \<and> i_size i mod dirent_size (sb fs) \<noteq> 0
      then report_problem path (i_num i) (DirSizeOdd (i_size i)) v else v)"
    using assms by simp
  have g: "grows u t" "zone_owner t = zone_owner u" "referenced t = referenced u"
    by (auto simp: t v_def intro!: grows_report_trans)
  have "size_matches fs i" if "probs t = []"
    using that unfolding t v_def
    by (auto simp: bad_def size_matches_def data_def ex_def BLOCK_SIZE_def filter_empty_conv
        add.commute split: if_splits)
  with check_zones_sound [OF u] g True show ?thesis
    by (auto simp: zone_set_def grows_def)
qed

text \<open>The walk: one check per inode of the tree, every owner a checked inode.\<close>

definition owned :: "minixfs \<Rightarrow> fsck \<Rightarrow> bool" where
  "owned fs s \<longleftrightarrow> (\<forall>z \<in> fst ` set (zone_owner s). \<exists>n \<in> set (checked s). \<exists>i.
     get_inode fs n = Inr i \<and> has_data i \<and> z \<in> zone_set fs i)"

definition checked_ok :: "minixfs \<Rightarrow> fsck \<Rightarrow> bool" where
  "checked_ok fs s \<longleftrightarrow>
     (probs s = [] \<longrightarrow> (\<forall>n \<in> set (checked s). inode_ok fs (zone_owner s) n)) \<and> owned fs s \<and>
     distinct (checked s)"

lemma inode_ok_grows: "inode_ok fs (zone_owner s) n \<Longrightarrow> grows s t \<Longrightarrow> inode_ok fs (zone_owner t) n"
  unfolding inode_ok_def grows_def by blast

lemma visit_sound:
  assumes v: "visit fs e path n i s = Inr t" and i: "get_inode fs n = Inr i"
    and ok: "checked_ok fs s" and n: "n \<notin> set (checked s)"
  shows "checked_ok fs t \<and> grows s t \<and> referenced t = referenced s"
proof -
  obtain b where b: "ibit fs n = Inr b"
    using v by (auto simp: visit_def Let_def bindR_Inr_iff)
  define s1 where "s1 = s\<lparr>checked := n # checked s\<rparr>"
  define s2 where "s2 = (if b then s1 else report_problem path n InodeUnmarked s1)"
  define s3 where "s3 = (if e \<and> \<not> (i_is_regular i \<or> i_is_device i \<or> i_is_fifo i \<or> i_is_symlink i)
      then report_problem path n (UnknownType (i_mode i)) s2 else s2)"
  have c: "check_inode fs path i s3 = Inr t"
    using v b unfolding visit_def s1_def s2_def s3_def
    by (simp only: Let_def bindR_simps)
  have g: "grows s s3" "zone_owner s3 = zone_owner s" "referenced s3 = referenced s"
    by (auto simp: s3_def s2_def s1_def intro!: grows_report_trans) (simp_all add: grows_def)
  note cs = check_inode_sound [OF c]
  have gt: "grows s t" using grows_trans [OF g(1)] cs by blast
  have ch: "checked t = n # checked s" by (rule visit_checked [OF v])
  have num: "i_num i = n" using get_inode_Inr [OF i] by simp
  have "inode_ok fs (zone_owner t) n" if "probs t = []"
  proof -
    have "probs s3 = []" using cs that by (simp add: grows_def)
    then have "b" by (auto simp: s3_def s2_def split: if_splits)
    with b cs that num i show ?thesis by (auto simp: inode_ok_def)
  qed
  moreover have "owned fs t"
    using cs ok i g(2) unfolding owned_def ch checked_ok_def by (fastforce split: if_splits)
  ultimately have "checked_ok fs t"
    using ok gt n inode_ok_grows ch by (auto simp: checked_ok_def grows_def)
  with gt cs g show ?thesis by simp
qed

definition known :: "minixfs \<Rightarrow> int set" where
  "known fs = {n. n = ROOT_INODE \<or> (\<exists>d name. reach fs d \<and> dir_entry fs d n name)}"

definition tree_children :: "minixfs \<Rightarrow> (int \<times> string) list \<Rightarrow> int set" where
  "tree_children fs es = {n. \<exists>name. (n, name) \<in> set es \<and> \<not> dot_name name \<and> in_range fs n}"

lemma keys_setdefault: "fst ` set (setdefault k v m) = insert k (fst ` set m)"
  by (auto simp: setdefault_def map_of_eq_None_iff dest: map_of_SomeD split: option.splits)
    (force dest: map_of_SomeD)

definition nums :: "dstack \<Rightarrow> int set" where
  "nums stk = snd ` set stk"

lemma nums_simps [simp]: "nums [] = {}" "nums (x # stk) = insert (snd x) (nums stk)"
  by (simp_all add: nums_def)

definition ref_keys :: "fsck \<Rightarrow> int set" where
  "ref_keys s = fst ` set (referenced s)"

definition entry_nums :: "(int \<times> string) list \<Rightarrow> int set" where
  "entry_nums es = fst ` set es"

lemma ref_keys_report [simp]: "ref_keys (report_problem p n k s) = ref_keys s"
  by (simp add: ref_keys_def)

lemma entry_nums_simps [simp]: "entry_nums [] = {}" "entry_nums (x # es) = insert (fst x) (entry_nums es)"
  by (simp_all add: entry_nums_def)

lemma scan_entries_sound:
  assumes "scan_entries fs dpath es stk s = Inr (stk', s')" and "checked_ok fs s"
  shows "checked_ok fs s' \<and> grows s s'
    \<and> ref_keys s' \<subseteq> ref_keys s \<union> entry_nums es
    \<and> nums stk \<subseteq> nums stk'
    \<and> nums stk' \<subseteq> nums stk \<union> tree_children fs es
    \<and> set (checked s) \<subseteq> set (checked s')
    \<and> set (checked s') \<subseteq> set (checked s) \<union> tree_children fs es
    \<and> tree_children fs es \<subseteq> set (checked s') \<union> nums stk'"
  using assms
proof (induction fs dpath es stk s rule: scan_entries.induct)
  case (1 fs dpath stk s)
  then show ?case by (simp add: tree_children_def)
next
  case (2 fs dpath n name es stk s)
  define epath where "epath = (if dot_name name then dpath else child_path dpath name)"
  define s1 where "s1 = s\<lparr>referenced := setdefault n epath (referenced s)\<rparr>"
  have s1: "checked_ok fs s1" "grows s s1" "checked s1 = checked s"
      "ref_keys s1 = insert n (ref_keys s)"
    using "2.prems"(2) by (auto simp: s1_def checked_ok_def owned_def grows_def ref_keys_def keys_setdefault)
  show ?case
  proof (cases "in_range fs n")
    case False
    define s2 where "s2 = report_problem epath n (InodeOutOfRange name) s"
    have "checked_ok fs s2" "grows s s2"
      using "2.prems"(2) by (auto simp: s2_def checked_ok_def owned_def)
    moreover have "scan_entries fs dpath es stk s2 = Inr (stk', s')"
      using "2.prems"(1) False by (simp add: Let_def epath_def s2_def)
    moreover have "tree_children fs ((n, name) # es) = tree_children fs es"
      using False by (auto simp: tree_children_def)
    ultimately show ?thesis
      using "2.IH"(1) [OF epath_def False, folded s2_def] grows_trans [of s s2 s']
      by (auto simp: s2_def)
  next
    case True
    then have nr: "\<not> \<not> in_range fs n" by simp
    show ?thesis
    proof (cases "dot_name name")
      case True
      moreover from this have "tree_children fs ((n, name) # es) = tree_children fs es"
        by (auto simp: tree_children_def)
      moreover have "scan_entries fs dpath es stk s1 = Inr (stk', s')"
        using "2.prems"(1) True nr by (simp add: Let_def epath_def s1_def)
      ultimately show ?thesis
        using "2.IH"(2) [OF epath_def nr s1_def] s1 grows_trans [of s s1 s'] by auto
    next
      case False
      then obtain child where child: "get_inode fs n = Inr child"
        using "2.prems"(1) nr by (auto simp: Let_def bindR_Inr_iff)
      have tc: "tree_children fs ((n, name) # es) = insert n (tree_children fs es)"
        using False nr by (auto simp: tree_children_def)
      show ?thesis
      proof (cases "i_is_dir child \<or> n \<in> set (checked s)")
        case True
        define stk1 where "stk1 = (if i_is_dir child \<and> n \<notin> set (checked s)
           then (epath, n) # stk else stk)"
        have sc: "scan_entries fs dpath es stk1 s1 = Inr (stk', s')"
          using "2.prems"(1) True False nr child
          by (auto simp: Let_def epath_def s1_def stk1_def split: if_splits)
        have IH: "checked_ok fs s' \<and> grows s1 s'
          \<and> ref_keys s' \<subseteq> ref_keys s1 \<union> entry_nums es
          \<and> nums stk1 \<subseteq> nums stk'
          \<and> nums stk' \<subseteq> nums stk1 \<union> tree_children fs es
          \<and> set (checked s1) \<subseteq> set (checked s')
          \<and> set (checked s') \<subseteq> set (checked s1) \<union> tree_children fs es
          \<and> tree_children fs es \<subseteq> set (checked s') \<union> nums stk'"
        proof (cases "i_is_dir child")
          case dir: True
          have "stk1 = (if n \<notin> set (checked s1) then (epath, n) # stk else stk)"
            using dir s1(3) by (simp add: stk1_def)
          with "2.IH"(3) [OF epath_def nr s1_def False child dir _ s1(1)] sc show ?thesis by simp
        next
          case dir: False
          then have "stk1 = stk" "\<not> n \<notin> set (checked s1)" using True s1(3) by (simp_all add: stk1_def)
          with "2.IH"(5) [OF epath_def nr s1_def False child dir _ _ s1(1)] sc show ?thesis by simp
        qed
        have "n \<in> set (checked s1) \<union> nums stk1"
          using True s1(3) by (auto simp: stk1_def)
        moreover have "nums stk \<subseteq> nums stk1" "nums stk1 \<subseteq> insert n (nums stk)"
          by (auto simp: stk1_def)
        moreover have "grows s s'" using IH grows_trans [OF s1(2)] by blast
        ultimately show ?thesis
          using IH s1 tc by auto
      next
        case rest: False
        then obtain t where t: "visit fs True epath n child s1 = Inr t"
          and r: "scan_entries fs dpath es stk t = Inr (stk', s')"
          using "2.prems"(1) nr False child by (auto simp: Let_def bindR_Inr_iff epath_def s1_def)
        have vt: "checked_ok fs t" "grows s1 t" "referenced t = referenced s1"
          using visit_sound [OF t child s1(1)] rest s1(3) by auto
        have ct: "checked t = n # checked s" using visit_checked [OF t] s1(3) by simp
        have "grows s t" using grows_trans [OF s1(2) vt(2)] .
        moreover have "ref_keys t = ref_keys s1" using vt(3) by (simp add: ref_keys_def)
        ultimately show ?thesis
          using "2.IH"(4) [OF epath_def nr s1_def False child _ _ t r vt(1)] rest s1 ct tc
            grows_trans [of s t s']
          by auto
      qed
    qed
  qed
qed

lemma scan_entries_new:
  "scan_entries fs dpath es stk s = Inr (stk', s') \<Longrightarrow> n \<in> set (checked s') \<Longrightarrow>
   n \<in> set (checked s) \<or> \<not> is_dir_ino fs n"
proof (induction fs dpath es stk s rule: scan_entries.induct)
  case (1 fs dpath stk s)
  then show ?case by simp
next
  case (2 fs dpath ino name es stk s)
  define epath where "epath = (if dot_name name then dpath else child_path dpath name)"
  define s1 where "s1 = s\<lparr>referenced := setdefault ino epath (referenced s)\<rparr>"
  show ?case
  proof (cases "in_range fs ino \<and> \<not> dot_name name")
    case False
    with 2 show ?thesis
      by (cases "in_range fs ino") (simp_all add: Let_def report_problem_def)
  next
    case True
    then obtain child where child: "get_inode fs ino = Inr child"
      using "2.prems" by (auto simp: Let_def bindR_Inr_iff)
    show ?thesis
    proof (cases "i_is_dir child \<or> ino \<in> set (checked s)")
      case kept: True
      with True child 2 show ?thesis by (cases "i_is_dir child") (simp_all add: Let_def)
    next
      case rest: False
      with True child "2.prems" obtain t where
        t: "visit fs True epath ino child s1 = Inr t"
        and r: "scan_entries fs dpath es stk t = Inr (stk', s')"
        by (auto simp: Let_def bindR_Inr_iff epath_def s1_def)
      have "n \<in> set (checked t) \<or> \<not> is_dir_ino fs n"
        using "2.IH"(4) [OF epath_def _ s1_def _ child _ _ t r "2.prems"(2)] True rest
        by (simp add: s1_def)
      then show ?thesis
        using visit_checked [OF t] child rest by (auto simp: s1_def is_dir_ino_def)
    qed
  qed
qed

text \<open>The invariant of the walk: everything met is in the tree, and every checked directory
  has its entries checked or on the stack.\<close>

definition fsck_inv :: "minixfs \<Rightarrow> dstack \<Rightarrow> fsck \<Rightarrow> bool" where
  "fsck_inv fs stk s \<longleftrightarrow> checked_ok fs s
     \<and> (\<forall>n \<in> set (checked s) \<union> nums stk. reach fs n)
     \<and> (\<forall>d \<in> set (checked s). is_dir_ino fs d \<longrightarrow>
          tree_children fs (entries_of fs d) \<subseteq> set (checked s) \<union> nums stk)
     \<and> ROOT_INODE \<in> set (checked s) \<union> nums stk \<and> ref_keys s \<subseteq> known fs"

lemma fsck_invD:
  assumes "fsck_inv fs stk s"
  shows "checked_ok fs s" and "n \<in> set (checked s) \<Longrightarrow> reach fs n"
    and "n \<in> nums stk \<Longrightarrow> reach fs n"
    and "d \<in> set (checked s) \<Longrightarrow> is_dir_ino fs d \<Longrightarrow>
         tree_children fs (entries_of fs d) \<subseteq> set (checked s) \<union> nums stk"
    and "ROOT_INODE \<in> set (checked s) \<union> nums stk" and "ref_keys s \<subseteq> known fs"
  using assms by (simp_all add: fsck_inv_def)

lemma fsck_inv_step:
  assumes inv: "fsck_inv fs ((dpath, dnum) # stk) s" and d: "get_inode fs dnum = Inr i"
    and v: "(if dnum \<notin> set (checked s) then visit fs False dpath dnum i s else Inr s) = Inr s1"
    and es: "read_dir fs i = Inr es" and sc: "scan_entries fs dpath es stk s1 = Inr (stk', s')"
  shows "fsck_inv fs stk' s'"
proof -
  note I = fsck_invD [OF inv]
  have v': "visit fs False dpath dnum i s = Inr s1" if "dnum \<notin> set (checked s)"
    using v that by simp
  have s1: "checked_ok fs s1" "referenced s1 = referenced s"
      "set (checked s1) = insert dnum (set (checked s))"
  proof (atomize (full), cases "dnum \<in> set (checked s)")
    case True
    with v I(1) show "checked_ok fs s1 \<and> referenced s1 = referenced s \<and>
        set (checked s1) = insert dnum (set (checked s))" by auto
  next
    case False
    from visit_sound [OF v' [OF False] d I(1) False] visit_checked [OF v' [OF False]]
    show "checked_ok fs s1 \<and> referenced s1 = referenced s \<and>
        set (checked s1) = insert dnum (set (checked s))" by simp
  qed
  note S = scan_entries_sound [OF sc s1(1)]
  have ent: "entries_of fs dnum = es" by (simp add: entries_of_def d es)
  have rd: "reach fs dnum" by (rule I(3)) simp
  have kid: "reach fs n" if "n \<in> tree_children fs es" for n
    using that rd dir_entryI [OF d es] by (auto simp: tree_children_def intro: reach.child)
  have "reach fs n" if "n \<in> set (checked s') \<union> nums stk'" for n
    using that S s1(3) I(2,3) rd kid by auto
  moreover have "tree_children fs (entries_of fs x) \<subseteq> set (checked s') \<union> nums stk'"
    if x: "x \<in> set (checked s')" "is_dir_ino fs x" for x
  proof (cases "x = dnum")
    case True
    with S ent show ?thesis by simp
  next
    case False
    with scan_entries_new [OF sc x(1)] x(2) s1(3) have "x \<in> set (checked s)" by auto
    from I(4) [OF this x(2)] show ?thesis using S s1(3) by auto
  qed
  moreover have "ROOT_INODE \<in> set (checked s') \<union> nums stk'"
    using I(5) S s1(3) by auto
  moreover have "entry_nums es \<subseteq> known fs"
    using rd dir_entryI [OF d es] by (auto simp: entry_nums_def known_def) blast
  then have "ref_keys s' \<subseteq> known fs"
    using S I(6) s1(2) unfolding ref_keys_def by (metis Un_least order_trans)
  ultimately show ?thesis
    using S unfolding fsck_inv_def by blast
qed

lemma check_loop_inv:
  "check_loop fs stk s = Inr t \<Longrightarrow> fsck_inv fs stk s \<Longrightarrow> fsck_inv fs [] t"
proof (induction fs stk s rule: check_loop.induct)
  case (1 fs s)
  then show ?case by simp
next
  case (2 fs dpath dnum stk s)
  from "2.prems"(1) obtain i s1 es stk' s' where *: "get_inode fs dnum = Inr i"
    "(if dnum \<notin> set (checked s) then visit fs False dpath dnum i s else Inr s) = Inr s1"
    "read_dir fs i = Inr es" "scan_entries fs dpath es stk s1 = Inr (stk', s')"
    "check_loop fs stk' s' = Inr t"
    unfolding check_loop.simps bindR_Inr_iff case_prod_beta by (metis prod.collapse)
  show ?case
    by (rule "2.IH" [OF *(1-4) refl *(5) fsck_inv_step [OF "2.prems"(2) *(1-4)]])
qed

lemma fsck_inv_done:
  assumes "fsck_inv fs [] s"
  shows "set (checked s) = {n. reach fs n}"
proof -
  note I = fsck_invD [OF assms]
  have "n \<in> set (checked s)" if "reach fs n" for n
    using that
  proof (induction rule: reach.induct)
    case root
    show ?case using I(5) by simp
  next
    case (child d ino name)
    then have "ino \<in> tree_children fs (entries_of fs d)"
      by (auto simp: tree_children_def dir_entry_entries_of)
    with I(4) [OF child.IH dir_entry_is_dir [OF child.hyps(2)]] show ?case by auto
  qed
  with I(2) show ?thesis by auto
qed

lemma orphans_sound:
  "orphans fs is s = Inr t \<Longrightarrow>
     zone_owner t = zone_owner s \<and> checked t = checked s \<and> referenced t = referenced s \<and>
     (probs t = [] \<longrightarrow> probs s = [] \<and>
       (\<forall>i \<in> set is. ibit fs i = Inr True \<longrightarrow> i \<in> ref_keys s))"
proof (induction fs "is" s rule: orphans.induct)
  case (1 fs s)
  then show ?case by simp
next
  case (2 fs i "is" s)
  then obtain b where b: "ibit fs i = Inr b" by (auto simp: bindR_Inr_iff)
  show ?case
  proof (cases "b \<and> i \<notin> ref_keys s")
    case False
    then have "orphans fs is s = Inr t"
      using "2.prems" b by (simp add: ref_keys_def split: if_splits)
    with "2.IH"(2) [OF b _ ] False b show ?thesis by (auto simp: ref_keys_def)
  next
    case True
    then obtain node where node: "get_inode fs i = Inr node"
      using "2.prems" b by (auto simp: ref_keys_def bindR_Inr_iff)
    define s1 where "s1 = (if i_mode node \<noteq> 0 \<or> i_nlinks node \<noteq> 0 \<or> i_size node \<noteq> 0
      then report_problem ''-'' i (Orphan (i_mode node) (i_size node) (i_nlinks node)) s
      else report_problem ''-'' i BitmapLeak s)"
    have "orphans fs is s1 = Inr t"
      using "2.prems" b node True by (simp add: ref_keys_def s1_def)
    with "2.IH"(1) [OF b _ node] True b have "zone_owner t = zone_owner s1 \<and>
        checked t = checked s1 \<and> referenced t = referenced s1 \<and> (probs t = [] \<longrightarrow> probs s1 = [])"
      by (simp add: ref_keys_def s1_def)
    then show ?thesis by (simp add: s1_def split: if_splits)
  qed
qed

lemma lost_zones_sound:
  "lost_zones fs zs s = Inr l \<Longrightarrow>
   set l = {z \<in> set zs. zbit fs z = Inr True \<and> z \<notin> fst ` set (zone_owner s)}"
proof (induction fs zs s arbitrary: l rule: lost_zones.induct)
  case (1 fs s)
  then show ?case by simp
next
  case (2 fs z zs s)
  then obtain b rest where *: "zbit fs z = Inr b" "lost_zones fs zs s = Inr rest"
    "l = (if b \<and> z \<notin> fst ` set (zone_owner s) then z # rest else rest)"
    by (auto simp: bindR_Inr_iff)
  have "set rest = {z \<in> set zs. zbit fs z = Inr True \<and> z \<notin> fst ` set (zone_owner s)}"
    by (rule "2.IH" [OF *(1,2)])
  with *(1,3) show ?case by (cases "b \<and> z \<notin> fst ` set (zone_owner s)") auto
qed

lemma lost_zones_total: "lost_zones fs zs s = Inr l \<Longrightarrow> z \<in> set zs \<Longrightarrow> \<exists>b. zbit fs z = Inr b"
  by (induction fs zs s arbitrary: l rule: lost_zones.induct) (auto simp: bindR_Inr_iff)

lemma orphans_total: "orphans fs is s = Inr t \<Longrightarrow> i \<in> set is \<Longrightarrow> \<exists>b. ibit fs i = Inr b"
proof (induction fs "is" s rule: orphans.induct)
  case (1 fs s)
  then show ?case by simp
next
  case (2 fs j "is" s)
  then obtain b where b: "ibit fs j = Inr b" by (auto simp: bindR_Inr_iff)
  show ?case
  proof (cases "b \<and> j \<notin> fst ` set (referenced s)")
    case False
    with 2 b show ?thesis by auto
  next
    case True
    with "2.prems"(1) b obtain node where "get_inode fs j = Inr node"
      by (auto simp: bindR_Inr_iff)
    with "2.IH"(1) [OF b _ this] 2 b True show ?thesis
      by (cases "i = j") auto
  qed
qed

text \<open>The bits the check reads are those the two bitmap queries report.\<close>

lemma bitmap_bit_Inr:
  assumes "bitmap_bit (read_blocks fs start n) i = Inr b" and "0 \<le> i"
  shows "b = bit_of (uint (read_block fs (start + i div 8192) ! nat ((i mod 8192) div 8))) (i mod 8)"
proof -
  have "nat (drop_bit 3 i) < 1024 * nat n"
    using assms(1) by (simp add: bitmap_bit_def length_read_blocks split: if_splits)
  then have "i < 8192 * n" using assms(2) by (simp add: drop_bit_eq_div)
  from bitmap_bit_read_blocks [OF assms(2) this] assms(1) show ?thesis by simp
qed

lemma ibit_inode_allocated:
  "ibit fs n = Inr b \<Longrightarrow> in_range fs n \<Longrightarrow> inode_allocated fs n = Inr b"
  using bitmap_bit_Inr [of fs 2 "imap_blocks (sb fs)" n b]
  by (simp add: ibit_def imap_of_def inode_allocated_def in_range_def BLOCK_SIZE_def Let_def)

lemma zbit_zone_allocated:
  "zbit fs z = Inr b \<Longrightarrow> valid_zone fs z \<Longrightarrow> zone_allocated fs z = Inr b"
  using bitmap_bit_Inr [of fs "2 + imap_blocks (sb fs)" "zmap_blocks (sb fs)"
      "z - firstdatazone (sb fs) + 1" b]
  by (simp add: zbit_def zmap_of_def zone_allocated_def valid_zone_def BLOCK_SIZE_def Let_def)

text \<open>The final state of a clean check, and what it says of every inode of the tree.\<close>

lemma check_fs_final:
  assumes "check_fs fs = Inr r"
  shows "\<exists>s t lost. fsck_inv fs [] s \<and> orphans fs [1..ninodes (sb fs)] s = Inr t
    \<and> lost_zones fs [firstdatazone (sb fs)..nzones (sb fs) - 1] t = Inr lost
    \<and> (clean r \<longleftrightarrow> probs t = [] \<and> lost = [])
    \<and> inodes_checked r = int (length (checked t)) \<and> zones_checked r = int (length (zone_owner t))"
proof -
  define s0 :: fsck where
    "s0 = \<lparr>probs = [], zone_owner = [], referenced = [(ROOT_INODE, ''/'')], checked = []\<rparr>"
  obtain s t lost where lp: "check_loop fs [(''/'', ROOT_INODE)] s0 = Inr s"
    and o: "orphans fs [1..ninodes (sb fs)] s = Inr t"
    and l: "lost_zones fs [firstdatazone (sb fs)..nzones (sb fs) - 1] t = Inr lost"
    and r: "r = (let s = (if lost \<noteq> [] then report_problem ''-'' 0 (LostZones lost) t else t)
      in \<lparr>problems = probs s, inodes_checked = int (length (checked s)),
          zones_checked = int (length (zone_owner s))\<rparr>)"
    using assms unfolding check_fs_def s0_def bindR_Inr_iff Let_def by (auto simp del: check_loop.simps)
  have "fsck_inv fs [(''/'', ROOT_INODE)] s0"
    by (auto simp: fsck_inv_def s0_def checked_ok_def owned_def ref_keys_def known_def reach.root)
  from check_loop_inv [OF lp this] o l r show ?thesis
    by (intro exI [of _ s] exI [of _ t] exI [of _ lost]) (auto simp: clean_def Let_def)
qed

lemma check_fs_counts:
  assumes "check_fs fs = Inr r"
  shows "inodes_checked r = int (card {n. reach fs n})"
proof -
  obtain s t lost where f: "fsck_inv fs [] s" "orphans fs [1..ninodes (sb fs)] s = Inr t"
    "inodes_checked r = int (length (checked t))"
    using check_fs_final [OF assms] by blast
  then have "distinct (checked s)" using fsck_invD(1) by (auto simp: checked_ok_def)
  with f orphans_sound [OF f(2)] fsck_inv_done [OF f(1)] show ?thesis
    by (simp flip: distinct_card)
qed

lemma check_fs_clean:
  assumes "check_fs fs = Inr r" and "clean r"
  shows "\<exists>owner. (\<forall>n. reach fs n \<longrightarrow> inode_ok fs owner n)
    \<and> (\<forall>z. zone_allocated fs z = Inr True \<longrightarrow>
         (\<exists>n i. reach fs n \<and> get_inode fs n = Inr i \<and> has_data i \<and> z \<in> zone_set fs i))
    \<and> (\<forall>n. inode_allocated fs n = Inr True \<longrightarrow> n \<in> known fs)"
proof -
  obtain s t lost where inv: "fsck_inv fs [] s" and o: "orphans fs [1..ninodes (sb fs)] s = Inr t"
    and l: "lost_zones fs [firstdatazone (sb fs)..nzones (sb fs) - 1] t = Inr lost"
    and c: "probs t = []" "lost = []"
    using check_fs_final [OF assms(1)] assms(2) by blast
  note O = orphans_sound [OF o]
  note I = fsck_invD [OF inv]
  have p: "probs s = []" "zone_owner t = zone_owner s" using O c(1) by auto
  have "inode_ok fs (zone_owner s) n" if "reach fs n" for n
    using I(1) p(1) that fsck_inv_done [OF inv] by (auto simp: checked_ok_def)
  moreover have "\<exists>n i. reach fs n \<and> get_inode fs n = Inr i \<and> has_data i \<and> z \<in> zone_set fs i"
    if z: "zone_allocated fs z = Inr True" for z
  proof -
    have v: "valid_zone fs z"
      using z by (simp add: zone_allocated_def valid_zone_def split: if_splits)
    then have zin: "z \<in> set [firstdatazone (sb fs)..nzones (sb fs) - 1]"
      by (simp add: valid_zone_def)
    obtain b where b: "zbit fs z = Inr b" using lost_zones_total [OF l zin] by blast
    with zbit_zone_allocated [OF b v] z have "zbit fs z = Inr True" by simp
    with lost_zones_sound [OF l] zin c(2) p(2) have "z \<in> fst ` set (zone_owner s)" by simp
    with I(1) I(2) show ?thesis unfolding checked_ok_def owned_def by blast
  qed
  moreover have "n \<in> known fs" if n: "inode_allocated fs n = Inr True" for n
  proof -
    have r: "in_range fs n"
      using n by (simp add: inode_allocated_def in_range_def split: if_splits)
    then have nin: "n \<in> set [1..ninodes (sb fs)]" by (simp add: in_range_def)
    obtain b where b: "ibit fs n = Inr b" using orphans_total [OF o nin] by blast
    with ibit_inode_allocated [OF b r] n have "ibit fs n = Inr True" by simp
    with O c(1) nin have "n \<in> ref_keys s" by blast
    with I(6) show ?thesis by blast
  qed
  ultimately show ?thesis by blast
qed

section \<open>The specification a clean report certifies\<close>

text \<open>
  The consistency of a file system in terms of its parsed structures: every inode of the
  tree is allocated; its zones are distinct, inside the data area, marked as used, and as many
  as its size needs; inodes do not share zones; no marked zone and no allocated inode is lost.
\<close>

definition inode_consistent :: "minixfs \<Rightarrow> inode \<Rightarrow> bool" where
  "inode_consistent fs i \<longleftrightarrow> inode_allocated fs (i_num i) = Inr True \<and>
     (has_data i \<longrightarrow> distinct (map snd (zone_items fs i)) \<and> size_matches fs i \<and>
        (\<forall>z \<in> zone_set fs i. zone_allocated fs z = Inr True))"

definition fs_consistent :: "minixfs \<Rightarrow> bool" where
  "fs_consistent fs \<longleftrightarrow>
     (\<forall>n. reach fs n \<longrightarrow> (\<exists>i. get_inode fs n = Inr i \<and> inode_consistent fs i)) \<and>
     (\<forall>n m i j. reach fs n \<and> reach fs m \<and> n \<noteq> m \<and> get_inode fs n = Inr i \<and> get_inode fs m = Inr j
        \<and> has_data i \<and> has_data j \<longrightarrow> zone_set fs i \<inter> zone_set fs j = {}) \<and>
     (\<forall>z. zone_allocated fs z = Inr True \<longrightarrow>
        (\<exists>n i. reach fs n \<and> get_inode fs n = Inr i \<and> has_data i \<and> z \<in> zone_set fs i)) \<and>
     (\<forall>n. inode_allocated fs n = Inr True \<longrightarrow> n \<in> known fs)"

lemma inode_ok_consistent:
  assumes "inode_ok fs owner n"
  obtains i where "get_inode fs n = Inr i" "inode_consistent fs i"
    "has_data i \<Longrightarrow> z \<in> zone_set fs i \<Longrightarrow> \<exists>p. map_of owner z = Some (p, n)"
proof -
  obtain i where i: "get_inode fs n = Inr i" "ibit fs n = Inr True"
    and d: "has_data i \<Longrightarrow> distinct (map snd (zone_items fs i)) \<and> size_matches fs i \<and>
        (\<forall>z \<in> zone_set fs i. valid_zone fs z \<and> zbit fs z = Inr True
           \<and> (\<exists>p. map_of owner z = Some (p, n)))"
    using assms by (auto simp: inode_ok_def)
  have "inode_allocated fs n = Inr True" "i_num i = n"
    using get_inode_Inr [OF i(1)] ibit_inode_allocated [OF i(2)] by (auto simp: in_range_def)
  with d have "inode_consistent fs i"
    by (auto simp: inode_consistent_def intro: zbit_zone_allocated)
  with i(1) d show thesis by (intro that) auto
qed

lemma check_fs_consistent:
  assumes "check_fs fs = Inr r" and "clean r"
  shows "fs_consistent fs"
proof -
  obtain owner where ok: "\<And>n. reach fs n \<Longrightarrow> inode_ok fs owner n"
    and rest: "\<forall>z. zone_allocated fs z = Inr True \<longrightarrow>
         (\<exists>n i. reach fs n \<and> get_inode fs n = Inr i \<and> has_data i \<and> z \<in> zone_set fs i)"
      "\<forall>n. inode_allocated fs n = Inr True \<longrightarrow> n \<in> known fs"
    using check_fs_clean [OF assms] by blast
  have one: "\<exists>i. get_inode fs n = Inr i \<and> inode_consistent fs i" if "reach fs n" for n
    by (rule inode_ok_consistent [OF ok [OF that]]) blast
  have own: "\<exists>p. map_of owner z = Some (p, n)"
    if "reach fs n" "get_inode fs n = Inr i" "has_data i" "z \<in> zone_set fs i" for n i z
    by (rule inode_ok_consistent [OF ok [OF that(1)], of z]) (use that in auto)
  have disjoint: "zone_set fs i \<inter> zone_set fs j = {}"
    if "reach fs n" "reach fs m" "n \<noteq> m" "get_inode fs n = Inr i" "get_inode fs m = Inr j"
      "has_data i" "has_data j" for n m i j
    using own [OF that(1,4,6)] own [OF that(2,5,7)] that(3) by fastforce
  show ?thesis
    unfolding fs_consistent_def using one disjoint rest by blast
qed

end
