(* ===== verification/Tiny_Image.thy ===== *)
theory Tiny_Image
  imports Minixfs_Check
begin

text \<open>
  One small but complete Minix image, on which the witnesses of the file system properties
  evaluate the model: two inodes, the root directory (zone 5) and a regular file \<open>f\<close> of
  three bytes (zone 6), with consistent bitmaps.
\<close>

definition tiny_sb :: superblock where
  "tiny_sb = \<lparr>ninodes = 2, nzones = 7, imap_blocks = 1, zmap_blocks = 1, firstdatazone = 5,
     log_zone_size = 0, max_size = 100000, magic = 0x137F\<rparr>"

definition tiny_img :: bytes where
  "tiny_img = replicate 1024 0
     @ [2, 0, 7, 0, 1, 0, 1, 0, 5, 0, 0, 0, 0xA0, 0x86, 1, 0, 0x7F, 0x13] @ replicate 1006 0
     @ [6] @ replicate 1023 0 @ [6] @ replicate 1023 0
     @ [0xED, 0x41, 0, 0, 48, 0, 0, 0, 0, 0, 0, 0, 0, 2, 5, 0] @ replicate 16 0
     @ [0xA4, 0x81, 0, 0, 3, 0, 0, 0, 0, 0, 0, 0, 0, 1, 6, 0] @ replicate 976 0
     @ [1, 0, 0x2E] @ replicate 13 0 @ [1, 0, 0x2E, 0x2E] @ replicate 12 0
     @ [2, 0, 0x66] @ replicate 989 0
     @ [0x61, 0x62, 0x63] @ replicate 1021 0"

definition tiny_fs :: minixfs where
  "tiny_fs = \<lparr>fp = tiny_img, offset = 0, sb = tiny_sb\<rparr>"

definition tiny_root :: inode where
  "tiny_root = \<lparr>i_num = 1, i_mode = 0x41ED, i_uid = 0, i_size = 48, i_mtime = 0, i_gid = 0,
     i_nlinks = 2, i_zones = [5, 0, 0, 0, 0, 0, 0, 0, 0]\<rparr>"

definition tiny_file :: inode where
  "tiny_file = \<lparr>i_num = 2, i_mode = 0x81A4, i_uid = 0, i_size = 3, i_mtime = 0, i_gid = 0,
     i_nlinks = 1, i_zones = [6, 0, 0, 0, 0, 0, 0, 0, 0]\<rparr>"

lemma tiny_fs_simps [simp]: "sb tiny_fs = tiny_sb" "offset tiny_fs = 0" "fp tiny_fs = tiny_img"
  by (simp_all add: tiny_fs_def)

lemma tiny_blocks:
  "read_block_at tiny_img 0 1 =
     [2, 0, 7, 0, 1, 0, 1, 0, 5, 0, 0, 0, 0xA0, 0x86, 1, 0, 0x7F, 0x13] @ replicate 1006 0"
  "read_block tiny_fs 2 = [6] @ replicate 1023 0"
  "read_block tiny_fs 3 = [6] @ replicate 1023 0"
  "read_block tiny_fs 4 = [0xED, 0x41, 0, 0, 48, 0, 0, 0, 0, 0, 0, 0, 0, 2, 5, 0] @ replicate 16 0
     @ [0xA4, 0x81, 0, 0, 3, 0, 0, 0, 0, 0, 0, 0, 0, 1, 6, 0] @ replicate 976 0"
  "read_block tiny_fs 5 = [1, 0, 0x2E] @ replicate 13 0 @ [1, 0, 0x2E, 0x2E] @ replicate 12 0
     @ [2, 0, 0x66] @ replicate 989 0"
  "read_block tiny_fs 6 = [0x61, 0x62, 0x63] @ replicate 1021 0"
  by (simp_all add: read_block_def tiny_fs_def tiny_img_def read_block_at_def file_read_def
      BLOCK_SIZE_def)

lemma tiny_has_magic: "has_magic tiny_img 0"
proof -
  have "file_read tiny_img 1024 1024 =
     [2, 0, 7, 0, 1, 0, 1, 0, 5, 0, 0, 0, 0xA0, 0x86, 1, 0, 0x7F, 0x13] @ replicate 1006 0"
    by (simp add: file_read_def tiny_img_def)
  then show ?thesis
    by (simp add: has_magic_def BLOCK_SIZE_def magic_ok_def minix_consts u16_at_def le16_def Let_def)
qed

lemma tiny_init: "MinixFS_init tiny_img None = Inr tiny_fs"
proof -
  have "SuperBlock_parse (read_block_at tiny_img 0 1) = Inr tiny_sb"
    by (simp add: tiny_blocks SuperBlock_parse_def tiny_sb_def u16_at_def u32_at_def le16_def
        le32_def magic_ok_def minix_consts)
  then show ?thesis
    by (simp add: MinixFS_init_def find_minix_partition_offset_def tiny_has_magic tiny_fs_def)
qed

lemma tiny_inode:
  "get_inode tiny_fs 1 = Inr tiny_root" "get_inode tiny_fs 2 = Inr tiny_file"
proof -
  have i: "inode_table_block tiny_sb = 4"
    by (simp add: tiny_sb_def inode_table_block_def)
  have "py_slice (read_block tiny_fs 4) 0 32 =
     [0xED, 0x41, 0, 0, 48, 0, 0, 0, 0, 0, 0, 0, 0, 2, 5, 0] @ replicate 16 0"
    and "py_slice (read_block tiny_fs 4) 32 64 =
     [0xA4, 0x81, 0, 0, 3, 0, 0, 0, 0, 0, 0, 0, 0, 1, 6, 0] @ replicate 16 0"
    by (simp_all add: tiny_blocks py_slice_nonneg)
  then show "get_inode tiny_fs 1 = Inr tiny_root" "get_inode tiny_fs 2 = Inr tiny_file"
    by (simp_all add: get_inode_def i minix_consts)
      (simp_all add: tiny_sb_def Inode_parse_def tiny_root_def tiny_file_def u16_at_def u32_at_def
        le16_def le32_def upt_conv_Cons drop_Cons')
qed

lemma tiny_bits:
  "ibit tiny_fs 1 = Inr True" "ibit tiny_fs 2 = Inr True"
  "zbit tiny_fs 5 = Inr True" "zbit tiny_fs 6 = Inr True"
  by (simp_all add: ibit_def imap_of_def zbit_def zmap_of_def tiny_sb_def read_blocks_def
      tiny_blocks bitmap_bit_def bit_of_def drop_bit_eq_div)

lemma tiny_read:
  "read_file tiny_fs tiny_root 0 None =
     Inr ([1, 0, 0x2E] @ replicate 13 0 @ [1, 0, 0x2E, 0x2E] @ replicate 12 0
          @ [2, 0, 0x66] @ replicate 13 0)"
  "read_file tiny_fs tiny_file 0 None = Inr [0x61, 0x62, 0x63]"
  by (simp_all add: read_file_def readable_type_def i_is_dir_def i_is_regular_def i_is_symlink_def
      S_ISDIR_def S_ISREG_def S_ISLNK_def S_IFMT_def tiny_root_def tiny_file_def BLOCK_SIZE_def
      read_loop.simps [of _ _ _ _ 0] read_loop.simps [of _ _ _ _ 1] zone_at_def py_index_def
      tiny_blocks py_slice_nonneg)

lemma tiny_chars: "char_of (46 :: nat) = CHR ''.''" "char_of (102 :: nat) = CHR ''f''"
  by code_simp+

lemma tiny_dir: "read_dir tiny_fs tiny_root = Inr [(1, ''.''), (1, ''..''), (2, ''f'')]"
  by (simp add: read_dir_def tiny_read dirent_size_def name_len_def tiny_sb_def minix_consts
      range_step_def upt_conv_Cons py_slice_nonneg u16_at_def le16_def latin1_def tiny_chars)
    (simp add: tiny_root_def i_is_dir_def S_ISDIR_def S_IFMT_def)

lemma tiny_check: "\<exists>r. check_fs tiny_fs = Inr r \<and> clean r"
proof -
  define s0 :: fsck where
    "s0 = \<lparr>probs = [], zone_owner = [], referenced = [(1, ''/'')], checked = []\<rparr>"
  have z: "zone_items tiny_fs tiny_root = [(DataBlock 0, 5)]"
      "zone_items tiny_fs tiny_file = [(DataBlock 0, 6)]"
      "fst (collect_zones tiny_fs tiny_root) = [(0, 5)]"
      "fst (collect_zones tiny_fs tiny_file) = [(0, 6)]"
    by (simp_all add: zone_items_def collect_zones_def tiny_root_def tiny_file_def nonzero_from_def
        upt_conv_Cons)
  note T = i_is_dir_def i_is_device_def i_is_chardev_def i_is_blockdev_def i_is_fifo_def
    i_is_regular_def i_is_symlink_def S_ISDIR_def S_ISREG_def S_ISCHR_def S_ISBLK_def S_ISFIFO_def
    S_ISLNK_def S_IFMT_def
  have m: "i_is_dir tiny_root" "\<not> i_is_device tiny_root" "\<not> i_is_fifo tiny_root"
      "\<not> i_is_dir tiny_file" "\<not> i_is_device tiny_file" "\<not> i_is_fifo tiny_file"
      "i_is_regular tiny_file" "i_size tiny_root = 48" "i_size tiny_file = 3"
      "i_num tiny_root = 1" "i_num tiny_file = 2"
    by (simp_all add: T tiny_root_def tiny_file_def)
  have v: "valid_zone tiny_fs 5" "valid_zone tiny_fs 6" "in_range tiny_fs 1" "in_range tiny_fs 2"
    by (simp_all add: valid_zone_def in_range_def tiny_sb_def)
  have visits: "visit tiny_fs False ''/'' 1 tiny_root s0 =
        Inr \<lparr>probs = [], zone_owner = [(5, ''/'', 1)], referenced = [(1, ''/'')], checked = [1]\<rparr>"
      "visit tiny_fs True ''/f'' 2 tiny_file
         \<lparr>probs = [], zone_owner = [(5, ''/'', 1)], referenced = [(2, ''/f''), (1, ''/'')], checked = [1]\<rparr> =
        Inr \<lparr>probs = [], zone_owner = [(6, ''/f'', 2), (5, ''/'', 1)],
          referenced = [(2, ''/f''), (1, ''/'')], checked = [2, 1]\<rparr>"
    by (simp_all add: visit_def check_inode_def s0_def tiny_bits m z v BLOCK_SIZE_def
        dirent_size_def name_len_def tiny_sb_def minix_consts)
  have lp: "check_loop tiny_fs [(''/'', ROOT_INODE)] s0 =
      Inr \<lparr>probs = [], zone_owner = [(6, ''/f'', 2), (5, ''/'', 1)],
          referenced = [(2, ''/f''), (1, ''/'')], checked = [2, 1]\<rparr>"
    using visits(1)
    by (simp add: ROOT_INODE_def tiny_inode tiny_dir) (simp add: s0_def v dot_name_def setdefault_def tiny_inode m
        child_path_def rstrip_slash_def visits(2) Let_def)
  have "[1..2] = [1, 2 :: int]" "[5..6] = [5, 6 :: int]" by (simp_all add: upto.simps)
  then show ?thesis
    using lp [unfolded s0_def]
    by (simp add: check_fs_def ROOT_INODE_def tiny_sb_def tiny_bits clean_def del: check_loop.simps)
qed

end
