(* ===== verification/Windowed.thy ===== *)
theory Windowed
  imports Prelude
begin

text \<open>
  The interface a reader of byte files relies on: the whole contents, and a window of them by
  offset and length. The laws say that a window is the slice of the whole; from them follow
  the lengths, the composition of adjacent windows and that a buffered copy may replace the
  file. Both the image (\<open>read_file\<close>) and the overlay (\<open>read\<close>) provide it.
\<close>

locale windowed =
  fixes whole :: "'f \<Rightarrow> exn + bytes"
    and window :: "'f \<Rightarrow> int \<Rightarrow> int \<Rightarrow> exn + bytes"
    and ok :: "'f \<Rightarrow> bool"
  assumes whole_ok: "ok f \<Longrightarrow> \<exists>w. whole f = Inr w"
    and window_slice: "ok f \<Longrightarrow> whole f = Inr w \<Longrightarrow> 0 \<le> off \<Longrightarrow> 0 \<le> n \<Longrightarrow>
                       window f off n = Inr (py_slice w off (off + n))"
begin

lemma window_length:
  assumes "ok f" and "whole f = Inr w" and "0 \<le> off" and "0 \<le> n" and "window f off n = Inr bs"
  shows "int (length bs) = max 0 (min n (int (length w) - off))"
  using window_slice [OF assms(1-4)] assms(3-5)
  by (auto simp: py_slice_nonneg min_def max_def)

lemma window_append:
  assumes "ok f" and "0 \<le> off" and "0 \<le> m" and "0 \<le> n"
    and "window f off m = Inr xs" and "window f (off + m) n = Inr ys"
  shows "window f off (m + n) = Inr (xs @ ys)"
proof -
  obtain w where w: "whole f = Inr w" using whole_ok [OF assms(1)] by blast
  have xs: "xs = take (nat m) (drop (nat off) w)"
    using window_slice [OF assms(1) w assms(2,3)] assms by (simp add: py_slice_nonneg)
  have ys: "ys = take (nat n) (drop (nat m) (drop (nat off) w))"
    using window_slice [OF assms(1) w _ assms(4), of "off + m"] assms
    by (simp add: py_slice_nonneg nat_add_distrib add.commute)
  have "window f off (m + n) = Inr (take (nat m + nat n) (drop (nat off) w))"
    using window_slice [OF assms(1) w assms(2), of "m + n"] assms
    by (simp add: py_slice_nonneg nat_add_distrib)
  then show ?thesis by (simp add: xs ys take_add)
qed

lemma window_all:
  assumes "ok f" and "whole f = Inr w" and "int (length w) \<le> n"
  shows "window f 0 n = Inr w"
  using window_slice [OF assms(1,2), of 0 n] assms(3) by (simp add: py_slice_nonneg)

lemma window_eof:
  assumes "ok f" and "whole f = Inr w" and "int (length w) \<le> off" and "0 \<le> n"
  shows "window f off n = Inr []"
  using window_slice [OF assms(1,2), of off n] assms(3,4) by (simp add: py_slice_nonneg)

end

end
