(* ===== verification/Minixfs_Window.thy ===== *)
theory Minixfs_Window
  imports Minixfs Windowed
begin

text \<open>
  The files of an image as sources of windows: reading a window of a file of the image obeys the
  laws of the locale \<open>windowed\<close>.
\<close>

definition image_ok :: "inode \<Rightarrow> bool" where
  "image_ok i \<longleftrightarrow> inode_wf i \<and> readable_type i \<and> i_size i \<le> MAX_BLOCKS * 1024"

interpretation image: windowed "\<lambda>i. read_file fs i 0 None" "\<lambda>i off n. read_file fs i off (Some n)" image_ok
  for fs
proof unfold_locales
  show "\<exists>w. read_file fs i 0 None = Inr w" if "image_ok i" for i
    using that by (simp add: image_ok_def read_file_bytes)
  show "read_file fs i off (Some n) = Inr (py_slice w off (off + n))"
    if "image_ok i" "read_file fs i 0 None = Inr w" "0 \<le> off" "0 \<le> n" for i w off n
    using read_file_window_law [OF that(2)] that by (simp add: image_ok_def)
qed

end
