(* ===== verification/Minixfs_Props.thy ===== *)
theory Minixfs_Props
  imports Tiny_Image Minixfs_Window
begin

text \<open>
  The properties of the Minix parser and of the consistency check, with witnesses on the small
  image of \<open>Tiny_Image\<close>.
\<close>

section \<open>The Minix parser (minixfs)\<close>

text \<open>C24: a file of any size the pointers can reach is read completely, and reading a window
  of it returns exactly that window of the whole contents, across direct, single and double
  indirect blocks, holes and a partial last block; so two adjacent windows read one after the
  other are the window read at once.\<close>

lemma read_file_window:
  assumes "get_inode fs num = Inr i" and "readable_type i" and "i_size i \<le> MAX_BLOCKS * 1024"
    and "0 \<le> off" and "0 \<le> n" and "0 \<le> m"
  shows "\<exists>whole. read_file fs i 0 None = Inr whole \<and> int (length whole) = i_size i \<and>
    read_file fs i off (Some n) = Inr (py_slice whole off (off + n)) \<and>
    read_file fs i off (Some (n + m)) = bindR (read_file fs i off (Some n)) (\<lambda>xs.
      bindR (read_file fs i (off + n) (Some m)) (\<lambda>ys. Inr (xs @ ys)))"
proof -
  have ok: "image_ok i" using assms get_inode_Inr [OF assms(1)] by (simp add: image_ok_def)
  obtain whole where w: "read_file fs i 0 None = Inr whole" using image.whole_ok [OF ok] by blast
  have s: "read_file fs i off (Some n) = Inr (py_slice whole off (off + n))"
    "read_file fs i (off + n) (Some m) = Inr (py_slice whole (off + n) (off + n + m))"
    using image.window_slice [OF ok w] assms(4-6) by simp_all
  from read_file_slice(2) [OF _ _ assms(4,5,3) w] w s image.window_append [OF ok assms(4,5,6) s] ok
  show ?thesis by (simp add: image_ok_def)
qed

lemma read_file_window_witness: "read_file tiny_fs tiny_file 1 (Some 5) = Inr [0x62, 0x63]"
proof -
  have "readable_type tiny_file" "i_size tiny_file \<le> MAX_BLOCKS * 1024"
    by (simp_all add: tiny_file_def readable_type_def i_is_regular_def S_ISREG_def S_IFMT_def
        MAX_BLOCKS_def)
  from read_file_window [OF tiny_inode(2) this, of 1 5 0] show ?thesis
    by (simp add: tiny_read py_slice_nonneg)
qed

text \<open>On a file system whose bitmaps cover its inodes and zones, \<open>fs_stats\<close> counts exactly
  the inodes and the zones that the single-bit queries report as allocated.\<close>

lemma fs_stats_count:
  assumes "fs_stats fs = Inr st" and "ninodes (sb fs) < 8192 * imap_blocks (sb fs)"
    and "nzones (sb fs) - firstdatazone (sb fs) < 8192 * zmap_blocks (sb fs)"
  shows "used_inodes st = int (card {n. inode_allocated fs n = Inr True}) \<and>
    used_zones st = int (card {z. zone_allocated fs z = Inr True})"
  using fs_stats_used_inodes [OF assms(2,1)] fs_stats_used_zones [OF assms(3,1)] by simp

lemma fs_stats_count_witness:
  "int (card {n. inode_allocated tiny_fs n = Inr True}) = 2 \<and>
   int (card {z. zone_allocated tiny_fs z = Inr True}) = 2"
proof -
  have "[1..2] = [1, 2 :: int]" by (simp add: upto.simps)
  then have "fs_stats tiny_fs =
      Inr \<lparr>total_inodes = 2, used_inodes = 2, total_zones = 2, used_zones = 2\<rparr>"
    by (simp add: fs_stats_def count_bitmap_def read_blocks_def tiny_sb_def tiny_blocks
        bitmap_bit_def bit_of_def drop_bit_eq_div)
  from fs_stats_count [OF this] show ?thesis by (simp add: tiny_sb_def)
qed

text \<open>Opening an image without an offset finds a place that carries a Minix magic; when
  the image starts with one it is offset 0, and otherwise no partition of the table that also
  carries a magic comes before the chosen one (Minix partition types first, then by address).\<close>

lemma partition_choice:
  assumes "find_minix_partition_offset img = Inr off"
  shows "has_magic img off \<and> (has_magic img 0 \<longrightarrow> off = 0) \<and>
    (\<forall>p l. (p, l) \<in> set (concat (map (mbr_entry (file_read img 0 SECTOR_SIZE)) [0, 1, 2, 3])) \<longrightarrow>
       has_magic img (l * SECTOR_SIZE) \<longrightarrow> \<not> has_magic img 0 \<longrightarrow>
       (\<exists>q m. (q, m) \<in> set (concat (map (mbr_entry (file_read img 0 SECTOR_SIZE)) [0, 1, 2, 3])) \<and>
          off = m * SECTOR_SIZE \<and> (q, m) \<le> (p, l)))"
proof -
  define cs where "cs = concat (map (mbr_entry (file_read img 0 SECTOR_SIZE)) [0, 1, 2, 3])"
  have "first_with_magic img (sort cs) = Inr off" if "\<not> has_magic img 0"
    using assms that
    by (simp add: find_minix_partition_offset_def Let_def cs_def split: if_splits)
  then have "\<exists>q m. (q, m) \<in> set cs \<and> off = m * SECTOR_SIZE \<and> (q, m) \<le> (p, l)"
    if "(p, l) \<in> set cs" "has_magic img (l * SECTOR_SIZE)" "\<not> has_magic img 0" for p l
    using first_with_magic_priority [of img "sort cs" off p l] that by simp
  moreover have "has_magic img 0 \<longrightarrow> off = 0"
    using assms by (cases "has_magic img 0") (simp_all add: find_minix_partition_offset_def)
  ultimately show ?thesis
    using find_offset_sound [OF assms] unfolding cs_def by blast
qed

lemma partition_choice_witness: "has_magic tiny_img 0 \<and> MinixFS_init tiny_img None = Inr tiny_fs"
  using partition_choice [of tiny_img 0] tiny_init tiny_has_magic
  by (simp add: find_minix_partition_offset_def)

text \<open>Path resolution composes: resolving \<open>p/q\<close> for a relative \<open>q\<close> is resolving \<open>p\<close> and
  then \<open>q\<close> from where \<open>p\<close> ends, errors included.\<close>

lemma resolve_composes:
  assumes "p \<noteq> []" and "\<not> starts_slash q"
  shows "resolve fs (p @ ''/'' @ q) cwd = bindR (resolve fs p cwd) (\<lambda>d. resolve fs q (Some d))"
  by (rule resolve_join [OF assms])

lemma resolve_composes_witness: "resolve tiny_fs ''./f'' None = Inr tiny_file"
proof -
  have "i_is_dir tiny_root" by (simp add: tiny_root_def i_is_dir_def S_ISDIR_def S_IFMT_def)
  then have "resolve tiny_fs ''.'' None = Inr tiny_root"
    "resolve tiny_fs ''f'' (Some tiny_root) = Inr tiny_file"
    by (simp_all add: resolve_def starts_slash_def split_slash_def ROOT_INODE_def tiny_inode
        tiny_dir dir_lookup_def)
  with resolve_composes [of "''.''" "''f''" tiny_fs None] show ?thesis
    by (simp add: starts_slash_def)
qed

section \<open>The consistency check\<close>

text \<open>C3: \<open>check_fs\<close> terminates on every image (its definition is total), and a clean report
  certifies the file system: every inode of the tree is allocated with distinct, valid, marked
  zones of the right number, no zone belongs to two inodes, and no allocated inode or zone is
  unreachable; the count of checked inodes is the number of reachable ones.\<close>

lemma fsck_certifies:
  assumes "check_fs fs = Inr r" and "clean r"
  shows "fs_consistent fs \<and> inodes_checked r = int (card {n. reach fs n})"
  using check_fs_consistent [OF assms] check_fs_counts [OF assms(1)] by blast

lemma fsck_certifies_witness: "fs_consistent tiny_fs"
  using tiny_check fsck_certifies by blast



end
