(* ===== verification/Kvfs.thy ===== *)
theory Kvfs
  imports Minixfs
begin

text \<open>
  \<open>src/kvfs.py\<close>: pipes, and the copy-on-write layer over a read-only Minix image. A \<open>VInode\<close>
  is shared by reference in the source; here a reference is its inode number, the key of the
  object in \<open>vnodes\<close>, and a use of a reference that is not in the table is a \<open>KeyError\<close>.
  Dictionaries keep their insertion order (\<open>readdir_raw\<close> shows it), so they are association
  lists: assignment replaces in place or appends (\<open>AList.update\<close>). The clock an operation
  reads is its parameter \<open>now\<close>. The state an operation leaves when it raises is part of its
  result.
\<close>

section \<open>Error numbers\<close>

definition EPERM :: int where "EPERM = 1"
definition ENOENT :: int where "ENOENT = 2"
definition EBUSY :: int where "EBUSY = 16"
definition EEXIST :: int where "EEXIST = 17"
definition ENOTDIR :: int where "ENOTDIR = 20"
definition EISDIR :: int where "EISDIR = 21"
definition EINVAL :: int where "EINVAL = 22"
definition ENOSPC :: int where "ENOSPC = 28"
definition EPIPE :: int where "EPIPE = 32"
definition ENOTEMPTY :: int where "ENOTEMPTY = 39"

lemmas errno_defs = EPERM_def ENOENT_def EBUSY_def EEXIST_def ENOTDIR_def EISDIR_def EINVAL_def
  ENOSPC_def EPIPE_def ENOTEMPTY_def

definition PIPE_SIZE :: int where "PIPE_SIZE = 4096"
definition NAME_LEN :: int where "NAME_LEN = 14"
definition DIRENT_SIZE :: int where "DIRENT_SIZE = 16"
definition ROOT_DEV :: int where "ROOT_DEV = 0x0301"

section \<open>Pipes\<close>

record pipe =
  pbuf :: bytes
  readers :: int
  writers :: int

definition Pipe_init :: pipe where
  "Pipe_init = \<lparr>pbuf = [], readers = 0, writers = 0\<rparr>"

definition pipe_space :: "pipe \<Rightarrow> int" where
  "pipe_space p = PIPE_SIZE - 1 - int (length (pbuf p))"

definition pipe_read :: "int \<Rightarrow> (pipe, bytes option) sm" where
  "pipe_read n p =
     (if pbuf p \<noteq> [] then
        let k = nat (py_clamp (int (length (pbuf p))) n)
        in (Inr (Some (take k (pbuf p))), p\<lparr>pbuf := drop k (pbuf p)\<rparr>)
      else if writers p = 0 then (Inr (Some []), p)
      else (Inr None, p))"

definition pipe_write :: "bytes \<Rightarrow> (pipe, int option) sm" where
  "pipe_write data p =
     (if readers p = 0 then (Inl (FsError EPIPE), p)
      else if data = [] then (Inr (Some 0), p)
      else
        let room = pipe_space p in
        if room \<le> 0 then (Inr None, p)
        else
          let chunk = take (nat room) data
          in (Inr (Some (int (length chunk))), p\<lparr>pbuf := pbuf p @ chunk\<rparr>))"

section \<open>Inodes of the overlay\<close>

record vinode =
  v_ino :: int
  v_mode :: int
  v_uid :: int
  v_gid :: int
  v_nlinks :: int
  v_mtime :: int
  v_rdev :: int
  v_size0 :: int
  v_data :: "bytes option"
  v_entries :: "(string \<times> int) list option"
  v_base :: "inode option"
  v_open_refs :: int
  v_deleted :: bool

definition VInode :: "int \<Rightarrow> int \<Rightarrow> int \<Rightarrow> int \<Rightarrow> int \<Rightarrow> int \<Rightarrow> int \<Rightarrow> int \<Rightarrow> inode option \<Rightarrow> vinode" where
  "VInode ino mode uid gid nlinks mtime rdev sz b =
     \<lparr>v_ino = ino, v_mode = mode, v_uid = uid, v_gid = gid, v_nlinks = nlinks, v_mtime = mtime,
      v_rdev = rdev, v_size0 = sz, v_data = None, v_entries = None, v_base = b,
      v_open_refs = 0, v_deleted = False\<rparr>"

definition from_base :: "inode \<Rightarrow> vinode" where
  "from_base i =
     (let rdev = (if i_is_device i then i_zones i ! 0 else 0)
      in VInode (i_num i) (i_mode i) (i_uid i) (i_gid i) (i_nlinks i) (i_mtime i) rdev
           (i_size i) (Some i))"

definition vsize :: "vinode \<Rightarrow> int" where
  "vsize v =
     (case v_data v of Some d \<Rightarrow> int (length d)
      | None \<Rightarrow> (case v_entries v of Some es \<Rightarrow> int (length es) * DIRENT_SIZE
                 | None \<Rightarrow> v_size0 v))"

definition v_is_dir :: "vinode \<Rightarrow> bool" where "v_is_dir v \<longleftrightarrow> S_ISDIR (v_mode v)"
definition v_is_regular :: "vinode \<Rightarrow> bool" where "v_is_regular v \<longleftrightarrow> S_ISREG (v_mode v)"
definition v_is_chardev :: "vinode \<Rightarrow> bool" where "v_is_chardev v \<longleftrightarrow> S_ISCHR (v_mode v)"
definition v_is_blockdev :: "vinode \<Rightarrow> bool" where "v_is_blockdev v \<longleftrightarrow> S_ISBLK (v_mode v)"
definition v_is_device :: "vinode \<Rightarrow> bool" where "v_is_device v \<longleftrightarrow> v_is_chardev v \<or> v_is_blockdev v"
definition v_is_fifo :: "vinode \<Rightarrow> bool" where "v_is_fifo v \<longleftrightarrow> S_ISFIFO (v_mode v)"

definition v_devno :: "vinode \<Rightarrow> int \<times> int" where
  "v_devno v = (drop_bit 8 (v_rdev v), v_rdev v AND 0xFF)"

section \<open>The overlay and its inode table\<close>

record overlay =
  base_fs :: minixfs
  vnodes :: "(int \<times> vinode) list"
  names :: "(int \<times> int \<times> string) list"
  next_ino :: int

text \<open>The attribute \<open>root\<close> is always the object of inode 1.\<close>

definition ROOT :: int where "ROOT = 1"

definition vn :: "int \<Rightarrow> (overlay, vinode) sm" where
  "vn i s = (case map_of (vnodes s) i of Some v \<Rightarrow> (Inr v, s) | None \<Rightarrow> (Inl KeyError, s))"

definition upd :: "int \<Rightarrow> (vinode \<Rightarrow> vinode) \<Rightarrow> (overlay, unit) sm" where
  "upd i f = modify (\<lambda>s. s\<lparr>vnodes := AList.map_entry i f (vnodes s)\<rparr>)"

definition add_vnode :: "int \<Rightarrow> vinode \<Rightarrow> (overlay, unit) sm" where
  "add_vnode i v = modify (\<lambda>s. s\<lparr>vnodes := AList.update i v (vnodes s)\<rparr>)"

definition base :: "(overlay, minixfs) sm" where
  "base = gets base_fs"

definition get :: "int \<Rightarrow> (overlay, int) sm" where
  "get ino s =
     (case map_of (vnodes s) ino of
        Some _ \<Rightarrow> (Inr ino, s)
      | None \<Rightarrow>
          if \<not> (1 \<le> ino \<and> ino \<le> ninodes (sb (base_fs s))) then (Inl (FsError ENOENT), s)
          else (case get_inode (base_fs s) ino of
                  Inl e \<Rightarrow> (Inl e, s)
                | Inr i \<Rightarrow> thenE (add_vnode ino (from_base i)) (ret ino) s))"

definition OverlayFS_init :: "minixfs \<Rightarrow> exn + overlay" where
  "OverlayFS_init fs =
     (case get ROOT \<lparr>base_fs = fs, vnodes = [], names = [], next_ino = ninodes (sb fs) + 1\<rparr> of
        (Inl e, s) \<Rightarrow> Inl e | (Inr _, s) \<Rightarrow> Inr s)"

definition new_inode :: "int \<Rightarrow> int \<Rightarrow> int \<Rightarrow> int \<Rightarrow> int \<Rightarrow> (overlay, int) sm" where
  "new_inode now mode uid gid rdev =
     bindE (gets next_ino) (\<lambda>ino.
     thenE (modify (\<lambda>s. s\<lparr>next_ino := ino + 1\<rparr>))
       (if ino > 0xFFFF then raise (FsError ENOSPC)
        else thenE (add_vnode ino ((VInode ino mode uid gid 0 now rdev 0 None)\<lparr>v_data := Some []\<rparr>))
               (ret ino)))"

section \<open>Copy on write\<close>

definition cow_file :: "int \<Rightarrow> (overlay, bytes) sm" where
  "cow_file i =
     bindE (vn i) (\<lambda>v.
       case v_data v of
         Some d \<Rightarrow> ret d
       | None \<Rightarrow>
           bindE (case v_base v of
                    Some b \<Rightarrow> bindE base (\<lambda>fs. liftR (read_file fs b 0 None))
                  | None \<Rightarrow> ret [])
             (\<lambda>d. thenE (upd i (\<lambda>v. v\<lparr>v_data := Some d\<rparr>)) (ret d)))"

text \<open>\<open>{name: ino for ino, name in read_dir(...)}\<close>: a later entry replaces an earlier one.\<close>

definition entries_dict :: "(int \<times> string) list \<Rightarrow> (string \<times> int) list" where
  "entries_dict es = foldl (\<lambda>d (ino, name). AList.update name ino d) [] es"

definition base_dir :: "inode option \<Rightarrow> (overlay, (int \<times> string) list) sm" where
  "base_dir b =
     (case b of None \<Rightarrow> raise AttributeError
      | Some i \<Rightarrow> bindE base (\<lambda>fs. liftR (read_dir fs i)))"

definition cow_dir :: "int \<Rightarrow> (overlay, (string \<times> int) list) sm" where
  "cow_dir i =
     bindE (vn i) (\<lambda>v.
       case v_entries v of
         Some es \<Rightarrow> ret es
       | None \<Rightarrow>
           if \<not> v_is_dir v then raise (FsError ENOTDIR)
           else
             bindE (case v_base v of
                      Some b \<Rightarrow> bindE (base_dir (Some b)) (\<lambda>es. ret (entries_dict es))
                    | None \<Rightarrow> ret [])
               (\<lambda>es. thenE (upd i (\<lambda>v. v\<lparr>v_entries := Some es\<rparr>)) (ret es)))"

section \<open>Directories\<close>

definition list_dir :: "int \<Rightarrow> (overlay, (int \<times> string) list) sm" where
  "list_dir i =
     bindE (vn i) (\<lambda>v.
       if \<not> v_is_dir v then raise (FsError ENOTDIR)
       else case v_entries v of
              Some es \<Rightarrow> ret (map (\<lambda>(name, ino). (ino, name)) es)
            | None \<Rightarrow> base_dir (v_base v))"

definition encode_name :: "string \<Rightarrow> bytes" where
  "encode_name name = map (\<lambda>c. word_of_int (of_char c)) name"

definition dirent_bytes :: "string \<times> int \<Rightarrow> bytes" where
  "dirent_bytes e =
     (case e of (name, ino) \<Rightarrow>
        let nm = take (nat NAME_LEN) (encode_name name)
        in pack16 (ino AND 0xFFFF) @ nm @ replicate (nat NAME_LEN - length nm) 0)"

definition readdir_raw :: "int \<Rightarrow> (overlay, bytes) sm" where
  "readdir_raw i =
     bindE (vn i) (\<lambda>v.
       if \<not> v_is_dir v then raise (FsError ENOTDIR)
       else case v_entries v of
              Some es \<Rightarrow> ret (concat (map dirent_bytes es))
            | None \<Rightarrow>
                (case v_base v of None \<Rightarrow> raise AttributeError
                 | Some b \<Rightarrow> bindE base (\<lambda>fs. liftR (read_file fs b 0 None))))"

definition lookup :: "int \<Rightarrow> string \<Rightarrow> (overlay, int option) sm" where
  "lookup d name =
     bindE (vn d) (\<lambda>v.
       if \<not> v_is_dir v then raise (FsError ENOTDIR)
       else
         bindE (case v_entries v of
                  Some es \<Rightarrow> ret (map_of es name)
                | None \<Rightarrow> bindE (base_dir (v_base v)) (\<lambda>es. ret (first_named name es)))
           (\<lambda>r. case r of
                  None \<Rightarrow> ret None
                | Some ino \<Rightarrow> bindE (get ino) (\<lambda>i. ret (Some i))))"

section \<open>Paths\<close>

fun walk_parts :: "int \<Rightarrow> int \<Rightarrow> string list \<Rightarrow> (overlay, int) sm" where
  "walk_parts root cur [] = ret cur"
| "walk_parts root cur (part # parts) =
     (if part = [] \<or> part = ''.'' then walk_parts root cur parts
      else
        bindE (vn cur) (\<lambda>v.
        if \<not> v_is_dir v then raise (FsError ENOTDIR)
        else if part = ''..'' \<and> cur = root then walk_parts root cur parts
        else
          bindE (lookup cur part) (\<lambda>nxt.
            case nxt of
              None \<Rightarrow> raise (FsError ENOENT)
            | Some n \<Rightarrow> walk_parts root n parts)))"

definition walk :: "string \<Rightarrow> int option \<Rightarrow> int option \<Rightarrow> (overlay, int) sm" where
  "walk path cwd root =
     (let root = (case root of Some r \<Rightarrow> r | None \<Rightarrow> ROOT);
          cur = (case cwd of None \<Rightarrow> root | Some c \<Rightarrow> if starts_slash path then root else c)
      in walk_parts root cur (split_slash path))"

text \<open>The part of a path after its last slash, and the part before it, if there is a slash.\<close>

definition after_slash :: "string \<Rightarrow> string" where
  "after_slash p = rev (takeWhile (\<lambda>c. c \<noteq> CHR ''/'') (rev p))"

definition before_slash :: "string \<Rightarrow> string option" where
  "before_slash p =
     (case dropWhile (\<lambda>c. c \<noteq> CHR ''/'') (rev p) of [] \<Rightarrow> None | _ # xs \<Rightarrow> Some (rev xs))"

definition strip_slashes :: "string \<Rightarrow> string" where
  "strip_slashes p = rev (dropWhile (\<lambda>c. c = CHR ''/'') (rev p))"

definition walk_parent :: "string \<Rightarrow> int option \<Rightarrow> int option \<Rightarrow> (overlay, int \<times> string) sm" where
  "walk_parent path cwd root =
     (let norm = strip_slashes path in
      if norm = [] then raise (FsError EBUSY)
      else
        bindE (case before_slash norm of
                 None \<Rightarrow> ret (case cwd of Some c \<Rightarrow> c | None \<Rightarrow> ROOT)
               | Some dir \<Rightarrow> walk (if dir = [] then ''/'' else dir) cwd root)
          (\<lambda>parent.
           let name = after_slash norm in
           bindE (vn parent) (\<lambda>pv.
           if \<not> v_is_dir pv then raise (FsError ENOTDIR)
           else if name = [] \<or> name = ''.'' \<or> name = ''..'' then raise (FsError EINVAL)
           else ret (parent, if int (length name) > NAME_LEN then take (nat NAME_LEN) name
                             else name))))"

section \<open>Contents\<close>

text \<open>\<open>xs[i:j] = ys\<close> on a \<open>bytearray\<close>: the bounds are clamped, the end to at least the start.\<close>

definition py_assign :: "'a list \<Rightarrow> int \<Rightarrow> int \<Rightarrow> 'a list \<Rightarrow> 'a list" where
  "py_assign xs i j ys =
     (let n = int (length xs); a = py_clamp n i; b = max a (py_clamp n j)
      in take (nat a) xs @ ys @ drop (nat b) xs)"

definition vread :: "int \<Rightarrow> int \<Rightarrow> int \<Rightarrow> (overlay, bytes) sm" where
  "vread i off len =
     bindE (vn i) (\<lambda>v.
       if v_is_dir v then bindE (readdir_raw i) (\<lambda>raw. ret (py_slice raw off (off + len)))
       else case v_data v of
              Some d \<Rightarrow> ret (py_slice d off (off + len))
            | None \<Rightarrow>
                (case v_base v of None \<Rightarrow> ret []
                 | Some b \<Rightarrow> bindE base (\<lambda>fs. liftR (read_file fs b off (Some len)))))"

definition vwrite :: "int \<Rightarrow> int \<Rightarrow> int \<Rightarrow> bytes \<Rightarrow> (overlay, int) sm" where
  "vwrite now i off data =
     bindE (vn i) (\<lambda>v.
       if v_is_dir v then raise (FsError EISDIR)
       else
         bindE (cow_file i) (\<lambda>buf.
           let buf = (if off > int (length buf)
                      then buf @ replicate (nat (off - int (length buf))) 0 else buf);
               buf = py_assign buf off (off + int (length data)) data
           in thenE (upd i (\<lambda>v. v\<lparr>v_data := Some buf, v_mtime := now\<rparr>))
                (ret (int (length data)))))"

definition vtruncate :: "int \<Rightarrow> int \<Rightarrow> int \<Rightarrow> (overlay, unit) sm" where
  "vtruncate now i sz =
     bindE (vn i) (\<lambda>v.
       if v_is_dir v then raise (FsError EISDIR)
       else
         bindE (cow_file i) (\<lambda>buf.
           let buf = (if sz < int (length buf)
                      then take (nat (py_clamp (int (length buf)) sz)) buf
                      else buf @ replicate (nat (sz - int (length buf))) 0)
           in upd i (\<lambda>v. v\<lparr>v_data := Some buf, v_mtime := now\<rparr>)))"

section \<open>Directory entries\<close>

definition remember :: "int \<Rightarrow> string \<Rightarrow> int \<Rightarrow> (overlay, unit) sm" where
  "remember parent name i = modify (\<lambda>s. s\<lparr>names := AList.update i (parent, name) (names s)\<rparr>)"

definition link_entry :: "int \<Rightarrow> int \<Rightarrow> string \<Rightarrow> int \<Rightarrow> (overlay, unit) sm" where
  "link_entry now parent name i =
     bindE (cow_dir parent) (\<lambda>es.
     thenE (upd parent (\<lambda>p. p\<lparr>v_entries := Some (AList.update name i es)\<rparr>))
     (thenE (upd i (\<lambda>v. v\<lparr>v_nlinks := v_nlinks v + 1\<rparr>))
       (upd parent (\<lambda>p. p\<lparr>v_mtime := now\<rparr>))))"

definition unlink_entry :: "int \<Rightarrow> int \<Rightarrow> string \<Rightarrow> (overlay, int) sm" where
  "unlink_entry now parent name =
     bindE (cow_dir parent) (\<lambda>es.
       case map_of es name of
         None \<Rightarrow> raise (FsError ENOENT)
       | Some ino \<Rightarrow>
           bindE (get ino) (\<lambda>i.
           thenE (remember parent name i)
           (thenE (upd parent (\<lambda>p. p\<lparr>v_entries := Some (AList.delete name es)\<rparr>))
           (thenE (upd i (\<lambda>v. v\<lparr>v_nlinks := max (v_nlinks v - 1) 0\<rparr>))
           (thenE (upd parent (\<lambda>p. p\<lparr>v_mtime := now\<rparr>))
           (thenE (upd i (\<lambda>v. if v_nlinks v = 0 \<and> v_open_refs v = 0
                              then v\<lparr>v_deleted := True\<rparr> else v))
             (ret i)))))))"

definition S_IFREG :: int where "S_IFREG = 0x8000"
definition S_IFDIR :: int where "S_IFDIR = 0x4000"

definition create :: "int \<Rightarrow> string \<Rightarrow> int \<Rightarrow> int option \<Rightarrow> int option \<Rightarrow> int \<Rightarrow> int \<Rightarrow> (overlay, int) sm" where
  "create now path mode cwd root uid gid =
     bindE (walk_parent path cwd root) (\<lambda>(parent, name).
     bindE (lookup parent name) (\<lambda>r.
       if r \<noteq> None then raise (FsError EEXIST)
       else
         bindE (new_inode now ((mode AND 0xFFF) OR S_IFREG) uid gid 0) (\<lambda>i.
         thenE (link_entry now parent name i)
         (thenE (remember parent name i) (ret i)))))"

definition mknod :: "int \<Rightarrow> string \<Rightarrow> int \<Rightarrow> int \<Rightarrow> int option \<Rightarrow> int option \<Rightarrow> int \<Rightarrow> int
    \<Rightarrow> (overlay, int) sm" where
  "mknod now path mode rdev cwd root uid gid =
     bindE (walk_parent path cwd root) (\<lambda>(parent, name).
     bindE (lookup parent name) (\<lambda>r.
       if r \<noteq> None then raise (FsError EEXIST)
       else
         bindE (new_inode now mode uid gid rdev) (\<lambda>i.
         bindE (vn i) (\<lambda>v.
         thenE (if \<not> (v_is_device v \<or> v_is_fifo v) then upd i (\<lambda>v. v\<lparr>v_data := Some []\<rparr>) else ret ())
         (thenE (link_entry now parent name i)
         (thenE (remember parent name i) (ret i)))))))"

definition mkdir :: "int \<Rightarrow> string \<Rightarrow> int \<Rightarrow> int option \<Rightarrow> int option \<Rightarrow> int \<Rightarrow> int \<Rightarrow> (overlay, int) sm" where
  "mkdir now path mode cwd root uid gid =
     bindE (walk_parent path cwd root) (\<lambda>(parent, name).
     bindE (lookup parent name) (\<lambda>r.
       if r \<noteq> None then raise (FsError EEXIST)
       else
         bindE (new_inode now ((mode AND 0xFFF) OR S_IFDIR) uid gid 0) (\<lambda>i.
         thenE (upd i (\<lambda>v. v\<lparr>v_data := None, v_entries := Some [(''.'', v_ino v), (''..'', parent)],
                            v_nlinks := v_nlinks v + 1\<rparr>))
         (thenE (upd parent (\<lambda>p. p\<lparr>v_nlinks := v_nlinks p + 1\<rparr>))
         (thenE (link_entry now parent name i)
         (thenE (remember parent name i) (ret i)))))))"

definition rmdir :: "int \<Rightarrow> string \<Rightarrow> int option \<Rightarrow> int option \<Rightarrow> (overlay, unit) sm" where
  "rmdir now path cwd root =
     bindE (walk_parent path cwd root) (\<lambda>(parent, name).
     bindE (lookup parent name) (\<lambda>r.
       case r of
         None \<Rightarrow> raise (FsError ENOENT)
       | Some i \<Rightarrow>
           bindE (vn i) (\<lambda>v.
           if \<not> v_is_dir v then raise (FsError ENOTDIR)
           else
             bindE (cow_dir i) (\<lambda>es.
             if \<not> fst ` set es \<subseteq> {''.'', ''..''} then raise (FsError ENOTEMPTY)
             else
               thenE (unlink_entry now parent name)
               (thenE (upd parent (\<lambda>p. p\<lparr>v_nlinks := max (v_nlinks p - 1) 0\<rparr>))
                 (upd i (\<lambda>v. v\<lparr>v_nlinks := 0, v_deleted := True\<rparr>)))))))"

definition unlink :: "int \<Rightarrow> string \<Rightarrow> int option \<Rightarrow> int option \<Rightarrow> (overlay, unit) sm" where
  "unlink now path cwd root =
     bindE (walk_parent path cwd root) (\<lambda>(parent, name).
     bindE (lookup parent name) (\<lambda>r.
       case r of
         None \<Rightarrow> raise (FsError ENOENT)
       | Some i \<Rightarrow>
           bindE (vn i) (\<lambda>v.
           if v_is_dir v then raise (FsError EISDIR)
           else thenE (unlink_entry now parent name) (ret ()))))"

definition link :: "int \<Rightarrow> string \<Rightarrow> string \<Rightarrow> int option \<Rightarrow> int option \<Rightarrow> (overlay, unit) sm" where
  "link now oldpath newpath cwd root =
     bindE (walk oldpath cwd root) (\<lambda>i.
     bindE (vn i) (\<lambda>v.
       if v_is_dir v then raise (FsError EPERM)
       else
         bindE (walk_parent newpath cwd root) (\<lambda>(parent, name).
         bindE (lookup parent name) (\<lambda>r.
           if r \<noteq> None then raise (FsError EEXIST)
           else link_entry now parent name i))))"

text \<open>The end of \<open>rename\<close>, once a replaced target is out of the way.\<close>

definition rename_move :: "int \<Rightarrow> int \<Rightarrow> string \<Rightarrow> int \<Rightarrow> string \<Rightarrow> int \<Rightarrow> (overlay, unit) sm" where
  "rename_move now oldparent oldname newparent newname i =
     thenE (link_entry now newparent newname i)
     (thenE (unlink_entry now oldparent oldname)
     (bindE (vn i) (\<lambda>v.
       if v_is_dir v \<and> oldparent \<noteq> newparent then
         bindE (cow_dir i) (\<lambda>es.
         thenE (upd i (\<lambda>v. v\<lparr>v_entries := Some (AList.update ''..'' newparent es)\<rparr>))
         (thenE (upd newparent (\<lambda>p. p\<lparr>v_nlinks := v_nlinks p + 1\<rparr>))
           (upd oldparent (\<lambda>p. p\<lparr>v_nlinks := max (v_nlinks p - 1) 0\<rparr>))))
       else ret ())))"

definition rename :: "int \<Rightarrow> string \<Rightarrow> string \<Rightarrow> int option \<Rightarrow> int option \<Rightarrow> (overlay, unit) sm" where
  "rename now oldpath newpath cwd root =
     bindE (walk_parent oldpath cwd root) (\<lambda>(oldparent, oldname).
     bindE (lookup oldparent oldname) (\<lambda>r.
       case r of
         None \<Rightarrow> raise (FsError ENOENT)
       | Some i \<Rightarrow>
           bindE (walk_parent newpath cwd root) (\<lambda>(newparent, newname).
           bindE (lookup newparent newname) (\<lambda>ex.
             case ex of
               None \<Rightarrow> rename_move now oldparent oldname newparent newname i
             | Some e \<Rightarrow>
                 if e = i then ret ()
                 else
                   bindE (vn e) (\<lambda>ev.
                   thenE (if v_is_dir ev then rmdir now newpath cwd root
                          else thenE (unlink_entry now newparent newname) (ret ()))
                     (rename_move now oldparent oldname newparent newname i))))))"

section \<open>Metadata\<close>

definition chmod :: "int \<Rightarrow> int \<Rightarrow> (overlay, unit) sm" where
  "chmod i mode = upd i (\<lambda>v. v\<lparr>v_mode := (v_mode v AND NOT 0xFFF) OR (mode AND 0xFFF)\<rparr>)"

definition chown :: "int \<Rightarrow> int \<Rightarrow> int \<Rightarrow> (overlay, unit) sm" where
  "chown i uid gid = upd i (\<lambda>v.
     let v = (if uid \<noteq> 0xFFFF then v\<lparr>v_uid := uid\<rparr> else v)
     in if gid \<noteq> 0xFFFF then v\<lparr>v_gid := gid\<rparr> else v)"

definition utime :: "int \<Rightarrow> int \<Rightarrow> (overlay, unit) sm" where
  "utime i mtime = upd i (\<lambda>v. v\<lparr>v_mtime := mtime\<rparr>)"

definition stat_tuple :: "vinode \<Rightarrow> int list" where
  "stat_tuple v = [ROOT_DEV, v_ino v, v_mode v, v_nlinks v, v_uid v, v_gid v, v_rdev v, vsize v,
                   v_mtime v, v_mtime v, v_mtime v]"

datatype change = Deleted | Created | ChangedDir | ChangedFile

definition change_of :: "vinode \<Rightarrow> change option" where
  "change_of v =
     (if v_deleted v then Some Deleted
      else if v_base v = None then Some Created
      else if v_entries v \<noteq> None then Some ChangedDir
      else if v_data v \<noteq> None then Some ChangedFile
      else None)"

definition changed_inodes :: "overlay \<Rightarrow> (int \<times> change) list" where
  "changed_inodes s =
     concat (map (\<lambda>(ino, v). case change_of v of None \<Rightarrow> [] | Some c \<Rightarrow> [(ino, c)]) (vnodes s))"

record ostats =
  cow_files :: int
  cow_dirs :: int
  new_inodes :: int
  deleted_inodes :: int
  nbytes :: int

definition count_vnode :: "vinode \<Rightarrow> ostats \<Rightarrow> ostats" where
  "count_vnode v st =
     (let st = (if v_base v = None then st\<lparr>new_inodes := new_inodes st + 1\<rparr> else st);
          st = (if v_deleted v then st\<lparr>deleted_inodes := deleted_inodes st + 1\<rparr> else st);
          st = (case v_data v of
                  Some d \<Rightarrow> st\<lparr>cow_files := cow_files st + 1, nbytes := nbytes st + int (length d)\<rparr>
                | None \<Rightarrow> st)
      in (case v_entries v of
            Some es \<Rightarrow> st\<lparr>cow_dirs := cow_dirs st + 1,
                          nbytes := nbytes st + int (length es) * DIRENT_SIZE\<rparr>
          | None \<Rightarrow> st))"

definition overlay_stats :: "overlay \<Rightarrow> ostats \<times> int \<times> int" where
  "overlay_stats s =
     (foldl (\<lambda>st (i, v). count_vnode v st)
        \<lparr>cow_files = 0, cow_dirs = 0, new_inodes = 0, deleted_inodes = 0, nbytes = 0\<rparr> (vnodes s),
      next_ino s, int (length (vnodes s)))"

section \<open>Export and import\<close>

record saved =
  sv_mode :: int
  sv_uid :: int
  sv_gid :: int
  sv_nlinks :: int
  sv_mtime :: int
  sv_rdev :: int
  sv_deleted :: bool
  sv_data :: "bytes option"
  sv_entries :: "(string \<times> int) list option"
  sv_from_base :: bool

definition save_vnode :: "vinode \<Rightarrow> saved" where
  "save_vnode v = \<lparr>sv_mode = v_mode v, sv_uid = v_uid v, sv_gid = v_gid v, sv_nlinks = v_nlinks v,
     sv_mtime = v_mtime v, sv_rdev = v_rdev v, sv_deleted = v_deleted v, sv_data = v_data v,
     sv_entries = v_entries v, sv_from_base = (v_base v \<noteq> None)\<rparr>"

definition untouched :: "vinode \<Rightarrow> bool" where
  "untouched v \<longleftrightarrow> v_data v = None \<and> v_entries v = None \<and> \<not> v_deleted v \<and> v_base v \<noteq> None"

definition export_changes :: "overlay \<Rightarrow> int \<times> (int \<times> saved) list" where
  "export_changes s =
     (next_ino s,
      map (\<lambda>(i, v). (i, save_vnode v)) (filter (\<lambda>(i, v). \<not> untouched v) (vnodes s)))"

definition restore :: "saved \<Rightarrow> vinode \<Rightarrow> vinode" where
  "restore r v = v\<lparr>v_mode := sv_mode r, v_uid := sv_uid r, v_gid := sv_gid r,
     v_nlinks := sv_nlinks r, v_mtime := sv_mtime r, v_rdev := sv_rdev r,
     v_deleted := sv_deleted r, v_data := sv_data r, v_entries := sv_entries r\<rparr>"

fun import_vnodes :: "(int \<times> saved) list \<Rightarrow> (overlay, unit) sm" where
  "import_vnodes [] = ret ()"
| "import_vnodes ((ino, r) # rs) =
     bindE (gets (\<lambda>s. ninodes (sb (base_fs s)))) (\<lambda>n.
     thenE (if sv_from_base r \<and> 1 \<le> ino \<and> ino \<le> n then thenE (get ino) (ret ())
            else add_vnode ino (VInode ino (sv_mode r) 0 0 1 0 0 0 None))
     (thenE (upd ino (restore r)) (import_vnodes rs)))"

definition import_changes :: "int \<times> (int \<times> saved) list \<Rightarrow> (overlay, unit) sm" where
  "import_changes blob =
     thenE (modify (\<lambda>s. s\<lparr>next_ino := max (next_ino s) (fst blob)\<rparr>))
     (thenE (import_vnodes (snd blob))
     (thenE (get ROOT) (ret ())))"

end
