(* ===== verification/Bounded_Fifo.thy ===== *)
theory Bounded_Fifo
  imports Main
begin

text \<open>
  The interface of a bounded byte queue as its users see it: a \<open>put\<close> that accepts a prefix of
  what it is given, a \<open>take_out\<close> that removes a prefix of the contents. From these laws:
  whatever the interleaving of the two ends, the bytes delivered followed by the bytes
  still queued are the initial contents followed by the bytes accepted, and the capacity is
  never exceeded.
\<close>

datatype 'a fifo_op = Put "'a list" | Take nat

record 'a fifo_log =
  accepted :: "'a list"
  delivered :: "'a list"

text \<open>Any interleaving of the two ends, with a log of what went in and what came out.\<close>

definition fifo_step :: "('a list \<Rightarrow> 's \<Rightarrow> nat \<times> 's) \<Rightarrow> (nat \<Rightarrow> 's \<Rightarrow> 'a list \<times> 's)
    \<Rightarrow> 'a fifo_op \<Rightarrow> 's \<times> 'a fifo_log \<Rightarrow> 's \<times> 'a fifo_log" where
  "fifo_step put take_out c st =
     (case st of (s, l) \<Rightarrow>
        (case c of
           Put xs \<Rightarrow> (case put xs s of (k, t) \<Rightarrow> (t, l\<lparr>accepted := accepted l @ take k xs\<rparr>))
         | Take n \<Rightarrow> (case take_out n s of (ys, t) \<Rightarrow> (t, l\<lparr>delivered := delivered l @ ys\<rparr>))))"

definition fifo_run :: "('a list \<Rightarrow> 's \<Rightarrow> nat \<times> 's) \<Rightarrow> (nat \<Rightarrow> 's \<Rightarrow> 'a list \<times> 's)
    \<Rightarrow> 'a fifo_op list \<Rightarrow> 's \<Rightarrow> 's \<times> 'a fifo_log" where
  "fifo_run put take_out cs s =
     fold (fifo_step put take_out) cs (s, \<lparr>accepted = [], delivered = []\<rparr>)"

locale bounded_fifo =
  fixes contents :: "'s \<Rightarrow> 'a list"
    and capacity :: nat
    and put :: "'a list \<Rightarrow> 's \<Rightarrow> nat \<times> 's"
    and take_out :: "nat \<Rightarrow> 's \<Rightarrow> 'a list \<times> 's"
  assumes put_prefix: "put xs s = (k, t) \<Longrightarrow> k \<le> length xs \<and> contents t = contents s @ take k xs"
    and put_bound: "put xs s = (k, t) \<Longrightarrow> length (contents s) \<le> capacity \<Longrightarrow>
                    length (contents t) \<le> capacity"
    and take_prefix: "take_out n s = (ys, t) \<Longrightarrow> contents s = ys @ contents t"
begin

lemma step_order:
  "delivered (snd st) @ contents (fst st) = xs @ accepted (snd st) \<Longrightarrow>
   delivered (snd (fifo_step put take_out c st)) @ contents (fst (fifo_step put take_out c st)) =
     xs @ accepted (snd (fifo_step put take_out c st))"
  by (cases st; cases c)
    (auto simp: fifo_step_def simp flip: append_assoc split: prod.splits
      dest!: put_prefix take_prefix)

lemma step_bounded:
  "length (contents (fst st)) \<le> capacity \<Longrightarrow>
   length (contents (fst (fifo_step put take_out c st))) \<le> capacity"
  by (cases st; cases c)
    (auto simp: fifo_step_def split: prod.splits dest!: take_prefix intro: put_bound)

lemma run_order:
  assumes "fifo_run put take_out cs s = (t, l)"
  shows "delivered l @ contents t = contents s @ accepted l"
  using fold_invariant [where Q = "\<lambda>_. True" and f = "fifo_step put take_out" and xs = cs
      and P = "\<lambda>st. delivered (snd st) @ contents (fst st) = contents s @ accepted (snd st)"
      and s = "(s, \<lparr>accepted = [], delivered = []\<rparr>)"] step_order assms
  by (simp add: fifo_run_def)

lemma run_bounded:
  assumes "fifo_run put take_out cs s = (t, l)" and "length (contents s) \<le> capacity"
  shows "length (contents t) \<le> capacity"
  using fold_invariant [where Q = "\<lambda>_. True" and f = "fifo_step put take_out" and xs = cs
      and P = "\<lambda>st. length (contents (fst st)) \<le> capacity"
      and s = "(s, \<lparr>accepted = [], delivered = []\<rparr>)"] step_bounded assms
  by (simp add: fifo_run_def)

end

end
