(* ===== verification/Kvfs_Inv.thy ===== *)
theory Kvfs_Inv
  imports Kvfs Bounded_Fifo
begin

text \<open>
  The laws of the pipes (an interpretation of the bounded queue) and the invariant of the
  overlay: what every operation keeps of the inode table and of the image, on success and
  on every error path.
\<close>

section \<open>Pipes are bounded queues\<close>

definition pipe_put :: "bytes \<Rightarrow> pipe \<Rightarrow> nat \<times> pipe" where
  "pipe_put data p =
     (case pipe_write data p of (Inr (Some k), q) \<Rightarrow> (nat k, q) | (_, q) \<Rightarrow> (0, q))"

definition pipe_take :: "nat \<Rightarrow> pipe \<Rightarrow> bytes \<times> pipe" where
  "pipe_take n p =
     (case pipe_read (int n) p of (Inr (Some bs), q) \<Rightarrow> (bs, q) | (_, q) \<Rightarrow> ([], q))"

interpretation pipe_fifo: bounded_fifo pbuf 4095 pipe_put pipe_take
proof unfold_locales
  fix xs :: bytes and p k q
  assume a: "pipe_put xs p = (k, q)"
  show "k \<le> length xs \<and> pbuf q = pbuf p @ take k xs"
    using a by (auto simp: pipe_put_def pipe_write_def Let_def min_def split: if_splits)
  assume "length (pbuf p) \<le> 4095"
  with a show "length (pbuf q) \<le> 4095"
    by (auto simp: pipe_put_def pipe_write_def Let_def pipe_space_def PIPE_SIZE_def
        split: if_splits)
next
  fix n p ys q
  assume "pipe_take n p = (ys, q)"
  then show "pbuf p = ys @ pbuf q"
    by (auto simp: pipe_take_def pipe_read_def Let_def split: if_splits)
qed

text \<open>When a pipe operation blocks, ends or fails.\<close>

lemma pipe_write_cases:
  "pipe_write data p =
     (if readers p = 0 then (Inl (FsError EPIPE), p)
      else if data = [] then (Inr (Some 0), p)
      else if 4095 \<le> length (pbuf p) then (Inr None, p)
      else (Inr (Some (min (int (length data)) (4095 - int (length (pbuf p))))),
            p\<lparr>pbuf := pbuf p @ take (4095 - length (pbuf p)) data\<rparr>))"
  by (auto simp: pipe_write_def Let_def pipe_space_def PIPE_SIZE_def nat_diff_distrib)

lemma pipe_read_cases:
  assumes "0 \<le> n"
  shows "pipe_read n p =
     (if pbuf p \<noteq> [] then (Inr (Some (take (nat n) (pbuf p))), p\<lparr>pbuf := drop (nat n) (pbuf p)\<rparr>)
      else if writers p = 0 then (Inr (Some []), p) else (Inr None, p))"
  using assms by (auto simp: pipe_read_def Let_def py_clamp_def min_def)

declare map_of_eq_Some_iff [simp del]

section \<open>The invariant of the inode table\<close>

definition vnode_ok :: "minixfs \<Rightarrow> int \<Rightarrow> vinode \<Rightarrow> bool" where
  "vnode_ok fs i v \<longleftrightarrow> v_ino v = i \<and> 0 \<le> v_nlinks v \<and> 0 \<le> v_open_refs v \<and>
     (case v_base v of Some b \<Rightarrow> get_inode fs i = Inr b | None \<Rightarrow> ninodes (sb fs) < i \<and> i \<le> 0xFFFF) \<and>
     (case v_entries v of Some es \<Rightarrow> distinct (map fst es) | None \<Rightarrow> True)"

definition table_ok :: "minixfs \<Rightarrow> int \<Rightarrow> (int \<rightharpoonup> vinode) \<Rightarrow> bool" where
  "table_ok fs n m \<longleftrightarrow> (\<forall>i v. m i = Some v \<longrightarrow> vnode_ok fs i v \<and> i < n)"

definition ov_inv :: "minixfs \<Rightarrow> overlay \<Rightarrow> bool" where
  "ov_inv fs s \<longleftrightarrow> base_fs s = fs \<and> distinct (map fst (vnodes s)) \<and>
     table_ok fs (next_ino s) (map_of (vnodes s)) \<and>
     ninodes (sb fs) < next_ino s \<and> (\<exists>v. map_of (vnodes s) ROOT = Some v)"

lemma ov_inv_base: "ov_inv fs s \<Longrightarrow> base_fs s = fs"
  by (simp add: ov_inv_def)

lemma table_ok_update:
  "table_ok fs n m \<Longrightarrow> vnode_ok fs i v \<Longrightarrow> i < n \<Longrightarrow> table_ok fs n (m(i \<mapsto> v))"
  by (simp add: table_ok_def)

lemma table_okD: "table_ok fs n m \<Longrightarrow> m i = Some v \<Longrightarrow> vnode_ok fs i v" "table_ok fs n m \<Longrightarrow> m i = Some v \<Longrightarrow> i < n"
  unfolding table_ok_def by blast+

lemma table_ok_mono: "table_ok fs n m \<Longrightarrow> n \<le> k \<Longrightarrow> table_ok fs k m"
  unfolding table_ok_def by (meson less_le_trans)

lemma ov_inv_vnode: "ov_inv fs s \<Longrightarrow> map_of (vnodes s) i = Some v \<Longrightarrow> vnode_ok fs i v"
  unfolding ov_inv_def by (blast dest: table_okD)

lemma vnode_ok_from_base: "get_inode fs i = Inr b \<Longrightarrow> vnode_ok fs i (from_base b)"
  using get_inode_Inr [of fs i b]
  by (simp add: vnode_ok_def from_base_def VInode_def Let_def inode_wf_def)

lemma ov_inv_add:
  assumes "ov_inv fs s" and "vnode_ok fs i v" and "i < next_ino s"
  shows "ov_inv fs (s\<lparr>vnodes := AList.update i v (vnodes s)\<rparr>)"
  using assms by (simp add: ov_inv_def AList.update_conv' AList.distinct_update table_ok_update
      del: map_of_eq_Some_iff)

lemma map_entry_conv:
  "map_of (AList.map_entry k f xs) =
     (case map_of xs k of None \<Rightarrow> map_of xs | Some v \<Rightarrow> (map_of xs)(k \<mapsto> f v))"
  by (auto simp: AList.map_of_map_entry split: option.splits)

lemma ov_inv_upd:
  assumes "ov_inv fs s" and "\<And>v. vnode_ok fs i v \<Longrightarrow> vnode_ok fs i (f v)"
  shows "ov_inv fs (s\<lparr>vnodes := AList.map_entry i f (vnodes s)\<rparr>)"
proof (cases "map_of (vnodes s) i")
  case None
  with assms(1) show ?thesis
    by (simp add: ov_inv_def map_entry_conv AList.distinct_map_entry
        del: map_of_eq_None_iff map_of_eq_Some_iff)
next
  case (Some v)
  have "vnode_ok fs i (f v)" "i < next_ino s"
    using assms Some table_okD [of fs "next_ino s" "map_of (vnodes s)" i v]
    by (simp_all add: ov_inv_def)
  with assms(1) Some show ?thesis
    by (simp add: ov_inv_def map_entry_conv AList.distinct_map_entry table_ok_update
        del: map_of_eq_Some_iff)
qed

lemma gives_upd [gives_rules]:
  "(\<And>v. vnode_ok fs i v \<Longrightarrow> vnode_ok fs i (f v)) \<Longrightarrow> R () \<Longrightarrow> gives (ov_inv fs) (upd i f) R"
  unfolding upd_def by (intro gives_modify ov_inv_upd)

lemma gives_vn: "gives (ov_inv fs) (vn i) (vnode_ok fs i)"
  by (auto simp: gives_def vn_def split: option.splits intro: ov_inv_vnode)

lemma gives_get: "gives (ov_inv fs) (get i) (\<lambda>j. j = i)"
  unfolding gives_def
proof (intro allI impI)
  fix s
  assume inv: "ov_inv fs s"
  show "ov_inv fs (snd (get i s)) \<and> (\<forall>x. fst (get i s) = Inr x \<longrightarrow> x = i)"
  proof (cases "map_of (vnodes s) i = None \<and> 1 \<le> i \<and> i \<le> ninodes (sb fs)")
    case False
    with inv ov_inv_base [OF inv] show ?thesis by (auto simp: get_def split: option.splits)
  next
    case True
    obtain b where b: "get_inode fs i = Inr b" using True by (rule_tac get_inode_range) auto
    have "i < next_ino s" using True inv by (simp add: ov_inv_def)
    then have "ov_inv fs (s\<lparr>vnodes := AList.update i (from_base b) (vnodes s)\<rparr>)"
      by (rule ov_inv_add [OF inv vnode_ok_from_base [OF b]])
    moreover have "get i s = (Inr i, s\<lparr>vnodes := AList.update i (from_base b) (vnodes s)\<rparr>)"
      using True ov_inv_base [OF inv] b
      by (simp add: get_def add_vnode_def thenE_def bindE_def modify_def ret_def)
    ultimately show ?thesis by simp
  qed
qed

lemma gives_base: "gives (ov_inv fs) base (\<lambda>x. x = fs)"
  by (simp add: base_def gives_gets ov_inv_base)

lemma gives_base_dir: "gives (ov_inv fs) (base_dir b) (\<lambda>_. True)"
  unfolding base_dir_def by (intro gives_rules gives_bindE [OF gives_base]) simp

lemma distinct_entries_dict: "distinct (map fst (entries_dict es))"
proof -
  have "distinct (map fst (foldl (\<lambda>d (ino, name). AList.update name ino d) d es))"
    if "distinct (map fst d)" for d
    using that by (induction es arbitrary: d) (auto simp: AList.distinct_update)
  then show ?thesis by (simp add: entries_dict_def)
qed

lemma gives_cow_file: "gives (ov_inv fs) (cow_file i) (\<lambda>_. True)"
  unfolding cow_file_def
  by (intro gives_rules gives_bindE [OF gives_vn] gives_bindE [OF gives_base]
      gives_bindE [of _ _ "\<lambda>_. True"] gives_thenE)
    (simp_all add: vnode_ok_def)

lemma gives_cow_dir: "gives (ov_inv fs) (cow_dir i) (\<lambda>es. distinct (map fst es))"
  unfolding cow_dir_def
  by (intro gives_rules gives_bindE [OF gives_vn] gives_bindE [OF gives_base_dir]
      gives_bindE [of _ _ "\<lambda>es. distinct (map fst es)"] gives_thenE)
    (simp_all add: vnode_ok_def distinct_entries_dict)


lemmas gives_ops = gives_rules gives_bindE [OF gives_vn] gives_bindE [OF gives_get]
  gives_bindE [OF gives_base] gives_bindE [OF gives_base_dir] gives_bindE [OF gives_cow_file]
  gives_bindE [OF gives_cow_dir]

lemma gives_readdir_raw: "gives (ov_inv fs) (readdir_raw i) (\<lambda>_. True)"
  unfolding readdir_raw_def by (intro gives_ops) simp_all

lemma gives_list_dir: "gives (ov_inv fs) (list_dir i) (\<lambda>_. True)"
  unfolding list_dir_def by (intro gives_ops gives_base_dir) simp_all

lemma gives_lookup: "gives (ov_inv fs) (lookup d name) (\<lambda>_. True)"
  unfolding lookup_def
  by (intro gives_ops gives_bindE [of _ _ "\<lambda>_. True"]) simp_all

lemma gives_walk_parts: "gives (ov_inv fs) (walk_parts root cur parts) (\<lambda>_. True)"
proof (induction root cur parts rule: walk_parts.induct)
  case (1 root cur)
  show ?case by (simp add: gives_ret)
next
  case (2 root cur part parts)
  show ?case
    unfolding walk_parts.simps
    by (intro gives_ops gives_bindE [OF gives_lookup]) (use 2 in blast)+
qed

lemma gives_walk: "gives (ov_inv fs) (walk path cwd root) (\<lambda>_. True)"
  unfolding walk_def Let_def by (rule gives_walk_parts)

lemma gives_walk_parent: "gives (ov_inv fs) (walk_parent path cwd root) (\<lambda>_. True)"
  unfolding walk_parent_def Let_def
  by (intro gives_ops gives_bindE [of _ _ "\<lambda>_. True"] gives_walk) simp_all

lemmas gives_ops2 = gives_ops gives_bindE [OF gives_readdir_raw] gives_bindE [OF gives_list_dir]
  gives_bindE [OF gives_lookup] gives_bindE [OF gives_walk] gives_bindE [OF gives_walk_parent]
  gives_thenE

lemma gives_vread: "gives (ov_inv fs) (vread i off n) (\<lambda>_. True)"
  unfolding vread_def by (intro gives_ops2) simp_all

lemma gives_vwrite: "gives (ov_inv fs) (vwrite now i off data) (\<lambda>_. True)"
  unfolding vwrite_def Let_def by (intro gives_ops2) (simp_all add: vnode_ok_def)

lemma gives_vtruncate: "gives (ov_inv fs) (vtruncate now i n) (\<lambda>_. True)"
  unfolding vtruncate_def Let_def by (intro gives_ops2) (simp_all add: vnode_ok_def)

lemma gives_remember: "gives (ov_inv fs) (remember p name i) (\<lambda>_. True)"
  unfolding remember_def by (intro gives_rules) (simp_all add: ov_inv_def)

lemma gives_link_entry: "gives (ov_inv fs) (link_entry now p name i) (\<lambda>_. True)"
  unfolding link_entry_def
  by (intro gives_ops2) (simp_all add: vnode_ok_def AList.distinct_update)

lemma gives_unlink_entry: "gives (ov_inv fs) (unlink_entry now p name) (\<lambda>_. True)"
  unfolding unlink_entry_def
  by (intro gives_ops2 gives_remember) (simp_all add: vnode_ok_def AList.distinct_delete)

lemma gives_new_inode: "gives (ov_inv fs) (new_inode now mode uid gid rdev) (\<lambda>_. True)"
proof -
  have fresh: "ov_inv fs (snd (thenE (add_vnode i v) (ret i) (s\<lparr>next_ino := i + 1\<rparr>)))"
    if "ov_inv fs s" "next_ino s = i" "vnode_ok fs i v" for i v s
  proof -
    have "ov_inv fs (s\<lparr>next_ino := i + 1\<rparr>)"
      using that by (auto simp: ov_inv_def intro: table_ok_mono)
    from ov_inv_add [OF this that(3)] show ?thesis
      by (simp add: thenE_def bindE_def add_vnode_def modify_def ret_def)
  qed
  have bump: "ov_inv fs (s\<lparr>next_ino := next_ino s + 1\<rparr>)" if "ov_inv fs s" for s
    using that by (auto simp: ov_inv_def intro: table_ok_mono)
  show ?thesis
    unfolding gives_def
  proof (intro allI impI conjI TrueI)
    fix s
    assume inv: "ov_inv fs s"
    have ok: "vnode_ok fs (next_ino s) ((VInode (next_ino s) mode uid gid 0 now rdev 0 None)
        \<lparr>v_data := Some []\<rparr>)" if "next_ino s \<le> 65535"
      using inv that by (simp add: vnode_ok_def VInode_def ov_inv_def)
    show "ov_inv fs (snd (new_inode now mode uid gid rdev s))"
      using bump [OF inv] fresh [OF inv refl ok]
      by (simp add: new_inode_def thenE_def bindE_def gets_def modify_def raise_def)
  qed
qed

lemmas gives_ops3 = gives_ops2 gives_bindE [OF gives_new_inode] gives_bindE [OF gives_vn]
  gives_link_entry gives_remember gives_True [OF gives_unlink_entry]

lemma gives_create: "gives (ov_inv fs) (create now path mode cwd root uid gid) (\<lambda>_. True)"
  unfolding create_def by (intro gives_ops3 | (split prod.split, intro allI impI) | simp)+

lemma gives_mknod: "gives (ov_inv fs) (mknod now path mode rdev cwd root uid gid) (\<lambda>_. True)"
  unfolding mknod_def
  by (intro gives_ops3 | (split prod.split, intro allI impI) | simp add: vnode_ok_def)+

lemma gives_mkdir: "gives (ov_inv fs) (mkdir now path mode cwd root uid gid) (\<lambda>_. True)"
  unfolding mkdir_def
  by (intro gives_ops3 | (split prod.split, intro allI impI) | simp add: vnode_ok_def)+

lemma gives_rmdir: "gives (ov_inv fs) (rmdir now path cwd root) (\<lambda>_. True)"
  unfolding rmdir_def
  by (intro gives_ops3 | (split prod.split, intro allI impI) | simp add: vnode_ok_def)+

lemma gives_unlink: "gives (ov_inv fs) (unlink now path cwd root) (\<lambda>_. True)"
  unfolding unlink_def
  by (intro gives_ops3 | (split prod.split, intro allI impI) | simp add: vnode_ok_def)+

lemma gives_link: "gives (ov_inv fs) (link now oldpath newpath cwd root) (\<lambda>_. True)"
  unfolding link_def
  by (intro gives_ops3 | (split prod.split, intro allI impI) | simp add: vnode_ok_def)+

lemma gives_rename_move: "gives (ov_inv fs) (rename_move now op on np nn i) (\<lambda>_. True)"
  unfolding rename_move_def
  by (intro gives_ops3 | simp add: vnode_ok_def AList.distinct_update)+

lemma gives_rename: "gives (ov_inv fs) (rename now oldpath newpath cwd root) (\<lambda>_. True)"
  unfolding rename_def
  by (intro gives_ops3 gives_rename_move gives_rmdir | (split prod.split, intro allI impI) | simp)+

lemma gives_chmod: "gives (ov_inv fs) (chmod i mode) (\<lambda>_. True)"
  unfolding chmod_def by (intro gives_rules) (simp_all add: vnode_ok_def)

lemma gives_chown: "gives (ov_inv fs) (chown i uid gid) (\<lambda>_. True)"
  unfolding chown_def by (intro gives_rules) (simp_all add: vnode_ok_def Let_def)

lemma gives_utime: "gives (ov_inv fs) (utime i mtime) (\<lambda>_. True)"
  unfolding utime_def by (intro gives_rules) (simp_all add: vnode_ok_def)

section \<open>Any sequence of operations\<close>

datatype vop =
    ORead int int int
  | OWrite int int bytes
  | OTruncate int int
  | OWalk string "int option" "int option"
  | OList int
  | OCreate string int "int option" "int option" int int
  | OMknod string int int "int option" "int option" int int
  | OMkdir string int "int option" "int option" int int
  | ORmdir string "int option" "int option"
  | OUnlink string "int option" "int option"
  | OLink string string "int option" "int option"
  | ORename string string "int option" "int option"
  | OChmod int int
  | OChown int int int
  | OUtime int int

text \<open>The state after an operation called at time \<open>now\<close>, whether it returned or raised.\<close>

fun run_vop :: "int \<times> vop \<Rightarrow> overlay \<Rightarrow> overlay" where
  "run_vop (now, ORead i off n) s = snd (vread i off n s)"
| "run_vop (now, OWrite i off d) s = snd (vwrite now i off d s)"
| "run_vop (now, OTruncate i n) s = snd (vtruncate now i n s)"
| "run_vop (now, OWalk p cwd root) s = snd (walk p cwd root s)"
| "run_vop (now, OList i) s = snd (list_dir i s)"
| "run_vop (now, OCreate p m cwd root uid gid) s = snd (create now p m cwd root uid gid s)"
| "run_vop (now, OMknod p m d cwd root uid gid) s = snd (mknod now p m d cwd root uid gid s)"
| "run_vop (now, OMkdir p m cwd root uid gid) s = snd (mkdir now p m cwd root uid gid s)"
| "run_vop (now, ORmdir p cwd root) s = snd (rmdir now p cwd root s)"
| "run_vop (now, OUnlink p cwd root) s = snd (unlink now p cwd root s)"
| "run_vop (now, OLink p q cwd root) s = snd (link now p q cwd root s)"
| "run_vop (now, ORename p q cwd root) s = snd (rename now p q cwd root s)"
| "run_vop (now, OChmod i m) s = snd (chmod i m s)"
| "run_vop (now, OChown i u g) s = snd (chown i u g s)"
| "run_vop (now, OUtime i t) s = snd (utime i t s)"

lemma ov_inv_run_vop: "ov_inv fs s \<Longrightarrow> ov_inv fs (run_vop c s)"
  by (cases "(c, s)" rule: run_vop.cases)
    (auto intro: givesD gives_vread gives_vwrite gives_vtruncate gives_walk gives_list_dir
      gives_create gives_mknod gives_mkdir gives_rmdir gives_unlink gives_link gives_rename
      gives_chmod gives_chown gives_utime)

lemma ov_inv_run: "ov_inv fs s \<Longrightarrow> ov_inv fs (fold run_vop cs s)"
  by (induction cs arbitrary: s) (simp_all add: ov_inv_run_vop)

lemma ov_inv_init:
  assumes "OverlayFS_init fs = Inr s" and "1 \<le> ninodes (sb fs)"
  shows "ov_inv fs s"
proof -
  obtain b where "get_inode fs 1 = Inr b" using assms(2) by (rule_tac get_inode_range) auto
  with assms have "s = \<lparr>base_fs = fs, vnodes = [(1, from_base b)], names = [],
      next_ino = ninodes (sb fs) + 1\<rparr>"
    by (simp add: OverlayFS_init_def get_def ROOT_def thenE_def bindE_def add_vnode_def modify_def
        ret_def)
  with assms(2) vnode_ok_from_base [OF \<open>get_inode fs 1 = Inr b\<close>] show ?thesis
    by (simp add: ov_inv_def table_ok_def ROOT_def)
qed

end
