(* ===== verification/Kvfs_Spec.thy ===== *)
theory Kvfs_Spec
  imports Kvfs_Inv Minixfs_Window
begin

text \<open>
  The logical file system an overlay stands for, and the operations as functions of it. The
  abstraction \<open>abs\<close> forgets which inodes have been taken into the table and which contents
  have been copied: lookups, path walks, reads and the copies themselves do not change it, and
  the mutating operations refine an abstract operation each.
\<close>

section \<open>The abstraction\<close>

text \<open>The inode a number names, whether or not it is in the table yet.\<close>

definition peek :: "overlay \<Rightarrow> int \<Rightarrow> vinode option" where
  "peek s i =
     (case map_of (vnodes s) i of
        Some v \<Rightarrow> Some v
      | None \<Rightarrow> (case get_inode (base_fs s) i of Inr b \<Rightarrow> Some (from_base b) | Inl _ \<Rightarrow> None))"

definition file_bytes :: "minixfs \<Rightarrow> vinode \<Rightarrow> exn + bytes" where
  "file_bytes fs v =
     (case v_data v of
        Some d \<Rightarrow> Inr d
      | None \<Rightarrow> (case v_base v of Some b \<Rightarrow> read_file fs b 0 None | None \<Rightarrow> Inr []))"

definition dir_map :: "minixfs \<Rightarrow> vinode \<Rightarrow> exn + (string \<rightharpoonup> int)" where
  "dir_map fs v =
     (case v_entries v of
        Some es \<Rightarrow> Inr (map_of es)
      | None \<Rightarrow>
          (case v_base v of
             None \<Rightarrow> Inr Map.empty
           | Some b \<Rightarrow> (case read_dir fs b of Inr es \<Rightarrow> Inr (\<lambda>n. first_named n es) | Inl e \<Rightarrow> Inl e)))"

record anode =
  a_mode :: int
  a_uid :: int
  a_gid :: int
  a_links :: int
  a_rdev :: int
  a_refs :: int
  a_deleted :: bool
  a_bytes :: "exn + bytes"
  a_dir :: "exn + (string \<rightharpoonup> int)"

definition anode_of :: "minixfs \<Rightarrow> vinode \<Rightarrow> anode" where
  "anode_of fs v =
     \<lparr>a_mode = v_mode v, a_uid = v_uid v, a_gid = v_gid v, a_links = v_nlinks v,
      a_rdev = v_rdev v, a_refs = v_open_refs v, a_deleted = v_deleted v,
      a_bytes = (if v_is_dir v then Inr [] else file_bytes fs v),
      a_dir = (if v_is_dir v then dir_map fs v else Inl (FsError ENOTDIR))\<rparr>"

definition abs_fs :: "overlay \<Rightarrow> int \<rightharpoonup> anode" where
  "abs_fs s i = map_option (anode_of (base_fs s)) (peek s i)"

text \<open>What the lookups of the source assume of the image: no directory has a name twice.\<close>

definition unique_names :: "minixfs \<Rightarrow> bool" where
  "unique_names fs \<longleftrightarrow>
     (\<forall>n b es. get_inode fs n = Inr b \<longrightarrow> read_dir fs b = Inr es \<longrightarrow> distinct (map snd es))"

lemma anode_of_simps [simp]:
  "a_mode (anode_of fs v) = v_mode v" "a_uid (anode_of fs v) = v_uid v"
  "a_gid (anode_of fs v) = v_gid v" "a_links (anode_of fs v) = v_nlinks v"
  "a_rdev (anode_of fs v) = v_rdev v" "a_refs (anode_of fs v) = v_open_refs v"
  "a_deleted (anode_of fs v) = v_deleted v"
  by (simp_all add: anode_of_def)

section \<open>Steps that do not change it\<close>

lemma vn_Inr: "vn i s = (Inr v, t) \<longleftrightarrow> map_of (vnodes s) i = Some v \<and> t = s"
  by (auto simp: vn_def split: option.splits)

lemma vn_Inl: "vn i s = (Inl e, t) \<longleftrightarrow> map_of (vnodes s) i = None \<and> e = KeyError \<and> t = s"
  by (auto simp: vn_def split: option.splits)

lemma base_result [simp]: "base s = (Inr (base_fs s), s)"
  by (simp add: base_def gets_def)

lemma upd_result: "upd i f s = (Inr (), s\<lparr>vnodes := AList.map_entry i f (vnodes s)\<rparr>)"
  by (simp add: upd_def modify_def)

lemma peek_upd:
  assumes "map_of (vnodes s) i = Some v"
  shows "peek (s\<lparr>vnodes := AList.map_entry i f (vnodes s)\<rparr>) = (peek s)(i \<mapsto> f v)"
proof (rule ext)
  show "peek (s\<lparr>vnodes := AList.map_entry i f (vnodes s)\<rparr>) j = ((peek s)(i \<mapsto> f v)) j" for j
    using assms by (cases "map_of (vnodes s) j") (auto simp: peek_def map_entry_conv)
qed

lemma abs_fs_upd:
  assumes "map_of (vnodes s) i = Some v"
  shows "abs_fs (s\<lparr>vnodes := AList.map_entry i f (vnodes s)\<rparr>) =
    (abs_fs s)(i \<mapsto> anode_of (base_fs s) (f v))"
  unfolding abs_fs_def peek_upd [OF assms] by (auto simp: fun_eq_iff)

lemma abs_fs_present:
  "map_of (vnodes s) i = Some v \<Longrightarrow> abs_fs s i = Some (anode_of (base_fs s) v)"
  by (simp add: abs_fs_def peek_def)

definition same_view :: "overlay \<Rightarrow> overlay \<Rightarrow> bool" where
  "same_view s t \<longleftrightarrow> abs_fs t = abs_fs s \<and> base_fs t = base_fs s \<and> next_ino t = next_ino s \<and>
     dom (map_of (vnodes s)) \<subseteq> dom (map_of (vnodes t))"

lemma same_view_refl [simp]: "same_view s s"
  by (simp add: same_view_def)

lemma same_view_trans: "same_view s t \<Longrightarrow> same_view t u \<Longrightarrow> same_view s u"
  by (auto simp: same_view_def)

lemma get_view:
  assumes "get i s = (r, t)"
  shows "same_view s t \<and> (\<forall>j. r = Inr j \<longrightarrow> j = i \<and> i \<in> dom (map_of (vnodes t)))"
proof (cases "map_of (vnodes s) i")
  case (Some v)
  with assms show ?thesis by (auto simp: get_def)
next
  case None
  show ?thesis
  proof (cases "(1 \<le> i \<and> i \<le> ninodes (sb (base_fs s))) \<and> (\<exists>b. get_inode (base_fs s) i = Inr b)")
    case False
    with assms None show ?thesis by (auto simp: get_def split: sum.splits if_splits)
  next
    case True
    then obtain b where b: "get_inode (base_fs s) i = Inr b" by blast
    have t: "t = s\<lparr>vnodes := AList.update i (from_base b) (vnodes s)\<rparr>" "r = Inr i"
      using assms None True b
      by (auto simp: get_def thenE_def bindE_def add_vnode_def modify_def ret_def)
    have "peek t j = peek s j" for j
      using None b by (cases "map_of (vnodes s) j") (auto simp: t peek_def AList.update_conv')
    then have "abs_fs t = abs_fs s" by (simp add: abs_fs_def fun_eq_iff t)
    with t show ?thesis by (auto simp: same_view_def AList.update_conv')
  qed
qed

lemma first_named_entries:
  assumes "distinct (map snd es)"
  shows "map_of (entries_dict es) name = first_named name es"
proof -
  have "map_of (foldl (\<lambda>d (ino, name). AList.update name ino d) d es) name =
      (case first_named name es of Some i \<Rightarrow> Some i | None \<Rightarrow> map_of d name)" for d
    using assms
  proof (induction es arbitrary: d)
    case Nil
    then show ?case by simp
  next
    case (Cons e es)
    then show ?case
      using first_named_None [of name es]
      by (cases e) (auto simp: AList.update_conv' split: option.splits)
  qed
  from this [of "[]"] show ?thesis by (simp add: entries_dict_def split: option.splits)
qed

lemma upd_same_anode:
  assumes "map_of (vnodes s) i = Some v" and "anode_of (base_fs s) (f v) = anode_of (base_fs s) v"
  shows "same_view s (s\<lparr>vnodes := AList.map_entry i f (vnodes s)\<rparr>)"
  using assms abs_fs_present [OF assms(1)]
  by (auto simp: same_view_def abs_fs_upd map_entry_conv fun_upd_idem)

lemma cow_file_view:
  assumes "cow_file i s = (r, t)" and "map_of (vnodes s) i = Some v"
  shows "same_view s t \<and> r = file_bytes (base_fs s) v \<and>
    (\<forall>d. r = Inr d \<longrightarrow> map_of (vnodes t) i = Some (v\<lparr>v_data := Some d\<rparr>))"
proof (cases "v_data v")
  case (Some d)
  then have "v\<lparr>v_data := Some d\<rparr> = v" by simp
  with Some assms show ?thesis
    by (auto simp: cow_file_def bindE_def vn_def ret_def file_bytes_def)
next
  case None
  define r0 where "r0 = (case v_base v of Some b \<Rightarrow> read_file (base_fs s) b 0 None | None \<Rightarrow> Inr [])"
  have c: "(r, t) = (case r0 of Inl e \<Rightarrow> (Inl e, s)
     | Inr d \<Rightarrow> (Inr d, s\<lparr>vnodes := AList.map_entry i (\<lambda>v. v\<lparr>v_data := Some d\<rparr>) (vnodes s)\<rparr>))"
    using assms None
    by (auto simp: cow_file_def bindE_def thenE_def vn_def ret_def r0_def liftR_def upd_result
        split: option.splits sum.splits prod.splits)
  have r0: "r0 = file_bytes (base_fs s) v" using None by (simp add: r0_def file_bytes_def)
  show ?thesis
  proof (cases r0)
    case (Inl e)
    then have "r = Inl e" "t = s" using c by simp_all
    with Inl r0 show ?thesis by simp
  next
    case (Inr d)
    have "anode_of (base_fs s) (v\<lparr>v_data := Some d\<rparr>) = anode_of (base_fs s) v"
      using Inr r0 by (cases "v_entries v") (auto simp: anode_of_def file_bytes_def dir_map_def v_is_dir_def)
    from upd_same_anode [where f = "\<lambda>v. v\<lparr>v_data := Some d\<rparr>", OF assms(2) this]
    have "same_view s t" using c Inr by simp
    moreover have "r = Inr d" "map_of (vnodes t) i = Some (v\<lparr>v_data := Some d\<rparr>)"
      using c Inr assms(2) by (simp_all add: map_entry_conv)
    ultimately show ?thesis using Inr r0 by simp
  qed
qed


lemma base_dir_result:
  "base_dir b s = (case b of None \<Rightarrow> (Inl AttributeError, s) | Some i \<Rightarrow> (read_dir (base_fs s) i, s))"
  by (auto simp: base_dir_def bindE_def raise_def liftR_def split: option.splits)

lemma cow_dir_view:
  assumes c: "cow_dir i s = (r, t)" and v: "map_of (vnodes s) i = Some v"
    and inv: "ov_inv fs s" and un: "unique_names fs"
  shows "same_view s t \<and>
    (\<forall>es. r = Inr es \<longrightarrow> map_of (vnodes t) i = Some (v\<lparr>v_entries := Some es\<rparr>) \<and>
       (v_is_dir v \<longrightarrow> dir_map fs v = Inr (map_of es)))"
proof (cases "v_entries v")
  case (Some es)
  then have "v\<lparr>v_entries := Some es\<rparr> = v" by simp
  with Some c v show ?thesis
    by (auto simp: cow_dir_def bindE_def vn_def ret_def dir_map_def)
next
  case None
  have fs: "base_fs s = fs" by (rule ov_inv_base [OF inv])
  show ?thesis
  proof (cases "v_is_dir v")
    case False
    with None c v show ?thesis by (auto simp: cow_dir_def bindE_def vn_def raise_def)
  next
    case dir: True
    define r0 where "r0 = (case v_base v of Some b \<Rightarrow> (case read_dir fs b of Inr es \<Rightarrow> Inr (entries_dict es)
        | Inl e \<Rightarrow> Inl e) | None \<Rightarrow> Inr [])"
    have c0: "(r, t) = (case r0 of Inl e \<Rightarrow> (Inl e, s)
       | Inr es \<Rightarrow> (Inr es, s\<lparr>vnodes := AList.map_entry i (\<lambda>v. v\<lparr>v_entries := Some es\<rparr>) (vnodes s)\<rparr>))"
      using c v None dir fs
      by (auto simp: cow_dir_def bindE_def thenE_def vn_def ret_def r0_def base_dir_result upd_result
          split: option.splits sum.splits prod.splits)
    show ?thesis
    proof (cases r0)
      case (Inl e)
      then have "r = Inl e" "t = s" using c0 by simp_all
      then show ?thesis by simp
    next
      case (Inr es)
      have r: "r = Inr es" "t = s\<lparr>vnodes := AList.map_entry i (\<lambda>v. v\<lparr>v_entries := Some es\<rparr>) (vnodes s)\<rparr>"
        using c0 Inr by simp_all
      have dm: "dir_map fs v = Inr (map_of es)"
      proof (cases "v_base v")
        case None
        with \<open>v_entries v = None\<close> Inr show ?thesis by (simp add: r0_def dir_map_def)
      next
        case (Some b)
        obtain es0 where es0: "read_dir fs b = Inr es0" "es = entries_dict es0"
          using Inr Some by (auto simp: r0_def split: sum.splits)
        have "get_inode fs i = Inr b"
          using ov_inv_vnode [OF inv v] Some by (simp add: vnode_ok_def)
        with un es0 have "distinct (map snd es0)" by (auto simp: unique_names_def)
        then have "map_of (entries_dict es0) = (\<lambda>n. first_named n es0)"
          by (simp add: first_named_entries fun_eq_iff)
        then show ?thesis
          using None Some es0 by (simp add: dir_map_def)
      qed
      have "anode_of fs (v\<lparr>v_entries := Some es\<rparr>) = anode_of fs v"
        using dm by (cases "v_data v") (simp_all add: anode_of_def dir_map_def file_bytes_def v_is_dir_def)
      then have "same_view s t"
        unfolding r(2) by (intro upd_same_anode [OF v]) (simp add: fs)
      moreover have "map_of (vnodes t) i = Some (v\<lparr>v_entries := Some es\<rparr>)"
        using r(2) v by (simp add: map_entry_conv)
      ultimately show ?thesis using r(1) dm by simp
    qed
  qed
qed

section \<open>Reading, looking up and walking\<close>

definition sim :: "minixfs \<Rightarrow> overlay \<Rightarrow> overlay \<Rightarrow> bool" where
  "sim fs s t \<longleftrightarrow> ov_inv fs t \<and> same_view s t"

lemma sim_refl: "ov_inv fs s \<Longrightarrow> sim fs s s"
  by (simp add: sim_def)

lemma gives_sim:
  assumes "gives (ov_inv fs) m R"
    and "\<And>t r u. ov_inv fs t \<Longrightarrow> m t = (r, u) \<Longrightarrow> same_view t u \<and>
           (\<forall>x. r = Inr x \<longrightarrow> same_view s t \<longrightarrow> Q x)"
  shows "gives (sim fs s) m Q"
  unfolding gives_def sim_def
proof (intro allI impI)
  fix t
  assume t: "ov_inv fs t \<and> same_view s t"
  obtain r u where m: "m t = (r, u)" by (cases "m t")
  from t givesD [OF assms(1), of t] assms(2) [OF _ m] same_view_trans [of s t u] m
  show "(ov_inv fs (snd (m t)) \<and> same_view s (snd (m t))) \<and> (\<forall>x. fst (m t) = Inr x \<longrightarrow> Q x)"
    by auto
qed

lemma sim_vn:
  "gives (sim fs s) (vn i) (\<lambda>v. vnode_ok fs i v \<and> abs_fs s i = Some (anode_of fs v))"
proof -
  have "abs_fs s i = Some (anode_of fs v)"
    if "ov_inv fs t" "same_view s t" "map_of (vnodes t) i = Some v" for t v
    using abs_fs_present [OF that(3)] ov_inv_base [OF that(1)] that(2) by (simp add: same_view_def)
  then show ?thesis
    by (auto simp: gives_def sim_def vn_def split: option.splits intro: ov_inv_vnode)
qed

lemma sim_get: "gives (sim fs s) (get i) (\<lambda>j. j = i)"
  by (rule gives_sim [OF gives_get]) (use get_view in blast)

lemma sim_base: "gives (sim fs s) base (\<lambda>x. x = fs)"
  unfolding base_def by (intro gives_rules) (simp add: sim_def ov_inv_base)

lemma sim_base_dir:
  "gives (sim fs s) (base_dir b) (\<lambda>es. \<exists>i. b = Some i \<and> read_dir fs i = Inr es)"
  unfolding base_dir_def by (intro gives_rules gives_bindE [OF sim_base]) simp

lemmas sim_ops = gives_rules gives_bindE [OF sim_vn] gives_bindE [OF sim_get]
  gives_bindE [OF sim_base] gives_bindE [OF sim_base_dir]

lemma anode_dir:
  assumes "v_is_dir v"
  shows "v_entries v = Some es \<Longrightarrow> a_dir (anode_of fs v) = Inr (map_of es)"
    and "v_entries v = None \<Longrightarrow> v_base v = Some b \<Longrightarrow> read_dir fs b = Inr l \<Longrightarrow>
         a_dir (anode_of fs v) = Inr (\<lambda>n. first_named n l)"
  using assms by (simp_all add: anode_of_def dir_map_def)

lemma sim_lookup:
  "gives (sim fs s) (lookup d name)
     (\<lambda>r. \<exists>a m. abs_fs s d = Some a \<and> a_dir a = Inr m \<and> r = m name)"
  unfolding lookup_def
proof (rule gives_bindE [OF sim_vn], intro gives_if gives_raise)
  fix v
  assume v: "vnode_ok fs d v \<and> abs_fs s d = Some (anode_of fs v)" and dir: "\<not> \<not> v_is_dir v"
  let ?R = "\<lambda>r. \<exists>m. a_dir (anode_of fs v) = Inr m \<and> r = m name"
  have "gives (sim fs s) (case v_entries v of None \<Rightarrow> bindE (base_dir (v_base v))
           (\<lambda>es. ret (first_named name es)) | Some es \<Rightarrow> ret (map_of es name)) ?R"
    using dir by (intro sim_ops) (auto simp: anode_dir)
  then show "gives (sim fs s)
     (bindE (case v_entries v of None \<Rightarrow> bindE (base_dir (v_base v))
           (\<lambda>es. ret (first_named name es)) | Some es \<Rightarrow> ret (map_of es name))
       (\<lambda>r. case r of None \<Rightarrow> ret None | Some ino \<Rightarrow> bindE (get ino) (\<lambda>i. ret (Some i))))
     (\<lambda>r. \<exists>a m. abs_fs s d = Some a \<and> a_dir a = Inr m \<and> r = m name)"
    by (rule gives_bindE) (intro sim_ops; use v in auto)
qed

text \<open>The walk as a function of the logical file system.\<close>

fun apath :: "(int \<rightharpoonup> anode) \<Rightarrow> int \<Rightarrow> int \<Rightarrow> string list \<Rightarrow> int option" where
  "apath A root cur [] = Some cur"
| "apath A root cur (p # ps) =
     (if p = [] \<or> p = ''.'' then apath A root cur ps
      else if p = ''..'' \<and> cur = root then apath A root cur ps
      else case A cur of
             None \<Rightarrow> None
           | Some a \<Rightarrow> (case a_dir a of Inl _ \<Rightarrow> None
                        | Inr m \<Rightarrow> (case m p of None \<Rightarrow> None | Some n \<Rightarrow> apath A root n ps)))"

lemma sim_walk_parts:
  "gives (sim fs s) (walk_parts root cur parts) (\<lambda>r. apath (abs_fs s) root cur parts = Some r)"
proof (induction root cur parts rule: walk_parts.induct)
  case (1 root cur)
  show ?case by (simp add: gives_ret)
next
  case (2 root cur part parts)
  show ?case
    unfolding walk_parts.simps
  proof (intro gives_if gives_bindE [OF sim_vn] gives_raise)
    assume "part = [] \<or> part = ''.''"
    then show "gives (sim fs s) (walk_parts root cur parts)
        (\<lambda>r. apath (abs_fs s) root cur (part # parts) = Some r)"
      using "2.IH"(1) by simp
  next
    fix v
    assume a: "\<not> (part = [] \<or> part = ''.'')" "\<not> \<not> v_is_dir v" "part = ''..'' \<and> cur = root"
    then show "gives (sim fs s) (walk_parts root cur parts)
        (\<lambda>r. apath (abs_fs s) root cur (part # parts) = Some r)"
      using "2.IH"(2) by simp
  next
    fix v
    assume a: "\<not> (part = [] \<or> part = ''.'')" "\<not> \<not> v_is_dir v" "\<not> (part = ''..'' \<and> cur = root)"
    show "gives (sim fs s)
        (bindE (lookup cur part) (\<lambda>nxt. case nxt of None \<Rightarrow> raise (FsError ENOENT)
           | Some n \<Rightarrow> walk_parts root n parts))
        (\<lambda>r. apath (abs_fs s) root cur (part # parts) = Some r)"
    proof (rule gives_bindE [OF sim_lookup], intro gives_option gives_raise)
      fix nxt n
      assume n: "\<exists>a m. abs_fs s cur = Some a \<and> a_dir a = Inr m \<and> nxt = m part" "nxt = Some n"
      then obtain a' m where "abs_fs s cur = Some a'" "a_dir a' = Inr m" "m part = Some n"
        by auto
      then have "apath (abs_fs s) root cur (part # parts) = apath (abs_fs s) root n parts"
        using a by auto
      then show "gives (sim fs s) (walk_parts root n parts)
          (\<lambda>r. apath (abs_fs s) root cur (part # parts) = Some r)"
        using "2.IH"(3) [OF a, of n] by simp
    qed
  qed
qed

definition awalk :: "(int \<rightharpoonup> anode) \<Rightarrow> string \<Rightarrow> int option \<Rightarrow> int option \<Rightarrow> int option" where
  "awalk A path cwd root =
     (let root = (case root of Some r \<Rightarrow> r | None \<Rightarrow> ROOT);
          cur = (case cwd of None \<Rightarrow> root | Some c \<Rightarrow> if starts_slash path then root else c)
      in apath A root cur (split_slash path))"

lemma sim_walk:
  "gives (sim fs s) (walk path cwd root) (\<lambda>r. awalk (abs_fs s) path cwd root = Some r)"
  unfolding walk_def awalk_def Let_def by (rule sim_walk_parts)

definition awalk_parent :: "(int \<rightharpoonup> anode) \<Rightarrow> string \<Rightarrow> int option \<Rightarrow> int option \<Rightarrow> (int \<times> string) option" where
  "awalk_parent A path cwd root =
     (let norm = strip_slashes path; name = after_slash norm in
      map_option (\<lambda>p. (p, take 14 name))
        (case before_slash norm of
           None \<Rightarrow> Some (case cwd of Some c \<Rightarrow> c | None \<Rightarrow> ROOT)
         | Some dir \<Rightarrow> awalk A (if dir = [] then ''/'' else dir) cwd root))"

lemma sim_walk_parent:
  "gives (sim fs s) (walk_parent path cwd root)
     (\<lambda>r. awalk_parent (abs_fs s) path cwd root = Some r \<and>
        snd r \<notin> {[], ''.'', ''..''} \<and> length (snd r) \<le> 14 \<and>
        (\<exists>a. abs_fs s (fst r) = Some a \<and> S_ISDIR (a_mode a)))"
proof -
  define norm where "norm = strip_slashes path"
  let ?P = "\<lambda>p. (case before_slash norm of
           None \<Rightarrow> Some (case cwd of Some c \<Rightarrow> c | None \<Rightarrow> ROOT)
         | Some dir \<Rightarrow> awalk (abs_fs s) (if dir = [] then ''/'' else dir) cwd root) = Some p"
  have 1: "gives (sim fs s) (case before_slash norm of
           None \<Rightarrow> ret (case cwd of Some c \<Rightarrow> c | None \<Rightarrow> ROOT)
         | Some dir \<Rightarrow> walk (if dir = [] then ''/'' else dir) cwd root) ?P"
    by (cases "before_slash norm")
      (auto intro: gives_ret gives_weaken [OF sim_walk])
  have short: "take 14 name \<notin> {[], ''.'', ''..''}" if "name \<notin> {[], ''.'', ''..''}" for name :: string
  proof (cases "length name \<le> 14")
    case False
    then have "length (take 14 name) = 14" by simp
    then have "take 14 name \<noteq> x" if "length x < 14" for x using that by fastforce
    with that show ?thesis by auto
  qed (use that in simp)
  show ?thesis
    unfolding walk_parent_def Let_def norm_def [symmetric]
    apply (intro gives_if gives_raise gives_bindE [OF 1] gives_bindE [OF sim_vn] gives_ret)
    subgoal for p v
      using short [of "after_slash norm"]
      by (auto simp: awalk_parent_def Let_def norm_def [symmetric] NAME_LEN_def v_is_dir_def)
    done
qed

lemma sim_readdir_raw: "gives (sim fs s) (readdir_raw i) (\<lambda>_. True)"
  unfolding readdir_raw_def by (intro sim_ops) simp_all

lemma sim_vread:
  assumes "0 \<le> off" and "0 \<le> n"
  shows "gives (sim fs s) (vread i off n)
    (\<lambda>bs. \<exists>a. abs_fs s i = Some a \<and>
       (\<not> S_ISDIR (a_mode a) \<longrightarrow> (\<forall>w. a_bytes a = Inr w \<longrightarrow> bs = py_slice w off (off + n))))"
  unfolding vread_def
proof (rule gives_bindE [OF sim_vn])
  fix v
  assume v: "vnode_ok fs i v \<and> abs_fs s i = Some (anode_of fs v)"
  let ?Q = "\<lambda>bs. \<exists>a. abs_fs s i = Some a \<and>
       (\<not> S_ISDIR (a_mode a) \<longrightarrow> (\<forall>w. a_bytes a = Inr w \<longrightarrow> bs = py_slice w off (off + n)))"
  have base: "bs = py_slice w off (off + n)"
    if "v_data v = None" "v_base v = Some b" "read_file fs b off (Some n) = Inr bs"
      "a_bytes (anode_of fs v) = Inr w" "\<not> v_is_dir v" for b bs w
  proof -
    have "read_file fs b 0 None = Inr w" using that by (simp add: anode_of_def file_bytes_def)
    moreover have "inode_wf b"
      using v that(2) get_inode_Inr [of fs i b] by (simp add: vnode_ok_def)
    ultimately show ?thesis using read_file_window_law [of fs b w off n] assms that(3) by simp
  qed
  show "gives (sim fs s) (if v_is_dir v then bindE (readdir_raw i) (\<lambda>raw. ret (py_slice raw off (off + n)))
       else case v_data v of
              None \<Rightarrow> (case v_base v of None \<Rightarrow> ret []
                 | Some b \<Rightarrow> bindE base (\<lambda>fs. liftR (read_file fs b off (Some n))))
            | Some d \<Rightarrow> ret (py_slice d off (off + n))) ?Q"
    apply (intro sim_ops gives_bindE [OF sim_readdir_raw])
    using v base
    by (auto simp: anode_of_def file_bytes_def v_is_dir_def py_slice_def)
qed

section \<open>Contents\<close>

text \<open>The contents after a write at an offset, the gap filled with zeros, and after a truncation.\<close>

definition splice :: "bytes \<Rightarrow> nat \<Rightarrow> bytes \<Rightarrow> bytes" where
  "splice w off d = take off (w @ replicate (off - length w) 0) @ d @ drop (off + length d) w"

definition resize :: "bytes \<Rightarrow> nat \<Rightarrow> bytes" where
  "resize w n = take n w @ replicate (n - length w) 0"

lemma length_splice: "length (splice w off d) = max (length w) (off + length d)"
  by (auto simp: splice_def max_def)

lemma splice_same: "py_slice (splice w off d) (int off) (int off + int (length d)) = d"
  by (simp add: py_slice_nonneg splice_def nat_add_distrib)

lemma nth_splice:
  "k < length (splice w off d) \<Longrightarrow>
   splice w off d ! k =
     (if off \<le> k \<and> k < off + length d then d ! (k - off) else if k < length w then w ! k else 0)"
  by (auto simp: splice_def nth_append min_def not_less)

lemma py_assign_splice:
  assumes "0 \<le> off"
  shows "py_assign (if off > int (length w) then w @ replicate (nat (off - int (length w))) 0 else w)
     off (off + int (length d)) d = splice w (nat off) d"
  using assms
  by (auto simp: py_assign_def py_clamp_def splice_def Let_def nat_diff_distrib nat_add_distrib
      max_def min_def)

lemma vwrite_refines:
  assumes w: "vwrite now i off d s = (Inr k, t)" and inv: "ov_inv fs s" and "0 \<le> off"
  obtains a b where "abs_fs s i = Some a" "\<not> S_ISDIR (a_mode a)" "a_bytes a = Inr b"
    "k = int (length d)" "abs_fs t = (abs_fs s)(i \<mapsto> a\<lparr>a_bytes := Inr (splice b (nat off) d)\<rparr>)"
    "base_fs t = fs" "next_ino t = next_ino s"
proof -
  have fs: "base_fs s = fs" by (rule ov_inv_base [OF inv])
  obtain v where v: "map_of (vnodes s) i = Some v" "\<not> v_is_dir v"
    using w by (auto simp: vwrite_def sm_iffs vn_Inr split: if_splits)
  obtain b u where b: "cow_file i s = (Inr b, u)" and t: "t = u\<lparr>vnodes := AList.map_entry i
       (\<lambda>v. v\<lparr>v_data := Some (splice b (nat off) d), v_mtime := now\<rparr>) (vnodes u)\<rparr>"
      and k: "k = int (length d)"
    using w v by (auto simp: vwrite_def sm_iffs vn_Inr upd_result Let_def
        py_assign_splice [OF assms(3)] split: if_splits)
  have c: "same_view s u" "file_bytes fs v = Inr b" "map_of (vnodes u) i = Some (v\<lparr>v_data := Some b\<rparr>)"
    using cow_file_view [OF b v(1)] fs by auto
  have "abs_fs t = (abs_fs s)(i \<mapsto> (anode_of fs v)\<lparr>a_bytes := Inr (splice b (nat off) d)\<rparr>)"
    unfolding t abs_fs_upd [OF c(3)] using c(1) v(2) fs
    by (simp add: same_view_def anode_of_def file_bytes_def dir_map_def v_is_dir_def)
  moreover have "base_fs t = fs" "next_ino t = next_ino s" using c(1) fs by (auto simp: t same_view_def)
  moreover have "a_bytes (anode_of fs v) = Inr b" using c(2) v(2) by (simp add: anode_of_def)
  ultimately show thesis
    using that [OF abs_fs_present [OF v(1)]] v(2) k fs by (simp add: v_is_dir_def)
qed

lemma vtruncate_refines:
  assumes w: "vtruncate now i n s = (Inr (), t)" and inv: "ov_inv fs s" and "0 \<le> n"
  obtains a b where "abs_fs s i = Some a" "\<not> S_ISDIR (a_mode a)" "a_bytes a = Inr b"
    "abs_fs t = (abs_fs s)(i \<mapsto> a\<lparr>a_bytes := Inr (resize b (nat n))\<rparr>)"
proof -
  have fs: "base_fs s = fs" by (rule ov_inv_base [OF inv])
  have rs: "(if n < int (length b) then take (nat (py_clamp (int (length b)) n)) b
      else b @ replicate (nat (n - int (length b))) 0) = resize b (nat n)" for b
    using assms(3) by (auto simp: resize_def py_clamp_def nat_diff_distrib)
  obtain v where v: "map_of (vnodes s) i = Some v" "\<not> v_is_dir v"
    using w by (auto simp: vtruncate_def sm_iffs vn_Inr split: if_splits)
  obtain b u where b: "cow_file i s = (Inr b, u)" and t: "t = u\<lparr>vnodes := AList.map_entry i
       (\<lambda>v. v\<lparr>v_data := Some (resize b (nat n)), v_mtime := now\<rparr>) (vnodes u)\<rparr>"
    using w v by (auto simp: vtruncate_def sm_iffs vn_Inr upd_result Let_def rs split: if_splits)
  have c: "same_view s u" "file_bytes fs v = Inr b" "map_of (vnodes u) i = Some (v\<lparr>v_data := Some b\<rparr>)"
    using cow_file_view [OF b v(1)] fs by auto
  have "abs_fs t = (abs_fs s)(i \<mapsto> (anode_of fs v)\<lparr>a_bytes := Inr (resize b (nat n))\<rparr>)"
    unfolding t abs_fs_upd [OF c(3)] using c(1) v(2) fs
    by (simp add: same_view_def anode_of_def file_bytes_def dir_map_def v_is_dir_def)
  moreover have "a_bytes (anode_of fs v) = Inr b" using c(2) v(2) by (simp add: anode_of_def)
  ultimately show thesis
    using that [OF abs_fs_present [OF v(1)]] v(2) fs by (simp add: v_is_dir_def)
qed

section \<open>Directory entries\<close>

definition alink :: "(int \<rightharpoonup> anode) \<Rightarrow> int \<Rightarrow> string \<Rightarrow> int \<Rightarrow> int \<rightharpoonup> anode" where
  "alink A p name i =
     (case A p of None \<Rightarrow> A
      | Some a \<Rightarrow>
          (case a_dir a of Inl _ \<Rightarrow> A
           | Inr m \<Rightarrow>
               let B = A(p \<mapsto> a\<lparr>a_dir := Inr (m(name \<mapsto> i))\<rparr>)
               in B(i := map_option (\<lambda>c. c\<lparr>a_links := a_links c + 1\<rparr>) (B i))))"

definition dropped :: "anode \<Rightarrow> anode" where
  "dropped c =
     (let l = max (a_links c - 1) 0
      in c\<lparr>a_links := l, a_deleted := a_deleted c \<or> (l = 0 \<and> a_refs c = 0)\<rparr>)"

definition aunlink :: "(int \<rightharpoonup> anode) \<Rightarrow> int \<Rightarrow> string \<Rightarrow> int \<rightharpoonup> anode" where
  "aunlink A p name =
     (case A p of None \<Rightarrow> A
      | Some a \<Rightarrow>
          (case a_dir a of Inl _ \<Rightarrow> A
           | Inr m \<Rightarrow>
               (case m name of None \<Rightarrow> A
                | Some i \<Rightarrow>
                    let B = A(p \<mapsto> a\<lparr>a_dir := Inr (m(name := None))\<rparr>)
                    in B(i := map_option dropped (B i)))))"

text \<open>One update of a present inode, in the table and in the view.\<close>

lemma upd_view:
  assumes "upd i f s = (r, t)" and "map_of (vnodes s) i = Some v" and "base_fs s = fs"
  shows "abs_fs t = (abs_fs s)(i \<mapsto> anode_of fs (f v))" and "base_fs t = fs"
    and "map_of (vnodes t) = (map_of (vnodes s))(i \<mapsto> f v)" and "next_ino t = next_ino s"
  using assms abs_fs_upd [OF assms(2), of f] by (auto simp: upd_result map_entry_conv)

lemma anode_entries:
  "v_is_dir v \<Longrightarrow> anode_of fs (v\<lparr>v_entries := Some es\<rparr>) = (anode_of fs v)\<lparr>a_dir := Inr (map_of es)\<rparr>"
  by (simp add: anode_of_def v_is_dir_def dir_map_def)

lemma anode_meta:
  "anode_of fs (v\<lparr>v_nlinks := n\<rparr>) = (anode_of fs v)\<lparr>a_links := n\<rparr>"
  "anode_of fs (v\<lparr>v_mtime := m\<rparr>) = anode_of fs v"
  "anode_of fs (v\<lparr>v_deleted := b\<rparr>) = (anode_of fs v)\<lparr>a_deleted := b\<rparr>"
  by (cases "v_data v"; cases "v_entries v";
      simp add: anode_of_def v_is_dir_def dir_map_def file_bytes_def)+

lemma upd_mtime_view:
  assumes "upd i (\<lambda>v. v\<lparr>v_mtime := now\<rparr>) s = (r, t)" and "map_of (vnodes s) i = Some v"
    and "base_fs s = fs"
  shows "abs_fs t = abs_fs s" and "base_fs t = fs"
    and "map_of (vnodes t) = (map_of (vnodes s))(i \<mapsto> v\<lparr>v_mtime := now\<rparr>)" and "next_ino t = next_ino s"
  using upd_view [OF assms] abs_fs_present [OF assms(2)] assms(3)
  by (simp_all add: anode_meta fun_upd_idem)

lemma link_entry_refines:
  assumes l: "link_entry now p name i s = (Inr (), t)" and inv: "ov_inv fs s"
    and un: "unique_names fs" and i: "map_of (vnodes s) i \<noteq> None"
    and dir: "abs_fs s p = Some a" "S_ISDIR (a_mode a)"
  shows "\<exists>m. a_dir a = Inr m \<and> abs_fs t = alink (abs_fs s) p name i \<and> base_fs t = fs \<and>
    next_ino t = next_ino s \<and> dom (map_of (vnodes s)) \<subseteq> dom (map_of (vnodes t))"
proof -
  have fs: "base_fs s = fs" by (rule ov_inv_base [OF inv])
  obtain es u u1 u2 where c: "cow_dir p s = (Inr es, u)"
    and 1: "upd p (\<lambda>v. v\<lparr>v_entries := Some (AList.update name i es)\<rparr>) u = (Inr (), u1)"
    and 2: "upd i (\<lambda>v. v\<lparr>v_nlinks := v_nlinks v + 1\<rparr>) u1 = (Inr (), u2)"
    and 3: "upd p (\<lambda>v. v\<lparr>v_mtime := now\<rparr>) u2 = (Inr (), t)"
    using l by (auto simp: link_entry_def sm_iffs upd_result)
  obtain v where v: "map_of (vnodes s) p = Some v"
    using c by (auto simp: cow_dir_def sm_iffs vn_Inr)
  have vdir: "v_is_dir v" "a = anode_of fs v"
    using dir abs_fs_present [OF v] fs by (auto simp: v_is_dir_def)
  have u: "same_view s u" "map_of (vnodes u) p = Some (v\<lparr>v_entries := Some es\<rparr>)"
      "dir_map fs v = Inr (map_of es)" "base_fs u = fs" "abs_fs u = abs_fs s"
    using cow_dir_view [OF c v inv un] vdir fs by (auto simp: same_view_def)
  note u1 = upd_view [OF 1 u(2,4)]
  have "abs_fs u1 = (abs_fs s)(p \<mapsto> a\<lparr>a_dir := Inr ((map_of es)(name \<mapsto> i))\<rparr>)"
    unfolding u1(1) u(5) using vdir
    by (simp add: anode_of_def v_is_dir_def dir_map_def AList.update_conv')
  moreover obtain w where w: "map_of (vnodes u1) i = Some w"
    using u1(3) i u(1) by (cases "i = p") (auto simp: same_view_def)
  note u2 = upd_view [OF 2 w u1(2)]
  have "abs_fs u2 = (abs_fs u1)(i := map_option (\<lambda>c. c\<lparr>a_links := a_links c + 1\<rparr>) (abs_fs u1 i))"
    using u2(1) abs_fs_present [OF w] u1(2) by (simp add: anode_meta)
  moreover obtain x where "map_of (vnodes u2) p = Some x" using u2(3) u1(3) by (cases "i = p") auto
  note t = upd_mtime_view [OF 3 this u2(2)]
  have "a_dir a = Inr (map_of es)" using vdir u(3) by (simp add: anode_of_def)
  ultimately show ?thesis
    using dir(1) t u2 u1 u(1)
    by (auto simp: alink_def Let_def same_view_def)
qed

lemma abs_fs_cong:
  assumes "map_of (vnodes t) = map_of (vnodes s)" and "base_fs t = base_fs s"
  shows "abs_fs t = abs_fs s"
  by (rule ext) (simp only: abs_fs_def peek_def assms)

lemma anode_dropped:
  "anode_of fs (if max (v_nlinks v - 1) 0 = 0 \<and> v_open_refs v = 0
     then v\<lparr>v_nlinks := max (v_nlinks v - 1) 0, v_deleted := True\<rparr>
     else v\<lparr>v_nlinks := max (v_nlinks v - 1) 0\<rparr>) = dropped (anode_of fs v)"
proof (cases "max (v_nlinks v - 1) 0 = 0 \<and> v_open_refs v = 0")
  case True
  then show ?thesis by (simp add: anode_meta dropped_def Let_def)
next
  case False
  have same: "c\<lparr>a_links := l, a_deleted := a_deleted c\<rparr> = c\<lparr>a_links := l\<rparr>" for c :: anode and l
    by (cases c) simp
  have "dropped (anode_of fs v) =
      (anode_of fs v)\<lparr>a_links := max (v_nlinks v - 1) 0, a_deleted := a_deleted (anode_of fs v)\<rparr>"
    unfolding dropped_def Let_def by (simp only: anode_of_simps False simp_thms)
  then show ?thesis
    by (simp only: same anode_meta False if_False)
qed

lemma get_keeps:
  assumes "get i s = (r, t)" and "map_of (vnodes s) k = Some v"
  shows "map_of (vnodes t) k = Some v"
  using assms
  by (auto simp: get_def thenE_def bindE_def ret_def add_vnode_def modify_def AList.update_conv'
      split: option.splits if_splits sum.splits)

lemma unlink_entry_refines:
  assumes l: "unlink_entry now p name s = (Inr j, t)" and inv: "ov_inv fs s"
    and un: "unique_names fs" and dir: "abs_fs s p = Some a" "S_ISDIR (a_mode a)" and jp: "j \<noteq> p"
  shows "\<exists>m. a_dir a = Inr m \<and> m name = Some j \<and> abs_fs t = aunlink (abs_fs s) p name \<and>
    base_fs t = fs \<and> next_ino t = next_ino s \<and>
    dom (map_of (vnodes s)) \<subseteq> dom (map_of (vnodes t))"
proof -
  have fs: "base_fs s = fs" by (rule ov_inv_base [OF inv])
  obtain es u where c: "cow_dir p s = (Inr es, u)"
    and r: "(case map_of es name of None \<Rightarrow> raise (FsError ENOENT)
       | Some ino \<Rightarrow>
           bindE (get ino) (\<lambda>i.
           thenE (remember p name i)
           (thenE (upd p (\<lambda>p. p\<lparr>v_entries := Some (AList.delete name es)\<rparr>))
           (thenE (upd i (\<lambda>v. v\<lparr>v_nlinks := max (v_nlinks v - 1) 0\<rparr>))
           (thenE (upd p (\<lambda>p. p\<lparr>v_mtime := now\<rparr>))
           (thenE (upd i (\<lambda>v. if v_nlinks v = 0 \<and> v_open_refs v = 0
                              then v\<lparr>v_deleted := True\<rparr> else v))
             (ret i))))))) u = (Inr j, t)"
    using l unfolding unlink_entry_def bindE_Inr_iff by blast
  obtain k where k: "map_of es name = Some k"
    using r by (cases "map_of es name") (auto simp: raise_def)
  obtain i g where gt: "get k u = (Inr i, g)" using r k by (auto simp: bindE_Inr_iff)
  have gv: "same_view u g" "i = k" "i \<in> dom (map_of (vnodes g))" using get_view [OF gt] by auto
  obtain u1 u2 u3 where
    1: "upd p (\<lambda>v. v\<lparr>v_entries := Some (AList.delete name es)\<rparr>)
          (g\<lparr>names := AList.update i (p, name) (names g)\<rparr>) = (Inr (), u1)"
    and 2: "upd i (\<lambda>v. v\<lparr>v_nlinks := max (v_nlinks v - 1) 0\<rparr>) u1 = (Inr (), u2)"
    and 3: "upd p (\<lambda>v. v\<lparr>v_mtime := now\<rparr>) u2 = (Inr (), u3)"
    and 4: "upd i (\<lambda>v. if v_nlinks v = 0 \<and> v_open_refs v = 0 then v\<lparr>v_deleted := True\<rparr> else v) u3
        = (Inr (), t)" and j: "j = i"
    using r k gt by (auto simp: bindE_Inr_iff thenE_Inr_iff sm_results remember_def upd_result)
  obtain v where v: "map_of (vnodes s) p = Some v"
    using c by (auto simp: cow_dir_def sm_iffs vn_Inr)
  have vdir: "v_is_dir v" "a = anode_of fs v"
    using dir abs_fs_present [OF v] fs by (auto simp: v_is_dir_def)
  have u: "same_view s u" "map_of (vnodes u) p = Some (v\<lparr>v_entries := Some es\<rparr>)"
      "dir_map fs v = Inr (map_of es)" "base_fs u = fs" "abs_fs u = abs_fs s"
    using cow_dir_view [OF c v inv un] vdir fs by (auto simp: same_view_def)
  define g' where "g' = g\<lparr>names := AList.update i (p, name) (names g)\<rparr>"
  have g': "abs_fs g' = abs_fs s" "base_fs g' = fs" "map_of (vnodes g') = map_of (vnodes g)"
      "next_ino g' = next_ino s" "map_of (vnodes g') p = Some (v\<lparr>v_entries := Some es\<rparr>)"
    using gv u get_keeps [OF gt u(2)] abs_fs_cong [of g' g]
    by (simp_all add: g'_def same_view_def)
  note u1 = upd_view [OF 1 [folded g'_def] g'(5,2)]
  obtain w where w: "map_of (vnodes u1) i = Some w"
    using u1(3) gv(3) g'(3) jp j by auto
  note u2 = upd_view [OF 2 w u1(2)]
  obtain x where x: "map_of (vnodes u2) p = Some x" using u2(3) u1(3) jp j by auto
  note u3 = upd_mtime_view [OF 3 x u2(2)]
  have y: "map_of (vnodes u3) i = Some (w\<lparr>v_nlinks := max (v_nlinks w - 1) 0\<rparr>)"
    using u3(3) u2(3) jp j by simp
  note t = upd_view [OF 4 y u3(2)]
  have dm: "a_dir a = Inr (map_of es)" using vdir u(3) by (simp add: anode_of_def)
  have "abs_fs u1 = (abs_fs s)(p \<mapsto> a\<lparr>a_dir := Inr ((map_of es)(name := None))\<rparr>)"
    unfolding u1(1) g'(1) using vdir
    by (simp add: anode_of_def v_is_dir_def dir_map_def AList.delete_conv')
  moreover have "abs_fs t = (abs_fs u1)(i := map_option dropped (abs_fs u1 i))"
    using t(1) u3(1) u2(1) abs_fs_present [OF w] u1(2) anode_dropped [of fs w] by simp
  moreover have "dom (map_of (vnodes s)) \<subseteq> dom (map_of (vnodes t))"
  proof -
    have "dom (map_of (vnodes g)) \<subseteq> dom (map_of (vnodes t))"
      unfolding t(3) u3(3) u2(3) u1(3) g'(3) by auto
    with gv(1) u(1) show ?thesis by (simp add: same_view_def) (metis order_trans)
  qed
  ultimately show ?thesis
    using dir(1) dm k j gv(2) t u3 u2 u1 g'
    by (auto simp: aunlink_def Let_def)
qed

section \<open>Creating, linking, unlinking\<close>

lemma gives_InrD:
  assumes "gives I m R" and "I s" and "m s = (Inr x, u)"
  shows "I u" and "R x"
  using assms by (auto simp: gives_def dest!: spec [of _ s])

definition fresh_anode :: "int \<Rightarrow> int \<Rightarrow> int \<Rightarrow> int \<Rightarrow> anode" where
  "fresh_anode mode uid gid rdev =
     \<lparr>a_mode = mode, a_uid = uid, a_gid = gid, a_links = 0, a_rdev = rdev, a_refs = 0,
      a_deleted = False, a_bytes = Inr [],
      a_dir = (if S_ISDIR mode then Inr Map.empty else Inl (FsError ENOTDIR))\<rparr>"

lemma new_inode_refines:
  assumes n: "new_inode now mode uid gid rdev s = (Inr i, t)" and inv: "ov_inv fs s"
  shows "i = next_ino s \<and> abs_fs s i = None \<and> base_fs t = fs \<and> next_ino t = i + 1 \<and>
    abs_fs t = (abs_fs s)(i \<mapsto> fresh_anode mode uid gid rdev) \<and>
    map_of (vnodes t) i \<noteq> None \<and> dom (map_of (vnodes s)) \<subseteq> dom (map_of (vnodes t)) \<and>
    ov_inv fs t"
proof -
  have fs: "base_fs s = fs" by (rule ov_inv_base [OF inv])
  define v where "v = (VInode (next_ino s) mode uid gid 0 now rdev 0 None)\<lparr>v_data := Some []\<rparr>"
  have t: "i = next_ino s" "t = s\<lparr>next_ino := next_ino s + 1,
      vnodes := AList.update (next_ino s) v (vnodes s)\<rparr>"
    using n by (auto simp: new_inode_def sm_iffs add_vnode_def v_def split: if_splits)
  have none: "map_of (vnodes s) i = None"
    using inv t(1) table_okD(2) [of fs "next_ino s" "map_of (vnodes s)" i]
    by (cases "map_of (vnodes s) i") (auto simp: ov_inv_def)
  have "get_inode fs i = Inl MinixError"
    using inv t(1) by (simp add: get_inode_def ov_inv_def)
  then have abs_none: "abs_fs s i = None" by (simp add: abs_fs_def peek_def none fs)
  have "peek t = (peek s)(i \<mapsto> v)"
  proof (rule ext)
    show "peek t j = ((peek s)(i \<mapsto> v)) j" for j
      by (cases "j = i"; cases "map_of (vnodes s) j") (simp_all add: peek_def t AList.update_conv')
  qed
  then have "abs_fs t = (abs_fs s)(i \<mapsto> anode_of fs v)"
    by (simp add: abs_fs_def fun_eq_iff fs t(2))
  moreover have "anode_of fs v = fresh_anode mode uid gid rdev"
    by (simp add: anode_of_def fresh_anode_def v_def VInode_def v_is_dir_def file_bytes_def dir_map_def)
  moreover have "ov_inv fs t" using givesD [OF gives_new_inode inv] n by (metis snd_conv)
  ultimately show ?thesis
    using t fs abs_none by (auto simp: AList.update_conv')
qed

lemma same_view_sim: "sim fs s t \<Longrightarrow> ov_inv fs t \<and> abs_fs t = abs_fs s \<and> next_ino t = next_ino s"
  by (simp add: sim_def same_view_def)

lemma remember_view:
  "remember p name i s = (r, t) \<Longrightarrow> abs_fs t = abs_fs s \<and> r = Inr () \<and> vnodes t = vnodes s"
  by (auto simp: remember_def modify_def intro: abs_fs_cong)

text \<open>A name that is not there yet: the parent and its entries, before anything is changed.\<close>

lemma absent_name:
  assumes wp: "walk_parent path cwd root s = (Inr (p, name), u)" and lk: "lookup p name u = (Inr None, u')"
    and inv: "ov_inv fs s"
  obtains a m where "awalk_parent (abs_fs s) path cwd root = Some (p, name)" "abs_fs s p = Some a"
    "S_ISDIR (a_mode a)" "a_dir a = Inr m" "m name = None" "sim fs s u'"
proof -
  note W = gives_InrD [OF sim_walk_parent sim_refl [OF inv] wp]
  note L = gives_InrD [OF sim_lookup W(1) lk]
  from W(2) L(2) that [OF _ _ _ _ _ L(1)] show thesis by auto
qed

lemma create_refines:
  assumes c: "create now path mode cwd root uid gid s = (Inr i, t)" and inv: "ov_inv fs s"
    and un: "unique_names fs"
  shows "\<exists>p name a m. awalk_parent (abs_fs s) path cwd root = Some (p, name) \<and> abs_fs s p = Some a \<and>
    a_dir a = Inr m \<and> m name = None \<and> i = next_ino s \<and> abs_fs s i = None \<and>
    abs_fs t = alink ((abs_fs s)(i \<mapsto> fresh_anode ((mode AND 0xFFF) OR S_IFREG) uid gid 0)) p name i"
proof -
  obtain p name u u' v w where wp: "walk_parent path cwd root s = (Inr (p, name), u)"
    and lk: "lookup p name u = (Inr None, u')"
    and nw: "new_inode now ((mode AND 0xFFF) OR S_IFREG) uid gid 0 u' = (Inr i, v)"
    and le: "link_entry now p name i v = (Inr (), w)" and rm: "remember p name i w = (Inr (), t)"
    using c by (auto simp: create_def sm_iffs split: prod.splits if_splits)
  from absent_name [OF wp lk inv] obtain a m where A:
    "awalk_parent (abs_fs s) path cwd root = Some (p, name)" "abs_fs s p = Some a"
    "S_ISDIR (a_mode a)" "a_dir a = Inr m" "m name = None" "sim fs s u'" by blast
  note S = same_view_sim [OF A(6)]
  have N: "i = next_ino u'" "abs_fs u' i = None" "map_of (vnodes v) i \<noteq> None" "ov_inv fs v"
    "abs_fs v = (abs_fs u')(i \<mapsto> fresh_anode ((mode AND 0xFFF) OR S_IFREG) uid gid 0)"
    using new_inode_refines [OF nw] S by blast+
  have "p \<noteq> i" using A(2) N(2) S by auto
  then have "abs_fs v p = Some a" using N(5) S A(2) by simp
  from link_entry_refines [OF le N(4) un N(3) this A(3)] remember_view [OF rm] A N S show ?thesis
    by auto
qed

lemma unlink_entry_name:
  assumes l: "unlink_entry now p name s = (Inr j, t)" and inv: "ov_inv fs s"
    and un: "unique_names fs" and dir: "abs_fs s p = Some a" "S_ISDIR (a_mode a)"
  shows "\<exists>m. a_dir a = Inr m \<and> m name = Some j"
proof -
  obtain es u where c: "cow_dir p s = (Inr es, u)"
    using l unfolding unlink_entry_def bindE_Inr_iff by blast
  obtain k where k: "map_of es name = Some k"
    using l c by (cases "map_of es name") (auto simp: unlink_entry_def bindE_Inr_iff raise_def)
  obtain i g where gt: "get k u = (Inr i, g)"
    using l c k by (auto simp: unlink_entry_def bindE_Inr_iff)
  then have "i = k" using get_view by blast
  then have "j = k"
    using l c k gt by (auto simp: unlink_entry_def sm_iffs upd_result remember_def)
  obtain v where v: "map_of (vnodes s) p = Some v"
    using c by (auto simp: cow_dir_def sm_iffs vn_Inr)
  have "v_is_dir v" "a = anode_of fs v"
    using dir abs_fs_present [OF v] ov_inv_base [OF inv] by (auto simp: v_is_dir_def)
  with cow_dir_view [OF c v inv un] k \<open>j = k\<close> show ?thesis by (auto simp: anode_of_def)
qed

lemma unlink_refines:
  assumes c: "unlink now path cwd root s = (Inr (), t)" and inv: "ov_inv fs s"
    and un: "unique_names fs"
  shows "\<exists>p name a m j b. awalk_parent (abs_fs s) path cwd root = Some (p, name) \<and>
    abs_fs s p = Some a \<and> a_dir a = Inr m \<and> m name = Some j \<and> abs_fs s j = Some b \<and>
    \<not> S_ISDIR (a_mode b) \<and> abs_fs t = aunlink (abs_fs s) p name"
proof -
  obtain p name u u' j v k where wp: "walk_parent path cwd root s = (Inr (p, name), u)"
    and lk: "lookup p name u = (Inr (Some j), u')" and v: "vn j u' = (Inr v, u')" "\<not> v_is_dir v"
    and ue: "unlink_entry now p name u' = (Inr k, t)"
    using c by (auto simp: unlink_def sm_iffs vn_Inr split: prod.splits if_splits option.splits)
  note W = gives_InrD [OF sim_walk_parent sim_refl [OF inv] wp]
  note L = gives_InrD [OF sim_lookup W(1) lk]
  note V = gives_InrD [OF sim_vn L(1) v(1)]
  have S: "ov_inv fs u'" "abs_fs u' = abs_fs s" using same_view_sim [OF L(1)] by auto
  from W(2) L(2) obtain a m where A: "abs_fs s p = Some a" "S_ISDIR (a_mode a)" "a_dir a = Inr m"
    "m name = Some j" "awalk_parent (abs_fs s) path cwd root = Some (p, name)" by auto
  have jp: "j \<noteq> p" using A V(2) v(2) by (auto simp: v_is_dir_def)
  have "k = j" using unlink_entry_name [OF ue S(1) un, of a] A S(2) by auto
  with unlink_entry_refines [OF ue S(1) un, of a] A S(2) jp V(2) v(2) show ?thesis
    by (auto simp: v_is_dir_def)
qed

lemma link_refines:
  assumes c: "link now oldpath newpath cwd root s = (Inr (), t)" and inv: "ov_inv fs s"
    and un: "unique_names fs"
  shows "\<exists>i b p name a m. awalk (abs_fs s) oldpath cwd root = Some i \<and> abs_fs s i = Some b \<and>
    \<not> S_ISDIR (a_mode b) \<and> awalk_parent (abs_fs s) newpath cwd root = Some (p, name) \<and>
    abs_fs s p = Some a \<and> a_dir a = Inr m \<and> m name = None \<and>
    abs_fs t = alink (abs_fs s) p name i"
proof -
  obtain i u v p name w w' where wk: "walk oldpath cwd root s = (Inr i, u)"
    and v: "vn i u = (Inr v, u)" "\<not> v_is_dir v"
    and wp: "walk_parent newpath cwd root u = (Inr (p, name), w)"
    and lk: "lookup p name w = (Inr None, w')" and le: "link_entry now p name i w' = (Inr (), t)"
    using c by (auto simp: link_def sm_iffs vn_Inr split: prod.splits if_splits)
  note K = gives_InrD [OF sim_walk sim_refl [OF inv] wk]
  note V = gives_InrD [OF sim_vn K(1) v(1)]
  have U: "ov_inv fs u" "abs_fs u = abs_fs s" using same_view_sim [OF K(1)] by auto
  from absent_name [OF wp lk U(1)] obtain a m where A:
    "awalk_parent (abs_fs u) newpath cwd root = Some (p, name)" "abs_fs u p = Some a"
    "S_ISDIR (a_mode a)" "a_dir a = Inr m" "m name = None" "sim fs u w'" by blast
  have S: "ov_inv fs w'" "abs_fs w' = abs_fs u" using same_view_sim [OF A(6)] by auto
  have pres: "map_of (vnodes w') i \<noteq> None"
    using v(1) A(6) by (auto simp: vn_Inr sim_def same_view_def)
  from link_entry_refines [OF le S(1) un pres _ A(3)] A U S K(2) V(2) v(2) show ?thesis
    by (auto simp: v_is_dir_def)
qed

section \<open>Renaming\<close>

definition is_adir :: "(int \<rightharpoonup> anode) \<Rightarrow> int \<Rightarrow> (string \<rightharpoonup> int) \<Rightarrow> bool" where
  "is_adir A p m \<longleftrightarrow> (\<exists>a. A p = Some a \<and> S_ISDIR (a_mode a) \<and> a_dir a = Inr m)"

definition is_afile :: "(int \<rightharpoonup> anode) \<Rightarrow> int \<Rightarrow> bool" where
  "is_afile A i \<longleftrightarrow> (\<exists>b. A i = Some b \<and> \<not> S_ISDIR (a_mode b))"

lemma is_adir_neq: "is_adir A p m \<Longrightarrow> is_afile A i \<Longrightarrow> i \<noteq> p"
  by (auto simp: is_adir_def is_afile_def)

lemma alink_dir:
  assumes "is_adir A p m" and "is_afile A i"
  shows "is_adir (alink A p name i) p (m(name \<mapsto> i))" and "is_afile (alink A p name i) i"
    and "q \<noteq> p \<Longrightarrow> is_adir A q n \<Longrightarrow> is_adir (alink A p name i) q n"
  using assms by (auto simp: is_adir_def is_afile_def alink_def Let_def)

lemma aunlink_dir:
  assumes "is_adir A p m" and "is_afile A i" and "m name = Some i"
  shows "is_adir (aunlink A p name) p (m(name := None))" and "is_afile (aunlink A p name) i"
    and "q \<noteq> p \<Longrightarrow> is_adir A q n \<Longrightarrow> is_adir (aunlink A p name) q n"
    and "is_afile A j \<Longrightarrow> is_afile (aunlink A p name) j"
  using assms by (auto simp: is_adir_def is_afile_def aunlink_def dropped_def Let_def)

lemma link_step:
  assumes "link_entry now p name i s = (Inr (), t)" and "ov_inv fs s" and "unique_names fs"
    and "map_of (vnodes s) i \<noteq> None" and "is_adir (abs_fs s) p m"
  shows "abs_fs t = alink (abs_fs s) p name i" and "ov_inv fs t"
  using assms link_entry_refines [OF assms(1-4)] givesD [OF gives_link_entry assms(2), of now p name i]
  by (auto simp: is_adir_def)

lemma unlink_step:
  assumes "unlink_entry now p name s = (Inr j, t)" and "ov_inv fs s" and "unique_names fs"
    and "is_adir (abs_fs s) p m" and "is_afile (abs_fs s) i" and "m name = Some i"
  shows "j = i" and "abs_fs t = aunlink (abs_fs s) p name" and "ov_inv fs t"
    and "dom (map_of (vnodes s)) \<subseteq> dom (map_of (vnodes t))"
proof -
  show "j = i"
    using unlink_entry_name [OF assms(1-3)] assms(4,6) by (auto simp: is_adir_def)
  with is_adir_neq [OF assms(4,5)] unlink_entry_refines [OF assms(1-3)] assms(4)
  show "abs_fs t = aunlink (abs_fs s) p name" "dom (map_of (vnodes s)) \<subseteq> dom (map_of (vnodes t))"
    by (auto simp: is_adir_def)
  show "ov_inv fs t"
    using givesD [OF gives_unlink_entry assms(2), of now p name] assms(1) by simp
qed

lemma rename_move_refines:
  assumes r: "rename_move now op on np nn i s = (Inr (), t)" and inv: "ov_inv fs s"
    and un: "unique_names fs" and pres: "map_of (vnodes s) i \<noteq> None"
    and fl: "is_afile (abs_fs s) i" and np: "is_adir (abs_fs s) np mn"
    and op: "is_adir (abs_fs s) op mo" "mo on = Some i" and ne: "(op, on) \<noteq> (np, nn)"
  shows "abs_fs t = aunlink (alink (abs_fs s) np nn i) op on"
proof -
  obtain u j w v where l: "link_entry now np nn i s = (Inr (), u)"
    and ul: "unlink_entry now op on u = (Inr j, w)" and v: "vn i w = (Inr v, w)"
    and rest: "(if v_is_dir v \<and> op \<noteq> np then
         bindE (cow_dir i) (\<lambda>es.
         thenE (upd i (\<lambda>v. v\<lparr>v_entries := Some (AList.update ''..'' np es)\<rparr>))
         (thenE (upd np (\<lambda>p. p\<lparr>v_nlinks := v_nlinks p + 1\<rparr>))
           (upd op (\<lambda>p. p\<lparr>v_nlinks := max (v_nlinks p - 1) 0\<rparr>))))
       else ret ()) w = (Inr (), t)"
    using r unfolding rename_move_def thenE_Inr_iff bindE_Inr_iff by (auto simp: vn_Inr)
  note L = link_step [OF l inv un pres np]
  have fi: "is_afile (abs_fs u) i" using alink_dir(2) [OF np fl] L(1) by simp
  have "\<exists>m. is_adir (abs_fs u) op m \<and> m on = Some i"
  proof (cases "op = np")
    case True
    then have "mo = mn" using op np by (auto simp: is_adir_def)
    with True alink_dir(1) [OF np fl, of nn] L(1) op(2) ne show ?thesis by auto
  next
    case False
    with alink_dir(3) [OF np fl _ op(1)] L(1) op(2) show ?thesis by auto
  qed
  then obtain m where m: "is_adir (abs_fs u) op m" "m on = Some i" by blast
  note U = unlink_step [OF ul L(2) un m(1) fi m(2)]
  have "is_afile (abs_fs w) i" using aunlink_dir(2) [OF m(1) fi m(2)] U(2) by simp
  then have "\<not> v_is_dir v"
    using v abs_fs_present [of w i v] ov_inv_base [OF U(3)] by (auto simp: vn_Inr is_afile_def v_is_dir_def)
  with rest have "t = w" by (simp add: ret_def)
  with U(2) L(1) show ?thesis by simp
qed

lemma lookup_present:
  assumes "lookup d name s = (Inr (Some i), t)"
  shows "map_of (vnodes t) i \<noteq> None"
proof -
  obtain r u where "(case r of None \<Rightarrow> ret None | Some ino \<Rightarrow> bindE (get ino) (\<lambda>i. ret (Some i))) u
      = (Inr (Some i), t)"
    using assms by (auto simp: lookup_def bindE_Inr_iff raise_def split: if_splits)
  then show ?thesis
    by (cases r) (auto simp: sm_iffs dest!: get_view)
qed

text \<open>A plain file moved to a name that is free, or over another plain file.\<close>

lemma rename_file_refines:
  assumes r: "rename now oldpath newpath cwd root s = (Inr (), t)" and inv: "ov_inv fs s"
    and un: "unique_names fs"
    and old: "awalk_parent (abs_fs s) oldpath cwd root = Some (op, on)"
      "is_adir (abs_fs s) op mo" "mo on = Some i" "is_afile (abs_fs s) i"
    and new: "awalk_parent (abs_fs s) newpath cwd root = Some (np, nn)" "is_adir (abs_fs s) np mn"
    and free: "\<And>e. mn nn = Some e \<Longrightarrow> is_afile (abs_fs s) e"
  shows "abs_fs t =
    (if mn nn = Some i then abs_fs s
     else if mn nn = None then aunlink (alink (abs_fs s) np nn i) op on
     else aunlink (alink (aunlink (abs_fs s) np nn) np nn i) op on)"
proof -
  obtain op' on' u1 i' u2 np' nn' u3 ex u4 where
    1: "walk_parent oldpath cwd root s = (Inr (op', on'), u1)" "lookup op' on' u1 = (Inr (Some i'), u2)"
    and 2: "walk_parent newpath cwd root u2 = (Inr (np', nn'), u3)" "lookup np' nn' u3 = (Inr ex, u4)"
    and rest: "(case ex of
               None \<Rightarrow> rename_move now op' on' np' nn' i'
             | Some e \<Rightarrow>
                 if e = i' then ret ()
                 else
                   bindE (vn e) (\<lambda>ev.
                   thenE (if v_is_dir ev then rmdir now newpath cwd root
                          else thenE (unlink_entry now np' nn') (ret ()))
                     (rename_move now op' on' np' nn' i'))) u4 = (Inr (), t)"
    using r by (auto simp: rename_def bindE_Inr_iff sm_results split: prod.splits option.splits)
  note W1 = gives_InrD [OF sim_walk_parent sim_refl [OF inv] 1(1)]
  note L1 = gives_InrD [OF sim_lookup W1(1) 1(2)]
  have U2: "ov_inv fs u2" "abs_fs u2 = abs_fs s" using same_view_sim [OF L1(1)] by auto
  note W2 = gives_InrD [OF sim_walk_parent sim_refl [OF U2(1)] 2(1)]
  note L2 = gives_InrD [OF sim_lookup W2(1) 2(2)]
  have U4: "ov_inv fs u4" "abs_fs u4 = abs_fs s" using same_view_sim [OF L2(1)] U2 by auto
  have eq: "op' = op" "on' = on" "np' = np" "nn' = nn" using W1(2) W2(2) old new U2 by auto
  have i: "i' = i" using L1(2) old(2,3) eq by (auto simp: is_adir_def)
  have ex: "ex = mn nn" using L2(2) new(2) eq U2(2) by (auto simp: is_adir_def)
  have pres: "map_of (vnodes u4) i \<noteq> None"
    using lookup_present [OF 1(2)] L2(1) i by (auto simp: sim_def same_view_def)
  show ?thesis
  proof (cases "mn nn")
    case None
    then have mv: "rename_move now op on np nn i u4 = (Inr (), t)" using rest ex eq i by simp
    have "(op, on) \<noteq> (np, nn)" using None old(2,3) new(2) by (auto simp: is_adir_def)
    from rename_move_refines [OF mv U4(1) un pres _ _ _ _ this] old new U4(2) None show ?thesis
      by simp
  next
    case (Some e)
    show ?thesis
    proof (cases "e = i")
      case True
      with Some rest ex i U4(2) show ?thesis by (simp add: ret_def)
    next
      case False
      then obtain ev u5 j u6 where ev: "vn e u4 = (Inr ev, u5)" and
        un5: "(if v_is_dir ev then rmdir now newpath cwd root
               else thenE (unlink_entry now np nn) (ret ())) u5 = (Inr j, u6)"
        and mv: "rename_move now op on np nn i u6 = (Inr (), t)"
        using rest ex Some i eq by (auto simp: bindE_Inr_iff thenE_Inr_iff)
      have fe: "is_afile (abs_fs u4) e" using free [OF Some] U4(2) by simp
      have u5: "u5 = u4" "\<not> v_is_dir ev"
        using ev fe abs_fs_present [of u4 e ev] ov_inv_base [OF U4(1)]
        by (auto simp: vn_Inr is_afile_def v_is_dir_def)
      then obtain k where ue: "unlink_entry now np nn u4 = (Inr k, u6)"
        using un5 by (auto simp: sm_iffs)
      have npd: "is_adir (abs_fs u4) np mn" using new(2) U4(2) by simp
      note U = unlink_step [OF ue U4(1) un npd fe Some]
      have fi: "is_afile (abs_fs u6) i"
        using aunlink_dir(4) [OF npd fe Some] old(4) U4(2) U(2) by simp
      have np6: "is_adir (abs_fs u6) np (mn(nn := None))"
        using aunlink_dir(1) [OF npd fe Some] U(2) by simp
      have ne: "(op, on) \<noteq> (np, nn)"
        using Some False old(2,3) new(2) by (auto simp: is_adir_def)
      have "\<exists>m. is_adir (abs_fs u6) op m \<and> m on = Some i"
      proof (cases "op = np")
        case True
        then have "mo = mn" using old(2) new(2) by (auto simp: is_adir_def)
        with True np6 old(3) ne show ?thesis by auto
      next
        case False
        with aunlink_dir(3) [OF npd fe Some, of op mo] old(2,3) U4(2) U(2) show ?thesis by auto
      qed
      then obtain m where m: "is_adir (abs_fs u6) op m" "m on = Some i" by blast
      have "map_of (vnodes u6) i \<noteq> None" using pres U(4) by auto
      from rename_move_refines [OF mv U(3) un this fi np6 m ne] U(2) U4(2) Some False
      show ?thesis by simp
    qed
  qed
qed

section \<open>Names longer than fourteen characters\<close>

lemma no_slash_path:
  assumes "CHR ''/'' \<notin> set p" and "p \<noteq> []"
  shows "strip_slashes p = p" "before_slash p = None" "after_slash p = p" "split_slash p = [p]"
    "\<not> starts_slash p"
proof -
  have A: "dropWhile (\<lambda>c. c \<noteq> CHR ''/'') (rev p) = []" "takeWhile (\<lambda>c. c \<noteq> CHR ''/'') (rev p) = rev p"
    using assms(1) by (auto simp: dropWhile_eq_Nil_conv takeWhile_eq_all_conv)
  have B: "dropWhile (\<lambda>c. c = CHR ''/'') (rev p) = rev p"
    using assms by (cases "rev p") (auto simp: rev_eq_Cons_iff)
  show "strip_slashes p = p" "before_slash p = None" "after_slash p = p"
    unfolding strip_slashes_def before_slash_def after_slash_def
    by (simp_all only: A B rev_rev_ident list.case)
  have "split_slash_aux acc q = [rev acc @ q]" if "CHR ''/'' \<notin> set q" for acc q
    using that by (induction acc q rule: split_slash_aux.induct) auto
  with assms(1) show "split_slash p = [p]" by (simp add: split_slash_def)
  show "\<not> starts_slash p" using assms by (cases p) (auto simp: starts_slash_def)
qed

lemma S_IFMT_regular: "S_IFMT ((mode AND 0xFFF) OR S_IFREG) = 0x8000"
  by (simp add: S_IFMT_def S_IFREG_def bit.conj_disj_distrib2 and.assoc)

lemma link_entry_cow:
  assumes "link_entry now p name i s = (Inr (), t)" and "p \<noteq> i"
  shows "\<exists>v. map_of (vnodes t) p = Some v \<and> v_entries v \<noteq> None"
proof -
  obtain es u where c: "cow_dir p s = (Inr es, u)"
    and t: "t = snd (thenE (upd p (\<lambda>p. p\<lparr>v_entries := Some (AList.update name i es)\<rparr>))
       (thenE (upd i (\<lambda>v. v\<lparr>v_nlinks := v_nlinks v + 1\<rparr>)) (upd p (\<lambda>p. p\<lparr>v_mtime := now\<rparr>))) u)"
    using assms(1) by (auto simp: link_entry_def bindE_Inr_iff)
  have "map_of (vnodes u) p \<noteq> None"
    using c by (auto simp: cow_dir_def sm_iffs vn_Inr upd_result map_entry_conv base_dir_result
        split: option.splits if_splits prod.splits)
  then show ?thesis
    using assms(2) by (auto simp: t thenE_def bindE_def upd_result map_entry_conv split: option.splits)
qed

lemma create_long_name:
  assumes c: "create now path mode (Some d) root uid gid s = (Inr i, t)" and inv: "ov_inv fs s"
    and un: "unique_names fs" and p: "CHR ''/'' \<notin> set path" "14 < length path"
    and dir: "is_adir (abs_fs s) d m" "m path = None"
  shows "fst (walk path (Some d) root t) = Inl (FsError ENOENT)"
proof -
  have "length (take 14 path) = 14" using p(2) by simp
  then have "path \<noteq> take 14 path" using p(2) by (metis less_irrefl)
  moreover have "path \<noteq> []" "path \<noteq> ''.''" "path \<noteq> ''..''" using p(2) by auto
  ultimately have ne: "path \<noteq> []" "path \<noteq> ''.''" "path \<noteq> ''..''" "path \<noteq> take 14 path" by auto
  note N = no_slash_path [OF p(1) ne(1)]
  obtain q name u u' v w where wp: "walk_parent path (Some d) root s = (Inr (q, name), u)"
    and lk: "lookup q name u = (Inr None, u')"
    and nw: "new_inode now ((mode AND 0xFFF) OR S_IFREG) uid gid 0 u' = (Inr i, v)"
    and le: "link_entry now q name i v = (Inr (), w)" and rm: "remember q name i w = (Inr (), t)"
    using c by (auto simp: create_def sm_iffs split: prod.splits if_splits)
  from absent_name [OF wp lk inv] have S: "sim fs s u'" and
    ap: "awalk_parent (abs_fs s) path (Some d) root = Some (q, name)" by blast+
  then have q: "q = d" "name = take 14 path"
    by (simp_all add: awalk_parent_def Let_def N)
  note W = same_view_sim [OF S]
  have V: "i = next_ino u'" "abs_fs u' i = None" "map_of (vnodes v) i \<noteq> None" "ov_inv fs v"
    "abs_fs v = (abs_fs u')(i \<mapsto> fresh_anode ((mode AND 0xFFF) OR S_IFREG) uid gid 0)"
    using new_inode_refines [OF nw] W by blast+
  have di: "d \<noteq> i" using dir(1) V(2) W by (auto simp: is_adir_def)
  then have "is_adir (abs_fs v) d m" using dir(1) V(5) W by (simp add: is_adir_def)
  note L = link_step [OF le V(4) un V(3) this [folded q(1)]]
  have "is_afile (abs_fs v) i"
  proof -
    have "\<not> S_ISDIR ((mode AND 0xFFF) OR S_IFREG)"
      using S_IFMT_regular [of mode] by (simp add: S_ISDIR_def)
    then show ?thesis using V(5) by (simp add: is_afile_def fresh_anode_def)
  qed
  from alink_dir(1) [OF \<open>is_adir (abs_fs v) d m\<close> this, of name]
  have "is_adir (abs_fs t) d (m(name \<mapsto> i))"
    using L(1) q remember_view [OF rm] by simp
  moreover obtain x es where x: "map_of (vnodes t) d = Some x" "v_entries x = Some es"
    using link_entry_cow [OF le] di q remember_view [OF rm] by auto
  moreover have "base_fs t = base_fs t" ..
  ultimately have X: "v_is_dir x" "map_of es path = None"
    using abs_fs_present [OF x(1)] dir(2) ne(4) q
    by (auto simp: is_adir_def v_is_dir_def anode_of_def dir_map_def split: if_splits)
  then show ?thesis
    using ne x N
    by (auto simp: walk_def Let_def bindE_def vn_def raise_def lookup_def ret_def)
qed

section \<open>Export\<close>

lemma export_upd_untouched:
  assumes "map_of (vnodes s) i = Some v" and "untouched v" and "distinct (map fst (vnodes s))"
    and "untouched (f v)"
  shows "export_changes (s\<lparr>vnodes := AList.map_entry i f (vnodes s)\<rparr>) = export_changes s"
proof -
  have "filter (\<lambda>(i, v). \<not> untouched v) (AList.map_entry i f xs) =
      filter (\<lambda>(i, v). \<not> untouched v) xs" if "map_of xs i = Some v" for xs
    using that assms(2,4) by (induction xs) (auto split: if_splits)
  from this [OF assms(1)] show ?thesis by (simp add: export_changes_def)
qed

end
