(* ===== verification/Tiny_Overlay.thy ===== *)
theory Tiny_Overlay
  imports Tiny_Image Kvfs_Spec
begin

text \<open>The overlay over the small image, and a few of its runs, for the witnesses.\<close>

definition tiny_ov :: overlay where
  "tiny_ov = \<lparr>base_fs = tiny_fs, vnodes = [(1, from_base tiny_root)], names = [], next_ino = 3\<rparr>"

definition tiny_ov2 :: overlay where
  "tiny_ov2 = \<lparr>base_fs = tiny_fs, vnodes = [(1, from_base tiny_root), (2, from_base tiny_file)],
     names = [], next_ino = 3\<rparr>"

lemmas type_simps = i_is_dir_def i_is_device_def i_is_chardev_def i_is_blockdev_def i_is_fifo_def
  i_is_regular_def i_is_symlink_def S_ISDIR_def S_ISREG_def S_ISCHR_def S_ISBLK_def S_ISFIFO_def
  S_ISLNK_def S_IFMT_def

lemma tiny_nodes:
  "from_base tiny_root = VInode 1 0x41ED 0 0 2 0 0 48 (Some tiny_root)"
  "from_base tiny_file = VInode 2 0x81A4 0 0 1 0 0 3 (Some tiny_file)"
  by (simp_all add: from_base_def tiny_root_def tiny_file_def type_simps)

lemma tiny_ov_init: "OverlayFS_init tiny_fs = Inr tiny_ov"
  by (simp add: OverlayFS_init_def get_def ROOT_def tiny_sb_def tiny_inode thenE_def bindE_def
      add_vnode_def modify_def ret_def tiny_ov_def)

lemma tiny_ov_inv: "ov_inv tiny_fs tiny_ov"
  by (rule ov_inv_init [OF tiny_ov_init]) (simp add: tiny_sb_def)

lemma tiny_get2: "get 2 tiny_ov = (Inr 2, tiny_ov2)"
  by (simp add: get_def tiny_ov_def tiny_ov2_def tiny_sb_def tiny_inode thenE_def bindE_def
      add_vnode_def modify_def ret_def)

lemma tiny_ov2_inv: "ov_inv tiny_fs tiny_ov2"
  using givesD [OF gives_get tiny_ov_inv, of 2] tiny_get2 by simp

lemma tiny_unique: "unique_names tiny_fs"
  unfolding unique_names_def
proof (intro allI impI)
  fix n b es
  assume b: "get_inode tiny_fs n = Inr b" and es: "read_dir tiny_fs b = Inr es"
  have "n = 1 \<or> n = 2" using get_inode_Inr [OF b] by (auto simp: tiny_sb_def)
  then show "distinct (map snd es)"
  proof
    assume "n = 1"
    with b es have "es = [(1, ''.''), (1, ''..''), (2, ''f'')]" by (simp add: tiny_inode tiny_dir)
    then show ?thesis by simp
  next
    assume "n = 2"
    with b have "b = tiny_file" by (simp add: tiny_inode)
    with es show ?thesis by (simp add: read_dir_def tiny_file_def type_simps)
  qed
qed

lemmas run_simps = bindE_def thenE_def ret_def raise_def gets_def modify_def liftR_def vn_def
  base_def upd_def add_vnode_def get_def base_dir_def Let_def

lemma tiny_lookup_f: "lookup 1 ''f'' tiny_ov = (Inr (Some 2), tiny_ov2)"
  by (simp add: lookup_def run_simps tiny_ov_def tiny_ov2_def tiny_nodes VInode_def v_is_dir_def
      type_simps tiny_dir tiny_sb_def tiny_inode)

lemma tiny_walk_parent:
  "walk_parent ''g'' (Some 1) (Some 1) tiny_ov = (Inr (1, ''g''), tiny_ov)"
  "walk_parent ''f'' (Some 1) (Some 1) tiny_ov = (Inr (1, ''f''), tiny_ov)"
  by (simp_all add: walk_parent_def strip_slashes_def before_slash_def after_slash_def run_simps
      tiny_ov_def tiny_nodes VInode_def v_is_dir_def type_simps NAME_LEN_def)

lemma tiny_lookup_g: "lookup 1 ''g'' tiny_ov = (Inr None, tiny_ov)"
  by (simp add: lookup_def run_simps tiny_ov_def tiny_nodes VInode_def v_is_dir_def type_simps tiny_dir)

lemma tiny_cow_root:
  "cow_dir 1 tiny_ov = (Inr [(''.'', 1), (''..'', 1), (''f'', 2)], tiny_ov\<lparr>vnodes :=
      [(1, (from_base tiny_root)\<lparr>v_entries := Some [(''.'', 1), (''..'', 1), (''f'', 2)]\<rparr>)]\<rparr>)"
  by (simp add: cow_dir_def run_simps tiny_ov_def tiny_nodes VInode_def v_is_dir_def type_simps
      tiny_dir entries_dict_def)

lemma tiny_create:
  "\<exists>t. create 9 ''g'' 0x1A4 (Some 1) (Some 1) 0 0 tiny_ov = (Inr 3, t)"
  by (simp add: create_def walk_parent_def strip_slashes_def before_slash_def after_slash_def
      lookup_def new_inode_def link_entry_def cow_dir_def entries_dict_def remember_def run_simps
      tiny_ov_def tiny_nodes VInode_def v_is_dir_def type_simps tiny_dir S_IFREG_def NAME_LEN_def)

lemmas ov_eval = create_def unlink_def rename_def rename_move_def unlink_entry_def vwrite_def vread_def
  cow_file_def walk_def walk_parent_def strip_slashes_def before_slash_def after_slash_def
  lookup_def new_inode_def link_entry_def cow_dir_def entries_dict_def remember_def run_simps
  tiny_ov_def tiny_ov2_def tiny_nodes VInode_def v_is_dir_def type_simps tiny_dir tiny_read
  S_IFREG_def NAME_LEN_def tiny_sb_def tiny_inode ROOT_def

lemma tiny_unlink: "\<exists>t. unlink 9 ''f'' (Some 1) (Some 1) tiny_ov = (Inr (), t)"
  by (simp add: ov_eval)

lemma tiny_rename: "\<exists>t. rename 9 ''f'' ''g'' (Some 1) (Some 1) tiny_ov = (Inr (), t)"
  by (simp add: ov_eval)

lemma tiny_write: "\<exists>t. vwrite 9 2 1 [0x58] tiny_ov2 = (Inr 1, t)"
  by (simp add: ov_eval)

lemma tiny_read2: "read_file tiny_fs tiny_file 0 (Some 2) = Inr [0x61, 0x62]"
  using read_file_window_law [OF tiny_read(2), of 0 2] get_inode_Inr [OF tiny_inode(2)]
  by (simp add: py_slice_nonneg)

lemma tiny_vread: "\<exists>t. vread 2 0 2 tiny_ov2 = (Inr [0x61, 0x62], t)"
  by (simp add: ov_eval tiny_read2)

lemma tiny_walk: "walk ''/f'' (Some 1) (Some 1) tiny_ov = (Inr 2, tiny_ov2)"
  by (simp add: ov_eval starts_slash_def split_slash_def)

lemma tiny_abs:
  "abs_fs tiny_ov 1 = Some (anode_of tiny_fs (from_base tiny_root))"
  "abs_fs tiny_ov 2 = Some (anode_of tiny_fs (from_base tiny_file))"
  by (simp_all add: abs_fs_def peek_def tiny_ov_def tiny_inode)

lemma tiny_adir:
  "is_adir (abs_fs tiny_ov) 1 (\<lambda>n. first_named n [(1, ''.''), (1, ''..''), (2, ''f'')])"
  by (simp add: is_adir_def tiny_abs anode_of_def dir_map_def tiny_nodes VInode_def v_is_dir_def
      type_simps tiny_dir)

lemma tiny_afile: "is_afile (abs_fs tiny_ov) 2"
  by (simp add: is_afile_def tiny_abs tiny_nodes VInode_def type_simps)

text \<open>A directory, and the same directory moved below itself.\<close>

definition tiny_with_dir :: overlay where
  "tiny_with_dir = \<lparr>base_fs = tiny_fs,
     vnodes = [(1, (VInode 1 0x41ED 0 0 3 7 0 48 (Some tiny_root))\<lparr>v_entries :=
         Some [(''.'', 1), (''..'', 1), (''f'', 2), (''a'', 3)]\<rparr>),
       (3, (VInode 3 0x41ED 0 0 2 7 0 0 None)\<lparr>v_entries := Some [(''.'', 3), (''..'', 1)]\<rparr>)],
     names = [(3, 1, ''a'')], next_ino = 4\<rparr>"

definition tiny_cyclic :: overlay where
  "tiny_cyclic = \<lparr>base_fs = tiny_fs,
     vnodes = [(1, (VInode 1 0x41ED 0 0 2 8 0 48 (Some tiny_root))\<lparr>v_entries :=
         Some [(''.'', 1), (''..'', 1), (''f'', 2)]\<rparr>),
       (3, (VInode 3 0x41ED 0 0 3 8 0 0 None)\<lparr>v_entries :=
         Some [(''.'', 3), (''..'', 3), (''b'', 3)]\<rparr>)],
     names = [(3, 1, ''a'')], next_ino = 4\<rparr>"

lemma tiny_mkdir: "mkdir 7 ''/a'' 0x1ED None None 0 0 tiny_ov = (Inr 3, tiny_with_dir)"
  by (simp add: mkdir_def ov_eval starts_slash_def split_slash_def S_IFDIR_def tiny_with_dir_def)

lemma tiny_cycle: "rename 8 ''/a'' ''/a/b'' None None tiny_with_dir = (Inr (), tiny_cyclic)"
  by (simp add: tiny_with_dir_def tiny_cyclic_def ov_eval starts_slash_def split_slash_def)

end
