(* ===== verification/Kvfs_Props.thy ===== *)
theory Kvfs_Props
  imports Tiny_Overlay
begin

text \<open>
  The properties of pipes and of the overlay: the refinement of the abstract file system of
  \<open>Kvfs_Spec\<close>, and the places where the overlay departs from it.
\<close>

section \<open>Pipes and the overlay (kvfs)\<close>



text \<open>C12: after any sequence of overlay operations, failing ones included, the image is the one
  the overlay was opened on, and the inode table is sound: numbers are unique, every node is
  stored under its own number below the next fresh one, a node that is backed by the image is
  backed by the inode of its number, a new one lies above the image's numbers and fits sixteen
  bits, no link or reference count is negative, and no directory has a name twice.\<close>

lemma overlay_invariant:
  assumes "OverlayFS_init fs = Inr s" and "1 \<le> ninodes (sb fs)"
  shows "ov_inv fs (fold run_vop cs s)"
  by (rule ov_inv_run [OF ov_inv_init [OF assms]])

lemma overlay_invariant_witness:
  "ov_inv tiny_fs (fold run_vop [(9, OCreate ''g'' 0x1A4 None None 0 0), (10, ORmdir ''f'' None None)]
     tiny_ov)"
  by (rule overlay_invariant [OF tiny_ov_init]) (simp add: tiny_sb_def)

text \<open>C15: reading a file through the overlay changes nothing that any operation can see, and
  returns the window of its logical contents, whether the contents are still in the image or
  have been copied.\<close>

lemma overlay_read:
  assumes "vread i off n s = (Inr bs, t)" and "ov_inv fs s" and "0 \<le> off" and "0 \<le> n"
  shows "abs_fs t = abs_fs s \<and>
    (\<exists>a. abs_fs s i = Some a \<and>
       (\<not> S_ISDIR (a_mode a) \<longrightarrow> (\<forall>w. a_bytes a = Inr w \<longrightarrow> bs = py_slice w off (off + n))))"
  using gives_InrD [OF sim_vread [OF assms(3,4)] sim_refl [OF assms(2)] assms(1)]
  by (auto dest: same_view_sim)

lemma overlay_read_witness: "\<exists>a. abs_fs tiny_ov2 2 = Some a"
proof -
  obtain t where t: "vread 2 0 2 tiny_ov2 = (Inr [0x61, 0x62], t)" using tiny_vread by blast
  from overlay_read [OF t tiny_ov2_inv] show ?thesis by auto
qed

text \<open>C14: writing to a file changes the contents of that inode only: they become the old
  contents with the data spliced in at the offset, the gap before it filled with zeros; the
  same window then reads back the data.\<close>

lemma overlay_write:
  assumes "vwrite now i off d s = (Inr k, t)" and "ov_inv fs s" and "0 \<le> off"
  shows "k = int (length d) \<and>
    (\<exists>a w. abs_fs s i = Some a \<and> a_bytes a = Inr w \<and>
       abs_fs t = (abs_fs s)(i \<mapsto> a\<lparr>a_bytes := Inr (splice w (nat off) d)\<rparr>)) \<and>
    (\<forall>bs u. vread i off (int (length d)) t = (Inr bs, u) \<longrightarrow> bs = d)"
proof -
  obtain a w where A: "abs_fs s i = Some a" "\<not> S_ISDIR (a_mode a)" "a_bytes a = Inr w"
    "k = int (length d)" "abs_fs t = (abs_fs s)(i \<mapsto> a\<lparr>a_bytes := Inr (splice w (nat off) d)\<rparr>)"
    by (rule vwrite_refines [OF assms])
  have t: "ov_inv fs t" using givesD [OF gives_vwrite assms(2), of now i off d] assms(1) by simp
  have "bs = d" if "vread i off (int (length d)) t = (Inr bs, u)" for bs u
    using gives_InrD(2) [OF sim_vread [OF assms(3), of "int (length d)" fs t i] sim_refl [OF t] that]
      splice_same [of w "nat off" d] A assms(3) by auto
  with A show ?thesis by blast
qed

lemma overlay_write_witness:
  "\<exists>a w. abs_fs tiny_ov2 2 = Some a \<and> a_bytes a = Inr w"
proof -
  obtain t where t: "vwrite 9 2 1 [0x58] tiny_ov2 = (Inr 1, t)" using tiny_write by blast
  from overlay_write [OF t tiny_ov2_inv] show ?thesis by auto
qed

text \<open>C16: a path walk through the overlay, which may take inodes into the table, changes nothing
  logically and finds what the walk over the logical directories finds, with \<open>..\<close> stopped at
  the root of the process.\<close>

lemma overlay_walk:
  assumes "walk path cwd root s = (Inr i, t)" and "ov_inv fs s"
  shows "awalk (abs_fs s) path cwd root = Some i \<and> abs_fs t = abs_fs s"
  using gives_InrD [OF sim_walk sim_refl [OF assms(2)] assms(1)] by (auto dest: same_view_sim)

lemma overlay_walk_witness: "awalk (abs_fs tiny_ov) ''/f'' (Some 1) (Some 1) = Some 2"
  using overlay_walk [OF tiny_walk tiny_ov_inv] by simp

text \<open>C19: \<open>create\<close> makes a fresh regular inode, empty and with the permission bits only, and
  one new entry for it in the directory the path names; nothing else changes.\<close>

lemma overlay_create:
  assumes "create now path mode cwd root uid gid s = (Inr i, t)" and "ov_inv fs s"
    and "unique_names fs"
  shows "\<exists>p name a m. awalk_parent (abs_fs s) path cwd root = Some (p, name) \<and> abs_fs s p = Some a \<and>
    a_dir a = Inr m \<and> m name = None \<and> i = next_ino s \<and> abs_fs s i = None \<and>
    abs_fs t = alink ((abs_fs s)(i \<mapsto> fresh_anode ((mode AND 0xFFF) OR S_IFREG) uid gid 0)) p name i"
  by (rule create_refines [OF assms])

lemma overlay_create_witness: "abs_fs tiny_ov 3 = None"
proof -
  obtain t where t: "create 9 ''g'' 0x1A4 (Some 1) (Some 1) 0 0 tiny_ov = (Inr 3, t)"
    using tiny_create by blast
  from overlay_create [OF t tiny_ov_inv tiny_unique] show ?thesis by auto
qed

text \<open>C18: \<open>unlink\<close> removes one entry of a file that is not a directory and one from its link
  count; its contents stay readable through open references, and it is marked deleted only when
  no link and no reference is left.\<close>

lemma overlay_unlink:
  assumes "unlink now path cwd root s = (Inr (), t)" and "ov_inv fs s" and "unique_names fs"
  shows "\<exists>p name a m j b. awalk_parent (abs_fs s) path cwd root = Some (p, name) \<and>
    abs_fs s p = Some a \<and> a_dir a = Inr m \<and> m name = Some j \<and> abs_fs s j = Some b \<and>
    \<not> S_ISDIR (a_mode b) \<and> abs_fs t = aunlink (abs_fs s) p name"
  by (rule unlink_refines [OF assms])

lemma overlay_unlink_witness:
  "\<exists>p name. awalk_parent (abs_fs tiny_ov) ''f'' (Some 1) (Some 1) = Some (p, name)"
  using tiny_unlink overlay_unlink [OF _ tiny_ov_inv tiny_unique] by blast

text \<open>C17: renaming a plain file to a free name, over another plain file or to a link of itself:
  in the last case nothing changes; otherwise the new entry is made and the old one removed, a
  replaced file having lost its entry first.\<close>

lemma overlay_rename:
  assumes "rename now oldpath newpath cwd root s = (Inr (), t)" and "ov_inv fs s"
    and "unique_names fs"
    and "awalk_parent (abs_fs s) oldpath cwd root = Some (op, on)" and "is_adir (abs_fs s) op mo"
    and "mo on = Some i" and "is_afile (abs_fs s) i"
    and "awalk_parent (abs_fs s) newpath cwd root = Some (np, nn)" and "is_adir (abs_fs s) np mn"
    and "\<And>e. mn nn = Some e \<Longrightarrow> is_afile (abs_fs s) e"
  shows "abs_fs t =
    (if mn nn = Some i then abs_fs s
     else if mn nn = None then aunlink (alink (abs_fs s) np nn i) op on
     else aunlink (alink (aunlink (abs_fs s) np nn) np nn i) op on)"
  by (rule rename_file_refines [OF assms])

lemma overlay_rename_witness:
  "\<exists>t. abs_fs t = aunlink (alink (abs_fs tiny_ov) 1 ''g'' 2) 1 ''f''"
proof -
  obtain t where t: "rename 9 ''f'' ''g'' (Some 1) (Some 1) tiny_ov = (Inr (), t)"
    using tiny_rename by blast
  have w: "awalk_parent (abs_fs tiny_ov) ''f'' (Some 1) (Some 1) = Some (1, ''f'')"
    "awalk_parent (abs_fs tiny_ov) ''g'' (Some 1) (Some 1) = Some (1, ''g'')"
    by (simp_all add: awalk_parent_def strip_slashes_def before_slash_def after_slash_def)
  from overlay_rename [OF t tiny_ov_inv tiny_unique w(1) tiny_adir _ tiny_afile w(2) tiny_adir]
  show ?thesis by (intro exI [of _ t]) simp
qed

text \<open>\<open>create\<close> cuts a name to fourteen characters but \<open>walk\<close> looks the full name up: a file
  just created under a longer name is not found by the same path, which fails with \<open>ENOENT\<close>.\<close>

lemma long_name_lost:
  assumes "create now path mode (Some d) root uid gid s = (Inr i, t)" and "ov_inv fs s"
    and "unique_names fs" and "CHR ''/'' \<notin> set path" and "14 < length path"
    and "is_adir (abs_fs s) d m" and "m path = None"
  shows "fst (walk path (Some d) root t) = Inl (FsError ENOENT)"
  by (rule create_long_name [OF assms])

lemma long_name_lost_witness:
  "fst (walk ''abcdefghijklmno'' (Some 1) (Some 1)
     (snd (create 9 ''abcdefghijklmno'' 0x1A4 (Some 1) (Some 1) 0 0 tiny_ov))) = Inl (FsError ENOENT)"
proof -
  have "fst (create 9 ''abcdefghijklmno'' 0x1A4 (Some 1) (Some 1) 0 0 tiny_ov) = Inr 3"
    by (simp add: ov_eval)
  then have "create 9 ''abcdefghijklmno'' 0x1A4 (Some 1) (Some 1) 0 0 tiny_ov =
      (Inr 3, snd (create 9 ''abcdefghijklmno'' 0x1A4 (Some 1) (Some 1) 0 0 tiny_ov))"
    by (metis prod.collapse)
  from long_name_lost [OF this tiny_ov_inv tiny_unique _ _ tiny_adir] show ?thesis by simp
qed

text \<open>A change of mode, owner or time of an inode whose contents have not been copied is
  not part of the exported changes: \<open>export_changes\<close> is the same after it.\<close>

lemma export_misses_metadata:
  assumes "map_of (vnodes s) i = Some v" and "untouched v" and "distinct (map fst (vnodes s))"
  shows "export_changes (snd (chmod i mode s)) = export_changes s \<and>
    export_changes (snd (chown i uid gid s)) = export_changes s"
  unfolding chmod_def chown_def upd_result snd_conv
  by (intro conjI export_upd_untouched [OF assms(1,2,3)])
    (use assms(2) in \<open>simp_all add: untouched_def Let_def\<close>)

lemma export_misses_metadata_witness:
  "export_changes (snd (chmod 2 0x1FF tiny_ov2)) = export_changes tiny_ov2"
proof -
  have "map_of (vnodes tiny_ov2) 2 = Some (from_base tiny_file)" "untouched (from_base tiny_file)"
    "distinct (map fst (vnodes tiny_ov2))"
    by (simp_all add: tiny_ov2_def untouched_def tiny_nodes VInode_def)
  from export_misses_metadata [OF this] show ?thesis by simp
qed

text \<open>\<open>rename\<close> does not check that a directory is moved below itself: moving \<open>/a\<close> to
  \<open>/a/b\<close> succeeds, takes the directory out of the tree and makes it its own entry \<open>b\<close>.\<close>

lemma rename_below_itself:
  "fst (rename 8 ''/a'' ''/a/b'' None None (snd (mkdir 7 ''/a'' 0x1ED None None 0 0 tiny_ov))) = Inr ()
   \<and> fst (walk ''/a'' None None (snd (rename 8 ''/a'' ''/a/b'' None None
       (snd (mkdir 7 ''/a'' 0x1ED None None 0 0 tiny_ov))))) = Inl (FsError ENOENT)
   \<and> fst (lookup 3 ''b'' (snd (rename 8 ''/a'' ''/a/b'' None None
       (snd (mkdir 7 ''/a'' 0x1ED None None 0 0 tiny_ov))))) = Inr (Some 3)"
  unfolding tiny_mkdir tiny_cycle snd_conv fst_conv
  by (simp add: tiny_cyclic_def ov_eval starts_slash_def split_slash_def ENOENT_def)

end
