(* ===== verification/Cpu_State.thy ===== *)
theory Cpu_State
  imports X86mem
begin

text \<open>
  \<open>src/cpu86.py\<close>, first part: the constants and tables, the decoded instruction tuple, the
  \<open>CPU\<close> object and its methods for registers, stack, operands, flags, multiplication,
  division and the string instructions, and the \<open>Profiler\<close>.

  A register holds a Python integer; the masks that keep it in 32 bits are those of the
  code. The functions that serve as \<open>e[0]\<close> of a decoded tuple are the constructors of
  \<open>handler\<close>, one for each template instance and one for each hand-written \<open>_h_\<close> function. A
  state extension of the \<open>cpu\<close> record stands for what the callbacks of the kernel
  (\<open>on_int\<close>, \<open>on_fault\<close>) read and change besides the CPU.
\<close>

section \<open>Constants and tables\<close>

definition MASK32 :: int where "MASK32 = 0xFFFFFFFF"
definition SIGN32 :: int where "SIGN32 = 0x80000000"
definition MAGIC_EIP_BASE :: int where "MAGIC_EIP_BASE = 0xFFFF0000"

abbreviation (input) EAX :: int where "EAX \<equiv> 0"
abbreviation (input) ECX :: int where "ECX \<equiv> 1"
abbreviation (input) EDX :: int where "EDX \<equiv> 2"
abbreviation (input) EBX :: int where "EBX \<equiv> 3"
abbreviation (input) ESP :: int where "ESP \<equiv> 4"
abbreviation (input) EBP :: int where "EBP \<equiv> 5"
abbreviation (input) ESI :: int where "ESI \<equiv> 6"
abbreviation (input) EDI :: int where "EDI \<equiv> 7"

definition CF :: int where "CF = 0x0001"
definition PF :: int where "PF = 0x0004"
definition AF :: int where "AF = 0x0010"
definition ZF :: int where "ZF = 0x0040"
definition SF :: int where "SF = 0x0080"
definition TF :: int where "TF = 0x0100"
definition IF_FLAG :: int where "IF_FLAG = 0x0200"
definition DF :: int where "DF = 0x0400"
definition OF_FLAG :: int where "OF_FLAG = 0x0800"
definition EFLAGS_BASE :: int where "EFLAGS_BASE = 0x0202"

lemmas flag_consts = CF_def PF_def AF_def ZF_def SF_def TF_def IF_FLAG_def DF_def OF_FLAG_def
  EFLAGS_BASE_def
lemmas cpu_consts = MASK32_def SIGN32_def MAGIC_EIP_BASE_def flag_consts

definition bit_count8 :: "int \<Rightarrow> nat" where
  "bit_count8 i = length (filter (\<lambda>k. bit i k) [0..<8])"

text \<open>\<open>_PARITY\<close>, indexed by the low byte.\<close>

definition PARITY :: "int \<Rightarrow> int" where
  "PARITY i = (if bit_count8 i mod 2 = 0 then PF else 0)"

definition MASK_of :: "int \<Rightarrow> int" where
  "MASK_of sz = (if sz = 1 then 0xFF else if sz = 2 then 0xFFFF
     else if sz = 4 then 0xFFFFFFFF else 0)"

definition SIGN_of :: "int \<Rightarrow> int" where
  "SIGN_of sz = (if sz = 1 then 0x80 else if sz = 2 then 0x8000
     else if sz = 4 then 0x80000000 else 0)"

definition sx8 :: "int \<Rightarrow> int" where
  "sx8 v = (if v \<ge> 128 then v - 256 else v)"

definition sx16 :: "int \<Rightarrow> int" where
  "sx16 v = (if v \<ge> 0x8000 then v - 0x10000 else v)"

definition sx32 :: "int \<Rightarrow> int" where
  "sx32 v = (if v \<ge> SIGN32 then v - 0x100000000 else v)"

definition PREFIXES :: "int list" where
  "PREFIXES = [0x66, 0x2E, 0x36, 0x3E, 0x26, 0x64, 0x65, 0xF0, 0xF2, 0xF3]"

section \<open>The profiler\<close>

definition CAT_ALU :: int where "CAT_ALU = 0"
definition CAT_MOV :: int where "CAT_MOV = 1"
definition CAT_STACK :: int where "CAT_STACK = 2"
definition CAT_BRANCH :: int where "CAT_BRANCH = 3"
definition CAT_STRING :: int where "CAT_STRING = 4"
definition CAT_MULDIV :: int where "CAT_MULDIV = 5"
definition CAT_FLAG :: int where "CAT_FLAG = 6"
definition CAT_OTHER :: int where "CAT_OTHER = 7"

lemmas cat_consts = CAT_ALU_def CAT_MOV_def CAT_STACK_def CAT_BRANCH_def CAT_STRING_def
  CAT_MULDIV_def CAT_FLAG_def CAT_OTHER_def

definition set_all :: "nat list \<Rightarrow> 'a \<Rightarrow> 'a list \<Rightarrow> 'a list" where
  "set_all ops x t = fold (\<lambda>op t. t[op := x]) ops t"

definition build_op_category :: "int list" where
  "build_op_category =
     (let t = replicate 256 CAT_OTHER;
          t = set_all (filter (\<lambda>op. op mod 8 < 6) [0..<0x40]) CAT_ALU t;
          t = set_all [0x40..<0x50] CAT_ALU t;
          t = set_all [0x50..<0x60] CAT_STACK t;
          t = set_all [0x68, 0x6A] CAT_STACK t;
          t = set_all [0x69, 0x6B] CAT_MULDIV t;
          t = set_all [0x70..<0x80] CAT_BRANCH t;
          t = set_all [0x80, 0x81, 0x83] CAT_ALU t;
          t = set_all [0x84, 0x85] CAT_ALU t;
          t = set_all [0x86, 0x87] CAT_MOV t;
          t = set_all [0x88..<0x8C] CAT_MOV t;
          t = set_all [0x8D] CAT_MOV t;
          t = set_all [0x8F] CAT_STACK t;
          t = set_all [0x91..<0x98] CAT_MOV t;
          t = set_all [0x98, 0x99] CAT_MOV t;
          t = set_all [0x9C, 0x9D] CAT_STACK t;
          t = set_all [0x9E, 0x9F] CAT_FLAG t;
          t = set_all [0xA0..<0xA4] CAT_MOV t;
          t = set_all [0xA4..<0xB0] CAT_STRING t;
          t = set_all [0xA8, 0xA9] CAT_ALU t;
          t = set_all [0xB0..<0xC0] CAT_MOV t;
          t = set_all [0xC0, 0xC1] CAT_ALU t;
          t = set_all [0xC2, 0xC3] CAT_BRANCH t;
          t = set_all [0xC6, 0xC7] CAT_MOV t;
          t = set_all [0xC8, 0xC9] CAT_STACK t;
          t = set_all [0xD0, 0xD1, 0xD2, 0xD3] CAT_ALU t;
          t = set_all [0xD7] CAT_MOV t;
          t = set_all [0xE0..<0xE4] CAT_BRANCH t;
          t = set_all [0xE8, 0xE9, 0xEB] CAT_BRANCH t;
          t = set_all [0xF6, 0xF7] CAT_MULDIV t
      in set_all [0xF8, 0xF9, 0xFC, 0xFD] CAT_FLAG t)"

definition build_op0f_category :: "int list" where
  "build_op0f_category =
     (let t = replicate 256 CAT_OTHER;
          t = set_all [0x80..<0x90] CAT_BRANCH t;
          t = set_all [0x90..<0xA0] CAT_MOV t;
          t = set_all [0xAF] CAT_MULDIV t;
          t = set_all [0xA3, 0xAB, 0xB3, 0xBB, 0xBA, 0xBC, 0xBD, 0xA4, 0xA5, 0xAC, 0xAD] CAT_ALU t
      in set_all [0xB6, 0xB7, 0xBE, 0xBF] CAT_MOV t)"

definition PREFIX_BYTES :: "int list" where
  "PREFIX_BYTES = [0x66, 0x67, 0xF0, 0xF2, 0xF3, 0x2E, 0x36, 0x3E, 0x26, 0x64, 0x65]"

record profiler =
  cat_counts :: "int list"
  hot :: "(int \<times> int) list"
  rep_elems :: int
  bucket_shift :: int
  insns :: int

definition Profiler_init :: "int \<Rightarrow> profiler" where
  "Profiler_init shift = \<lparr>cat_counts = replicate 8 0, hot = [], rep_elems = 0,
     bucket_shift = shift, insns = 0\<rparr>"

lemma read_u8_limit: "read_u8 a s = Inr v \<Longrightarrow> a < max (low_end s) TASK_SIZE"
  by (auto simp: read_u8_def split: if_splits)

text \<open>
  The prefix loop of \<open>record\<close>, with the address of the opcode it finds. It ends because
  every round reads a byte, and the readable addresses have an end.
\<close>

function skip_prefixes :: "int \<Rightarrow> 'e addrspace \<Rightarrow> exn + int \<times> int" where
  "skip_prefixes eip s =
     bindR (read_u8 eip s)
       (\<lambda>op. if op \<in> set PREFIX_BYTES then skip_prefixes (eip + 1) s else Inr (eip, op))"
  by pat_completeness auto

termination
  by (relation "measure (\<lambda>(eip, s). nat (max (low_end s) TASK_SIZE - eip))")
    (auto dest: read_u8_limit)

declare skip_prefixes.simps [simp del]

definition insn_category :: "int \<Rightarrow> 'e addrspace \<Rightarrow> exn + int" where
  "insn_category start s =
     bindR (skip_prefixes start s)
       (\<lambda>(eip, op). if op = 0x0F
          then bindR (read_u8 (eip + 1) s) (\<lambda>op2. Inr (build_op0f_category ! nat op2))
          else Inr (build_op_category ! nat op))"

definition Profiler_record :: "int \<Rightarrow> 'e addrspace \<Rightarrow> (profiler, unit) sm" where
  "Profiler_record start s =
     thenE (modify (\<lambda>p. p\<lparr>insns := insns p + 1\<rparr>))
     (bindE (liftR (insn_category start s)) (\<lambda>cat.
      modify (\<lambda>p.
        let p = p\<lparr>cat_counts := (cat_counts p)[nat cat := cat_counts p ! nat cat + 1]\<rparr>;
            bucket = drop_bit (nat (bucket_shift p)) start
        in p\<lparr>hot := AList.update bucket
              ((case map_of (hot p) bucket of None \<Rightarrow> 0 | Some n \<Rightarrow> n) + 1) (hot p)\<rparr>)))"

definition Profiler_reset :: "profiler \<Rightarrow> profiler" where
  "Profiler_reset p = p\<lparr>cat_counts := replicate 8 0, hot := [], rep_elems := 0, insns := 0\<rparr>"

section \<open>Decoded instructions and the CPU\<close>

text \<open>
  The families of \<open>_emit\<close> with their \<open>args\<close>; a template and an addressing form name one
  generated function. The other constructors of \<open>handler\<close> are the \<open>_h_\<close> functions.
\<close>

datatype tmpl =
    Alu_rm_r int int | Alu_r_rm int int | Alu_rm_imm int int
  | Test_rm_r int | Test_rm_imm int | Mov_rm_r int | Mov_r_rm int | Mov_rm_imm int
  | Xchg int | Inc int | Dec int | Not_rm int | Neg int
  | Shift int int int | Setcc int | Movx int int int | Lea int
  | Call_rm | Jmp_rm | Push_rm | Jcc int

datatype handler =
    Gen tmpl int
  | H_nop | H_hlt | H_int | H_bad | H_lea_reg | H_push_r32 | H_pop_r32 | H_push_r16
  | H_pop_r16 | H_push_imm32 | H_push_imm16 | H_mov_r32_imm | H_mov_r16_imm | H_mov_r8_imm
  | H_call_rel | H_jmp | H_ret | H_ret_n | H_leave | H_enter | H_xchg_eax_r | H_cbw | H_cwd
  | H_pushf | H_popf | H_sahf | H_lahf | H_xlat | H_mov_al_moffs | H_mov_ax_moffs
  | H_mov_moffs_al | H_mov_moffs_ax | H_string | H_loop | H_clc | H_stc | H_cld | H_std
  | H_imul3 | H_imul2 | H_muldiv | H_pop_rm | H_push_rm16 | H_bt_r | H_bt_i | H_bsf | H_shd

record insn =
  e_fn :: handler
  e_len :: int
  e_size :: int
  e_reg :: int
  e_base :: "int option"
  e_index :: "int option"
  e_scale :: int
  e_disp :: int
  e_imm :: int
  e_mod :: int

record cpu =
  mem :: "insn addrspace"
  regs :: "int list"
  eip :: int
  flags :: int
  halted :: bool
  icount :: int
  insn_start :: int
  prof :: "profiler option"

type_synonym ('x, 'a) cm = "('x cpu_scheme, 'a) sm"

definition CPU_init :: "insn addrspace \<Rightarrow> cpu" where
  "CPU_init m = \<lparr>mem = m, regs = replicate 8 0, eip = 0, flags = EFLAGS_BASE, halted = False,
     icount = 0, insn_start = 0, prof = None\<rparr>"

text \<open>An access to \<open>cpu.mem\<close> from an operation of the CPU.\<close>

definition from_mem :: "(insn addrspace \<Rightarrow> exn + 'a) \<Rightarrow> ('x, 'a) cm" where
  "from_mem f c = (f (mem c), c)"

definition on_mem :: "(insn addrspace, 'a) sm \<Rightarrow> ('x, 'a) cm" where
  "on_mem m c = (case m (mem c) of (r, t) \<Rightarrow> (r, c\<lparr>mem := t\<rparr>))"

definition rg :: "int \<Rightarrow> 'x cpu_scheme \<Rightarrow> int" where
  "rg i c = regs c ! nat i"

definition set_rg :: "int \<Rightarrow> int \<Rightarrow> 'x cpu_scheme \<Rightarrow> 'x cpu_scheme" where
  "set_rg i v c = c\<lparr>regs := (regs c)[nat i := v]\<rparr>"

definition set_eip :: "int \<Rightarrow> ('x, unit) cm" where
  "set_eip v = modify (\<lambda>c. c\<lparr>eip := v\<rparr>)"

definition set_flags :: "int \<Rightarrow> ('x, unit) cm" where
  "set_flags f = modify (\<lambda>c. c\<lparr>flags := f\<rparr>)"

section \<open>Register views\<close>

definition get_reg8 :: "int \<Rightarrow> 'x cpu_scheme \<Rightarrow> int" where
  "get_reg8 idx c = (if idx < 4 then rg idx c AND 0xFF else drop_bit 8 (rg (idx - 4) c) AND 0xFF)"

definition set_reg8 :: "int \<Rightarrow> int \<Rightarrow> 'x cpu_scheme \<Rightarrow> 'x cpu_scheme" where
  "set_reg8 idx val c =
     (let val = val AND 0xFF in
      if idx < 4 then set_rg idx ((rg idx c AND 0xFFFFFF00) OR val) c
      else let r = idx - 4
           in set_rg r ((rg r c AND 0xFFFF00FF) OR push_bit 8 val) c)"

definition get_reg16 :: "int \<Rightarrow> 'x cpu_scheme \<Rightarrow> int" where
  "get_reg16 idx c = rg idx c AND 0xFFFF"

definition set_reg16 :: "int \<Rightarrow> int \<Rightarrow> 'x cpu_scheme \<Rightarrow> 'x cpu_scheme" where
  "set_reg16 idx val c = set_rg idx ((rg idx c AND 0xFFFF0000) OR (val AND 0xFFFF)) c"

definition reg_property_set :: "int \<Rightarrow> int \<Rightarrow> 'x cpu_scheme \<Rightarrow> 'x cpu_scheme" where
  "reg_property_set idx val c = set_rg idx (val AND MASK32) c"

definition set_eflags :: "int \<Rightarrow> 'x cpu_scheme \<Rightarrow> 'x cpu_scheme" where
  "set_eflags val c = c\<lparr>flags := (val AND 0x0CD5) OR EFLAGS_BASE\<rparr>"

definition read_reg :: "int \<Rightarrow> int \<Rightarrow> 'x cpu_scheme \<Rightarrow> int" where
  "read_reg r sz c =
     (if sz = 4 then rg r c else if sz = 1 then get_reg8 r c else rg r c AND 0xFFFF)"

definition write_reg :: "int \<Rightarrow> int \<Rightarrow> int \<Rightarrow> 'x cpu_scheme \<Rightarrow> 'x cpu_scheme" where
  "write_reg r sz val c =
     (if sz = 4 then set_rg r (val AND MASK32) c
      else if sz = 1 then set_reg8 r val c else set_reg16 r val c)"

record snap =
  s_regs :: "int list"
  s_eip :: int
  s_flags :: int

definition snapshot :: "'x cpu_scheme \<Rightarrow> snap" where
  "snapshot c = \<lparr>s_regs = regs c, s_eip = eip c, s_flags = flags c\<rparr>"

definition cpu_restore :: "snap \<Rightarrow> 'x cpu_scheme \<Rightarrow> 'x cpu_scheme" where
  "cpu_restore st c = c\<lparr>regs := s_regs st, eip := s_eip st, flags := s_flags st\<rparr>"

section \<open>Fetching, the stack, operands\<close>

definition fetch8 :: "('x, int) cm" where
  "fetch8 = bindE (gets eip) (\<lambda>a. bindE (from_mem (read_u8 a)) (\<lambda>v.
            thenE (set_eip (a + 1)) (ret v)))"

definition fetch16 :: "('x, int) cm" where
  "fetch16 = bindE (gets eip) (\<lambda>a. bindE (from_mem (read_u16 a)) (\<lambda>v.
             thenE (set_eip (a + 2)) (ret v)))"

definition fetch32 :: "('x, int) cm" where
  "fetch32 = bindE (gets eip) (\<lambda>a. bindE (from_mem (read_u32 a)) (\<lambda>v.
             thenE (set_eip (a + 4)) (ret v)))"

definition push32 :: "int \<Rightarrow> ('x, unit) cm" where
  "push32 val = bindE (gets (rg ESP)) (\<lambda>s.
     let sp = (s - 4) AND MASK32
     in thenE (on_mem (write_u32 sp val)) (modify (set_rg ESP sp)))"

definition pop32 :: "('x, int) cm" where
  "pop32 = bindE (gets (rg ESP)) (\<lambda>sp. bindE (from_mem (read_u32 sp)) (\<lambda>val.
     thenE (modify (set_rg ESP ((sp + 4) AND MASK32))) (ret val)))"

definition push16 :: "int \<Rightarrow> ('x, unit) cm" where
  "push16 val = bindE (gets (rg ESP)) (\<lambda>s.
     let sp = (s - 2) AND MASK32
     in thenE (on_mem (write_u16 sp val)) (modify (set_rg ESP sp)))"

definition pop16 :: "('x, int) cm" where
  "pop16 = bindE (gets (rg ESP)) (\<lambda>sp. bindE (from_mem (read_u16 sp)) (\<lambda>val.
     thenE (modify (set_rg ESP ((sp + 2) AND MASK32))) (ret val)))"

definition read_mem_sized :: "int \<Rightarrow> int \<Rightarrow> ('x, int) cm" where
  "read_mem_sized addr sz =
     from_mem (if sz = 1 then read_u8 addr else if sz = 2 then read_u16 addr else read_u32 addr)"

definition write_mem_sized :: "int \<Rightarrow> int \<Rightarrow> int \<Rightarrow> ('x, unit) cm" where
  "write_mem_sized addr sz val =
     on_mem (if sz = 1 then write_u8 addr val else if sz = 2 then write_u16 addr val
             else write_u32 addr val)"

definition read_rm :: "int \<Rightarrow> int \<Rightarrow> int \<Rightarrow> int \<Rightarrow> ('x, int) cm" where
  "read_rm md rm addr sz =
     (if md = 3 then gets (read_reg rm sz)
      else from_mem (if sz = 4 then read_u32 addr else if sz = 1 then read_u8 addr
                     else read_u16 addr))"

definition write_rm :: "int \<Rightarrow> int \<Rightarrow> int \<Rightarrow> int \<Rightarrow> int \<Rightarrow> ('x, unit) cm" where
  "write_rm md rm addr sz val =
     (if md = 3 then modify (write_reg rm sz val)
      else on_mem (if sz = 4 then write_u32 addr val else if sz = 1 then write_u8 addr val
                   else write_u16 addr val))"

text \<open>
  \<open>_ea_of\<close>; it returns \<open>None\<close> for the register form, where its result is never used as an
  address, and 0 stands for that.
\<close>

definition ea_of :: "insn \<Rightarrow> 'x cpu_scheme \<Rightarrow> int" where
  "ea_of e c =
     (if e_mod e = 3 then 0
      else (e_disp e + (case e_base e of None \<Rightarrow> 0 | Some b \<Rightarrow> rg b c)
            + (case e_index e of None \<Rightarrow> 0 | Some i \<Rightarrow> push_bit (nat (e_scale e)) (rg i c)))
           AND MASK32)"

section \<open>Flags\<close>

definition flag_if :: "bool \<Rightarrow> int \<Rightarrow> int \<Rightarrow> int" where
  "flag_if b m f = (if b then f OR m else f)"

definition logic_flags :: "int \<Rightarrow> int \<Rightarrow> int \<Rightarrow> int" where
  "logic_flags sz res fl =
     (let res = res AND MASK_of sz;
          f = EFLAGS_BASE OR (fl AND DF);
          f = flag_if (res = 0) ZF f;
          f = flag_if (res AND SIGN_of sz \<noteq> 0) SF f
      in f OR PARITY (res AND 0xFF))"

definition add_flags :: "int \<Rightarrow> int \<Rightarrow> int \<Rightarrow> int \<Rightarrow> int \<Rightarrow> int \<Rightarrow> int" where
  "add_flags a b res sz carry_in fl =
     (let mask = MASK_of sz; sign = SIGN_of sz; t = res AND mask;
          f = EFLAGS_BASE OR (fl AND DF);
          f = flag_if (res > mask) CF f;
          f = flag_if (t = 0) ZF f;
          f = flag_if (t AND sign \<noteq> 0) SF f;
          f = flag_if ((NOT (a XOR b)) AND (a XOR t) AND sign \<noteq> 0) OF_FLAG f;
          f = flag_if ((a AND 0xF) + (b AND 0xF) + carry_in > 0xF) AF f
      in f OR PARITY (t AND 0xFF))"

definition sub_flags :: "int \<Rightarrow> int \<Rightarrow> int \<Rightarrow> int \<Rightarrow> int \<Rightarrow> int \<Rightarrow> int" where
  "sub_flags a b res sz borrow_in fl =
     (let mask = MASK_of sz; sign = SIGN_of sz; t = res AND mask;
          f = EFLAGS_BASE OR (fl AND DF);
          f = flag_if (res < 0) CF f;
          f = flag_if (t = 0) ZF f;
          f = flag_if (t AND sign \<noteq> 0) SF f;
          f = flag_if ((a XOR b) AND (a XOR t) AND sign \<noteq> 0) OF_FLAG f;
          f = flag_if ((a AND 0xF) - (b AND 0xF) - borrow_in < 0) AF f
      in f OR PARITY (t AND 0xFF))"

definition sf_ne_of :: "int \<Rightarrow> bool" where
  "sf_ne_of f \<longleftrightarrow> ((drop_bit 7 f) XOR (drop_bit 11 f)) AND 1 \<noteq> 0"

definition COND :: "int \<Rightarrow> int \<Rightarrow> bool" where
  "COND cc f =
     (if cc = 0 then f AND OF_FLAG \<noteq> 0 else if cc = 1 then \<not> f AND OF_FLAG \<noteq> 0
      else if cc = 2 then f AND CF \<noteq> 0 else if cc = 3 then \<not> f AND CF \<noteq> 0
      else if cc = 4 then f AND ZF \<noteq> 0 else if cc = 5 then \<not> f AND ZF \<noteq> 0
      else if cc = 6 then f AND (CF OR ZF) \<noteq> 0 else if cc = 7 then \<not> f AND (CF OR ZF) \<noteq> 0
      else if cc = 8 then f AND SF \<noteq> 0 else if cc = 9 then \<not> f AND SF \<noteq> 0
      else if cc = 10 then f AND PF \<noteq> 0 else if cc = 11 then \<not> f AND PF \<noteq> 0
      else if cc = 12 then sf_ne_of f else if cc = 13 then \<not> sf_ne_of f
      else if cc = 14 then f AND ZF \<noteq> 0 \<or> sf_ne_of f
      else \<not> f AND ZF \<noteq> 0 \<and> \<not> sf_ne_of f)"

text \<open>\<open>_bad\<close>: reading the bytes of the message may itself fault.\<close>

definition bad :: "int \<Rightarrow> int \<Rightarrow> ('x, unit) cm" where
  "bad op start =
     bindE (gets eip) (\<lambda>a.
     bindE (from_mem (mem_read start (max (a - start) 1 + 3))) (\<lambda>raw.
     raise (CpuError op start raw)))"

section \<open>Multiplication and division\<close>

definition mul_flags :: "bool \<Rightarrow> int \<Rightarrow> int \<Rightarrow> int \<Rightarrow> int" where
  "mul_flags over res sz fl =
     (let f = EFLAGS_BASE OR (fl AND DF);
          f = flag_if over (CF OR OF_FLAG) f;
          lo = res AND MASK_of sz;
          f = flag_if (lo = 0) ZF f;
          f = flag_if (lo AND SIGN_of sz \<noteq> 0) SF f
      in f OR PARITY (lo AND 0xFF))"

definition imul_flags :: "int \<Rightarrow> int \<Rightarrow> int \<Rightarrow> int" where
  "imul_flags res sz fl =
     (let lim = (if sz = 2 then 0x7FFF else 0x7FFFFFFF)
      in mul_flags (\<not> (- lim - 1 \<le> res \<and> res \<le> lim)) res sz fl)"

definition mul_unsigned :: "int \<Rightarrow> int \<Rightarrow> 'x cpu_scheme \<Rightarrow> 'x cpu_scheme" where
  "mul_unsigned src sz c =
     (if sz = 1 then
        let res = get_reg8 0 c * src; c = set_reg16 0 res c; hi = drop_bit 8 res
        in c\<lparr>flags := mul_flags (hi \<noteq> 0) res sz (flags c)\<rparr>
      else if sz = 2 then
        let res = get_reg16 0 c * src;
            c = set_reg16 0 (res AND 0xFFFF) c;
            c = set_reg16 EDX (drop_bit 16 res) c; hi = drop_bit 16 res
        in c\<lparr>flags := mul_flags (hi \<noteq> 0) res sz (flags c)\<rparr>
      else
        let res = (rg EAX c AND MASK32) * src;
            c = set_rg EAX (res AND MASK32) c;
            c = set_rg EDX (drop_bit 32 res AND MASK32) c; hi = drop_bit 32 res
        in c\<lparr>flags := mul_flags (hi \<noteq> 0) res sz (flags c)\<rparr>)"

definition mul_signed :: "int \<Rightarrow> int \<Rightarrow> 'x cpu_scheme \<Rightarrow> 'x cpu_scheme" where
  "mul_signed src sz c =
     (if sz = 1 then
        let res = sx8 (get_reg8 0 c) * sx8 src; c = set_reg16 0 (res AND 0xFFFF) c;
            fits = (-128 \<le> res \<and> res \<le> 127)
        in c\<lparr>flags := mul_flags (\<not> fits) res sz (flags c)\<rparr>
      else if sz = 2 then
        let res = sx16 (get_reg16 0 c) * sx16 src;
            c = set_reg16 0 (res AND 0xFFFF) c;
            c = set_reg16 EDX (drop_bit 16 res AND 0xFFFF) c;
            fits = (- 0x8000 \<le> res \<and> res \<le> 0x7FFF)
        in c\<lparr>flags := mul_flags (\<not> fits) res sz (flags c)\<rparr>
      else
        let res = sx32 (rg EAX c) * sx32 src;
            c = set_rg EAX (res AND MASK32) c;
            c = set_rg EDX (drop_bit 32 res AND MASK32) c;
            fits = (- 0x80000000 \<le> res \<and> res \<le> 0x7FFFFFFF)
        in c\<lparr>flags := mul_flags (\<not> fits) res sz (flags c)\<rparr>)"

definition div_unsigned :: "int \<Rightarrow> int \<Rightarrow> ('x, unit) cm" where
  "div_unsigned src sz c =
     (if src = 0 then (Inl DivideError, c)
      else if sz = 1 then
        let num = get_reg16 0 c; q = num div src; r = num mod src
        in if q > 0xFF then (Inl DivideError, c)
           else (Inr (), set_reg8 4 r (set_reg8 0 q c))
      else if sz = 2 then
        let num = push_bit 16 (get_reg16 EDX c) OR get_reg16 0 c; q = num div src; r = num mod src
        in if q > 0xFFFF then (Inl DivideError, c)
           else (Inr (), set_reg16 EDX r (set_reg16 0 q c))
      else
        let num = push_bit 32 (rg EDX c AND MASK32) OR (rg EAX c AND MASK32);
            q = num div src; r = num mod src
        in if q > MASK32 then (Inl DivideError, c)
           else (Inr (), set_rg EDX r (set_rg EAX q c)))"

definition trunc_divmod :: "int \<Rightarrow> int \<Rightarrow> int \<times> int" where
  "trunc_divmod a b =
     (let q = abs a div abs b; q = (if (a < 0) \<noteq> (b < 0) then - q else q) in (q, a - q * b))"

definition div_signed :: "int \<Rightarrow> int \<Rightarrow> ('x, unit) cm" where
  "div_signed src sz c =
     (if src = 0 then (Inl DivideError, c)
      else if sz = 1 then
        let num = sx16 (get_reg16 0 c); d = sx8 src; (q, r) = trunc_divmod num d
        in if \<not> (-128 \<le> q \<and> q \<le> 127) then (Inl DivideError, c)
           else (Inr (), set_reg8 4 (r AND 0xFF) (set_reg8 0 (q AND 0xFF) c))
      else if sz = 2 then
        let num = sx32 (push_bit 16 (get_reg16 EDX c) OR get_reg16 0 c); d = sx16 src;
            (q, r) = trunc_divmod num d
        in if \<not> (- 0x8000 \<le> q \<and> q \<le> 0x7FFF) then (Inl DivideError, c)
           else (Inr (), set_reg16 EDX (r AND 0xFFFF) (set_reg16 0 (q AND 0xFFFF) c))
      else
        let raw = push_bit 32 (rg EDX c AND MASK32) OR (rg EAX c AND MASK32);
            num = (if raw \<ge> 2 ^ 63 then raw - 2 ^ 64 else raw); d = sx32 src;
            (q, r) = trunc_divmod num d
        in if \<not> (- 0x80000000 \<le> q \<and> q \<le> 0x7FFFFFFF) then (Inl DivideError, c)
           else (Inr (), set_rg EDX (r AND MASK32) (set_rg EAX (q AND MASK32) c)))"

section \<open>String instructions\<close>

text \<open>One element of a string instruction; \<open>False\<close> when the operation code is not one.\<close>

definition string_elem :: "int \<Rightarrow> int \<Rightarrow> int \<Rightarrow> ('x, unit) cm" where
  "string_elem op sz delta =
     (if op = 0xA4 \<or> op = 0xA5 then
        bindE (gets (rg ESI)) (\<lambda>si. bindE (read_mem_sized si sz) (\<lambda>v.
        bindE (gets (rg EDI)) (\<lambda>di. thenE (write_mem_sized di sz v)
        (thenE (modify (\<lambda>c. set_rg ESI ((rg ESI c + delta) AND MASK32) c))
               (modify (\<lambda>c. set_rg EDI ((rg EDI c + delta) AND MASK32) c))))))
      else if op = 0xAA \<or> op = 0xAB then
        bindE (gets (rg EDI)) (\<lambda>di. bindE (gets (read_reg 0 sz)) (\<lambda>v.
        thenE (write_mem_sized di sz v)
              (modify (\<lambda>c. set_rg EDI ((rg EDI c + delta) AND MASK32) c))))
      else if op = 0xAC \<or> op = 0xAD then
        bindE (gets (rg ESI)) (\<lambda>si. bindE (read_mem_sized si sz) (\<lambda>v.
        thenE (modify (write_reg 0 sz v))
              (modify (\<lambda>c. set_rg ESI ((rg ESI c + delta) AND MASK32) c))))
      else if op = 0xA6 \<or> op = 0xA7 then
        bindE (gets (rg ESI)) (\<lambda>si. bindE (read_mem_sized si sz) (\<lambda>a.
        bindE (gets (rg EDI)) (\<lambda>di. bindE (read_mem_sized di sz) (\<lambda>b.
        thenE (modify (\<lambda>c. c\<lparr>flags := sub_flags a b (a - b) sz 0 (flags c)\<rparr>))
        (thenE (modify (\<lambda>c. set_rg ESI ((rg ESI c + delta) AND MASK32) c))
               (modify (\<lambda>c. set_rg EDI ((rg EDI c + delta) AND MASK32) c)))))))
      else if op = 0xAE \<or> op = 0xAF then
        bindE (gets (read_reg 0 sz)) (\<lambda>a.
        bindE (gets (rg EDI)) (\<lambda>di. bindE (read_mem_sized di sz) (\<lambda>b.
        thenE (modify (\<lambda>c. c\<lparr>flags := sub_flags a b (a - b) sz 0 (flags c)\<rparr>))
              (modify (\<lambda>c. set_rg EDI ((rg EDI c + delta) AND MASK32) c)))))
      else bindE (gets insn_start) (bad op))"

text \<open>\<open>while cnt\<close>: the count is the recursion.\<close>

fun string_loop :: "int \<Rightarrow> int \<Rightarrow> int \<Rightarrow> int \<Rightarrow> nat \<Rightarrow> ('x, unit) cm" where
  "string_loop op sz delta rep 0 = ret ()"
| "string_loop op sz delta rep (Suc n) =
     thenE (string_elem op sz delta)
     (if rep \<noteq> 0 then
        thenE (modify (set_rg ECX (int n)))
        (if op \<in> {0xA6, 0xA7, 0xAE, 0xAF} then
           bindE (gets (\<lambda>c. flags c AND ZF \<noteq> 0)) (\<lambda>zf.
           if rep = 0xF3 \<and> \<not> zf \<or> rep = 0xF2 \<and> zf then ret ()
           else string_loop op sz delta rep n)
         else string_loop op sz delta rep n)
      else string_loop op sz delta rep n)"

definition le_bytes :: "int \<Rightarrow> int \<Rightarrow> bytes" where
  "le_bytes sz v = take (nat sz) (pack32 v)"

definition string_op_impl :: "int \<Rightarrow> int \<Rightarrow> int \<Rightarrow> ('x, unit) cm" where
  "string_op_impl op opsize rep = bindE (gets (\<lambda>c. c)) (\<lambda>c.
     let sz = (if op \<in> {0xA4, 0xA6, 0xAA, 0xAC, 0xAE} then 1 else opsize);
         back = (flags c AND DF \<noteq> 0);
         delta = (if back then - sz else sz);
         cnt = (if rep \<noteq> 0 then rg ECX c AND MASK32 else 1);
         n = cnt * sz; src = rg ESI c AND MASK32; dst = rg EDI c AND MASK32;
         chunk = concat (replicate (nat cnt) (le_bytes sz (read_reg 0 sz c)))
     in if rep \<noteq> 0 \<and> cnt = 0 then ret ()
        else if \<not> back \<and> rep \<noteq> 0 \<and> op \<in> {0xA4, 0xA5} \<and> cnt > 1 \<and> abs (dst - src) \<ge> n then
          bindE (from_mem (mem_read src n)) (\<lambda>data.
          thenE (on_mem (mem_write dst data))
          (modify (\<lambda>c. set_rg ECX 0 (set_rg EDI ((dst + n) AND MASK32)
                          (set_rg ESI ((src + n) AND MASK32) c)))))
        else if \<not> back \<and> rep \<noteq> 0 \<and> op \<in> {0xAA, 0xAB} \<and> cnt > 1 then
          thenE (on_mem (mem_write dst chunk))
          (modify (\<lambda>c. set_rg ECX 0 (set_rg EDI ((dst + int (length chunk)) AND MASK32) c)))
        else string_loop op sz delta rep (nat cnt))"

definition string_op :: "int \<Rightarrow> int \<Rightarrow> int \<Rightarrow> ('x, unit) cm" where
  "string_op op opsize rep =
     bindE (gets prof) (\<lambda>p. case p of
       None \<Rightarrow> string_op_impl op opsize rep
     | Some _ \<Rightarrow>
         bindE (gets (\<lambda>c. rg ECX c AND MASK32)) (\<lambda>ecx0.
         thenE (string_op_impl op opsize rep)
         (modify (\<lambda>c. c\<lparr>prof := map_option (\<lambda>p. p\<lparr>rep_elems := rep_elems p +
             (if rep \<noteq> 0 then ecx0 - (rg ECX c AND MASK32) else 1)\<rparr>) (prof c)\<rparr>))))"

end
