(* ===== verification/Cpu_Exec.thy ===== *)
theory Cpu_Exec
  imports Cpu_State
begin

text \<open>
  \<open>src/cpu86.py\<close>, second part: the handlers \<open>fn(cpu, e)\<close>. The functions that \<open>_generate\<close>
  compiles from string templates are instances of \<open>exec_tmpl\<close>: one definition for each
  template body, with the operand access of the addressing form as its parameter, in the
  order of the generated statements. The hand-written \<open>_h_\<close> functions follow, and \<open>exec\<close>
  is the call \<open>e[0](cpu, e)\<close>.
\<close>

section \<open>Operands of the templates\<close>

datatype operand = OReg int | OMem int

definition rd_reg :: "int \<Rightarrow> int \<Rightarrow> 'x cpu_scheme \<Rightarrow> int" where
  "rd_reg sz r c =
     (if sz = 4 then rg r c else if sz = 2 then rg r c AND 0xFFFF
      else if r < 4 then rg r c AND 0xFF else drop_bit 8 (rg (r - 4) c) AND 0xFF)"

definition wr_reg :: "int \<Rightarrow> int \<Rightarrow> int \<Rightarrow> bool \<Rightarrow> 'x cpu_scheme \<Rightarrow> 'x cpu_scheme" where
  "wr_reg sz r v masked c =
     (if sz = 4 then set_rg r (if masked then v else v AND MASK32) c
      else if sz = 2 then set_rg r ((rg r c AND 0xFFFF0000) OR (v AND 0xFFFF)) c
      else if r < 4 then set_rg r ((rg r c AND 0xFFFFFF00) OR (v AND 0xFF)) c
      else set_rg (r - 4) ((rg (r - 4) c AND 0xFFFF00FF) OR push_bit 8 (v AND 0xFF)) c)"

definition ea_expr :: "int \<Rightarrow> insn \<Rightarrow> 'x cpu_scheme \<Rightarrow> int" where
  "ea_expr form e c =
     (if form = 1 then e_disp e
      else if form = 2 then (rg (the (e_base e)) c + e_disp e) AND MASK32
      else (e_disp e + push_bit (nat (e_scale e)) (rg (the (e_index e)) c)
            + (case e_base e of None \<Rightarrow> 0 | Some b \<Rightarrow> rg b c)) AND MASK32)"

definition setup_rm :: "int \<Rightarrow> insn \<Rightarrow> 'x cpu_scheme \<Rightarrow> operand" where
  "setup_rm form e c = (if form = 0 then OReg (the (e_base e)) else OMem (ea_expr form e c))"

definition rm_rd :: "operand \<Rightarrow> int \<Rightarrow> ('x, int) cm" where
  "rm_rd loc sz = (case loc of
     OReg d \<Rightarrow> gets (rd_reg sz d)
   | OMem addr \<Rightarrow> from_mem (if sz = 4 then read_u32 addr else if sz = 2 then read_u16 addr
                           else read_u8 addr))"

definition rm_wr :: "operand \<Rightarrow> int \<Rightarrow> int \<Rightarrow> bool \<Rightarrow> ('x, unit) cm" where
  "rm_wr loc sz v masked = (case loc of
     OReg d \<Rightarrow> modify (wr_reg sz d v masked)
   | OMem addr \<Rightarrow> on_mem (if sz = 4 then write_u32 addr v else if sz = 2 then write_u16 addr v
                         else write_u8 addr v))"

section \<open>Arithmetic bodies: results and flags\<close>

definition f_logic :: "int \<Rightarrow> int \<Rightarrow> int \<Rightarrow> int" where
  "f_logic sz res fl =
     (let f = EFLAGS_BASE OR (fl AND DF);
          f = flag_if (res = 0) ZF f;
          f = flag_if (res AND SIGN_of sz \<noteq> 0) SF f
      in f OR PARITY (res AND 0xFF))"

definition f_add :: "int \<Rightarrow> int \<Rightarrow> int \<Rightarrow> int \<Rightarrow> int \<Rightarrow> int \<Rightarrow> int \<times> int" where
  "f_add sz a b c res fl =
     (let t = res AND MASK_of sz;
          f = EFLAGS_BASE OR (fl AND DF);
          f = flag_if (res > MASK_of sz) CF f;
          f = flag_if (t = 0) ZF f;
          f = flag_if (t AND SIGN_of sz \<noteq> 0) SF f;
          f = flag_if ((NOT (a XOR b)) AND (a XOR t) AND SIGN_of sz \<noteq> 0) OF_FLAG f;
          f = flag_if ((a AND 0xF) + (b AND 0xF) + c > 0xF) AF f
      in (t, f OR PARITY (t AND 0xFF)))"

definition f_sub :: "int \<Rightarrow> int \<Rightarrow> int \<Rightarrow> int \<Rightarrow> int \<Rightarrow> int \<Rightarrow> int \<times> int" where
  "f_sub sz a b c res fl =
     (let t = res AND MASK_of sz;
          f = EFLAGS_BASE OR (fl AND DF);
          f = flag_if (res < 0) CF f;
          f = flag_if (t = 0) ZF f;
          f = flag_if (t AND SIGN_of sz \<noteq> 0) SF f;
          f = flag_if ((a XOR b) AND (a XOR t) AND SIGN_of sz \<noteq> 0) OF_FLAG f;
          f = flag_if ((a AND 0xF) - (b AND 0xF) - c < 0) AF f
      in (t, f OR PARITY (t AND 0xFF)))"

definition alu_body :: "int \<Rightarrow> int \<Rightarrow> int \<Rightarrow> int \<Rightarrow> int \<Rightarrow> int \<times> int" where
  "alu_body op sz a b fl =
     (if op = 0 then f_add sz a b 0 (a + b) fl
      else if op = 2 then let c = fl AND CF in f_add sz a b c (a + b + c) fl
      else if op = 5 \<or> op = 7 then f_sub sz a b 0 (a - b) fl
      else if op = 3 then let c = fl AND CF in f_sub sz a b c (a - b - c) fl
      else let res = (if op = 1 then a OR b else if op = 4 then a AND b else a XOR b)
           in (res, f_logic sz res fl))"

definition inc_body :: "int \<Rightarrow> int \<Rightarrow> int \<Rightarrow> int \<times> int" where
  "inc_body sz a fl =
     (let res = (a + 1) AND MASK_of sz;
          f = EFLAGS_BASE OR (fl AND (DF OR CF));
          f = flag_if (res = 0) ZF f;
          f = flag_if (res AND SIGN_of sz \<noteq> 0) SF f;
          f = flag_if ((NOT (a XOR 1)) AND (a XOR res) AND SIGN_of sz \<noteq> 0) OF_FLAG f;
          f = flag_if ((a AND 0xF) + 1 > 0xF) AF f
      in (res, f OR PARITY (res AND 0xFF)))"

definition dec_body :: "int \<Rightarrow> int \<Rightarrow> int \<Rightarrow> int \<times> int" where
  "dec_body sz a fl =
     (let res = (a - 1) AND MASK_of sz;
          f = EFLAGS_BASE OR (fl AND (DF OR CF));
          f = flag_if (res = 0) ZF f;
          f = flag_if (res AND SIGN_of sz \<noteq> 0) SF f;
          f = flag_if ((a XOR 1) AND (a XOR res) AND SIGN_of sz \<noteq> 0) OF_FLAG f;
          f = flag_if ((a AND 0xF) - 1 < 0) AF f
      in (res, f OR PARITY (res AND 0xFF)))"

text \<open>\<open>(res, cf, of)\<close> of the shift family; \<open>bits\<close> is \<open>BITS\<close>.\<close>

definition shift_body :: "int \<Rightarrow> int \<Rightarrow> int \<Rightarrow> int \<Rightarrow> int \<times> bool \<times> bool" where
  "shift_body kind sz a cnt =
     (let bits = sz * 8; mask = MASK_of sz; sign = SIGN_of sz in
      if kind = 4 \<or> kind = 6 then
        let res = push_bit (nat cnt) a; cf = drop_bit (nat bits) res AND 1;
            res = res AND mask
        in (res, cf \<noteq> 0, (res AND sign \<noteq> 0) \<noteq> (cf \<noteq> 0))
      else if kind = 5 then
        let cf = (if cnt \<le> bits then drop_bit (nat (cnt - 1)) a AND 1 else 0)
        in (drop_bit (nat cnt) a AND mask, cf \<noteq> 0, cnt = 1 \<and> a AND sign \<noteq> 0)
      else if kind = 7 then
        let sv = (if a AND sign \<noteq> 0 then a - (mask + 1) else a)
        in (drop_bit (nat cnt) sv AND mask, drop_bit (nat (cnt - 1)) sv AND 1 \<noteq> 0, False)
      else if kind = 0 then
        let c = cnt mod bits;
            res = (if c \<noteq> 0 then (push_bit (nat c) a OR drop_bit (nat (bits - c)) a) AND mask else a);
            cf = (res AND 1 \<noteq> 0)
        in (res, cf, (res AND sign \<noteq> 0) \<noteq> cf)
      else
        let c = cnt mod bits;
            res = (if c \<noteq> 0 then (drop_bit (nat c) a OR push_bit (nat (bits - c)) a) AND mask else a)
        in (res, res AND sign \<noteq> 0, (res AND sign \<noteq> 0) \<noteq> (res AND drop_bit 1 sign \<noteq> 0)))"

definition shift_flags :: "int \<Rightarrow> int \<Rightarrow> int \<Rightarrow> int \<Rightarrow> bool \<Rightarrow> bool \<Rightarrow> int \<Rightarrow> int" where
  "shift_flags kind sz res cnt cf ov fl =
     (let f = flag_if cf CF (EFLAGS_BASE OR (fl AND DF)) in
      if kind = 0 \<or> kind = 1 then
        flag_if ov OF_FLAG f OR (fl AND (ZF OR SF OR PF OR AF))
      else
        let f = flag_if (res = 0) ZF f;
            f = flag_if (res AND SIGN_of sz \<noteq> 0) SF f;
            f = flag_if (ov \<and> cnt = 1) OF_FLAG f
        in f OR PARITY (res AND 0xFF))"

section \<open>Template bodies\<close>

definition t_alu_rm_r :: "int \<Rightarrow> int \<Rightarrow> int \<Rightarrow> insn \<Rightarrow> ('x, unit) cm" where
  "t_alu_rm_r op sz form e =
     bindE (gets (setup_rm form e)) (\<lambda>loc. bindE (rm_rd loc sz) (\<lambda>a.
     bindE (gets (rd_reg sz (e_reg e))) (\<lambda>b. bindE (gets (alu_body op sz a b \<circ> flags)) (\<lambda>(res, fl).
     thenE (set_flags fl) (if op = 7 then ret () else rm_wr loc sz res True)))))"

definition t_alu_r_rm :: "int \<Rightarrow> int \<Rightarrow> int \<Rightarrow> insn \<Rightarrow> ('x, unit) cm" where
  "t_alu_r_rm op sz form e =
     bindE (gets (setup_rm form e)) (\<lambda>loc. bindE (gets (rd_reg sz (e_reg e))) (\<lambda>a.
     bindE (rm_rd loc sz) (\<lambda>b. bindE (gets (alu_body op sz a b \<circ> flags)) (\<lambda>(res, fl).
     thenE (set_flags fl)
       (if op = 7 then ret () else modify (wr_reg sz (e_reg e) res True))))))"

definition t_alu_rm_imm :: "int \<Rightarrow> int \<Rightarrow> int \<Rightarrow> insn \<Rightarrow> ('x, unit) cm" where
  "t_alu_rm_imm op sz form e =
     bindE (gets (setup_rm form e)) (\<lambda>loc. bindE (rm_rd loc sz) (\<lambda>a.
     bindE (gets (alu_body op sz a (e_imm e) \<circ> flags)) (\<lambda>(res, fl).
     thenE (set_flags fl) (if op = 7 then ret () else rm_wr loc sz res True))))"

definition t_test :: "int \<Rightarrow> int \<Rightarrow> bool \<Rightarrow> insn \<Rightarrow> ('x, unit) cm" where
  "t_test sz form imm e =
     bindE (gets (setup_rm form e)) (\<lambda>loc. bindE (rm_rd loc sz) (\<lambda>a.
     bindE (gets (\<lambda>c. a AND (if imm then e_imm e else rd_reg sz (e_reg e) c))) (\<lambda>res.
     modify (\<lambda>c. c\<lparr>flags := f_logic sz res (flags c)\<rparr>))))"

definition t_xchg :: "int \<Rightarrow> int \<Rightarrow> insn \<Rightarrow> ('x, unit) cm" where
  "t_xchg sz form e =
     bindE (gets (setup_rm form e)) (\<lambda>loc. bindE (rm_rd loc sz) (\<lambda>a.
     bindE (gets (rd_reg sz (e_reg e))) (\<lambda>b.
     thenE (rm_wr loc sz b True) (modify (wr_reg sz (e_reg e) a True)))))"

text \<open>\<open>inc\<close>, \<open>dec\<close> and \<open>neg\<close>: a body of the value and the flags, then the write-back.\<close>

definition t_unary :: "(int \<Rightarrow> int \<Rightarrow> int \<times> int) \<Rightarrow> int \<Rightarrow> int \<Rightarrow> insn \<Rightarrow> ('x, unit) cm" where
  "t_unary body sz form e =
     bindE (gets (setup_rm form e)) (\<lambda>loc. bindE (rm_rd loc sz) (\<lambda>a.
     bindE (gets (body a \<circ> flags)) (\<lambda>(res, fl).
     thenE (set_flags fl) (rm_wr loc sz res True))))"

definition t_shift :: "int \<Rightarrow> int \<Rightarrow> int \<Rightarrow> int \<Rightarrow> insn \<Rightarrow> ('x, unit) cm" where
  "t_shift kind sz src form e =
     bindE (gets (setup_rm form e)) (\<lambda>loc.
     bindE (gets (\<lambda>c. if src = 0 then e_imm e else rg ECX c AND 31)) (\<lambda>cnt.
     if cnt = 0 then ret ()
     else bindE (rm_rd loc sz) (\<lambda>a.
       let (res, cf, ov) = shift_body kind sz a cnt
       in thenE (rm_wr loc sz res True)
            (modify (\<lambda>c. c\<lparr>flags := shift_flags kind sz res cnt cf ov (flags c)\<rparr>)))))"

definition t_movx :: "int \<Rightarrow> int \<Rightarrow> int \<Rightarrow> int \<Rightarrow> insn \<Rightarrow> ('x, unit) cm" where
  "t_movx sx sz dst form e =
     bindE (gets (setup_rm form e)) (\<lambda>loc. bindE (rm_rd loc sz) (\<lambda>v.
     let v = (if sx \<noteq> 0 \<and> v AND SIGN_of sz \<noteq> 0 then v - (MASK_of sz + 1) else v)
     in modify (wr_reg dst (e_reg e) v False)))"

definition t_call_rm :: "int \<Rightarrow> insn \<Rightarrow> ('x, unit) cm" where
  "t_call_rm form e =
     bindE (gets (setup_rm form e)) (\<lambda>loc. bindE (rm_rd loc 4) (\<lambda>target.
     bindE (gets (\<lambda>c. (rg ESP c - 4) AND MASK32)) (\<lambda>sp. bindE (gets eip) (\<lambda>a.
     thenE (on_mem (write_u32 sp a)) (thenE (modify (set_rg ESP sp)) (set_eip target))))))"

definition t_push_rm :: "int \<Rightarrow> insn \<Rightarrow> ('x, unit) cm" where
  "t_push_rm form e =
     bindE (gets (setup_rm form e)) (\<lambda>loc. bindE (rm_rd loc 4) (\<lambda>v.
     bindE (gets (\<lambda>c. (rg ESP c - 4) AND MASK32)) (\<lambda>sp.
     thenE (on_mem (write_u32 sp v)) (modify (set_rg ESP sp)))))"

text \<open>\<open>_emit\<close>: the generated function of a template in an addressing form.\<close>

definition exec_tmpl :: "tmpl \<Rightarrow> int \<Rightarrow> insn \<Rightarrow> ('x, unit) cm" where
  "exec_tmpl t form e = (case t of
     Jcc cc \<Rightarrow> bindE (gets flags) (\<lambda>f. if COND cc f then set_eip (e_imm e) else ret ())
   | Lea sz \<Rightarrow> bindE (gets (ea_expr form e)) (\<lambda>a. modify (wr_reg sz (e_reg e) a (sz = 4)))
   | Call_rm \<Rightarrow> t_call_rm form e
   | Jmp_rm \<Rightarrow> bindE (gets (setup_rm form e)) (\<lambda>loc. bindE (rm_rd loc 4) set_eip)
   | Push_rm \<Rightarrow> t_push_rm form e
   | Setcc cc \<Rightarrow> bindE (gets (setup_rm form e)) (\<lambda>loc. bindE (gets flags) (\<lambda>f.
       rm_wr loc 1 (if COND cc f then 1 else 0) True))
   | Movx sx sz dst \<Rightarrow> t_movx sx sz dst form e
   | Shift kind sz src \<Rightarrow> t_shift kind sz src form e
   | Alu_rm_r op sz \<Rightarrow> t_alu_rm_r op sz form e
   | Alu_r_rm op sz \<Rightarrow> t_alu_r_rm op sz form e
   | Alu_rm_imm op sz \<Rightarrow> t_alu_rm_imm op sz form e
   | Test_rm_r sz \<Rightarrow> t_test sz form False e
   | Test_rm_imm sz \<Rightarrow> t_test sz form True e
   | Mov_rm_r sz \<Rightarrow> bindE (gets (setup_rm form e)) (\<lambda>loc. bindE (gets (rd_reg sz (e_reg e))) (\<lambda>v.
       rm_wr loc sz v True))
   | Mov_r_rm sz \<Rightarrow> bindE (gets (setup_rm form e)) (\<lambda>loc. bindE (rm_rd loc sz) (\<lambda>v.
       modify (wr_reg sz (e_reg e) v True)))
   | Mov_rm_imm sz \<Rightarrow> bindE (gets (setup_rm form e)) (\<lambda>loc. rm_wr loc sz (e_imm e) True)
   | Xchg sz \<Rightarrow> t_xchg sz form e
   | Inc sz \<Rightarrow> t_unary (inc_body sz) sz form e
   | Dec sz \<Rightarrow> t_unary (dec_body sz) sz form e
   | Not_rm sz \<Rightarrow> bindE (gets (setup_rm form e)) (\<lambda>loc. bindE (rm_rd loc sz) (\<lambda>a.
       rm_wr loc sz (NOT a AND MASK_of sz) True))
   | Neg sz \<Rightarrow> t_unary (\<lambda>b. f_sub sz 0 b 0 (0 - b)) sz form e)"

section \<open>Hand-written handlers\<close>

type_synonym 'x on_int = "(int \<Rightarrow> ('x, unit) cm) option"

definition h_hlt :: "('x, unit) cm" where
  "h_hlt = thenE (modify (\<lambda>c. c\<lparr>halted := True\<rparr>)) (raise Halt)"

definition h_int :: "'x on_int \<Rightarrow> insn \<Rightarrow> ('x, unit) cm" where
  "h_int oi e = (case oi of None \<Rightarrow> h_hlt | Some f \<Rightarrow> f (e_imm e))"

definition h_bad :: "insn \<Rightarrow> ('x, unit) cm" where
  "h_bad e = bindE (gets eip) (\<lambda>a. bad (e_reg e) (a - e_len e))"

definition h_lea_reg :: "insn \<Rightarrow> ('x, unit) cm" where
  "h_lea_reg e = bindE (gets eip) (\<lambda>a. bad 0x8D (a - e_len e))"

definition h_push_r32 :: "insn \<Rightarrow> ('x, unit) cm" where
  "h_push_r32 e =
     bindE (gets (\<lambda>c. (rg ESP c - 4) AND MASK32)) (\<lambda>sp. bindE (gets (rg (e_reg e))) (\<lambda>v.
     thenE (on_mem (write_u32 sp v)) (modify (set_rg ESP sp))))"

definition h_pop_r32 :: "insn \<Rightarrow> ('x, unit) cm" where
  "h_pop_r32 e =
     bindE (gets (rg ESP)) (\<lambda>sp. bindE (from_mem (read_u32 sp)) (\<lambda>v.
     thenE (modify (set_rg ESP ((sp + 4) AND MASK32))) (modify (set_rg (e_reg e) v))))"

definition h_push_r16 :: "insn \<Rightarrow> ('x, unit) cm" where
  "h_push_r16 e = bindE (gets (get_reg16 (e_reg e))) push16"

definition h_pop_r16 :: "insn \<Rightarrow> ('x, unit) cm" where
  "h_pop_r16 e = bindE pop16 (\<lambda>v. modify (set_reg16 (e_reg e) v))"

definition h_push_imm32 :: "insn \<Rightarrow> ('x, unit) cm" where
  "h_push_imm32 e =
     bindE (gets (\<lambda>c. (rg ESP c - 4) AND MASK32)) (\<lambda>sp.
     thenE (on_mem (write_u32 sp (e_imm e))) (modify (set_rg ESP sp)))"

definition h_call_rel :: "insn \<Rightarrow> ('x, unit) cm" where
  "h_call_rel e =
     bindE (gets (\<lambda>c. (rg ESP c - 4) AND MASK32)) (\<lambda>sp. bindE (gets eip) (\<lambda>a.
     thenE (on_mem (write_u32 sp a)) (thenE (modify (set_rg ESP sp)) (set_eip (e_imm e)))))"

definition h_ret :: "int \<Rightarrow> ('x, unit) cm" where
  "h_ret n =
     bindE (gets (rg ESP)) (\<lambda>sp. bindE (from_mem (read_u32 sp)) (\<lambda>a.
     thenE (set_eip a) (modify (set_rg ESP ((sp + 4 + n) AND MASK32)))))"

definition h_leave :: "('x, unit) cm" where
  "h_leave =
     thenE (modify (\<lambda>c. set_rg ESP (rg EBP c) c))
     (bindE pop32 (\<lambda>v. modify (set_rg EBP v)))"

fun enter_loop :: "nat \<Rightarrow> ('x, unit) cm" where
  "enter_loop 0 = ret ()"
| "enter_loop (Suc k) =
     thenE (modify (\<lambda>c. set_rg EBP ((rg EBP c - 4) AND MASK32) c))
     (bindE (gets (rg EBP)) (\<lambda>bp. bindE (from_mem (read_u32 bp)) (\<lambda>v.
      thenE (push32 v) (enter_loop k))))"

definition h_enter :: "insn \<Rightarrow> ('x, unit) cm" where
  "h_enter e =
     bindE (gets (rg EBP)) (\<lambda>bp. thenE (push32 bp)
     (bindE (gets (rg ESP)) (\<lambda>frame.
      thenE (enter_loop (nat (e_reg e)))
      (thenE (if e_reg e \<noteq> 0 then push32 frame else ret ())
      (thenE (modify (set_rg EBP frame))
             (modify (\<lambda>c. set_rg ESP ((rg ESP c - e_imm e) AND MASK32) c)))))))"

definition h_xchg_eax_r :: "insn \<Rightarrow> ('x, unit) cm" where
  "h_xchg_eax_r e =
     bindE (gets (read_reg 0 (e_size e))) (\<lambda>a.
     thenE (modify (\<lambda>c. write_reg 0 (e_size e) (read_reg (e_reg e) (e_size e) c) c))
           (modify (write_reg (e_reg e) (e_size e) a)))"

definition h_cbw :: "insn \<Rightarrow> ('x, unit) cm" where
  "h_cbw e = modify (\<lambda>c.
     if e_size e = 2 then set_reg16 0 (sx8 (get_reg8 0 c) AND 0xFFFF) c
     else set_rg EAX (sx16 (rg EAX c AND 0xFFFF) AND MASK32) c)"

definition h_cwd :: "insn \<Rightarrow> ('x, unit) cm" where
  "h_cwd e = modify (\<lambda>c.
     if e_size e = 2 then set_reg16 EDX (if rg EAX c AND 0x8000 \<noteq> 0 then 0xFFFF else 0) c
     else set_rg EDX (if rg EAX c AND SIGN32 \<noteq> 0 then MASK32 else 0) c)"

definition h_pushf :: "insn \<Rightarrow> ('x, unit) cm" where
  "h_pushf e = bindE (gets flags) (\<lambda>f.
     if e_size e = 2 then push16 (f AND 0xFFFF) else push32 f)"

definition h_popf :: "insn \<Rightarrow> ('x, unit) cm" where
  "h_popf e = bindE (if e_size e = 2 then pop16 else pop32) (\<lambda>v. modify (set_eflags v))"

definition h_sahf :: "('x, unit) cm" where
  "h_sahf = bindE (gets (get_reg8 4)) (\<lambda>ah.
     modify (\<lambda>c. c\<lparr>flags := (flags c AND NOT 0xFF) OR (ah AND 0xD5) OR 0x02\<rparr>))"

definition h_lahf :: "('x, unit) cm" where
  "h_lahf = modify (\<lambda>c. set_reg8 4 (flags c AND 0xFF) c)"

definition h_xlat :: "('x, unit) cm" where
  "h_xlat = bindE (gets (\<lambda>c. (rg EBX c + get_reg8 0 c) AND MASK32)) (\<lambda>a.
     bindE (from_mem (read_u8 a)) (\<lambda>v. modify (set_reg8 0 v)))"

definition h_mov_al_moffs :: "insn \<Rightarrow> ('x, unit) cm" where
  "h_mov_al_moffs e = bindE (from_mem (read_u8 (e_imm e))) (\<lambda>v. modify (set_reg8 0 v))"

definition h_mov_ax_moffs :: "insn \<Rightarrow> ('x, unit) cm" where
  "h_mov_ax_moffs e = bindE (read_rm 0 0 (e_imm e) (e_size e)) (\<lambda>v.
     modify (write_reg 0 (e_size e) v))"

definition h_mov_moffs_al :: "insn \<Rightarrow> ('x, unit) cm" where
  "h_mov_moffs_al e = bindE (gets (get_reg8 0)) (\<lambda>v. on_mem (write_u8 (e_imm e) v))"

definition h_mov_moffs_ax :: "insn \<Rightarrow> ('x, unit) cm" where
  "h_mov_moffs_ax e = bindE (gets (read_reg 0 (e_size e))) (\<lambda>v.
     write_rm 0 0 (e_imm e) (e_size e) v)"

definition h_loop :: "insn \<Rightarrow> ('x, unit) cm" where
  "h_loop e =
     (let op = e_reg e in
      bindE (if op = 0xE3 then gets (\<lambda>c. rg ECX c = 0)
             else thenE (modify (\<lambda>c. set_rg ECX ((rg ECX c - 1) AND MASK32) c))
               (gets (\<lambda>c. let take = (rg ECX c \<noteq> 0)
                  in if op = 0xE1 then take \<and> flags c AND ZF \<noteq> 0
                     else if op = 0xE0 then take \<and> \<not> flags c AND ZF \<noteq> 0 else take)))
        (\<lambda>take. if take then set_eip (e_imm e) else ret ()))"

definition h_imul3 :: "insn \<Rightarrow> ('x, unit) cm" where
  "h_imul3 e =
     (let sz = e_size e in
      bindE (gets (ea_of e)) (\<lambda>addr. bindE (read_rm (e_mod e) (the (e_base e)) addr sz) (\<lambda>src.
      let a = (if sz = 2 then sx16 src else sx32 src); res = a * e_imm e
      in thenE (modify (write_reg (e_reg e) sz res))
               (modify (\<lambda>c. c\<lparr>flags := imul_flags res sz (flags c)\<rparr>)))))"

definition h_imul2 :: "insn \<Rightarrow> ('x, unit) cm" where
  "h_imul2 e =
     (let sz = e_size e in
      bindE (gets (read_reg (e_reg e) sz)) (\<lambda>a.
      bindE (gets (ea_of e)) (\<lambda>addr. bindE (read_rm (e_mod e) (the (e_base e)) addr sz) (\<lambda>b.
      let a = (if sz = 4 then sx32 a else sx16 a); b = (if sz = 4 then sx32 b else sx16 b);
          res = a * b
      in thenE (modify (write_reg (e_reg e) sz res))
               (modify (\<lambda>c. c\<lparr>flags := imul_flags res sz (flags c)\<rparr>))))))"

definition h_muldiv :: "insn \<Rightarrow> ('x, unit) cm" where
  "h_muldiv e =
     (let sz = e_size e; sub = e_reg e in
      bindE (gets (ea_of e)) (\<lambda>addr. bindE (read_rm (e_mod e) (the (e_base e)) addr sz) (\<lambda>a.
      if sub = 4 then modify (mul_unsigned a sz)
      else if sub = 5 then modify (mul_signed a sz)
      else if sub = 6 then div_unsigned a sz
      else div_signed a sz)))"

definition h_pop_rm :: "insn \<Rightarrow> ('x, unit) cm" where
  "h_pop_rm e =
     bindE (gets (ea_of e)) (\<lambda>addr.
     bindE (if e_size e = 2 then pop16 else pop32) (\<lambda>val.
     write_rm (e_mod e) (the (e_base e)) addr (e_size e) val))"

definition h_push_rm16 :: "insn \<Rightarrow> ('x, unit) cm" where
  "h_push_rm16 e =
     bindE (gets (ea_of e)) (\<lambda>addr.
     bindE (read_rm (e_mod e) (the (e_base e)) addr 2) push16)"

definition bt_impl :: "insn \<Rightarrow> int \<Rightarrow> int \<Rightarrow> ('x, unit) cm" where
  "bt_impl e sub bitno =
     (let sz = e_size e; bits = sz * 8; md = e_mod e; rm = the (e_base e);
          b = bitno AND (bits - 1) in
      bindE (gets (\<lambda>c. if md = 3 then 0
                       else (ea_of e c + bitno div bits * sz) AND MASK32)) (\<lambda>addr.
      bindE (if md = 3 then read_rm 3 rm 0 sz else read_mem_sized addr sz) (\<lambda>val.
      thenE (modify (\<lambda>c. c\<lparr>flags := (flags c AND NOT CF)
               OR (if drop_bit (nat b) val AND 1 \<noteq> 0 then CF else 0)\<rparr>))
      (let val = (if sub = 5 then val OR push_bit (nat b) 1
                  else if sub = 6 then val AND NOT (push_bit (nat b) 1)
                  else if sub = 7 then val XOR push_bit (nat b) 1 else val)
       in if sub \<noteq> 4
          then (if md = 3 then write_rm 3 rm 0 sz val else write_mem_sized addr sz val)
          else ret ()))))"

definition h_bt_r :: "insn \<Rightarrow> ('x, unit) cm" where
  "h_bt_r e = bindE (gets (read_reg (e_reg e) (e_size e))) (bt_impl e (e_imm e))"

text \<open>\<open>(v & -v).bit_length() - 1\<close> and \<open>v.bit_length() - 1\<close> for a positive \<open>v\<close>.\<close>

fun bit_length :: "nat \<Rightarrow> int \<Rightarrow> int" where
  "bit_length 0 v = 0"
| "bit_length (Suc k) v = (if v = 0 then 0 else bit_length k (v div 2) + 1)"

definition h_bsf :: "insn \<Rightarrow> ('x, unit) cm" where
  "h_bsf e =
     (let sz = e_size e in
      bindE (gets (ea_of e)) (\<lambda>addr. bindE (read_rm (e_mod e) (the (e_base e)) addr sz) (\<lambda>v.
      if v = 0 then modify (\<lambda>c. c\<lparr>flags := flags c OR ZF\<rparr>)
      else thenE (modify (\<lambda>c. c\<lparr>flags := flags c AND NOT ZF\<rparr>))
        (modify (write_reg (e_reg e) sz
           (if e_imm e = 0xBC then bit_length 32 (v AND - v) - 1 else bit_length 32 v - 1))))))"

definition h_shd :: "insn \<Rightarrow> ('x, unit) cm" where
  "h_shd e =
     (let sz = e_size e; op = drop_bit 8 (e_imm e); bits = sz * 8; mask = MASK_of sz;
          md = e_mod e; rm = the (e_base e) in
      bindE (gets (\<lambda>c. (if op = 0xA4 \<or> op = 0xAC then e_imm e AND 0xFF else get_reg8 ECX c)
                       AND 31)) (\<lambda>cnt.
      bindE (gets (ea_of e)) (\<lambda>addr.
      bindE (read_rm md rm addr sz) (\<lambda>dst.
      bindE (gets (read_reg (e_reg e) sz)) (\<lambda>src.
      if cnt = 0 then ret ()
      else
        bindE (if op = 0xA4 \<or> op = 0xA5 then
                 let wide = (push_bit (nat bits) dst OR src) AND (push_bit (nat (bits * 2)) 1 - 1)
                 in if bits - cnt < 0 then raise ValueError
                    else ret (drop_bit (nat bits) (push_bit (nat cnt) wide),
                              drop_bit (nat (bits - cnt)) dst AND 1)
               else
                 let wide = (push_bit (nat bits) src OR dst) AND (push_bit (nat (bits * 2)) 1 - 1)
                 in ret (drop_bit (nat cnt) wide, drop_bit (nat (cnt - 1)) dst AND 1))
          (\<lambda>(res, cf).
           let res = res AND mask in
           thenE (write_rm md rm addr sz res)
           (modify (\<lambda>c.
             let f = EFLAGS_BASE OR (flags c AND DF);
                 f = flag_if (cf \<noteq> 0) CF f;
                 f = flag_if (res = 0) ZF f;
                 f = flag_if (res AND SIGN_of sz \<noteq> 0) SF f
             in c\<lparr>flags := f OR PARITY (res AND 0xFF)\<rparr>))))))))"

section \<open>The call of a handler\<close>

definition exec :: "'x on_int \<Rightarrow> insn \<Rightarrow> ('x, unit) cm" where
  "exec oi e = (case e_fn e of
     Gen t form \<Rightarrow> exec_tmpl t form e
   | H_nop \<Rightarrow> ret () | H_hlt \<Rightarrow> h_hlt | H_int \<Rightarrow> h_int oi e
   | H_bad \<Rightarrow> h_bad e | H_lea_reg \<Rightarrow> h_lea_reg e
   | H_push_r32 \<Rightarrow> h_push_r32 e | H_pop_r32 \<Rightarrow> h_pop_r32 e
   | H_push_r16 \<Rightarrow> h_push_r16 e | H_pop_r16 \<Rightarrow> h_pop_r16 e
   | H_push_imm32 \<Rightarrow> h_push_imm32 e | H_push_imm16 \<Rightarrow> push16 (e_imm e)
   | H_mov_r32_imm \<Rightarrow> modify (set_rg (e_reg e) (e_imm e))
   | H_mov_r16_imm \<Rightarrow> modify (set_reg16 (e_reg e) (e_imm e))
   | H_mov_r8_imm \<Rightarrow> modify (set_reg8 (e_reg e) (e_imm e))
   | H_call_rel \<Rightarrow> h_call_rel e | H_jmp \<Rightarrow> set_eip (e_imm e)
   | H_ret \<Rightarrow> h_ret 0 | H_ret_n \<Rightarrow> h_ret (e_imm e)
   | H_leave \<Rightarrow> h_leave | H_enter \<Rightarrow> h_enter e | H_xchg_eax_r \<Rightarrow> h_xchg_eax_r e
   | H_cbw \<Rightarrow> h_cbw e | H_cwd \<Rightarrow> h_cwd e | H_pushf \<Rightarrow> h_pushf e | H_popf \<Rightarrow> h_popf e
   | H_sahf \<Rightarrow> h_sahf | H_lahf \<Rightarrow> h_lahf | H_xlat \<Rightarrow> h_xlat
   | H_mov_al_moffs \<Rightarrow> h_mov_al_moffs e | H_mov_ax_moffs \<Rightarrow> h_mov_ax_moffs e
   | H_mov_moffs_al \<Rightarrow> h_mov_moffs_al e | H_mov_moffs_ax \<Rightarrow> h_mov_moffs_ax e
   | H_string \<Rightarrow> string_op (e_reg e) (e_size e) (e_imm e)
   | H_loop \<Rightarrow> h_loop e
   | H_clc \<Rightarrow> modify (\<lambda>c. c\<lparr>flags := flags c AND NOT CF\<rparr>)
   | H_stc \<Rightarrow> modify (\<lambda>c. c\<lparr>flags := flags c OR CF\<rparr>)
   | H_cld \<Rightarrow> modify (\<lambda>c. c\<lparr>flags := flags c AND NOT DF\<rparr>)
   | H_std \<Rightarrow> modify (\<lambda>c. c\<lparr>flags := flags c OR DF\<rparr>)
   | H_imul3 \<Rightarrow> h_imul3 e | H_imul2 \<Rightarrow> h_imul2 e | H_muldiv \<Rightarrow> h_muldiv e
   | H_pop_rm \<Rightarrow> h_pop_rm e | H_push_rm16 \<Rightarrow> h_push_rm16 e
   | H_bt_r \<Rightarrow> h_bt_r e | H_bt_i \<Rightarrow> bt_impl e (e_reg e) (e_imm e)
   | H_bsf \<Rightarrow> h_bsf e | H_shd \<Rightarrow> h_shd e)"

end
