(* ===== verification/Cpu_Decode.thy ===== *)
theory Cpu_Decode
  imports Cpu_Exec
begin

text \<open>
  \<open>src/cpu86.py\<close>, third part: the decoders of the tables \<open>_DEC\<close> and \<open>_DEC0F\<close>, the prefix
  loop of \<open>_decode\<close>, and the main loops \<open>run\<close>, \<open>_run_profiled\<close> and \<open>step\<close> with the decode
  cache. A decoder moves \<open>cpu.eip\<close> over the bytes it fetches and returns the decoded
  tuple; like the code, it leaves \<open>cpu.eip\<close> where it was when a fetch faults.
\<close>

section \<open>ModRM and the decoded tuple\<close>

type_synonym modrm = "int \<times> int \<times> int option \<times> int option \<times> int \<times> int"

text \<open>
  \<open>_modrm_dec\<close> works on a local copy of \<open>eip\<close> and stores it at the end. \<open>sib_base\<close> is its
  part up to the displacement, which returns base, index, scale, displacement and the
  address of the next byte.
\<close>

definition sib_base ::
  "int \<Rightarrow> int \<Rightarrow> int \<Rightarrow> 'e addrspace \<Rightarrow> exn + int option \<times> int option \<times> int \<times> int \<times> int" where
  "sib_base md rm a s =
     (if rm = 4 then
        bindR (read_u8 a s) (\<lambda>sib.
        let scale = drop_bit 6 sib; idx = drop_bit 3 sib AND 7; base = sib AND 7;
            index = (if idx \<noteq> 4 then Some idx else None)
        in if base = 5 \<and> md = 0
           then bindR (read_u32 (a + 1) s) (\<lambda>d. Inr (None, index, scale, sx32 d, a + 5))
           else Inr (Some base, index, scale, 0, a + 1))
      else if rm = 5 \<and> md = 0
      then bindR (read_u32 a s) (\<lambda>d. Inr (None, None, 0, sx32 d, a + 4))
      else Inr (Some rm, None, 0, 0, a))"

definition modrm_at :: "int \<Rightarrow> 'e addrspace \<Rightarrow> exn + modrm \<times> int" where
  "modrm_at a s =
     bindR (read_u8 a s) (\<lambda>b.
     let md = drop_bit 6 b; reg = drop_bit 3 b AND 7; rm = b AND 7 in
     if md = 3 then Inr ((3, reg, Some rm, None, 0, 0), a + 1)
     else bindR (sib_base md rm (a + 1) s) (\<lambda>(base, index, scale, disp, a).
       if md = 1 then bindR (read_u8 a s) (\<lambda>d.
         Inr ((md, reg, base, index, scale, disp + sx8 d), a + 1))
       else if md = 2 then bindR (read_u32 a s) (\<lambda>d.
         Inr ((md, reg, base, index, scale, disp + sx32 d), a + 4))
       else Inr ((md, reg, base, index, scale, disp), a)))"

definition modrm_dec :: "('x, modrm) cm" where
  "modrm_dec = bindE (gets eip) (\<lambda>a. bindE (from_mem (modrm_at a)) (\<lambda>(m, a').
     thenE (set_eip a') (ret m)))"

definition modrm_reg :: "modrm \<Rightarrow> int" where
  "modrm_reg m = (case m of (md, reg, _) \<Rightarrow> reg)"

definition mk_form :: "modrm \<Rightarrow> int" where
  "mk_form m = (case m of (md, reg, base, index, scale, disp) \<Rightarrow>
     if md = 3 then 0 else if index = None then (if base = None then 1 else 2) else 3)"

text \<open>\<open>_mk\<close>: the variant of the addressing form and the other fields.\<close>

definition mk :: "int \<Rightarrow> (int \<Rightarrow> handler) \<Rightarrow> int \<Rightarrow> modrm \<Rightarrow> int \<Rightarrow> ('x, insn) cm" where
  "mk start variants sz m imm =
     (case m of (md, reg, base, index, scale, disp) \<Rightarrow>
      let form = mk_form m; disp = (if form = 1 then disp AND MASK32 else disp)
      in gets (\<lambda>c. \<lparr>e_fn = variants form, e_len = eip c - start, e_size = sz, e_reg = reg,
           e_base = base, e_index = index, e_scale = scale, e_disp = disp, e_imm = imm,
           e_mod = md\<rparr>))"

definition mk_bad :: "int \<Rightarrow> int \<Rightarrow> modrm \<Rightarrow> int \<Rightarrow> ('x, insn) cm" where
  "mk_bad start sz m op =
     bindE (mk start (\<lambda>_. H_bad) sz m 0) (\<lambda>e. ret (e\<lparr>e_reg := op\<rparr>))"

text \<open>\<open>_E\<close>, and the tuples the code writes out without a ModRM byte (\<open>base\<close> differs).\<close>

definition mk_reg :: "int \<Rightarrow> handler \<Rightarrow> int \<Rightarrow> int \<Rightarrow> int \<Rightarrow> int \<Rightarrow> ('x, insn) cm" where
  "mk_reg start f sz reg base imm =
     gets (\<lambda>c. \<lparr>e_fn = f, e_len = eip c - start, e_size = sz, e_reg = reg, e_base = Some base,
       e_index = None, e_scale = 0, e_disp = 0, e_imm = imm, e_mod = 3\<rparr>)"

definition mk_E :: "int \<Rightarrow> handler \<Rightarrow> int \<Rightarrow> int \<Rightarrow> int \<Rightarrow> ('x, insn) cm" where
  "mk_E start f sz reg imm = mk_reg start f sz reg 0 imm"

definition fetch_imm :: "int \<Rightarrow> ('x, int) cm" where
  "fetch_imm sz = (if sz = 4 then fetch32 else if sz = 2 then fetch16 else fetch8)"

text \<open>A decoder of \<open>_DEC\<close>: the opcode, the operand size and the start of the instruction.\<close>

type_synonym 'x decoder = "int \<Rightarrow> int \<Rightarrow> int \<Rightarrow> ('x, insn) cm"

definition with_modrm :: "int \<Rightarrow> (int \<Rightarrow> handler) \<Rightarrow> int \<Rightarrow> int \<Rightarrow> ('x, insn) cm" where
  "with_modrm start variants sz imm = bindE modrm_dec (\<lambda>m. mk start variants sz m imm)"

definition jump_target :: "int \<Rightarrow> 'x cpu_scheme \<Rightarrow> int" where
  "jump_target rel c = (eip c + rel) AND MASK32"

section \<open>Decoders of one-byte opcodes\<close>

definition dec_alu :: "'x decoder" where
  "dec_alu op opsize start =
     (let alu = drop_bit 3 op; form = op AND 7 in
      if form = 0 then with_modrm start (Gen (Alu_rm_r alu 1)) 1 0
      else if form = 1 then with_modrm start (Gen (Alu_rm_r alu opsize)) opsize 0
      else if form = 2 then with_modrm start (Gen (Alu_r_rm alu 1)) 1 0
      else if form = 3 then with_modrm start (Gen (Alu_r_rm alu opsize)) opsize 0
      else if form = 4 then
        bindE fetch8 (\<lambda>imm. mk_reg start (Gen (Alu_rm_imm alu 1) 0) 1 0 0 imm)
      else bindE (fetch_imm opsize) (\<lambda>imm.
        mk_reg start (Gen (Alu_rm_imm alu opsize) 0) opsize 0 0 imm))"

definition dec_incdec_r :: "'x decoder" where
  "dec_incdec_r op opsize start =
     mk_reg start (Gen (if op < 0x48 then Inc opsize else Dec opsize) 0) opsize 0 (op AND 7) 0"

definition dec_push_r :: "'x decoder" where
  "dec_push_r op opsize start =
     mk_E start (if opsize = 4 then H_push_r32 else H_push_r16) opsize (op AND 7) 0"

definition dec_pop_r :: "'x decoder" where
  "dec_pop_r op opsize start =
     mk_E start (if opsize = 4 then H_pop_r32 else H_pop_r16) opsize (op AND 7) 0"

definition dec_push_imm :: "'x decoder" where
  "dec_push_imm op opsize start =
     bindE (if op = 0x68 then fetch_imm opsize
            else bindE fetch8 (\<lambda>v. ret (sx8 v AND MASK_of opsize)))
       (\<lambda>imm. mk_E start (if opsize = 4 then H_push_imm32 else H_push_imm16) opsize 0 imm)"

definition dec_imul3 :: "'x decoder" where
  "dec_imul3 op opsize start =
     bindE modrm_dec (\<lambda>m.
     bindE (if op = 0x69
            then bindE (fetch_imm opsize) (\<lambda>v. ret (if opsize = 2 then sx16 v else sx32 v))
            else bindE fetch8 (\<lambda>v. ret (sx8 v)))
       (\<lambda>imm. mk start (\<lambda>_. H_imul3) opsize m imm))"

definition dec_jcc8 :: "'x decoder" where
  "dec_jcc8 op opsize start =
     bindE fetch8 (\<lambda>v. bindE (gets (jump_target (sx8 v))) (\<lambda>t.
     mk_E start (Gen (Jcc (op AND 0xF)) 0) 4 (op AND 0xF) t))"

definition dec_alu_imm :: "'x decoder" where
  "dec_alu_imm op opsize start =
     (let sz = (if op = 0x80 then 1 else opsize) in
      bindE modrm_dec (\<lambda>m.
      bindE (if op = 0x80 then fetch8
             else if op = 0x81 then fetch_imm sz
             else bindE fetch8 (\<lambda>v. ret (sx8 v AND MASK_of sz)))
        (\<lambda>imm. mk start (Gen (Alu_rm_imm (modrm_reg m) sz)) sz m imm)))"

definition dec_test_rm_r :: "'x decoder" where
  "dec_test_rm_r op opsize start =
     (let sz = (if op = 0x84 then 1 else opsize) in with_modrm start (Gen (Test_rm_r sz)) sz 0)"

definition dec_xchg :: "'x decoder" where
  "dec_xchg op opsize start =
     (let sz = (if op = 0x86 then 1 else opsize) in with_modrm start (Gen (Xchg sz)) sz 0)"

definition dec_mov_rm_r :: "'x decoder" where
  "dec_mov_rm_r op opsize start =
     (let sz = (if op = 0x88 then 1 else opsize) in with_modrm start (Gen (Mov_rm_r sz)) sz 0)"

definition dec_mov_r_rm :: "'x decoder" where
  "dec_mov_r_rm op opsize start =
     (let sz = (if op = 0x8A then 1 else opsize) in with_modrm start (Gen (Mov_r_rm sz)) sz 0)"

definition dec_lea :: "'x decoder" where
  "dec_lea op opsize start =
     with_modrm start (\<lambda>form. if form = 0 then H_lea_reg else Gen (Lea opsize) form) opsize 0"

definition dec_pop_rm :: "'x decoder" where
  "dec_pop_rm op opsize start = with_modrm start (\<lambda>_. H_pop_rm) opsize 0"

definition dec_simple :: "handler \<Rightarrow> 'x decoder" where
  "dec_simple f op opsize start = mk_E start f opsize 0 0"

definition dec_xchg_eax_r :: "'x decoder" where
  "dec_xchg_eax_r op opsize start = mk_E start H_xchg_eax_r opsize (op AND 7) 0"

definition dec_moffs :: "'x decoder" where
  "dec_moffs op opsize start =
     bindE fetch32 (\<lambda>addr.
     mk_E start (if op = 0xA0 then H_mov_al_moffs else if op = 0xA1 then H_mov_ax_moffs
                 else if op = 0xA2 then H_mov_moffs_al else H_mov_moffs_ax) opsize 0 addr)"

definition dec_string :: "'x decoder" where
  "dec_string op opsize start = mk_E start H_string opsize op 0"

definition dec_test_acc_imm :: "'x decoder" where
  "dec_test_acc_imm op opsize start =
     (let sz = (if op = 0xA8 then 1 else opsize) in
      bindE (fetch_imm sz) (\<lambda>imm. mk_reg start (Gen (Test_rm_imm sz) 0) sz 0 0 imm))"

definition dec_mov_r8_imm :: "'x decoder" where
  "dec_mov_r8_imm op opsize start =
     bindE fetch8 (\<lambda>imm. mk_E start H_mov_r8_imm 1 (op AND 7) imm)"

definition dec_mov_r_imm :: "'x decoder" where
  "dec_mov_r_imm op opsize start =
     bindE (fetch_imm opsize) (\<lambda>imm.
     mk_E start (if opsize = 4 then H_mov_r32_imm else H_mov_r16_imm) opsize (op AND 7) imm)"

definition dec_shift :: "'x decoder" where
  "dec_shift op opsize start =
     (let sz = (if op \<in> {0xC0, 0xD0, 0xD2} then 1 else opsize) in
      bindE modrm_dec (\<lambda>m.
      let kind = modrm_reg m in
      bindE (if op \<in> {0xC0, 0xC1} then bindE fetch8 (\<lambda>v. ret (v AND 31, 0))
             else if op \<in> {0xD0, 0xD1} then ret (1, 0) else ret (0, 1))
        (\<lambda>(cnt, src).
         if kind = 2 \<or> kind = 3 then mk_bad start sz m 0xC1
         else mk start (Gen (Shift kind sz src)) sz m cnt)))"

definition dec_ret_n :: "'x decoder" where
  "dec_ret_n op opsize start = bindE fetch16 (\<lambda>n. mk_E start H_ret_n 4 0 n)"

definition dec_mov_rm_imm :: "'x decoder" where
  "dec_mov_rm_imm op opsize start =
     (let sz = (if op = 0xC6 then 1 else opsize) in
      bindE modrm_dec (\<lambda>m. bindE (fetch_imm sz) (\<lambda>imm.
      mk start (Gen (Mov_rm_imm sz)) sz m imm)))"

definition dec_enter :: "'x decoder" where
  "dec_enter op opsize start =
     bindE fetch16 (\<lambda>alloc. bindE fetch8 (\<lambda>v. mk_E start H_enter 4 (v AND 31) alloc))"

definition dec_int :: "'x decoder" where
  "dec_int op opsize start =
     bindE (if op = 0xCC then ret 3 else fetch8) (\<lambda>vec. mk_E start H_int 4 0 vec)"

definition dec_loop :: "'x decoder" where
  "dec_loop op opsize start =
     bindE fetch8 (\<lambda>v. bindE (gets (jump_target (sx8 v))) (\<lambda>t. mk_E start H_loop 4 op t))"

definition dec_call_rel :: "'x decoder" where
  "dec_call_rel op opsize start =
     bindE fetch32 (\<lambda>v. bindE (gets (jump_target (sx32 v))) (\<lambda>t. mk_E start H_call_rel 4 0 t))"

definition dec_jmp_rel32 :: "'x decoder" where
  "dec_jmp_rel32 op opsize start =
     bindE fetch32 (\<lambda>v. bindE (gets (jump_target (sx32 v))) (\<lambda>t. mk_E start H_jmp 4 0 t))"

definition dec_jmp_rel8 :: "'x decoder" where
  "dec_jmp_rel8 op opsize start =
     bindE fetch8 (\<lambda>v. bindE (gets (jump_target (sx8 v))) (\<lambda>t. mk_E start H_jmp 4 0 t))"

definition dec_grp_f7 :: "'x decoder" where
  "dec_grp_f7 op opsize start =
     (let sz = (if op = 0xF6 then 1 else opsize) in
      bindE modrm_dec (\<lambda>m.
      let sub = modrm_reg m in
      if sub = 0 \<or> sub = 1 then
        bindE (fetch_imm sz) (\<lambda>imm. mk start (Gen (Test_rm_imm sz)) sz m imm)
      else if sub = 2 then mk start (Gen (Not_rm sz)) sz m 0
      else if sub = 3 then mk start (Gen (Neg sz)) sz m 0
      else mk start (\<lambda>_. H_muldiv) sz m 0))"

definition dec_grp_ff :: "'x decoder" where
  "dec_grp_ff op opsize start =
     (let sz = (if op = 0xFE then 1 else opsize) in
      bindE modrm_dec (\<lambda>m.
      let sub = modrm_reg m in
      if sub = 0 then mk start (Gen (Inc sz)) sz m 0
      else if sub = 1 then mk start (Gen (Dec sz)) sz m 0
      else if op = 0xFF \<and> sub = 2 then mk start (Gen Call_rm) 4 m 0
      else if op = 0xFF \<and> sub = 4 then mk start (Gen Jmp_rm) 4 m 0
      else if op = 0xFF \<and> sub = 6 then
        (if opsize = 4 then mk start (Gen Push_rm) 4 m 0 else mk start (\<lambda>_. H_push_rm16) 2 m 0)
      else mk_bad start sz m op))"

section \<open>Decoders of two-byte opcodes\<close>

definition dec_jcc32 :: "'x decoder" where
  "dec_jcc32 op opsize start =
     bindE fetch32 (\<lambda>v. bindE (gets (jump_target (sx32 v))) (\<lambda>t.
     mk_E start (Gen (Jcc (op AND 0xF)) 0) 4 (op AND 0xF) t))"

definition dec_setcc :: "'x decoder" where
  "dec_setcc op opsize start = with_modrm start (Gen (Setcc (op AND 0xF))) 1 0"

definition BT_SUB :: "int \<Rightarrow> int" where
  "BT_SUB op = (if op = 0xA3 then 4 else if op = 0xAB then 5 else if op = 0xB3 then 6 else 7)"

definition dec_bt :: "'x decoder" where
  "dec_bt op opsize start =
     bindE modrm_dec (\<lambda>m.
     if op = 0xBA then
       (if modrm_reg m < 4 then mk_bad start opsize m (0x0F00 OR op)
        else bindE fetch8 (\<lambda>bitno. mk start (\<lambda>_. H_bt_i) opsize m bitno))
     else mk start (\<lambda>_. H_bt_r) opsize m (BT_SUB op))"

definition dec_shd :: "'x decoder" where
  "dec_shd op opsize start =
     bindE modrm_dec (\<lambda>m.
     bindE (if op = 0xA4 \<or> op = 0xAC then fetch8 else ret 0) (\<lambda>imm.
     mk start (\<lambda>_. H_shd) opsize m (push_bit 8 op OR imm)))"

definition dec_movx :: "'x decoder" where
  "dec_movx op opsize start =
     (let src = (if op = 0xB6 \<or> op = 0xBE then 1 else 2);
          sx = (if op = 0xBE \<or> op = 0xBF then 1 else 0)
      in with_modrm start (Gen (Movx sx src opsize)) src 0)"

definition DEC0F :: "'x decoder" where
  "DEC0F op opsize start =
     (if 0x80 \<le> op \<and> op < 0x90 then dec_jcc32 op opsize start
      else if 0x90 \<le> op \<and> op < 0xA0 then dec_setcc op opsize start
      else if op = 0xAF then with_modrm start (\<lambda>_. H_imul2) opsize 0
      else if op \<in> {0xA3, 0xAB, 0xB3, 0xBB, 0xBA} then dec_bt op opsize start
      else if op = 0xBC \<or> op = 0xBD then with_modrm start (\<lambda>_. H_bsf) opsize op
      else if op \<in> {0xA4, 0xA5, 0xAC, 0xAD} then dec_shd op opsize start
      else if op \<in> {0xB6, 0xB7, 0xBE, 0xBF} then dec_movx op opsize start
      else mk_E start H_bad 4 (0x0F00 OR op) 0)"

definition dec_0f :: "'x decoder" where
  "dec_0f op opsize start = bindE fetch8 (\<lambda>op2. DEC0F op2 opsize start)"

section \<open>The opcode table and the prefixes\<close>

definition DEC :: "'x decoder" where
  "DEC op opsize start =
     (if op < 0x40 \<and> op AND 7 < 6 then dec_alu op opsize start
      else if op = 0x0F then dec_0f op opsize start
      else if 0x40 \<le> op \<and> op < 0x50 then dec_incdec_r op opsize start
      else if 0x50 \<le> op \<and> op < 0x58 then dec_push_r op opsize start
      else if 0x58 \<le> op \<and> op < 0x60 then dec_pop_r op opsize start
      else if op = 0x68 \<or> op = 0x6A then dec_push_imm op opsize start
      else if op = 0x69 \<or> op = 0x6B then dec_imul3 op opsize start
      else if 0x70 \<le> op \<and> op < 0x80 then dec_jcc8 op opsize start
      else if op \<in> {0x80, 0x81, 0x83} then dec_alu_imm op opsize start
      else if op = 0x84 \<or> op = 0x85 then dec_test_rm_r op opsize start
      else if op = 0x86 \<or> op = 0x87 then dec_xchg op opsize start
      else if op = 0x88 \<or> op = 0x89 then dec_mov_rm_r op opsize start
      else if op = 0x8A \<or> op = 0x8B then dec_mov_r_rm op opsize start
      else if op = 0x8D then dec_lea op opsize start
      else if op = 0x8F then dec_pop_rm op opsize start
      else if op = 0x90 then dec_simple H_nop op opsize start
      else if 0x91 \<le> op \<and> op < 0x98 then dec_xchg_eax_r op opsize start
      else if op = 0x98 then dec_simple H_cbw op opsize start
      else if op = 0x99 then dec_simple H_cwd op opsize start
      else if op = 0x9C then dec_simple H_pushf op opsize start
      else if op = 0x9D then dec_simple H_popf op opsize start
      else if op = 0x9E then dec_simple H_sahf op opsize start
      else if op = 0x9F then dec_simple H_lahf op opsize start
      else if 0xA0 \<le> op \<and> op < 0xA4 then dec_moffs op opsize start
      else if op = 0xA8 \<or> op = 0xA9 then dec_test_acc_imm op opsize start
      else if 0xA4 \<le> op \<and> op < 0xB0 then dec_string op opsize start
      else if 0xB0 \<le> op \<and> op < 0xB8 then dec_mov_r8_imm op opsize start
      else if 0xB8 \<le> op \<and> op < 0xC0 then dec_mov_r_imm op opsize start
      else if op \<in> {0xC0, 0xC1, 0xD0, 0xD1, 0xD2, 0xD3} then dec_shift op opsize start
      else if op = 0xC2 then dec_ret_n op opsize start
      else if op = 0xC3 then dec_simple H_ret op opsize start
      else if op = 0xC6 \<or> op = 0xC7 then dec_mov_rm_imm op opsize start
      else if op = 0xC8 then dec_enter op opsize start
      else if op = 0xC9 then dec_simple H_leave op opsize start
      else if op = 0xCC \<or> op = 0xCD then dec_int op opsize start
      else if op = 0xD7 then dec_simple H_xlat op opsize start
      else if 0xE0 \<le> op \<and> op < 0xE4 then dec_loop op opsize start
      else if op = 0xE8 then dec_call_rel op opsize start
      else if op = 0xE9 then dec_jmp_rel32 op opsize start
      else if op = 0xEB then dec_jmp_rel8 op opsize start
      else if op = 0xF4 then dec_simple H_hlt op opsize start
      else if op = 0xF6 \<or> op = 0xF7 then dec_grp_f7 op opsize start
      else if op = 0xF8 then dec_simple H_clc op opsize start
      else if op = 0xF9 then dec_simple H_stc op opsize start
      else if op = 0xFC then dec_simple H_cld op opsize start
      else if op = 0xFD then dec_simple H_std op opsize start
      else if op = 0xFE \<or> op = 0xFF then dec_grp_ff op opsize start
      else mk_E start H_bad 4 op 0)"

text \<open>
  The prefix loop of \<open>_decode\<close>: the operand size, the repeat prefix, the opcode and the
  address after it.
\<close>

function prefix_loop :: "int \<Rightarrow> int \<Rightarrow> int \<Rightarrow> int \<Rightarrow> 'e addrspace \<Rightarrow> exn + int \<times> int \<times> int \<times> int" where
  "prefix_loop op opsize rep a s =
     (if op \<in> set PREFIXES then
        bindR (read_u8 a s) (\<lambda>op'.
          prefix_loop op' (if op = 0x66 then 2 else opsize)
            (if op = 0xF2 \<or> op = 0xF3 then op else rep) (a + 1) s)
      else Inr (opsize, rep, op, a))"
  by pat_completeness auto

termination
  by (relation "measure (\<lambda>(op, opsize, rep, a, s). nat (max (low_end s) TASK_SIZE - a))")
    (auto dest: read_u8_limit)

declare prefix_loop.simps [simp del]

definition decode :: "int \<Rightarrow> ('x, insn) cm" where
  "decode start =
     thenE (modify (\<lambda>c. c\<lparr>insn_start := start\<rparr>))
     (bindE (from_mem (read_u8 start)) (\<lambda>op.
      if op \<in> set PREFIXES then
        bindE (from_mem (prefix_loop op 4 0 (start + 1))) (\<lambda>(opsize, rep, op, a).
        thenE (set_eip a)
        (if rep \<noteq> 0 \<and> 0xA4 \<le> op \<and> op \<le> 0xAF \<and> op \<noteq> 0xA8 \<and> op \<noteq> 0xA9
         then mk_E start H_string opsize op rep
         else if rep \<noteq> 0 \<and> op = 0x90 then mk_E start H_nop opsize 0 0
         else DEC op opsize start))
      else thenE (set_eip (start + 1)) (DEC op 4 start)))"

section \<open>The main loop\<close>

type_synonym 'x on_fault = "(exn \<Rightarrow> ('x, unit) cm) option"

text \<open>
  The instruction at \<open>eip\<close>, from the cache when its slot is filled; a decoded one enters
  the cache when it ends inside the text. The cache is \<open>mem.icache\<close>, which the code reads
  once at the start of \<open>run\<close>: it is the same list, because only \<open>load_program\<close> makes a new one.
\<close>

definition fetch_insn :: "('x, insn) cm" where
  "fetch_insn =
     bindE (gets eip) (\<lambda>a. bindE (gets (\<lambda>c. icache (mem c))) (\<lambda>cache.
     if a < int (length cache) then
       (case cache ! nat a of
          Some e \<Rightarrow> thenE (set_eip (a + e_len e)) (ret e)
        | None \<Rightarrow> bindE (decode a) (\<lambda>e.
            bindE (gets eip) (\<lambda>a'.
            thenE (if a' \<le> int (length cache)
                   then modify (\<lambda>c. c\<lparr>mem := mem c\<lparr>icache := (icache (mem c))[nat a := Some e]\<rparr>\<rparr>)
                   else ret ())
              (ret e))))
     else decode a))"

text \<open>\<open>try\<close> ... \<open>except SegFault\<close>, \<open>except DivideError\<close>.\<close>

definition faults :: "exn \<Rightarrow> bool" where
  "faults ex \<longleftrightarrow> (case ex of SegFault _ _ _ \<Rightarrow> True | DivideError \<Rightarrow> True | _ \<Rightarrow> False)"

definition catch_fault :: "'x on_fault \<Rightarrow> ('x, unit) cm \<Rightarrow> ('x, bool) cm" where
  "catch_fault ofl m c = (case m c of
     (Inl ex, c') \<Rightarrow>
       if faults ex then (case ofl of None \<Rightarrow> (Inl ex, c') | Some f \<Rightarrow> thenE (f ex) (ret False) c')
       else (Inl ex, c')
   | (Inr _, c') \<Rightarrow> (Inr True, c'))"

definition run_one :: "'x on_int \<Rightarrow> 'x on_fault \<Rightarrow> ('x, bool) cm" where
  "run_one oi ofl =
     bindE (gets eip) (\<lambda>a.
     if a \<ge> MAGIC_EIP_BASE then raise (MagicJump a)
     else catch_fault ofl (bindE fetch_insn (exec oi)))"

definition add_icount :: "int \<Rightarrow> 'x cpu_scheme \<Rightarrow> 'x cpu_scheme" where
  "add_icount d c = c\<lparr>icount := icount c + d\<rparr>"

text \<open>
  \<open>prof.record(eip, mem)\<close>; an exception it raises leaves the loop like any other.
\<close>

definition record_insn :: "int \<Rightarrow> ('x, unit) cm" where
  "record_insn start c = (case prof c of
     None \<Rightarrow> (Inr (), c)
   | Some p \<Rightarrow> (case Profiler_record start (mem c) p of (r, p') \<Rightarrow> (r, c\<lparr>prof := Some p'\<rparr>)))"

text \<open>
  \<open>for _ in range(max_steps)\<close> with \<open>except _Halt\<close> and \<open>finally\<close>: the count of completed
  instructions is added to \<open>icount\<close> on every way out. The profiled loop is the same with a
  sample after every instruction that did not fault.
\<close>

fun run_loop :: "'x on_int \<Rightarrow> 'x on_fault \<Rightarrow> nat \<Rightarrow> int \<Rightarrow> ('x, int) cm" where
  "run_loop oi ofl 0 d c = (Inr d, add_icount d c)"
| "run_loop oi ofl (Suc n) d c = (case run_one oi ofl c of
     (Inl ex, c') \<Rightarrow> if ex = Halt then (Inr (d + 1), add_icount (d + 1) c')
                    else (Inl ex, add_icount d c')
   | (Inr _, c') \<Rightarrow> run_loop oi ofl n (d + 1) c')"

fun run_profiled_loop :: "'x on_int \<Rightarrow> 'x on_fault \<Rightarrow> nat \<Rightarrow> int \<Rightarrow> ('x, int) cm" where
  "run_profiled_loop oi ofl 0 d c = (Inr d, add_icount d c)"
| "run_profiled_loop oi ofl (Suc n) d c =
     (case bindE (run_one oi ofl) (\<lambda>ok. if ok then record_insn (eip c) else ret ()) c of
        (Inl ex, c') \<Rightarrow>
          if ex = Halt then
            (case record_insn (eip c) c' of
               (Inl ex', c'') \<Rightarrow> (Inl ex', add_icount d c'')
             | (Inr _, c'') \<Rightarrow> (Inr (d + 1), add_icount (d + 1) c''))
          else (Inl ex, add_icount d c')
      | (Inr _, c') \<Rightarrow> run_profiled_loop oi ofl n (d + 1) c')"

definition run_profiled :: "'x on_int \<Rightarrow> 'x on_fault \<Rightarrow> int \<Rightarrow> ('x, int) cm" where
  "run_profiled oi ofl max_steps c =
     (if halted c then (Inr 0, c) else run_profiled_loop oi ofl (nat max_steps) 0 c)"

definition run :: "'x on_int \<Rightarrow> 'x on_fault \<Rightarrow> int \<Rightarrow> ('x, int) cm" where
  "run oi ofl max_steps c =
     (if prof c \<noteq> None then run_profiled oi ofl max_steps c
      else if halted c then (Inr 0, c)
      else run_loop oi ofl (nat max_steps) 0 c)"

definition step :: "'x on_int \<Rightarrow> ('x, unit) cm" where
  "step oi =
     bindE (gets eip) (\<lambda>a.
     if a \<ge> MAGIC_EIP_BASE then raise (MagicJump a)
     else thenE (modify (\<lambda>c. c\<lparr>insn_start := a\<rparr>))
       (bindE fetch_insn (\<lambda>e c. case exec oi e c of
          (Inl ex, c') \<Rightarrow> if ex = Halt then (Inr (), c') else (Inl ex, c')
        | (Inr _, c') \<Rightarrow> (Inr (), c'))))"

end
