(* ===== verification/Cpu_Local.thy ===== *)
theory Cpu_Local
  imports Cpu_Decode
begin

text \<open>
  Decoding is local: the tuple that a decoder returns depends only on the bytes it moved
  \<open>eip\<close> over, and its length is the number of those bytes. This is what the decode cache of
  \<open>src/cpu86.py\<close> relies on: a slot stays valid until one of these bytes is written.
\<close>

section \<open>Local readers and decoders\<close>

text \<open>Two address spaces with the same bytes in a range of the low area.\<close>

definition agree :: "'e addrspace \<Rightarrow> 'e addrspace \<Rightarrow> int \<Rightarrow> int \<Rightarrow> bool" where
  "agree m n a b \<longleftrightarrow> int (length (low m)) = low_end m \<and> int (length (low n)) = low_end n
     \<and> 0 \<le> a \<and> b \<le> low_end m \<and> b \<le> low_end n
     \<and> (\<forall>x. a \<le> x \<and> x < b \<longrightarrow> low m ! nat x = low n ! nat x)"

lemma agree_sub: "agree m n a b \<Longrightarrow> a \<le> c \<Longrightarrow> d \<le> b \<Longrightarrow> agree m n c d"
  by (auto simp: agree_def)

lemma agree_u8: "agree m n a b \<Longrightarrow> a \<le> x \<Longrightarrow> x + 1 \<le> b \<Longrightarrow> read_u8 x n = read_u8 x m"
  by (auto simp: agree_def read_u8_def)

lemma agree_u16:
  assumes "agree m n a b" and "a \<le> x" and "x + 2 \<le> b"
  shows "read_u16 x n = read_u16 x m"
proof -
  have "low n ! nat x = low m ! nat x" "low n ! nat (x + 1) = low m ! nat (x + 1)"
    using assms by (auto simp: agree_def)
  moreover have "nat x + 1 = nat (x + 1)"
    using assms by (simp add: agree_def nat_add_distrib)
  ultimately show ?thesis
    using assms by (auto simp: agree_def read_u16_def in_low_def u16_at_def le16_def)
qed

lemma agree_u32:
  assumes "agree m n a b" and "a \<le> x" and "x + 4 \<le> b"
  shows "read_u32 x n = read_u32 x m"
proof -
  have "low n ! (nat x + k) = low m ! (nat x + k)" if "k < 4" for k
  proof -
    have "nat x + k = nat (x + int k)"
      using assms by (simp add: agree_def nat_add_distrib)
    then show ?thesis using assms that by (auto simp: agree_def)
  qed
  from this [of 0] this [of 1] this [of 2] this [of 3] show ?thesis
    using assms by (auto simp: agree_def read_u32_def in_low_def u32_at_def le32_def)
qed

text \<open>A decoder that changes only \<open>eip\<close>, and depends only on the bytes it passes.\<close>

definition local_dec :: "('x, 'a) cm \<Rightarrow> bool" where
  "local_dec m \<longleftrightarrow> (\<forall>c x c'. m c = (Inr x, c') \<longrightarrow>
     eip c \<le> eip c' \<and> c' = c\<lparr>eip := eip c'\<rparr> \<and>
     (\<forall>d. eip d = eip c \<and> agree (mem c) (mem d) (eip c) (eip c') \<longrightarrow>
        m d = (Inr x, d\<lparr>eip := eip c'\<rparr>)))"

lemma local_decD:
  assumes "local_dec m" and "m c = (Inr x, c')"
  shows "eip c \<le> eip c'" "c' = c\<lparr>eip := eip c'\<rparr>"
    and "eip d = eip c \<Longrightarrow> agree (mem c) (mem d) (eip c) (eip c') \<Longrightarrow> m d = (Inr x, d\<lparr>eip := eip c'\<rparr>)"
  using assms unfolding local_dec_def by blast+

named_theorems local_rules \<open>decoders are local, one rule per construct\<close>

lemma local_ret [local_rules]: "local_dec (ret x)"
  by (auto simp: local_dec_def ret_def)

lemma local_bindE [local_rules]:
  assumes m: "local_dec m" and f: "\<And>x. local_dec (f x)"
  shows "local_dec (bindE m f)"
  unfolding local_dec_def
proof (intro allI impI)
  fix c y c2
  assume "bindE m f c = (Inr y, c2)"
  then obtain x c1 where 1: "m c = (Inr x, c1)" and 2: "f x c1 = (Inr y, c2)"
    by (auto simp: bindE_Inr_iff)
  note m = local_decD [OF m 1] and f = local_decD [OF f 2]
  have step: "bindE m f d = (Inr y, d\<lparr>eip := eip c2\<rparr>)"
    if d: "eip d = eip c" "agree (mem c) (mem d) (eip c) (eip c2)" for d
  proof -
    have same: "mem c1 = mem c"
      by (subst m(2)) simp
    have "m d = (Inr x, d\<lparr>eip := eip c1\<rparr>)"
      using d f(1) by (intro m(3)) (auto intro: agree_sub)
    moreover have "f x (d\<lparr>eip := eip c1\<rparr>) = (Inr y, d\<lparr>eip := eip c1, eip := eip c2\<rparr>)"
      using d m(1) same by (intro f(3)) (auto intro: agree_sub)
    ultimately show ?thesis by (simp add: bindE_def)
  qed
  show "eip c \<le> eip c2 \<and> c2 = c\<lparr>eip := eip c2\<rparr> \<and>
      (\<forall>d. eip d = eip c \<and> agree (mem c) (mem d) (eip c) (eip c2) \<longrightarrow>
        bindE m f d = (Inr y, d\<lparr>eip := eip c2\<rparr>))"
  proof (intro conjI allI impI)
    show "eip c \<le> eip c2"
      using m(1) f(1) by (rule order_trans)
    show "c2 = c\<lparr>eip := eip c2\<rparr>"
      by (subst f(2), subst m(2)) simp
  qed (rule step; simp)
qed

lemma local_if [local_rules]: "local_dec m \<Longrightarrow> local_dec n \<Longrightarrow> local_dec (if b then m else n)"
  by simp

lemma local_gets:
  assumes "\<And>c d. eip c = eip d \<Longrightarrow> f c = f d"
  shows "local_dec (gets f)"
  unfolding local_dec_def
proof (intro allI impI)
  fix c x c'
  assume "gets f c = (Inr x, c')"
  then have c': "c' = c" "x = f c"
    by (auto simp: gets_def)
  have "gets f d = (Inr (f c), d\<lparr>eip := eip c\<rparr>)" if "eip d = eip c" for d
    using assms [OF that] that [symmetric] by (simp add: gets_def)
  then show "eip c \<le> eip c' \<and> c' = c\<lparr>eip := eip c'\<rparr> \<and>
      (\<forall>d. eip d = eip c \<and> agree (mem c) (mem d) (eip c) (eip c') \<longrightarrow>
        gets f d = (Inr x, d\<lparr>eip := eip c'\<rparr>))"
    unfolding c' by simp
qed

lemma local_split [local_rules]: "(\<And>x y. local_dec (f x y)) \<Longrightarrow> local_dec (case p of (x, y) \<Rightarrow> f x y)"
  by (simp add: split_beta)

text \<open>A fetch that reads at \<open>eip\<close> and steps over what it read.\<close>

lemma local_reader:
  assumes "\<And>a m x b. f a m = Inr (x, b) \<Longrightarrow> a \<le> b"
    and "\<And>a m n x b. f a m = Inr (x, b) \<Longrightarrow> agree m n a b \<Longrightarrow> f a n = Inr (x, b)"
  shows "local_dec (bindE (gets eip) (\<lambda>a. bindE (from_mem (f a)) (\<lambda>(x, b). thenE (set_eip b) (ret x))))"
    (is "local_dec ?m")
proof -
  have run: "?m c = (case f (eip c) (mem c) of Inl ex \<Rightarrow> (Inl ex, c)
      | Inr (x, b) \<Rightarrow> (Inr x, c\<lparr>eip := b\<rparr>))" for c
    by (simp add: bindE_def thenE_def gets_def from_mem_def set_eip_def modify_def ret_def
        split: sum.splits prod.splits)
  show ?thesis
    unfolding local_dec_def
  proof (intro allI impI)
    fix c y c'
    assume "?m c = (Inr y, c')"
    then obtain b where b: "f (eip c) (mem c) = Inr (y, b)" and c': "c' = c\<lparr>eip := b\<rparr>"
      by (auto simp: run split: sum.splits)
    have "?m d = (Inr y, d\<lparr>eip := b\<rparr>)" if "eip d = eip c" "agree (mem c) (mem d) (eip c) b" for d
      unfolding run using assms(2) [OF b that(2)] that(1) by simp
    then show "eip c \<le> eip c' \<and> c' = c\<lparr>eip := eip c'\<rparr> \<and>
        (\<forall>d. eip d = eip c \<and> agree (mem c) (mem d) (eip c) (eip c') \<longrightarrow>
          ?m d = (Inr y, d\<lparr>eip := eip c'\<rparr>))"
      using assms(1) [OF b] by (simp add: c')
  qed
qed

lemma fetch_reader:
  "fetch8 = bindE (gets eip) (\<lambda>a. bindE (from_mem (\<lambda>m. bindR (read_u8 a m) (\<lambda>v. Inr (v, a + 1))))
     (\<lambda>(x, b). thenE (set_eip b) (ret x)))"
  "fetch16 = bindE (gets eip) (\<lambda>a. bindE (from_mem (\<lambda>m. bindR (read_u16 a m) (\<lambda>v. Inr (v, a + 2))))
     (\<lambda>(x, b). thenE (set_eip b) (ret x)))"
  "fetch32 = bindE (gets eip) (\<lambda>a. bindE (from_mem (\<lambda>m. bindR (read_u32 a m) (\<lambda>v. Inr (v, a + 4))))
     (\<lambda>(x, b). thenE (set_eip b) (ret x)))"
  by (auto simp: fun_eq_iff fetch8_def fetch16_def fetch32_def bindE_def gets_def from_mem_def
      split: sum.splits)

lemma local_fetch [local_rules]: "local_dec fetch8" "local_dec fetch16" "local_dec fetch32"
  unfolding fetch_reader
  by (rule local_reader; auto simp: bindR_Inr_iff agree_u8 agree_u16 agree_u32)+

lemma local_fetch_imm [local_rules]: "local_dec (fetch_imm sz)"
  unfolding fetch_imm_def by (intro local_rules)

lemma local_jump [local_rules]: "local_dec (gets (jump_target rel))"
  by (rule local_gets) (simp add: jump_target_def)

section \<open>ModRM and prefixes\<close>

lemma sib_base_forward: "sib_base md rm x m = Inr (base, index, scale, disp, y) \<Longrightarrow> x \<le> y"
  by (auto simp: sib_base_def bindR_Inr_iff Let_def split: if_splits)

lemma sib_base_local:
  assumes res: "sib_base md rm x m = Inr (base, index, scale, disp, y)"
    and agree: "agree m n x y"
  shows "sib_base md rm x n = Inr (base, index, scale, disp, y)"
proof (cases "rm = 4")
  case True
  then obtain sib where sib: "read_u8 x m = Inr sib"
    using res by (auto simp: sib_base_def bindR_Inr_iff)
  then have "x + 1 \<le> y" and "read_u8 x n = Inr sib"
    using res True agree agree_u8 [OF agree, of x]
    by (auto simp: sib_base_def bindR_Inr_iff Let_def split: if_splits)
  then show ?thesis
    using res True sib agree_u32 [OF agree, of "x + 1"]
    by (auto simp: sib_base_def Let_def bindR_Inr_iff split: if_splits)
next
  case False
  then show ?thesis
    using res agree_u32 [OF agree, of x]
    by (auto simp: sib_base_def bindR_Inr_iff split: if_splits)
qed

lemma modrm_at_forward: "modrm_at x m = Inr (r, y) \<Longrightarrow> x + 1 \<le> y"
  by (fastforce simp: modrm_at_def bindR_Inr_iff Let_def dest: sib_base_forward split: if_splits)

lemma modrm_at_local:
  assumes res: "modrm_at x m = Inr (r, y)" and agree: "agree m n x y"
  shows "modrm_at x n = Inr (r, y)"
proof -
  obtain b where b: "read_u8 x m = Inr b" "read_u8 x n = Inr b"
    using res agree_u8 [OF agree, of x] modrm_at_forward [OF res]
    by (auto simp: modrm_at_def bindR_Inr_iff)
  show ?thesis
  proof (cases "drop_bit 6 b = 3")
    case True
    then show ?thesis using res b by (simp add: modrm_at_def)
  next
    case False
    then obtain base index scale disp z where
      sib: "sib_base (drop_bit 6 b) (b AND 7) (x + 1) m = Inr (base, index, scale, disp, z)"
      and z: "z \<le> y" "drop_bit 6 b = 1 \<Longrightarrow> z + 1 \<le> y" "drop_bit 6 b = 2 \<Longrightarrow> z + 4 \<le> y"
      using res b by (auto simp: modrm_at_def Let_def bindR_Inr_iff split: if_splits)
    have fwd: "x + 1 \<le> z"
      using sib by (rule sib_base_forward)
    then have "sib_base (drop_bit 6 b) (b AND 7) (x + 1) n = Inr (base, index, scale, disp, z)"
      using z(1) by (intro sib_base_local [OF sib] agree_sub [OF agree]) auto
    then show ?thesis
      using res b sib False fwd z agree_u8 [OF agree, of z] agree_u32 [OF agree, of z]
      by (auto simp: modrm_at_def Let_def bindR_Inr_iff split: if_splits)
  qed
qed

lemma local_modrm [local_rules]: "local_dec modrm_dec"
  unfolding modrm_dec_def
  by (rule local_reader) (auto dest: modrm_at_forward modrm_at_local)

lemma prefix_loop_step:
  assumes "prefix_loop op opsize rep x m = Inr r" and "op \<in> set PREFIXES"
  obtains b where "read_u8 x m = Inr b"
    and "prefix_loop b (if op = 0x66 then 2 else opsize) (if op = 0xF2 \<or> op = 0xF3 then op else rep)
       (x + 1) m = Inr r"
  using assms by (subst (asm) prefix_loop.simps) (auto simp: bindR_Inr_iff)

lemma prefix_loop_forward:
  "prefix_loop op opsize rep x m = Inr (r1, r2, r3, y) \<Longrightarrow> x \<le> y"
proof (induction op opsize rep x m rule: prefix_loop.induct)
  case (1 op opsize rep x m)
  show ?case
  proof (cases "op \<in> set PREFIXES")
    case True
    with 1(2) obtain b where "read_u8 x m = Inr b"
      "prefix_loop b (if op = 0x66 then 2 else opsize) (if op = 0xF2 \<or> op = 0xF3 then op else rep)
         (x + 1) m = Inr (r1, r2, r3, y)"
      by (rule prefix_loop_step)
    from 1(1) [OF True this] show ?thesis by simp
  next
    case False
    with 1(2) show ?thesis by (subst (asm) prefix_loop.simps) simp
  qed
qed

lemma prefix_loop_local:
  "prefix_loop op opsize rep x m = Inr (r1, r2, r3, y) \<Longrightarrow> agree m n x y \<Longrightarrow>
   prefix_loop op opsize rep x n = Inr (r1, r2, r3, y)"
proof (induction op opsize rep x m rule: prefix_loop.induct)
  case (1 op opsize rep x m)
  show ?case
  proof (cases "op \<in> set PREFIXES")
    case True
    with 1(2) obtain b where b: "read_u8 x m = Inr b" and
      rest: "prefix_loop b (if op = 0x66 then 2 else opsize) (if op = 0xF2 \<or> op = 0xF3 then op else rep)
         (x + 1) m = Inr (r1, r2, r3, y)"
      by (rule prefix_loop_step)
    have y: "x + 1 \<le> y"
      using prefix_loop_forward [OF rest] .
    have "agree m n (x + 1) y"
      using 1(3) by (rule agree_sub) auto
    from 1(1) [OF True b rest this] agree_u8 [OF 1(3), of x] b y True show ?thesis
      by (subst prefix_loop.simps) simp
  next
    case False
    with 1(2) show ?thesis by (subst (asm) prefix_loop.simps) (subst prefix_loop.simps, simp)
  qed
qed

section \<open>Every decoder\<close>

text \<open>The length field is the number of bytes from \<open>start\<close>.\<close>

definition len_dec :: "int \<Rightarrow> ('x, insn) cm \<Rightarrow> bool" where
  "len_dec start m \<longleftrightarrow> (\<forall>c e c'. m c = (Inr e, c') \<longrightarrow> e_len e = eip c' - start)"

lemma len_bindE: "(\<And>x. len_dec start (f x)) \<Longrightarrow> len_dec start (bindE m f)"
  by (auto simp: len_dec_def bindE_Inr_iff)

lemma len_if: "len_dec start m \<Longrightarrow> len_dec start n \<Longrightarrow> len_dec start (if b then m else n)"
  by simp

lemma len_split: "(\<And>x y. len_dec start (f x y)) \<Longrightarrow> len_dec start (case p of (x, y) \<Rightarrow> f x y)"
  by (simp add: split_beta)

text \<open>Local, with the right length.\<close>

definition decodes :: "int \<Rightarrow> ('x, insn) cm \<Rightarrow> bool" where
  "decodes start m \<longleftrightarrow> local_dec m \<and> len_dec start m"

named_theorems decodes_rules \<open>every decoder is local and gives the right length\<close>

lemma decodes_bindE [decodes_rules]:
  "local_dec m \<Longrightarrow> (\<And>x. decodes start (f x)) \<Longrightarrow> decodes start (bindE m f)"
  by (simp add: decodes_def local_bindE len_bindE)

lemma decodes_if [decodes_rules]:
  "decodes start m \<Longrightarrow> decodes start n \<Longrightarrow> decodes start (if b then m else n)"
  by simp

lemma decodes_split [decodes_rules]:
  "(\<And>x y. decodes start (f x y)) \<Longrightarrow> decodes start (case p of (x, y) \<Rightarrow> f x y)"
  by (simp add: split_beta)

lemma decodes_mk [decodes_rules]: "decodes start (mk start variants sz m imm)"
  unfolding decodes_def mk_def split_beta Let_def
  by (auto simp: len_dec_def gets_def intro!: local_gets)

lemma decodes_mk_reg [decodes_rules]: "decodes start (mk_reg start f sz reg base imm)"
  unfolding decodes_def mk_reg_def by (auto simp: len_dec_def gets_def intro!: local_gets)

lemma decodes_mk_E [decodes_rules]: "decodes start (mk_E start f sz reg imm)"
  unfolding mk_E_def by (rule decodes_mk_reg)

lemma decodes_mk_bad [decodes_rules]: "decodes start (mk_bad start sz m op)"
proof -
  have "local_dec (mk_bad start sz m op)"
    unfolding mk_bad_def
    by (intro local_rules decodes_mk [unfolded decodes_def, THEN conjunct1])
  moreover have "len_dec start (mk_bad start sz m op)"
    unfolding mk_bad_def mk_def split_beta Let_def
    by (auto simp: len_dec_def bindE_Inr_iff gets_def ret_def)
  ultimately show ?thesis by (simp add: decodes_def)
qed

lemma decodes_with_modrm [decodes_rules]: "decodes start (with_modrm start variants sz imm)"
  unfolding with_modrm_def by (intro decodes_rules local_rules)

lemma decodes_decoders [decodes_rules]:
  "decodes start (dec_alu op opsize start)" "decodes start (dec_incdec_r op opsize start)"
  "decodes start (dec_push_r op opsize start)" "decodes start (dec_pop_r op opsize start)"
  "decodes start (dec_push_imm op opsize start)" "decodes start (dec_imul3 op opsize start)"
  "decodes start (dec_jcc8 op opsize start)" "decodes start (dec_alu_imm op opsize start)"
  "decodes start (dec_test_rm_r op opsize start)" "decodes start (dec_xchg op opsize start)"
  "decodes start (dec_mov_rm_r op opsize start)" "decodes start (dec_mov_r_rm op opsize start)"
  "decodes start (dec_lea op opsize start)" "decodes start (dec_pop_rm op opsize start)"
  "decodes start (dec_simple f op opsize start)" "decodes start (dec_xchg_eax_r op opsize start)"
  "decodes start (dec_moffs op opsize start)" "decodes start (dec_string op opsize start)"
  unfolding dec_alu_def dec_incdec_r_def dec_push_r_def dec_pop_r_def dec_push_imm_def
    dec_imul3_def dec_jcc8_def dec_alu_imm_def dec_test_rm_r_def dec_xchg_def dec_mov_rm_r_def
    dec_mov_r_rm_def dec_lea_def dec_pop_rm_def dec_simple_def dec_xchg_eax_r_def dec_moffs_def
    dec_string_def Let_def
  by (intro decodes_rules local_rules)+

lemma decodes_decoders2 [decodes_rules]:
  "decodes start (dec_test_acc_imm op opsize start)" "decodes start (dec_mov_r8_imm op opsize start)"
  "decodes start (dec_mov_r_imm op opsize start)" "decodes start (dec_shift op opsize start)"
  "decodes start (dec_ret_n op opsize start)" "decodes start (dec_mov_rm_imm op opsize start)"
  "decodes start (dec_enter op opsize start)" "decodes start (dec_int op opsize start)"
  "decodes start (dec_loop op opsize start)" "decodes start (dec_call_rel op opsize start)"
  "decodes start (dec_jmp_rel32 op opsize start)" "decodes start (dec_jmp_rel8 op opsize start)"
  "decodes start (dec_grp_f7 op opsize start)" "decodes start (dec_grp_ff op opsize start)"
  "decodes start (dec_jcc32 op opsize start)" "decodes start (dec_setcc op opsize start)"
  "decodes start (dec_bt op opsize start)" "decodes start (dec_shd op opsize start)"
  "decodes start (dec_movx op opsize start)"
  unfolding dec_test_acc_imm_def dec_mov_r8_imm_def dec_mov_r_imm_def dec_shift_def dec_ret_n_def
    dec_mov_rm_imm_def dec_enter_def dec_int_def dec_loop_def dec_call_rel_def dec_jmp_rel32_def
    dec_jmp_rel8_def dec_grp_f7_def dec_grp_ff_def dec_jcc32_def dec_setcc_def dec_bt_def
    dec_shd_def dec_movx_def Let_def
  by (intro decodes_rules local_rules)+

lemma decodes_DEC: "decodes start (DEC op opsize start)"
proof -
  have "decodes start (DEC0F op opsize start)" for op :: int
    unfolding DEC0F_def by (intro decodes_rules)
  then have "decodes start (dec_0f op opsize start)"
    unfolding dec_0f_def by (intro decodes_rules local_rules)
  then show ?thesis unfolding DEC_def by (intro decodes_rules)
qed

section \<open>\<open>_decode\<close> and the freshness of the cache\<close>

lemma run_from:
  assumes "decodes start m" and "thenE (set_eip a) m c = (Inr e, c')"
  shows "a \<le> eip c'" "e_len e = eip c' - start" "c' = c\<lparr>eip := eip c'\<rparr>"
    and "agree (mem c) (mem d) a (eip c') \<Longrightarrow> thenE (set_eip a) m d = (Inr e, d\<lparr>eip := eip c'\<rparr>)"
proof -
  have m: "m (c\<lparr>eip := a\<rparr>) = (Inr e, c')" and l: "local_dec m" and n: "len_dec start m"
    using assms by (simp_all add: thenE_def bindE_def set_eip_def modify_def decodes_def)
  note res = local_decD [OF l m]
  show "a \<le> eip c'" "e_len e = eip c' - start"
    using res(1) n m by (auto simp: len_dec_def)
  show "c' = c\<lparr>eip := eip c'\<rparr>"
    by (subst res(2)) simp
  show "thenE (set_eip a) m d = (Inr e, d\<lparr>eip := eip c'\<rparr>)" if "agree (mem c) (mem d) a (eip c')"
    using res(3) [of "d\<lparr>eip := a\<rparr>"] that
    by (simp add: thenE_def bindE_def set_eip_def modify_def)
qed

text \<open>\<open>_decode\<close> after the opcode byte \<open>op\<close>.\<close>

definition decode_rest :: "int \<Rightarrow> int \<Rightarrow> ('x, insn) cm" where
  "decode_rest start op =
     (if op \<in> set PREFIXES then
        bindE (from_mem (prefix_loop op 4 0 (start + 1))) (\<lambda>(opsize, rep, op, a).
        thenE (set_eip a)
        (if rep \<noteq> 0 \<and> 0xA4 \<le> op \<and> op \<le> 0xAF \<and> op \<noteq> 0xA8 \<and> op \<noteq> 0xA9
         then mk_E start H_string opsize op rep
         else if rep \<noteq> 0 \<and> op = 0x90 then mk_E start H_nop opsize 0 0
         else DEC op opsize start))
      else thenE (set_eip (start + 1)) (DEC op 4 start))"

lemma decode_alt:
  "decode start c = (case read_u8 start (mem c) of Inl ex \<Rightarrow> (Inl ex, c\<lparr>insn_start := start\<rparr>)
     | Inr op \<Rightarrow> decode_rest start op (c\<lparr>insn_start := start\<rparr>))"
  by (simp add: decode_def decode_rest_def thenE_def bindE_def modify_def from_mem_def
      split: sum.splits)

lemma decode_rest_local:
  fixes c c' :: "'x cpu_scheme"
  assumes res: "decode_rest start op c = (Inr e, c')"
  shows "start < eip c' \<and> e_len e = eip c' - start \<and> c' = c\<lparr>eip := eip c'\<rparr> \<and>
    (\<forall>d :: 'x cpu_scheme. agree (mem c) (mem d) start (eip c') \<longrightarrow> decode_rest start op d = (Inr e, d\<lparr>eip := eip c'\<rparr>))"
proof (cases "op \<in> set PREFIXES")
  case True
  define m :: "int \<Rightarrow> int \<Rightarrow> int \<Rightarrow> ('x, insn) cm" where "m opsize rep op =
      (if rep \<noteq> 0 \<and> 0xA4 \<le> op \<and> op \<le> 0xAF \<and> op \<noteq> 0xA8 \<and> op \<noteq> 0xA9
       then mk_E start H_string opsize op rep
       else if rep \<noteq> 0 \<and> op = 0x90 then mk_E start H_nop opsize 0 0
       else DEC op opsize start)" for opsize rep op
  have run: "decode_rest start op d = (case prefix_loop op 4 0 (start + 1) (mem d) of
      Inl ex \<Rightarrow> (Inl ex, d) | Inr (opsize, rep, op2, a) \<Rightarrow> thenE (set_eip a) (m opsize rep op2) d)"
    for d :: "'x cpu_scheme"
    using True by (simp add: decode_rest_def bindE_def from_mem_def m_def split: sum.splits prod.splits)
  have "fst (decode_rest start op c) = Inl ex" if "prefix_loop op 4 0 (start + 1) (mem c) = Inl ex" for ex
    unfolding run that by simp
  then obtain r where r: "prefix_loop op 4 0 (start + 1) (mem c) = Inr r"
    using res by (cases "prefix_loop op 4 0 (start + 1) (mem c)") simp_all
  obtain opsize rep op2 a where "r = (opsize, rep, op2, a)"
    by (metis prod.collapse)
  with r have pre: "prefix_loop op 4 0 (start + 1) (mem c) = Inr (opsize, rep, op2, a)"
    by simp
  have body: "thenE (set_eip a) (m opsize rep op2) c = (Inr e, c')"
    using res [unfolded run] by (simp only: pre sum.case prod.case)
  have "decodes start (m opsize rep op2)"
    unfolding m_def by (intro decodes_rules decodes_DEC)
  note frm = run_from [OF this body]
  have a: "start + 1 \<le> a"
    using pre by (rule prefix_loop_forward)
  have other: "decode_rest start op d = (Inr e, d\<lparr>eip := eip c'\<rparr>)"
    if "agree (mem c) (mem d) start (eip c')" for d :: "'x cpu_scheme"
  proof -
    have "prefix_loop op 4 0 (start + 1) (mem d) = Inr (opsize, rep, op2, a)"
      using that frm(1) by (intro prefix_loop_local [OF pre] agree_sub [OF that]) auto
    moreover have "thenE (set_eip a) (m opsize rep op2) d = (Inr e, d\<lparr>eip := eip c'\<rparr>)"
      using a by (intro frm(4) agree_sub [OF that]) auto
    ultimately show ?thesis by (simp add: run)
  qed
  have "start < eip c'"
    using frm(1) a by simp
  then show ?thesis
    by (intro conjI allI impI frm(2,3) other)
next
  case False
  have run: "decode_rest start op = thenE (set_eip (start + 1)) (DEC op 4 start)"
    using False by (simp add: decode_rest_def)
  note frm = run_from [OF decodes_DEC res [unfolded run]]
  have other: "decode_rest start op d = (Inr e, d\<lparr>eip := eip c'\<rparr>)"
    if "agree (mem c) (mem d) start (eip c')" for d :: "'x cpu_scheme"
    unfolding run by (intro frm(4) agree_sub [OF that]) auto
  have "start < eip c'"
    using frm(1) by simp
  then show ?thesis
    by (intro conjI allI impI frm(2,3) other)
qed

lemma decode_local:
  fixes c c' d :: "'x cpu_scheme"
  assumes "decode start c = (Inr e, c')"
  shows "start < eip c'" "e_len e = eip c' - start" "c' = c\<lparr>insn_start := start, eip := eip c'\<rparr>"
    and "agree (mem c) (mem d) start (eip c') \<Longrightarrow>
      decode start d = (Inr e, d\<lparr>insn_start := start, eip := eip c'\<rparr>)"
proof -
  from assms obtain op where op: "read_u8 start (mem c) = Inr op"
    and rest: "decode_rest start op (c\<lparr>insn_start := start\<rparr>) = (Inr e, c')"
    by (auto simp: decode_alt split: sum.splits)
  note loc = decode_rest_local [OF rest]
  show pos: "start < eip c'" and "e_len e = eip c' - start"
    using loc by auto
  show "c' = c\<lparr>insn_start := start, eip := eip c'\<rparr>"
    using loc by metis
  show "decode start d = (Inr e, d\<lparr>insn_start := start, eip := eip c'\<rparr>)"
    if "agree (mem c) (mem d) start (eip c')"
  proof -
    have "read_u8 start (mem d) = Inr op"
      using agree_u8 [OF that, of start] pos op by simp
    moreover have "decode_rest start op (d\<lparr>insn_start := start\<rparr>) =
        (Inr e, d\<lparr>insn_start := start, eip := eip c'\<rparr>)"
      by (rule loc [THEN conjunct2, THEN conjunct2, THEN conjunct2, rule_format]) (simp add: that)
    ultimately show ?thesis by (simp add: decode_alt)
  qed
qed

text \<open>
  The state of the cache the code means to keep: an entry ends inside the text and is what
  decoding its address gives now. The code guarantees the second part for entries of at
  most 16 bytes, because a write clears the 15 slots below it.
\<close>

definition fresh :: "'x cpu_scheme \<Rightarrow> bool" where
  "fresh c \<longleftrightarrow> (\<forall>k e. k < length (icache (mem c)) \<and> icache (mem c) ! k = Some e \<longrightarrow>
     int k + e_len e \<le> int (length (icache (mem c))) \<and>
     (e_len e \<le> 16 \<longrightarrow>
       decode (int k) c = (Inr e, c\<lparr>insn_start := int k, eip := int k + e_len e\<rparr>)))"

lemma freshD:
  assumes "fresh c" and "k < length (icache (mem c))" and "icache (mem c) ! k = Some e"
  shows "int k + e_len e \<le> int (length (icache (mem c)))"
    and "e_len e \<le> 16 \<Longrightarrow> decode (int k) c = (Inr e, c\<lparr>insn_start := int k, eip := int k + e_len e\<rparr>)"
  using assms by (auto simp: fresh_def)

lemma fresh_mono:
  fixes c d :: "'x cpu_scheme"
  assumes "fresh c" and len: "length (icache (mem d)) = length (icache (mem c))"
    and slot: "\<And>k e. k < length (icache (mem c)) \<Longrightarrow> icache (mem d) ! k = Some e \<Longrightarrow>
      icache (mem c) ! k = Some e"
    and same: "\<And>k e. k < length (icache (mem c)) \<Longrightarrow> icache (mem d) ! k = Some e \<Longrightarrow> e_len e \<le> 16 \<Longrightarrow>
      int k + e_len e \<le> int (length (icache (mem c))) \<Longrightarrow> agree (mem c) (mem d) (int k) (int k + e_len e)"
  shows "fresh d"
  unfolding fresh_def len
proof (intro allI impI, elim conjE)
  fix k e
  assume k: "k < length (icache (mem c))" and e: "icache (mem d) ! k = Some e"
  note old = freshD [OF assms(1) k slot [OF k e]]
  have "decode (int k) d = (Inr e, d\<lparr>insn_start := int k, eip := int k + e_len e\<rparr>)" if "e_len e \<le> 16"
    using decode_local(4) [OF old(2) [OF that], of d] same [OF k e that old(1)] by simp
  with old(1) show "int k + e_len e \<le> int (length (icache (mem c))) \<and>
      (e_len e \<le> 16 \<longrightarrow> decode (int k) d = (Inr e, d\<lparr>insn_start := int k, eip := int k + e_len e\<rparr>))"
    by blast
qed

lemma agree_refl: "as_wf m \<Longrightarrow> 0 \<le> a \<Longrightarrow> b \<le> int (length (icache m)) \<Longrightarrow> agree m m a b"
  by (auto simp: agree_def as_wf_def)

lemma fresh_cong:
  fixes c d :: "'x cpu_scheme"
  assumes "as_wf (mem c)" and "mem d = mem c"
  shows "fresh c \<longleftrightarrow> fresh d"
  using assms fresh_mono [of c d] fresh_mono [of d c] agree_refl [OF assms(1)] by auto

lemma fresh_upd [simp]:
  "as_wf (mem c) \<Longrightarrow> fresh (c\<lparr>regs := r\<rparr>) = fresh c" "as_wf (mem c) \<Longrightarrow> fresh (c\<lparr>eip := a\<rparr>) = fresh c"
  "as_wf (mem c) \<Longrightarrow> fresh (c\<lparr>flags := f\<rparr>) = fresh c" "as_wf (mem c) \<Longrightarrow> fresh (c\<lparr>halted := b\<rparr>) = fresh c"
  "as_wf (mem c) \<Longrightarrow> fresh (c\<lparr>icount := n\<rparr>) = fresh c"
  "as_wf (mem c) \<Longrightarrow> fresh (c\<lparr>insn_start := a\<rparr>) = fresh c" "as_wf (mem c) \<Longrightarrow> fresh (c\<lparr>prof := p\<rparr>) = fresh c"
  by (rule fresh_cong; simp)+

text \<open>A write keeps the cache fresh: it clears what it may have invalidated.\<close>

lemma fresh_poke_low:
  assumes wf: "as_wf (mem c)" and "fresh c" and low: "in_low a (int (length d)) (mem c)"
  shows "fresh (c\<lparr>mem := poke_low a d (mem c)\<rparr>)"
proof (rule fresh_mono [OF assms(2)]; simp)
  let ?m = "mem c"
  have cache: "icache (poke_low a d ?m) =
      (if a < text_end ?m then icache (flush_icache a (int (length d)) ?m) else icache ?m)"
    by (simp add: poke_low_def Let_def flush_icache_def)
  show len: "length (icache (poke_low a d ?m)) = length (icache ?m)"
    using low by (auto simp: cache flush_icache_def Let_def in_low_def)
  fix k e
  assume k: "k < length (icache ?m)" and e: "icache (poke_low a d ?m) ! k = Some e"
  have surv: "icache ?m ! k = Some e \<and> (a < text_end ?m \<longrightarrow> int k + 15 < a \<or> a + int (length d) \<le> int k)"
  proof (cases "a < text_end ?m")
    case True
    with e len k low flush_icache_survivor [of k a "int (length d)" ?m e] show ?thesis
      by (auto simp: cache in_low_def)
  qed (use e in \<open>simp add: cache\<close>)
  then show "icache ?m ! k = Some e" by blast
  assume "e_len e \<le> 16" and end_: "int k + e_len e \<le> int (length (icache ?m))"
  then have away: "x < a \<or> a + int (length d) \<le> x" if "int k \<le> x" "x < int k + e_len e" for x
    using surv that wf by (auto simp: as_wf_def)
  have "low ?m ! nat x = low (poke_low a d ?m) ! nat x" if "int k \<le> x" "x < int k + e_len e" for x
    using away [OF that] that wf low end_
    by (auto simp: as_wf_def in_low_def nth_blit nat_less_iff nat_le_iff)
  then show "agree ?m (poke_low a d ?m) (int k) (int k + e_len e)"
    using wf low end_ by (auto simp: agree_def as_wf_def in_low_def)
qed

lemma fresh_stack: "as_wf (mem c) \<Longrightarrow> fresh c \<Longrightarrow> low m = low (mem c) \<Longrightarrow> low_end m = low_end (mem c) \<Longrightarrow>
  icache m = icache (mem c) \<Longrightarrow> fresh (c\<lparr>mem := m\<rparr>)"
  by (rule fresh_mono [of c]) (auto simp: agree_def as_wf_def)

lemma fresh_write:
  assumes "as_wf (mem c)" and "fresh c"
  shows "fresh (c\<lparr>mem := snd (mem_write a d (mem c))\<rparr>)"
proof (rule grow_stack_cases [of a "mem c"])
  assume "fst (grow_stack a (mem c)) = False" "snd (grow_stack a (mem c)) = mem c"
  then have "grow_stack a (mem c) = (False, mem c)"
    by (metis prod.collapse)
  with assms show ?thesis
    by (auto simp: mem_write_unfold Let_def fresh_poke_low intro: fresh_stack)
next
  fix t k
  assume "grow_stack a (mem c) = (True, t)"
    and "t = mem c\<lparr>stack := replicate k 0 @ stack (mem c), stack_low := stack_low (mem c) - int k\<rparr>"
  with assms show ?thesis
    by (auto simp: mem_write_unfold Let_def fresh_poke_low intro: fresh_stack)
qed

end
