(* ===== verification/Cpu_Inv.thy ===== *)
theory Cpu_Inv
  imports Cpu_Local
begin

text \<open>
  The representation invariant of \<open>src/cpu86.py\<close>: eight registers that hold 32-bit values,
  flags without reserved bits, a well-formed address space, and a cache of well-formed
  instructions that is fresh. Every handler, every decoder and the main loops keep it; the decoders
  return only well-formed tuples, which is why the \<open>masked\<close> writes of the templates need no
  mask.
\<close>

section \<open>32-bit values\<close>

definition u32 :: "int \<Rightarrow> bool" where
  "u32 v \<longleftrightarrow> 0 \<le> v \<and> v < 4294967296"

named_theorems u32_intros \<open>operations that stay in 32 bits\<close>

lemma u32_take_bit: "u32 v \<longleftrightarrow> take_bit 32 v = v"
  by (auto simp: u32_def take_bit_int_eq_self_iff)

lemma u32_or [u32_intros]: "u32 a \<Longrightarrow> u32 b \<Longrightarrow> u32 (a OR b)"
  by (simp add: u32_take_bit)

lemma u32_xor [u32_intros]: "u32 a \<Longrightarrow> u32 b \<Longrightarrow> u32 (a XOR b)"
  by (simp add: u32_take_bit)

lemma take_bit_and_left: "take_bit n a = a \<Longrightarrow> take_bit n (a AND b) = a AND (b :: int)"
  by (metis take_bit_and and.assoc and.commute take_bit_eq_mask)

lemma u32_and [u32_intros]: "u32 a \<Longrightarrow> u32 (a AND b)"
  by (simp only: u32_take_bit take_bit_and_left)

lemma u32_and2: "u32 b \<Longrightarrow> u32 (a AND b)"
  using u32_and [of b a] by (simp add: and.commute)

lemma u32_numerals [simp]: "u32 0" "u32 1" "u32 0xFF" "u32 0xFFFF" "u32 0xFFFF0000" "u32 0xFFFFFF00" "u32 31"
  "u32 0xFFFF00FF" "u32 MASK32" "u32 0xFFFFFFFF" "u32 (MASK_of sz)" "u32 7" "u32 0x80000000" "u32 1"
  by (simp_all add: u32_def MASK32_def MASK_of_def)

lemma u32_mask [u32_intros]: "u32 (a AND MASK32)" "u32 (a AND 0xFF)" "u32 (a AND 0xFFFF)"
  "u32 (a AND MASK_of sz)"
  by (simp_all add: u32_and2)

lemma u32_drop_bit [u32_intros]: "u32 a \<Longrightarrow> u32 (drop_bit n a)"
  using zdiv_mono2 [of a 1 "2 ^ n"]
  by (auto simp: u32_def drop_bit_eq_div pos_imp_zdiv_nonneg_iff intro: le_less_trans)

lemma u32_hi_byte [u32_intros]: "u32 (a AND 65280)"
  by (rule u32_and2) (simp add: u32_def)

section \<open>The invariant\<close>

definition flags_ok :: "int \<Rightarrow> bool" where
  "flags_ok f \<longleftrightarrow> f AND 0xED7 = f \<and> f AND 0x202 = 0x202"

text \<open>What the decoders guarantee of a tuple, and the handlers rely on.\<close>

definition reg_field :: "handler \<Rightarrow> bool" where
  "reg_field f \<longleftrightarrow> f \<notin> {H_string, H_loop, H_bad, H_enter} \<and> (\<forall>cc form. f \<noteq> Gen (Jcc cc) form)"

definition form_ok :: "insn \<Rightarrow> bool" where
  "form_ok e \<longleftrightarrow> (case e_fn e of
     Gen t form \<Rightarrow> (form = 0 \<or> form = 2 \<longrightarrow> e_base e \<noteq> None) \<and> (form = 3 \<longrightarrow> e_index e \<noteq> None)
       \<and> (form = 1 \<longrightarrow> u32 (e_disp e))
   | _ \<Rightarrow> e_mod e = 3 \<longrightarrow> e_base e \<noteq> None)"

definition insn_wf :: "insn \<Rightarrow> bool" where
  "insn_wf e \<longleftrightarrow> 0 < e_len e \<and> e_size e \<in> {1, 2, 4} \<and> form_ok e
     \<and> (reg_field (e_fn e) \<longrightarrow> 0 \<le> e_reg e \<and> e_reg e < 8)
     \<and> (\<forall>b. e_base e = Some b \<longrightarrow> 0 \<le> b \<and> b < 8) \<and> (\<forall>i. e_index e = Some i \<longrightarrow> 0 \<le> i \<and> i < 8)
     \<and> (e_fn e \<noteq> H_imul3 \<longrightarrow> u32 (e_imm e))"

definition cache_wf :: "insn addrspace \<Rightarrow> bool" where
  "cache_wf m \<longleftrightarrow> (\<forall>e. Some e \<in> set (icache m) \<longrightarrow> insn_wf e)"

definition cpu_ok :: "'x cpu_scheme \<Rightarrow> bool" where
  "cpu_ok c \<longleftrightarrow> length (regs c) = 8 \<and> (\<forall>r \<in> set (regs c). u32 r) \<and> flags_ok (flags c)
     \<and> 0 \<le> eip c \<and> mem_ok (mem c) \<and> cache_wf (mem c) \<and> fresh c"

lemma mem_ok_wf: "mem_ok m \<Longrightarrow> as_wf m"
  by (simp add: mem_ok_def)

section \<open>Primitives\<close>

lemma u32_rg: "cpu_ok c \<Longrightarrow> 0 \<le> r \<Longrightarrow> r < 8 \<Longrightarrow> u32 (rg r c)"
  by (auto simp: cpu_ok_def rg_def)

lemma cpu_ok_set_rg: "cpu_ok c \<Longrightarrow> u32 v \<Longrightarrow> cpu_ok (set_rg r v c)"
  by (auto simp: cpu_ok_def set_rg_def mem_ok_wf dest: set_update_subset_insert [THEN subsetD])

lemma cpu_ok_flags: "cpu_ok c \<Longrightarrow> flags_ok f \<Longrightarrow> cpu_ok (c\<lparr>flags := f\<rparr>)"
  by (simp add: cpu_ok_def mem_ok_wf)

lemma cpu_ok_other:
  "cpu_ok (c\<lparr>halted := b\<rparr>) = cpu_ok c" "cpu_ok (c\<lparr>icount := n\<rparr>) = cpu_ok c"
  "cpu_ok (c\<lparr>insn_start := n\<rparr>) = cpu_ok c" "cpu_ok (c\<lparr>prof := p\<rparr>) = cpu_ok c"
  by (simp_all add: cpu_ok_def mem_ok_wf cong: conj_cong)

lemma cpu_ok_eip: "cpu_ok c \<Longrightarrow> 0 \<le> a \<Longrightarrow> cpu_ok (c\<lparr>eip := a\<rparr>)"
  by (simp add: cpu_ok_def mem_ok_wf)

lemma u32_get_reg8: "cpu_ok c \<Longrightarrow> u32 (get_reg8 r c)"
  by (simp add: get_reg8_def u32_intros)

lemma u32_get_reg16: "u32 (get_reg16 r c)"
  by (simp add: get_reg16_def u32_intros)

lemma u32_read_reg: "cpu_ok c \<Longrightarrow> 0 \<le> r \<Longrightarrow> r < 8 \<Longrightarrow> u32 (read_reg r sz c)"
  by (simp add: read_reg_def u32_get_reg8 u32_rg u32_intros)

lemma u32_rd_reg: "cpu_ok c \<Longrightarrow> 0 \<le> r \<Longrightarrow> r < 8 \<Longrightarrow> u32 (rd_reg sz r c)"
  by (simp add: rd_reg_def u32_rg u32_intros)

lemma cpu_ok_set_reg8: "cpu_ok c \<Longrightarrow> 0 \<le> r \<Longrightarrow> r < 8 \<Longrightarrow> cpu_ok (set_reg8 r v c)"
  by (simp add: set_reg8_def Let_def cpu_ok_set_rg u32_rg u32_intros)

lemma cpu_ok_set_reg16: "cpu_ok c \<Longrightarrow> 0 \<le> r \<Longrightarrow> r < 8 \<Longrightarrow> cpu_ok (set_reg16 r v c)"
  by (simp add: set_reg16_def cpu_ok_set_rg u32_rg u32_intros)

lemma cpu_ok_write_reg: "cpu_ok c \<Longrightarrow> 0 \<le> r \<Longrightarrow> r < 8 \<Longrightarrow> cpu_ok (write_reg r sz v c)"
  by (simp add: write_reg_def cpu_ok_set_reg8 cpu_ok_set_reg16 cpu_ok_set_rg u32_intros)

lemma cpu_ok_wr_reg:
  "cpu_ok c \<Longrightarrow> 0 \<le> r \<Longrightarrow> r < 8 \<Longrightarrow> masked \<and> sz = 4 \<longrightarrow> u32 v \<Longrightarrow> cpu_ok (wr_reg sz r v masked c)"
  by (simp add: wr_reg_def cpu_ok_set_rg u32_rg u32_intros)

subsection \<open>Memory\<close>

lemma cache_wf_flush: "cache_wf m \<Longrightarrow> cache_wf (flush_icache a n m)"
  by (auto simp: cache_wf_def flush_icache_def Let_def blit_def
      dest: in_set_takeD in_set_dropD)

lemma cache_wf_same: "icache m' = icache m \<Longrightarrow> cache_wf m \<Longrightarrow> cache_wf m'"
  by (simp add: cache_wf_def)

lemma cache_wf_fields [simp]: "cache_wf (m\<lparr>low := x\<rparr>) = cache_wf m"
  "cache_wf (m\<lparr>stack := y, stack_low := z\<rparr>) = cache_wf m" "cache_wf (poke_stack a d m) = cache_wf m"
  by (simp_all add: cache_wf_def)

lemma cache_wf_poke_low: "cache_wf m \<Longrightarrow> cache_wf (poke_low a d m)"
  by (simp add: poke_low_def Let_def cache_wf_flush)

lemma cache_wf_write: "cache_wf m \<Longrightarrow> cache_wf (snd (mem_write a d m))"
  by (rule grow_stack_cases [of a m])
    (auto simp: mem_write_unfold Let_def cache_wf_poke_low split: prod.splits bool.splits)

lemma cpu_ok_write: "cpu_ok c \<Longrightarrow> cpu_ok (c\<lparr>mem := snd (mem_write a d (mem c))\<rparr>)"
  by (simp add: cpu_ok_def mem_ok_write cache_wf_write fresh_write mem_ok_wf)

lemma gives_on_mem_write: "gives cpu_ok (on_mem (mem_write a d)) (\<lambda>_. True)"
  by (simp add: gives_def on_mem_def split_beta cpu_ok_write)

lemma gives_write_mem [gives_rules]:
  "gives cpu_ok (on_mem (mem_write a d)) (\<lambda>_. True)"
  "gives cpu_ok (on_mem (write_u8 a v)) (\<lambda>_. True)"
  "gives cpu_ok (on_mem (write_u16 a v)) (\<lambda>_. True)"
  "gives cpu_ok (on_mem (write_u32 a v)) (\<lambda>_. True)"
  using gives_on_mem_write
  by (auto simp: write_u8_eq [abs_def] write_u16_eq [abs_def] write_u32_eq [abs_def])

lemma u32_reads:
  "read_u8 a s = Inr v \<Longrightarrow> u32 v" "read_u16 a s = Inr v \<Longrightarrow> u32 v" "read_u32 a s = Inr v \<Longrightarrow> u32 v"
  using le32_bounds le16_bounds
  by (auto simp: read_u8_def read_u16_def read_u32_def u32_def u16_at_def u32_at_def
      split: if_splits intro: less_trans [OF uint_byte_bounds(2)] less_trans [OF le16_bounds(2)])

lemma gives_from_mem [gives_rules]:
  "(\<And>s v. f s = Inr v \<Longrightarrow> R v) \<Longrightarrow> gives cpu_ok (from_mem f) R"
  by (simp add: gives_def from_mem_def)

section \<open>Flags\<close>

lemma and_or_left_absorb: "(x :: int) OR (y AND x) = x"
  by (rule bit_eqI) (auto simp: bit_simps)

lemma flags_ok_or:
  assumes "flags_ok f" and "m AND 0xED7 = m"
  shows "flags_ok (f OR m)"
  using assms by (simp only: flags_ok_def bit.conj_disj_distrib2 and_or_left_absorb simp_thms)

lemma flags_ok_if: "flags_ok f \<Longrightarrow> m AND 0xED7 = m \<Longrightarrow> flags_ok (flag_if b m f)"
  by (simp add: flag_if_def flags_ok_or)

lemma flag_masks: "CF AND 0xED7 = CF" "PF AND 0xED7 = PF" "AF AND 0xED7 = AF" "ZF AND 0xED7 = ZF"
  "SF AND 0xED7 = SF" "DF AND 0xED7 = DF" "OF_FLAG AND 0xED7 = OF_FLAG"
  "(CF OR OF_FLAG) AND 0xED7 = CF OR OF_FLAG" "PARITY i AND 0xED7 = PARITY i"
  by (simp_all add: flag_consts PARITY_def)


lemma base_flags: "flags_ok (EFLAGS_BASE OR (fl AND DF))" "flags_ok (EFLAGS_BASE OR (fl AND (DF OR CF)))"
  by (rule flags_ok_or, simp add: flags_ok_def EFLAGS_BASE_def,
      simp add: and.assoc flag_consts)+

lemma flags_ok_bits:
  assumes "flags_ok f" and "NOT m AND 0x202 = 0x202"
  shows "flags_ok (f AND NOT m)"
proof -
  have "(f AND NOT m) AND 0xED7 = (f AND 0xED7) AND NOT m"
    by (simp only: ac_simps)
  moreover have "(f AND NOT m) AND 0x202 = f AND (NOT m AND 0x202)"
    by (simp only: ac_simps)
  ultimately show ?thesis using assms by (simp add: flags_ok_def)
qed

lemmas flags_ok_intros = flags_ok_or flags_ok_if base_flags flags_ok_bits

lemma flags_ok_logic: "flags_ok (logic_flags sz res fl)" "flags_ok (f_logic sz res fl)"
  by (simp_all add: logic_flags_def f_logic_def Let_def flags_ok_intros flag_masks)

lemma flags_ok_arith:
  "flags_ok (add_flags a b res sz c fl)" "flags_ok (sub_flags a b res sz c fl)"
  "flags_ok (snd (f_add sz a b c res fl))" "flags_ok (snd (f_sub sz a b c res fl))"
  "flags_ok (snd (inc_body sz a fl))" "flags_ok (snd (dec_body sz a fl))"
  by (simp_all add: add_flags_def sub_flags_def f_add_def f_sub_def inc_body_def dec_body_def
      Let_def flags_ok_intros flag_masks)

lemma flags_ok_alu: "flags_ok (snd (alu_body op sz a b fl))"
  by (simp add: alu_body_def Let_def flags_ok_arith flags_ok_logic)

lemma flags_ok_mul: "flags_ok (mul_flags b res sz fl)" "flags_ok (imul_flags res sz fl)"
  by (simp_all add: imul_flags_def mul_flags_def Let_def flags_ok_intros flag_masks)

lemma flags_ok_shift: "flags_ok (shift_flags kind sz res cnt cf ov fl)"
proof -
  have "(fl AND (ZF OR SF OR PF OR AF)) AND 0xED7 = fl AND (ZF OR SF OR PF OR AF)"
    by (simp add: flag_consts and.assoc)
  then have "flags_ok (f OR fl AND (ZF OR SF OR PF OR AF))" if "flags_ok f" for f
    using that by (rule_tac flags_ok_or)
  then show ?thesis
    by (simp add: shift_flags_def Let_def flags_ok_intros flag_masks)
qed

lemma flags_ok_set: "flags_ok ((val AND 0x0CD5) OR EFLAGS_BASE)"
  by (subst or.commute, rule flags_ok_or) (simp_all add: flags_ok_def EFLAGS_BASE_def and.assoc)

lemma flags_ok_sahf:
  assumes "flags_ok f"
  shows "flags_ok ((f AND NOT 0xFF) OR (ah AND 0xD5) OR 0x02)"
proof -
  have "(f AND NOT 0xFF) AND 0xED7 = (f AND 0xED7) AND NOT 0xFF"
    by (simp only: ac_simps)
  then have 1: "(f AND NOT 0xFF) AND 0xED7 = f AND NOT 0xFF"
    using assms by (simp add: flags_ok_def)
  have "(f AND NOT 0xFF) AND 0x202 = (f AND 0x202) AND NOT 0xFF"
    by (simp only: ac_simps)
  then have 2: "(f AND NOT 0xFF) AND 0x202 = 0x200"
    using assms by (simp add: flags_ok_def)
  have 3: "(ah AND 0xD5) AND 0xED7 = ah AND 0xD5" "(ah AND 0xD5) AND 0x202 = 0"
    by (simp_all add: and.assoc)
  show ?thesis
    unfolding flags_ok_def bit.conj_disj_distrib2 1 2 3 by simp
qed

section \<open>Values the bodies compute\<close>

lemma u32_alu: "u32 a \<Longrightarrow> u32 b \<Longrightarrow> u32 (fst (alu_body op sz a b fl))"
  by (simp add: alu_body_def f_add_def f_sub_def Let_def u32_intros)

lemma u32_bodies: "u32 (fst (inc_body sz a fl))" "u32 (fst (dec_body sz a fl))"
  "u32 (fst (f_sub sz a b c res fl))"
  by (simp_all add: inc_body_def dec_body_def f_sub_def Let_def u32_intros)

lemma u32_shift: "u32 a \<Longrightarrow> u32 (fst (shift_body kind sz a cnt))"
  by (simp add: shift_body_def Let_def u32_intros)

section \<open>Handlers\<close>

text \<open>Sequencing rules that keep what the read value is.\<close>

lemma gives_bind_gets:
  "(\<And>c. I c \<Longrightarrow> gives I (k (f c)) Q) \<Longrightarrow> gives I (bindE (gets f) k) Q"
  by (auto simp: gives_def bindE_def gets_def)

lemma gives_bind_mem:
  "(\<And>m v. f m = Inr v \<Longrightarrow> gives I (k v) Q) \<Longrightarrow> gives I (bindE (from_mem f) k) Q"
  by (auto simp: gives_def bindE_def from_mem_def split: sum.splits)

lemma gives_bind_if:
  "(b \<Longrightarrow> gives I (bindE m k) Q) \<Longrightarrow> (\<not> b \<Longrightarrow> gives I (bindE n k) Q) \<Longrightarrow>
   gives I (bindE (if b then m else n) k) Q"
  by simp

lemmas cpu_gives = gives_ret gives_raise gives_modify gives_thenE gives_if gives_write_mem
  gives_bind_gets gives_bind_mem gives_bind_if

lemmas cpu_ok_simps = u32_intros u32_rg u32_get_reg8 u32_get_reg16 u32_read_reg u32_rd_reg
  cpu_ok_set_rg cpu_ok_set_reg8 cpu_ok_set_reg16 cpu_ok_write_reg cpu_ok_wr_reg cpu_ok_other
  cpu_ok_flags flags_ok_logic flags_ok_arith flags_ok_alu flags_ok_mul flags_ok_shift flags_ok_set

lemma u32_nonneg: "u32 v \<Longrightarrow> 0 \<le> v"
  by (simp add: u32_def)

lemma cpu_ok_set_eip: "cpu_ok c \<Longrightarrow> u32 a \<Longrightarrow> cpu_ok (c\<lparr>eip := a\<rparr>)"
  by (simp add: cpu_ok_eip u32_nonneg)

lemma gives_set_eip [gives_rules]: "u32 a \<Longrightarrow> gives cpu_ok (set_eip a) (\<lambda>_. True)"
  by (simp add: set_eip_def gives_modify cpu_ok_set_eip)

lemma gives_set_flags [gives_rules]: "flags_ok f \<Longrightarrow> gives cpu_ok (set_flags f) (\<lambda>_. True)"
  by (simp add: set_flags_def gives_modify cpu_ok_flags)

lemma gives_push [gives_rules]:
  "gives cpu_ok (push32 v) (\<lambda>_. True)" "gives cpu_ok (push16 v) (\<lambda>_. True)"
  unfolding push32_def push16_def Let_def
  by (intro cpu_gives TrueI; simp add: cpu_ok_simps)+

lemma gives_pop: "gives cpu_ok pop32 u32" "gives cpu_ok pop16 u32"
  unfolding pop32_def pop16_def
  by (intro cpu_gives TrueI; simp add: cpu_ok_simps u32_reads)+

lemma gives_read_rm:
  "md = 3 \<longrightarrow> 0 \<le> r \<and> r < 8 \<Longrightarrow> gives cpu_ok (read_rm md r a sz) u32"
  by (auto simp: read_rm_def intro!: gives_gets gives_from_mem u32_read_reg
      split: if_splits dest: u32_reads)

lemma gives_read_sized: "gives cpu_ok (read_mem_sized a sz) u32"
  by (auto simp: read_mem_sized_def intro!: gives_from_mem split: if_splits dest: u32_reads)

lemma gives_write_rm [gives_rules]:
  "md = 3 \<longrightarrow> 0 \<le> r \<and> r < 8 \<Longrightarrow> gives cpu_ok (write_rm md r a sz v) (\<lambda>_. True)"
  by (auto simp: write_rm_def intro!: cpu_gives cpu_ok_write_reg)

lemma gives_write_sized [gives_rules]: "gives cpu_ok (write_mem_sized a sz v) (\<lambda>_. True)"
  by (auto simp: write_mem_sized_def intro!: cpu_gives)

lemma gives_bad [gives_rules]: "gives cpu_ok (bad op start) Q"
  unfolding bad_def by (intro cpu_gives)

definition loc_ok :: "operand \<Rightarrow> bool" where
  "loc_ok loc = (case loc of OReg d \<Rightarrow> 0 \<le> d \<and> d < 8 | OMem _ \<Rightarrow> True)"

lemma gives_rm_rd: "loc_ok loc \<Longrightarrow> gives cpu_ok (rm_rd loc sz) u32"
  by (auto simp: rm_rd_def loc_ok_def intro!: gives_gets gives_from_mem u32_rd_reg
      split: operand.splits if_splits dest: u32_reads)

lemma gives_rm_wr [gives_rules]:
  "loc_ok loc \<Longrightarrow> masked \<and> sz = 4 \<longrightarrow> u32 v \<Longrightarrow> gives cpu_ok (rm_wr loc sz v masked) (\<lambda>_. True)"
  by (auto simp: rm_wr_def loc_ok_def intro!: cpu_gives cpu_ok_wr_reg split: operand.splits)

lemma loc_ok_setup: "insn_wf e \<Longrightarrow> e_fn e = Gen t form \<Longrightarrow> loc_ok (setup_rm form e c)"
  by (auto simp: insn_wf_def form_ok_def setup_rm_def loc_ok_def)

lemma insn_wfD:
  "insn_wf e \<Longrightarrow> reg_field (e_fn e) \<Longrightarrow> 0 \<le> e_reg e" "insn_wf e \<Longrightarrow> reg_field (e_fn e) \<Longrightarrow> e_reg e < 8"
  "insn_wf e \<Longrightarrow> e_fn e \<noteq> H_imul3 \<Longrightarrow> u32 (e_imm e)"
  by (auto simp: insn_wf_def)

subsection \<open>Templates\<close>

text \<open>What a well-formed tuple of a template guarantees of its operands.\<close>

definition operands_ok :: "int \<Rightarrow> insn \<Rightarrow> bool" where
  "operands_ok form e \<longleftrightarrow> (\<forall>c. loc_ok (setup_rm form e (c :: cpu))) \<and> 0 \<le> e_reg e \<and> e_reg e < 8
     \<and> u32 (e_imm e) \<and> (form = 1 \<longrightarrow> u32 (e_disp e))"

lemma operands_ok_insn:
  assumes "insn_wf e" and "e_fn e = Gen t form" and "\<And>cc. t \<noteq> Jcc cc"
  shows "operands_ok form e"
  using assms loc_ok_setup [OF assms(1,2)]
  by (auto simp: operands_ok_def insn_wf_def reg_field_def form_ok_def)

lemma operands_loc: "operands_ok form e \<Longrightarrow> loc_ok (setup_rm form e c)"
  by (auto simp: operands_ok_def setup_rm_def loc_ok_def split: if_splits)

lemma operands_reg: "operands_ok form e \<Longrightarrow> 0 \<le> e_reg e" "operands_ok form e \<Longrightarrow> e_reg e < 8"
  "operands_ok form e \<Longrightarrow> u32 (e_imm e)" "operands_ok form e \<Longrightarrow> u32 (ea_expr form e c)"
  by (simp_all add: operands_ok_def ea_expr_def u32_intros)

lemma gives_bind_rm:
  "operands_ok form e \<Longrightarrow> (\<And>v. u32 v \<Longrightarrow> gives cpu_ok (k v) Q) \<Longrightarrow>
   gives cpu_ok (bindE (rm_rd (setup_rm form e c) sz) k) Q"
  by (rule gives_bindE [OF gives_rm_rd [OF operands_loc]])

lemmas tmpl_gives = cpu_gives gives_bind_rm gives_set_flags gives_set_eip gives_rm_wr operands_loc

lemma gives_case_pair: "gives I (k (fst p) (snd p)) Q \<Longrightarrow> gives I (case p of (x, y) \<Rightarrow> k x y) Q"
  by (simp add: split_beta)

lemma gives_alu:
  assumes "operands_ok form e"
  shows "gives cpu_ok (t_alu_rm_r op sz form e) (\<lambda>_. True)"
  "gives cpu_ok (t_alu_r_rm op sz form e) (\<lambda>_. True)"
  "gives cpu_ok (t_alu_rm_imm op sz form e) (\<lambda>_. True)"
  unfolding t_alu_rm_r_def t_alu_r_rm_def t_alu_rm_imm_def
  by (intro tmpl_gives gives_case_pair TrueI; simp add: assms cpu_ok_simps u32_alu operands_reg [OF assms])+

lemma gives_test_xchg:
  assumes "operands_ok form e"
  shows "gives cpu_ok (t_test sz form imm e) (\<lambda>_. True)" "gives cpu_ok (t_xchg sz form e) (\<lambda>_. True)"
  unfolding t_test_def t_xchg_def
  by (intro tmpl_gives gives_case_pair TrueI; simp add: assms cpu_ok_simps operands_reg [OF assms])+

lemma gives_unary:
  "operands_ok form e \<Longrightarrow> (\<And>a fl. u32 a \<Longrightarrow> u32 (fst (body a fl)) \<and> flags_ok (snd (body a fl))) \<Longrightarrow>
   gives cpu_ok (t_unary body sz form e) (\<lambda>_. True)"
  unfolding t_unary_def
  by (intro tmpl_gives gives_case_pair TrueI; simp add: cpu_ok_simps)

lemma gives_shift: "operands_ok form e \<Longrightarrow> gives cpu_ok (t_shift kind sz src form e) (\<lambda>_. True)"
  unfolding t_shift_def Let_def split_beta
  by (intro tmpl_gives gives_case_pair TrueI; simp add: cpu_ok_simps u32_shift)

lemma gives_movx: "operands_ok form e \<Longrightarrow> gives cpu_ok (t_movx sx sz dst form e) (\<lambda>_. True)"
  unfolding t_movx_def Let_def
  by (intro tmpl_gives TrueI; simp add: cpu_ok_simps operands_reg)

lemma gives_call_push:
  assumes "operands_ok form e"
  shows "gives cpu_ok (t_call_rm form e) (\<lambda>_. True)"
  "gives cpu_ok (t_push_rm form e) (\<lambda>_. True)"
  unfolding t_call_rm_def t_push_rm_def
  by (intro tmpl_gives TrueI; simp add: assms cpu_ok_simps)+

lemma gives_tmpl:
  assumes ok: "operands_ok form e" and not_jcc: "\<And>cc. t \<noteq> Jcc cc"
  shows "gives cpu_ok (exec_tmpl t form e) (\<lambda>_. True)"
proof (cases t)
  case (Inc sz)
  then show ?thesis by (simp add: exec_tmpl_def gives_unary ok u32_bodies flags_ok_arith)
next
  case (Dec sz)
  then show ?thesis by (simp add: exec_tmpl_def gives_unary ok u32_bodies flags_ok_arith)
next
  case (Neg sz)
  then show ?thesis by (simp add: exec_tmpl_def gives_unary ok u32_bodies flags_ok_arith)
next
  case (Lea sz)
  then show ?thesis
    by (simp add: exec_tmpl_def, intro tmpl_gives TrueI)
      (simp_all add: ok cpu_ok_simps operands_reg [OF ok])
qed (simp add: exec_tmpl_def gives_alu gives_test_xchg gives_shift gives_movx gives_call_push ok not_jcc;
    intro tmpl_gives TrueI; simp add: ok cpu_ok_simps operands_reg [OF ok])+

lemma gives_jcc: "u32 (e_imm e) \<Longrightarrow> gives cpu_ok (exec_tmpl (Jcc cc) form e) (\<lambda>_. True)"
  by (auto simp: exec_tmpl_def intro!: gives_bind_gets gives_if gives_set_eip gives_ret)

subsection \<open>Hand-written handlers\<close>

lemmas gives_bind_pop = gives_bindE [OF gives_pop(1)] gives_bindE [OF gives_pop(2)]

lemmas fat_gives = cpu_gives gives_set_eip gives_push gives_bind_pop gives_write_rm
  gives_write_sized gives_bad gives_bindE [OF gives_read_rm] gives_bindE [OF gives_read_sized]

lemma u32_sp: "u32 ((a - 4) AND MASK32)" "u32 ((a + 4) AND MASK32)"
  by (simp_all add: u32_intros)

lemma cpu_okD: "cpu_ok c \<Longrightarrow> flags_ok (flags c)" "cpu_ok c \<Longrightarrow> 0 \<le> eip c"
  by (simp_all add: cpu_ok_def)

lemma gives_control:
  "gives cpu_ok h_hlt Q" "gives cpu_ok (h_bad e) Q" "gives cpu_ok (h_lea_reg e) Q"
  "gives cpu_ok (h_ret n) (\<lambda>_. True)" "gives cpu_ok h_leave (\<lambda>_. True)"
  unfolding h_hlt_def h_bad_def h_lea_reg_def h_ret_def h_leave_def
  by (intro fat_gives TrueI; simp add: cpu_ok_simps u32_reads)+

lemma gives_stack:
  assumes "insn_wf e" and "reg_field (e_fn e)" and "e_fn e \<noteq> H_imul3"
  shows "gives cpu_ok (h_push_r32 e) (\<lambda>_. True)" "gives cpu_ok (h_pop_r32 e) (\<lambda>_. True)"
    "gives cpu_ok (h_push_r16 e) (\<lambda>_. True)" "gives cpu_ok (h_pop_r16 e) (\<lambda>_. True)"
    "gives cpu_ok (h_push_imm32 e) (\<lambda>_. True)" "gives cpu_ok (h_call_rel e) (\<lambda>_. True)"
    "gives cpu_ok (h_xchg_eax_r e) (\<lambda>_. True)"
  unfolding h_push_r32_def h_pop_r32_def h_push_r16_def h_pop_r16_def h_push_imm32_def
    h_call_rel_def h_xchg_eax_r_def
  by (intro fat_gives TrueI; simp add: cpu_ok_simps u32_reads insn_wfD [OF assms(1)] assms(2,3))+

lemma gives_enter_loop: "gives cpu_ok (enter_loop k) (\<lambda>_. True)"
  by (induction k) (auto intro!: fat_gives simp: cpu_ok_simps)

lemma gives_enter: "gives cpu_ok (h_enter e) (\<lambda>_. True)"
  unfolding h_enter_def
  by (intro fat_gives gives_enter_loop TrueI; simp add: cpu_ok_simps)

lemma gives_convert: "gives cpu_ok (h_cbw e) (\<lambda>_. True)" "gives cpu_ok (h_cwd e) (\<lambda>_. True)"
  "gives cpu_ok (h_pushf e) (\<lambda>_. True)" "gives cpu_ok (h_popf e) (\<lambda>_. True)"
  "gives cpu_ok h_sahf (\<lambda>_. True)" "gives cpu_ok h_lahf (\<lambda>_. True)" "gives cpu_ok h_xlat (\<lambda>_. True)"
  unfolding h_cbw_def h_cwd_def h_pushf_def h_popf_def h_sahf_def h_lahf_def h_xlat_def set_eflags_def
  by (intro fat_gives TrueI; simp add: cpu_ok_simps flags_ok_sahf [simplified] cpu_okD)+

lemma gives_moffs: "gives cpu_ok (h_mov_al_moffs e) (\<lambda>_. True)"
  "gives cpu_ok (h_mov_ax_moffs e) (\<lambda>_. True)" "gives cpu_ok (h_mov_moffs_al e) (\<lambda>_. True)"
  "gives cpu_ok (h_mov_moffs_ax e) (\<lambda>_. True)"
  unfolding h_mov_al_moffs_def h_mov_ax_moffs_def h_mov_moffs_al_def h_mov_moffs_ax_def
  by (intro fat_gives TrueI; simp add: cpu_ok_simps)+

lemma gives_loop: "insn_wf e \<Longrightarrow> e_fn e = H_loop \<Longrightarrow> gives cpu_ok (h_loop e) (\<lambda>_. True)"
  unfolding h_loop_def Let_def
  by (intro fat_gives gives_bindE [where R = "\<lambda>_. True" and f = "\<lambda>t. if t then _ else _"] gives_gets
      TrueI; simp add: cpu_ok_simps insn_wfD)

lemma mul_ok: "cpu_ok c \<Longrightarrow> cpu_ok (mul_unsigned src sz c)" "cpu_ok c \<Longrightarrow> cpu_ok (mul_signed src sz c)"
  by (simp_all add: mul_unsigned_def mul_signed_def Let_def cpu_ok_simps)

lemma u32_div:
  assumes "u32 src" and "src \<noteq> 0"
  shows "u32 (num mod src)" and "0 \<le> num \<Longrightarrow> num div src \<le> MASK32 \<Longrightarrow> u32 (num div src)"
proof -
  have "0 < src"
    using assms by (simp add: u32_def)
  then show "u32 (num mod src)" "0 \<le> num \<Longrightarrow> num div src \<le> MASK32 \<Longrightarrow> u32 (num div src)"
    using assms pos_mod_bound [of src num]
    by (auto simp: u32_def MASK32_def pos_imp_zdiv_nonneg_iff simp del: pos_mod_bound)
qed

lemma MASK32_nonneg [simp]: "0 \<le> MASK32"
  by (simp add: MASK32_def)

lemma gives_div: "u32 src \<Longrightarrow> gives cpu_ok (div_unsigned src sz) (\<lambda>_. True)"
  "gives cpu_ok (div_signed src sz) (\<lambda>_. True)"
  by (auto simp: gives_def div_unsigned_def div_signed_def Let_def cpu_ok_simps u32_div not_less
      simp del: push_bit_and split: prod.splits)

lemma not_flag_masks: "NOT CF AND 0x202 = 0x202" "NOT ZF AND 0x202 = 0x202"
  "NOT DF AND 0x202 = 0x202"
  by (simp_all add: flag_consts)

lemma rm_fields:
  assumes "insn_wf e"
  shows "e_fn e \<in> {H_imul3, H_imul2, H_muldiv, H_pop_rm, H_push_rm16, H_bsf, H_bt_r, H_bt_i, H_shd} \<Longrightarrow>
      e_mod e = 3 \<longrightarrow> 0 \<le> the (e_base e) \<and> the (e_base e) < 8"
    and "reg_field (e_fn e) \<Longrightarrow> 0 \<le> e_reg e \<and> e_reg e < 8"
  using assms by (auto simp: insn_wf_def form_ok_def)

lemma gives_imul:
  assumes "insn_wf e"
  shows "e_fn e = H_imul3 \<Longrightarrow> gives cpu_ok (h_imul3 e) (\<lambda>_. True)"
    and "e_fn e = H_imul2 \<Longrightarrow> gives cpu_ok (h_imul2 e) (\<lambda>_. True)"
  unfolding h_imul3_def h_imul2_def Let_def
  using rm_fields [OF assms]
  by (intro fat_gives TrueI; simp add: reg_field_def cpu_ok_simps)+

lemma gives_muldiv:
  "insn_wf e \<Longrightarrow> e_fn e = H_muldiv \<Longrightarrow> gives cpu_ok (h_muldiv e) (\<lambda>_. True)"
  unfolding h_muldiv_def Let_def
  using rm_fields [of e]
  by (intro fat_gives gives_div TrueI; simp add: reg_field_def mul_ok)

lemma gives_pop_push_rm:
  "insn_wf e \<Longrightarrow> e_fn e = H_pop_rm \<Longrightarrow> gives cpu_ok (h_pop_rm e) (\<lambda>_. True)"
  "insn_wf e \<Longrightarrow> e_fn e = H_push_rm16 \<Longrightarrow> gives cpu_ok (h_push_rm16 e) (\<lambda>_. True)"
  unfolding h_pop_rm_def h_push_rm16_def Let_def
  using rm_fields [of e]
  by (intro fat_gives TrueI; simp)+

lemma gives_bsf: "insn_wf e \<Longrightarrow> e_fn e = H_bsf \<Longrightarrow> gives cpu_ok (h_bsf e) (\<lambda>_. True)"
  unfolding h_bsf_def Let_def
  using rm_fields [of e]
  by (intro fat_gives TrueI;
      simp add: reg_field_def cpu_ok_simps cpu_okD flags_ok_intros flag_masks not_flag_masks)

lemma gives_bt:
  "insn_wf e \<Longrightarrow> e_fn e \<in> {H_bt_r, H_bt_i} \<Longrightarrow> gives cpu_ok (bt_impl e sub b) (\<lambda>_. True)"
  unfolding bt_impl_def Let_def
  using rm_fields(1) [of e]
  by (intro fat_gives TrueI;
      auto simp: cpu_ok_simps cpu_okD flags_ok_intros flag_masks not_flag_masks)

lemma gives_shd: "insn_wf e \<Longrightarrow> e_fn e = H_shd \<Longrightarrow> gives cpu_ok (h_shd e) (\<lambda>_. True)"
proof -
  assume "insn_wf e" "e_fn e = H_shd"
  then have base: "e_mod e = 3 \<longrightarrow> 0 \<le> the (e_base e) \<and> the (e_base e) < 8"
    using rm_fields(1) [of e] by simp
  have bind: "gives cpu_ok (bindE m k) Q"
    if "gives cpu_ok m (\<lambda>_. True)" "\<And>p. gives cpu_ok (k p) Q" for m :: "('x, int \<times> int) cm" and k Q
    using that by (rule gives_bindE)
  show ?thesis
    unfolding h_shd_def Let_def split_beta
    by (intro fat_gives bind TrueI; simp add: base cpu_ok_simps flags_ok_intros flag_masks)
qed

lemma gives_string_elem: "gives cpu_ok (string_elem op sz delta) (\<lambda>_. True)"
  unfolding string_elem_def
  by (intro fat_gives TrueI; simp add: cpu_ok_simps)

lemma gives_string_loop: "int n \<le> 4294967296 \<Longrightarrow> gives cpu_ok (string_loop op sz delta rep n) (\<lambda>_. True)"
proof (induction n)
  case (Suc n)
  have "u32 (int n)" and le: "int n \<le> 4294967296"
    using Suc.prems by (simp_all add: u32_def)
  then show ?case
    unfolding string_loop.simps
    by (intro fat_gives gives_string_elem Suc.IH [OF le] TrueI; simp add: cpu_ok_simps)
qed (simp add: gives_ret)

lemma le_MASK32: "x AND MASK32 \<le> 4294967296"
  using u32_mask(1) [of x] by (simp add: u32_def)

lemma gives_string_impl: "gives cpu_ok (string_op_impl op opsize rep) (\<lambda>_. True)"
  unfolding string_op_impl_def Let_def
  by (intro fat_gives gives_string_loop TrueI; simp add: cpu_ok_simps le_MASK32)

lemma gives_string: "gives cpu_ok (string_op op opsize rep) (\<lambda>_. True)"
  unfolding string_op_def
  by (intro fat_gives gives_option gives_string_impl TrueI; simp add: cpu_ok_simps)

section \<open>Any handler, any decoder\<close>

text \<open>A callback keeps the invariant. The kernel's callback is a parameter of the CPU.\<close>

definition keeps_cpu :: "('a \<Rightarrow> ('x, unit) cm) option \<Rightarrow> bool" where
  "keeps_cpu f \<longleftrightarrow> (\<forall>g x. f = Some g \<longrightarrow> gives cpu_ok (g x) (\<lambda>_. True))"

lemma gives_int: "keeps_cpu oi \<Longrightarrow> gives cpu_ok (h_int oi e) (\<lambda>_. True)"
  unfolding h_int_def keeps_cpu_def
  by (intro gives_option gives_control; simp)

theorem gives_exec:
  assumes "keeps_cpu oi" and "insn_wf e"
  shows "gives cpu_ok (exec oi e) (\<lambda>_. True)"
proof (cases "e_fn e")
  case (Gen t form)
  then show ?thesis
  proof (cases "\<exists>cc. t = Jcc cc")
    case True
    with Gen assms(2) show ?thesis by (auto simp: exec_def gives_jcc insn_wf_def)
  next
    case False
    then have "gives cpu_ok (exec_tmpl t form e) (\<lambda>_. True)"
      by (intro gives_tmpl operands_ok_insn [OF assms(2) Gen]) auto
    with Gen show ?thesis by (simp add: exec_def)
  qed
qed (insert assms, simp_all add: exec_def gives_ret gives_control gives_stack reg_field_def gives_enter
    gives_convert gives_moffs gives_string gives_int gives_loop gives_imul gives_muldiv
    gives_pop_push_rm gives_bsf gives_bt gives_shd gives_push gives_set_eip insn_wfD
    gives_modify cpu_ok_simps cpu_okD flags_ok_intros flag_masks not_flag_masks
    h_bt_r_def gives_bind_gets)

section \<open>Decoders\<close>

definition modrm_ok :: "modrm \<Rightarrow> bool" where
  "modrm_ok m = (case m of (md, reg, base, index, scale, disp) \<Rightarrow>
     0 \<le> reg \<and> reg < 8 \<and> (\<forall>b. base = Some b \<longrightarrow> 0 \<le> b \<and> b < 8)
     \<and> (\<forall>i. index = Some i \<longrightarrow> 0 \<le> i \<and> i < 8) \<and> (md = 3 \<longrightarrow> base \<noteq> None))"

lemma and_7: "0 \<le> (x :: int) AND 7" "(x :: int) AND 7 < 8"
  using and_mask_mod [of x 3] by (simp_all add: mask_eq_exp_minus_1)

text \<open>What a decoder may assume and keeps: the opcode is behind \<open>eip\<close>.\<close>

definition dec_inv :: "int \<Rightarrow> 'x cpu_scheme \<Rightarrow> bool" where
  "dec_inv start c \<longleftrightarrow> cpu_ok c \<and> start < eip c"

lemma dec_inv_eip: "dec_inv start c \<Longrightarrow> eip c \<le> a \<Longrightarrow> dec_inv start (c\<lparr>eip := a\<rparr>)"
  using cpu_okD(2) [of c] by (auto simp: dec_inv_def intro!: cpu_ok_eip)

lemma gives_fetch:
  "gives (dec_inv start) fetch8 (\<lambda>v. 0 \<le> v \<and> v < 256)" "gives (dec_inv start) fetch16 u32"
  "gives (dec_inv start) fetch32 u32"
  by (auto simp: gives_def fetch8_def fetch16_def fetch32_def bindE_def thenE_def gets_def
      from_mem_def set_eip_def modify_def ret_def dec_inv_eip u32_reads read_u8_def split: sum.splits if_splits)

lemma byte_u32: "0 \<le> v \<and> v < 256 \<Longrightarrow> u32 v"
  by (simp add: u32_def)

lemma gives_fetch_imm: "gives (dec_inv start) (fetch_imm sz) u32"
  unfolding fetch_imm_def
  by (intro gives_if gives_fetch gives_weaken [OF gives_fetch(1)] byte_u32)

lemma sib_base_ok:
  assumes "sib_base md rm a s = Inr (base, index, scale, disp, a')" and "0 \<le> rm" and "rm < 8"
  shows "(\<forall>b. base = Some b \<longrightarrow> 0 \<le> b \<and> b < 8) \<and> (\<forall>i. index = Some i \<longrightarrow> 0 \<le> i \<and> i < 8) \<and> a \<le> a'"
  using assms and_7 by (auto simp: sib_base_def Let_def bindR_Inr_iff split: if_splits)

lemma modrm_at_ok:
  assumes "modrm_at a s = Inr (m, a')"
  shows "modrm_ok m \<and> a < a'"
proof -
  obtain b where b: "read_u8 a s = Inr b"
    using assms by (auto simp: modrm_at_def bindR_Inr_iff)
  show ?thesis
  proof (cases "drop_bit 6 b = 3")
    case True
    with assms b and_7 show ?thesis
      by (auto simp: modrm_at_def Let_def modrm_ok_def)
  next
    case False
    with assms b obtain base index scale disp x where
      sib: "sib_base (drop_bit 6 b) (b AND 7) (a + 1) s = Inr (base, index, scale, disp, x)"
      by (auto simp: modrm_at_def Let_def bindR_Inr_iff)
    have "modrm_ok (drop_bit 6 b, drop_bit 3 b AND 7, base, index, scale, d)" for d
      using sib_base_ok [OF sib and_7] and_7 False by (simp add: modrm_ok_def)
    moreover have "a + 1 \<le> x"
      using sib_base_ok [OF sib and_7] by simp
    ultimately show ?thesis
      using assms b sib False
      by (auto simp: modrm_at_def Let_def bindR_Inr_iff split: if_splits)
  qed
qed

lemma gives_modrm: "gives (dec_inv start) modrm_dec modrm_ok"
  by (auto simp: gives_def modrm_dec_def bindE_def thenE_def gets_def from_mem_def set_eip_def
      modify_def ret_def dest!: modrm_at_ok intro!: dec_inv_eip split: sum.splits)

lemma gives_mk:
  assumes "modrm_ok m" and "sz \<in> {1, 2, 4}" and "\<And>form. variants form \<noteq> H_imul3 \<Longrightarrow> u32 imm"
    and "\<And>form t f. variants form = Gen t f \<Longrightarrow> f = form"
  shows "gives (dec_inv start) (mk start variants sz m imm) insn_wf"
proof (cases m)
  case (fields md reg base index scale disp)
  define disp' where "disp' = (if mk_form m = 1 then disp AND MASK32 else disp)"
  have form: "form_ok e" if "e_fn e = variants (mk_form m)" "e_base e = base" "e_index e = index"
    "e_mod e = md" "e_disp e = disp'" for e
  proof (cases "variants (mk_form m)")
    case (Gen t f)
    with assms(4) [of "mk_form m" t f] that fields show ?thesis
      using assms(1) by (auto simp: form_ok_def mk_form_def modrm_ok_def disp'_def u32_intros)
  qed (use that fields assms(1) in \<open>simp_all add: form_ok_def modrm_ok_def\<close>)
  have "insn_wf \<lparr>e_fn = variants (mk_form m), e_len = eip c - start, e_size = sz, e_reg = reg,
      e_base = base, e_index = index, e_scale = scale, e_disp = disp', e_imm = imm, e_mod = md\<rparr>"
    if "dec_inv start c" for c :: "'a cpu_scheme"
    unfolding insn_wf_def
    using that assms(1-3) fields by (auto simp: modrm_ok_def dec_inv_def intro!: form)
  then show ?thesis
    unfolding gives_def mk_def fields prod.case Let_def gets_def disp'_def [symmetric]
    by (simp add: fields disp'_def)
qed

lemma gives_mk_bad:
  "modrm_ok m \<Longrightarrow> sz \<in> {1, 2, 4} \<Longrightarrow> gives (dec_inv start) (mk_bad start sz m op) insn_wf"
  unfolding mk_bad_def
proof (rule gives_bindE)
  assume "modrm_ok m" "sz \<in> {1, 2, 4}"
  then show "gives (dec_inv start) (mk start (\<lambda>_. H_bad) sz m 0) (\<lambda>e. insn_wf e \<and> e_fn e = H_bad)"
    using gives_mk [of m sz "\<lambda>_. H_bad" 0 start]
    by (auto simp: gives_def mk_def gets_def Let_def split: prod.splits)
qed (auto simp: gives_ret insn_wf_def form_ok_def reg_field_def)

lemma gives_mk_reg:
  assumes "sz \<in> {1, 2, 4}" and "reg_field f \<longrightarrow> 0 \<le> reg \<and> reg < 8" and "0 \<le> base" and "base < 8"
    and "u32 imm" and "\<And>t form. f = Gen t form \<Longrightarrow> form = 0"
  shows "gives (dec_inv start) (mk_reg start f sz reg base imm) insn_wf"
  using assms
  by (auto simp: gives_def mk_reg_def gets_def insn_wf_def form_ok_def dec_inv_def
      split: handler.splits)

lemma gives_mk_E:
  assumes "sz \<in> {1, 2, 4}" and "reg_field f \<longrightarrow> 0 \<le> reg \<and> reg < 8"
    and "u32 imm" and "\<And>t form. f = Gen t form \<Longrightarrow> form = 0"
  shows "gives (dec_inv start) (mk_E start f sz reg imm) insn_wf"
  unfolding mk_E_def using assms by (intro gives_mk_reg) auto

lemma gives_with_modrm:
  assumes "sz \<in> {1, 2, 4}" and "u32 imm" and "\<And>form t f. variants form = Gen t f \<Longrightarrow> f = form"
  shows "gives (dec_inv start) (with_modrm start variants sz imm) insn_wf"
  unfolding with_modrm_def using assms by (intro gives_bindE [OF gives_modrm] gives_mk) auto

lemma u32_jump: "u32 (jump_target rel c)"
  by (simp add: jump_target_def u32_intros)

lemma gives_bind_fetch8:
  "(\<And>v. 0 \<le> v \<and> v < 256 \<Longrightarrow> gives (dec_inv start) (k v) Q) \<Longrightarrow>
   gives (dec_inv start) (bindE fetch8 k) Q"
  by (rule gives_bindE [OF gives_fetch(1)])

lemmas dec_gives = gives_ret gives_if gives_bind_fetch8 gives_bindE [OF gives_modrm]
  gives_bindE [OF gives_fetch(2)] gives_bindE [OF gives_fetch(3)] gives_bindE [OF gives_fetch_imm]
  gives_bind_gets gives_mk gives_mk_E gives_mk_reg gives_with_modrm gives_mk_bad

lemma u32_small: "u32 3" "0 \<le> v \<and> v < 256 \<Longrightarrow> u32 v"
  by (simp_all add: u32_def)

lemma modrm_reg_ok: "modrm_ok m \<Longrightarrow> 0 \<le> modrm_reg m \<and> modrm_reg m < 8"
  by (auto simp: modrm_ok_def modrm_reg_def split: prod.splits)

lemmas dec_simps = reg_field_def u32_jump u32_small byte_u32 u32_intros and_7 Let_def

text \<open>An immediate operand that the decoder chooses by its opcode.\<close>

lemma gives_bind_imm:
  "gives (dec_inv start) m u32 \<Longrightarrow> (\<And>v. u32 v \<Longrightarrow> gives (dec_inv start) (k v) Q) \<Longrightarrow>
   gives (dec_inv start) (bindE m k) Q"
  by (rule gives_bindE)

lemma gives_bind_any:
  "gives I m (\<lambda>_. True) \<Longrightarrow> (\<And>v. gives I (k v) Q) \<Longrightarrow> gives I (bindE m k) Q"
  by (rule gives_bindE)

lemma gives_bind_fst:
  "gives I m (\<lambda>p. u32 (fst p)) \<Longrightarrow> (\<And>p. u32 (fst p) \<Longrightarrow> gives I (k p) Q) \<Longrightarrow>
   gives I (bindE m k) Q"
  by (rule gives_bindE)

lemma gives_fetch8_u32: "gives (dec_inv start) fetch8 u32"
  by (rule gives_weaken [OF gives_fetch(1) byte_u32])

lemma gives_dec_modrm:
  assumes opsize: "opsize \<in> {2, 4}"
  shows "gives (dec_inv start) (dec_alu op opsize start) insn_wf"
  "gives (dec_inv start) (dec_test_rm_r op opsize start) insn_wf"
  "gives (dec_inv start) (dec_xchg op opsize start) insn_wf"
  "gives (dec_inv start) (dec_mov_rm_r op opsize start) insn_wf"
  "gives (dec_inv start) (dec_mov_r_rm op opsize start) insn_wf"
  "gives (dec_inv start) (dec_lea op opsize start) insn_wf"
  "gives (dec_inv start) (dec_pop_rm op opsize start) insn_wf"
  "gives (dec_inv start) (dec_movx op opsize start) insn_wf"
  "gives (dec_inv start) (dec_setcc op opsize start) insn_wf"
  using opsize
  unfolding dec_alu_def dec_test_rm_r_def dec_xchg_def dec_mov_rm_r_def dec_mov_r_rm_def
    dec_lea_def dec_pop_rm_def dec_movx_def dec_setcc_def Let_def
  by (intro dec_gives; auto simp: dec_simps split: if_splits)+

lemma gives_dec_plain:
  assumes opsize: "opsize \<in> {2, 4}"
  shows "gives (dec_inv start) (dec_incdec_r op opsize start) insn_wf"
  "gives (dec_inv start) (dec_push_r op opsize start) insn_wf"
  "gives (dec_inv start) (dec_pop_r op opsize start) insn_wf"
  "gives (dec_inv start) (dec_xchg_eax_r op opsize start) insn_wf"
  "gives (dec_inv start) (dec_moffs op opsize start) insn_wf"
  "gives (dec_inv start) (dec_string op opsize start) insn_wf"
  "gives (dec_inv start) (dec_test_acc_imm op opsize start) insn_wf"
  "gives (dec_inv start) (dec_mov_r8_imm op opsize start) insn_wf"
  "gives (dec_inv start) (dec_mov_r_imm op opsize start) insn_wf"
  "gives (dec_inv start) (dec_ret_n op opsize start) insn_wf"
  "gives (dec_inv start) (dec_enter op opsize start) insn_wf"
  using opsize
  unfolding dec_incdec_r_def dec_push_r_def dec_pop_r_def dec_xchg_eax_r_def dec_moffs_def
    dec_string_def dec_test_acc_imm_def dec_mov_r8_imm_def dec_mov_r_imm_def dec_ret_n_def
    dec_enter_def Let_def
  by (intro dec_gives; auto simp: dec_simps split: if_splits)+

lemma gives_dec_jumps:
  assumes opsize: "opsize \<in> {2, 4}"
  shows "gives (dec_inv start) (dec_jcc8 op opsize start) insn_wf"
  "gives (dec_inv start) (dec_jcc32 op opsize start) insn_wf"
  "gives (dec_inv start) (dec_loop op opsize start) insn_wf"
  "gives (dec_inv start) (dec_call_rel op opsize start) insn_wf"
  "gives (dec_inv start) (dec_jmp_rel32 op opsize start) insn_wf"
  "gives (dec_inv start) (dec_jmp_rel8 op opsize start) insn_wf"
  unfolding dec_jcc8_def dec_jcc32_def dec_loop_def dec_call_rel_def dec_jmp_rel32_def
    dec_jmp_rel8_def
  by (intro dec_gives; auto simp: dec_simps)+

lemma gives_dec_imm:
  assumes opsize: "opsize \<in> {2, 4}"
  shows "gives (dec_inv start) (dec_push_imm op opsize start) insn_wf"
  "gives (dec_inv start) (dec_alu_imm op opsize start) insn_wf"
  "gives (dec_inv start) (dec_mov_rm_imm op opsize start) insn_wf"
  "gives (dec_inv start) (dec_int op opsize start) insn_wf"
  using opsize
  unfolding dec_push_imm_def dec_alu_imm_def dec_mov_rm_imm_def dec_int_def Let_def
  by (intro gives_bind_imm [where start = start and m = "if _ then _ else _"] gives_fetch8_u32 gives_fetch_imm
      dec_gives; auto simp: dec_simps split: if_splits)+

lemma gives_dec_imul3:
  assumes opsize: "opsize \<in> {2, 4}"
  shows "gives (dec_inv start) (dec_imul3 op opsize start) insn_wf"
  using opsize unfolding dec_imul3_def
  by (intro gives_bind_any [where m = "if _ then _ else _"] dec_gives; auto simp: dec_simps)

lemma gives_dec_shift:
  assumes opsize: "opsize \<in> {2, 4}"
  shows "gives (dec_inv start) (dec_shift op opsize start) insn_wf"
  using opsize unfolding dec_shift_def Let_def split_beta
  by (intro gives_bind_fst [where m = "if _ then _ else _"] dec_gives; auto simp: dec_simps u32_and2)

lemma gives_dec_groups:
  assumes opsize: "opsize \<in> {2, 4}"
  shows "gives (dec_inv start) (dec_grp_f7 op opsize start) insn_wf"
  "gives (dec_inv start) (dec_grp_ff op opsize start) insn_wf"
  "gives (dec_inv start) (dec_bt op opsize start) insn_wf"
  using opsize
  unfolding dec_grp_f7_def dec_grp_ff_def dec_bt_def BT_SUB_def Let_def
  by (intro dec_gives; auto simp: dec_simps u32_def split: if_splits)+

lemma gives_dec_shd:
  assumes opsize: "opsize \<in> {2, 4}" and "op \<in> {0xA4, 0xA5, 0xAC, 0xAD}"
  shows "gives (dec_inv start) (dec_shd op opsize start) insn_wf"
proof -
  have "u32 (push_bit 8 op)"
    using assms by (auto simp: u32_def)
  then show ?thesis
    using opsize unfolding dec_shd_def
    by (intro gives_bind_imm [where start = start and m = "if _ then _ else _"] gives_fetch8_u32 dec_gives;
        auto simp: dec_simps)
qed

lemma gives_dec_simple:
  "opsize \<in> {2, 4} \<Longrightarrow> reg_field f \<longrightarrow> True \<Longrightarrow> (\<And>t form. f \<noteq> Gen t form) \<Longrightarrow>
   gives (dec_inv start) (dec_simple f op opsize start) insn_wf"
  unfolding dec_simple_def by (intro gives_mk_E) (auto simp: u32_def)

lemmas gives_decoders = gives_dec_modrm gives_dec_plain gives_dec_jumps gives_dec_imm
  gives_dec_imul3 gives_dec_shift gives_dec_groups gives_dec_simple

lemma gives_DEC0F:
  assumes "opsize \<in> {2, 4}" and "0 \<le> op" and "op < 256"
  shows "gives (dec_inv start) (DEC0F op opsize start) insn_wf"
  unfolding DEC0F_def
  using assms
  by (intro gives_if gives_decoders gives_dec_shd gives_with_modrm gives_mk_E;
      auto simp: u32_def reg_field_def)

lemma gives_either: "gives I m R \<Longrightarrow> gives I n R \<Longrightarrow> gives I (if b then m else n) R"
  by simp

lemma gives_DEC:
  assumes "opsize \<in> {2, 4}"
  shows "gives (dec_inv start) (DEC op opsize start) insn_wf"
proof -
  have "gives (dec_inv start) (dec_0f op opsize start) insn_wf"
    unfolding dec_0f_def using assms by (intro gives_bind_fetch8 gives_DEC0F) auto
  moreover have "gives (dec_inv start) (mk_E start H_bad 4 op 0) insn_wf"
    by (intro gives_mk_E) (auto simp: reg_field_def)
  ultimately show ?thesis
    unfolding DEC_def by (intro gives_either gives_decoders assms) simp_all
qed

section \<open>The main loop\<close>

lemma prefix_loop_ok:
  "prefix_loop op opsize rep a s = Inr (opsize', rep', op', a') \<Longrightarrow> opsize \<in> {2, 4} \<Longrightarrow>
   rep = 0 \<or> u32 rep \<Longrightarrow> opsize' \<in> {2, 4} \<and> u32 rep' \<and> a \<le> a'"
proof (induction op opsize rep a s rule: prefix_loop.induct)
  case (1 op opsize rep a s)
  show ?case
  proof (cases "op \<in> set PREFIXES")
    case True
    then obtain op2 where "read_u8 a s = Inr op2" and
      "prefix_loop op2 (if op = 0x66 then 2 else opsize) (if op = 0xF2 \<or> op = 0xF3 then op else rep)
         (a + 1) s = Inr (opsize', rep', op', a')"
      using 1(2) by (subst (asm) prefix_loop.simps) (auto simp: bindR_Inr_iff)
    with 1(1) [OF True, of op2] 1(3,4) show ?thesis
      by (auto simp: u32_def split: if_splits)
  next
    case False
    with 1(2-4) show ?thesis by (subst (asm) prefix_loop.simps) (auto simp: u32_def)
  qed
qed

lemma gives_thenE_eip:
  assumes "gives (dec_inv start) m R" and "start < a" and "0 \<le> a"
  shows "gives cpu_ok (thenE (set_eip a) m) R"
  unfolding gives_def
proof (intro allI impI)
  fix c :: "'a cpu_scheme"
  assume "cpu_ok c"
  then have "dec_inv start (c\<lparr>eip := a\<rparr>)"
    using assms by (simp add: dec_inv_def cpu_ok_eip)
  moreover have "thenE (set_eip a) m c = m (c\<lparr>eip := a\<rparr>)"
    by (simp add: thenE_def bindE_def set_eip_def modify_def)
  ultimately show "cpu_ok (snd (thenE (set_eip a) m c)) \<and>
      (\<forall>x. fst (thenE (set_eip a) m c) = Inr x \<longrightarrow> R x)"
    using assms(1) [unfolded gives_def, rule_format, of "c\<lparr>eip := a\<rparr>"] by (auto simp: dec_inv_def)
qed

lemma gives_decode_prefixed:
  assumes "0 \<le> start"
  shows "gives cpu_ok (bindE (from_mem (prefix_loop op 4 0 (start + 1))) (\<lambda>(opsize, rep, op, a).
      thenE (set_eip a)
        (if rep \<noteq> 0 \<and> 0xA4 \<le> op \<and> op \<le> 0xAF \<and> op \<noteq> 0xA8 \<and> op \<noteq> 0xA9
         then mk_E start H_string opsize op rep
         else if rep \<noteq> 0 \<and> op = 0x90 then mk_E start H_nop opsize 0 0
         else DEC op opsize start))) insn_wf"
  unfolding split_beta
  using assms
  by (intro gives_bind_mem gives_thenE_eip [where start = start] gives_if gives_mk_E gives_DEC)
    (auto simp: reg_field_def dest!: prefix_loop_ok)

lemma gives_decode: "0 \<le> start \<Longrightarrow> gives cpu_ok (decode start) insn_wf"
  unfolding decode_def
  by (rule gives_thenE)
    (intro gives_modify gives_bind_mem gives_either gives_decode_prefixed
        gives_thenE_eip [where start = start] gives_DEC; simp add: cpu_ok_other)+

text \<open>A decoded instruction enters the cache when it ends inside the text.\<close>

lemma cpu_ok_cache:
  fixes c c' :: "'x cpu_scheme"
  assumes c: "cpu_ok c" "0 \<le> a" and dec: "decode a c = (Inr e, c')"
    and fits: "eip c' \<le> int (length (icache (mem c')))"
  shows "cpu_ok (c'\<lparr>mem := mem c'\<lparr>icache := (icache (mem c'))[nat a := Some e]\<rparr>\<rparr>)"
    (is "cpu_ok ?d")
proof -
  note loc = decode_local [OF dec]
  have c': "cpu_ok c'" and wf: "insn_wf e"
    using gives_decode [OF c(2)] c(1) dec by (force simp: gives_def)+
  then have as: "as_wf (mem c')" "fresh c'" "length (regs c') = 8" "\<forall>r \<in> set (regs c'). u32 r"
    "flags_ok (flags c')" "0 \<le> eip c'" "mem_ok (mem c')" "cache_wf (mem c')"
    by (auto simp: cpu_ok_def mem_ok_def)
  have same: "mem c' = mem c"
    by (subst loc(3)) simp
  have ag: "agree (mem c') (mem ?d) x y" if "0 \<le> x" "y \<le> int (length (icache (mem c')))" for x y
    using as(1) that by (auto simp: agree_def as_wf_def)
  have "fresh ?d"
    unfolding fresh_def
  proof (intro allI impI, elim conjE)
    fix k f
    assume k: "k < length (icache (mem ?d))" and f: "icache (mem ?d) ! k = Some f"
    show "int k + e_len f \<le> int (length (icache (mem ?d))) \<and> (e_len f \<le> 16 \<longrightarrow>
      decode (int k) ?d = (Inr f, ?d\<lparr>insn_start := int k, eip := int k + e_len f\<rparr>))"
    proof (cases "k = nat a")
      case True
      with f k have "f = e" by simp
      moreover have "decode a ?d = (Inr e, ?d\<lparr>insn_start := a, eip := eip c'\<rparr>)"
        by (rule loc(4)) (use ag [of a "eip c'"] c(2) fits same in simp)
      ultimately show ?thesis
        using True c(2) fits loc(2) by simp
    next
      case False
      then have old: "k < length (icache (mem c'))" "icache (mem c') ! k = Some f"
        using k f by simp_all
      note fr = freshD [OF as(2) old]
      have "decode (int k) ?d = (Inr f, ?d\<lparr>insn_start := int k, eip := int k + e_len f\<rparr>)"
        if "e_len f \<le> 16"
        using decode_local(4) [OF fr(2) [OF that], of ?d] ag [of "int k" "int k + e_len f"] fr(1)
        by simp
      with fr(1) show ?thesis by simp
    qed
  qed
  moreover have "mem_ok (mem ?d)" "cache_wf (mem ?d)"
    using as wf by (auto simp: mem_ok_def as_wf_def separated_def cache_wf_def
        dest!: set_update_subset_insert [THEN subsetD])
  ultimately show ?thesis
    using as by (simp add: cpu_ok_def)
qed

text \<open>\<open>fetch_insn\<close> on an empty and on a filled slot.\<close>

lemma fetch_decode:
  "eip c < int (length (icache (mem c))) \<Longrightarrow> icache (mem c) ! nat (eip c) = None \<Longrightarrow>
   fetch_insn c = (case decode (eip c) c of (Inl ex, c') \<Rightarrow> (Inl ex, c')
     | (Inr e, c') \<Rightarrow> (Inr e, if eip c' \<le> int (length (icache (mem c)))
         then c'\<lparr>mem := mem c'\<lparr>icache := (icache (mem c'))[nat (eip c) := Some e]\<rparr>\<rparr> else c'))"
  by (simp add: fetch_insn_def bindE_def thenE_def gets_def modify_def ret_def
      split: prod.splits sum.splits)

lemma fetch_cached:
  "eip c < int (length (icache (mem c))) \<Longrightarrow> icache (mem c) ! nat (eip c) = Some e \<Longrightarrow>
   fetch_insn c = (Inr e, c\<lparr>eip := eip c + e_len e\<rparr>)"
  by (simp add: fetch_insn_def bindE_def thenE_def gets_def modify_def ret_def set_eip_def)

lemma fetch_beyond: "\<not> eip c < int (length (icache (mem c))) \<Longrightarrow> fetch_insn c = decode (eip c) c"
  by (simp add: fetch_insn_def bindE_def gets_def)

lemma gives_fetch_insn: "gives cpu_ok fetch_insn insn_wf"
  unfolding gives_def
proof (intro allI impI)
  fix c :: "'x cpu_scheme"
  assume c: "cpu_ok c"
  then have a: "0 \<le> eip c"
    by (rule cpu_okD)
  have dec: "cpu_ok (snd (decode (eip c) c)) \<and> (\<forall>e. fst (decode (eip c) c) = Inr e \<longrightarrow> insn_wf e)"
    using gives_decode [OF a] c unfolding gives_def by blast
  show "cpu_ok (snd (fetch_insn c)) \<and> (\<forall>e. fst (fetch_insn c) = Inr e \<longrightarrow> insn_wf e)"
  proof (cases "eip c < int (length (icache (mem c)))")
    case False
    with dec show ?thesis by (simp add: fetch_beyond)
  next
    case True
    show ?thesis
    proof (cases "icache (mem c) ! nat (eip c)")
      case None
      show ?thesis
      proof (cases "decode (eip c) c")
        case (Pair r c')
        have "mem c' = mem c" if "r = Inr e" for e
          using decode_local(3) [of "eip c" c e c'] Pair that by (metis cpu.select_convs(1)
              cpu.surjective cpu.update_convs(3) cpu.update_convs(7))
        with Pair dec None True cpu_ok_cache [OF c a] show ?thesis
          by (cases r) (auto simp: fetch_decode)
      qed
    next
      case (Some e)
      have "Some e \<in> set (icache (mem c))"
        using Some True a by (metis nat_less_iff nth_mem)
      with c have "insn_wf e"
        by (simp add: cpu_ok_def cache_wf_def)
      with Some True c a show ?thesis
        by (simp add: fetch_cached cpu_ok_eip insn_wf_def)
    qed
  qed
qed

lemma gives_catch:
  assumes "gives cpu_ok m (\<lambda>_. True)" and "keeps_cpu ofl"
  shows "gives cpu_ok (catch_fault ofl m) (\<lambda>_. True)"
proof -
  have "cpu_ok (snd (catch_fault ofl m c))" if "cpu_ok c" for c
  proof -
    have m: "cpu_ok (snd (m c))"
      using assms(1) that by (rule givesD)
    have f: "cpu_ok (snd (thenE (f ex) (ret False) (snd (m c))))" if "ofl = Some f" for f ex
    proof -
      have "gives cpu_ok (f ex) (\<lambda>_. True)"
        using assms(2) that by (simp add: keeps_cpu_def)
      then have "gives cpu_ok (thenE (f ex) (ret False)) (\<lambda>_. True)"
        by (intro gives_thenE gives_ret TrueI)
      then show ?thesis using m by (rule givesD)
    qed
    from m f show ?thesis
      by (auto simp: catch_fault_def split: prod.splits sum.splits option.splits)
  qed
  then show ?thesis by (simp add: gives_def)
qed

lemma gives_run_one:
  "keeps_cpu oi \<Longrightarrow> keeps_cpu ofl \<Longrightarrow> gives cpu_ok (run_one oi ofl) (\<lambda>_. True)"
  unfolding run_one_def
  by (intro gives_bind_gets gives_if gives_raise gives_catch gives_bindE [OF gives_fetch_insn] gives_exec)

lemma gives_record: "gives cpu_ok (record_insn a) (\<lambda>_. True)"
  by (simp add: gives_def record_insn_def cpu_ok_other split: option.splits prod.splits)

lemma cpu_ok_run_loop:
  assumes "keeps_cpu oi" and "keeps_cpu ofl"
  shows "cpu_ok c \<Longrightarrow> cpu_ok (snd (run_loop oi ofl n d c))"
proof (induction n arbitrary: d c)
  case (Suc n)
  have "cpu_ok (snd (run_one oi ofl c))"
    using gives_run_one [OF assms] Suc.prems by (simp add: gives_def)
  then show ?case
    by (auto simp: add_icount_def cpu_ok_other Suc.IH split: prod.splits sum.splits)
qed (simp add: add_icount_def cpu_ok_other)

lemma cpu_ok_run_profiled_loop:
  assumes "keeps_cpu oi" and "keeps_cpu ofl"
  shows "cpu_ok c \<Longrightarrow> cpu_ok (snd (run_profiled_loop oi ofl n d c))"
proof (induction n arbitrary: d c)
  case (Suc n)
  let ?m = "bindE (run_one oi ofl) (\<lambda>ok. if ok then record_insn (eip c) else ret ())"
  have "gives cpu_ok ?m (\<lambda>_. True)"
    by (intro gives_bindE [OF gives_run_one [OF assms]] gives_if gives_record gives_ret TrueI)
  then have "cpu_ok (snd (?m c))"
    using Suc.prems by (simp add: gives_def)
  moreover have "cpu_ok (snd (record_insn a c'))" if "cpu_ok c'" for a and c' :: "'a cpu_scheme"
    using gives_record that by (auto simp: gives_def)
  ultimately show ?case
    by (cases "?m c"; cases "fst (?m c)")
      (auto simp: add_icount_def cpu_ok_other Suc.IH split: prod.splits sum.splits,
       metis snd_conv, metis snd_conv)
qed (simp add: add_icount_def cpu_ok_other)

theorem cpu_ok_run:
  "keeps_cpu oi \<Longrightarrow> keeps_cpu ofl \<Longrightarrow> cpu_ok c \<Longrightarrow> cpu_ok (snd (run oi ofl n c))"
  by (simp add: run_def run_profiled_def cpu_ok_run_loop cpu_ok_run_profiled_loop)

lemma cpu_ok_init: "mem_ok m \<Longrightarrow> (\<And>e. Some e \<notin> set (icache m)) \<Longrightarrow> cpu_ok (CPU_init m)"
  by (auto simp: cpu_ok_def CPU_init_def u32_def flags_ok_def EFLAGS_BASE_def cache_wf_def fresh_def
      dest: nth_mem)

end
