(* ===== verification/Cpu_Frame.thy ===== *)
theory Cpu_Frame
  imports Cpu_Inv
begin

text \<open>
  What the interpreter leaves alone: no handler but \<open>int\<close> touches what the owner of the CPU
  keeps beside it (\<open>more\<close>), and no handler touches \<open>icount\<close>, which \<open>run\<close> advances once, on
  its way out, by at most the number of steps it was given. So an invariant of the owner
  holds through a run when the callbacks keep it.
\<close>

definition frame :: "'x cpu_scheme \<Rightarrow> 'x \<times> int" where
  "frame c = (cpu.more c, icount c)"

lemma frame_upd [simp]:
  "frame (c\<lparr>mem := m\<rparr>) = frame c" "frame (c\<lparr>regs := r\<rparr>) = frame c"
  "frame (c\<lparr>eip := a\<rparr>) = frame c" "frame (c\<lparr>flags := f\<rparr>) = frame c"
  "frame (c\<lparr>halted := b\<rparr>) = frame c" "frame (c\<lparr>insn_start := a\<rparr>) = frame c"
  "frame (c\<lparr>prof := p\<rparr>) = frame c"
  by (simp_all add: frame_def)

lemma frame_regs [simp]:
  "frame (set_rg r v c) = frame c" "frame (set_reg8 r8 v c) = frame c"
  "frame (set_reg16 r v c) = frame c" "frame (write_reg r sz v c) = frame c"
  "frame (wr_reg sz r v masked c) = frame c" "frame (set_eflags v c) = frame c"
  by (simp_all add: set_rg_def set_reg8_def set_reg16_def write_reg_def wr_reg_def set_eflags_def Let_def)

lemma kept_from_mem [kept_rules]: "kept frame (from_mem f)"
  by (simp add: kept_def from_mem_def)

lemma kept_on_mem [kept_rules]: "kept frame (on_mem m)"
  by (simp add: kept_def on_mem_def split: prod.splits)

lemma kept_primitives [kept_rules]:
  "kept frame (set_eip a)" "kept frame (set_flags f)" "kept frame fetch8" "kept frame fetch16"
  "kept frame fetch32" "kept frame (push32 v)" "kept frame pop32" "kept frame (push16 v)"
  "kept frame pop16" "kept frame (read_mem_sized a sz)" "kept frame (write_mem_sized a sz v)"
  "kept frame (read_rm md rm a sz)" "kept frame (write_rm md rm a sz v)" "kept frame (bad op st)"
  unfolding set_eip_def set_flags_def fetch8_def fetch16_def fetch32_def push32_def pop32_def
    push16_def pop16_def read_mem_sized_def write_mem_sized_def read_rm_def write_rm_def bad_def
  by (intro kept_rules; simp)+

section \<open>Handlers\<close>

lemma frame_arith [simp]:
  "frame (mul_unsigned src sz c) = frame c" "frame (mul_signed src sz c) = frame c"
  by (simp_all add: mul_unsigned_def mul_signed_def Let_def)

lemma kept_operand [kept_rules]:
  "(\<And>d. kept f (m d)) \<Longrightarrow> (\<And>a. kept f (n a)) \<Longrightarrow> kept f (case loc of OReg d \<Rightarrow> m d | OMem a \<Rightarrow> n a)"
  by (simp split: operand.split)

lemma kept_rm [kept_rules]: "kept frame (rm_rd loc sz)" "kept frame (rm_wr loc sz v masked)"
  unfolding rm_rd_def rm_wr_def by (intro kept_rules; simp)+

lemma kept_div [kept_rules]: "kept frame (div_unsigned src sz)" "kept frame (div_signed src sz)"
  by (simp_all add: kept_def div_unsigned_def div_signed_def Let_def split: prod.splits)

lemma kept_templates [kept_rules]:
  "kept frame (t_alu_rm_r op sz form e)" "kept frame (t_alu_r_rm op sz form e)"
  "kept frame (t_alu_rm_imm op sz form e)" "kept frame (t_test sz form b e)"
  "kept frame (t_xchg sz form e)" "kept frame (t_unary f sz form e)"
  "kept frame (t_shift kind sz src form e)" "kept frame (t_movx sx sz dst form e)"
  "kept frame (t_call_rm form e)" "kept frame (t_push_rm form e)"
  unfolding t_alu_rm_r_def t_alu_r_rm_def t_alu_rm_imm_def t_test_def t_xchg_def t_unary_def
    t_shift_def t_movx_def t_call_rm_def t_push_rm_def
  by (intro kept_rules; simp)+

lemma kept_tmpl [kept_rules]: "kept frame (exec_tmpl t form e)"
  by (cases t; simp add: exec_tmpl_def; intro kept_rules; simp)

lemma kept_enter_loop [kept_rules]: "kept frame (enter_loop k)"
  by (induction k) (simp, intro kept_rules, simp, intro kept_rules, simp_all)

lemma kept_stack [kept_rules]:
  "kept frame h_hlt" "kept frame (h_bad e)" "kept frame (h_lea_reg e)" "kept frame (h_push_r32 e)"
  "kept frame (h_pop_r32 e)" "kept frame (h_push_r16 e)" "kept frame (h_pop_r16 e)"
  "kept frame (h_push_imm32 e)" "kept frame (h_call_rel e)" "kept frame (h_ret n)"
  "kept frame h_leave" "kept frame (h_enter e)" "kept frame (h_xchg_eax_r e)"
  unfolding h_hlt_def h_bad_def h_lea_reg_def h_push_r32_def h_pop_r32_def h_push_r16_def
    h_pop_r16_def h_push_imm32_def h_call_rel_def h_ret_def h_leave_def h_enter_def h_xchg_eax_r_def
  by (intro kept_rules; simp)+

lemma kept_convert [kept_rules]:
  "kept frame (h_cbw e)" "kept frame (h_cwd e)" "kept frame (h_pushf e)" "kept frame (h_popf e)"
  "kept frame h_sahf" "kept frame h_lahf" "kept frame h_xlat" "kept frame (h_mov_al_moffs e)"
  "kept frame (h_mov_ax_moffs e)" "kept frame (h_mov_moffs_al e)" "kept frame (h_mov_moffs_ax e)"
  "kept frame (h_loop e)"
  unfolding h_cbw_def h_cwd_def h_pushf_def h_popf_def h_sahf_def h_lahf_def h_xlat_def
    h_mov_al_moffs_def h_mov_ax_moffs_def h_mov_moffs_al_def h_mov_moffs_ax_def h_loop_def
  by (intro kept_rules; simp)+

lemma kept_wide [kept_rules]:
  "kept frame (h_imul3 e)" "kept frame (h_imul2 e)" "kept frame (h_muldiv e)"
  "kept frame (h_pop_rm e)" "kept frame (h_push_rm16 e)" "kept frame (bt_impl e sub b)"
  "kept frame (h_bt_r e)" "kept frame (h_bsf e)" "kept frame (h_shd e)"
  unfolding h_imul3_def h_imul2_def h_muldiv_def h_pop_rm_def h_push_rm16_def bt_impl_def
    h_bt_r_def h_bsf_def h_shd_def
  by (intro kept_rules; simp add: Let_def)+

lemma kept_string_elem [kept_rules]: "kept frame (string_elem op sz delta)"
  unfolding string_elem_def by (intro kept_rules; simp)

lemma kept_string_loop [kept_rules]: "kept frame (string_loop op sz delta rep n)"
proof (induction n)
  case (Suc n)
  then show ?case by (simp only: string_loop.simps) (intro kept_rules; simp)
qed (simp, intro kept_rules)


lemma kept_string [kept_rules]: "kept frame (string_op op sz rep)"
  unfolding string_op_def string_op_impl_def by (intro kept_rules; simp)

lemma kept_exec:
  assumes "e_fn e \<noteq> H_int"
  shows "kept frame (exec oi e)"
proof (cases "e_fn e")
  case H_int
  with assms show ?thesis by simp
qed (simp add: exec_def; intro kept_rules; simp)+

section \<open>Decoding\<close>

lemma kept_decode_parts [kept_rules]:
  "kept frame modrm_dec" "kept frame (mk start variants sz m imm)"
  "kept frame (mk_reg start f sz reg base imm)" "kept frame (mk_E start f sz reg imm)"
  "kept frame (mk_bad start sz m op)" "kept frame (fetch_imm sz)"
  unfolding modrm_dec_def mk_def mk_reg_def mk_E_def mk_bad_def fetch_imm_def
  by (intro kept_rules; simp)+


lemma kept_with_modrm [kept_rules]: "kept frame (with_modrm start variants sz imm)"
  unfolding with_modrm_def by (intro kept_rules)

lemma kept_decoders [kept_rules]:
  "kept frame (dec_alu op opsize start)" "kept frame (dec_incdec_r op opsize start)"
  "kept frame (dec_push_r op opsize start)" "kept frame (dec_pop_r op opsize start)"
  "kept frame (dec_push_imm op opsize start)" "kept frame (dec_imul3 op opsize start)"
  "kept frame (dec_jcc8 op opsize start)" "kept frame (dec_alu_imm op opsize start)"
  "kept frame (dec_test_rm_r op opsize start)" "kept frame (dec_xchg op opsize start)"
  "kept frame (dec_mov_rm_r op opsize start)" "kept frame (dec_mov_r_rm op opsize start)"
  "kept frame (dec_lea op opsize start)" "kept frame (dec_pop_rm op opsize start)"
  "kept frame (dec_simple f op opsize start)" "kept frame (dec_xchg_eax_r op opsize start)"
  "kept frame (dec_moffs op opsize start)" "kept frame (dec_string op opsize start)"
  unfolding dec_alu_def dec_incdec_r_def dec_push_r_def dec_pop_r_def dec_push_imm_def
    dec_imul3_def dec_jcc8_def dec_alu_imm_def dec_test_rm_r_def dec_xchg_def dec_mov_rm_r_def
    dec_mov_r_rm_def dec_lea_def dec_pop_rm_def dec_simple_def dec_xchg_eax_r_def dec_moffs_def
    dec_string_def
  by (intro kept_rules)+

lemma kept_decoders2 [kept_rules]:
  "kept frame (dec_test_acc_imm op opsize start)" "kept frame (dec_mov_r8_imm op opsize start)"
  "kept frame (dec_mov_r_imm op opsize start)" "kept frame (dec_shift op opsize start)"
  "kept frame (dec_ret_n op opsize start)" "kept frame (dec_mov_rm_imm op opsize start)"
  "kept frame (dec_enter op opsize start)" "kept frame (dec_int op opsize start)"
  "kept frame (dec_loop op opsize start)" "kept frame (dec_call_rel op opsize start)"
  "kept frame (dec_jmp_rel32 op opsize start)" "kept frame (dec_jmp_rel8 op opsize start)"
  "kept frame (dec_grp_f7 op opsize start)" "kept frame (dec_grp_ff op opsize start)"
  "kept frame (dec_jcc32 op opsize start)" "kept frame (dec_setcc op opsize start)"
  "kept frame (dec_bt op opsize start)" "kept frame (dec_shd op opsize start)"
  "kept frame (dec_movx op opsize start)"
  unfolding dec_test_acc_imm_def dec_mov_r8_imm_def dec_mov_r_imm_def dec_shift_def dec_ret_n_def
    dec_mov_rm_imm_def dec_enter_def dec_int_def dec_loop_def dec_call_rel_def dec_jmp_rel32_def
    dec_jmp_rel8_def dec_grp_f7_def dec_grp_ff_def dec_jcc32_def dec_setcc_def dec_bt_def
    dec_shd_def dec_movx_def
  by (intro kept_rules)+

lemma kept_DEC [kept_rules]: "kept frame (DEC op opsize start)"
proof -
  have "kept frame (DEC0F op opsize start)" for op :: int
    unfolding DEC0F_def by (intro kept_rules)
  then have "kept frame (dec_0f op opsize start)"
    unfolding dec_0f_def by (intro kept_rules)
  then show ?thesis unfolding DEC_def by (intro kept_rules)
qed

lemma kept_fetch_insn: "kept frame fetch_insn"
  unfolding fetch_insn_def decode_def by (intro kept_rules; simp)

section \<open>A run\<close>

text \<open>A callback of the CPU keeps \<open>I\<close> of the CPU with its owner.\<close>

definition upholds :: "('x cpu_scheme \<Rightarrow> bool) \<Rightarrow> ('a \<Rightarrow> ('x, unit) cm) option \<Rightarrow> bool" where
  "upholds I cb \<longleftrightarrow> (\<forall>f x. cb = Some f \<longrightarrow> gives I (f x) (\<lambda>_. True))"

text \<open>
  An invariant \<open>I\<close> is about the owner when it only reads the frame: with it, every instruction
  keeps \<open>I\<close> if the callbacks do.
\<close>

lemma gives_frame: "kept frame m \<Longrightarrow> (\<And>c d. frame c = frame d \<Longrightarrow> I c = I d) \<Longrightarrow> gives I m (\<lambda>_. True)"
  unfolding gives_def by (metis keptD)

lemma kept_exec_gives:
  assumes "\<And>c d. frame c = frame d \<Longrightarrow> I c = I d" and "upholds I oi"
  shows "gives I (exec oi e) (\<lambda>_. True)"
proof (cases "e_fn e = H_int")
  case True
  have "gives I h_hlt (\<lambda>_. True)"
    using kept_stack(1) assms(1) by (rule gives_frame)
  with True assms(2) show ?thesis
    by (cases oi) (simp_all add: exec_def h_int_def upholds_def)
next
  case False
  from kept_exec [OF False] assms(1) show ?thesis by (rule gives_frame)
qed

lemma gives_run_one_owner:
  assumes "\<And>c d. frame c = frame d \<Longrightarrow> I c = I d" and "upholds I oi" and "upholds I ofl"
  shows "gives I (run_one oi ofl) (\<lambda>_. True)"
proof -
  have b: "gives I (bindE fetch_insn (exec oi)) (\<lambda>_. True)"
    by (intro gives_bindE [OF gives_frame [OF kept_fetch_insn]] kept_exec_gives assms)
  have f: "gives I (thenE (f ex) (ret False)) (\<lambda>_. True)" if "ofl = Some f" for f ex
    using assms(3) that by (intro gives_thenE gives_ret TrueI) (simp add: upholds_def)
  have "I (snd (catch_fault ofl (bindE fetch_insn (exec oi)) c))" if "I c" for c
    using givesD [OF b that] givesD [OF f]
    by (auto simp: catch_fault_def split: prod.splits sum.splits option.splits)
  then have "gives I (catch_fault ofl (bindE fetch_insn (exec oi))) (\<lambda>_. True)"
    by (simp add: gives_def)
  then show ?thesis
    unfolding run_one_def by (intro gives_bind_gets gives_if gives_raise)
qed

lemma gives_keeps: "gives I m R \<Longrightarrow> I c \<Longrightarrow> I (snd (m c))"
  by (simp add: gives_def)

lemma kept_record: "kept frame (record_insn a)"
  by (simp add: kept_def record_insn_def split: option.splits prod.splits)

text \<open>
  \<open>run\<close>: an invariant \<open>J\<close> of the owner is kept, and \<open>icount\<close> grows by what \<open>run\<close> counted, at
  most the number of steps; the callbacks see it unchanged.
\<close>

definition owned :: "('x \<Rightarrow> bool) \<Rightarrow> int \<Rightarrow> 'x cpu_scheme \<Rightarrow> bool" where
  "owned J n c \<longleftrightarrow> J (cpu.more c) \<and> icount c = n"

lemma owned_frame: "frame c = frame d \<Longrightarrow> owned J n c = owned J n d"
  by (simp add: owned_def frame_def)

definition ran :: "('x \<Rightarrow> bool) \<Rightarrow> int \<Rightarrow> int \<Rightarrow> 'x cpu_scheme \<Rightarrow> bool" where
  "ran J n k c \<longleftrightarrow> J (cpu.more c) \<and> n \<le> icount c \<and> icount c \<le> n + k"

lemma ran_add: "owned J n c \<Longrightarrow> 0 \<le> d \<Longrightarrow> d \<le> k \<Longrightarrow> ran J n k (add_icount d c)"
  by (simp add: ran_def owned_def add_icount_def)

lemma owned_add: "owned J n c \<Longrightarrow> icount (add_icount d c) = n + d"
  by (simp add: owned_def add_icount_def)

lemma owned_run_one:
  assumes "upholds (owned J n) oi" and "upholds (owned J n) ofl" and "owned J n c"
  shows "owned J n (snd (run_one oi ofl c))"
  by (rule gives_keeps [OF gives_run_one_owner [OF owned_frame assms(1,2)] assms(3)])

lemma owned_record: "owned J n c \<Longrightarrow> owned J n (snd (record_insn a c))"
  by (rule gives_keeps [OF gives_frame [OF kept_record owned_frame]])

lemma ran_run_loop:
  assumes cb: "upholds (owned J n) oi" "upholds (owned J n) ofl"
  shows "owned J n c \<Longrightarrow> 0 \<le> d \<Longrightarrow> ran J n (d + int k) (snd (run_loop oi ofl k d c)) \<and>
    (\<forall>x. fst (run_loop oi ofl k d c) = Inr x \<longrightarrow> icount (snd (run_loop oi ofl k d c)) = n + x)"
proof (induction k arbitrary: c d)
  case 0
  then show ?case by (simp add: ran_add owned_add)
next
  case (Suc k)
  obtain r c' where r: "run_one oi ofl c = (r, c')" by fastforce
  then have c': "owned J n c'" using owned_run_one [OF cb Suc.prems(1)] by simp
  show ?case
  proof (cases r)
    case (Inl ex)
    then show ?thesis using r c' Suc.prems by (simp add: ran_add owned_add)
  next
    case (Inr u)
    then show ?thesis using r Suc.IH [OF c', of "d + 1"] Suc.prems by (simp add: algebra_simps)
  qed
qed

lemma ran_run_profiled_loop:
  assumes cb: "upholds (owned J n) oi" "upholds (owned J n) ofl"
  shows "owned J n c \<Longrightarrow> 0 \<le> d \<Longrightarrow> ran J n (d + int k) (snd (run_profiled_loop oi ofl k d c)) \<and>
    (\<forall>x. fst (run_profiled_loop oi ofl k d c) = Inr x \<longrightarrow> icount (snd (run_profiled_loop oi ofl k d c)) = n + x)"
proof (induction k arbitrary: c d)
  case 0
  then show ?case by (simp add: ran_add owned_add)
next
  case (Suc k)
  let ?m = "bindE (run_one oi ofl) (\<lambda>ok. if ok then record_insn (eip c) else ret ())"
  obtain r c' where r: "?m c = (r, c')" by fastforce
  have "owned J n (snd (?m c))"
    using owned_run_one [OF cb Suc.prems(1)] by (cases "run_one oi ofl c" rule: prod.exhaust)
      (auto simp: bindE_def ret_def owned_record split: sum.split)
  then have c': "owned J n c'" using r by simp
  show ?case
  proof (cases r)
    case (Inl ex)
    moreover have "owned J n (snd (record_insn (eip c) c'))" using c' by (rule owned_record)
    ultimately show ?thesis
      using r c' Suc.prems by (auto simp: ran_add owned_add split: prod.splits sum.splits)
  next
    case (Inr u)
    then show ?thesis using r Suc.IH [OF c', of "d + 1"] Suc.prems by (simp add: algebra_simps)
  qed
qed

lemma ran_run:
  assumes "upholds (owned J n) oi" and "upholds (owned J n) ofl" and "owned J n c" and "0 \<le> k"
  shows "ran J n k (snd (run oi ofl k c)) \<and>
    (\<forall>x. fst (run oi ofl k c) = Inr x \<longrightarrow> icount (snd (run oi ofl k c)) = n + x)"
  using ran_run_loop [OF assms(1-3), of 0 "nat k"] ran_run_profiled_loop [OF assms(1-3), of 0 "nat k"] assms(3,4)
  by (cases "halted c") (simp_all add: run_def run_profiled_def ran_def owned_def)

text \<open>The owner alone, for callbacks that may replace the CPU, count and all.\<close>

definition owner :: "('x \<Rightarrow> bool) \<Rightarrow> 'x cpu_scheme \<Rightarrow> bool" where
  "owner J c \<longleftrightarrow> J (cpu.more c)"

lemma owner_frame: "frame c = frame d \<Longrightarrow> owner J c = owner J d"
  by (simp add: owner_def frame_def)

lemma owner_add_icount [simp]: "owner J (add_icount n c) = owner J c"
  by (simp add: owner_def add_icount_def)

lemma owner_run_one:
  assumes "upholds (owner J) oi" and "upholds (owner J) ofl" and "owner J c"
  shows "owner J (snd (run_one oi ofl c))"
  by (rule gives_keeps [OF gives_run_one_owner [OF owner_frame assms(1,2)] assms(3)])

lemma owner_record: "owner J c \<Longrightarrow> owner J (snd (record_insn a c))"
  by (rule gives_keeps [OF gives_frame [OF kept_record owner_frame]])

lemma owner_run_loop:
  assumes cb: "upholds (owner J) oi" "upholds (owner J) ofl"
  shows "owner J c \<Longrightarrow> owner J (snd (run_loop oi ofl k d c))"
proof (induction k arbitrary: c d)
  case (Suc k)
  then have "owner J (snd (run_one oi ofl c))" using owner_run_one [OF cb] by blast
  with Suc.IH show ?case by (cases "run_one oi ofl c") (auto split: sum.split)
qed simp

lemma owner_run_profiled_loop:
  assumes cb: "upholds (owner J) oi" "upholds (owner J) ofl"
  shows "owner J c \<Longrightarrow> owner J (snd (run_profiled_loop oi ofl k d c))"
proof (induction k arbitrary: c d)
  case (Suc k)
  let ?m = "bindE (run_one oi ofl) (\<lambda>ok. if ok then record_insn (eip c) else ret ())"
  have m: "owner J (snd (?m c))"
    using owner_run_one [OF cb Suc.prems(1)] by (cases "run_one oi ofl c" rule: prod.exhaust)
      (auto simp: bindE_def ret_def owner_record split: sum.split)
  then have "owner J (snd (record_insn (eip c) (snd (?m c))))" by (rule owner_record)
  with m Suc.IH show ?case
    by (cases "?m c"; cases "record_insn (eip c) (snd (?m c))") (auto split: sum.split)
qed simp

lemma owner_run:
  assumes "upholds (owner J) oi" and "upholds (owner J) ofl" and "owner J c"
  shows "owner J (snd (run oi ofl k c))"
  using owner_run_loop [OF assms] owner_run_profiled_loop [OF assms] assms(3)
  by (simp add: run_def run_profiled_def)

end
