(* ===== verification/Cpu_Arith.thy ===== *)
theory Cpu_Arith
  imports Cpu_Exec
begin

text \<open>
  What the arithmetic of \<open>src/cpu86.py\<close> computes: the results and flags of the ALU templates
  as unsigned and signed arithmetic modulo the operand width, the condition codes after a
  comparison, and the divisions.
\<close>

section \<open>Widths, signed values, single flags\<close>

definition bits_of :: "int \<Rightarrow> nat" where
  "bits_of sz = nat (8 * sz)"

text \<open>Half of the range of an operand, and the value of an operand as a signed number.\<close>

definition half :: "int \<Rightarrow> int" where
  "half sz = SIGN_of sz"

definition signed_val :: "int \<Rightarrow> int \<Rightarrow> int" where
  "signed_val sz v = (if v \<ge> half sz then v - 2 * half sz else v)"

definition fits :: "int \<Rightarrow> int \<Rightarrow> bool" where
  "fits sz v \<longleftrightarrow> 0 \<le> v \<and> v < 2 * half sz"

definition signed_fits :: "int \<Rightarrow> int \<Rightarrow> bool" where
  "signed_fits sz v \<longleftrightarrow> - half sz \<le> v \<and> v < half sz"

lemma MASK_mod: "sz \<in> {1, 2, 4} \<Longrightarrow> x AND MASK_of sz = x mod (2 * half sz)"
  by (auto simp: MASK_of_def half_def SIGN_of_def and_masks)

lemma MASK_half: "sz \<in> {1, 2, 4} \<Longrightarrow> MASK_of sz = 2 * half sz - 1"
  by (auto simp: MASK_of_def half_def SIGN_of_def)

lemma half_pow: "sz \<in> {1, 2, 4} \<Longrightarrow> half sz = 2 ^ (bits_of sz - 1)"
  by (auto simp: half_def SIGN_of_def bits_of_def)

lemma half_pos: "sz \<in> {1, 2, 4} \<Longrightarrow> 0 < half sz"
  by (auto simp: half_def SIGN_of_def)

lemma bit_half:
  assumes "0 \<le> x" and "x < 2 * 2 ^ k"
  shows "bit x k \<longleftrightarrow> (2 :: int) ^ k \<le> x"
proof (cases "2 ^ k \<le> x")
  case True
  then have "x div 2 ^ k = 1"
    using assms int_div_pos_eq [of x "2 ^ k" 1 "x - 2 ^ k"] by simp
  with True show ?thesis by (simp add: bit_iff_odd)
next
  case False
  with assms show ?thesis by (simp add: bit_iff_odd div_pos_pos_trivial)
qed

lemma sign_bit: "sz \<in> {1, 2, 4} \<Longrightarrow> x AND SIGN_of sz \<noteq> 0 \<longleftrightarrow> bit x (bits_of sz - 1)"
  using and_exp_eq_0_iff_not_bit [of x "bits_of sz - 1"] half_pow [of sz] by (simp add: half_def)

lemma sign_half: "sz \<in> {1, 2, 4} \<Longrightarrow> fits sz x \<Longrightarrow> bit x (bits_of sz - 1) \<longleftrightarrow> half sz \<le> x"
  using bit_half [of x "bits_of sz - 1"] half_pow [of sz] by (simp add: fits_def)

lemma flag_bits:
  "f AND CF \<noteq> 0 \<longleftrightarrow> bit f 0" "f AND PF \<noteq> 0 \<longleftrightarrow> bit f 2" "f AND AF \<noteq> 0 \<longleftrightarrow> bit f 4"
  "f AND ZF \<noteq> 0 \<longleftrightarrow> bit f 6" "f AND SF \<noteq> 0 \<longleftrightarrow> bit f 7" "f AND DF \<noteq> 0 \<longleftrightarrow> bit f 10"
  "f AND OF_FLAG \<noteq> 0 \<longleftrightarrow> bit f 11"
  using and_exp_eq_0_iff_not_bit [of f 0] and_exp_eq_0_iff_not_bit [of f 2]
    and_exp_eq_0_iff_not_bit [of f 4] and_exp_eq_0_iff_not_bit [of f 6]
    and_exp_eq_0_iff_not_bit [of f 7] and_exp_eq_0_iff_not_bit [of f 10]
    and_exp_eq_0_iff_not_bit [of f 11]
  by (simp_all add: flag_consts)

lemma bit_flag_if: "bit (flag_if b m f) k \<longleftrightarrow> bit f k \<or> b \<and> bit m k"
  by (simp add: flag_if_def bit_or_iff)

lemma bit_parity: "bit (PARITY i) k \<longleftrightarrow> bit_count8 i mod 2 = 0 \<and> k = 2"
proof -
  have "bit (4 :: int) k \<longleftrightarrow> k = 2"
    using bit_exp_iff [of 2 k, where ?'a = int] by auto
  then show ?thesis by (simp add: PARITY_def PF_def)
qed

lemma bit_consts:
  "bit CF k \<longleftrightarrow> k = 0" "bit AF k \<longleftrightarrow> k = 4" "bit ZF k \<longleftrightarrow> k = 6" "bit SF k \<longleftrightarrow> k = 7"
  "bit DF k \<longleftrightarrow> k = 10" "bit OF_FLAG k \<longleftrightarrow> k = 11" "bit EFLAGS_BASE k \<longleftrightarrow> k = 1 \<or> k = 9"
proof -
  have pow: "bit (2 ^ n :: int) k \<longleftrightarrow> k = n" for n
    by (auto simp: bit_exp_iff)
  have "EFLAGS_BASE = 2 ^ 1 OR 2 ^ 9"
    by (simp add: EFLAGS_BASE_def)
  then have "bit EFLAGS_BASE k \<longleftrightarrow> bit (2 ^ 1 :: int) k \<or> bit (2 ^ 9 :: int) k"
    by (metis bit_or_iff)
  then show "bit EFLAGS_BASE k \<longleftrightarrow> k = 1 \<or> k = 9"
    unfolding pow .
  show "bit CF k \<longleftrightarrow> k = 0" "bit AF k \<longleftrightarrow> k = 4" "bit ZF k \<longleftrightarrow> k = 6" "bit SF k \<longleftrightarrow> k = 7"
    "bit DF k \<longleftrightarrow> k = 10" "bit OF_FLAG k \<longleftrightarrow> k = 11"
    using pow [of 0] pow [of 4] pow [of 6] pow [of 7] pow [of 10] pow [of 11]
    by (simp_all add: flag_consts)
qed

lemmas flag_bit_simps = bit_flag_if bit_or_iff bit_and_iff bit_consts bit_parity

section \<open>Addition and subtraction\<close>

lemma add_overflow:
  assumes "0 < H" and "0 \<le> a" "a < 2 * H" "0 \<le> b" "b < 2 * H" "0 \<le> c" "c \<le> (1 :: int)"
    and "t = (a + b + c) mod (2 * H)"
  shows "((H \<le> a) = (H \<le> b) \<and> (H \<le> a) \<noteq> (H \<le> t)) \<longleftrightarrow>
    \<not> (- H \<le> (if H \<le> a then a - 2 * H else a) + (if H \<le> b then b - 2 * H else b) + c \<and>
       (if H \<le> a then a - 2 * H else a) + (if H \<le> b then b - 2 * H else b) + c < H)"
proof (cases "a + b + c < 2 * H")
  case True
  then have "t = a + b + c"
    using assms by simp
  with assms True show ?thesis by (auto split: if_splits)
next
  case False
  have "t = (a + b + c - 2 * H) mod (2 * H)"
    using assms(8) by simp
  also have "\<dots> = a + b + c - 2 * H"
    by (rule mod_pos_pos_trivial) (use assms False in auto)
  finally have "t = a + b + c - 2 * H" .
  with assms False show ?thesis by (auto split: if_splits)
qed

lemma sub_overflow:
  assumes "0 < H" and "0 \<le> a" "a < 2 * H" "0 \<le> b" "b < 2 * H" "0 \<le> c" "c \<le> (1 :: int)"
    and "t = (a - b - c) mod (2 * H)"
  shows "((H \<le> a) \<noteq> (H \<le> b) \<and> (H \<le> a) \<noteq> (H \<le> t)) \<longleftrightarrow>
    \<not> (- H \<le> (if H \<le> a then a - 2 * H else a) - (if H \<le> b then b - 2 * H else b) - c \<and>
       (if H \<le> a then a - 2 * H else a) - (if H \<le> b then b - 2 * H else b) - c < H)"
proof (cases "a - b - c < 0")
  case True
  have "t = (a - b - c + 2 * H) mod (2 * H)"
    using assms(8) by simp
  then have "t = a - b - c + 2 * H"
    using assms True by (simp del: mod_add_self2)
  with assms True show ?thesis by (auto split: if_splits)
next
  case False
  then have "t = a - b - c"
    using assms by simp
  with assms False show ?thesis by (auto split: if_splits)
qed

text \<open>The flags a result of the ALU leaves, as one predicate on the flags word.\<close>

definition alu_flags :: "int \<Rightarrow> int \<Rightarrow> bool \<Rightarrow> bool \<Rightarrow> int \<Rightarrow> int \<Rightarrow> bool" where
  "alu_flags sz res carry over old f \<longleftrightarrow>
     (f AND CF \<noteq> 0 \<longleftrightarrow> carry) \<and> (f AND OF_FLAG \<noteq> 0 \<longleftrightarrow> over) \<and> (f AND ZF \<noteq> 0 \<longleftrightarrow> res = 0)
     \<and> (f AND SF \<noteq> 0 \<longleftrightarrow> half sz \<le> res) \<and> (f AND PF \<noteq> 0 \<longleftrightarrow> bit_count8 (res AND 0xFF) mod 2 = 0)
     \<and> (f AND DF \<noteq> 0 \<longleftrightarrow> old AND DF \<noteq> 0)"

lemma f_add_exact:
  assumes sz: "sz \<in> {1, 2, 4}" and a: "fits sz a" and b: "fits sz b" and c: "c = 0 \<or> c = 1"
  shows "fst (f_add sz a b c (a + b + c) fl) = (a + b + c) mod (2 * half sz)"
    and "alu_flags sz ((a + b + c) mod (2 * half sz)) (2 * half sz \<le> a + b + c)
      (\<not> signed_fits sz (signed_val sz a + signed_val sz b + c)) fl
      (snd (f_add sz a b c (a + b + c) fl))"
proof -
  define t where "t = (a + b + c) mod (2 * half sz)"
  have t: "(a + b + c) AND MASK_of sz = t" and fit: "fits sz t"
    using half_pos [OF sz] by (simp_all add: MASK_mod [OF sz] t_def fits_def)
  have over: "(NOT (a XOR b)) AND (a XOR t) AND SIGN_of sz \<noteq> 0 \<longleftrightarrow>
      \<not> signed_fits sz (signed_val sz a + signed_val sz b + c)"
    using add_overflow [of "half sz" a b c t] half_pos [OF sz] a b c
    unfolding and.assoc [symmetric] sign_bit [OF sz] bit_and_iff bit_not_int_iff bit_xor_iff
      sign_half [OF sz a] sign_half [OF sz b] sign_half [OF sz fit]
    by (auto simp: t_def signed_fits_def signed_val_def fits_def)
  show "fst (f_add sz a b c (a + b + c) fl) = (a + b + c) mod (2 * half sz)"
    by (simp add: f_add_def Let_def t t_def [symmetric])
  show "alu_flags sz ((a + b + c) mod (2 * half sz)) (2 * half sz \<le> a + b + c)
      (\<not> signed_fits sz (signed_val sz a + signed_val sz b + c)) fl
      (snd (f_add sz a b c (a + b + c) fl))"
    unfolding alu_flags_def flag_bits f_add_def Let_def t snd_conv flag_bit_simps over t_def [symmetric]
    unfolding sign_bit [OF sz] sign_half [OF sz fit]
    by (auto simp: MASK_half [OF sz])
qed

lemma f_sub_exact:
  assumes sz: "sz \<in> {1, 2, 4}" and a: "fits sz a" and b: "fits sz b" and c: "c = 0 \<or> c = 1"
  shows "fst (f_sub sz a b c (a - b - c) fl) = (a - b - c) mod (2 * half sz)"
    and "alu_flags sz ((a - b - c) mod (2 * half sz)) (a < b + c)
      (\<not> signed_fits sz (signed_val sz a - signed_val sz b - c)) fl
      (snd (f_sub sz a b c (a - b - c) fl))"
proof -
  define t where "t = (a - b - c) mod (2 * half sz)"
  have t: "(a - b - c) AND MASK_of sz = t" and fit: "fits sz t"
    using half_pos [OF sz] by (simp_all add: MASK_mod [OF sz] t_def fits_def)
  have over: "(a XOR b) AND (a XOR t) AND SIGN_of sz \<noteq> 0 \<longleftrightarrow>
      \<not> signed_fits sz (signed_val sz a - signed_val sz b - c)"
    using sub_overflow [of "half sz" a b c t] half_pos [OF sz] a b c
    unfolding and.assoc [symmetric] sign_bit [OF sz] bit_and_iff bit_xor_iff
      sign_half [OF sz a] sign_half [OF sz b] sign_half [OF sz fit]
    by (auto simp: t_def signed_fits_def signed_val_def fits_def)
  show "fst (f_sub sz a b c (a - b - c) fl) = (a - b - c) mod (2 * half sz)"
    by (simp add: f_sub_def Let_def t t_def [symmetric])
  show "alu_flags sz ((a - b - c) mod (2 * half sz)) (a < b + c)
      (\<not> signed_fits sz (signed_val sz a - signed_val sz b - c)) fl
      (snd (f_sub sz a b c (a - b - c) fl))"
    unfolding alu_flags_def flag_bits f_sub_def Let_def t snd_conv flag_bit_simps over t_def [symmetric]
    unfolding sign_bit [OF sz] sign_half [OF sz fit]
    by auto
qed

lemma f_logic_exact:
  assumes sz: "sz \<in> {1, 2, 4}" and "fits sz res"
  shows "alu_flags sz res False False fl (f_logic sz res fl)"
  unfolding alu_flags_def flag_bits f_logic_def Let_def flag_bit_simps
  unfolding sign_bit [OF sz] sign_half [OF assms]
  by auto

lemma carry_01: "fl AND CF = 0 \<or> fl AND CF = 1"
  by (simp add: CF_def and_one_eq mod2_eq_if)

lemma fits_take_bit: "sz \<in> {1, 2, 4} \<Longrightarrow> fits sz x \<longleftrightarrow> take_bit (bits_of sz) x = x"
  by (auto simp: fits_def half_def SIGN_of_def bits_of_def take_bit_int_eq_self_iff)

lemma fits_logic:
  assumes "sz \<in> {1, 2, 4}" and "fits sz a" and "fits sz b"
  shows "fits sz (a OR b)" "fits sz (a AND b)" "fits sz (a XOR b)"
  using assms by (simp_all add: fits_take_bit)

text \<open>The eight operations of the ALU family.\<close>

definition alu_result :: "int \<Rightarrow> int \<Rightarrow> int \<Rightarrow> int \<Rightarrow> int" where
  "alu_result op a b c =
     (if op = 0 then a + b else if op = 2 then a + b + c else if op = 3 then a - b - c
      else if op = 5 \<or> op = 7 then a - b
      else if op = 1 then a OR b else if op = 4 then a AND b else a XOR b)"

definition alu_carry :: "int \<Rightarrow> int \<Rightarrow> int \<Rightarrow> int \<Rightarrow> int \<Rightarrow> bool" where
  "alu_carry op sz a b c =
     (if op \<in> {0, 2} then 2 * half sz \<le> alu_result op a b c
      else if op \<in> {3, 5, 7} then alu_result op a b c < 0 else False)"

definition alu_overflow :: "int \<Rightarrow> int \<Rightarrow> int \<Rightarrow> int \<Rightarrow> int \<Rightarrow> bool" where
  "alu_overflow op sz a b c =
     (op \<in> {0, 2, 3, 5, 7} \<and> \<not> signed_fits sz (alu_result op (signed_val sz a) (signed_val sz b) c))"

lemma alu_body_exact:
  assumes sz: "sz \<in> {1, 2, 4}" and "op \<in> {0..7}" and a: "fits sz a" and b: "fits sz b"
  shows "fst (alu_body op sz a b fl) = alu_result op a b (fl AND CF) mod (2 * half sz) \<and>
    alu_flags sz (fst (alu_body op sz a b fl)) (alu_carry op sz a b (fl AND CF))
      (alu_overflow op sz a b (fl AND CF)) fl (snd (alu_body op sz a b fl))"
proof -
  note add = f_add_exact [OF sz a b] and sub = f_sub_exact [OF sz a b]
  have mod: "x mod (2 * half sz) = x" if "fits sz x" for x
    using that by (simp add: fits_def)
  consider "op \<in> {1, 4, 6}" | "op = 0" | "op = 2" | "op = 3" | "op = 5 \<or> op = 7"
    using assms(2) by fastforce
  then show ?thesis
  proof cases
    case 1
    then show ?thesis
      using fits_logic [OF sz a b] f_logic_exact [OF sz]
      by (auto simp: alu_body_def alu_result_def alu_carry_def alu_overflow_def Let_def mod)
  next
    case 2
    then show ?thesis
      using add [of 0 fl]
      by (simp add: alu_body_def alu_result_def alu_carry_def alu_overflow_def)
  next
    case 3
    then show ?thesis
      using add [OF carry_01, of fl fl]
      by (simp add: alu_body_def alu_result_def alu_carry_def alu_overflow_def Let_def)
  next
    case 4
    then show ?thesis
      using sub [OF carry_01, of fl fl]
      by (simp add: alu_body_def alu_result_def alu_carry_def alu_overflow_def Let_def
          algebra_simps)
  next
    case 5
    then show ?thesis
      using sub [of 0 fl]
      by (auto simp: alu_body_def alu_result_def alu_carry_def alu_overflow_def)
  qed
qed

section \<open>Conditions after a comparison\<close>

lemma sf_ne_of_iff: "sf_ne_of f \<longleftrightarrow> (f AND SF \<noteq> 0) \<noteq> (f AND OF_FLAG \<noteq> 0)"
  unfolding flag_bits sf_ne_of_def
  by (simp add: and_one_eq mod2_eq_if even_xor_iff bit_iff_odd_drop_bit)

lemma COND_cases:
  "COND 2 f = (f AND CF \<noteq> 0)" "COND 3 f = (\<not> f AND CF \<noteq> 0)"
  "COND 4 f = (f AND ZF \<noteq> 0)" "COND 5 f = (\<not> f AND ZF \<noteq> 0)"
  "COND 6 f = (f AND CF \<noteq> 0 \<or> f AND ZF \<noteq> 0)" "COND 7 f = (\<not> (f AND CF \<noteq> 0 \<or> f AND ZF \<noteq> 0))"
  "COND 12 f = sf_ne_of f" "COND 13 f = (\<not> sf_ne_of f)"
  "COND 14 f = (f AND ZF \<noteq> 0 \<or> sf_ne_of f)" "COND 15 f = (\<not> (f AND ZF \<noteq> 0 \<or> sf_ne_of f))"
proof -
  have "f AND (CF OR ZF) \<noteq> 0 \<longleftrightarrow> f AND CF \<noteq> 0 \<or> f AND ZF \<noteq> 0"
    by (simp add: bit.conj_disj_distrib or_eq_0_iff)
  then show "COND 6 f = (f AND CF \<noteq> 0 \<or> f AND ZF \<noteq> 0)"
    "COND 7 f = (\<not> (f AND CF \<noteq> 0 \<or> f AND ZF \<noteq> 0))"
    by (simp_all add: COND_def)
qed (simp_all add: COND_def)

text \<open>A jump on a condition code after \<open>cmp a, b\<close> is the comparison its name says.\<close>

lemma cmp_conditions:
  assumes sz: "sz \<in> {1, 2, 4}" and a: "fits sz a" and b: "fits sz b"
    and f: "f = snd (alu_body 7 sz a b fl)"
  shows "(COND 2 f \<longleftrightarrow> a < b) \<and> (COND 3 f \<longleftrightarrow> b \<le> a) \<and> (COND 4 f \<longleftrightarrow> a = b) \<and> (COND 5 f \<longleftrightarrow> a \<noteq> b)
    \<and> (COND 6 f \<longleftrightarrow> a \<le> b) \<and> (COND 7 f \<longleftrightarrow> b < a)
    \<and> (COND 12 f \<longleftrightarrow> signed_val sz a < signed_val sz b) \<and> (COND 13 f \<longleftrightarrow> signed_val sz b \<le> signed_val sz a)
    \<and> (COND 14 f \<longleftrightarrow> signed_val sz a \<le> signed_val sz b) \<and> (COND 15 f \<longleftrightarrow> signed_val sz b < signed_val sz a)"
proof -
  define t where "t = (a - b) mod (2 * half sz)"
  have H: "0 < half sz" "0 \<le> a" "a < 2 * half sz" "0 \<le> b" "b < 2 * half sz"
    using half_pos [OF sz] a b by (auto simp: fits_def)
  have fl: "alu_flags sz t (a < b) (\<not> signed_fits sz (signed_val sz a - signed_val sz b)) fl f"
    using f_sub_exact(2) [OF sz a b, of 0 fl] f by (simp add: alu_body_def t_def)
  have t: "t = (if a < b then a - b + 2 * half sz else a - b)"
  proof (cases "a < b")
    case True
    have "t = (a - b + 2 * half sz) mod (2 * half sz)"
      by (simp add: t_def)
    also have "\<dots> = a - b + 2 * half sz"
      by (rule mod_pos_pos_trivial) (use H True in auto)
    finally show ?thesis using True by simp
  qed (use H in \<open>simp add: t_def\<close>)
  have zf: "t = 0 \<longleftrightarrow> a = b"
    using H by (auto simp: t)
  have lt: "(half sz \<le> t) \<noteq> (\<not> signed_fits sz (signed_val sz a - signed_val sz b))
      \<longleftrightarrow> signed_val sz a < signed_val sz b"
    using H by (auto simp: t signed_fits_def signed_val_def)
  have eq: "signed_val sz a = signed_val sz b \<longleftrightarrow> a = b"
    using H by (auto simp: signed_val_def)
  have c: "f AND CF \<noteq> 0 \<longleftrightarrow> a < b" and z: "f AND ZF \<noteq> 0 \<longleftrightarrow> a = b"
    and s: "sf_ne_of f \<longleftrightarrow> signed_val sz a < signed_val sz b"
    using fl unfolding alu_flags_def sf_ne_of_iff zf lt [symmetric] by simp_all
  show ?thesis
    unfolding COND_cases c z s eq [symmetric]
    by (simp add: not_less eq le_less [of a b] le_less [of "signed_val sz a"] disj_commute)
      (metis eq less_le not_le order_le_less)
qed

section \<open>Partial registers\<close>

lemma rg_set_rg:
  "0 \<le> i \<Longrightarrow> 0 \<le> j \<Longrightarrow> j < int (length (regs c)) \<Longrightarrow>
   rg i (set_rg j v c) = (if i = j then v else rg i c)"
  by (auto simp: rg_def set_rg_def nth_list_update nat_less_iff eq_nat_nat_iff)

lemma length_set_rg [simp]: "length (regs (set_rg j v c)) = length (regs c)"
  by (simp add: set_rg_def)

lemma length_set_reg [simp]: "length (regs (set_reg8 j v c)) = length (regs c)"
  "length (regs (set_reg16 j v c)) = length (regs c)"
  by (simp_all add: set_reg8_def set_reg16_def Let_def)

lemma reg16_same: "0 \<le> i \<Longrightarrow> i < int (length (regs c)) \<Longrightarrow> get_reg16 i (set_reg16 i v c) = v AND 0xFFFF"
  by (simp add: get_reg16_def set_reg16_def rg_set_rg bit.conj_disj_distrib2 and.assoc)

lemma reg16_other:
  "0 \<le> i \<Longrightarrow> 0 \<le> j \<Longrightarrow> i \<noteq> j \<Longrightarrow> j < int (length (regs c)) \<Longrightarrow>
   get_reg16 i (set_reg16 j v c) = get_reg16 i c"
  by (simp add: get_reg16_def set_reg16_def rg_set_rg)

lemma reg8_al_ah:
  assumes "0 < length (regs c)"
  shows "get_reg8 0 (set_reg8 4 v c) = get_reg8 0 c" "get_reg8 4 (set_reg8 4 v c) = v AND 0xFF"
    "get_reg8 0 (set_reg8 0 v c) = v AND 0xFF"
  using assms
  by (simp_all add: get_reg8_def set_reg8_def Let_def rg_set_rg bit.conj_disj_distrib2 and.assoc
      drop_bit_or drop_bit_and drop_bit_push_bit)

section \<open>Division\<close>

text \<open>The operands of a division of width \<open>sz\<close>, where the code keeps them.\<close>

definition dividend :: "int \<Rightarrow> 'x cpu_scheme \<Rightarrow> int" where
  "dividend sz c = (if sz = 1 then get_reg16 EAX c
     else if sz = 2 then get_reg16 EDX c * 65536 + get_reg16 EAX c
     else rg EDX c * 4294967296 + rg EAX c)"

definition quotient_reg :: "int \<Rightarrow> 'x cpu_scheme \<Rightarrow> int" where
  "quotient_reg sz c =
     (if sz = 1 then get_reg8 0 c else if sz = 2 then get_reg16 EAX c else rg EAX c)"

definition remainder_reg :: "int \<Rightarrow> 'x cpu_scheme \<Rightarrow> int" where
  "remainder_reg sz c =
     (if sz = 1 then get_reg8 4 c else if sz = 2 then get_reg16 EDX c else rg EDX c)"

definition signed_dividend :: "int \<Rightarrow> 'x cpu_scheme \<Rightarrow> int" where
  "signed_dividend sz c =
     (let d = dividend sz c; H = 2 * half sz * half sz in if d \<ge> H then d - 2 * H else d)"

lemma glue: "0 \<le> b \<Longrightarrow> b < 2 ^ n \<Longrightarrow> push_bit n a OR b = a * 2 ^ n + (b :: int)"
proof -
  assume "0 \<le> b" "b < 2 ^ n"
  then have b: "b = take_bit n b"
    by (simp add: take_bit_int_eq_self)
  have "push_bit n a AND take_bit n b = 0"
    by (rule bit_eqI) (auto simp: bit_simps)
  then have "push_bit n a + b = push_bit n a OR b"
    using b by (intro disjunctive_add_eq_or) simp
  then show ?thesis by (simp add: push_bit_eq_mult)
qed

definition regs_ok :: "'x cpu_scheme \<Rightarrow> bool" where
  "regs_ok c \<longleftrightarrow> length (regs c) = 8 \<and> (\<forall>i \<in> {0..<8}. 0 \<le> rg i c \<and> rg i c < 4294967296)"

lemma regs_okD:
  "regs_ok c \<Longrightarrow> length (regs c) = 8"
  "regs_ok c \<Longrightarrow> 0 \<le> i \<Longrightarrow> i < 8 \<Longrightarrow> 0 \<le> rg i c"
  "regs_ok c \<Longrightarrow> 0 \<le> i \<Longrightarrow> i < 8 \<Longrightarrow> rg i c < 4294967296"
  by (auto simp: regs_ok_def)

lemma and_mask_id: "0 \<le> v \<Longrightarrow> v < 4294967296 \<Longrightarrow> v AND MASK32 = v"
  "0 \<le> v \<Longrightarrow> v < 65536 \<Longrightarrow> v AND 0xFFFF = v" "0 \<le> v \<Longrightarrow> v < 256 \<Longrightarrow> v AND 0xFF = v"
  by (simp_all add: MASK32_def and_masks)

lemma get_reg16_bounds: "0 \<le> get_reg16 i c" "get_reg16 i c < 65536"
  by (simp_all add: get_reg16_def and_masks)

lemma dividend_num:
  assumes "regs_ok c"
  shows "push_bit 16 (get_reg16 EDX c) OR get_reg16 0 c = dividend 2 c"
    and "push_bit 32 (rg EDX c AND MASK32) OR (rg EAX c AND MASK32) = dividend 4 c"
    and "get_reg16 0 c = dividend 1 c"
  using assms get_reg16_bounds [of 0 c] glue [of "get_reg16 0 c" 16] glue [of "rg EAX c" 32]
  by (simp_all add: dividend_def and_mask_id regs_okD)

lemma dividend_bounds:
  assumes "regs_ok c" and "sz \<in> {1, 2, 4}"
  shows "0 \<le> dividend sz c" "dividend sz c < 4 * half sz * half sz"
  using assms get_reg16_bounds [of 0 c] get_reg16_bounds [of 2 c] regs_okD(2,3) [OF assms(1), of 0]
    regs_okD(2,3) [OF assms(1), of 2]
  by (auto simp: dividend_def half_def SIGN_of_def)

lemma div_small: "0 \<le> a \<Longrightarrow> 0 < b \<Longrightarrow> a div b = (q :: int) \<Longrightarrow> 0 \<le> q"
  by (auto simp: pos_imp_zdiv_nonneg_iff)

text \<open>Where a division puts its results.\<close>

definition store_div :: "int \<Rightarrow> int \<Rightarrow> int \<Rightarrow> 'x cpu_scheme \<Rightarrow> 'x cpu_scheme" where
  "store_div sz q r c =
     (if sz = 1 then set_reg8 4 r (set_reg8 0 q c)
      else if sz = 2 then set_reg16 EDX r (set_reg16 0 q c)
      else set_rg EDX (r AND MASK32) (set_rg EAX (q AND MASK32) c))"

lemma stored_div:
  assumes "length (regs c) = 8" and "sz \<in> {1, 2, 4}"
  shows "quotient_reg sz (store_div sz q r c) = q mod (2 * half sz)"
    and "remainder_reg sz (store_div sz q r c) = r mod (2 * half sz)"
  using assms
  by (auto simp: store_div_def quotient_reg_def remainder_reg_def reg8_al_ah reg16_same reg16_other
      rg_set_rg and_masks MASK32_def half_def SIGN_of_def)

text \<open>An unsigned division either leaves quotient and remainder of the dividend in its two
  registers, or raises because the divisor is zero or the quotient does not fit.\<close>

lemma div_unsigned_alt:
  assumes c: "regs_ok c" and sz: "sz \<in> {1, 2, 4}" and src: "fits sz src"
  shows "div_unsigned src sz c =
    (if src = 0 \<or> 2 * half sz \<le> dividend sz c div src then (Inl DivideError, c)
     else (Inr (), store_div sz (dividend sz c div src) (dividend sz c mod src) c))"
proof -
  have "dividend 4 c mod src AND MASK32 = dividend 4 c mod src" if "src \<noteq> 0" "sz = 4"
    using that src
    by (intro and_mask_id)
      (auto simp: fits_def half_def SIGN_of_def intro: less_trans [OF pos_mod_bound])
  moreover have "dividend 4 c div src AND MASK32 = dividend 4 c div src"
    if "src \<noteq> 0" "sz = 4" "dividend 4 c div src < 4294967296"
    using that src dividend_bounds [OF c, of 4]
    by (intro and_mask_id) (auto simp: fits_def pos_imp_zdiv_nonneg_iff)
  ultimately show ?thesis
    using sz
    unfolding div_unsigned_def Let_def dividend_num(1,2) [OF c] unfolding dividend_num(3) [OF c]
    by (auto simp: store_div_def half_def SIGN_of_def MASK32_def)
qed

lemma trunc_divmod_exact:
  assumes "b \<noteq> 0" and "trunc_divmod a b = (q, r)"
  shows "a = q * b + r \<and> abs r < abs b \<and> (r = 0 \<or> (r < 0) = (a < 0))"
proof -
  define k m where "k = abs a div abs b" and "m = abs a mod abs b"
  have km: "abs a = k * abs b + m" "0 \<le> m" "m < abs b"
    using assms(1) by (simp_all add: k_def m_def)
  have q: "q = (if (a < 0) \<noteq> (b < 0) then - k else k)" and r: "r = a - q * b"
    using assms(2) by (auto simp: trunc_divmod_def Let_def k_def)
  have "q * b = (if a < 0 then - (k * abs b) else k * abs b)"
    by (auto simp: q abs_if)
  then show ?thesis
    using km by (auto simp: r abs_if split: if_splits)
qed

lemma sx_signed:
  "sx8 v = signed_val 1 v" "sx16 v = signed_val 2 v" "sx32 v = signed_val 4 v"
  by (simp_all add: sx8_def sx16_def sx32_def signed_val_def half_def SIGN_of_def SIGN32_def)

lemma signed_val_mod: "sz \<in> {1, 2, 4} \<Longrightarrow> signed_fits sz q \<Longrightarrow> signed_val sz (q mod (2 * half sz)) = q"
proof -
  assume sz: "sz \<in> {1, 2, 4}" and q: "signed_fits sz q"
  show ?thesis
  proof (cases "q < 0")
    case True
    have "q mod (2 * half sz) = (q + 2 * half sz) mod (2 * half sz)"
      by simp
    also have "\<dots> = q + 2 * half sz"
      by (rule mod_pos_pos_trivial) (use q True half_pos [OF sz] in \<open>auto simp: signed_fits_def\<close>)
    finally show ?thesis
      using q by (simp add: signed_val_def signed_fits_def)
  qed (use q half_pos [OF sz] in \<open>simp add: signed_val_def signed_fits_def\<close>)
qed

lemma signed_dividend_num:
  assumes "regs_ok c"
  shows "sx16 (dividend 1 c) = signed_dividend 1 c" "sx32 (dividend 2 c) = signed_dividend 2 c"
    "(if dividend 4 c \<ge> 2 ^ 63 then dividend 4 c - 2 ^ 64 else dividend 4 c) = signed_dividend 4 c"
  by (simp_all add: signed_dividend_def Let_def sx16_def sx32_def half_def SIGN_of_def SIGN32_def)

text \<open>A signed division, the same way with truncation towards zero.\<close>

lemma div_signed_alt:
  assumes c: "regs_ok c" and sz: "sz \<in> {1, 2, 4}"
  shows "div_signed src sz c =
    (if src = 0 then (Inl DivideError, c)
     else case trunc_divmod (signed_dividend sz c) (signed_val sz src) of (q, r) \<Rightarrow>
       if signed_fits sz q then (Inr (), store_div sz (q mod (2 * half sz)) (r mod (2 * half sz)) c)
       else (Inl DivideError, c))"
proof (cases "trunc_divmod (signed_dividend sz c) (signed_val sz src)")
  case (Pair q r)
  note eq = div_signed_def Let_def dividend_num(1,2) [OF c]
  consider "sz = 1" | "sz = 2" | "sz = 4"
    using sz by auto
  then show ?thesis
  proof cases
    case 1
    with Pair show ?thesis
      unfolding eq unfolding dividend_num(3) [OF c] unfolding signed_dividend_num [OF c] unfolding sx_signed
      by (auto simp: store_div_def signed_fits_def half_def SIGN_of_def and_masks)
  next
    case 2
    with Pair show ?thesis
      unfolding eq unfolding signed_dividend_num [OF c] unfolding sx_signed
      by (auto simp: store_div_def signed_fits_def half_def SIGN_of_def and_masks)
  next
    case 3
    with Pair show ?thesis
      unfolding eq unfolding signed_dividend_num [OF c] unfolding sx_signed
      by (auto simp: store_div_def signed_fits_def half_def SIGN_of_def and_masks MASK32_def)
  qed
qed

lemma div_unsigned_result:
  assumes c: "regs_ok c" and sz: "sz \<in> {1, 2, 4}" and src: "fits sz src"
  shows "(div_unsigned src sz c = (Inr (), d) \<longrightarrow>
      dividend sz c = quotient_reg sz d * src + remainder_reg sz d \<and>
      0 \<le> remainder_reg sz d \<and> remainder_reg sz d < src) \<and>
    (fst (div_unsigned src sz c) = Inl DivideError \<longleftrightarrow> src = 0 \<or> 2 * half sz \<le> dividend sz c div src)"
proof (cases "src = 0 \<or> 2 * half sz \<le> dividend sz c div src")
  case True
  then show ?thesis by (simp add: div_unsigned_alt [OF assms])
next
  case False
  define q r where "q = dividend sz c div src" and "r = dividend sz c mod src"
  have s: "0 < src" "src < 2 * half sz"
    using False src by (auto simp: fits_def)
  then have q: "q mod (2 * half sz) = q" and r: "r mod (2 * half sz) = r" "0 \<le> r" "r < src"
    using False dividend_bounds(1) [OF c sz]
    by (auto simp: q_def r_def pos_imp_zdiv_nonneg_iff intro!: mod_pos_pos_trivial
        intro: less_trans [OF pos_mod_bound])
  have "dividend sz c = q * src + r"
    by (simp add: q_def r_def)
  then show ?thesis
    using stored_div [OF regs_okD(1) [OF c] sz, of q r] q r False
    by (auto simp: div_unsigned_alt [OF assms] q_def [symmetric] r_def [symmetric])
qed

lemma signed_val_fits: "sz \<in> {1, 2, 4} \<Longrightarrow> fits sz x \<Longrightarrow> signed_fits sz (signed_val sz x)"
  by (auto simp: fits_def signed_fits_def signed_val_def)

lemma div_signed_result:
  assumes c: "regs_ok c" and sz: "sz \<in> {1, 2, 4}" and src: "fits sz src"
  shows "(div_signed src sz c = (Inr (), d) \<longrightarrow>
      signed_dividend sz c = signed_val sz (quotient_reg sz d) * signed_val sz src
        + signed_val sz (remainder_reg sz d) \<and>
      \<bar>signed_val sz (remainder_reg sz d)\<bar> < \<bar>signed_val sz src\<bar> \<and>
      (signed_val sz (remainder_reg sz d) = 0 \<or>
        (signed_val sz (remainder_reg sz d) < 0) = (signed_dividend sz c < 0))) \<and>
    (fst (div_signed src sz c) = Inl DivideError \<longleftrightarrow> src = 0 \<or>
      \<not> signed_fits sz (fst (trunc_divmod (signed_dividend sz c) (signed_val sz src))))"
proof (cases "src = 0")
  case True
  then show ?thesis by (simp add: div_signed_alt [OF c sz])
next
  case False
  obtain q r where qr: "trunc_divmod (signed_dividend sz c) (signed_val sz src) = (q, r)"
    by fastforce
  have s: "signed_val sz src \<noteq> 0" "\<bar>signed_val sz src\<bar> \<le> half sz"
    using False src half_pos [OF sz] by (auto simp: signed_val_def fits_def)
  note ex = trunc_divmod_exact [OF s(1) qr]
  then have "signed_fits sz r"
    using s(2) by (auto simp: signed_fits_def)
  then have r: "signed_val sz (r mod (2 * half sz)) = r"
    by (rule signed_val_mod [OF sz])
  show ?thesis
    using stored_div [OF regs_okD(1) [OF c] sz, of "q mod (2 * half sz)" "r mod (2 * half sz)"]
      ex r signed_val_mod [OF sz, of q] False qr
    by (auto simp: div_signed_alt [OF c sz])
qed

end
