(* ===== verification/Cpu_Props.thy ===== *)
theory Cpu_Props
  imports Cpu_Frame Cpu_Arith
begin

text \<open>
  The properties of \<open>src/cpu86.py\<close>: the invariant of the main loop, and what the arithmetic
  instructions compute.
\<close>

text \<open>C5: whatever bytes the program consists of, the main loop keeps eight 32-bit
  registers, flags without reserved bits, a well-formed address space and a cache of
  well-formed instructions - through every handler, fault and profiled run - if the
  callbacks of the kernel do.\<close>

theorem cpu_run_invariant:
  assumes "keeps_cpu oi" and "keeps_cpu ofl" and "cpu_ok c"
  shows "cpu_ok (snd (run oi ofl n c))"
  using assms by (rule cpu_ok_run)

definition tiny_cpu :: cpu where
  "tiny_cpu = CPU_init (load_program [0xB8, 5, 0, 0, 0, 0x83, 0xC0, 0xFF, 0xF4] [] 0
     (AddressSpace_init 4096))"

lemma tiny_cpu_ok: "cpu_ok tiny_cpu"
proof -
  have ok: "mem_ok (load_program t [] 0 (AddressSpace_init 4096))" if "length t < 4096" for t
    using that
    by (simp add: mem_ok_def as_wf_def separated_def load_program_def AddressSpace_init_def Let_def
        TASK_SIZE_def round_page_div ICACHE_MAX_TEXT_def)
  then show ?thesis
    unfolding tiny_cpu_def
    by (intro cpu_ok_init ok) (simp, auto simp: load_program_def Let_def)
qed

lemma cpu_run_invariant_witness:
  "cpu_ok (snd (run None None 3 tiny_cpu)) \<and> cpu_ok (snd (run None None 3
     (tiny_cpu\<lparr>prof := Some (Profiler_init 6)\<rparr>)))"
  using cpu_run_invariant [of None None tiny_cpu 3]
    cpu_run_invariant [of None None "tiny_cpu\<lparr>prof := Some (Profiler_init 6)\<rparr>" 3]
  by (simp add: keeps_cpu_def tiny_cpu_ok cpu_ok_other)

section \<open>Arithmetic\<close>

text \<open>C8: for every width and every pair of operands, the eight operations of the ALU
  templates return the result modulo the width, and carry, overflow, zero, sign and parity
  are those of the unsigned and of the signed operation; DF is untouched.\<close>

theorem alu_exact:
  assumes "sz \<in> {1, 2, 4}" and "op \<in> {0..7}" and "fits sz a" and "fits sz b"
  shows "fst (alu_body op sz a b fl) = alu_result op a b (fl AND CF) mod (2 * half sz) \<and>
    alu_flags sz (fst (alu_body op sz a b fl)) (alu_carry op sz a b (fl AND CF))
      (alu_overflow op sz a b (fl AND CF)) fl (snd (alu_body op sz a b fl))"
  using assms by (rule alu_body_exact)

lemma alu_exact_witness:
  "fst (alu_body 0 1 0x7F 1 0x202) = 0x80 \<and> snd (alu_body 0 1 0x7F 1 0x202) AND OF_FLAG \<noteq> 0 \<and>
   snd (alu_body 0 1 0x7F 1 0x202) AND CF = 0"
  using alu_exact [of 1 0 "0x7F" 1 "0x202"]
  by (simp add: alu_flags_def fits_def half_def SIGN_of_def alu_result_def alu_carry_def
      alu_overflow_def signed_fits_def signed_val_def CF_def)

text \<open>C29: after \<open>cmp a, b\<close> the ten condition codes of the ordered jumps and \<open>setcc\<close> are the
  unsigned and signed comparisons they are named after.\<close>

theorem jump_after_cmp:
  assumes "sz \<in> {1, 2, 4}" and "fits sz a" and "fits sz b" and "f = snd (alu_body 7 sz a b fl)"
  shows "(COND 2 f \<longleftrightarrow> a < b) \<and> (COND 3 f \<longleftrightarrow> b \<le> a) \<and> (COND 4 f \<longleftrightarrow> a = b) \<and> (COND 5 f \<longleftrightarrow> a \<noteq> b)
    \<and> (COND 6 f \<longleftrightarrow> a \<le> b) \<and> (COND 7 f \<longleftrightarrow> b < a)
    \<and> (COND 12 f \<longleftrightarrow> signed_val sz a < signed_val sz b) \<and> (COND 13 f \<longleftrightarrow> signed_val sz b \<le> signed_val sz a)
    \<and> (COND 14 f \<longleftrightarrow> signed_val sz a \<le> signed_val sz b) \<and> (COND 15 f \<longleftrightarrow> signed_val sz b < signed_val sz a)"
  using assms by (rule cmp_conditions)

lemma jump_after_cmp_witness:
  "COND 7 (snd (alu_body 7 4 0xFFFFFFFF 1 0x202)) \<and> COND 12 (snd (alu_body 7 4 0xFFFFFFFF 1 0x202))"
  using jump_after_cmp [of 4 "0xFFFFFFFF" 1 _ "0x202", OF _ _ _ refl]
  by (simp add: fits_def half_def SIGN_of_def signed_val_def)

text \<open>C28: a division returns exactly when the quotient exists and fits, and then its two
  registers hold quotient and remainder of the double-width dividend - truncated towards
  zero with the sign of the dividend in the signed form, which Python's \<open>divmod\<close> does not do.\<close>

theorem divide_exact:
  assumes "regs_ok c" and "sz \<in> {1, 2, 4}" and "fits sz src"
  shows "(div_unsigned src sz c = (Inr (), d) \<longrightarrow>
      dividend sz c = quotient_reg sz d * src + remainder_reg sz d \<and>
      0 \<le> remainder_reg sz d \<and> remainder_reg sz d < src) \<and>
    (fst (div_unsigned src sz c) = Inl DivideError \<longleftrightarrow> src = 0 \<or> 2 * half sz \<le> dividend sz c div src) \<and>
    (div_signed src sz c = (Inr (), d) \<longrightarrow>
      signed_dividend sz c = signed_val sz (quotient_reg sz d) * signed_val sz src
        + signed_val sz (remainder_reg sz d) \<and>
      \<bar>signed_val sz (remainder_reg sz d)\<bar> < \<bar>signed_val sz src\<bar> \<and>
      (signed_val sz (remainder_reg sz d) = 0 \<or>
        (signed_val sz (remainder_reg sz d) < 0) = (signed_dividend sz c < 0))) \<and>
    (fst (div_signed src sz c) = Inl DivideError \<longleftrightarrow> src = 0 \<or>
      \<not> signed_fits sz (fst (trunc_divmod (signed_dividend sz c) (signed_val sz src))))"
  using div_unsigned_result [OF assms] div_signed_result [OF assms] by blast

definition seven :: cpu where
  "seven = tiny_cpu\<lparr>regs := [7, 0, 0, 0, 0, 0, 0, 0]\<rparr>"

lemma seven_ok: "regs_ok seven"
  by (auto simp: regs_ok_def seven_def rg_def nth_Cons' atLeastLessThan_iff)

lemma divide_exact_witness:
  "div_unsigned 2 4 seven = (Inr (), seven\<lparr>regs := [3, 0, 1, 0, 0, 0, 0, 0]\<rparr>) \<and>
   dividend 4 seven = 3 * 2 + 1 \<and> fst (div_signed 0 4 seven) = Inl DivideError"
proof -
  have d: "div_unsigned 2 4 seven = (Inr (), seven\<lparr>regs := [3, 0, 1, 0, 0, 0, 0, 0]\<rparr>)"
    by (simp add: div_unsigned_def seven_def rg_def set_rg_def Let_def MASK32_def)
  have "fits 4 2" "fits 4 0"
    by (simp_all add: fits_def half_def SIGN_of_def)
  from divide_exact [OF seven_ok _ this(1), of "seven\<lparr>regs := [3, 0, 1, 0, 0, 0, 0, 0]\<rparr>"]
    divide_exact [OF seven_ok _ this(2)] d
  show ?thesis by (simp add: quotient_reg_def remainder_reg_def rg_def)
qed

section \<open>The decode cache\<close>

text \<open>C6: after any run, the instruction that the cache holds for the current address (if it
  is at most 16 bytes long) is the one that the bytes there decode to now, so executing from
  the cache is executing the program - also when the program has rewritten itself.\<close>

theorem cache_transparent:
  assumes "keeps_cpu oi" and "keeps_cpu ofl" and "cpu_ok c" and "d = snd (run oi ofl n c)"
    and "eip d < int (length (icache (mem d)))" and "icache (mem d) ! nat (eip d) = Some e"
    and "e_len e \<le> 16"
  shows "fetch_insn d = (Inr e, d\<lparr>eip := eip d + e_len e\<rparr>) \<and>
    decode (eip d) d = (Inr e, d\<lparr>insn_start := eip d, eip := eip d + e_len e\<rparr>)"
proof -
  have d: "cpu_ok d"
    unfolding assms(4) using assms(1-3) by (rule cpu_ok_run)
  then have "fresh d" "0 \<le> eip d"
    by (simp_all add: cpu_ok_def)
  with freshD(2) [of d "nat (eip d)" e] assms(5-7) show ?thesis
    by (simp add: fetch_cached nat_less_iff)
qed

definition spin_mem :: "insn addrspace" where
  "spin_mem = load_program [0xEB, 0xFE] [] 0 (AddressSpace_init 4096)"

definition spin :: cpu where
  "spin = CPU_init spin_mem"

definition spin_insn :: insn where
  "spin_insn = \<lparr>e_fn = H_jmp, e_len = 2, e_size = 4, e_reg = 0, e_base = Some 0, e_index = None,
     e_scale = 0, e_disp = 0, e_imm = 0, e_mod = 3\<rparr>"

lemmas cpu_eval = run_def run_profiled_def run_one_def catch_fault_def fetch_insn_def decode_def
  DEC_def dec_jmp_rel8_def fetch8_def jump_target_def mk_E_def mk_reg_def exec_def set_eip_def
  bindE_def thenE_def gets_def modify_def ret_def raise_def from_mem_def read_u8_def add_icount_def
  PREFIXES_def MAGIC_EIP_BASE_def MASK32_def sx8_def Let_def

lemma replicate_2: "replicate 2 x = [x, x]"
  by (simp add: numeral_2_eq_2)

lemma spin_run: "run None None 1 spin = (Inr 1, spin\<lparr>mem := spin_mem\<lparr>icache := [Some spin_insn, None]\<rparr>,
    icount := 1\<rparr>)"
  by (simp add: cpu_eval spin_def spin_mem_def CPU_init_def load_program_def AddressSpace_init_def
      ICACHE_MAX_TEXT_def spin_insn_def replicate_2)

lemma spin_ok: "cpu_ok spin"
  unfolding spin_def
  by (rule cpu_ok_init) (simp_all add: spin_mem_def mem_ok_def as_wf_def separated_def
      load_program_def AddressSpace_init_def TASK_SIZE_def round_page_div ICACHE_MAX_TEXT_def Let_def)

lemma cache_transparent_witness:
  "fetch_insn (snd (run None None 1 spin)) = (Inr spin_insn, (snd (run None None 1 spin))\<lparr>eip := 2\<rparr>)"
  using cache_transparent [OF _ _ spin_ok refl, of None None 1 spin_insn]
  by (simp add: spin_run keeps_cpu_def) (simp add: spin_def CPU_init_def spin_insn_def)

definition flood :: "insn addrspace" where
  "flood = load_program (replicate 16 0x3E @ [0x40]) [] 0 (AddressSpace_init 4096)"

definition flooded :: cpu where
  "flooded = (snd (fetch_insn (CPU_init flood)))\<lparr>eip := 0\<rparr>"

definition patched :: cpu where
  "patched = flooded\<lparr>mem := snd (mem_write 16 [0x48] (mem flooded))\<rparr>"

definition inc_insn :: "handler \<Rightarrow> insn" where
  "inc_insn f = \<lparr>e_fn = f, e_len = 17, e_size = 4, e_reg = 0, e_base = Some 0, e_index = None,
     e_scale = 0, e_disp = 0, e_imm = 0, e_mod = 3\<rparr>"

lemma flood_low: "low flood = replicate 16 0x3E @ [0x40]" "low_end flood = 17"
  "icache flood = replicate 17 None" "text_end flood = 17"
  by (simp_all add: flood_def load_program_def Let_def ICACHE_MAX_TEXT_def)

lemma prefix_loop_eval:
  "op \<in> set PREFIXES \<Longrightarrow> read_u8 a s = Inr op2 \<Longrightarrow> prefix_loop op opsize rep a s =
     prefix_loop op2 (if op = 0x66 then 2 else opsize) (if op = 0xF2 \<or> op = 0xF3 then op else rep)
       (a + 1) s"
  "op \<notin> set PREFIXES \<Longrightarrow> prefix_loop op opsize rep a s = Inr (opsize, rep, op, a)"
  by (subst prefix_loop.simps, simp)+

lemma flood_decode:
  assumes "low (mem c) = replicate 16 0x3E @ [b]" and "low_end (mem c) = 17"
    and "b = 0x40 \<and> f = Gen (Inc 4) 0 \<or> b = 0x48 \<and> f = Gen (Dec 4) 0"
  shows "decode 0 c = (Inr (inc_insn f), c\<lparr>insn_start := 0, eip := 17\<rparr>)"
proof -
  have "read_u8 k (mem c) = Inr 0x3E" if "0 \<le> k" "k < 16" for k
    using that assms(1,2) by (simp add: read_u8_def nth_append nat_less_iff)
  moreover have "read_u8 16 (mem c) = Inr (uint b)"
    using assms by (simp add: read_u8_def nth_append)
  ultimately show ?thesis
    using assms(3)
    by (auto simp: decode_def thenE_def bindE_def modify_def from_mem_def prefix_loop_eval PREFIXES_def
        set_eip_def DEC_def dec_incdec_r_def mk_reg_def gets_def inc_insn_def)
qed

lemma flooded_mem:
  "mem flooded = flood\<lparr>icache := Some (inc_insn (Gen (Inc 4) 0)) # replicate 16 None\<rparr>"
proof -
  have "decode 0 (CPU_init flood) =
      (Inr (inc_insn (Gen (Inc 4) 0)), (CPU_init flood)\<lparr>insn_start := 0, eip := 17\<rparr>)"
    by (rule flood_decode [of _ "0x40"]) (simp_all add: CPU_init_def flood_low)
  then show ?thesis
    by (simp add: flooded_def fetch_decode CPU_init_def flood_low numeral_eq_Suc)
qed

lemma patched_fields:
  "eip patched = 0" "low (mem patched) = replicate 16 0x3E @ [0x48]" "low_end (mem patched) = 17"
  "icache (mem patched) = Some (inc_insn (Gen (Inc 4) 0)) # replicate 16 None"
proof -
  show "eip patched = 0"
    by (simp add: patched_def flooded_def)
  have "in_low 16 1 (mem flooded)"
    by (simp add: in_low_def flooded_mem flood_low)
  then have "mem patched = poke_low 16 [0x48] (mem flooded)"
    by (simp add: patched_def mem_write_unfold)
  then show "low (mem patched) = replicate 16 0x3E @ [0x48]" "low_end (mem patched) = 17"
    "icache (mem patched) = Some (inc_insn (Gen (Inc 4) 0)) # replicate 16 None"
    by (simp_all add: flooded_mem flood_low poke_low_def Let_def flush_icache_def blit_def
        numeral_eq_Suc)
qed

text \<open>An instruction with more than fifteen prefix bytes is decoded and cached, and a
  write to its last byte leaves the slot filled: the CPU fetches \<open>inc eax\<close> from the cache
  where the memory now decodes to \<open>dec eax\<close>.\<close>

theorem long_instruction_stale:
  "fetch_insn patched = (Inr (inc_insn (Gen (Inc 4) 0)), patched\<lparr>eip := 17\<rparr>) \<and>
   decode (eip patched) patched =
     (Inr (inc_insn (Gen (Dec 4) 0)), patched\<lparr>insn_start := 0, eip := 17\<rparr>)"
proof -
  have "low (mem patched) = replicate 16 0x3E @ [0x48]" "low_end (mem patched) = 17" "eip patched = 0"
    by (simp_all add: patched_fields)
  then have "decode (eip patched) patched =
      (Inr (inc_insn (Gen (Dec 4) 0)), patched\<lparr>insn_start := 0, eip := 17\<rparr>)"
    using flood_decode [of patched "0x48" "Gen (Dec 4) 0"] by simp
  moreover have "fetch_insn patched = (Inr (inc_insn (Gen (Inc 4) 0)), patched\<lparr>eip := 17\<rparr>)"
    using fetch_cached [of patched "inc_insn (Gen (Inc 4) 0)"]
    by (simp add: patched_fields) (simp add: inc_insn_def)
  ultimately show ?thesis by simp
qed

text \<open>C33. The instruction count: with handlers for \<open>int\<close> and for faults that leave \<open>icount\<close>
alone, \<open>run max_steps\<close> advances it by the number it returns, and by at least 0 and at most
\<open>max_steps\<close> when it ends in an exception, whether the profiler is on or not. The scheduler
charges a process by this difference.\<close>

theorem run_counts:
  assumes "\<And>f v c. oi = Some f \<Longrightarrow> icount (snd (f v c)) = icount c"
    and "\<And>f e c. ofl = Some f \<Longrightarrow> icount (snd (f e c)) = icount c"
    and "0 \<le> n" and "run oi ofl n c = (r, d)"
  shows "icount c \<le> icount d \<and> icount d \<le> icount c + n \<and> (\<forall>x. r = Inr x \<longrightarrow> icount d = icount c + x)"
proof -
  have "upholds (owned (\<lambda>_. True) (icount c)) oi" "upholds (owned (\<lambda>_. True) (icount c)) ofl"
    using assms(1,2) by (auto simp: upholds_def gives_def owned_def)
  from ran_run [OF this, of c n] assms(3,4) show ?thesis by (simp add: owned_def ran_def)
qed

lemma run_counts_witness:
  "icount (snd (run None None 1 spin)) = icount spin + 1 \<and> icount spin \<le> icount (snd (run None None 1 spin))"
  using run_counts [of None None 1 spin "Inr 1", OF _ _ _ spin_run] by (simp add: spin_run)

end
