(* ===== verification/Ktty.thy ===== *)
theory Ktty
  imports Prelude
begin

text \<open>
  \<open>ktty.py\<close>: the termios settings and their two binary layouts, the terminals behind the
  line discipline, and the line discipline itself (\<open>TTY\<close>). The scripted terminal is the
  record of its script and of what was written to it. The host terminal is modelled on the
  POSIX path: what \<open>select\<close> and \<open>os.read\<close> answer is a list of events, one for each call, so
  the end of a pipe and the errors of both calls are events like the others. Theory
  \<open>Ktty_Host\<close> has the modes of the host's terminal and its readers on Windows.

  The two callbacks of \<open>TTY\<close> are arguments of the operations that call them. They run on
  the same state, a record that extends \<open>tty\<close>, so that the kernel's callback may change
  the kernel and write to the terminal that called it.
\<close>

section \<open>Requests, flags and control characters\<close>

definition TCGETS :: int where "TCGETS = 0x5401"
definition TCSETS :: int where "TCSETS = 0x5402"
definition TCSETSW :: int where "TCSETSW = 0x5403"
definition TCSETSF :: int where "TCSETSF = 0x5404"
definition TCGETA :: int where "TCGETA = 0x5405"
definition TCSETA :: int where "TCSETA = 0x5406"
definition TCSETAW :: int where "TCSETAW = 0x5407"
definition TCSETAF :: int where "TCSETAF = 0x5408"
definition TCSBRK :: int where "TCSBRK = 0x5409"
definition TCXONC :: int where "TCXONC = 0x540A"
definition TCFLSH :: int where "TCFLSH = 0x540B"
definition TIOCSCTTY :: int where "TIOCSCTTY = 0x540E"
definition TIOCGPGRP :: int where "TIOCGPGRP = 0x540F"
definition TIOCSPGRP :: int where "TIOCSPGRP = 0x5410"
definition TIOCGWINSZ :: int where "TIOCGWINSZ = 0x5413"
definition TIOCSWINSZ :: int where "TIOCSWINSZ = 0x5414"
definition TIOCINQ :: int where "TIOCINQ = 0x541B"

lemmas tty_requests = TCGETS_def TCSETS_def TCSETSW_def TCSETSF_def TCGETA_def TCSETA_def
  TCSETAW_def TCSETAF_def TCSBRK_def TCXONC_def TCFLSH_def TIOCSCTTY_def TIOCGPGRP_def
  TIOCSPGRP_def TIOCGWINSZ_def TIOCSWINSZ_def TIOCINQ_def

definition BRKINT :: int where "BRKINT = 2"
definition ICRNL :: int where "ICRNL = 256"
definition IXON :: int where "IXON = 1024"
definition OPOST :: int where "OPOST = 1"
definition ONLCR :: int where "ONLCR = 4"
definition CS8 :: int where "CS8 = 48"
definition CREAD :: int where "CREAD = 128"
definition B9600 :: int where "B9600 = 13"
definition ISIG :: int where "ISIG = 1"
definition ICANON :: int where "ICANON = 2"
definition ECHO :: int where "ECHO = 8"
definition ECHOE :: int where "ECHOE = 16"
definition ECHOK :: int where "ECHOK = 32"
definition NOFLSH :: int where "NOFLSH = 128"
definition ECHOCTL :: int where "ECHOCTL = 512"
definition ECHOKE :: int where "ECHOKE = 2048"

lemmas tty_flags = BRKINT_def ICRNL_def IXON_def OPOST_def ONLCR_def CS8_def CREAD_def
  B9600_def ISIG_def ICANON_def ECHO_def ECHOE_def ECHOK_def NOFLSH_def ECHOCTL_def ECHOKE_def

definition NCCS :: nat where "NCCS = 17"
definition VINTR :: nat where "VINTR = 0"
definition VQUIT :: nat where "VQUIT = 1"
definition VERASE :: nat where "VERASE = 2"
definition VKILL :: nat where "VKILL = 3"
definition VEOF :: nat where "VEOF = 4"
definition VSUSP :: nat where "VSUSP = 10"
definition VEOL :: nat where "VEOL = 11"

lemmas tty_chars = NCCS_def VINTR_def VQUIT_def VERASE_def VKILL_def VEOF_def VSUSP_def VEOL_def

definition tty_SIGINT :: int where "tty_SIGINT = 2"
definition tty_SIGQUIT :: int where "tty_SIGQUIT = 3"
definition tty_SIGTSTP :: int where "tty_SIGTSTP = 20"

definition default_cc :: bytes where
  "default_cc = [3, 28, 127, 21, 4, 0, 1, 0, 17, 19, 26, 0, 18, 15, 23, 22, 0]"

section \<open>Termios\<close>

record termios =
  c_iflag :: int
  c_oflag :: int
  c_cflag :: int
  c_lflag :: int
  c_line :: int
  c_cc :: bytes

definition Termios_init :: termios where
  "Termios_init = \<lparr>c_iflag = ICRNL OR BRKINT OR IXON, c_oflag = OPOST OR ONLCR,
     c_cflag = CS8 OR CREAD OR B9600,
     c_lflag = ISIG OR ICANON OR ECHO OR ECHOE OR ECHOK OR ECHOCTL OR ECHOKE,
     c_line = 0, c_cc = default_cc\<rparr>"

text \<open>
  The \<open>struct\<close> formats raise \<open>struct.error\<close> for a value outside its field and for a buffer
  of the wrong length; \<open>17s\<close> and \<open>8s\<close> cut or pad with zeros.
\<close>

definition fits_u32 :: "int \<Rightarrow> bool" where "fits_u32 v \<longleftrightarrow> 0 \<le> v \<and> v < 4294967296"
definition fits_u16 :: "int \<Rightarrow> bool" where "fits_u16 v \<longleftrightarrow> 0 \<le> v \<and> v < 65536"
definition fits_u8 :: "int \<Rightarrow> bool" where "fits_u8 v \<longleftrightarrow> 0 \<le> v \<and> v < 256"

definition pack_s :: "nat \<Rightarrow> bytes \<Rightarrow> bytes" where
  "pack_s n bs = take n (bs @ replicate n 0)"

definition Termios_pack :: "termios \<Rightarrow> exn + bytes" where
  "Termios_pack t =
     (if fits_u32 (c_iflag t) \<and> fits_u32 (c_oflag t) \<and> fits_u32 (c_cflag t) \<and>
         fits_u32 (c_lflag t) \<and> fits_u8 (c_line t)
      then Inr (pack32 (c_iflag t) @ pack32 (c_oflag t) @ pack32 (c_cflag t) @
                pack32 (c_lflag t) @ [word_of_int (c_line t)] @ pack_s 17 (c_cc t))
      else Inl StructError)"

definition Termios_unpack :: "bytes \<Rightarrow> termios \<Rightarrow> exn + termios" where
  "Termios_unpack raw t =
     (let raw = take 34 raw in
      if length raw = 34
      then Inr (t\<lparr>c_iflag := u32_at raw 0, c_oflag := u32_at raw 4, c_cflag := u32_at raw 8,
                  c_lflag := u32_at raw 12, c_line := uint (raw ! 16), c_cc := drop 17 raw\<rparr>)
      else Inl StructError)"

definition Termios_pack_old :: "termios \<Rightarrow> exn + bytes" where
  "Termios_pack_old t =
     (if fits_u8 (c_line t)
      then Inr (pack16 (c_iflag t AND 0xFFFF) @ pack16 (c_oflag t AND 0xFFFF) @
                pack16 (c_cflag t AND 0xFFFF) @ pack16 (c_lflag t AND 0xFFFF) @
                [word_of_int (c_line t)] @ pack_s 8 (take 8 (c_cc t)))
      else Inl StructError)"

definition keep_high :: "int \<Rightarrow> int \<Rightarrow> int" where
  "keep_high f v = (f AND NOT 0xFFFF) OR v"

definition Termios_unpack_old :: "bytes \<Rightarrow> termios \<Rightarrow> exn + termios" where
  "Termios_unpack_old raw t =
     (let raw = take 17 raw in
      if length raw = 17
      then Inr (t\<lparr>c_iflag := keep_high (c_iflag t) (u16_at raw 0),
                  c_oflag := keep_high (c_oflag t) (u16_at raw 2),
                  c_cflag := keep_high (c_cflag t) (u16_at raw 4),
                  c_lflag := keep_high (c_lflag t) (u16_at raw 6),
                  c_line := uint (raw ! 8),
                  c_cc := drop 9 raw @ drop 8 (c_cc t)\<rparr>)
      else Inl StructError)"

section \<open>Terminals\<close>

record scripted =
  sc_pending :: "bytes list"
  sc_out :: bytes
  sc_rows :: int
  sc_cols :: int
  sc_tty :: bool

text \<open>
  What one \<open>_read_posix\<close> meets: \<open>select\<close> raises or times out, or \<open>os.read\<close> raises or
  returns (an empty answer is the end of the file).
\<close>

datatype host_event = SelectFails | NotReady | ReadFails | Answer bytes

record host =
  h_fd :: bool
  h_events :: "host_event list"
  h_eof :: bool
  h_tty :: bool
  h_out :: bytes
  h_rows :: int
  h_cols :: int

datatype terminal = Scripted scripted | Host host

definition ScriptedTerminal_init :: "bytes list \<Rightarrow> int \<Rightarrow> int \<Rightarrow> bool \<Rightarrow> terminal" where
  "ScriptedTerminal_init inputs rows cols is_tty =
     Scripted \<lparr>sc_pending = inputs, sc_out = [], sc_rows = rows, sc_cols = cols, sc_tty = is_tty\<rparr>"

definition read_posix :: "host \<Rightarrow> bytes \<times> host" where
  "read_posix h =
     (if \<not> h_fd h \<or> h_eof h then ([], h)
      else case h_events h of
        [] \<Rightarrow> ([], h)
      | Answer d # es \<Rightarrow> (d, h\<lparr>h_events := es, h_eof := (d = [])\<rparr>)
      | _ # es \<Rightarrow> ([], h\<lparr>h_events := es\<rparr>))"

definition poll_input :: "terminal \<Rightarrow> bytes \<times> terminal" where
  "poll_input tm = (case tm of
     Scripted s \<Rightarrow> (case sc_pending s of [] \<Rightarrow> ([], tm) | d # ds \<Rightarrow> (d, Scripted (s\<lparr>sc_pending := ds\<rparr>)))
   | Host h \<Rightarrow> (case read_posix h of (d, h') \<Rightarrow> (d, Host h')))"

definition wait_input :: "terminal \<Rightarrow> bytes \<times> terminal" where
  "wait_input tm = (case tm of
     Scripted s \<Rightarrow> poll_input tm
   | Host h \<Rightarrow> (case read_posix h of (d, h') \<Rightarrow> (d, Host h')))"

definition write_out :: "bytes \<Rightarrow> terminal \<Rightarrow> terminal" where
  "write_out d tm = (case tm of
     Scripted s \<Rightarrow> Scripted (s\<lparr>sc_out := sc_out s @ d\<rparr>)
   | Host h \<Rightarrow> Host (h\<lparr>h_out := h_out h @ d\<rparr>))"

definition term_size :: "terminal \<Rightarrow> int \<times> int" where
  "term_size tm = (case tm of Scripted s \<Rightarrow> (sc_rows s, sc_cols s) | Host h \<Rightarrow> (h_rows h, h_cols h))"

definition is_tty :: "terminal \<Rightarrow> bool" where
  "is_tty tm = (case tm of Scripted s \<Rightarrow> sc_tty s | Host h \<Rightarrow> h_tty h)"

text \<open>\<open>getattr(term, "at_eof", False)\<close>: a scripted terminal has no such attribute.\<close>

definition at_eof :: "terminal \<Rightarrow> bool" where
  "at_eof tm = (case tm of Scripted s \<Rightarrow> False | Host h \<Rightarrow> \<not> h_tty h \<and> h_eof h)"

definition has_pending :: "terminal \<Rightarrow> bool" where
  "has_pending tm = (case tm of Scripted s \<Rightarrow> sc_pending s \<noteq> [] | Host h \<Rightarrow> False)"

definition win_scancode :: "byte \<Rightarrow> bytes" where
  "win_scancode b =
     (if b = 72 then [27, 91, 65] else if b = 80 then [27, 91, 66]
      else if b = 77 then [27, 91, 67] else if b = 75 then [27, 91, 68]
      else if b = 71 then [27, 91, 72] else if b = 79 then [27, 91, 70]
      else if b = 82 then [27, 91, 50, 126] else if b = 83 then [27, 91, 51, 126]
      else if b = 73 then [27, 91, 53, 126] else if b = 81 then [27, 91, 54, 126]
      else [])"

definition translate_windows_key :: "bytes \<Rightarrow> bytes \<Rightarrow> bytes" where
  "translate_windows_key ch scancode =
     (if ch = [0] \<or> ch = [0xE0]
      then (case scancode of [b] \<Rightarrow> win_scancode b | _ \<Rightarrow> [])
      else if ch = [8] then [127]
      else ch)"

section \<open>The line discipline\<close>

record tty =
  tt_term :: terminal
  tt_termios :: termios
  tt_pgrp :: int
  tt_session :: int
  tt_line :: bytes
  tt_ready :: bytes
  tt_eof_pending :: bool
  tt_escape :: int
  tt_escape_armed :: bool
  tt_tail :: bytes

type_synonym ('x, 'a) tm = "('x tty_scheme, 'a) sm"
type_synonym 'x post = "int \<Rightarrow> int \<Rightarrow> ('x, unit) tm"
type_synonym 'x on_escape = "(byte \<Rightarrow> ('x, unit) tm) option"

definition CONSOLE_TAIL :: nat where "CONSOLE_TAIL = 8192"

definition TTY_init :: "terminal \<Rightarrow> int \<Rightarrow> tty" where
  "TTY_init tm esc =
     \<lparr>tt_term = tm,
      tt_termios = (if is_tty tm then Termios_init
                    else Termios_init\<lparr>c_lflag := c_lflag Termios_init AND
                           NOT (ECHO OR ECHOE OR ECHOK OR ECHOCTL)\<rparr>),
      tt_pgrp = 0, tt_session = 0, tt_line = [], tt_ready = [], tt_eof_pending = False,
      tt_escape = esc, tt_escape_armed = False, tt_tail = []\<rparr>"

definition lflag :: "int \<Rightarrow> 'x tty_scheme \<Rightarrow> bool" where
  "lflag m t \<longleftrightarrow> c_lflag (tt_termios t) AND m \<noteq> 0"

definition oflag :: "int \<Rightarrow> 'x tty_scheme \<Rightarrow> bool" where
  "oflag m t \<longleftrightarrow> c_oflag (tt_termios t) AND m \<noteq> 0"

definition iflag :: "int \<Rightarrow> 'x tty_scheme \<Rightarrow> bool" where
  "iflag m t \<longleftrightarrow> c_iflag (tt_termios t) AND m \<noteq> 0"

definition cchar :: "nat \<Rightarrow> 'x tty_scheme \<Rightarrow> byte" where
  "cchar k t = c_cc (tt_termios t) ! k"

text \<open>\<open>data.replace(b"\n", b"\r\n")\<close> and the ring of the last bytes written.\<close>

definition onlcr :: "bytes \<Rightarrow> bytes" where
  "onlcr data = concat (map (\<lambda>b. if b = 10 then [13, 10] else [b]) data)"

definition last_bytes :: "nat \<Rightarrow> bytes \<Rightarrow> bytes" where
  "last_bytes n bs = drop (length bs - n) bs"

definition tty_write :: "bytes \<Rightarrow> ('x, int) tm" where
  "tty_write data =
     bindE (gets (\<lambda>t. if oflag OPOST t \<and> oflag ONLCR t \<and> is_tty (tt_term t)
                      then onlcr data else data)) (\<lambda>out.
     thenE (modify (\<lambda>t. t\<lparr>tt_term := write_out out (tt_term t)\<rparr>))
     (thenE (modify (\<lambda>t. t\<lparr>tt_tail := last_bytes CONSOLE_TAIL (tt_tail t @ data)\<rparr>))
       (ret (int (length data)))))"

definition tty_put :: "bytes \<Rightarrow> ('x, unit) tm" where
  "tty_put data = bindE (tty_write data) (\<lambda>_. ret ())"

definition tty_echo :: "byte \<Rightarrow> ('x, unit) tm" where
  "tty_echo ch = bindE (gets (\<lambda>t. t)) (\<lambda>t.
     if \<not> lflag ECHO t then ret ()
     else if ch = 10 then tty_put [10]
     else if ch < 32 \<and> lflag ECHOCTL t then tty_put [94, ch + 64]
     else tty_put [ch])"

text \<open>
  \<open>bytes((byte + 64,))\<close> raises \<open>ValueError\<close> when the sum does not fit in a byte.
\<close>

definition echo_ctl :: "byte \<Rightarrow> ('x, unit) tm" where
  "echo_ctl byte = bindE (gets (\<lambda>t. t)) (\<lambda>t.
     if c_lflag (tt_termios t) AND (ECHO OR ECHOCTL) = (ECHO OR ECHOCTL)
     then if uint byte + 64 < 256 then tty_put [94, byte + 64] else raise ValueError
     else ret ())"

definition flush_input :: "('x, unit) tm" where
  "flush_input = modify (\<lambda>t. if lflag NOFLSH t then t else t\<lparr>tt_line := [], tt_ready := []\<rparr>)"

text \<open>The body of the loop of \<open>_feed_cooked\<close>, for one byte; \<open>canon\<close> is read once before it.\<close>

definition rub :: bytes where "rub = [8, 32, 8]"

definition feed_byte :: "'x post \<Rightarrow> bool \<Rightarrow> byte \<Rightarrow> ('x, unit) tm" where
  "feed_byte post canon byte0 =
     bindE (gets (\<lambda>t. t)) (\<lambda>t.
     let byte = (if iflag ICRNL t \<and> byte0 = 13 then 10 else byte0) in
     if lflag ISIG t \<and> byte = cchar VINTR t then
       thenE (echo_ctl byte) (thenE flush_input (post (tt_pgrp t) tty_SIGINT))
     else if lflag ISIG t \<and> byte = cchar VQUIT t then
       thenE (echo_ctl byte) (thenE flush_input (post (tt_pgrp t) tty_SIGQUIT))
     else if lflag ISIG t \<and> byte = cchar VSUSP t then
       thenE (echo_ctl byte) (post (tt_pgrp t) tty_SIGTSTP)
     else if \<not> canon then
       thenE (modify (\<lambda>t. t\<lparr>tt_ready := tt_ready t @ [byte]\<rparr>)) (tty_echo byte)
     else if byte = cchar VERASE t then
       (if tt_line t \<noteq> [] then
          thenE (modify (\<lambda>t. t\<lparr>tt_line := butlast (tt_line t)\<rparr>))
            (if lflag ECHOE t then tty_put rub else ret ())
        else ret ())
     else if byte = cchar VKILL t then
       thenE (if lflag ECHOE t then tty_put (concat (replicate (length (tt_line t)) rub)) else ret ())
         (modify (\<lambda>t. t\<lparr>tt_line := []\<rparr>))
     else if byte = cchar VEOF t then
       (if tt_line t \<noteq> [] then
          modify (\<lambda>t. t\<lparr>tt_ready := tt_ready t @ tt_line t, tt_line := []\<rparr>)
        else modify (\<lambda>t. t\<lparr>tt_eof_pending := True\<rparr>))
     else
       thenE (tty_echo byte)
       (thenE (modify (\<lambda>t. t\<lparr>tt_line := tt_line t @ [byte]\<rparr>))
         (if byte = 10 \<or> (cchar VEOL t \<noteq> 0 \<and> byte = cchar VEOL t) then
            modify (\<lambda>t. t\<lparr>tt_ready := tt_ready t @ tt_line t, tt_line := []\<rparr>)
          else ret ())))"

fun feed_all :: "'x post \<Rightarrow> bool \<Rightarrow> bytes \<Rightarrow> ('x, unit) tm" where
  "feed_all post canon [] = ret ()"
| "feed_all post canon (b # bs) = thenE (feed_byte post canon b) (feed_all post canon bs)"

definition feed_cooked :: "'x post \<Rightarrow> bytes \<Rightarrow> ('x, unit) tm" where
  "feed_cooked post data = bindE (gets (lflag ICANON)) (\<lambda>canon. feed_all post canon data)"

fun strip_escapes :: "(byte \<Rightarrow> ('x, unit) tm) \<Rightarrow> bytes \<Rightarrow> bytes \<Rightarrow> ('x, bytes) tm" where
  "strip_escapes on_esc [] out = ret out"
| "strip_escapes on_esc (b # bs) out =
     bindE (gets (\<lambda>t. t)) (\<lambda>t.
     if tt_escape_armed t then
       thenE (modify (\<lambda>t. t\<lparr>tt_escape_armed := False\<rparr>))
         (if uint b = tt_escape t \<or> b = 97 \<or> b = 65
          then strip_escapes on_esc bs (out @ [word_of_int (tt_escape t)])
          else thenE (on_esc b) (strip_escapes on_esc bs out))
     else if uint b = tt_escape t then
       thenE (modify (\<lambda>t. t\<lparr>tt_escape_armed := True\<rparr>)) (strip_escapes on_esc bs out)
     else strip_escapes on_esc bs (out @ [b]))"

definition feed :: "'x post \<Rightarrow> 'x on_escape \<Rightarrow> bytes \<Rightarrow> ('x, unit) tm" where
  "feed post esc data = (case esc of
     None \<Rightarrow> feed_cooked post data
   | Some f \<Rightarrow> bindE (strip_escapes f data []) (\<lambda>d. if d = [] then ret () else feed_cooked post d))"

definition pump :: "'x post \<Rightarrow> 'x on_escape \<Rightarrow> bool \<Rightarrow> ('x, unit) tm" where
  "pump post esc blocking =
     bindE (gets (\<lambda>t. if blocking then wait_input (tt_term t) else poll_input (tt_term t)))
     (\<lambda>(data, tm). thenE (modify (\<lambda>t. t\<lparr>tt_term := tm\<rparr>))
       (if data \<noteq> [] then feed post esc data
        else modify (\<lambda>t. if at_eof (tt_term t) \<and> tt_ready t = []
                         then t\<lparr>tt_eof_pending := True\<rparr> else t)))"

text \<open>\<open>ready[:n]\<close> and \<open>del ready[:n]\<close>; the system call passes an unsigned count.\<close>

definition tty_read :: "'x post \<Rightarrow> 'x on_escape \<Rightarrow> int \<Rightarrow> ('x, bytes option) tm" where
  "tty_read post esc n =
     thenE (pump post esc False)
     (bindE (gets (\<lambda>t. t)) (\<lambda>t.
       if tt_ready t \<noteq> [] then
         let k = nat (py_clamp (int (length (tt_ready t))) n)
         in thenE (modify (\<lambda>t. t\<lparr>tt_ready := drop k (tt_ready t)\<rparr>)) (ret (Some (take k (tt_ready t))))
       else if tt_eof_pending t then
         thenE (modify (\<lambda>t. t\<lparr>tt_eof_pending := False\<rparr>)) (ret (Some []))
       else ret None))"

section \<open>The ioctl requests\<close>

text \<open>
  What \<open>ioctl\<close> uses of the calling process: \<open>proc.mem\<close>, \<open>proc.session\<close> and \<open>proc.pgrp\<close>.
\<close>

record 'x caller =
  cl_read :: "int \<Rightarrow> int \<Rightarrow> ('x, bytes) tm"
  cl_write :: "int \<Rightarrow> bytes \<Rightarrow> ('x, unit) tm"
  cl_read_u32 :: "int \<Rightarrow> ('x, int) tm"
  cl_write_u32 :: "int \<Rightarrow> int \<Rightarrow> ('x, unit) tm"
  cl_session :: int
  cl_pgrp :: int

definition WINSIZE_pack :: "int \<times> int \<Rightarrow> exn + bytes" where
  "WINSIZE_pack rc =
     (if fits_u16 (fst rc) \<and> fits_u16 (snd rc)
      then Inr (pack16 (fst rc) @ pack16 (snd rc) @ pack16 0 @ pack16 0) else Inl StructError)"

definition set_termios :: "(termios \<Rightarrow> exn + termios) \<Rightarrow> ('x, unit) tm" where
  "set_termios f =
     bindE (gets tt_termios) (\<lambda>c. bindE (liftR (f c)) (\<lambda>c'. modify (\<lambda>t. t\<lparr>tt_termios := c'\<rparr>)))"

definition tty_ioctl :: "'x post \<Rightarrow> 'x on_escape \<Rightarrow> 'x caller \<Rightarrow> int \<Rightarrow> int \<Rightarrow> ('x, int) tm" where
  "tty_ioctl post esc p cmd argp =
     (if cmd = TCGETS then
        bindE (gets tt_termios) (\<lambda>c. bindE (liftR (Termios_pack c)) (\<lambda>raw.
        thenE (cl_write p argp raw) (ret 0)))
      else if cmd \<in> {TCSETS, TCSETSW, TCSETSF} then
        bindE (cl_read p argp 34) (\<lambda>raw.
        thenE (set_termios (Termios_unpack raw))
        (thenE (if cmd = TCSETSF then flush_input else ret ()) (ret 0)))
      else if cmd = TCGETA then
        bindE (gets tt_termios) (\<lambda>c. bindE (liftR (Termios_pack_old c)) (\<lambda>raw.
        thenE (cl_write p argp raw) (ret 0)))
      else if cmd \<in> {TCSETA, TCSETAW, TCSETAF} then
        bindE (cl_read p argp 17) (\<lambda>raw.
        thenE (set_termios (Termios_unpack_old raw))
        (thenE (if cmd = TCSETAF then flush_input else ret ()) (ret 0)))
      else if cmd = TIOCGWINSZ then
        bindE (gets (\<lambda>t. term_size (tt_term t))) (\<lambda>rc. bindE (liftR (WINSIZE_pack rc)) (\<lambda>raw.
        thenE (cl_write p argp raw) (ret 0)))
      else if cmd = TIOCSWINSZ then ret 0
      else if cmd = TIOCGPGRP then
        bindE (gets tt_pgrp) (\<lambda>g. thenE (cl_write_u32 p argp g) (ret 0))
      else if cmd = TIOCSPGRP then
        bindE (cl_read_u32 p argp) (\<lambda>g. thenE (modify (\<lambda>t. t\<lparr>tt_pgrp := g\<rparr>)) (ret 0))
      else if cmd = TIOCSCTTY then
        thenE (modify (\<lambda>t. t\<lparr>tt_session := cl_session p, tt_pgrp := cl_pgrp p\<rparr>)) (ret 0)
      else if cmd = TIOCINQ then
        thenE (pump post esc False)
        (bindE (gets (\<lambda>t. int (length (tt_ready t)))) (\<lambda>n.
        thenE (cl_write_u32 p argp n) (ret 0)))
      else if cmd \<in> {TCFLSH, TCSBRK, TCXONC} then
        thenE (if cmd = TCFLSH then flush_input else ret ()) (ret 0)
      else ret (- 22))"

end
