(* ===== verification/Ktty_Inv.thy ===== *)
theory Ktty_Inv
  imports Ktty
begin

text \<open>
  What every operation of the line discipline keeps of its state (\<open>tty_ok\<close>), the round
  trips of the two termios layouts, and the refinement of the canonical mode to a line
  editor on keys.
\<close>

section \<open>The termios layouts\<close>

definition termios_ok :: "termios \<Rightarrow> bool" where
  "termios_ok t \<longleftrightarrow> fits_u32 (c_iflag t) \<and> fits_u32 (c_oflag t) \<and> fits_u32 (c_cflag t) \<and>
     fits_u32 (c_lflag t) \<and> fits_u8 (c_line t) \<and> length (c_cc t) = NCCS"

lemmas fits_defs = fits_u32_def fits_u16_def fits_u8_def

lemma fits_u32_at [simp]: "fits_u32 (u32_at bs k)"
  by (simp add: fits_u32_def u32_at_bounds)

lemma fits_u8_uint [simp]: "fits_u8 (uint (b :: byte))"
  by (simp add: fits_u8_def)

lemma and_not_0xFFFF: "(f :: int) AND NOT 65535 = f - f mod 65536"
  using and_not_mask [of f 16] by (simp add: mask_eq_exp_minus_1)

lemma keep_high_eq:
  assumes "0 \<le> v" and "v < 65536"
  shows "keep_high f v = f - f mod 65536 + v"
proof -
  have low: "v AND 65535 = v"
    using assms by (simp add: and_0xFFFF)
  have "(f AND NOT 65535) AND v = 0"
    by (subst low [symmetric], rule bit_eqI) (auto simp: bit_simps)
  then show ?thesis
    unfolding keep_high_def by (simp only: or_plus and_not_0xFFFF)
qed

lemma keep_high_fits:
  assumes "fits_u32 f" and "0 \<le> v" and "v < 65536"
  shows "fits_u32 (keep_high f v)"
proof -
  have "f - f mod 65536 = 65536 * (f div 65536)"
    by (simp add: minus_mod_eq_mult_div)
  moreover have "0 \<le> f div 65536" "f div 65536 < 65536"
    using assms(1) unfolding fits_u32_def by linarith+
  ultimately show ?thesis
    using assms(2,3) by (simp add: fits_u32_def keep_high_eq [OF assms(2,3)])
qed

lemma keep_high_u16_at [simp]: "fits_u32 f \<Longrightarrow> fits_u32 (keep_high f (u16_at bs k))"
  by (simp add: keep_high_fits u16_at_bounds)

lemma keep_high_same: "keep_high f (f mod 65536) = f"
  by (simp add: keep_high_eq)

lemma Termios_init_ok: "termios_ok Termios_init"
  by (simp add: termios_ok_def Termios_init_def fits_defs tty_flags NCCS_def default_cc_def)

lemma length_pack_s [simp]: "length (pack_s n bs) = n"
  by (simp add: pack_s_def)

lemma pack_s_id [simp]: "length bs = n \<Longrightarrow> pack_s n bs = bs"
  by (simp add: pack_s_def)

lemma Termios_unpack_ok: "Termios_unpack raw t = Inr t' \<Longrightarrow> termios_ok t'"
  by (auto simp: Termios_unpack_def Let_def termios_ok_def NCCS_def split: if_splits)

lemma Termios_unpack_old_ok:
  "termios_ok t \<Longrightarrow> Termios_unpack_old raw t = Inr t' \<Longrightarrow> termios_ok t'"
  by (auto simp: Termios_unpack_old_def Let_def termios_ok_def NCCS_def
      split: if_splits)

lemma Termios_pack_total: "termios_ok t \<Longrightarrow> \<exists>raw. Termios_pack t = Inr raw \<and> length raw = 34"
  by (simp add: termios_ok_def Termios_pack_def)

lemma u32_at_0: "length xs = 4 \<Longrightarrow> u32_at (xs @ ys) 0 = le32 xs"
  by (simp add: u32_at_def le32_append)

lemma u32_at_skip: "length xs = 4 \<Longrightarrow> u32_at (xs @ ys) (4 + k) = u32_at ys k"
  by (simp add: u32_at_def)

lemma le32_fits: "fits_u32 v \<Longrightarrow> le32 (pack32 v) = v"
  by (simp add: fits_u32_def le32_pack32)

lemma Termios_roundtrip:
  assumes "termios_ok t"
  shows "bindR (Termios_pack t) (\<lambda>raw. Termios_unpack raw t') = Inr t"
  using assms
  by (cases t; cases t')
    (simp add: termios_ok_def Termios_pack_def Termios_unpack_def Let_def NCCS_def nth_append
      u32_at_def le32_append le32_fits drop_append fits_u8_def uint_byte_of_int)

lemma le16_low: "le16 (pack16 (v AND 65535)) = v mod 65536"
  by (simp add: le16_pack16 and_0xFFFF)

lemma Termios_old_roundtrip:
  assumes "termios_ok t"
  shows "bindR (Termios_pack_old t) (\<lambda>raw. Termios_unpack_old raw t) = Inr t"
  using assms
  by (cases t)
    (simp add: termios_ok_def Termios_pack_old_def Termios_unpack_old_def Let_def NCCS_def
      nth_append u16_at_def le16_append le16_low drop_append fits_u8_def uint_byte_of_int
      keep_high_same)

section \<open>The invariant of the line discipline\<close>

definition tty_ok :: "'x tty_scheme \<Rightarrow> bool" where
  "tty_ok t \<longleftrightarrow> termios_ok (tt_termios t) \<and> length (tt_tail t) \<le> CONSOLE_TAIL"

lemma TTY_init_ok: "tty_ok (TTY_init tm esc)"
  using Termios_init_ok
  by (simp add: tty_ok_def TTY_init_def termios_ok_def fits_defs Termios_init_def tty_flags
      default_cc_def NCCS_def)

lemma tty_ok_upd [simp]:
  "tty_ok (t\<lparr>tt_term := tm\<rparr>) = tty_ok t" "tty_ok (t\<lparr>tt_line := l\<rparr>) = tty_ok t"
  "tty_ok (t\<lparr>tt_ready := r\<rparr>) = tty_ok t" "tty_ok (t\<lparr>tt_eof_pending := b\<rparr>) = tty_ok t"
  "tty_ok (t\<lparr>tt_escape_armed := b\<rparr>) = tty_ok t" "tty_ok (t\<lparr>tt_pgrp := g\<rparr>) = tty_ok t"
  "tty_ok (t\<lparr>tt_session := g\<rparr>) = tty_ok t"
  by (simp_all add: tty_ok_def)

lemma tty_ok_tail [simp]:
  "tty_ok t \<Longrightarrow> tty_ok (t\<lparr>tt_tail := last_bytes CONSOLE_TAIL d\<rparr>)"
  by (simp add: tty_ok_def last_bytes_def)

text \<open>Together with an invariant of what the owner of the terminal keeps beside it.\<close>

definition tty_inv :: "('x \<Rightarrow> bool) \<Rightarrow> 'x tty_scheme \<Rightarrow> bool" where
  "tty_inv J t \<longleftrightarrow> tty_ok t \<and> J (tty.more t)"

lemma tty_inv_upd [simp]:
  "tty_inv J (t\<lparr>tt_term := tm\<rparr>) = tty_inv J t" "tty_inv J (t\<lparr>tt_line := l\<rparr>) = tty_inv J t"
  "tty_inv J (t\<lparr>tt_ready := r\<rparr>) = tty_inv J t" "tty_inv J (t\<lparr>tt_eof_pending := b\<rparr>) = tty_inv J t"
  "tty_inv J (t\<lparr>tt_escape_armed := b\<rparr>) = tty_inv J t" "tty_inv J (t\<lparr>tt_pgrp := g\<rparr>) = tty_inv J t"
  "tty_inv J (t\<lparr>tt_session := g\<rparr>) = tty_inv J t"
  by (simp_all add: tty_inv_def)

lemma tty_inv_tail [simp]:
  "tty_inv J t \<Longrightarrow> tty_inv J (t\<lparr>tt_tail := last_bytes CONSOLE_TAIL d\<rparr>)"
  by (simp add: tty_inv_def)

lemmas gives_seq = gives_bindE [where R = "\<lambda>_. True"] gives_thenE

lemma gives_let [gives_rules]: "(\<And>x. x = v \<Longrightarrow> gives I (f x) R) \<Longrightarrow> gives I (Let v f) R"
  by simp

lemma gives_tty_write [gives_rules]: "gives (tty_inv J) (tty_write d) (\<lambda>_. True)"
  unfolding tty_write_def by (intro gives_seq gives_rules TrueI; simp)

lemma gives_tty_put [gives_rules]: "gives (tty_inv J) (tty_put d) (\<lambda>_. True)"
  unfolding tty_put_def by (intro gives_seq gives_rules TrueI)

lemma gives_tty_echo [gives_rules]: "gives (tty_inv J) (tty_echo ch) (\<lambda>_. True)"
  unfolding tty_echo_def by (intro gives_seq gives_rules TrueI)

lemma gives_echo_ctl [gives_rules]: "gives (tty_inv J) (echo_ctl ch) (\<lambda>_. True)"
  unfolding echo_ctl_def by (intro gives_seq gives_rules TrueI)

lemma gives_flush_input [gives_rules]: "gives (tty_inv J) flush_input (\<lambda>_. True)"
  unfolding flush_input_def by (intro gives_rules TrueI; simp)

text \<open>A callback is harmless when it keeps the invariant.\<close>

definition post_ok :: "('x \<Rightarrow> bool) \<Rightarrow> 'x post \<Rightarrow> bool" where
  "post_ok J post \<longleftrightarrow> (\<forall>g sig. gives (tty_inv J) (post g sig) (\<lambda>_. True))"

definition esc_ok :: "('x \<Rightarrow> bool) \<Rightarrow> 'x on_escape \<Rightarrow> bool" where
  "esc_ok J esc \<longleftrightarrow> (\<forall>f ch. esc = Some f \<longrightarrow> gives (tty_inv J) (f ch) (\<lambda>_. True))"

lemma gives_feed_byte: "post_ok J post \<Longrightarrow> gives (tty_inv J) (feed_byte post canon b) (\<lambda>_. True)"
  unfolding feed_byte_def
  by (intro gives_seq gives_rules TrueI; simp add: post_ok_def)

lemma gives_feed_all: "post_ok J post \<Longrightarrow> gives (tty_inv J) (feed_all post canon bs) (\<lambda>_. True)"
  by (induction bs) (auto intro!: gives_ret gives_thenE gives_feed_byte)

lemma gives_feed_cooked: "post_ok J post \<Longrightarrow> gives (tty_inv J) (feed_cooked post bs) (\<lambda>_. True)"
  unfolding feed_cooked_def by (intro gives_seq gives_feed_all gives_rules TrueI)

lemma gives_strip_escapes:
  assumes "\<And>ch. gives (tty_inv J) (f ch) (\<lambda>_. True)"
  shows "gives (tty_inv J) (strip_escapes f bs out) (\<lambda>_. True)"
  by (induction bs arbitrary: out) (auto intro!: gives_seq gives_rules assms)

lemma gives_feed:
  assumes "post_ok J post" and "esc_ok J esc"
  shows "gives (tty_inv J) (feed post esc bs) (\<lambda>_. True)"
  unfolding feed_def
  by (intro gives_option gives_seq gives_if gives_ret gives_strip_escapes gives_feed_cooked TrueI assms)
    (use assms(2) in \<open>simp add: esc_ok_def\<close>)

lemma gives_pump [gives_rules]:
  assumes "post_ok J post" and "esc_ok J esc"
  shows "gives (tty_inv J) (pump post esc blocking) (\<lambda>_. True)"
  unfolding pump_def
  by (intro gives_bindE [where R = "\<lambda>_. True"] gives_gets TrueI)
    (auto intro!: gives_seq gives_rules gives_feed assms)

lemma gives_tty_read:
  assumes "post_ok J post" and "esc_ok J esc"
  shows "gives (tty_inv J) (tty_read post esc n) (\<lambda>_. True)"
  unfolding tty_read_def
  by (intro gives_seq gives_pump gives_rules TrueI assms; simp)

definition caller_ok :: "('x \<Rightarrow> bool) \<Rightarrow> 'x caller \<Rightarrow> bool" where
  "caller_ok J p \<longleftrightarrow>
     (\<forall>a n. gives (tty_inv J) (cl_read p a n) (\<lambda>_. True)) \<and>
     (\<forall>a d. gives (tty_inv J) (cl_write p a d) (\<lambda>_. True)) \<and>
     (\<forall>a. gives (tty_inv J) (cl_read_u32 p a) (\<lambda>_. True)) \<and>
     (\<forall>a v. gives (tty_inv J) (cl_write_u32 p a v) (\<lambda>_. True))"

lemma gives_set_termios:
  assumes "\<And>c c'. termios_ok c \<Longrightarrow> f c = Inr c' \<Longrightarrow> termios_ok c'"
  shows "gives (tty_inv J) (set_termios f) (\<lambda>_. True)"
  using assms
  by (auto simp: gives_def set_termios_def bindE_def gets_def liftR_def modify_def tty_inv_def tty_ok_def
      split: sum.splits)

lemma gives_tty_ioctl:
  assumes "post_ok J post" and "esc_ok J esc" and "caller_ok J p"
  shows "gives (tty_inv J) (tty_ioctl post esc p cmd argp) (\<lambda>_. True)"
proof -
  have c: "gives (tty_inv J) (cl_read p a n) (\<lambda>_. True)" "gives (tty_inv J) (cl_write p a d) (\<lambda>_. True)"
    "gives (tty_inv J) (cl_read_u32 p a) (\<lambda>_. True)" "gives (tty_inv J) (cl_write_u32 p a v) (\<lambda>_. True)"
    for a n d v
    using assms(3) by (auto simp: caller_ok_def)
  show ?thesis
    unfolding tty_ioctl_def
    by (intro gives_if; intro gives_seq gives_rules gives_set_termios c TrueI assms)
      (auto intro: Termios_unpack_ok Termios_unpack_old_ok)
qed

section \<open>The canonical mode as a line editor\<close>

text \<open>
  What a byte means under the current settings, in the order in which the code tests it,
  and what each key does to the line being edited, the input a program may read, and the
  pending end of file. Echo, the terminal and the settings are not part of the editor.
\<close>

datatype key = Interrupt | Suspend | Erase | Kill | EndOfInput | Submit byte | Typed byte

definition is_c :: "termios \<Rightarrow> nat \<Rightarrow> byte \<Rightarrow> bool" where
  "is_c c k b \<longleftrightarrow> b = c_cc c ! k"

definition key_of :: "termios \<Rightarrow> byte \<Rightarrow> key" where
  "key_of c b0 =
     (let b = (if c_iflag c AND ICRNL \<noteq> 0 \<and> b0 = 13 then 10 else b0);
          sig = c_lflag c AND ISIG \<noteq> 0
      in if sig \<and> (is_c c VINTR b \<or> is_c c VQUIT b) then Interrupt
         else if sig \<and> is_c c VSUSP b then Suspend
         else if is_c c VERASE b then Erase
         else if is_c c VKILL b then Kill
         else if is_c c VEOF b then EndOfInput
         else if b = 10 \<or> (c_cc c ! VEOL \<noteq> 0 \<and> is_c c VEOL b) then Submit b
         else Typed b)"

type_synonym editor = "bytes \<times> bytes \<times> bool"

fun edit :: "bool \<Rightarrow> key \<Rightarrow> editor \<Rightarrow> editor" where
  "edit keep Interrupt (l, r, e) = (if keep then (l, r, e) else ([], [], e))"
| "edit keep Suspend (l, r, e) = (l, r, e)"
| "edit keep Erase (l, r, e) = (butlast l, r, e)"
| "edit keep Kill (l, r, e) = ([], r, e)"
| "edit keep EndOfInput (l, r, e) = (if l = [] then (l, r, True) else ([], r @ l, e))"
| "edit keep (Submit b) (l, r, e) = ([], r @ l @ [b], e)"
| "edit keep (Typed b) (l, r, e) = (l @ [b], r, e)"

definition editor_of :: "'x tty_scheme \<Rightarrow> editor" where
  "editor_of t = (tt_line t, tt_ready t, tt_eof_pending t)"

definition edits :: "termios \<Rightarrow> bytes \<Rightarrow> editor \<Rightarrow> editor" where
  "edits c data = fold (\<lambda>b. edit (c_lflag c AND NOFLSH \<noteq> 0) (key_of c b)) data"

text \<open>
  \<open>quiet\<close>: a callback that returns and leaves the editor and the settings alone, as the
  default one does. \<open>echoable\<close>: the signal characters can be echoed.
\<close>

definition quiet :: "'x post \<Rightarrow> bool" where
  "quiet post \<longleftrightarrow> (\<forall>g sig t. \<exists>t'. post g sig t = (Inr (), t') \<and> editor_of t' = editor_of t \<and>
     tt_termios t' = tt_termios t)"

definition echoable :: "termios \<Rightarrow> bool" where
  "echoable c \<longleftrightarrow> (\<forall>k \<in> {VINTR, VQUIT, VSUSP}. uint (c_cc c ! k) < 192)"

text \<open>
  \<open>becomes m t v\<close>: from \<open>t\<close> the operation returns, its editor is then \<open>v\<close>, and the settings
  are as before. One rule for each construct.
\<close>

definition becomes :: "('x, 'a) tm \<Rightarrow> 'x tty_scheme \<Rightarrow> editor \<Rightarrow> bool" where
  "becomes m t v \<longleftrightarrow>
     (\<exists>x t'. m t = (Inr x, t') \<and> editor_of t' = v \<and> tt_termios t' = tt_termios t)"

named_theorems becomes_rules \<open>one rule for each construct\<close>

lemma becomes_ret [becomes_rules]: "v = editor_of t \<Longrightarrow> becomes (ret x) t v"
  by (simp add: becomes_def ret_def)

lemma becomes_modify [becomes_rules]:
  "editor_of (f t) = v \<Longrightarrow> tt_termios (f t) = tt_termios t \<Longrightarrow> becomes (modify f) t v"
  by (simp add: becomes_def modify_def)

lemma becomes_gets [becomes_rules]: "becomes (f (g t)) t v \<Longrightarrow> becomes (bindE (gets g) f) t v"
  by (simp add: becomes_def bindE_def gets_def)

lemma becomes_if [becomes_rules]:
  "(b \<Longrightarrow> becomes m t v) \<Longrightarrow> (\<not> b \<Longrightarrow> becomes n t v) \<Longrightarrow> becomes (if b then m else n) t v"
  by simp

lemma becomes_thenE:
  assumes "becomes m t u"
    and "\<And>t'. editor_of t' = u \<Longrightarrow> tt_termios t' = tt_termios t \<Longrightarrow> becomes n t' v"
  shows "becomes (thenE m n) t v"
proof -
  obtain x t' where m: "m t = (Inr x, t')" "editor_of t' = u" "tt_termios t' = tt_termios t"
    using assms(1) by (auto simp: becomes_def)
  with assms(2) [of t'] show ?thesis
    by (auto simp: becomes_def thenE_def bindE_def)
qed

lemma becomes_tty_put: "v = editor_of t \<Longrightarrow> becomes (tty_put d) t v"
  by (simp add: becomes_def tty_put_def tty_write_def bindE_def thenE_def gets_def modify_def
      ret_def editor_of_def)

lemma becomes_tty_echo: "v = editor_of t \<Longrightarrow> becomes (tty_echo b) t v"
  unfolding tty_echo_def by (intro becomes_rules becomes_tty_put; simp)

lemma becomes_echo_ctl: "uint b < 192 \<Longrightarrow> v = editor_of t \<Longrightarrow> becomes (echo_ctl b) t v"
  unfolding echo_ctl_def by (intro becomes_rules becomes_tty_put; simp)

lemma becomes_post: "quiet post \<Longrightarrow> v = editor_of t \<Longrightarrow> becomes (post g sig) t v"
  by (auto simp: quiet_def becomes_def)

lemma becomes_flush:
  "v = edit (lflag NOFLSH t) Interrupt (editor_of t) \<Longrightarrow> becomes flush_input t v"
  unfolding flush_input_def by (intro becomes_modify; simp add: editor_of_def)

lemma becomes_signal:
  assumes "quiet post" and "uint b < 192" and "v = edit (lflag NOFLSH t) Interrupt (editor_of t)"
  shows "becomes (thenE (echo_ctl b) (thenE flush_input (post g sig))) t v"
proof (rule becomes_thenE)
  show "becomes (echo_ctl b) t (editor_of t)"
    using assms(2) by (rule becomes_echo_ctl) simp
  fix t' :: "'a tty_scheme"
  assume t': "editor_of t' = editor_of t" "tt_termios t' = tt_termios t"
  show "becomes (thenE flush_input (post g sig)) t' v"
  proof (rule becomes_thenE)
    show "becomes flush_input t' v"
      by (rule becomes_flush) (simp add: assms(3) t' lflag_def)
  qed (simp add: becomes_post [OF assms(1)])
qed

lemma becomes_typed:
  assumes "editor_of t = (l, r, e)"
  shows "becomes (thenE (tty_echo b) (thenE (modify (\<lambda>t. t\<lparr>tt_line := tt_line t @ [b]\<rparr>)) (ret ())))
    t (l @ [b], r, e)"
  using assms
  by (auto intro!: becomes_thenE [OF becomes_tty_echo] becomes_thenE [OF becomes_modify]
      becomes_ret simp: editor_of_def)

lemma becomes_submit:
  assumes "editor_of t = (l, r, e)"
  shows "becomes (thenE (tty_echo b) (thenE (modify (\<lambda>t. t\<lparr>tt_line := tt_line t @ [b]\<rparr>))
      (modify (\<lambda>t. t\<lparr>tt_ready := tt_ready t @ tt_line t, tt_line := []\<rparr>)))) t ([], r @ l @ [b], e)"
  using assms
  by (auto intro!: becomes_thenE [OF becomes_tty_echo] becomes_thenE [OF becomes_modify]
      becomes_modify simp: editor_of_def)

lemma becomes_edit_if:
  "(c \<Longrightarrow> becomes m t (edit nf k v)) \<Longrightarrow> (\<not> c \<Longrightarrow> becomes n t (edit nf k' v)) \<Longrightarrow>
   becomes (if c then m else n) t (edit nf (if c then k else k') v)"
  by simp

lemma feed_byte_edits:
  assumes q: "quiet post" and ec: "echoable (tt_termios t)"
  shows "becomes (feed_byte post True b0) t
    (edit (lflag NOFLSH t) (key_of (tt_termios t) b0) (editor_of t))"
proof -
  let ?c = "tt_termios t"
  define b where "b = (if iflag ICRNL t \<and> b0 = 13 then 10 else b0)"
  obtain l r e where ed: "editor_of t = (l, r, e)"
    by (cases "editor_of t") auto
  have lt: "uint (c_cc ?c ! k) < 192" if "k \<in> {VINTR, VQUIT, VSUSP}" for k
    using ec that by (auto simp: echoable_def)
  have key: "key_of ?c b0 =
    (if lflag ISIG t \<and> b = cchar VINTR t then Interrupt
     else if lflag ISIG t \<and> b = cchar VQUIT t then Interrupt
     else if lflag ISIG t \<and> b = cchar VSUSP t then Suspend
     else if \<not> True then Typed b
     else if b = cchar VERASE t then Erase
     else if b = cchar VKILL t then Kill
     else if b = cchar VEOF t then EndOfInput
     else if b = 10 \<or> (cchar VEOL t \<noteq> 0 \<and> b = cchar VEOL t) then Submit b
     else Typed b)"
    by (simp add: key_of_def is_c_def lflag_def cchar_def iflag_def b_def Let_def)
  show ?thesis
    unfolding feed_byte_def key ed Let_def b_def [symmetric]
    apply (rule becomes_gets, unfold b_def [symmetric])
    apply (rule becomes_edit_if)
    apply (rule becomes_signal [OF q])
    apply (use lt in \<open>simp add: cchar_def\<close>)
    apply (simp add: ed)
    apply (rule becomes_edit_if)
    apply (rule becomes_signal [OF q])
    apply (use lt in \<open>simp add: cchar_def\<close>)
    apply (simp add: ed)
    apply (rule becomes_edit_if)
    apply (rule becomes_thenE [OF becomes_echo_ctl], use lt in \<open>simp add: cchar_def\<close>)
    apply (rule refl)
    apply (rule becomes_post [OF q], simp add: ed)
    apply (rule becomes_edit_if, simp)
    apply (rule becomes_edit_if)
    subgoal
      apply (rule becomes_if)
      apply (rule becomes_thenE [OF becomes_modify [OF refl]], simp)
       apply (rule becomes_if)
      using ed by (auto intro!: becomes_tty_put becomes_ret simp: editor_of_def)
    apply (rule becomes_edit_if)
    subgoal
      apply (rule becomes_thenE [where u = "editor_of t"])
      using ed by (auto intro!: becomes_if becomes_tty_put becomes_ret becomes_modify simp: editor_of_def)
    apply (rule becomes_edit_if)
    subgoal
      using ed by (auto intro!: becomes_modify simp: editor_of_def)
    subgoal
      using becomes_typed [OF ed, of b] becomes_submit [OF ed, of b] by simp
    done
qed

lemma becomes_feed_all:
  assumes q: "quiet post"
  shows "echoable (tt_termios t) \<Longrightarrow>
    becomes (feed_all post True data) t (edits (tt_termios t) data (editor_of t))"
proof (induction data arbitrary: t)
  case Nil
  show ?case
    by (simp add: becomes_ret edits_def)
next
  case (Cons b bs)
  show ?case
    unfolding feed_all.simps
  proof (rule becomes_thenE [OF feed_byte_edits [OF q Cons.prems]])
    fix t' :: "'a tty_scheme"
    assume "editor_of t' = edit (lflag NOFLSH t) (key_of (tt_termios t) b) (editor_of t)"
      and same: "tt_termios t' = tt_termios t"
    moreover have "becomes (feed_all post True bs) t' (edits (tt_termios t') bs (editor_of t'))"
      using Cons.prems same by (intro Cons.IH) simp
    ultimately show "becomes (feed_all post True bs) t' (edits (tt_termios t) (b # bs) (editor_of t))"
      by (simp add: edits_def lflag_def)
  qed
qed

end
