(* ===== verification/Kexec.thy ===== *)
theory Kexec
  imports X86mem Kvfs
begin

text \<open>
  \<open>kexec.py\<close>: the a.out header and its validation, the first line of a script, the loader,
  the initial stack and the search for the file to load. The loader and the search read
  through the overlay; the address space they fill is an argument that comes back changed.
\<close>

definition E2BIG :: int where "E2BIG = 7"
definition ENOEXEC :: int where "ENOEXEC = 8"
definition EACCES :: int where "EACCES = 13"

definition ZMAGIC :: int where "ZMAGIC = 267"
definition N_TXTOFF :: int where "N_TXTOFF = 1024"
definition EXEC_HDR :: int where "EXEC_HDR = 32"
definition MAX_TOTAL :: int where "MAX_TOTAL = 0x3000000"

section \<open>The a.out header\<close>

record aout =
  a_magic :: int
  a_text :: int
  a_data :: int
  a_bss :: int
  a_syms :: int
  a_entry :: int
  a_trsize :: int
  a_drsize :: int

definition AoutHeader :: "bytes \<Rightarrow> exn + aout" where
  "AoutHeader raw =
     (if int (length raw) < EXEC_HDR then Inl (ExecError ENOEXEC)
      else Inr \<lparr>a_magic = u32_at raw 0, a_text = u32_at raw 4, a_data = u32_at raw 8,
                a_bss = u32_at raw 12, a_syms = u32_at raw 16, a_entry = u32_at raw 20,
                a_trsize = u32_at raw 24, a_drsize = u32_at raw 28\<rparr>)"

definition aout_validate :: "int \<Rightarrow> aout \<Rightarrow> exn + unit" where
  "aout_validate file_size h =
     (if a_magic h \<noteq> ZMAGIC then Inl (ExecError ENOEXEC)
      else if a_trsize h \<noteq> 0 \<or> a_drsize h \<noteq> 0 then Inl (ExecError ENOEXEC)
      else if a_text h + a_data h + a_bss h > MAX_TOTAL then Inl (ExecError ENOEXEC)
      else if file_size < a_text h + a_data h + a_syms h + N_TXTOFF then Inl (ExecError ENOEXEC)
      else Inr ())"

section \<open>Scripts\<close>

text \<open>
  \<open>bytes.strip\<close> takes the ASCII white space; \<open>str.split\<close> and \<open>str.strip\<close> on the decoded
  text take what Unicode calls white space, of which Latin-1 has five more characters.
\<close>

definition byte_space :: "byte \<Rightarrow> bool" where
  "byte_space b \<longleftrightarrow> (9 \<le> b \<and> b \<le> 13) \<or> b = 32"

definition text_space :: "byte \<Rightarrow> bool" where
  "text_space b \<longleftrightarrow> byte_space b \<or> (28 \<le> b \<and> b \<le> 31) \<or> b = 0x85 \<or> b = 0xA0"

definition strip_by :: "('a \<Rightarrow> bool) \<Rightarrow> 'a list \<Rightarrow> 'a list" where
  "strip_by P xs = rev (dropWhile P (rev (dropWhile P xs)))"

text \<open>\<open>parts[0]\<close> of an empty \<open>split\<close> raises \<open>IndexError\<close>.\<close>

definition parse_shebang :: "bytes \<Rightarrow> exn + (string \<times> string option) option" where
  "parse_shebang head =
     (if take 2 head \<noteq> [35, 33] then Inr None
      else
        let line = takeWhile (\<lambda>b. b \<noteq> 10) (drop 2 head);
            line = strip_by byte_space (takeWhile (\<lambda>b. b \<noteq> 0) line)
        in if line = [] then Inr None
           else
             let text = dropWhile text_space line;
                 interp = takeWhile (\<lambda>b. \<not> text_space b) text;
                 rest = dropWhile text_space (dropWhile (\<lambda>b. \<not> text_space b) text);
                 arg = strip_by text_space rest
             in if text = [] then Inl IndexError
                else Inr (Some (latin1 interp, if arg = [] then None else Some (latin1 arg))))"

section \<open>Loading\<close>

definition load_aout :: "'e addrspace \<Rightarrow> int \<Rightarrow> (overlay, (int \<times> int) \<times> 'e addrspace) sm" where
  "load_aout m i =
     bindE (vn i) (\<lambda>v.
     if \<not> v_is_regular v then raise (ExecError EACCES)
     else if v_mode v AND 0x49 = 0 then raise (ExecError EACCES)
     else
       bindE (vread i 0 EXEC_HDR) (\<lambda>raw.
       bindE (liftR (AoutHeader raw)) (\<lambda>h.
       bindE (vn i) (\<lambda>v.
       thenE (liftR (aout_validate (vsize v) h))
       (bindE (vread i N_TXTOFF (a_text h + a_data h)) (\<lambda>body.
        let body = body @ replicate (nat (a_text h + a_data h - int (length body))) 0;
            m' = load_program (take (nat (a_text h)) body) (drop (nat (a_text h)) body) (a_bss h) m
        in ret ((a_entry h, brk m'), m')))))))"

section \<open>The initial stack\<close>

text \<open>Strings are copied from the top down, so the lists are passed reversed.\<close>

fun put_strings :: "bytes list \<Rightarrow> int \<Rightarrow> int list \<Rightarrow> ('e addrspace, int \<times> int list) sm" where
  "put_strings [] p addrs = ret (p, addrs)"
| "put_strings (s # ss) p addrs =
     (let p = p - (int (length s) + 1)
      in thenE (mem_write p (s @ [0])) (put_strings ss p (addrs @ [p])))"

fun put_words :: "int \<Rightarrow> int list \<Rightarrow> ('e addrspace, unit) sm" where
  "put_words a [] = ret ()"
| "put_words a (w # ws) = thenE (write_u32 a w) (put_words (a + 4) ws)"

definition area :: "bytes list \<Rightarrow> int" where
  "area ss = sum_list (map (\<lambda>s. int (length s) + 1) ss)"

definition setup_stack :: "bytes list \<Rightarrow> bytes list \<Rightarrow> ('e addrspace, int) sm" where
  "setup_stack argv envp =
     (if area argv + area envp > ARG_AREA then raise (ExecError E2BIG)
      else
        bindE (put_strings (rev envp) TASK_SIZE []) (\<lambda>(p, env_addrs).
        bindE (put_strings (rev argv) p []) (\<lambda>(p, arg_addrs).
        let env_addrs = rev env_addrs;
            arg_addrs = rev arg_addrs;
            sp = p AND 0xFFFFFFFC;
            sp = sp - 4 * (int (length envp) + 1);
            envp_base = sp;
            sp = sp - 4 * (int (length argv) + 1);
            argv_base = sp
        in
        thenE (write_u32 (sp - 4) envp_base)
        (thenE (write_u32 (sp - 8) argv_base)
        (thenE (write_u32 (sp - 12) (int (length argv)))
        (thenE (put_words argv_base (arg_addrs @ [0]))
        (thenE (put_words envp_base (env_addrs @ [0]))
        (thenE (modify (\<lambda>m. m\<lparr>start_stack := (sp - 12) AND 0xFFFFF000\<rparr>))
          (ret (sp - 12))))))))))"

section \<open>Finding the file to load\<close>

text \<open>
  The recursion of \<open>resolve_exec\<close> raises when \<open>depth > 4\<close>; the first argument is what is
  left of that bound, \<open>5 - depth\<close>.
\<close>

fun resolve_rec :: "nat \<Rightarrow> string \<Rightarrow> bytes list \<Rightarrow> int option \<Rightarrow> int option \<Rightarrow>
    (overlay, int \<times> bytes list) sm" where
  "resolve_rec 0 path argv cwd root = raise (ExecError ENOEXEC)"
| "resolve_rec (Suc k) path argv cwd root =
     bindE (walk path cwd root) (\<lambda>i.
     bindE (vn i) (\<lambda>v.
     if \<not> v_is_regular v then raise (ExecError EACCES)
     else
       bindE (vread i 0 128) (\<lambda>head.
       bindE (liftR (parse_shebang head)) (\<lambda>sb.
       case sb of
         None \<Rightarrow> ret (i, argv)
       | Some (interp, arg) \<Rightarrow>
           resolve_rec k interp
             ([encode_name interp] @ (case arg of None \<Rightarrow> [] | Some a \<Rightarrow> [encode_name a]) @
              [encode_name path] @ drop 1 argv) cwd root))))"

definition resolve_exec :: "string \<Rightarrow> bytes list \<Rightarrow> int option \<Rightarrow> int option \<Rightarrow>
    (overlay, int \<times> bytes list) sm" where
  "resolve_exec path argv cwd root = resolve_rec 5 path argv cwd root"

end
