(* ===== verification/Ksyscall.thy ===== *)
theory Ksyscall
  imports Kexec
begin

text \<open>
  \<open>ksyscall.py\<close>: the numbers of the calls the table has handlers for and the layout of
  \<open>struct stat\<close>; and the two helpers with which the kernel reads its arguments out of user
  memory (\<open>Kernel._read_ptr_array\<close> and \<open>_cstr\<close>).
\<close>

definition NR_SYSCALLS :: int where "NR_SYSCALLS = 87"

definition SEEK_SET :: int where "SEEK_SET = 0"
definition SEEK_CUR :: int where "SEEK_CUR = 1"
definition SEEK_END :: int where "SEEK_END = 2"

section \<open>The stat structure\<close>

text \<open>
  \<open>"<HHHBxHBxHxxIIII"\<close> of the eleven fields, each masked to its width first; anything but
  eleven fields raises \<open>ValueError\<close> when the tuple is taken apart.
\<close>

definition stat_pack :: "int list \<Rightarrow> exn + bytes" where
  "stat_pack fs = (case fs of
     [dev, ino, mode, nlink, uid, gid, rdev, sz, at, mt, ct] \<Rightarrow>
       Inr (pack16 (dev AND 0xFFFF) @ pack16 (ino AND 0xFFFF) @ pack16 (mode AND 0xFFFF) @
            [word_of_int (nlink AND 0xFF), 0] @ pack16 (uid AND 0xFFFF) @
            [word_of_int (gid AND 0xFF), 0] @ pack16 (rdev AND 0xFFFF) @ [0, 0] @
            pack32 (sz AND 0xFFFFFFFF) @ pack32 (at AND 0xFFFFFFFF) @
            pack32 (mt AND 0xFFFFFFFF) @ pack32 (ct AND 0xFFFFFFFF))
   | _ \<Rightarrow> Inl ValueError)"

lemma stat_pack_length: "stat_pack fs = Inr raw \<Longrightarrow> length raw = 32"
  by (auto simp: stat_pack_def split: list.splits)

section \<open>Names and vectors in user memory\<close>

definition CSTR_LIMIT :: int where "CSTR_LIMIT = 4096"

definition user_cstr :: "int \<Rightarrow> 'e addrspace \<Rightarrow> exn + string" where
  "user_cstr addr m = bindR (read_cstr addr CSTR_LIMIT m) (\<lambda>bs. Inr (latin1 bs))"

fun read_ptrs :: "nat \<Rightarrow> int \<Rightarrow> bytes list \<Rightarrow> 'e addrspace \<Rightarrow> exn + bytes list" where
  "read_ptrs 0 addr out m = Inr out"
| "read_ptrs (Suc k) addr out m =
     bindR (read_u32 addr m) (\<lambda>ptr.
       if ptr = 0 then Inr out
       else bindR (read_cstr ptr CSTR_LIMIT m) (\<lambda>s. read_ptrs k (addr + 4) (out @ [s]) m))"

definition read_ptr_array :: "int \<Rightarrow> 'e addrspace \<Rightarrow> exn + bytes list" where
  "read_ptr_array addr m = (if addr = 0 then Inr [] else read_ptrs 512 addr [] m)"

end
