(* ===== verification/Kexec_Stack.thy ===== *)
theory Kexec_Stack
  imports Ksyscall
begin

text \<open>
  What a new program finds: the stack \<open>setup_stack\<close> builds is a sequence of writes to ranges
  that do not meet, so every string, pointer and count is in place at the end.
\<close>

section \<open>The writes of \<open>setup_stack\<close>\<close>

fun string_plan :: "bytes list \<Rightarrow> int \<Rightarrow> (int \<times> bytes) list" where
  "string_plan [] p = []"
| "string_plan (s # ss) p =
     (p - (int (length s) + 1), s @ [0]) # string_plan ss (p - (int (length s) + 1))"

fun word_plan :: "int \<Rightarrow> int list \<Rightarrow> (int \<times> bytes) list" where
  "word_plan a [] = []"
| "word_plan a (w # ws) = (a, pack32 w) # word_plan (a + 4) ws"

lemma area_simps [simp]:
  "area [] = 0" "area (s # ss) = int (length s) + 1 + area ss" "area (xs @ ys) = area xs + area ys"
  "area (rev xs) = area xs"
  by (simp_all add: area_def rev_map [symmetric])

lemma area_nonneg: "0 \<le> area ss"
  by (induction ss) auto

lemma write_all_append:
  "write_all wr (xs @ ys) = thenE (write_all wr xs) (write_all wr ys)"
proof (induction xs)
  case Nil
  show ?case by (rule ext) (simp add: thenE_def bindE_def ret_def)
next
  case (Cons x xs)
  show ?case
    by (cases x, rule ext) (simp add: Cons thenE_def bindE_def split: prod.splits sum.splits)
qed

lemma put_strings_plan:
  "put_strings ss p as =
     bindE (write_all mem_write (string_plan ss p))
       (\<lambda>_. ret (p - area ss, as @ map fst (string_plan ss p)))"
proof (induction ss arbitrary: p as)
  case Nil
  show ?case by (rule ext) (simp add: bindE_def ret_def)
next
  case (Cons s ss)
  show ?case
    by (rule ext) (simp add: Cons Let_def thenE_def bindE_def ret_def algebra_simps
        split: prod.splits sum.splits)
qed

lemma put_words_plan: "put_words a ws = write_all mem_write (word_plan a ws)"
proof (induction ws arbitrary: a)
  case (Cons w ws)
  show ?case
    by (rule ext) (simp add: Cons thenE_def bindE_def write_u32_eq)
qed simp

definition stack_top :: "bytes list \<Rightarrow> bytes list \<Rightarrow> int" where
  "stack_top argv envp = (TASK_SIZE - area envp - area argv) AND 0xFFFFFFFC"

definition sp_of :: "bytes list \<Rightarrow> bytes list \<Rightarrow> int" where
  "sp_of argv envp = stack_top argv envp - 4 * (int (length envp) + int (length argv)) - 20"

definition env_addrs :: "bytes list \<Rightarrow> int list" where
  "env_addrs envp = rev (map fst (string_plan (rev envp) TASK_SIZE))"

definition arg_addrs :: "bytes list \<Rightarrow> bytes list \<Rightarrow> int list" where
  "arg_addrs argv envp = rev (map fst (string_plan (rev argv) (TASK_SIZE - area envp)))"

definition stack_plan :: "bytes list \<Rightarrow> bytes list \<Rightarrow> (int \<times> bytes) list" where
  "stack_plan argv envp =
     (let sp = sp_of argv envp; argv_base = sp + 12; envp_base = sp + 16 + 4 * int (length argv)
      in string_plan (rev envp) TASK_SIZE @ string_plan (rev argv) (TASK_SIZE - area envp) @
         [(sp + 8, pack32 envp_base), (sp + 4, pack32 argv_base), (sp, pack32 (int (length argv)))] @
         word_plan argv_base (arg_addrs argv envp @ [0]) @
         word_plan envp_base (env_addrs envp @ [0]))"

lemma bindE_assoc: "bindE (bindE m f) g = bindE m (\<lambda>x. bindE (f x) g)"
  by (rule ext) (simp add: bindE_def split: prod.splits sum.splits)

lemma bindE_ret: "bindE (ret x) f = f x"
  by (rule ext) (simp add: bindE_def ret_def)

lemma bindE_thenE: "bindE m (\<lambda>_. n) = thenE m n" "thenE (thenE m n) k = thenE m (thenE n k)"
  "thenE m (bindE (n :: ('s, unit) sm) f) = bindE (thenE m n) f"
  by (simp_all add: thenE_def bindE_assoc)

lemma write_u32_fun: "write_u32 a v = mem_write a (pack32 v)"
  by (rule ext) (rule write_u32_eq)

lemma setup_stack_plan:
  assumes "area argv + area envp \<le> ARG_AREA"
  shows "setup_stack argv envp =
    thenE (write_all mem_write (stack_plan argv envp))
      (thenE (modify (\<lambda>m. m\<lparr>start_stack := sp_of argv envp AND 0xFFFFF000\<rparr>))
        (ret (sp_of argv envp)))"
proof -
  have "(TASK_SIZE - area envp - area argv) AND 0xFFFFFFFC = stack_top argv envp"
    by (simp add: stack_top_def)
  then show ?thesis
    using assms
    by (simp add: setup_stack_def not_less put_strings_plan bindE_assoc bindE_ret Let_def
        sp_of_def algebra_simps put_words_plan write_u32_fun stack_plan_def write_all_append env_addrs_def arg_addrs_def
        thenE_def del: word_plan.simps)
qed

section \<open>The ranges do not meet\<close>

definition apart2 :: "int \<times> bytes \<Rightarrow> int \<times> bytes \<Rightarrow> bool" where
  "apart2 = (\<lambda>(a, d) (b, e). apart a (int (length d)) b (int (length e)))"

definition within :: "int \<Rightarrow> int \<Rightarrow> int \<times> bytes \<Rightarrow> bool" where
  "within lo hi w \<longleftrightarrow> lo \<le> fst w \<and> fst w + int (length (snd w)) \<le> hi"

lemma within_apart:
  "within lo mid v \<Longrightarrow> within mid hi w \<Longrightarrow> apart2 v w"
  "within lo mid v \<Longrightarrow> within mid hi w \<Longrightarrow> apart2 w v"
  by (auto simp: within_def apart2_def apart_def split: prod.splits)

lemma within_mono: "within lo hi w \<Longrightarrow> lo' \<le> lo \<Longrightarrow> hi \<le> hi' \<Longrightarrow> within lo' hi' w"
  by (auto simp: within_def)

text \<open>
  \<open>band lo hi ws\<close>: writes that do not meet, all between \<open>lo\<close> and \<open>hi\<close>. Bands that touch join,
  whichever is written first.
\<close>

definition band :: "int \<Rightarrow> int \<Rightarrow> (int \<times> bytes) list \<Rightarrow> bool" where
  "band lo hi ws \<longleftrightarrow> lo \<le> hi \<and> sorted_wrt apart2 ws \<and> (\<forall>w \<in> set ws. within lo hi w)"

lemma band_up:
  assumes "band lo mid xs" and "band mid hi ys"
  shows "band lo hi (xs @ ys)"
proof -
  have "within lo hi w" if "w \<in> set xs" for w
    by (rule within_mono [of lo mid]) (use assms that in \<open>auto simp: band_def\<close>)
  moreover have "within lo hi w" if "w \<in> set ys" for w
    by (rule within_mono [of mid hi]) (use assms that in \<open>auto simp: band_def\<close>)
  moreover have "apart2 v w" if "v \<in> set xs" "w \<in> set ys" for v w
    by (rule within_apart(1)) (use assms that in \<open>auto simp: band_def\<close>)
  ultimately show ?thesis
    using assms by (simp add: band_def sorted_wrt_append ball_Un)
qed

lemma band_down:
  assumes "band mid hi xs" and "band lo mid ys"
  shows "band lo hi (xs @ ys)"
proof -
  have "within lo hi w" if "w \<in> set xs" for w
    by (rule within_mono [of mid hi]) (use assms that in \<open>auto simp: band_def\<close>)
  moreover have "within lo hi w" if "w \<in> set ys" for w
    by (rule within_mono [of lo mid]) (use assms that in \<open>auto simp: band_def\<close>)
  moreover have "apart2 v w" if "v \<in> set xs" "w \<in> set ys" for v w
    by (rule within_apart(2)) (use assms that in \<open>auto simp: band_def\<close>)
  ultimately show ?thesis
    using assms by (simp add: band_def sorted_wrt_append ball_Un)
qed

lemma band_one: "band a (a + int (length d)) [(a, d)]"
  by (simp add: band_def within_def)

lemma band_string_plan: "band (p - area ss) p (string_plan ss p)"
proof (induction ss arbitrary: p)
  case (Cons s ss)
  let ?p = "p - (int (length s) + 1)"
  have "band ?p p [(?p, s @ [0])]"
    using band_one [of ?p "s @ [0]"] by simp
  from band_down [OF this Cons.IH] show ?case
    by (simp add: algebra_simps)
qed (simp add: band_def)

lemma band_word_plan: "band a (a + 4 * int (length ws)) (word_plan a ws)"
proof (induction ws arbitrary: a)
  case (Cons w ws)
  from band_up [OF _ Cons.IH [of "a + 4"], of a "[(a, pack32 w)]"] band_one [of a "pack32 w"]
  show ?case by (simp add: algebra_simps)
qed (simp add: band_def)

lemma length_plan_addrs [simp]:
  "length (string_plan ss p) = length ss" "length (env_addrs envp) = length envp"
  "length (arg_addrs argv envp) = length argv"
proof -
  show l: "length (string_plan ss p) = length ss" for ss p
    by (induction ss arbitrary: p) simp_all
  show "length (env_addrs envp) = length envp" "length (arg_addrs argv envp) = length argv"
    by (simp_all add: env_addrs_def arg_addrs_def l)
qed

lemma align4:
  assumes "0 \<le> (p :: int)" and "p < 4294967296"
  shows "p AND 0xFFFFFFFC = p - p mod 4"
proof -
  have "p AND 0xFFFFFFFC = (p AND 0xFFFFFFFF) AND NOT (mask 2)"
    by (simp add: mask_eq_exp_minus_1 and.assoc)
  then show ?thesis
    using assms by (simp add: and_0xFFFFFFFF and_not_mask)
qed

lemma stack_top_eq:
  assumes "area argv + area envp \<le> ARG_AREA"
  shows "stack_top argv envp =
    (let p = TASK_SIZE - area envp - area argv in p - p mod 4)"
  using assms area_nonneg [of argv] area_nonneg [of envp]
  unfolding stack_top_def Let_def
  by (intro align4) (simp_all add: x86mem_consts)

lemma sp_of_eq:
  "stack_top argv envp = sp_of argv envp + 20 + 4 * (int (length envp) + int (length argv))"
  by (simp add: sp_of_def)

lemma stack_top_bounds:
  assumes "area argv + area envp \<le> ARG_AREA"
  shows "stack_top argv envp \<le> TASK_SIZE - area envp - area argv"
    and "TASK_SIZE - area envp - area argv - 3 \<le> stack_top argv envp"
    and "stack_top argv envp mod 4 = 0"
  using stack_top_eq [OF assms] by (simp_all add: Let_def)

lemma band_stack_plan:
  assumes a: "area argv + area envp \<le> ARG_AREA"
  shows "band (sp_of argv envp) TASK_SIZE (stack_plan argv envp)"
proof -
  let ?sp = "sp_of argv envp" and ?n = "int (length argv)"
  have strings: "band (TASK_SIZE - area envp) TASK_SIZE (string_plan (rev envp) TASK_SIZE)"
    "band (TASK_SIZE - area envp - area argv) (TASK_SIZE - area envp)
      (string_plan (rev argv) (TASK_SIZE - area envp))"
    using band_string_plan [of TASK_SIZE "rev envp"]
      band_string_plan [of "TASK_SIZE - area envp" "rev argv"] by simp_all
  have pad: "band (stack_top argv envp) (TASK_SIZE - area envp - area argv) []"
    using stack_top_bounds(1) [OF a] by (simp add: band_def)
  have head: "band ?sp (?sp + 12)
      [(?sp + 8, pack32 u), (?sp + 4, pack32 v), (?sp, pack32 w)]" for u v w :: int
  proof -
    have "band (?sp + 8) (?sp + 12) [(?sp + 8, pack32 u)]" "band (?sp + 4) (?sp + 8) [(?sp + 4, pack32 v)]"
      "band ?sp (?sp + 4) [(?sp, pack32 w)]"
      using band_one [of "?sp + 8" "pack32 u"] band_one [of "?sp + 4" "pack32 v"]
        band_one [of ?sp "pack32 w"] by (simp_all add: algebra_simps)
    from band_down [OF this(1) band_down [OF this(2,3)]] show ?thesis by simp
  qed
  have words: "band (?sp + 12) (stack_top argv envp)
      (word_plan (?sp + 12) (arg_addrs argv envp @ [0]) @
       word_plan (?sp + 16 + 4 * ?n) (env_addrs envp @ [0]))"
    using band_up [OF band_word_plan [of "?sp + 12" "arg_addrs argv envp @ [0]"],
        of "stack_top argv envp" "word_plan (?sp + 16 + 4 * ?n) (env_addrs envp @ [0])"]
      band_word_plan [of "?sp + 16 + 4 * ?n" "env_addrs envp @ [0]"]
    by (simp add: sp_of_eq algebra_simps)
  from band_down [OF strings(1) band_down [OF strings(2)
        band_down [OF pad band_up [OF head words]]]]
  show ?thesis
    by (simp add: stack_plan_def Let_def)
qed

section \<open>What is in place at the end\<close>

lemma mem_write_in_stack:
  assumes "in_stack a (int (length d)) m"
  shows "\<exists>m'. mem_write a d m = (Inr (), m') \<and> stack_low m' = stack_low m"
  using assms
  by (simp add: mem_write_unfold Let_def poke_low_def poke_stack_def flush_icache_def)

lemma write_all_in_stack:
  assumes "\<forall>w \<in> set ws. within (stack_low m) TASK_SIZE w"
  shows "\<exists>m'. write_all mem_write ws m = (Inr (), m') \<and> stack_low m' = stack_low m"
  using assms
proof (induction ws arbitrary: m)
  case Nil
  show ?case by (simp add: ret_def)
next
  case (Cons w ws)
  obtain a d where w: "w = (a, d)" by (cases w)
  with Cons.prems have "in_stack a (int (length d)) m"
    by (simp add: within_def in_stack_def)
  then obtain m1 where m1: "mem_write a d m = (Inr (), m1)" "stack_low m1 = stack_low m"
    using mem_write_in_stack by blast
  then have "\<exists>m'. write_all mem_write ws m1 = (Inr (), m') \<and> stack_low m' = stack_low m1"
    using Cons.prems by (intro Cons.IH) simp
  then show ?case
    using w m1 by (auto simp: thenE_def bindE_def)
qed

text \<open>An array of pointers to C strings, as \<open>main\<close> gets it: closed by a null pointer.\<close>

definition c_vector :: "'e addrspace \<Rightarrow> int \<Rightarrow> bytes list \<Rightarrow> bool" where
  "c_vector m a strs \<longleftrightarrow>
     (\<exists>ps. length ps = length strs \<and> (\<forall>p \<in> set ps. stack_low m \<le> p \<and> 0 < p \<and> p < TASK_SIZE) \<and>
        holds byte_at m a (concat (map pack32 (ps @ [0]))) \<and>
        (\<forall>i < length strs. holds byte_at m (ps ! i) (strs ! i @ [0])))"

lemma holds_word_plan:
  "(\<And>b d. (b, d) \<in> set (word_plan a ws) \<Longrightarrow> holds at m b d) \<Longrightarrow>
   holds at m a (concat (map pack32 ws))"
proof (induction ws arbitrary: a)
  case (Cons w ws)
  have "holds at m a (pack32 w)" "holds at m (a + 4) (concat (map pack32 ws))"
    using Cons.prems Cons.IH [of "a + 4"] by auto
  then show ?case
    by (simp add: holds_append)
qed simp

lemma string_plan_nth:
  "i < length ss \<Longrightarrow> string_plan ss p ! i = (fst (string_plan ss p ! i), ss ! i @ [0])"
proof (induction ss arbitrary: i p)
  case (Cons s ss)
  then show ?case by (cases i) auto
qed simp

lemma string_addr_in_plan:
  assumes "i < length ss"
  shows "(rev (map fst (string_plan (rev ss) p)) ! i, ss ! i @ [0]) \<in> set (string_plan (rev ss) p)"
proof -
  let ?k = "length ss - Suc i"
  have k: "?k < length (rev ss)" using assms by simp
  have "rev (map fst (string_plan (rev ss) p)) ! i = fst (string_plan (rev ss) p ! ?k)"
    using assms by (simp add: rev_nth)
  moreover have "rev ss ! ?k = ss ! i"
    using assms by (simp add: rev_nth)
  ultimately have "(rev (map fst (string_plan (rev ss) p)) ! i, ss ! i @ [0]) =
      string_plan (rev ss) p ! ?k"
    using string_plan_nth [OF k, of p] by simp
  moreover have "string_plan (rev ss) p ! ?k \<in> set (string_plan (rev ss) p)"
    using k by (intro nth_mem) simp
  ultimately show ?thesis by simp
qed

lemma c_vectorI:
  assumes strs: "\<And>b d. (b, d) \<in> set (string_plan (rev strs) p) \<Longrightarrow> holds byte_at m b d"
    and words: "\<And>b d. (b, d) \<in> set (word_plan a (rev (map fst (string_plan (rev strs) p)) @ [0])) \<Longrightarrow>
      holds byte_at m b d"
    and p: "area strs < p" "p \<le> TASK_SIZE" "stack_low m \<le> p - area strs"
  shows "c_vector m a strs"
  unfolding c_vector_def
proof (intro exI conjI ballI allI impI)
  let ?ps = "rev (map fst (string_plan (rev strs) p))"
  show "length ?ps = length strs" by simp
  show "holds byte_at m a (concat (map pack32 (?ps @ [0])))"
    by (rule holds_word_plan) (rule words)
  show "holds byte_at m (?ps ! i) (strs ! i @ [0])" if "i < length strs" for i
    by (rule strs) (rule string_addr_in_plan [OF that])
  fix x
  assume "x \<in> set ?ps"
  then obtain i where i: "i < length strs" "x = ?ps ! i"
    by (metis in_set_conv_nth length_map length_plan_addrs(1) length_rev)
  have "within (p - area strs) p (x, strs ! i @ [0])"
    using band_string_plan [of p "rev strs"] string_addr_in_plan [OF i(1), of p] i(2)
    by (simp add: band_def)
  then show "stack_low m \<le> x" "0 < x" "x < TASK_SIZE"
    using p by (simp_all add: within_def)
qed

lemma setup_stack_in_place:
  assumes ok: "mem_ok m" and a: "area argv + area envp \<le> ARG_AREA"
    and room: "stack_low m \<le> sp_of argv envp"
  obtains m' where "setup_stack argv envp m = (Inr (sp_of argv envp), m')" and "mem_ok m'"
    and "stack_low m' = stack_low m"
    and "\<And>w d. (w, d) \<in> set (stack_plan argv envp) \<Longrightarrow> holds byte_at m' w d"
    and "\<And>x b. byte_at m x = Some b \<Longrightarrow> x < sp_of argv envp \<Longrightarrow> byte_at m' x = Some b"
proof -
  have within: "\<forall>w \<in> set (stack_plan argv envp). within (sp_of argv envp) TASK_SIZE w"
    and apart: "sorted_wrt (\<lambda>(a, d) (b, e). apart a (int (length d)) b (int (length e))) (stack_plan argv envp)"
    using band_stack_plan [OF a] by (simp_all add: band_def apart2_def)
  have "\<forall>w \<in> set (stack_plan argv envp). within (stack_low m) TASK_SIZE w"
    using within room by (auto intro: within_mono)
  then obtain m1 where m1: "write_all mem_write (stack_plan argv envp) m = (Inr (), m1)"
      and low: "stack_low m1 = stack_low m"
    using write_all_in_stack by blast
  define m' where "m' = m1\<lparr>start_stack := sp_of argv envp AND 0xFFFFF000\<rparr>"
  have at: "byte_at m' = byte_at m1"
    by (simp add: m'_def byte_at_def fun_eq_iff)
  have "mem_ok m1"
    using addrspace.write_all_ok [OF ok, of "stack_plan argv envp"] m1 by simp
  then have ok': "mem_ok m'"
    by (simp add: m'_def mem_ok_def as_wf_def separated_def)
  show thesis
  proof
    show "setup_stack argv envp m = (Inr (sp_of argv envp), m')"
      using m1 by (simp add: setup_stack_plan [OF a] thenE_def bindE_def modify_def ret_def m'_def)
    show "mem_ok m'" by (rule ok')
    show "stack_low m' = stack_low m" by (simp add: m'_def low)
    show "holds byte_at m' w d" if "(w, d) \<in> set (stack_plan argv envp)" for w d
      using addrspace.write_all_holds [OF ok m1 apart that] by (simp add: holds_def at)
    fix x b
    assume x: "byte_at m x = Some b" "x < sp_of argv envp"
    have "holds byte_at m1 x [b]"
    proof (rule addrspace.write_all_frame [OF ok m1])
      show "holds byte_at m x [b]" using x(1) by (simp add: holds_def)
      show "\<forall>(a, d) \<in> set (stack_plan argv envp). apart a (int (length d)) x (int (length [b]))"
        using within x(2) by (auto simp: within_def apart_def)
    qed
    then show "byte_at m' x = Some b"
      by (simp add: holds_def at)
  qed
qed

section \<open>Reading the vectors back\<close>

lemma mem_read_high:
  assumes ok: "mem_ok m" and h: "holds byte_at m a bs" and lo: "stack_low m \<le> a" and ne: "bs \<noteq> []"
  shows "mem_read a (int (length bs)) m = Inr bs"
proof -
  have sep: "low_end m \<le> stack_low m"
    using ok by (simp add: mem_ok_def separated_def)
  have "byte_at m (a + int (length bs - 1)) = Some (bs ! (length bs - 1))"
    using h ne by (simp add: holds_def)
  moreover have "0 < int (length bs)"
    using ne by simp
  ultimately have "a + int (length bs) \<le> TASK_SIZE"
    using ne lo sep by (auto simp: byte_at_def of_nat_diff Suc_le_eq split: if_splits)
  then have "in_stack a (int (length bs)) m"
    using lo by (simp add: in_stack_def)
  then have "\<exists>cs. mem_read a (int (length bs)) m = Inr cs"
    by (simp add: mem_read_def)
  then obtain cs where cs: "mem_read a (int (length bs)) m = Inr cs" ..
  with addrspace.holds_rd [OF ok h] show ?thesis by simp
qed

lemma pack32_ne [simp]: "pack32 v \<noteq> []"
  by (simp add: pack32_def)

lemma read_u32_high:
  assumes ok: "mem_ok m" and h: "holds byte_at m a (pack32 w)" and lo: "stack_low m \<le> a"
    and w: "0 \<le> w" "w < 4294967296"
  shows "read_u32 a m = Inr w"
  using mem_read_high [OF ok h lo] ok w
  by (simp add: read_u32_eq mem_ok_def le32_pack32)

lemma read_ptrs_vector:
  assumes ok: "mem_ok m"
  shows "length strs \<le> k \<Longrightarrow> length ps = length strs \<Longrightarrow>
    \<forall>p \<in> set ps. stack_low m \<le> p \<and> 0 < p \<and> p < TASK_SIZE \<Longrightarrow>
    holds byte_at m a (concat (map pack32 (ps @ [0]))) \<Longrightarrow>
    \<forall>i < length strs. holds byte_at m (ps ! i) (strs ! i @ [0]) \<Longrightarrow>
    \<forall>s \<in> set strs. 0 \<notin> set s \<and> int (length s) < CSTR_LIMIT \<Longrightarrow> stack_low m \<le> a \<Longrightarrow>
    read_ptrs k a out m = Inr (out @ strs)"
proof (induction strs arbitrary: k ps a out)
  case Nil
  have "read_u32 a m = Inr 0"
    by (rule read_u32_high [OF ok]) (use Nil in simp_all)
  then show ?case
    by (cases k) simp_all
next
  case (Cons s strs)
  obtain k' where k: "k = Suc k'" using Cons.prems(1) by (cases k) auto
  obtain p ps' where ps: "ps = p # ps'" using Cons.prems(2) by (cases ps) auto
  have p: "0 < p" "p < TASK_SIZE" using Cons.prems(3) ps by simp_all
  have h: "holds byte_at m a (pack32 p)" "holds byte_at m (a + 4) (concat (map pack32 (ps' @ [0])))"
    using Cons.prems(4) by (simp_all add: ps holds_append)
  have r: "read_u32 a m = Inr p"
    by (rule read_u32_high [OF ok h(1) Cons.prems(7)]) (use p in \<open>simp_all add: TASK_SIZE_def\<close>)
  have c: "read_cstr p CSTR_LIMIT m = Inr s"
    using Cons.prems(5,6) ps by (auto simp: read_cstr_iff)
  have "read_ptrs k' (a + 4) (out @ [s]) m = Inr ((out @ [s]) @ strs)"
  proof (rule Cons.IH [of k' ps'])
    show "\<forall>i < length strs. holds byte_at m (ps' ! i) (strs ! i @ [0])"
      using Cons.prems(5) ps by fastforce
  qed (use Cons.prems k ps h(2) in simp_all)
  with r c p show ?case by (simp add: k)
qed

lemma read_ptr_array_vector:
  assumes "mem_ok m" and "c_vector m a strs" and "stack_low m \<le> a" and "a \<noteq> 0"
    and "length strs \<le> 512" and "\<forall>s \<in> set strs. 0 \<notin> set s \<and> int (length s) < CSTR_LIMIT"
  shows "read_ptr_array a m = Inr strs"
proof -
  obtain ps where "length ps = length strs" "\<forall>p \<in> set ps. stack_low m \<le> p \<and> 0 < p \<and> p < TASK_SIZE"
    "holds byte_at m a (concat (map pack32 (ps @ [0])))"
    "\<forall>i < length strs. holds byte_at m (ps ! i) (strs ! i @ [0])"
    using assms(2) by (auto simp: c_vector_def)
  from read_ptrs_vector [OF assms(1,5) this assms(6,3), of "[]"] assms(4) show ?thesis
    by (simp add: read_ptr_array_def)
qed

definition passable :: "bytes list \<Rightarrow> bool" where
  "passable strs \<longleftrightarrow> length strs \<le> 512 \<and> (\<forall>s \<in> set strs. 0 \<notin> set s \<and> int (length s) < CSTR_LIMIT)"

lemma setup_stack_readable:
  assumes ok: "mem_ok m" and a: "area argv + area envp \<le> ARG_AREA"
    and low: "0 \<le> stack_low m" "stack_low m + 4 * (int (length argv) + int (length envp)) + 24 + ARG_AREA \<le> TASK_SIZE"
    and pass: "passable argv" "passable envp"
  shows "\<exists>sp m' av ev. setup_stack argv envp m = (Inr sp, m') \<and> mem_ok m' \<and> sp mod 4 = 0 \<and>
    read_u32 sp m' = Inr (int (length argv)) \<and>
    read_u32 (sp + 4) m' = Inr av \<and> read_ptr_array av m' = Inr argv \<and>
    read_u32 (sp + 8) m' = Inr ev \<and> read_ptr_array ev m' = Inr envp \<and>
    (\<forall>x b. byte_at m x = Some b \<and> x < sp \<longrightarrow> byte_at m' x = Some b)"
proof -
  let ?sp = "sp_of argv envp" and ?n = "int (length argv)"
  note top = stack_top_bounds [OF a]
  have n: "?n \<le> 512" "int (length envp) \<le> 512"
    using pass by (simp_all add: passable_def)
  have room: "stack_low m \<le> ?sp"
    using top(2) a low by (simp add: sp_of_def)
  from setup_stack_in_place [OF ok a room] obtain m' where
    m': "setup_stack argv envp m = (Inr ?sp, m')" "mem_ok m'" "stack_low m' = stack_low m"
    and at: "\<And>w d. (w, d) \<in> set (stack_plan argv envp) \<Longrightarrow> holds byte_at m' w d"
    and frame: "\<And>x b. byte_at m x = Some b \<Longrightarrow> x < ?sp \<Longrightarrow> byte_at m' x = Some b"
    by blast
  have "?sp = stack_top argv envp - 4 * (int (length envp) + ?n + 5)"
    by (simp add: sp_of_def)
  then have "?sp mod 4 = 0"
    using top(3) by presburger
  moreover have "0 < ?sp" "?sp + 20 + 4 * ?n \<le> TASK_SIZE" "stack_low m' \<le> ?sp"
    using room low top area_nonneg [of argv] area_nonneg [of envp] a m'(3)
    by (simp_all add: sp_of_def)
  ultimately have sp: "0 < ?sp" "?sp + 20 + 4 * ?n \<le> TASK_SIZE" "stack_low m' \<le> ?sp" "?sp mod 4 = 0"
    by simp_all
  have av: "c_vector m' (?sp + 12) argv"
  proof (rule c_vectorI [where p = "TASK_SIZE - area envp"])
    fix b d
    show "holds byte_at m' b d" if "(b, d) \<in> set (string_plan (rev argv) (TASK_SIZE - area envp))"
      by (rule at) (use that in \<open>simp add: stack_plan_def Let_def\<close>)
    show "holds byte_at m' b d" if "(b, d) \<in> set (word_plan (?sp + 12)
        (rev (map fst (string_plan (rev argv) (TASK_SIZE - area envp))) @ [0]))"
      by (rule at) (use that in \<open>simp add: stack_plan_def Let_def arg_addrs_def\<close>)
  qed (use a top room m'(3) area_nonneg [of argv] area_nonneg [of envp] in
      \<open>simp_all add: x86mem_consts sp_of_eq\<close>)
  have ev: "c_vector m' (?sp + 16 + 4 * ?n) envp"
  proof (rule c_vectorI [where p = TASK_SIZE])
    fix b d
    show "holds byte_at m' b d" if "(b, d) \<in> set (string_plan (rev envp) TASK_SIZE)"
      by (rule at) (use that in \<open>simp add: stack_plan_def Let_def\<close>)
    show "holds byte_at m' b d" if "(b, d) \<in> set (word_plan (?sp + 16 + 4 * ?n)
        (rev (map fst (string_plan (rev envp) TASK_SIZE)) @ [0]))"
      by (rule at) (use that in \<open>simp add: stack_plan_def Let_def env_addrs_def\<close>)
  qed (use a top room m'(3) area_nonneg [of argv] area_nonneg [of envp] in
      \<open>simp_all add: x86mem_consts sp_of_eq\<close>)
  have w: "read_u32 ?sp m' = Inr ?n" "read_u32 (?sp + 4) m' = Inr (?sp + 12)"
    "read_u32 (?sp + 8) m' = Inr (?sp + 16 + 4 * ?n)"
    by (rule read_u32_high [OF m'(2) at];
        use sp n in \<open>simp add: stack_plan_def Let_def TASK_SIZE_def\<close>)+
  have "read_ptr_array (?sp + 12) m' = Inr argv" "read_ptr_array (?sp + 16 + 4 * ?n) m' = Inr envp"
    using read_ptr_array_vector [OF m'(2) av] read_ptr_array_vector [OF m'(2) ev] sp pass
    by (simp_all add: passable_def)
  with m' w sp(4) frame show ?thesis
    by (intro exI [of _ ?sp] exI [of _ m'] exI [of _ "?sp + 12"] exI [of _ "?sp + 16 + 4 * ?n"]) simp
qed

end
