(* ===== verification/Kexec_Props.thy ===== *)
theory Kexec_Props
  imports Kexec_Stack Tiny_Overlay Cpu_State
begin

text \<open>
  The properties of the program loader: the memory image \<open>load_aout\<close> leaves, in terms of the
  bytes of the file, and the argument vectors a new program finds on its stack.
\<close>

section \<open>Loading\<close>

lemma holds_take: "holds at m a (xs @ ys) \<Longrightarrow> holds at m a xs"
  by (simp add: holds_append)

definition image_of :: "bytes \<Rightarrow> aout \<Rightarrow> bytes" where
  "image_of w h =
     (let n = nat (a_text h + a_data h); body = take n (drop 1024 w)
      in body @ replicate (n - length body) 0 @ replicate (nat (a_bss h)) 0)"

lemma AoutHeader_fields:
  "AoutHeader raw = Inr h \<Longrightarrow> 0 \<le> a_text h \<and> 0 \<le> a_data h \<and> 0 \<le> a_bss h"
  by (auto simp: AoutHeader_def u32_at_bounds split: if_splits)

lemma length_image_of:
  "0 \<le> a_text h \<Longrightarrow> 0 \<le> a_data h \<Longrightarrow> 0 \<le> a_bss h \<Longrightarrow>
   int (length (image_of w h)) = a_text h + a_data h + a_bss h"
  by (simp add: image_of_def Let_def)

lemma load_image:
  assumes ok: "mem_ok m" and room: "MAX_TOTAL \<le> stack_low m"
    and h: "AoutHeader raw = Inr h" "a_text h + a_data h + a_bss h \<le> MAX_TOTAL"
    and body: "body = take (nat (a_text h + a_data h)) (drop 1024 w)"
    and full: "full = body @ replicate (nat (a_text h + a_data h - int (length body))) 0"
    and m': "m' = load_program (take (nat (a_text h)) full) (drop (nat (a_text h)) full) (a_bss h) m"
  shows "mem_ok m' \<and> holds byte_at m' 0 (image_of w h) \<and>
    brk m' = a_text h + a_data h + a_bss h \<and> text_end m' = a_text h"
proof -
  have pos: "0 \<le> a_text h" "0 \<le> a_data h" "0 \<le> a_bss h"
    using AoutHeader_fields [OF h(1)] by simp_all
  have "length body \<le> nat (a_text h + a_data h)"
    by (simp add: body)
  then have short: "int (length body) \<le> a_text h + a_data h"
    using pos by simp
  have len: "int (length full) = a_text h + a_data h"
    using short by (simp add: full)
  have image: "full @ replicate (nat (a_bss h)) 0 = image_of w h"
  proof -
    have "nat (a_text h + a_data h - int (length body)) = nat (a_text h + a_data h) - length body"
      using short by (simp add: nat_diff_distrib)
    then show ?thesis
      by (simp only: full image_of_def Let_def append_assoc body [symmetric])
  qed
  have room': "int (length (take (nat (a_text h)) full) + length (drop (nat (a_text h)) full)) + a_bss h
      \<le> stack_low m"
    using len h(2) room pos by simp
  have "brk m' = a_text h + a_data h + a_bss h" "text_end m' = a_text h"
    using len pos by (simp_all add: m' load_program_def Let_def)
  with load_program_bytes [OF _ room' pos(3)] ok show ?thesis
    using image unfolding m' mem_ok_def by (metis append.assoc append_take_drop_id)
qed

text \<open>A loaded program: what the bytes \<open>w\<close> of the file say is in memory.\<close>

definition loaded :: "bytes \<Rightarrow> aout \<Rightarrow> 'e addrspace \<Rightarrow> bool" where
  "loaded w h m' \<longleftrightarrow> AoutHeader (take 32 w) = Inr h \<and> a_magic h = ZMAGIC \<and>
     a_trsize h = 0 \<and> a_drsize h = 0 \<and> mem_ok m' \<and> holds byte_at m' 0 (image_of w h) \<and>
     brk m' = a_text h + a_data h + a_bss h \<and> text_end m' = a_text h"

lemma validate_Inr:
  "aout_validate sz h = Inr u \<Longrightarrow> a_magic h = ZMAGIC \<and> a_trsize h = 0 \<and> a_drsize h = 0 \<and>
   a_text h + a_data h + a_bss h \<le> MAX_TOTAL"
  by (simp add: aout_validate_def split: if_splits)

lemma gives_liftR_eq: "gives I (liftR r) (\<lambda>x. r = Inr x)"
  by (simp add: gives_def liftR_def)

lemma sim_load_aout:
  assumes ok: "mem_ok m" and room: "MAX_TOTAL \<le> stack_low m"
  shows "gives (sim fs s) (load_aout m i)
    (\<lambda>((e, b), m'). \<exists>a. abs_fs s i = Some a \<and> S_ISREG (a_mode a) \<and> a_mode a AND 0x49 \<noteq> 0 \<and>
       (\<forall>w. a_bytes a = Inr w \<longrightarrow> (\<exists>h. loaded w h m' \<and> e = a_entry h \<and> b = brk m')))"
    (is "gives _ _ ?Q")
proof -
  define R where "R = (\<lambda>off n (bs :: bytes). \<exists>a. abs_fs s i = Some a \<and>
       (\<not> S_ISDIR (a_mode a) \<longrightarrow> (\<forall>w. a_bytes a = Inr w \<longrightarrow> bs = py_slice w off (off + n))))"
  have read: "gives (sim fs s) (vread i off n) (R off n)" if "0 \<le> off" "0 \<le> n" for off n
    using sim_vread [OF that, of fs s i] by (simp only: R_def)
  show ?thesis
    unfolding load_aout_def thenE_def
    apply (rule gives_bindE [OF sim_vn], intro gives_if gives_raise)
    apply (rule gives_bindE [OF read], simp, simp add: EXEC_HDR_def)
    apply (rule gives_bindE [OF gives_liftR_eq])
    apply (rule gives_bindE [OF sim_vn])
    apply (rule gives_bindE [OF gives_liftR_eq])
    apply (rule gives_bindE [OF read], simp add: N_TXTOFF_def)
     apply (drule AoutHeader_fields, simp)
    apply (unfold Let_def, rule gives_ret)
    subgoal for v raw h v' u body
    proof -
      assume v: "vnode_ok fs i v \<and> abs_fs s i = Some (anode_of fs v)"
        and reg: "\<not> \<not> v_is_regular v" and exe: "v_mode v AND 0x49 \<noteq> 0"
        and R: "R 0 EXEC_HDR raw" "R N_TXTOFF (a_text h + a_data h) body"
        and h: "AoutHeader raw = Inr h" and val: "aout_validate (vsize v') h = Inr u"
      note pos = AoutHeader_fields [OF h] and V = validate_Inr [OF val]
      have m: "S_ISREG (a_mode (anode_of fs v))" "a_mode (anode_of fs v) AND 0x49 \<noteq> 0"
        using reg exe by (simp_all add: v_is_regular_def)
      then have nd: "\<not> S_ISDIR (a_mode (anode_of fs v))"
        by (simp add: S_ISREG_def S_ISDIR_def)
      let ?full = "body @ replicate (nat (a_text h + a_data h - int (length body))) 0"
      let ?m = "load_program (take (nat (a_text h)) ?full) (drop (nat (a_text h)) ?full) (a_bss h) m"
      have "loaded w h ?m" if w: "a_bytes (anode_of fs v) = Inr w" for w
      proof -
        have raw: "raw = take 32 w"
          using R(1) v nd w by (auto simp: R_def py_slice_nonneg EXEC_HDR_def)
        have body: "body = take (nat (a_text h + a_data h)) (drop 1024 w)"
          using R(2) v nd w pos by (auto simp: R_def py_slice_nonneg N_TXTOFF_def)
        show ?thesis
          using load_image [OF ok room h _ body refl refl] V h by (simp add: loaded_def raw)
      qed
      with v m show ?thesis
        unfolding split_conv by blast
    qed
    done
qed

text \<open>C26. Loading: when \<open>load_aout\<close> returns, the file it read is an executable regular file whose
first 32 bytes are a ZMAGIC header without relocations, memory from address 0 holds the text
and the data of the file from offset 1024 on, zero-padded, followed by \<open>bss\<close> zeros, the break
is the sum of the three sizes, the entry point is the header's, and the file system is unchanged.\<close>

theorem program_image:
  assumes "ov_inv fs s" and "mem_ok m" and "MAX_TOTAL \<le> stack_low m"
    and "load_aout m i s = (Inr ((e, b), m'), s')"
    and "abs_fs s i = Some a" and "a_bytes a = Inr w"
  shows "\<exists>h. loaded w h m' \<and> e = a_entry h \<and> b = brk m' \<and>
    S_ISREG (a_mode a) \<and> a_mode a AND 0x49 \<noteq> 0 \<and> abs_fs s' = abs_fs s"
  using sim_load_aout [OF assms(2,3), of fs s i] sim_refl [OF assms(1)] assms(4-)
  by (fastforce simp: gives_def sim_def same_view_def)

text \<open>The smallest program: \<open>int 0x80\<close>, and four bytes of bss.\<close>

definition tiny_program :: bytes where
  "tiny_program = pack32 267 @ pack32 2 @ pack32 0 @ pack32 4 @ pack32 0 @ pack32 0 @ pack32 0 @
     pack32 0 @ replicate 992 0 @ [0xCD, 0x80]"

definition tiny_header :: aout where
  "tiny_header = \<lparr>a_magic = 267, a_text = 2, a_data = 0, a_bss = 4, a_syms = 0, a_entry = 0,
     a_trsize = 0, a_drsize = 0\<rparr>"

definition tiny_exe :: overlay where
  "tiny_exe = snd (upd 2 (\<lambda>v. v\<lparr>v_mode := 0x81ED, v_data := Some tiny_program\<rparr>) tiny_ov2)"

lemma tiny_exe_inv: "ov_inv tiny_fs tiny_exe"
  unfolding tiny_exe_def
  by (rule givesD [OF gives_upd tiny_ov2_inv]) (simp_all add: vnode_ok_def)

lemma tiny_exe_node: "map_of (vnodes tiny_exe) 2 =
    Some ((VInode 2 0x81ED 0 0 1 0 0 3 (Some tiny_file))\<lparr>v_data := Some tiny_program\<rparr>)"
  by (simp add: tiny_exe_def upd_result tiny_ov2_def tiny_nodes VInode_def)

lemma tiny_program_parts:
  "length tiny_program = 1026" "AoutHeader (take 32 tiny_program) = Inr tiny_header"
  "drop 1024 tiny_program = [0xCD, 0x80]"
  by (simp_all add: tiny_program_def AoutHeader_def u32_at_def le32_def pack32_def EXEC_HDR_def
      tiny_header_def)

definition fresh_space :: "insn addrspace" where
  "fresh_space = AddressSpace_init DEFAULT_STACK"

lemma fresh_space_ok: "mem_ok fresh_space" "stack_low fresh_space = 66584576"
  using as_wf_init [of DEFAULT_STACK]
  by (simp_all add: fresh_space_def mem_ok_def x86mem_consts)
    (simp add: AddressSpace_init_def Let_def round_page_div x86mem_consts)

lemma four_zeros: "replicate 4 (0 :: byte) = [0, 0, 0, 0]"
  by (simp add: numeral_eq_Suc)

lemma tiny_image: "image_of tiny_program tiny_header = [0xCD, 0x80, 0, 0, 0, 0]"
  unfolding image_of_def Let_def tiny_program_parts(3)
  by (simp add: tiny_header_def four_zeros)

lemma tiny_load:
  "\<exists>m' s'. load_aout fresh_space 2 tiny_exe = (Inr ((0, 6), m'), s')"
proof -
  have b: "take 2 (drop 1024 tiny_program) = [0xCD, 0x80]"
    unfolding tiny_program_parts(3) by simp
  show ?thesis
    by (simp add: load_aout_def vread_def run_simps tiny_exe_node VInode_def v_is_regular_def
        v_is_dir_def type_simps py_slice_nonneg EXEC_HDR_def tiny_program_parts(1,2) aout_validate_def
        tiny_header_def ZMAGIC_def MAX_TOTAL_def vsize_def N_TXTOFF_def b load_program_def)
qed

theorem program_image_witness:
  "\<exists>m' s'. load_aout fresh_space 2 tiny_exe = (Inr ((0, 6), m'), s') \<and>
    holds byte_at m' 0 [0xCD, 0x80, 0, 0, 0, 0]"
proof -
  obtain m' s' where l: "load_aout fresh_space 2 tiny_exe = (Inr ((0, 6), m'), s')"
    using tiny_load by blast
  let ?v = "(VInode 2 0x81ED 0 0 1 0 0 3 (Some tiny_file))\<lparr>v_data := Some tiny_program\<rparr>"
  have a: "abs_fs tiny_exe 2 = Some (anode_of (base_fs tiny_exe) ?v)"
    by (rule abs_fs_present [OF tiny_exe_node])
  have w: "a_bytes (anode_of (base_fs tiny_exe) ?v) = Inr tiny_program"
    by (simp add: anode_of_def file_bytes_def VInode_def v_is_dir_def type_simps)
  obtain h where h: "loaded tiny_program h m'"
    using program_image [OF tiny_exe_inv fresh_space_ok(1) _ l a w]
    by (auto simp: fresh_space_ok MAX_TOTAL_def)
  then have "h = tiny_header"
    by (simp add: loaded_def tiny_program_parts)
  with h have "holds byte_at m' 0 [0xCD, 0x80, 0, 0, 0, 0]"
    by (simp add: loaded_def tiny_image)
  with l show ?thesis by blast
qed

section \<open>The argument vectors\<close>

text \<open>C25. The stack of a new program: with room for the strings and the pointers, \<open>setup_stack\<close>
returns an aligned stack pointer at which the program finds its argument count and two vectors,
and the kernel reading those vectors back gives exactly the arguments and the environment that
went in; nothing below the stack pointer has changed. This is what lets \<open>execve\<close> pass its
caller's vectors on unchanged.\<close>

theorem exec_args_roundtrip:
  assumes "mem_ok m" and "area argv + area envp \<le> ARG_AREA"
    and "0 \<le> stack_low m" and "stack_low m + 4 * (int (length argv) + int (length envp)) + 24 + ARG_AREA \<le> TASK_SIZE"
    and "passable argv" and "passable envp"
  shows "\<exists>sp m' av ev. setup_stack argv envp m = (Inr sp, m') \<and> mem_ok m' \<and> sp mod 4 = 0 \<and>
    read_u32 sp m' = Inr (int (length argv)) \<and>
    read_u32 (sp + 4) m' = Inr av \<and> read_ptr_array av m' = Inr argv \<and>
    read_u32 (sp + 8) m' = Inr ev \<and> read_ptr_array ev m' = Inr envp \<and>
    (\<forall>x b. byte_at m x = Some b \<and> x < sp \<longrightarrow> byte_at m' x = Some b)"
  by (rule setup_stack_readable [OF assms])

theorem exec_args_roundtrip_witness:
  "\<exists>sp m' av ev. setup_stack [[115, 104], [45, 99]] [[65, 61, 49]] fresh_space = (Inr sp, m') \<and>
    read_u32 sp m' = Inr 2 \<and>
    read_u32 (sp + 4) m' = Inr av \<and> read_ptr_array av m' = Inr [[115, 104], [45, 99]] \<and>
    read_u32 (sp + 8) m' = Inr ev \<and> read_ptr_array ev m' = Inr [[65, 61, 49]]"
proof -
  have "\<exists>sp m' av ev. setup_stack [[115, 104], [45, 99]] [[65, 61, 49]] fresh_space = (Inr sp, m') \<and>
    mem_ok m' \<and> sp mod 4 = 0 \<and>
    read_u32 sp m' = Inr (int (length [[115, 104 :: byte], [45, 99]])) \<and>
    read_u32 (sp + 4) m' = Inr av \<and> read_ptr_array av m' = Inr [[115, 104], [45, 99]] \<and>
    read_u32 (sp + 8) m' = Inr ev \<and> read_ptr_array ev m' = Inr [[65, 61, 49]] \<and>
    (\<forall>x b. byte_at fresh_space x = Some b \<and> x < sp \<longrightarrow> byte_at m' x = Some b)"
    by (rule exec_args_roundtrip [OF fresh_space_ok(1)])
      (simp_all add: fresh_space_ok passable_def CSTR_LIMIT_def x86mem_consts)
  then show ?thesis by auto
qed

text \<open>
  A script whose first line is \<open>#!\<close> and a non-breaking space: \<open>bytes.strip\<close> leaves the
  character, \<open>str.split\<close> finds no word, and \<open>parts[0]\<close> raises \<open>IndexError\<close>, which no caller
  turns into an error number.
\<close>

lemma shebang_raises: "parse_shebang [35, 33, 0xA0, 10] = Inl IndexError"
  by (simp add: parse_shebang_def strip_by_def byte_space_def text_space_def Let_def)

end
