(* ===== verification/Kernel_State.thy ===== *)
theory Kernel_State
  imports Ktty Ksyscall Cpu_Decode
begin

text \<open>
  The state of \<open>kernel.py\<close>: open files, processes, the kernel itself, and the views through
  which its methods reach the file system, the terminal, a process and its memory.

  The objects the Python code shares are named: an open file and a pipe by a number in a
  heap of the kernel, an inode by its inode number, a process by its pid. The process table
  is a dictionary, modelled as an association list in insertion order. The attribute \<open>mem\<close>
  of a process is the address space of its CPU (they are one object, and a process without
  a CPU never uses its own). Wall-clock times (\<open>wall\<close>) are not modelled; \<open>time.time()\<close> is a
  sequence of readings in microseconds.
\<close>

section \<open>Constants\<close>

definition ESRCH :: int where "ESRCH = 3"
definition EINTR :: int where "EINTR = 4"
definition ENXIO :: int where "ENXIO = 6"
definition EBADF :: int where "EBADF = 9"
definition ECHILD :: int where "ECHILD = 10"
definition EFAULT :: int where "EFAULT = 14"
definition EMFILE :: int where "EMFILE = 24"
definition ENOTTY :: int where "ENOTTY = 25"
definition ESPIPE :: int where "ESPIPE = 29"
definition ENOSYS :: int where "ENOSYS = 38"

definition O_WRONLY :: int where "O_WRONLY = 1"
definition O_ACCMODE :: int where "O_ACCMODE = 3"
definition O_CREAT :: int where "O_CREAT = 0x40"
definition O_EXCL :: int where "O_EXCL = 0x80"
definition O_TRUNC :: int where "O_TRUNC = 0x200"
definition O_APPEND :: int where "O_APPEND = 0x400"
definition O_NONBLOCK :: int where "O_NONBLOCK = 0x800"

definition TRACE_DEFAULT :: int where "TRACE_DEFAULT = 200"
definition PERF_HISTORY :: nat where "PERF_HISTORY = 200"
definition NR_OPEN :: int where "NR_OPEN = 20"
definition HZ :: int where "HZ = 100"
definition TIMESLICE :: int where "TIMESLICE = 100000"

datatype pstate = RUNNING | SLEEPING | ZOMBIE | STOPPED

definition SIGINT :: int where "SIGINT = 2"
definition SIGKILL :: int where "SIGKILL = 9"
definition SIGALRM :: int where "SIGALRM = 14"
definition SIGCHLD :: int where "SIGCHLD = 17"
definition SIGCONT :: int where "SIGCONT = 18"
definition SIGSTOP :: int where "SIGSTOP = 19"
definition SIGTSTP :: int where "SIGTSTP = 20"
definition SIGTTIN :: int where "SIGTTIN = 21"
definition SIGTTOU :: int where "SIGTTOU = 22"

definition SA_NOMASK :: int where "SA_NOMASK = 0x40000000"
definition SA_ONESHOT :: int where "SA_ONESHOT = 0x80000000"

definition IGNORED_BY_DEFAULT :: "int list" where "IGNORED_BY_DEFAULT = [SIGCHLD, SIGCONT]"
definition STOP_SIGNALS :: "int list" where "STOP_SIGNALS = [SIGSTOP, SIGTSTP, SIGTTIN, SIGTTOU]"

definition MAGIC_SIGRETURN :: int where "MAGIC_SIGRETURN = 0xFFFF0000"

lemmas signal_numbers = SIGINT_def SIGKILL_def SIGALRM_def SIGCHLD_def SIGCONT_def SIGSTOP_def
  SIGTSTP_def SIGTTIN_def SIGTTOU_def

section \<open>Open files and processes\<close>

datatype obj = ONode int | OPipe nat | OTerminal | ONull

record open_file =
  f_obj :: obj
  f_flags :: int
  f_pos :: int
  f_refs :: int

definition OpenFile :: "obj \<Rightarrow> int \<Rightarrow> open_file" where
  "OpenFile ob fl = \<lparr>f_obj = ob, f_flags = fl, f_pos = 0, f_refs = 1\<rparr>"

definition f_writable :: "open_file \<Rightarrow> bool" where
  "f_writable f \<longleftrightarrow> f_flags f AND O_ACCMODE \<in> {1, 2}"

definition f_readable :: "open_file \<Rightarrow> bool" where
  "f_readable f \<longleftrightarrow> f_flags f AND O_ACCMODE \<in> {0, 2}"

type_synonym sigaction = "int \<times> int \<times> int \<times> int"

text \<open>
  \<open>p_prof\<close> is the profiler of the process while its CPU holds none; a CPU that is being
  profiled holds the process's profiler.
\<close>

record proc =
  p_pid :: int
  p_ppid :: int
  p_pgrp :: int
  p_session :: int
  p_leader :: bool
  p_state :: pstate
  p_cpu :: "cpu option"
  p_fds :: "nat option list"
  p_close_on_exec :: int
  p_cwd :: "int option"
  p_root :: "int option"
  p_umask :: int
  p_uid :: int
  p_euid :: int
  p_suid :: int
  p_gid :: int
  p_egid :: int
  p_sgid :: int
  p_signal :: int
  p_blocked :: int
  p_sigactions :: "sigaction list"
  p_exit_code :: int
  p_channel :: "channel option"
  p_alarm_at :: int
  p_utime :: int
  p_stime :: int
  p_cutime :: int
  p_cstime :: int
  p_name :: string
  p_restart :: bool
  p_sigframes :: "bool list"
  p_kernel_task :: bool
  p_counts :: "(int \<times> int) list"
  p_prof :: "profiler option"

definition Process :: "int \<Rightarrow> proc" where
  "Process pid = \<lparr>p_pid = pid, p_ppid = 0, p_pgrp = pid, p_session = pid, p_leader = False,
     p_state = RUNNING, p_cpu = None, p_fds = replicate (nat NR_OPEN) None, p_close_on_exec = 0,
     p_cwd = None, p_root = None, p_umask = 0x12, p_uid = 0, p_euid = 0, p_suid = 0,
     p_gid = 0, p_egid = 0, p_sgid = 0, p_signal = 0, p_blocked = 0,
     p_sigactions = replicate 33 (0, 0, 0, 0), p_exit_code = 0, p_channel = None, p_alarm_at = 0,
     p_utime = 0, p_stime = 0, p_cutime = 0, p_cstime = 0, p_name = [], p_restart = False,
     p_sigframes = [], p_kernel_task = False, p_counts = [], p_prof = None\<rparr>"

definition counter_total :: "(int \<times> int) list \<Rightarrow> int" where
  "counter_total c = sum_list (map snd c)"

definition counter_add :: "int \<Rightarrow> (int \<times> int) list \<Rightarrow> (int \<times> int) list" where
  "counter_add key c = AList.update key ((case map_of c key of None \<Rightarrow> 0 | Some n \<Rightarrow> n) + 1) c"

record proc_perf =
  pp_pid :: int
  pp_ppid :: int
  pp_name :: string
  pp_icount :: int
  pp_counts :: "(int \<times> int) list"
  pp_prof :: "profiler option"
  pp_exit_code :: int

definition prof_of :: "proc \<Rightarrow> profiler option" where
  "prof_of p = (case p_cpu p of
     None \<Rightarrow> p_prof p
   | Some c \<Rightarrow> (case prof c of Some q \<Rightarrow> Some q | None \<Rightarrow> p_prof p))"

definition ProcPerf :: "proc \<Rightarrow> proc_perf" where
  "ProcPerf p = \<lparr>pp_pid = p_pid p, pp_ppid = p_ppid p, pp_name = p_name p, pp_icount = p_utime p,
     pp_counts = p_counts p, pp_prof = prof_of p, pp_exit_code = p_exit_code p\<rparr>"

section \<open>The kernel\<close>

text \<open>
  \<open>k_gone\<close> is the object that \<open>current\<close> still refers to when that process has been reaped.
\<close>

datatype init_state = InitDone | InitRc | WaitRc | InitShell | WaitShell

datatype stop_reason =
    StopHalted int
  | StopExited int int
  | StopExecve int
  | StopSigreturn int
  | StopBlocked int channel
  | StopStep int
  | StopUntil int int
  | StopBreak int int

record kernel =
  k_fs :: overlay
  k_tty :: "tty option"
  k_on_escape :: bool
  k_procs :: "(int \<times> proc) list"
  k_next_pid :: int
  k_jiffies :: int
  k_time_offset :: int
  k_hostname :: bytes
  k_current :: "int option"
  k_exit_status :: int
  k_runq :: "int list"
  k_init_proc :: "int option"
  k_init_state :: init_state
  k_init_child :: int
  k_quit :: bool
  k_monitor_pending :: bool
  k_counts :: "(int \<times> int) list"
  k_trace_capacity :: int
  k_recent :: "(int \<times> int \<times> int \<times> int \<times> int \<times> int) list"
  k_profiling :: bool
  k_history :: "proc_perf list"
  k_gone :: "proc option"
  k_breakpoints :: "int list"
  k_temp_breakpoints :: "int list"
  k_step_request :: int
  k_debug_stop :: "stop_reason option"
  k_debug_target :: "int option"
  k_files :: "nat \<rightharpoonup> open_file"
  k_next_file :: nat
  k_pipes :: "nat \<rightharpoonup> pipe"
  k_next_pipe :: nat
  k_clock :: "nat \<Rightarrow> int"
  k_ticks :: nat

definition Kernel_init :: "overlay \<Rightarrow> tty option \<Rightarrow> bool \<Rightarrow> (nat \<Rightarrow> int) \<Rightarrow> kernel" where
  "Kernel_init fs tm esc clk = \<lparr>k_fs = fs, k_tty = tm, k_on_escape = esc, k_procs = [],
     k_next_pid = 1, k_jiffies = 0, k_time_offset = 0, k_hostname = encode_name ''(none)'',
     k_current = None, k_exit_status = 0, k_runq = [], k_init_proc = None,
     k_init_state = InitDone, k_init_child = 0, k_quit = False, k_monitor_pending = False,
     k_counts = [], k_trace_capacity = TRACE_DEFAULT, k_recent = [], k_profiling = False,
     k_history = [], k_gone = None, k_breakpoints = [], k_temp_breakpoints = [], k_step_request = 0,
     k_debug_stop = None, k_debug_target = None, k_files = Map.empty, k_next_file = 0,
     k_pipes = Map.empty, k_next_pipe = 0, k_clock = clk, k_ticks = 0\<rparr>"

type_synonym 'a km = "(kernel, 'a) sm"

section \<open>Views\<close>

text \<open>An operation on the overlay, and one that stamps the time.\<close>

definition in_fs :: "(overlay, 'a) sm \<Rightarrow> 'a km" where
  "in_fs m k = (case m (k_fs k) of (r, fs) \<Rightarrow> (r, k\<lparr>k_fs := fs\<rparr>))"

definition host_time :: "int km" where
  "host_time k = (Inr (k_clock k (k_ticks k)), k\<lparr>k_ticks := k_ticks k + 1\<rparr>)"

definition stamped :: "(int \<Rightarrow> (overlay, 'a) sm) \<Rightarrow> 'a km" where
  "stamped f = bindE host_time (\<lambda>t. in_fs (f (t div 1000000)))"

text \<open>A process by pid.\<close>

definition gp :: "int \<Rightarrow> proc km" where
  "gp pid k = (case map_of (k_procs k) pid of Some p \<Rightarrow> (Inr p, k) | None \<Rightarrow> (Inl KeyError, k))"

definition up :: "int \<Rightarrow> (proc \<Rightarrow> proc) \<Rightarrow> unit km" where
  "up pid f = modify (\<lambda>k. k\<lparr>k_procs := AList.map_entry pid f (k_procs k)\<rparr>)"

text \<open>Its CPU and its memory; a process without a CPU has neither.\<close>

definition get_cpu :: "int \<Rightarrow> cpu km" where
  "get_cpu pid = bindE (gp pid) (\<lambda>p. case p_cpu p of Some c \<Rightarrow> ret c | None \<Rightarrow> raise AttributeError)"

definition set_cpu :: "int \<Rightarrow> cpu \<Rightarrow> unit km" where
  "set_cpu pid c = up pid (\<lambda>p. p\<lparr>p_cpu := Some c\<rparr>)"

definition on_cpu :: "int \<Rightarrow> (unit, 'a) cm \<Rightarrow> 'a km" where
  "on_cpu pid m = bindE (get_cpu pid) (\<lambda>c. case m c of (r, c') \<Rightarrow> thenE (set_cpu pid c') (liftR r))"

definition on_user :: "int \<Rightarrow> (insn addrspace, 'a) sm \<Rightarrow> 'a km" where
  "on_user pid m = on_cpu pid (on_mem m)"

definition from_user :: "int \<Rightarrow> (insn addrspace \<Rightarrow> exn + 'a) \<Rightarrow> 'a km" where
  "from_user pid f = bindE (get_cpu pid) (\<lambda>c. liftR (f (mem c)))"

text \<open>An open file and a pipe of the heaps.\<close>

definition gf :: "nat \<Rightarrow> open_file km" where
  "gf i k = (case k_files k i of Some f \<Rightarrow> (Inr f, k) | None \<Rightarrow> (Inl KeyError, k))"

definition uf :: "nat \<Rightarrow> (open_file \<Rightarrow> open_file) \<Rightarrow> unit km" where
  "uf i g = modify (\<lambda>k. k\<lparr>k_files := (k_files k)(i := map_option g (k_files k i))\<rparr>)"

definition new_file :: "open_file \<Rightarrow> nat km" where
  "new_file f k = (Inr (k_next_file k),
     k\<lparr>k_files := (k_files k)(k_next_file k \<mapsto> f), k_next_file := k_next_file k + 1\<rparr>)"

definition new_pipe :: "pipe \<Rightarrow> nat km" where
  "new_pipe q k = (Inr (k_next_pipe k),
     k\<lparr>k_pipes := (k_pipes k)(k_next_pipe k \<mapsto> q), k_next_pipe := k_next_pipe k + 1\<rparr>)"

definition in_pipe :: "nat \<Rightarrow> (pipe, 'a) sm \<Rightarrow> 'a km" where
  "in_pipe i m k = (case k_pipes k i of
     None \<Rightarrow> (Inl KeyError, k)
   | Some q \<Rightarrow> (case m q of (r, q') \<Rightarrow> (r, k\<lparr>k_pipes := (k_pipes k)(i \<mapsto> q')\<rparr>)))"

text \<open>
  The terminal: its operations run on the terminal extended by the kernel, so that a
  callback may change both. \<open>in_tty\<close> enters, \<open>out_tty\<close> is a kernel operation seen from inside.
\<close>

definition leave_tty :: "kernel tty_scheme \<Rightarrow> kernel" where
  "leave_tty t = (tty.more t)\<lparr>k_tty := Some (tty.truncate t)\<rparr>"

definition in_tty :: "(kernel, 'a) tm \<Rightarrow> 'a km" where
  "in_tty m k = (case k_tty k of
     None \<Rightarrow> (Inl AttributeError, k)
   | Some t \<Rightarrow> (case m (tty.extend t k) of (r, t') \<Rightarrow> (r, leave_tty t')))"

definition out_tty :: "'a km \<Rightarrow> (kernel, 'a) tm" where
  "out_tty m t = (case m (leave_tty t) of
     (r, k) \<Rightarrow> (r, case k_tty k of Some t' \<Rightarrow> tty.extend t' k | None \<Rightarrow> tty.extend (tty.truncate t) k))"

text \<open>\<open>try\<close> ... \<open>except\<close>.\<close>

definition catchE :: "('s, 'a) sm \<Rightarrow> (exn \<Rightarrow> ('s, 'a) sm) \<Rightarrow> ('s, 'a) sm" where
  "catchE m h s = (case m s of (Inl e, t) \<Rightarrow> h e t | (Inr x, t) \<Rightarrow> (Inr x, t))"

text \<open>A bounded \<open>deque\<close>: the last \<open>n\<close> entries.\<close>

definition bounded :: "nat \<Rightarrow> 'a list \<Rightarrow> 'a list" where
  "bounded n xs = drop (length xs - n) xs"

fun for_each :: "('a \<Rightarrow> ('s, unit) sm) \<Rightarrow> 'a list \<Rightarrow> ('s, unit) sm" where
  "for_each f [] = ret ()"
| "for_each f (x # xs) = thenE (f x) (for_each f xs)"

end
