(* ===== verification/Kernel_Calls.thy ===== *)
theory Kernel_Calls
  imports Kernel_State
begin

text \<open>
  The system calls of \<open>kernel.py\<close> on one process, its descriptors, files and pipes. Each is
  the method of its name; the process is passed as its pid, the three arguments as the
  register values the dispatcher reads. A handler returns the value for \<open>eax\<close> (negative for
  an error number it returns itself) or raises.
\<close>

section \<open>Memory and path helpers\<close>

definition k_cstr :: "int \<Rightarrow> int \<Rightarrow> string km" where
  "k_cstr p addr = from_user p (user_cstr addr)"

definition k_walk :: "int \<Rightarrow> string \<Rightarrow> int km" where
  "k_walk p path = bindE (gp p) (\<lambda>q. in_fs (walk path (p_cwd q) (p_root q)))"

definition walk_arg :: "int \<Rightarrow> int \<Rightarrow> int km" where
  "walk_arg p addr = bindE (k_cstr p addr) (k_walk p)"

definition node :: "int \<Rightarrow> vinode km" where
  "node i = in_fs (vn i)"

definition w32 :: "int \<Rightarrow> int \<Rightarrow> int \<Rightarrow> unit km" where
  "w32 p addr v = on_user p (write_u32 addr v)"

definition r32 :: "int \<Rightarrow> int \<Rightarrow> int km" where
  "r32 p addr = from_user p (read_u32 addr)"

section \<open>Identity\<close>

definition sys_setup :: "int \<Rightarrow> int \<Rightarrow> int \<Rightarrow> int \<Rightarrow> int km" where
  "sys_setup p a b c = ret 0"

definition sys_exit :: "int \<Rightarrow> int \<Rightarrow> int \<Rightarrow> int \<Rightarrow> int km" where
  "sys_exit p code b c = raise (Exited (push_bit 8 (code AND 0xFF)))"

definition sys_getpid :: "int \<Rightarrow> int \<Rightarrow> int \<Rightarrow> int \<Rightarrow> int km" where
  "sys_getpid p a b c = bindE (gp p) (\<lambda>q. ret (p_pid q))"

definition sys_getppid :: "int \<Rightarrow> int \<Rightarrow> int \<Rightarrow> int \<Rightarrow> int km" where
  "sys_getppid p a b c = bindE (gp p) (\<lambda>q. ret (p_ppid q))"

definition sys_getpgrp :: "int \<Rightarrow> int \<Rightarrow> int \<Rightarrow> int \<Rightarrow> int km" where
  "sys_getpgrp p a b c = bindE (gp p) (\<lambda>q. ret (p_pgrp q))"

definition sys_getuid :: "int \<Rightarrow> int \<Rightarrow> int \<Rightarrow> int \<Rightarrow> int km" where
  "sys_getuid p a b c = bindE (gp p) (\<lambda>q. ret (p_uid q))"

definition sys_geteuid :: "int \<Rightarrow> int \<Rightarrow> int \<Rightarrow> int \<Rightarrow> int km" where
  "sys_geteuid p a b c = bindE (gp p) (\<lambda>q. ret (p_euid q))"

definition sys_getgid :: "int \<Rightarrow> int \<Rightarrow> int \<Rightarrow> int \<Rightarrow> int km" where
  "sys_getgid p a b c = bindE (gp p) (\<lambda>q. ret (p_gid q))"

definition sys_getegid :: "int \<Rightarrow> int \<Rightarrow> int \<Rightarrow> int \<Rightarrow> int km" where
  "sys_getegid p a b c = bindE (gp p) (\<lambda>q. ret (p_egid q))"

definition sys_setuid :: "int \<Rightarrow> int \<Rightarrow> int \<Rightarrow> int \<Rightarrow> int km" where
  "sys_setuid p uid b c =
     bindE (gp p) (\<lambda>q.
     if p_euid q \<noteq> 0 \<and> uid \<notin> {p_uid q, p_suid q} then ret (- EPERM)
     else thenE (if p_euid q = 0 then up p (\<lambda>q. q\<lparr>p_uid := uid, p_suid := uid\<rparr>) else ret ())
       (thenE (up p (\<lambda>q. q\<lparr>p_euid := uid\<rparr>)) (ret 0)))"

definition sys_setgid :: "int \<Rightarrow> int \<Rightarrow> int \<Rightarrow> int \<Rightarrow> int km" where
  "sys_setgid p gid b c =
     bindE (gp p) (\<lambda>q.
     if p_egid q \<noteq> 0 \<and> gid \<notin> {p_gid q, p_sgid q} then ret (- EPERM)
     else thenE (if p_egid q = 0 then up p (\<lambda>q. q\<lparr>p_gid := gid, p_sgid := gid\<rparr>) else ret ())
       (thenE (up p (\<lambda>q. q\<lparr>p_egid := gid\<rparr>)) (ret 0)))"

definition sys_setreuid :: "int \<Rightarrow> int \<Rightarrow> int \<Rightarrow> int \<Rightarrow> int km" where
  "sys_setreuid p ruid euid c =
     bindE (if ruid \<noteq> 0xFFFFFFFF then sys_setuid p ruid 0 0 else ret 0) (\<lambda>r.
     if r < 0 then ret r
     else thenE (if euid \<noteq> 0xFFFFFFFF then up p (\<lambda>q. q\<lparr>p_euid := euid\<rparr>) else ret ()) (ret 0))"

definition sys_setregid :: "int \<Rightarrow> int \<Rightarrow> int \<Rightarrow> int \<Rightarrow> int km" where
  "sys_setregid p rgid egid c =
     bindE (if rgid \<noteq> 0xFFFFFFFF then sys_setgid p rgid 0 0 else ret 0) (\<lambda>r.
     if r < 0 then ret r
     else thenE (if egid \<noteq> 0xFFFFFFFF then up p (\<lambda>q. q\<lparr>p_egid := egid\<rparr>) else ret ()) (ret 0))"

definition sys_umask :: "int \<Rightarrow> int \<Rightarrow> int \<Rightarrow> int \<Rightarrow> int km" where
  "sys_umask p m b c =
     bindE (gp p) (\<lambda>q. thenE (up p (\<lambda>q. q\<lparr>p_umask := m AND 0x1FF\<rparr>)) (ret (p_umask q)))"

definition sys_nice :: "int \<Rightarrow> int \<Rightarrow> int \<Rightarrow> int \<Rightarrow> int km" where
  "sys_nice p inc b c = ret 0"

definition sys_getgroups :: "int \<Rightarrow> int \<Rightarrow> int \<Rightarrow> int \<Rightarrow> int km" where
  "sys_getgroups p sz listp c = ret 0"

section \<open>Time\<close>

definition now :: "int km" where
  "now = bindE host_time (\<lambda>t. bindE (gets k_time_offset) (\<lambda>off. ret (t div 1000000 + off)))"

definition sys_time :: "int \<Rightarrow> int \<Rightarrow> int \<Rightarrow> int \<Rightarrow> int km" where
  "sys_time p tloc b c =
     bindE now (\<lambda>t. thenE (if tloc \<noteq> 0 then w32 p tloc t else ret ()) (ret t))"

definition sys_stime :: "int \<Rightarrow> int \<Rightarrow> int \<Rightarrow> int \<Rightarrow> int km" where
  "sys_stime p tptr b c =
     bindE (gp p) (\<lambda>q.
     if p_euid q \<noteq> 0 then ret (- EPERM)
     else bindE (r32 p tptr) (\<lambda>v. bindE host_time (\<lambda>t.
       thenE (modify (\<lambda>k. k\<lparr>k_time_offset := v - t div 1000000\<rparr>)) (ret 0))))"

text \<open>The fraction of a second is exact here; the code takes it from a floating point number.\<close>

definition sys_gettimeofday :: "int \<Rightarrow> int \<Rightarrow> int \<Rightarrow> int \<Rightarrow> int km" where
  "sys_gettimeofday p tv tz c =
     thenE (if tv \<noteq> 0 then
              bindE host_time (\<lambda>t. bindE (gets k_time_offset) (\<lambda>off.
                let t = t + off * 1000000 in
                thenE (w32 p tv (t div 1000000)) (w32 p (tv + 4) (t mod 1000000))))
            else ret ())
     (thenE (if tz \<noteq> 0 then thenE (w32 p tz 0) (w32 p (tz + 4) 0) else ret ()) (ret 0))"

definition sys_times :: "int \<Rightarrow> int \<Rightarrow> int \<Rightarrow> int \<Rightarrow> int km" where
  "sys_times p buf b c =
     bindE (gp p) (\<lambda>q.
     thenE (if buf \<noteq> 0 then
              thenE (w32 p buf (p_utime q)) (thenE (w32 p (buf + 4) (p_stime q))
              (thenE (w32 p (buf + 8) (p_cutime q)) (w32 p (buf + 12) (p_cstime q))))
            else ret ())
     (gets k_jiffies))"

text \<open>\<open>UTSNAME_FIELDS\<close>, each padded to or cut at nine bytes.\<close>

definition uts_fields :: "string list" where
  "uts_fields = [''Linux'', ''(none)'', ''0.11'', ''0.11'', ''i386'']"

definition sys_uname :: "int \<Rightarrow> int \<Rightarrow> int \<Rightarrow> int \<Rightarrow> int km" where
  "sys_uname p buf b c =
     (if buf = 0 then ret (- EINVAL)
      else thenE (for_each (\<lambda>(i, f). on_user p (mem_write (buf + int i * 9) (pack_s 9 (encode_name f))))
                   (enumerate 0 uts_fields)) (ret 0))"

definition sys_sethostname :: "int \<Rightarrow> int \<Rightarrow> int \<Rightarrow> int \<Rightarrow> int km" where
  "sys_sethostname p name len c =
     bindE (gp p) (\<lambda>q.
     if p_euid q \<noteq> 0 then ret (- EPERM)
     else bindE (from_user p (mem_read name len)) (\<lambda>h.
       thenE (modify (\<lambda>k. k\<lparr>k_hostname := h\<rparr>)) (ret 0)))"

definition sys_sync :: "int \<Rightarrow> int \<Rightarrow> int \<Rightarrow> int \<Rightarrow> int km" where
  "sys_sync p a b c = ret 0"

definition sys_mount :: "int \<Rightarrow> int \<Rightarrow> int \<Rightarrow> int \<Rightarrow> int km" where
  "sys_mount p dev dirname rw = ret (- EPERM)"

definition sys_umount :: "int \<Rightarrow> int \<Rightarrow> int \<Rightarrow> int \<Rightarrow> int km" where
  "sys_umount p dev b c = ret (- EPERM)"

definition sys_ulimit :: "int \<Rightarrow> int \<Rightarrow> int \<Rightarrow> int \<Rightarrow> int km" where
  "sys_ulimit p cmd lim c = ret (- ENOSYS)"

definition sys_getrlimit :: "int \<Rightarrow> int \<Rightarrow> int \<Rightarrow> int \<Rightarrow> int km" where
  "sys_getrlimit p res rlim c =
     thenE (if rlim \<noteq> 0 then thenE (w32 p rlim 0x7FFFFFFF) (w32 p (rlim + 4) 0x7FFFFFFF) else ret ())
       (ret 0)"

definition sys_setrlimit :: "int \<Rightarrow> int \<Rightarrow> int \<Rightarrow> int \<Rightarrow> int km" where
  "sys_setrlimit p res rlim c = ret 0"

definition sys_brk :: "int \<Rightarrow> int \<Rightarrow> int \<Rightarrow> int \<Rightarrow> int km" where
  "sys_brk p addr b c = on_user p (set_brk addr)"

section \<open>Paths and metadata\<close>

definition sys_chdir :: "int \<Rightarrow> int \<Rightarrow> int \<Rightarrow> int \<Rightarrow> int km" where
  "sys_chdir p path b c =
     bindE (walk_arg p path) (\<lambda>i. bindE (node i) (\<lambda>v.
     if \<not> v_is_dir v then ret (- ENOTDIR)
     else thenE (up p (\<lambda>q. q\<lparr>p_cwd := Some i\<rparr>)) (ret 0)))"

definition sys_chroot :: "int \<Rightarrow> int \<Rightarrow> int \<Rightarrow> int \<Rightarrow> int km" where
  "sys_chroot p path b c =
     bindE (gp p) (\<lambda>q.
     if p_euid q \<noteq> 0 then ret (- EPERM)
     else bindE (walk_arg p path) (\<lambda>i. bindE (node i) (\<lambda>v.
       if \<not> v_is_dir v then ret (- ENOTDIR)
       else thenE (up p (\<lambda>q. q\<lparr>p_root := Some i, p_cwd := Some i\<rparr>)) (ret 0))))"

definition sys_access :: "int \<Rightarrow> int \<Rightarrow> int \<Rightarrow> int \<Rightarrow> int km" where
  "sys_access p path m c = bindE (walk_arg p path) (\<lambda>i. ret 0)"

definition sys_chmod :: "int \<Rightarrow> int \<Rightarrow> int \<Rightarrow> int \<Rightarrow> int km" where
  "sys_chmod p path m c = bindE (walk_arg p path) (\<lambda>i. thenE (in_fs (chmod i m)) (ret 0))"

definition sys_chown :: "int \<Rightarrow> int \<Rightarrow> int \<Rightarrow> int \<Rightarrow> int km" where
  "sys_chown p path uid gid =
     bindE (walk_arg p path) (\<lambda>i. thenE (in_fs (chown i uid gid)) (ret 0))"

definition sys_utime :: "int \<Rightarrow> int \<Rightarrow> int \<Rightarrow> int \<Rightarrow> int km" where
  "sys_utime p path tms c =
     bindE (walk_arg p path) (\<lambda>i.
     bindE (if tms \<noteq> 0 then r32 p (tms + 4) else now) (\<lambda>mtime.
     thenE (in_fs (utime i mtime)) (ret 0)))"

definition write_stat :: "int \<Rightarrow> int \<Rightarrow> int list \<Rightarrow> int km" where
  "write_stat p buf fs =
     bindE (liftR (stat_pack fs)) (\<lambda>raw. thenE (on_user p (mem_write buf raw)) (ret 0))"

definition sys_stat :: "int \<Rightarrow> int \<Rightarrow> int \<Rightarrow> int \<Rightarrow> int km" where
  "sys_stat p path buf c =
     bindE (walk_arg p path) (\<lambda>i. bindE (node i) (\<lambda>v. write_stat p buf (stat_tuple v)))"

definition sys_readlink :: "int \<Rightarrow> int \<Rightarrow> int \<Rightarrow> int \<Rightarrow> int km" where
  "sys_readlink p path buf sz = ret (- EINVAL)"

definition sys_symlink :: "int \<Rightarrow> int \<Rightarrow> int \<Rightarrow> int \<Rightarrow> int km" where
  "sys_symlink p old new c = ret (- EPERM)"

section \<open>Directory entries\<close>

text \<open>The calls that take a path, the working directory and the root of the process.\<close>

definition at_path :: "int \<Rightarrow> int \<Rightarrow> (string \<Rightarrow> proc \<Rightarrow> 'a km) \<Rightarrow> int km" where
  "at_path p path f =
     bindE (k_cstr p path) (\<lambda>name. bindE (gp p) (\<lambda>q. bindE (f name q) (\<lambda>_. ret 0)))"

definition sys_link :: "int \<Rightarrow> int \<Rightarrow> int \<Rightarrow> int \<Rightarrow> int km" where
  "sys_link p old new c =
     bindE (k_cstr p old) (\<lambda>o'. at_path p new (\<lambda>n q.
       stamped (\<lambda>t. link t o' n (p_cwd q) (p_root q))))"

definition sys_unlink :: "int \<Rightarrow> int \<Rightarrow> int \<Rightarrow> int \<Rightarrow> int km" where
  "sys_unlink p path b c =
     at_path p path (\<lambda>n q. stamped (\<lambda>t. unlink t n (p_cwd q) (p_root q)))"

definition sys_rename :: "int \<Rightarrow> int \<Rightarrow> int \<Rightarrow> int \<Rightarrow> int km" where
  "sys_rename p old new c =
     bindE (k_cstr p old) (\<lambda>o'. at_path p new (\<lambda>n q.
       stamped (\<lambda>t. rename t o' n (p_cwd q) (p_root q))))"

definition sys_mkdir :: "int \<Rightarrow> int \<Rightarrow> int \<Rightarrow> int \<Rightarrow> int km" where
  "sys_mkdir p path m c =
     at_path p path (\<lambda>n q. stamped (\<lambda>t.
       mkdir t n (m AND NOT (p_umask q)) (p_cwd q) (p_root q) (p_euid q) (p_egid q)))"

definition sys_rmdir :: "int \<Rightarrow> int \<Rightarrow> int \<Rightarrow> int \<Rightarrow> int km" where
  "sys_rmdir p path b c =
     at_path p path (\<lambda>n q. stamped (\<lambda>t. rmdir t n (p_cwd q) (p_root q)))"

definition sys_mknod :: "int \<Rightarrow> int \<Rightarrow> int \<Rightarrow> int \<Rightarrow> int km" where
  "sys_mknod p path m dev =
     bindE (gp p) (\<lambda>q.
     if p_euid q \<noteq> 0 then ret (- EPERM)
     else at_path p path (\<lambda>n q. stamped (\<lambda>t.
       mknod t n m dev (p_cwd q) (p_root q) (p_euid q) (p_egid q))))"

end
