(* ===== verification/Kernel_Files.thy ===== *)
theory Kernel_Files
  imports Kernel_Calls
begin

text \<open>
  Descriptors, open files, devices and pipes: the tables of \<open>Process\<close>, the reference counts
  of \<open>_acquire_fd\<close> and \<open>_release_file\<close>, and the system calls on descriptors.
\<close>

section \<open>The descriptor table\<close>

definition free_from :: "nat option list \<Rightarrow> int \<Rightarrow> int option" where
  "free_from fds start = find (\<lambda>i. fds ! nat i = None) [start..NR_OPEN - 1]"

text \<open>\<open>range(start, NR_OPEN)\<close>: \<open>start\<close> comes from a register and is not negative.\<close>

definition alloc_fd :: "int \<Rightarrow> int \<Rightarrow> int km" where
  "alloc_fd p start =
     bindE (gp p) (\<lambda>q. case free_from (p_fds q) start of
       Some i \<Rightarrow> ret i | None \<Rightarrow> raise (FsError EMFILE))"

definition fd_at :: "proc \<Rightarrow> int \<Rightarrow> nat option" where
  "fd_at q fd = (if 0 \<le> fd \<and> fd < NR_OPEN then p_fds q ! nat fd else None)"

definition get_file :: "int \<Rightarrow> int \<Rightarrow> nat km" where
  "get_file p fd =
     bindE (gp p) (\<lambda>q. case fd_at q fd of None \<Rightarrow> raise (FsError EBADF) | Some i \<Rightarrow> ret i)"

definition set_fd :: "int \<Rightarrow> int \<Rightarrow> nat option \<Rightarrow> unit km" where
  "set_fd p fd v = up p (\<lambda>q. q\<lparr>p_fds := (p_fds q)[nat fd := v]\<rparr>)"

definition acquire_fd :: "nat \<Rightarrow> unit km" where
  "acquire_fd i =
     thenE (uf i (\<lambda>f. f\<lparr>f_refs := f_refs f + 1\<rparr>))
     (bindE (gf i) (\<lambda>f. case f_obj f of
        OPipe n \<Rightarrow> in_pipe n (modify (\<lambda>q.
          q\<lparr>readers := (if f_readable f then readers q + 1 else readers q),
            writers := (if f_writable f then writers q + 1 else writers q)\<rparr>))
      | _ \<Rightarrow> ret ()))"

definition release_file :: "nat \<Rightarrow> unit km" where
  "release_file i =
     thenE (uf i (\<lambda>f. f\<lparr>f_refs := f_refs f - 1\<rparr>))
     (bindE (gf i) (\<lambda>f. case f_obj f of
        OPipe n \<Rightarrow> in_pipe n (modify (\<lambda>q.
          q\<lparr>readers := (if f_readable f then max (readers q - 1) 0 else readers q),
            writers := (if f_writable f then max (writers q - 1) 0 else writers q)\<rparr>))
      | ONode v \<Rightarrow> if f_refs f \<le> 0
                   then in_fs (upd v (\<lambda>v. v\<lparr>v_open_refs := max (v_open_refs v - 1) 0\<rparr>)) else ret ()
      | _ \<Rightarrow> ret ()))"

section \<open>Opening and closing\<close>

definition open_device :: "int \<Rightarrow> obj km" where
  "open_device i =
     bindE (node i) (\<lambda>v. bindE (gets k_tty) (\<lambda>tm.
     let (major, minor) = v_devno v in
     if major \<in> {4, 5} then ret (if tm = None then ONode i else OTerminal)
     else if major = 1 \<and> minor = 3 then ret ONull
     else if major = 3 then raise (FsError EPERM)
     else raise (FsError ENXIO)))"

text \<open>
  The path that names an existing node, or one that \<open>O_CREAT\<close> makes: \<open>None\<close> when \<open>O_EXCL\<close>
  forbids the existing one.
\<close>

definition open_node :: "int \<Rightarrow> string \<Rightarrow> int \<Rightarrow> int \<Rightarrow> int option km" where
  "open_node p name fl m =
     catchE
       (bindE (k_walk p name) (\<lambda>i. ret (if fl AND O_EXCL \<noteq> 0 \<and> fl AND O_CREAT \<noteq> 0 then None else Some i)))
       (\<lambda>e. case e of
          FsError n \<Rightarrow>
            if n \<noteq> ENOENT \<or> fl AND O_CREAT = 0 then raise e
            else bindE (gp p) (\<lambda>q. bindE (stamped (\<lambda>t.
              create t name (m AND NOT (p_umask q)) (p_cwd q) (p_root q) (p_euid q) (p_egid q)))
              (\<lambda>i. ret (Some i)))
        | _ \<Rightarrow> raise e)"

definition sys_open :: "int \<Rightarrow> int \<Rightarrow> int \<Rightarrow> int \<Rightarrow> int km" where
  "sys_open p path fl m =
     bindE (k_cstr p path) (\<lambda>name.
     bindE (open_node p name fl m) (\<lambda>r. case r of
       None \<Rightarrow> ret (- EEXIST)
     | Some i \<Rightarrow>
         bindE (node i) (\<lambda>v.
         if v_is_dir v \<and> fl AND O_ACCMODE \<noteq> 0 then ret (- EISDIR)
         else
           bindE (if v_is_device v then open_device i
                  else thenE (if fl AND O_TRUNC \<noteq> 0 \<and> v_is_regular v
                              then stamped (\<lambda>t. vtruncate t i 0) else ret ())
                    (ret (ONode i))) (\<lambda>ob.
           bindE (alloc_fd p 0) (\<lambda>fd.
           bindE (case ob of
                    ONode n \<Rightarrow>
                      thenE (in_fs (upd n (\<lambda>v. v\<lparr>v_open_refs := v_open_refs v + 1\<rparr>)))
                      (bindE (node n) (\<lambda>v. ret (if fl AND O_APPEND \<noteq> 0 then vsize v else 0)))
                  | _ \<Rightarrow> ret 0) (\<lambda>pos.
           bindE (new_file ((OpenFile ob fl)\<lparr>f_pos := pos\<rparr>)) (\<lambda>f.
           thenE (set_fd p fd (Some f)) (ret fd))))))))"

definition sys_creat :: "int \<Rightarrow> int \<Rightarrow> int \<Rightarrow> int \<Rightarrow> int km" where
  "sys_creat p path m c = sys_open p path (O_CREAT OR O_TRUNC OR O_WRONLY) m"

definition sys_close :: "int \<Rightarrow> int \<Rightarrow> int \<Rightarrow> int \<Rightarrow> int km" where
  "sys_close p fd b c =
     bindE (get_file p fd) (\<lambda>f. thenE (set_fd p fd None) (thenE (release_file f) (ret 0)))"

definition share_fd :: "int \<Rightarrow> nat \<Rightarrow> int \<Rightarrow> int km" where
  "share_fd p f new = thenE (acquire_fd f) (thenE (set_fd p new (Some f)) (ret new))"

definition sys_dup :: "int \<Rightarrow> int \<Rightarrow> int \<Rightarrow> int \<Rightarrow> int km" where
  "sys_dup p fd b c = bindE (get_file p fd) (\<lambda>f. bindE (alloc_fd p 0) (share_fd p f))"

definition clear_cloexec :: "int \<Rightarrow> int \<Rightarrow> unit km" where
  "clear_cloexec p fd =
     up p (\<lambda>q. q\<lparr>p_close_on_exec := p_close_on_exec q AND NOT (push_bit (nat fd) 1)\<rparr>)"

definition sys_dup2 :: "int \<Rightarrow> int \<Rightarrow> int \<Rightarrow> int \<Rightarrow> int km" where
  "sys_dup2 p oldfd newfd c =
     bindE (get_file p oldfd) (\<lambda>f.
     if \<not> (0 \<le> newfd \<and> newfd < NR_OPEN) then ret (- EBADF)
     else if oldfd = newfd then ret newfd
     else
       bindE (gp p) (\<lambda>q.
       thenE (if fd_at q newfd \<noteq> None then bindE (sys_close p newfd 0 0) (\<lambda>_. ret ()) else ret ())
       (bindE (share_fd p f newfd) (\<lambda>r. thenE (clear_cloexec p newfd) (ret r)))))"

definition sys_fcntl :: "int \<Rightarrow> int \<Rightarrow> int \<Rightarrow> int \<Rightarrow> int km" where
  "sys_fcntl p fd cmd arg =
     bindE (get_file p fd) (\<lambda>f.
     if cmd = 0 then bindE (alloc_fd p arg) (share_fd p f)
     else if cmd = 1 then
       bindE (gp p) (\<lambda>q. ret (if p_close_on_exec q AND push_bit (nat fd) 1 \<noteq> 0 then 1 else 0))
     else if cmd = 2 then
       thenE (if arg AND 1 \<noteq> 0
              then up p (\<lambda>q. q\<lparr>p_close_on_exec := p_close_on_exec q OR push_bit (nat fd) 1\<rparr>)
              else clear_cloexec p fd) (ret 0)
     else if cmd = 3 then bindE (gf f) (\<lambda>o'. ret (f_flags o'))
     else if cmd = 4 then
       thenE (uf f (\<lambda>o'. o'\<lparr>f_flags := (f_flags o' AND NOT (O_APPEND OR O_NONBLOCK)) OR
                                   (arg AND (O_APPEND OR O_NONBLOCK))\<rparr>)) (ret 0)
     else ret (- EINVAL))"

end
