(* ===== verification/Kernel_IO.thy ===== *)
theory Kernel_IO
  imports Kernel_Files
begin

text \<open>
  The console (\<open>_write_console\<close>, \<open>on_escape\<close>) and the system calls that move bytes: read,
  write, lseek, ioctl, fstat and pipe.
\<close>

section \<open>The console\<close>

text \<open>The kernel's own messages are UTF-8; these are their bytes.\<close>

definition ESCAPE_HELP :: bytes where
  "ESCAPE_HELP =
    [67, 116, 114, 108, 45, 65, 32, 99, 32, 32, 32, 232, 191, 155, 229, 133, 165, 32, 109,
     111, 110, 105, 116, 111, 114, 32, 230, 142, 167, 229, 136, 182, 229, 143, 176, 10, 67,
     116, 114, 108, 45, 65, 32, 120, 32, 32, 32, 233, 128, 128, 229, 135, 186, 228, 187,
     191, 231, 156, 159, 229, 153, 168, 10, 67, 116, 114, 108, 45, 65, 32, 97, 32, 32, 32,
     229, 143, 145, 233, 128, 129, 228, 184, 128, 228, 184, 170, 231, 156, 159, 230, 173,
     163, 231, 154, 132, 32, 67, 116, 114, 108, 45, 65, 32, 231, 187, 153, 232, 162, 171,
     228, 187, 191, 231, 156, 159, 231, 168, 139, 229, 186, 143, 10, 67, 116, 114, 108, 45,
     65, 32, 63, 32, 32, 32, 230, 152, 190, 231, 164, 186, 232, 191, 153, 228, 187, 189,
     229, 184, 174, 229, 138, 169, 10]"

definition QUIT_MESSAGE :: bytes where
  "QUIT_MESSAGE = [10, 228, 187, 191, 231, 156, 159, 229, 153, 168, 233, 128, 128, 229, 135, 186, 227,
     128, 130, 10]"

definition write_console :: "bytes \<Rightarrow> unit km" where
  "write_console text =
     bindE (gets k_tty) (\<lambda>tm. case tm of None \<Rightarrow> ret () | Some _ \<Rightarrow> in_tty (tty_put text))"

definition lower :: "byte \<Rightarrow> byte" where
  "lower b = (if 65 \<le> b \<and> b \<le> 90 then b + 32 else b)"

definition on_escape_k :: "byte \<Rightarrow> unit km" where
  "on_escape_k ch =
     (let low = lower ch in
      if low = 120 then thenE (modify (\<lambda>k. k\<lparr>k_quit := True\<rparr>)) (write_console QUIT_MESSAGE)
      else if low = 99 then modify (\<lambda>k. k\<lparr>k_monitor_pending := True\<rparr>)
      else if low = 63 \<or> low = 104 then write_console (10 # ESCAPE_HELP)
      else ret ())"

text \<open>
  The callbacks of the terminal as \<open>build_kernel\<close> wires them: \<open>on_escape\<close> is the kernel's
  (or \<open>None\<close>), and no \<open>post_signal\<close> is passed, so the terminal has the default, which does
  nothing.
\<close>

definition post_default :: "kernel post" where
  "post_default pgrp sig = ret ()"

definition tty_escape :: "kernel \<Rightarrow> kernel on_escape" where
  "tty_escape k = (if k_on_escape k then Some (\<lambda>ch. out_tty (on_escape_k ch)) else None)"

definition with_tty :: "(kernel on_escape \<Rightarrow> (kernel, 'a) tm) \<Rightarrow> 'a km" where
  "with_tty f = bindE (gets tty_escape) (\<lambda>esc. in_tty (f esc))"

section \<open>Reading and writing\<close>

definition move_pos :: "nat \<Rightarrow> int \<Rightarrow> unit km" where
  "move_pos i d = uf i (\<lambda>f. f\<lparr>f_pos := f_pos f + d\<rparr>)"

definition put_user :: "int \<Rightarrow> int \<Rightarrow> bytes \<Rightarrow> int km" where
  "put_user p buf data = thenE (on_user p (mem_write buf data)) (ret (int (length data)))"

definition sys_read :: "int \<Rightarrow> int \<Rightarrow> int \<Rightarrow> int \<Rightarrow> int km" where
  "sys_read p fd buf count =
     bindE (get_file p fd) (\<lambda>i.
     if count = 0 then ret 0
     else bindE (gf i) (\<lambda>f. case f_obj f of
       ONode n \<Rightarrow>
         bindE (in_fs (vread n (f_pos f) count)) (\<lambda>data.
         thenE (move_pos i (int (length data))) (put_user p buf data))
     | OPipe n \<Rightarrow>
         bindE (in_pipe n (pipe_read count)) (\<lambda>r. case r of
           None \<Rightarrow> raise (Blocked (PipeRead n)) | Some data \<Rightarrow> put_user p buf data)
     | ONull \<Rightarrow> ret 0
     | OTerminal \<Rightarrow>
         bindE (with_tty (\<lambda>esc. tty_read post_default esc count)) (\<lambda>r. case r of
           None \<Rightarrow> raise (Blocked OnTerminal) | Some data \<Rightarrow> put_user p buf data)))"

definition sys_write :: "int \<Rightarrow> int \<Rightarrow> int \<Rightarrow> int \<Rightarrow> int km" where
  "sys_write p fd buf count =
     bindE (get_file p fd) (\<lambda>i.
     if count = 0 then ret 0
     else bindE (from_user p (mem_read buf count)) (\<lambda>data. bindE (gf i) (\<lambda>f. case f_obj f of
       ONode n \<Rightarrow>
         thenE (if f_flags f AND O_APPEND \<noteq> 0
                then bindE (node n) (\<lambda>v. uf i (\<lambda>f. f\<lparr>f_pos := vsize v\<rparr>)) else ret ())
         (bindE (gf i) (\<lambda>f.
         bindE (stamped (\<lambda>t. vwrite t n (f_pos f) data)) (\<lambda>w.
         thenE (move_pos i w) (ret w))))
     | OPipe n \<Rightarrow>
         bindE (in_pipe n (pipe_write data)) (\<lambda>r. case r of
           None \<Rightarrow> raise (Blocked (PipeWrite n)) | Some w \<Rightarrow> ret w)
     | ONull \<Rightarrow> ret count
     | OTerminal \<Rightarrow> in_tty (tty_write data))))"

definition sys_lseek :: "int \<Rightarrow> int \<Rightarrow> int \<Rightarrow> int \<Rightarrow> int km" where
  "sys_lseek p fd ofs whence =
     bindE (get_file p fd) (\<lambda>i. bindE (gf i) (\<lambda>f. case f_obj f of
       ONode n \<Rightarrow>
         bindE (node n) (\<lambda>v.
         let off = (if ofs \<ge> 0x80000000 then ofs - 0x100000000 else ofs)
         in if whence \<notin> {SEEK_SET, SEEK_CUR, SEEK_END} then ret (- EINVAL)
            else let pos = (if whence = SEEK_SET then off
                            else if whence = SEEK_CUR then f_pos f + off else vsize v + off)
                 in if pos < 0 then ret (- EINVAL)
                    else thenE (uf i (\<lambda>f. f\<lparr>f_pos := pos\<rparr>)) (ret pos))
     | _ \<Rightarrow> ret (- ESPIPE)))"

text \<open>What \<open>TTY.ioctl\<close> reaches of the calling process, from inside the terminal.\<close>

definition caller_of :: "int \<Rightarrow> proc \<Rightarrow> kernel caller" where
  "caller_of p q = \<lparr>cl_read = (\<lambda>a n. out_tty (from_user p (mem_read a n))),
     cl_write = (\<lambda>a d. out_tty (on_user p (mem_write a d))),
     cl_read_u32 = (\<lambda>a. out_tty (r32 p a)), cl_write_u32 = (\<lambda>a v. out_tty (w32 p a v)),
     cl_session = p_session q, cl_pgrp = p_pgrp q\<rparr>"

definition sys_ioctl :: "int \<Rightarrow> int \<Rightarrow> int \<Rightarrow> int \<Rightarrow> int km" where
  "sys_ioctl p fd cmd arg =
     bindE (get_file p fd) (\<lambda>i. bindE (gf i) (\<lambda>f. bindE (gets k_tty) (\<lambda>tm.
     if tm \<noteq> None \<and> f_obj f = OTerminal then
       bindE (gp p) (\<lambda>q. with_tty (\<lambda>esc. tty_ioctl post_default esc (caller_of p q) cmd arg))
     else ret (- ENOTTY))))"

definition sys_fstat :: "int \<Rightarrow> int \<Rightarrow> int \<Rightarrow> int \<Rightarrow> int km" where
  "sys_fstat p fd buf c =
     bindE (get_file p fd) (\<lambda>i. bindE (gf i) (\<lambda>f. case f_obj f of
       ONode n \<Rightarrow> bindE (node n) (\<lambda>v. write_stat p buf (stat_tuple v))
     | ob \<Rightarrow> write_stat p buf
         [ROOT_DEV, 0, if ob = OTerminal then 0x2180 else 0x1180, 1, 0, 0, 0, 0, 0, 0, 0]))"

definition sys_pipe :: "int \<Rightarrow> int \<Rightarrow> int \<Rightarrow> int \<Rightarrow> int km" where
  "sys_pipe p fds b c =
     bindE (new_pipe Pipe_init) (\<lambda>n.
     bindE (alloc_fd p 0) (\<lambda>rfd.
     bindE (new_file (OpenFile (OPipe n) 0)) (\<lambda>rf.
     thenE (set_fd p rfd (Some rf))
     (bindE (catchE (alloc_fd p 0) (\<lambda>e.
        case e of FsError _ \<Rightarrow> thenE (set_fd p rfd None) (raise e) | _ \<Rightarrow> raise e)) (\<lambda>wfd.
     bindE (new_file (OpenFile (OPipe n) O_WRONLY)) (\<lambda>wf.
     thenE (set_fd p wfd (Some wf))
     (thenE (in_pipe n (modify (\<lambda>q. q\<lparr>readers := 1, writers := 1\<rparr>)))
     (thenE (w32 p fds rfd)
     (thenE (w32 p (fds + 4) wfd) (ret 0))))))))))"

end
