(* ===== verification/Kernel_Proc.thy ===== *)
theory Kernel_Proc
  imports Kernel_IO
begin

text \<open>
  Processes and signals: the CPU factory and the profiler switches, creating, replacing,
  forking, waiting for and ending processes, posting and delivering signals, and the signal
  frame on the user stack.
\<close>

section \<open>The CPU factory and profiling\<close>

definition PROFILER_SHIFT :: int where "PROFILER_SHIFT = 6"

definition prof_or_new :: "proc \<Rightarrow> profiler" where
  "prof_or_new q = (case prof_of q of Some x \<Rightarrow> x | None \<Rightarrow> Profiler_init PROFILER_SHIFT)"

definition make_cpu :: "insn addrspace \<Rightarrow> proc \<Rightarrow> cpu km" where
  "make_cpu m q = bindE (gets k_profiling) (\<lambda>on.
     ret (if on then (CPU_init m)\<lparr>prof := Some (prof_or_new q)\<rparr> else CPU_init m))"

text \<open>\<open>p.cpu = cpu\<close>: a profiler the old CPU held stays the process's.\<close>

definition install_cpu :: "int \<Rightarrow> cpu \<Rightarrow> unit km" where
  "install_cpu p c = up p (\<lambda>q. q\<lparr>p_prof := prof_of q, p_cpu := Some c\<rparr>)"

definition switch_profiling :: "bool \<Rightarrow> proc \<Rightarrow> proc" where
  "switch_profiling on q = (case p_cpu q of
     None \<Rightarrow> q
   | Some c \<Rightarrow> if on then q\<lparr>p_cpu := Some (c\<lparr>prof := Some (prof_or_new q)\<rparr>)\<rparr>
               else q\<lparr>p_prof := prof_of q, p_cpu := Some (c\<lparr>prof := None\<rparr>)\<rparr>)"

definition set_profiling :: "bool \<Rightarrow> unit km" where
  "set_profiling on =
     modify (\<lambda>k. k\<lparr>k_profiling := on, k_procs := map (\<lambda>(i, q). (i, switch_profiling on q)) (k_procs k)\<rparr>)"

definition reset_prof :: "proc \<Rightarrow> proc" where
  "reset_prof q = q\<lparr>p_prof := map_option Profiler_reset (p_prof q),
     p_cpu := map_option (\<lambda>c. c\<lparr>prof := map_option Profiler_reset (prof c)\<rparr>) (p_cpu q)\<rparr>"

definition reset_profiling :: "unit km" where
  "reset_profiling = modify (\<lambda>k. k\<lparr>k_procs := map (\<lambda>(i, q). (i, reset_prof q)) (k_procs k)\<rparr>)"

definition set_trace_capacity :: "int \<Rightarrow> unit km" where
  "set_trace_capacity n = modify (\<lambda>k. let n = max n 1 in
     k\<lparr>k_trace_capacity := n, k_recent := bounded (nat n) (k_recent k)\<rparr>)"

section \<open>Creating processes\<close>

definition add_proc :: "proc \<Rightarrow> unit km" where
  "add_proc q = modify (\<lambda>k. k\<lparr>k_procs := AList.update (p_pid q) q (k_procs k)\<rparr>)"

definition new_pid :: "int km" where
  "new_pid k = (Inr (k_next_pid k), k\<lparr>k_next_pid := k_next_pid k + 1\<rparr>)"

definition new_process :: "int km" where
  "new_process = bindE new_pid (\<lambda>pid.
     thenE (add_proc ((Process pid)\<lparr>p_cwd := Some ROOT, p_root := Some ROOT\<rparr>)) (ret pid))"

definition fresh_mem :: "insn addrspace" where
  "fresh_mem = AddressSpace_init DEFAULT_STACK"

text \<open>\<open>resolve_exec\<close>, \<open>load_aout\<close> and \<open>setup_stack\<close> on a fresh address space.\<close>

definition exec_image :: "string \<Rightarrow> bytes list \<Rightarrow> bytes list \<Rightarrow> int option \<Rightarrow> int option \<Rightarrow>
    (int \<times> int \<times> insn addrspace) km" where
  "exec_image path argv envp cwd root =
     bindE (in_fs (resolve_exec path argv cwd root)) (\<lambda>(i, argv).
     bindE (in_fs (load_aout fresh_mem i)) (\<lambda>((entry, b), m).
     case setup_stack argv envp m of
       (Inl e, _) \<Rightarrow> raise e
     | (Inr sp, m') \<Rightarrow> ret (entry, sp, m')))"

definition start_cpu :: "int \<Rightarrow> int \<times> int \<times> insn addrspace \<Rightarrow> unit km" where
  "start_cpu p im = (case im of (entry, sp, m) \<Rightarrow>
     bindE (gp p) (\<lambda>q. bindE (make_cpu m q) (\<lambda>c.
     install_cpu p (set_rg ESP sp (c\<lparr>eip := entry\<rparr>)))))"

definition setup_std_fds :: "int \<Rightarrow> unit km" where
  "setup_std_fds p = bindE (gets k_tty) (\<lambda>tm. case tm of
     None \<Rightarrow> ret ()
   | Some _ \<Rightarrow>
       bindE (new_file (OpenFile OTerminal 0)) (\<lambda>i.
       bindE (new_file ((OpenFile OTerminal 1)\<lparr>f_refs := 2\<rparr>)) (\<lambda>o'.
       thenE (set_fd p 0 (Some i)) (thenE (set_fd p 1 (Some o')) (set_fd p 2 (Some o'))))))"

text \<open>\<open>str.encode()\<close> of a Latin-1 string: UTF-8.\<close>

definition utf8 :: "string \<Rightarrow> bytes" where
  "utf8 s = concat (map (\<lambda>b. if b < 128 then [b]
     else [0xC0 OR drop_bit 6 b, 0x80 OR (b AND 0x3F)]) (encode_name s))"

definition default_env :: "bytes list" where
  "default_env = map encode_name [''HOME=/root'', ''PATH=/bin:/usr/bin'', ''TERM=console'']"

definition boot :: "string \<Rightarrow> bytes list \<Rightarrow> bytes list \<Rightarrow> int km" where
  "boot path argv envp =
     (let argv = (if argv = [] then [utf8 path] else argv);
          envp = (if envp = [] then default_env else envp)
      in
      bindE new_process (\<lambda>p. bindE (gp p) (\<lambda>q.
      bindE (exec_image path argv envp (p_cwd q) (p_root q)) (\<lambda>im.
      thenE (start_cpu p im)
      (thenE (up p (\<lambda>q. q\<lparr>p_name := path\<rparr>))
      (thenE (setup_std_fds p)
      (thenE (modify (\<lambda>k. k\<lparr>k_current := Some p\<rparr>)) (ret p))))))))"

section \<open>Replacing and forking\<close>

definition close_on_exec :: "int \<Rightarrow> int \<Rightarrow> unit km" where
  "close_on_exec p i = bindE (gp p) (\<lambda>q.
     if p_close_on_exec q AND push_bit (nat i) 1 \<noteq> 0 \<and> p_fds q ! nat i \<noteq> None
     then bindE (sys_close p i 0 0) (\<lambda>_. ret ()) else ret ())"

definition sys_execve :: "int \<Rightarrow> int \<Rightarrow> int \<Rightarrow> int \<Rightarrow> int km" where
  "sys_execve p path argvp envpp =
     bindE (k_cstr p path) (\<lambda>name.
     bindE (from_user p (read_ptr_array argvp)) (\<lambda>argv.
     bindE (from_user p (read_ptr_array envpp)) (\<lambda>envp.
     bindE (gp p) (\<lambda>q.
     bindE (exec_image name (if argv = [] then [utf8 name] else argv) envp (p_cwd q) (p_root q)) (\<lambda>im.
     thenE (start_cpu p im)
     (thenE (up p (\<lambda>q. q\<lparr>p_name := name\<rparr>))
     (thenE (for_each (close_on_exec p) [0..NR_OPEN - 1])
     (thenE (up p (\<lambda>q. q\<lparr>p_close_on_exec := 0,
          p_sigactions := map (\<lambda>(h, m, fl, r). if h \<noteq> 1 then (0, 0, 0, 0) else (1, 0, 0, 0)) (p_sigactions q),
          p_sigframes := []\<rparr>))
       (raise Replaced)))))))))"

definition forked :: "int \<Rightarrow> proc \<Rightarrow> proc" where
  "forked pid p = (Process pid)\<lparr>p_ppid := p_pid p, p_pgrp := p_pgrp p, p_session := p_session p,
     p_cwd := p_cwd p, p_root := p_root p, p_umask := p_umask p,
     p_uid := p_uid p, p_euid := p_euid p, p_suid := p_suid p,
     p_gid := p_gid p, p_egid := p_egid p, p_sgid := p_sgid p,
     p_blocked := p_blocked p, p_sigactions := p_sigactions p,
     p_close_on_exec := p_close_on_exec p, p_name := p_name p\<rparr>"

definition sys_fork :: "int \<Rightarrow> int \<Rightarrow> int \<Rightarrow> int \<Rightarrow> int km" where
  "sys_fork p a b c =
     bindE (gp p) (\<lambda>q. bindE (get_cpu p) (\<lambda>cq.
     bindE new_pid (\<lambda>pid.
     let child = forked pid q in
     thenE (for_each (\<lambda>f. case f of None \<Rightarrow> ret () | Some i \<Rightarrow> acquire_fd i) (p_fds q))
     (bindE (make_cpu (clone (mem cq)) child) (\<lambda>cc.
     let cc = set_rg EAX 0 (cpu_restore (snapshot cq) cc) in
     thenE (add_proc (child\<lparr>p_fds := p_fds q, p_cpu := Some cc\<rparr>))
     (thenE (modify (\<lambda>k. k\<lparr>k_runq := k_runq k @ [pid]\<rparr>)) (ret pid)))))))"

section \<open>Posting signals and waking\<close>

definition bit_at :: "int \<Rightarrow> int" where
  "bit_at sig = push_bit (nat (sig - 1)) 1"

definition handler_of :: "proc \<Rightarrow> int \<Rightarrow> int" where
  "handler_of q sig =
     (if sig < int (length (p_sigactions q)) then fst (p_sigactions q ! nat sig) else 0)"

definition enqueue :: "int \<Rightarrow> unit km" where
  "enqueue p = modify (\<lambda>k. if p \<in> set (k_runq k) then k else k\<lparr>k_runq := k_runq k @ [p]\<rparr>)"

definition dequeue :: "int \<Rightarrow> unit km" where
  "dequeue p = modify (\<lambda>k. k\<lparr>k_runq := remove1 p (k_runq k)\<rparr>)"

definition k_wake :: "int \<Rightarrow> bool \<Rightarrow> unit km" where
  "k_wake p interrupted =
     bindE (gp p) (\<lambda>q.
     if p_state q \<noteq> SLEEPING then ret ()
     else
       thenE (up p (\<lambda>q. q\<lparr>p_state := RUNNING, p_channel := None\<rparr>))
       (thenE (if interrupted \<and> p_restart q then
                 thenE (on_cpu p (modify (\<lambda>c. set_rg EAX (- EINTR AND 0xFFFFFFFF)
                                     (c\<lparr>eip := (eip c + 2) AND 0xFFFFFFFF\<rparr>))))
                   (up p (\<lambda>q. q\<lparr>p_restart := False\<rparr>))
               else ret ())
         (enqueue p)))"

definition post_signal :: "int \<Rightarrow> int \<Rightarrow> unit km" where
  "post_signal p sig =
     (if sig \<le> 0 \<or> sig > 32 then ret ()
      else
        thenE (up p (\<lambda>q. q\<lparr>p_signal := p_signal q OR bit_at sig\<rparr>))
        (bindE (gp p) (\<lambda>q.
        if p_state q \<noteq> SLEEPING \<or> p_blocked q AND bit_at sig \<noteq> 0 then ret ()
        else if handler_of q sig = 1 then ret ()
        else if handler_of q sig = 0 \<and> sig \<in> set IGNORED_BY_DEFAULT then ret ()
        else k_wake p True)))"

section \<open>Waiting and ending\<close>

definition reap :: "int \<Rightarrow> unit km" where
  "reap p = bindE (gp p) (\<lambda>q. modify (\<lambda>k.
     k\<lparr>k_gone := (if k_current k = Some p then Some q else k_gone k),
       k_history := bounded PERF_HISTORY (k_history k @ [ProcPerf q]),
       k_procs := AList.delete p (k_procs k)\<rparr>))"

definition signed32 :: "int \<Rightarrow> int" where
  "signed32 v = (if v < 0x80000000 then v else v - 0x100000000)"

definition wanted :: "int \<Rightarrow> proc \<Rightarrow> proc \<Rightarrow> bool" where
  "wanted pid p q =
     (if pid > 0 then p_pid q = pid
      else if pid = 0 then p_pgrp q = p_pgrp p
      else if pid = -1 then True
      else p_pgrp q = - pid)"

definition sys_waitpid :: "int \<Rightarrow> int \<Rightarrow> int \<Rightarrow> int \<Rightarrow> int km" where
  "sys_waitpid p pid statp options =
     bindE (gp p) (\<lambda>me. bindE (gets k_procs) (\<lambda>ps.
     let pid = signed32 pid;
         kids = filter (\<lambda>(i, q). p_ppid q = p_pid me) ps;
         cands = filter (\<lambda>(i, q). wanted pid me q) kids
     in
     if kids = [] then ret (- ECHILD)
     else if cands = [] then ret (- ECHILD)
     else case find (\<lambda>(i, q). p_state q = ZOMBIE) cands of
       Some (i, q) \<Rightarrow>
         thenE (if statp \<noteq> 0 then w32 p statp (p_exit_code q AND 0xFFFFFFFF) else ret ())
         (thenE (up p (\<lambda>me. me\<lparr>p_cutime := p_cutime me + p_utime q, p_cstime := p_cstime me + p_stime q\<rparr>))
         (thenE (reap i) (ret (p_pid q))))
     | None \<Rightarrow> if options AND 1 \<noteq> 0 then ret 0 else raise (Blocked (ForChild (p_pid me)))))"

definition release_fd :: "int \<Rightarrow> int \<Rightarrow> unit km" where
  "release_fd p i = bindE (gp p) (\<lambda>q. case p_fds q ! nat i of
     None \<Rightarrow> ret () | Some f \<Rightarrow> thenE (release_file f) (set_fd p i None))"

definition adopt :: "int \<Rightarrow> unit km" where
  "adopt p = modify (\<lambda>k. k\<lparr>k_procs := map (\<lambda>(i, q). (i, if p_ppid q = p then q\<lparr>p_ppid := 1\<rparr> else q)) (k_procs k)\<rparr>)"

definition exit_process :: "int \<Rightarrow> int \<Rightarrow> unit km" where
  "exit_process p code =
     thenE (up p (\<lambda>q. q\<lparr>p_state := ZOMBIE, p_exit_code := code\<rparr>))
     (thenE (for_each (release_fd p) [0..NR_OPEN - 1])
     (thenE (up p (\<lambda>q. q\<lparr>p_cpu := map_option (\<lambda>c. c\<lparr>mem := fresh_mem\<rparr>) (p_cpu q)\<rparr>))
     (thenE (adopt p)
     (thenE (dequeue p)
     (bindE (gp p) (\<lambda>q. bindE (gets (\<lambda>k. map_of (k_procs k) (p_ppid q))) (\<lambda>parent.
     thenE (case parent of None \<Rightarrow> ret () | Some _ \<Rightarrow>
         thenE (post_signal (p_ppid q) SIGCHLD)
         (bindE (gp (p_ppid q)) (\<lambda>par. case (p_state par, p_channel par) of
            (SLEEPING, Some (ForChild _)) \<Rightarrow> k_wake (p_ppid q) False
          | _ \<Rightarrow> ret ())))
       (if p_ppid q = 0 then modify (\<lambda>k. k\<lparr>k_exit_status := code\<rparr>) else ret ()))))))))"

end
