(* ===== verification/Kernel_Signal.thy ===== *)
theory Kernel_Signal
  imports Kernel_Proc
begin

text \<open>
  The signal calls, the delivery of pending signals with the frame on the user stack and the
  way back from it, the dispatch table of \<open>SyscallTable\<close>, and the CPU's callbacks.
\<close>

section \<open>Signal calls\<close>

definition kill_target :: "int \<Rightarrow> proc \<Rightarrow> proc \<Rightarrow> bool" where
  "kill_target pid p q =
     (if pid > 0 \<and> p_pid q = pid then True
      else if pid = 0 \<and> p_pgrp q = p_pgrp p then True
      else if pid = -1 \<and> p_pid q > 1 then True
      else pid < -1 \<and> p_pgrp q = - pid)"

definition sys_kill :: "int \<Rightarrow> int \<Rightarrow> int \<Rightarrow> int \<Rightarrow> int km" where
  "sys_kill p pid sig c =
     bindE (gp p) (\<lambda>me. bindE (gets k_procs) (\<lambda>ps.
     let targets = map fst (filter (\<lambda>(i, q). kill_target (signed32 pid) me q) ps) in
     if targets = [] then ret (- ESRCH)
     else if sig = 0 then ret 0
     else thenE (for_each (\<lambda>i. post_signal i sig) targets) (ret 0)))"

definition sys_sgetmask :: "int \<Rightarrow> int \<Rightarrow> int \<Rightarrow> int \<Rightarrow> int km" where
  "sys_sgetmask p a b c = bindE (gp p) (\<lambda>q. ret (p_blocked q))"

definition sys_ssetmask :: "int \<Rightarrow> int \<Rightarrow> int \<Rightarrow> int \<Rightarrow> int km" where
  "sys_ssetmask p m b c =
     bindE (gp p) (\<lambda>q. thenE (up p (\<lambda>q. q\<lparr>p_blocked := m AND NOT (bit_at SIGKILL)\<rparr>)) (ret (p_blocked q)))"

definition sys_pause :: "int \<Rightarrow> int \<Rightarrow> int \<Rightarrow> int \<Rightarrow> int km" where
  "sys_pause p a b c = bindE (gp p) (\<lambda>q. raise (Blocked (Pausing (p_pid q))))"

definition sys_setsid :: "int \<Rightarrow> int \<Rightarrow> int \<Rightarrow> int \<Rightarrow> int km" where
  "sys_setsid p a b c =
     bindE (gp p) (\<lambda>q.
     if p_leader q then ret (- EPERM)
     else thenE (up p (\<lambda>q. q\<lparr>p_leader := True, p_session := p_pid q, p_pgrp := p_pid q\<rparr>))
       (ret (p_pid q)))"

definition sys_setpgid :: "int \<Rightarrow> int \<Rightarrow> int \<Rightarrow> int \<Rightarrow> int km" where
  "sys_setpgid p pid pgid c =
     (let target = (if pid = 0 then p else pid) in
      bindE (gets (\<lambda>k. map_of (k_procs k) target)) (\<lambda>t. case t of
        None \<Rightarrow> ret (- ESRCH)
      | Some q \<Rightarrow> thenE (up target (\<lambda>q. q\<lparr>p_pgrp := (if pgid \<noteq> 0 then pgid else p_pid q)\<rparr>)) (ret 0)))"

definition sys_alarm :: "int \<Rightarrow> int \<Rightarrow> int \<Rightarrow> int \<Rightarrow> int km" where
  "sys_alarm p secs b c =
     bindE (gp p) (\<lambda>q. bindE (gets k_jiffies) (\<lambda>j.
     let remain = (if p_alarm_at q \<noteq> 0 then max ((p_alarm_at q - j) div HZ) 0 else 0) in
     thenE (up p (\<lambda>q. q\<lparr>p_alarm_at := (if secs \<noteq> 0 then j + secs * HZ else 0)\<rparr>)) (ret remain)))"

definition set_action :: "int \<Rightarrow> int \<Rightarrow> sigaction \<Rightarrow> unit km" where
  "set_action p sig a = up p (\<lambda>q. q\<lparr>p_sigactions := (p_sigactions q)[nat sig := a]\<rparr>)"

definition sys_signal :: "int \<Rightarrow> int \<Rightarrow> int \<Rightarrow> int \<Rightarrow> int km" where
  "sys_signal p sig handler restorer =
     (if \<not> (1 \<le> sig \<and> sig \<le> 32) \<or> sig = SIGKILL then ret (- EINVAL)
      else bindE (gp p) (\<lambda>q.
        thenE (set_action p sig (handler, 0, SA_ONESHOT OR SA_NOMASK, restorer))
          (ret (fst (p_sigactions q ! nat sig)))))"

definition sys_sigaction :: "int \<Rightarrow> int \<Rightarrow> int \<Rightarrow> int \<Rightarrow> int km" where
  "sys_sigaction p sig newp oldp =
     (if \<not> (1 \<le> sig \<and> sig \<le> 32) \<or> sig = SIGKILL then ret (- EINVAL)
      else bindE (gp p) (\<lambda>q.
        thenE (if oldp \<noteq> 0 then
                 (case p_sigactions q ! nat sig of (h, m, fl, r) \<Rightarrow>
                    thenE (w32 p oldp h) (thenE (w32 p (oldp + 4) m)
                    (thenE (w32 p (oldp + 8) fl) (w32 p (oldp + 12) r))))
               else ret ())
        (thenE (if newp \<noteq> 0 then
                  bindE (r32 p newp) (\<lambda>h. bindE (r32 p (newp + 4)) (\<lambda>m.
                  bindE (r32 p (newp + 8)) (\<lambda>fl. bindE (r32 p (newp + 12)) (\<lambda>r.
                  set_action p sig (h, m, fl, r)))))
                else ret ())
           (ret 0))))"

section \<open>Delivery\<close>

fun nat_bit_length :: "nat \<Rightarrow> nat" where
  "nat_bit_length n = (if n = 0 then 0 else Suc (nat_bit_length (n div 2)))"

declare nat_bit_length.simps [simp del]

definition lowest_signal :: "int \<Rightarrow> int" where
  "lowest_signal pend = int (nat_bit_length (nat (pend AND - pend)))"

definition push_all :: "int list \<Rightarrow> (unit, unit) cm" where
  "push_all vs = for_each push32 vs"

definition build_signal_frame :: "int \<Rightarrow> int \<Rightarrow> unit km" where
  "build_signal_frame p sig =
     bindE (gp p) (\<lambda>q.
     case p_sigactions q ! nat sig of (handler, m, fl, restorer) \<Rightarrow>
     thenE (if p_state q = SLEEPING then
              thenE (up p (\<lambda>q. q\<lparr>p_state := RUNNING, p_channel := None\<rparr>)) (enqueue p)
            else ret ())
     (bindE (get_cpu p) (\<lambda>c.
      let nomask = (fl AND SA_NOMASK \<noteq> 0) in
      thenE (on_cpu p (push_all [eip c, flags c, rg EDX c, rg ECX c, rg EAX c]))
      (thenE (if nomask then ret () else on_cpu p (push32 (p_blocked q)))
      (thenE (up p (\<lambda>q. q\<lparr>p_sigframes := p_sigframes q @ [\<not> nomask]\<rparr>))
      (thenE (on_cpu p (push32 sig))
      (thenE (on_cpu p (push32 (if restorer \<noteq> 0 then restorer else MAGIC_SIGRETURN)))
      (thenE (on_cpu p (modify (\<lambda>c. c\<lparr>eip := handler\<rparr>)))
      (thenE (up p (\<lambda>q. q\<lparr>p_blocked := p_blocked q OR m\<rparr>))
        (if fl AND SA_ONESHOT \<noteq> 0 then set_action p sig (0, m, fl, restorer) else ret ()))))))))))"

definition take_signal :: "int \<Rightarrow> int \<Rightarrow> unit km" where
  "take_signal p sig =
     bindE (gp p) (\<lambda>q.
     if handler_of q sig = 1 then ret ()
     else if handler_of q sig = 0 then
       if sig \<in> set IGNORED_BY_DEFAULT then ret ()
       else if sig \<in> set STOP_SIGNALS then
         thenE (up p (\<lambda>q. q\<lparr>p_state := STOPPED\<rparr>)) (dequeue p)
       else
         thenE (if p_state q = SLEEPING then up p (\<lambda>q. q\<lparr>p_state := RUNNING\<rparr>) else ret ())
         (thenE (exit_process p sig)
           (if p_ppid q = 0 then modify (\<lambda>k. k\<lparr>k_exit_status := sig\<rparr>) else ret ()))
     else build_signal_frame p sig)"

definition deliver_to :: "int \<Rightarrow> unit km" where
  "deliver_to p = bindE (gp p) (\<lambda>q.
     if p_state q = ZOMBIE then ret ()
     else let pend = p_signal q AND NOT (p_blocked q) in
       if pend = 0 then ret ()
       else let sig = lowest_signal pend in
         thenE (up p (\<lambda>q. q\<lparr>p_signal := p_signal q AND NOT (bit_at sig)\<rparr>)) (take_signal p sig))"

definition deliver_pending :: "unit km" where
  "deliver_pending = bindE (gets (\<lambda>k. map fst (k_procs k))) (for_each deliver_to)"

text \<open>The way back when the handler returned to \<open>MAGIC_SIGRETURN\<close>.\<close>

definition sigreturn :: "int \<Rightarrow> unit km" where
  "sigreturn p =
     bindE (on_cpu p pop32) (\<lambda>signr.
     bindE (gp p) (\<lambda>q.
     thenE (if p_sigframes q \<noteq> [] then
              thenE (up p (\<lambda>q. q\<lparr>p_sigframes := butlast (p_sigframes q)\<rparr>))
                (if last (p_sigframes q)
                 then bindE (on_cpu p pop32) (\<lambda>b. up p (\<lambda>q. q\<lparr>p_blocked := b\<rparr>)) else ret ())
            else ret ())
     (thenE (on_cpu p (bindE pop32 (\<lambda>v. modify (set_rg EAX v))))
     (thenE (on_cpu p (bindE pop32 (\<lambda>v. modify (set_rg ECX v))))
     (thenE (on_cpu p (bindE pop32 (\<lambda>v. modify (set_rg EDX v))))
     (thenE (on_cpu p (bindE pop32 (\<lambda>v. modify (set_eflags v))))
       (on_cpu p (bindE pop32 (\<lambda>v. modify (\<lambda>c. c\<lparr>eip := v\<rparr>))))))))))"

section \<open>The dispatch table\<close>

definition NR_SETUP :: int where "NR_SETUP = 0"
definition NR_EXIT :: int where "NR_EXIT = 1"
definition NR_READ :: int where "NR_READ = 3"
definition NR_WRITE :: int where "NR_WRITE = 4"
definition NR_SYS_OPEN :: int where "NR_SYS_OPEN = 5"
definition NR_CLOSE :: int where "NR_CLOSE = 6"
definition NR_CREAT :: int where "NR_CREAT = 8"
definition NR_LINK :: int where "NR_LINK = 9"
definition NR_UNLINK :: int where "NR_UNLINK = 10"
definition NR_CHDIR :: int where "NR_CHDIR = 12"
definition NR_TIME :: int where "NR_TIME = 13"
definition NR_MKNOD :: int where "NR_MKNOD = 14"
definition NR_CHMOD :: int where "NR_CHMOD = 15"
definition NR_CHOWN :: int where "NR_CHOWN = 16"
definition NR_STAT :: int where "NR_STAT = 18"
definition NR_LSEEK :: int where "NR_LSEEK = 19"
definition NR_GETPID :: int where "NR_GETPID = 20"
definition NR_SETUID :: int where "NR_SETUID = 23"
definition NR_GETUID :: int where "NR_GETUID = 24"
definition NR_STIME :: int where "NR_STIME = 25"
definition NR_FSTAT :: int where "NR_FSTAT = 28"
definition NR_UTIME :: int where "NR_UTIME = 30"
definition NR_ACCESS :: int where "NR_ACCESS = 33"
definition NR_NICE :: int where "NR_NICE = 34"
definition NR_SYNC :: int where "NR_SYNC = 36"
definition NR_RENAME :: int where "NR_RENAME = 38"
definition NR_MKDIR :: int where "NR_MKDIR = 39"
definition NR_RMDIR :: int where "NR_RMDIR = 40"
definition NR_DUP :: int where "NR_DUP = 41"
definition NR_BRK :: int where "NR_BRK = 45"
definition NR_SETGID :: int where "NR_SETGID = 46"
definition NR_GETGID :: int where "NR_GETGID = 47"
definition NR_GETEUID :: int where "NR_GETEUID = 49"
definition NR_GETEGID :: int where "NR_GETEGID = 50"
definition NR_IOCTL :: int where "NR_IOCTL = 54"
definition NR_FCNTL :: int where "NR_FCNTL = 55"
definition NR_UMASK :: int where "NR_UMASK = 60"
definition NR_CHROOT :: int where "NR_CHROOT = 61"
definition NR_DUP2 :: int where "NR_DUP2 = 63"
definition NR_GETPPID :: int where "NR_GETPPID = 64"
definition NR_GETPGRP :: int where "NR_GETPGRP = 65"
definition NR_UNAME :: int where "NR_UNAME = 59"
definition NR_MOUNT :: int where "NR_MOUNT = 21"
definition NR_UMOUNT :: int where "NR_UMOUNT = 22"
definition NR_ULIMIT :: int where "NR_ULIMIT = 58"
definition NR_TIMES :: int where "NR_TIMES = 43"
definition NR_LSTAT :: int where "NR_LSTAT = 84"
definition NR_READLINK :: int where "NR_READLINK = 85"
definition NR_SYMLINK :: int where "NR_SYMLINK = 83"
definition NR_GETRLIMIT :: int where "NR_GETRLIMIT = 76"
definition NR_SETRLIMIT :: int where "NR_SETRLIMIT = 75"
definition NR_GETGROUPS :: int where "NR_GETGROUPS = 80"
definition NR_GETTIMEOFDAY :: int where "NR_GETTIMEOFDAY = 78"
definition NR_SETHOSTNAME :: int where "NR_SETHOSTNAME = 74"
definition NR_FORK :: int where "NR_FORK = 2"
definition NR_WAITPID :: int where "NR_WAITPID = 7"
definition NR_EXECVE :: int where "NR_EXECVE = 11"
definition NR_PIPE :: int where "NR_PIPE = 42"
definition NR_KILL :: int where "NR_KILL = 37"
definition NR_SIGNAL :: int where "NR_SIGNAL = 48"
definition NR_SIGACTION :: int where "NR_SIGACTION = 67"
definition NR_SGETMASK :: int where "NR_SGETMASK = 68"
definition NR_SSETMASK :: int where "NR_SSETMASK = 69"
definition NR_ALARM :: int where "NR_ALARM = 27"
definition NR_PAUSE :: int where "NR_PAUSE = 29"
definition NR_SETSID :: int where "NR_SETSID = 66"
definition NR_SETPGID :: int where "NR_SETPGID = 57"
definition NR_SETREUID :: int where "NR_SETREUID = 70"
definition NR_SETREGID :: int where "NR_SETREGID = 71"

lemmas syscall_numbers = NR_SETUP_def NR_EXIT_def NR_READ_def NR_WRITE_def NR_OPEN_def
  NR_CLOSE_def NR_CREAT_def NR_LINK_def NR_UNLINK_def NR_CHDIR_def NR_TIME_def NR_MKNOD_def
  NR_CHMOD_def NR_CHOWN_def NR_STAT_def NR_LSEEK_def NR_GETPID_def NR_SETUID_def NR_GETUID_def
  NR_STIME_def NR_FSTAT_def NR_UTIME_def NR_ACCESS_def NR_NICE_def NR_SYNC_def NR_RENAME_def
  NR_MKDIR_def NR_RMDIR_def NR_DUP_def NR_BRK_def NR_SETGID_def NR_GETGID_def NR_GETEUID_def
  NR_GETEGID_def NR_IOCTL_def NR_FCNTL_def NR_UMASK_def NR_CHROOT_def NR_DUP2_def NR_GETPPID_def
  NR_GETPGRP_def NR_UNAME_def NR_MOUNT_def NR_UMOUNT_def NR_ULIMIT_def NR_TIMES_def NR_LSTAT_def
  NR_READLINK_def NR_SYMLINK_def NR_GETRLIMIT_def NR_SETRLIMIT_def NR_GETGROUPS_def
  NR_GETTIMEOFDAY_def NR_SETHOSTNAME_def NR_FORK_def NR_WAITPID_def NR_EXECVE_def NR_PIPE_def
  NR_KILL_def NR_SIGNAL_def NR_SIGACTION_def NR_SGETMASK_def NR_SSETMASK_def NR_ALARM_def
  NR_PAUSE_def NR_SETSID_def NR_SETPGID_def NR_SETREUID_def NR_SETREGID_def

type_synonym handler_fn = "int \<Rightarrow> int \<Rightarrow> int \<Rightarrow> int \<Rightarrow> int km"

definition syscall_table :: "(int \<times> handler_fn) list" where
  "syscall_table =
     [(NR_SETUP, sys_setup),
      (NR_EXIT, sys_exit),
      (NR_READ, sys_read),
      (NR_WRITE, sys_write),
      (NR_SYS_OPEN, sys_open),
      (NR_CLOSE, sys_close),
      (NR_CREAT, sys_creat),
      (NR_LINK, sys_link),
      (NR_UNLINK, sys_unlink),
      (NR_CHDIR, sys_chdir),
      (NR_TIME, sys_time),
      (NR_MKNOD, sys_mknod),
      (NR_CHMOD, sys_chmod),
      (NR_CHOWN, sys_chown),
      (NR_STAT, sys_stat),
      (NR_LSEEK, sys_lseek),
      (NR_GETPID, sys_getpid),
      (NR_SETUID, sys_setuid),
      (NR_GETUID, sys_getuid),
      (NR_STIME, sys_stime),
      (NR_FSTAT, sys_fstat),
      (NR_UTIME, sys_utime),
      (NR_ACCESS, sys_access),
      (NR_NICE, sys_nice),
      (NR_SYNC, sys_sync),
      (NR_RENAME, sys_rename),
      (NR_MKDIR, sys_mkdir),
      (NR_RMDIR, sys_rmdir),
      (NR_DUP, sys_dup),
      (NR_BRK, sys_brk),
      (NR_SETGID, sys_setgid),
      (NR_GETGID, sys_getgid),
      (NR_GETEUID, sys_geteuid),
      (NR_GETEGID, sys_getegid),
      (NR_IOCTL, sys_ioctl),
      (NR_FCNTL, sys_fcntl),
      (NR_UMASK, sys_umask),
      (NR_CHROOT, sys_chroot),
      (NR_DUP2, sys_dup2),
      (NR_GETPPID, sys_getppid),
      (NR_GETPGRP, sys_getpgrp),
      (NR_UNAME, sys_uname),
      (NR_MOUNT, sys_mount),
      (NR_UMOUNT, sys_umount),
      (NR_ULIMIT, sys_ulimit),
      (NR_TIMES, sys_times),
      (NR_LSTAT, sys_stat),
      (NR_READLINK, sys_readlink),
      (NR_SYMLINK, sys_symlink),
      (NR_GETRLIMIT, sys_getrlimit),
      (NR_SETRLIMIT, sys_setrlimit),
      (NR_GETGROUPS, sys_getgroups),
      (NR_GETTIMEOFDAY, sys_gettimeofday),
      (NR_SETHOSTNAME, sys_sethostname),
      (NR_FORK, sys_fork),
      (NR_WAITPID, sys_waitpid),
      (NR_EXECVE, sys_execve),
      (NR_PIPE, sys_pipe),
      (NR_KILL, sys_kill),
      (NR_SIGNAL, sys_signal),
      (NR_SIGACTION, sys_sigaction),
      (NR_SGETMASK, sys_sgetmask),
      (NR_SSETMASK, sys_ssetmask),
      (NR_ALARM, sys_alarm),
      (NR_PAUSE, sys_pause),
      (NR_SETSID, sys_setsid),
      (NR_SETPGID, sys_setpgid),
      (NR_SETREUID, sys_setreuid),
      (NR_SETREGID, sys_setregid)]"

definition dispatch :: "int \<Rightarrow> int \<Rightarrow> int \<Rightarrow> int \<Rightarrow> int \<Rightarrow> int km" where
  "dispatch p nr a b c =
     (if nr \<ge> NR_SYSCALLS then ret (- ENOSYS)
      else case map_of syscall_table nr of None \<Rightarrow> ret (- ENOSYS) | Some fn \<Rightarrow> fn p a b c)"

section \<open>The callbacks of the CPU\<close>

definition count_syscall :: "int \<Rightarrow> int \<Rightarrow> int \<Rightarrow> int \<Rightarrow> int \<Rightarrow> int \<Rightarrow> unit km" where
  "count_syscall p nr a b c r =
     bindE (gp p) (\<lambda>q.
     thenE (modify (\<lambda>k. k\<lparr>k_counts := counter_add nr (k_counts k),
        k_recent := bounded (nat (k_trace_capacity k)) (k_recent k @ [(p_pid q, nr, a, b, c, r)])\<rparr>))
       (up p (\<lambda>q. q\<lparr>p_counts := counter_add nr (p_counts q)\<rparr>)))"

text \<open>The value of a call: an error the file system, the loader or the memory raised is its number.\<close>

definition errno_of :: "exn \<Rightarrow> int option" where
  "errno_of e = (case e of
     FsError n \<Rightarrow> Some n | ExecError n \<Rightarrow> Some n | SegFault _ _ _ \<Rightarrow> Some EFAULT | _ \<Rightarrow> None)"

definition syscall :: "int \<Rightarrow> int \<Rightarrow> int \<Rightarrow> int \<Rightarrow> int \<Rightarrow> int km" where
  "syscall p nr a b c =
     bindE (catchE (dispatch p nr a b c)
        (\<lambda>e. case errno_of e of Some n \<Rightarrow> ret (- n) | None \<Rightarrow> raise e)) (\<lambda>r.
     thenE (count_syscall p nr a b c r) (ret r))"

text \<open>
  While a process runs, its CPU is the state the interpreter works on, extended by the
  kernel. \<open>park\<close> puts it back into the process table, \<open>unpark\<close> takes it out again.
\<close>

definition park :: "int \<Rightarrow> kernel cpu_scheme \<Rightarrow> kernel" where
  "park p c = (cpu.more c)\<lparr>k_procs := AList.map_entry p (\<lambda>q. q\<lparr>p_cpu := Some (cpu.truncate c)\<rparr>) (k_procs (cpu.more c))\<rparr>"

definition unpark :: "int \<Rightarrow> kernel \<Rightarrow> kernel cpu_scheme \<Rightarrow> kernel cpu_scheme" where
  "unpark p k c = (case map_of (k_procs k) p of
     Some q \<Rightarrow> (case p_cpu q of Some c' \<Rightarrow> cpu.extend c' k | None \<Rightarrow> c\<lparr>cpu.more := k\<rparr>)
   | None \<Rightarrow> c\<lparr>cpu.more := k\<rparr>)"

text \<open>
  \<open>_on_int\<close>. After \<open>execve\<close> the interpreter still holds the old CPU (\<open>Replaced\<close> makes it
  stop), and the process table has the new one.
\<close>

definition on_int_k :: "int \<Rightarrow> (kernel, unit) cm" where
  "on_int_k vec c =
     (if vec \<noteq> 0x80 then (Inr (), c)
      else case k_current (cpu.more c) of
        None \<Rightarrow> (Inl AttributeError, c)
      | Some p \<Rightarrow>
          (case syscall p (rg EAX c) (rg EBX c) (rg ECX c) (rg EDX c) (park p c) of
             (Inl Replaced, k) \<Rightarrow> (Inl Replaced, c\<lparr>cpu.more := k\<rparr>)
           | (Inl e, k) \<Rightarrow> (Inl e, unpark p k c)
           | (Inr r, k) \<Rightarrow> (Inr (), set_rg EAX (r AND 0xFFFFFFFF) (unpark p k c))))"

definition on_fault_k :: "exn \<Rightarrow> (kernel, unit) cm" where
  "on_fault_k e = raise (Exited (if e = DivideError then 0x88 else 0x8B))"

end
