(* ===== verification/Kernel_Sched.thy ===== *)
theory Kernel_Sched
  imports Kernel_Signal
begin

text \<open>
  The built-in init, the scheduler and the debugger's slices. The monitor's \<open>interact\<close> is an
  argument of the loop (\<open>None\<close> without a monitor), and so is the text of an error message
  (\<open>str(e)\<close>), which one console message prints.
\<close>

section \<open>Console messages\<close>

definition digit :: "nat \<Rightarrow> byte" where
  "digit d = of_nat (if d < 10 then 48 + d else 87 + d)"

fun digits :: "nat \<Rightarrow> nat \<Rightarrow> bytes" where
  "digits b n = (if b < 2 \<or> n < b then [digit n] else digits b (n div b) @ [digit (n mod b)])"

declare digits.simps [simp del]

definition child_died :: "int \<Rightarrow> int \<Rightarrow> bytes" where
  "child_died pid code =
     (let hex = digits 16 (nat code) in
      [10, 99, 104, 105, 108, 100, 32] @ digits 10 (nat pid) @
      [32, 100, 105, 101, 100, 32, 119, 105, 116, 104, 32, 99, 111, 100, 101, 32] @
      replicate (4 - length hex) 48 @ hex @ [10])"

definition no_shell :: "bytes \<Rightarrow> bytes" where
  "no_shell msg = [105, 110, 105, 116, 58, 32, 230, 151, 160, 230, 179, 149, 229, 144, 175, 229, 138,
     168, 32, 47, 98, 105, 110, 47, 115, 104, 58, 32] @ msg @ [13, 10]"

section \<open>The built-in init\<close>

definition boot_init :: "int km" where
  "boot_init =
     bindE new_process (\<lambda>p.
     thenE (up p (\<lambda>q. q\<lparr>p_name := ''init'', p_kernel_task := True\<rparr>))
     (thenE (modify (\<lambda>k. k\<lparr>k_init_proc := Some p, k_init_state := InitRc, k_init_child := 0\<rparr>))
     (thenE (setup_std_fds p)
     (thenE (modify (\<lambda>k. k\<lparr>k_current := Some p\<rparr>)) (ret p)))))"

definition redirect_stdin :: "int \<Rightarrow> string \<Rightarrow> unit km" where
  "redirect_stdin p path =
     bindE (gp p) (\<lambda>q.
     thenE (case p_fds q ! 0 of None \<Rightarrow> ret () | Some f \<Rightarrow> release_file f)
     (bindE (in_fs (walk path (p_cwd q) (p_root q))) (\<lambda>i.
     thenE (in_fs (upd i (\<lambda>v. v\<lparr>v_open_refs := v_open_refs v + 1\<rparr>)))
     (bindE (new_file (OpenFile (ONode i) 0)) (\<lambda>f. set_fd p 0 (Some f))))))"

definition spawn :: "string \<Rightarrow> bytes list \<Rightarrow> bytes list \<Rightarrow> string option \<Rightarrow> bool \<Rightarrow> int km" where
  "spawn path argv envp stdin_from new_session =
     bindE new_process (\<lambda>p.
     bindE (gets k_init_proc) (\<lambda>ip. case ip of None \<Rightarrow> raise AttributeError | Some i \<Rightarrow>
     thenE (up p (\<lambda>q. q\<lparr>p_ppid := i, p_name := path\<rparr>))
     (bindE (gp p) (\<lambda>q.
     bindE (exec_image path argv envp (p_cwd q) (p_root q)) (\<lambda>im.
     thenE (start_cpu p im)
     (thenE (if new_session then up p (\<lambda>q. q\<lparr>p_leader := True, p_session := p_pid q, p_pgrp := p_pid q\<rparr>) else ret ())
     (thenE (setup_std_fds p)
     (thenE (case stdin_from of None \<Rightarrow> ret () | Some f \<Rightarrow> redirect_stdin p f)
     (thenE (bindE (gp p) (\<lambda>q. modify (\<lambda>k.
          if new_session
          then k\<lparr>k_tty := map_option (\<lambda>t. t\<lparr>tt_session := p_session q, tt_pgrp := p_pgrp q\<rparr>) (k_tty k)\<rparr>
          else k)))
     (thenE (enqueue p) (ret p)))))))))))"

definition console_alive :: "kernel \<Rightarrow> bool" where
  "console_alive k = (case k_tty k of
     None \<Rightarrow> False
   | Some t \<Rightarrow>
       if is_tty (tt_term t) then True
       else if at_eof (tt_term t) then False
       else has_pending (tt_term t) \<or> tt_ready t \<noteq> [])"

definition set_init :: "init_state \<Rightarrow> unit km" where
  "set_init s = modify (\<lambda>k. k\<lparr>k_init_state := s\<rparr>)"

definition spawn_errors :: "exn \<Rightarrow> bool" where
  "spawn_errors e \<longleftrightarrow> (case e of FsError _ \<Rightarrow> True | ExecError _ \<Rightarrow> True | _ \<Rightarrow> False)"

definition init_wait :: "bool \<Rightarrow> unit km" where
  "init_wait was_shell =
     bindE (gets (\<lambda>k. map_of (k_procs k) (k_init_child k))) (\<lambda>child.
     if (case child of None \<Rightarrow> True | Some q \<Rightarrow> p_state q = ZOMBIE) then
       thenE (case child of None \<Rightarrow> ret () | Some q \<Rightarrow>
           thenE (reap (p_pid q))
             (if was_shell then write_console (child_died (p_pid q) (p_exit_code q)) else ret ()))
       (bindE (gets console_alive) (\<lambda>alive.
          set_init (if \<not> was_shell \<or> alive then InitShell else InitDone)))
     else ret ())"

definition init_step :: "(exn \<Rightarrow> bytes) \<Rightarrow> unit km" where
  "init_step msg =
     bindE (gets k_init_state) (\<lambda>s. case s of
       InitRc \<Rightarrow>
         catchE (bindE (spawn ''/bin/sh'' [encode_name ''/bin/sh''] [encode_name ''HOME=/''] (Some ''/etc/rc'') False)
                  (\<lambda>c. modify (\<lambda>k. k\<lparr>k_init_child := c, k_init_state := WaitRc\<rparr>)))
           (\<lambda>e. if spawn_errors e then set_init InitShell else raise e)
     | WaitRc \<Rightarrow> init_wait False
     | WaitShell \<Rightarrow> init_wait True
     | InitShell \<Rightarrow>
         catchE (bindE (spawn ''/bin/sh'' [encode_name ''-/bin/sh''] [encode_name ''HOME=/usr/root''] None True)
                  (\<lambda>c. modify (\<lambda>k. k\<lparr>k_init_child := c, k_init_state := WaitShell\<rparr>)))
           (\<lambda>e. if spawn_errors e then thenE (write_console (no_shell (msg e))) (set_init InitDone) else raise e)
     | InitDone \<Rightarrow> ret ())"

section \<open>Scheduling\<close>

definition pump_tty :: "bool \<Rightarrow> unit km" where
  "pump_tty blocking =
     bindE (gets k_tty) (\<lambda>tm. case tm of None \<Rightarrow> ret ()
       | Some _ \<Rightarrow> with_tty (\<lambda>esc. pump post_default esc blocking))"

definition each_proc :: "(int \<Rightarrow> unit km) \<Rightarrow> unit km" where
  "each_proc f = bindE (gets (\<lambda>k. map fst (k_procs k))) (for_each f)"

definition check_alarm :: "int \<Rightarrow> unit km" where
  "check_alarm p = bindE (gp p) (\<lambda>q. bindE (gets k_jiffies) (\<lambda>j.
     if p_alarm_at q \<noteq> 0 \<and> j \<ge> p_alarm_at q
     then thenE (up p (\<lambda>q. q\<lparr>p_alarm_at := 0\<rparr>)) (post_signal p SIGALRM) else ret ()))"

text \<open>What a sleeper waits for, on the state of the kernel.\<close>

definition wait_over :: "kernel \<Rightarrow> proc \<Rightarrow> bool" where
  "wait_over k q = (case p_channel q of
     Some (PipeRead n) \<Rightarrow> (case k_pipes k n of Some x \<Rightarrow> pbuf x \<noteq> [] \<or> writers x = 0 | None \<Rightarrow> False)
   | Some (PipeWrite n) \<Rightarrow> (case k_pipes k n of Some x \<Rightarrow> pipe_space x > 0 \<or> readers x = 0 | None \<Rightarrow> False)
   | Some (ForChild _) \<Rightarrow> (\<exists>r \<in> snd ` set (k_procs k). p_ppid r = p_pid q \<and> p_state r = ZOMBIE)
   | Some OnTerminal \<Rightarrow> (case k_tty k of Some t \<Rightarrow> tt_ready t \<noteq> [] \<or> tt_eof_pending t | None \<Rightarrow> False)
   | _ \<Rightarrow> False)"

definition wake_waiter :: "int \<Rightarrow> unit km" where
  "wake_waiter p = bindE (gp p) (\<lambda>q. bindE (gets (\<lambda>k. wait_over k q)) (\<lambda>over.
     if p_state q = SLEEPING \<and> over then k_wake p False else ret ()))"

definition runnable :: "kernel \<Rightarrow> int \<Rightarrow> bool" where
  "runnable k p = (case map_of (k_procs k) p of
     None \<Rightarrow> False | Some q \<Rightarrow> p_state q = RUNNING \<and> \<not> p_kernel_task q)"

definition gone :: "kernel \<Rightarrow> int \<Rightarrow> bool" where
  "gone k p = (case map_of (k_procs k) p of None \<Rightarrow> True | Some q \<Rightarrow> p_state q = ZOMBIE)"

fun pick_loop :: "nat \<Rightarrow> int option km" where
  "pick_loop 0 k = (Inr None, k)"
| "pick_loop (Suc n) k = (case k_runq k of
     [] \<Rightarrow> (Inl IndexError, k)
   | p # ps \<Rightarrow>
       if gone k p then pick_loop n (k\<lparr>k_runq := ps\<rparr>)
       else let k = k\<lparr>k_runq := ps @ [p]\<rparr> in
         if runnable k p then (Inr (Some p), k) else pick_loop n k)"

definition pick :: "int option km" where
  "pick k = pick_loop (length (k_runq k)) k"

section \<open>Debugging\<close>

definition debug_active :: "kernel \<Rightarrow> bool" where
  "debug_active k \<longleftrightarrow> k_breakpoints k \<noteq> [] \<or> k_temp_breakpoints k \<noteq> [] \<or> k_step_request k \<noteq> 0 \<or>
     k_debug_target k \<noteq> None"

definition debug_break :: "stop_reason \<Rightarrow> unit km" where
  "debug_break r = modify (\<lambda>k. k\<lparr>k_step_request := 0, k_debug_stop := Some r, k_monitor_pending := True\<rparr>)"

definition break_if_active :: "stop_reason \<Rightarrow> unit km" where
  "break_if_active r = bindE (gets debug_active) (\<lambda>a. if a then debug_break r else ret ())"

definition in_kernel :: "'a km \<Rightarrow> (kernel, 'a) cm" where
  "in_kernel m c = (case m (cpu.more c) of (r, k) \<Rightarrow> (r, c\<lparr>cpu.more := k\<rparr>))"

text \<open>The checks after one instruction at \<open>a\<close>; true when the slice is over.\<close>

definition debug_check :: "int \<Rightarrow> bool \<Rightarrow> int \<Rightarrow> bool km" where
  "debug_check pid pinned a =
     bindE (gets k_step_request) (\<lambda>n.
     let stepping = (n \<noteq> 0 \<and> pinned) in
     thenE (if stepping then modify (\<lambda>k. k\<lparr>k_step_request := n - 1\<rparr>) else ret ())
     (if stepping \<and> n - 1 = 0 then thenE (debug_break (StopStep pid)) (ret True)
      else bindE (gets (\<lambda>k. k)) (\<lambda>k.
        if a \<in> set (k_temp_breakpoints k) then
          thenE (modify (\<lambda>k. k\<lparr>k_temp_breakpoints := removeAll a (k_temp_breakpoints k)\<rparr>))
          (thenE (debug_break (StopUntil pid a)) (ret True))
        else if a \<in> set (k_breakpoints k) then thenE (debug_break (StopBreak pid a)) (ret True)
        else ret False)))"

fun debug_loop :: "int \<Rightarrow> bool \<Rightarrow> nat \<Rightarrow> (kernel, unit) cm" where
  "debug_loop pid pinned 0 c = (Inr (), c)"
| "debug_loop pid pinned (Suc n) c =
     (if halted c then (Inr (), c)
      else case run (Some on_int_k) (Some on_fault_k) 1 c of
        (Inl e, c') \<Rightarrow> (Inl e, c')
      | (Inr _, c') \<Rightarrow>
          (case in_kernel (debug_check pid pinned (eip c')) c' of
             (Inl e, c'') \<Rightarrow> (Inl e, c'')
           | (Inr over, c'') \<Rightarrow> if over then (Inr (), c'') else debug_loop pid pinned n c''))"

definition debug_slice :: "int \<Rightarrow> (kernel, unit) cm" where
  "debug_slice pid c =
     (let k = cpu.more c;
          budget = (if k_step_request k \<noteq> 0 then 1 else TIMESLICE);
          pinned = (k_debug_target k = None \<or> k_debug_target k = Some pid)
      in debug_loop pid pinned (nat budget) c)"

section \<open>A time slice\<close>

definition slice :: "int \<Rightarrow> (kernel, unit) cm" where
  "slice pid c =
     (let k = cpu.more c in
      if k_breakpoints k \<noteq> [] \<or> k_temp_breakpoints k \<noteq> [] \<or> k_step_request k \<noteq> 0
      then debug_slice pid c
      else bindE (run (Some on_int_k) (Some on_fault_k) TIMESLICE) (\<lambda>_. ret ()) c)"

text \<open>
  What follows a slice that ended with \<open>r\<close>, \<open>halted\<close> telling whether the CPU stopped; the
  value is what \<open>run\<close> returns, if it returns here.
\<close>

definition after_slice :: "int \<Rightarrow> int \<Rightarrow> exn + unit \<Rightarrow> bool \<Rightarrow> int option km" where
  "after_slice p pid r stopped = (case r of
     Inr _ \<Rightarrow>
       if stopped then thenE (exit_process p 0) (thenE (break_if_active (StopHalted pid)) (ret None))
       else ret None
   | Inl e \<Rightarrow> (case e of
       Exited code \<Rightarrow>
         thenE (break_if_active (StopExited pid code))
         (thenE (exit_process p code)
         (bindE (gp p) (\<lambda>q. ret (if p_ppid q = 0 then Some code else None))))
     | Replaced \<Rightarrow> thenE (break_if_active (StopExecve pid)) (ret None)
     | MagicJump _ \<Rightarrow> thenE (sigreturn p) (thenE (break_if_active (StopSigreturn pid)) (ret None))
     | Blocked ch \<Rightarrow>
         thenE (up p (\<lambda>q. q\<lparr>p_state := SLEEPING, p_channel := Some ch, p_restart := True\<rparr>))
         (thenE (on_cpu p (modify (\<lambda>c. c\<lparr>eip := eip c - 2\<rparr>)))
         (thenE (dequeue p) (thenE (break_if_active (StopBlocked pid ch)) (ret None))))
     | _ \<Rightarrow> raise e))"

definition charge :: "int \<Rightarrow> int \<Rightarrow> unit km" where
  "charge p n =
     thenE (up p (\<lambda>q. q\<lparr>p_utime := p_utime q + n\<rparr>))
       (modify (\<lambda>k. k\<lparr>k_jiffies := k_jiffies k + max (n * HZ div TIMESLICE) 1\<rparr>))"

text \<open>\<open>finally\<close>: the instructions are charged whatever happened.\<close>

definition run_process :: "int \<Rightarrow> (int option \<times> int) km" where
  "run_process p =
     thenE (modify (\<lambda>k. k\<lparr>k_current := Some p\<rparr>))
     (bindE (gp p) (\<lambda>q. bindE (get_cpu p) (\<lambda>c0 k.
        case slice p (cpu.extend c0 k) of
          (r, c) \<Rightarrow>
            let k1 = (if r = Inl Replaced then cpu.more c else park p c);
                n = max (icount c - icount c0) 1
            in case after_slice p (p_pid q) r (halted c) k1 of
                 (r', k2) \<Rightarrow> thenE (charge p n) (bindE (liftR r') (\<lambda>x. ret (x, n))) k2)))"

section \<open>The main loop\<close>

datatype turn_end = Return int | Idled | Ran int

definition enter_monitor :: "unit km option \<Rightarrow> unit km" where
  "enter_monitor mon =
     bindE (gets k_monitor_pending) (\<lambda>b.
     if b then thenE (modify (\<lambda>k. k\<lparr>k_monitor_pending := False\<rparr>))
            (case mon of None \<Rightarrow> ret () | Some m \<Rightarrow> m)
     else ret ())"

definition some_alive :: "kernel \<Rightarrow> bool" where
  "some_alive k \<longleftrightarrow> (\<exists>q \<in> snd ` set (k_procs k). p_state q \<noteq> ZOMBIE \<and> \<not> p_kernel_task q)"

text \<open>
  A turn: the events since the last one, a step of the built-in init, and the choice of a
  process with its slice, or an idle wait.
\<close>

definition events :: "unit km" where
  "events =
     thenE (pump_tty False)
     (thenE (each_proc check_alarm)
     (thenE (each_proc wake_waiter) deliver_pending))"

definition schedule :: "turn_end km" where
  "schedule = bindE pick (\<lambda>p. case p of
     None \<Rightarrow>
       bindE (gets (\<lambda>k. k)) (\<lambda>k.
       if \<not> some_alive k \<and> k_init_state k = InitDone then ret (Return (k_exit_status k))
       else thenE (pump_tty True)
         (thenE (modify (\<lambda>k. k\<lparr>k_jiffies := k_jiffies k + 2\<rparr>)) (ret Idled)))
   | Some p \<Rightarrow>
       bindE (run_process p) (\<lambda>(r, n). ret (case r of Some code \<Rightarrow> Return code | None \<Rightarrow> Ran n)))"

definition turn :: "unit km option \<Rightarrow> (exn \<Rightarrow> bytes) \<Rightarrow> turn_end km" where
  "turn mon msg =
     bindE (gets (\<lambda>k. k)) (\<lambda>k.
     if k_quit k then ret (Return (k_exit_status k))
     else
       thenE (enter_monitor mon)
       (bindE (gets (\<lambda>k. k)) (\<lambda>k.
       if k_quit k then ret (Return (k_exit_status k))
       else thenE events (thenE (init_step msg) schedule))))"

definition MAX_IDLE :: int where "MAX_IDLE = 20000"

lemma charge_result: "fst (charge p n k) = Inr ()"
  by (simp add: charge_def up_def modify_def thenE_def bindE_def)

text \<open>Every turn that runs a process counts at least one instruction.\<close>

lemma charged_counts:
  "fst (thenE (charge p n) (bindE (liftR r) (\<lambda>x. ret (x, n))) k) = Inr y \<Longrightarrow> snd y = n"
  by (auto simp: thenE_def bindE_def liftR_def ret_def split: prod.splits sum.splits)

lemma run_process_counts: "gives (\<lambda>_. True) (run_process p) (\<lambda>x. 1 \<le> snd x)"
  unfolding run_process_def
  by (intro gives_thenE gives_bindE [where R = "\<lambda>_. True"] gives_anything)
    (auto simp: gives_def Let_def split: prod.splits dest!: charged_counts)

lemma turn_counts:
  assumes "turn mon msg k = (Inr (Ran n), k')"
  shows "1 \<le> n"
proof -
  have "gives (\<lambda>_. True) (turn mon msg) (\<lambda>t. \<forall>n. t = Ran n \<longrightarrow> 1 \<le> n)"
    unfolding turn_def schedule_def
    by (intro gives_bindE [OF run_process_counts] gives_bindE [where R = "\<lambda>_. True"] gives_thenE
        gives_rules TrueI; auto split: prod.splits option.splits simp: gives_def ret_def)
  from gives_result [OF this TrueI assms] show ?thesis by simp
qed

function sched :: "unit km option \<Rightarrow> (exn \<Rightarrow> bytes) \<Rightarrow> int \<Rightarrow> int \<Rightarrow> int \<Rightarrow> int km" where
  "sched mon msg limit tot idle k =
     (if \<not> tot < limit then (Inr (k_exit_status k), k)
      else case turn mon msg k of
        (Inl e, k') \<Rightarrow> (Inl e, k')
      | (Inr (Return code), k') \<Rightarrow> (Inr code, k')
      | (Inr Idled, k') \<Rightarrow>
          if idle + 1 > MAX_IDLE then (Inr (k_exit_status k'), k')
          else sched mon msg limit tot (idle + 1) k'
      | (Inr (Ran n), k') \<Rightarrow> sched mon msg limit (tot + n) 0 k')"
  by pat_completeness auto

termination
proof (relation "measures [\<lambda>(mon, msg, limit, tot, idle, k). nat (limit - tot),
    \<lambda>(mon, msg, limit, tot, idle, k). nat (MAX_IDLE + 1 - idle)]", goal_cases)
  case 1
  then show ?case by simp
next
  case (2 mon msg limit tot idle k)
  then show ?case by simp
next
  case (3 mon msg limit tot idle k x k' y n)
  then have "turn mon msg k = (Inr (Ran n), k')" by simp
  from turn_counts [OF this] 3 show ?case by simp
qed

definition run_kernel :: "unit km option \<Rightarrow> (exn \<Rightarrow> bytes) \<Rightarrow> int \<Rightarrow> int km" where
  "run_kernel mon msg limit =
     bindE (gets k_current) (\<lambda>cur.
     thenE (case cur of None \<Rightarrow> ret () | Some p \<Rightarrow> enqueue p) (sched mon msg limit 0 0))"

end
