(* ===== verification/Kernel_Acct.thy ===== *)
theory Kernel_Acct
  imports Kernel_Sched Ktty_Inv Kvfs_Inv
begin

text \<open>
  The accounting of descriptors: how many descriptors of how many processes name an open file
  (\<open>uses\<close>), and the state of the heaps that agrees with such a count (\<open>balanced\<close>): the
  reference count of every file in use is its number of descriptors, and the counters of a
  pipe are the numbers of descriptors on its two ends.
\<close>

section \<open>Association lists\<close>

lemma map_of_up [simp]:
  "map_of (AList.map_entry p f ps) = (map_of ps)(p := map_option f (map_of ps p))"
  by (induction ps) (auto simp: fun_eq_iff)

lemma keys_map_entry [simp]: "map fst (AList.map_entry p f ps) = map fst ps"
  by (induction ps) auto

lemma map_entry_absent: "map_of ps p = None \<Longrightarrow> AList.map_entry p f ps = ps"
  by (induction ps) auto

lemma map_entry_local:
  "map_of ps p = Some q \<Longrightarrow> f q = g q \<Longrightarrow> AList.map_entry p f ps = AList.map_entry p g ps"
  by (induction ps) (auto split: if_splits)

lemma delete_absent: "map_of ps p = None \<Longrightarrow> AList.delete p ps = ps"
  by (simp add: map_of_eq_None_iff)

section \<open>Descriptors that name a file\<close>

definition proc_uses :: "proc \<Rightarrow> nat \<Rightarrow> int" where
  "proc_uses q i = int (count_list (p_fds q) (Some i))"

definition uses :: "(int \<times> proc) list \<Rightarrow> nat \<Rightarrow> int" where
  "uses ps i = sum_list (map (\<lambda>(p, q). proc_uses q i) ps)"

lemma proc_uses_nonneg [simp]: "0 \<le> proc_uses q i"
  by (simp add: proc_uses_def)

lemma uses_nonneg: "0 \<le> uses ps i"
  unfolding uses_def by (intro sum_list_nonneg) auto

lemma uses_Nil [simp]: "uses [] i = 0"
  by (simp add: uses_def)

lemma uses_Cons [simp]: "uses ((p, q) # ps) i = proc_uses q i + uses ps i"
  by (simp add: uses_def)

lemma uses_map_entry:
  "distinct (map fst ps) \<Longrightarrow> map_of ps p = Some q \<Longrightarrow>
   uses (AList.map_entry p f ps) i = uses ps i + proc_uses (f q) i - proc_uses q i"
proof (induction ps)
  case (Cons x ps)
  obtain p' q' where x: "x = (p', q')" by fastforce
  show ?case
  proof (cases "p' = p")
    case True
    with Cons.prems x have "map_of ps p = None" "q' = q"
      by (auto simp: map_of_eq_None_iff)
    with True x show ?thesis by (simp add: map_entry_absent)
  next
    case False
    with Cons x show ?thesis by simp
  qed
qed simp

lemma uses_add: "map_of ps p = None \<Longrightarrow> uses (AList.update p q ps) i = uses ps i + proc_uses q i"
  by (induction ps) (auto split: if_splits)

lemma uses_delete:
  "distinct (map fst ps) \<Longrightarrow> map_of ps p = Some q \<Longrightarrow> uses (AList.delete p ps) i = uses ps i - proc_uses q i"
proof (induction ps)
  case (Cons x ps)
  obtain p' q' where x: "x = (p', q')" by fastforce
  show ?case
  proof (cases "p' = p")
    case True
    with Cons.prems x have "map_of ps p = None" "q' = q"
      by (auto simp: map_of_eq_None_iff)
    with True x show ?thesis by (simp add: delete_absent)
  next
    case False
    with Cons x show ?thesis by simp
  qed
qed simp

lemma proc_uses_le: "distinct (map fst ps) \<Longrightarrow> map_of ps p = Some q \<Longrightarrow> proc_uses q i \<le> uses ps i"
  using uses_delete [of ps p q i] uses_nonneg [of "AList.delete p ps" i] by simp

lemma uses_map:
  "(\<And>q. p_fds (f q) = p_fds q) \<Longrightarrow> uses (map (\<lambda>(i, q). (i, f q)) ps) = uses ps"
  by (rule ext) (simp add: uses_def proc_uses_def o_def case_prod_unfold)

lemma count_list_update:
  assumes "n < length xs"
  shows "int (count_list (xs[n := v]) x) =
    int (count_list xs x) - (if xs ! n = x then 1 else 0) + (if v = x then 1 else 0)"
proof -
  have e: "xs = take n xs @ xs ! n # drop (Suc n) xs"
    using assms by (rule id_take_nth_drop)
  have u: "xs[n := v] = take n xs @ v # drop (Suc n) xs"
    using assms by (rule upd_conv_take_nth_drop)
  have "count_list xs x = count_list (take n xs) x + count_list (xs ! n # drop (Suc n) xs) x"
    using e by (metis count_list_append)
  then show ?thesis unfolding u count_list_append by simp
qed

section \<open>Heaps that agree with a count\<close>

definition ends :: "(open_file \<Rightarrow> bool) \<Rightarrow> (nat \<Rightarrow> int) \<Rightarrow> (nat \<rightharpoonup> open_file) \<Rightarrow> nat \<Rightarrow> nat \<Rightarrow> int" where
  "ends R U fs nf n = (\<Sum>i < nf. case fs i of
     Some f \<Rightarrow> if f_obj f = OPipe n \<and> R f then U i else 0 | None \<Rightarrow> 0)"

definition pipe_counts :: "(nat \<Rightarrow> int) \<Rightarrow> (nat \<rightharpoonup> open_file) \<Rightarrow> nat \<Rightarrow> nat \<Rightarrow> pipe \<Rightarrow> bool" where
  "pipe_counts U fs nf n x \<longleftrightarrow> readers x = ends f_readable U fs nf n \<and> writers x = ends f_writable U fs nf n"

text \<open>The pipes in \<open>B\<close> are being made and need not agree yet.\<close>

definition balanced :: "nat set \<Rightarrow> (nat \<Rightarrow> int) \<Rightarrow> kernel \<Rightarrow> bool" where
  "balanced B U k \<longleftrightarrow> (\<forall>i. 0 \<le> U i) \<and>
     (\<forall>i. U i \<noteq> 0 \<longrightarrow> (\<exists>f. k_files k i = Some f \<and> f_refs f = U i)) \<and>
     (\<forall>i f. k_files k i = Some f \<longrightarrow> i < k_next_file k) \<and>
     (\<forall>i f n. k_files k i = Some f \<longrightarrow> f_obj f = OPipe n \<longrightarrow> k_pipes k n \<noteq> None) \<and>
     (\<forall>n x. k_pipes k n = Some x \<longrightarrow> n < k_next_pipe k) \<and>
     (\<forall>n x. k_pipes k n = Some x \<longrightarrow> length (pbuf x) \<le> 4095 \<and>
        (n \<notin> B \<longrightarrow> pipe_counts U (k_files k) (k_next_file k) n x))"

lemma balanced_same:
  "balanced B U k \<Longrightarrow> k_files k' = k_files k \<Longrightarrow> k_next_file k' = k_next_file k \<Longrightarrow>
   k_pipes k' = k_pipes k \<Longrightarrow> k_next_pipe k' = k_next_pipe k \<Longrightarrow> balanced B U k'"
  by (simp add: balanced_def)

lemma ends_nonneg: "(\<And>i. 0 \<le> U i) \<Longrightarrow> 0 \<le> ends R U fs nf n"
  unfolding ends_def by (intro sum_nonneg) (auto split: option.splits)

lemma ends_count:
  assumes "i < nf" and "fs i = Some f"
  shows "ends R (U(i := U i + d)) fs nf n = ends R U fs nf n + (if f_obj f = OPipe n \<and> R f then d else 0)"
proof -
  have "ends R (U(i := U i + d)) fs nf n = (\<Sum>j < nf. (case fs j of
      Some f \<Rightarrow> if f_obj f = OPipe n \<and> R f then U j else 0 | None \<Rightarrow> 0) +
      (if j = i then if f_obj f = OPipe n \<and> R f then d else 0 else 0))"
    unfolding ends_def using assms(2) by (intro sum.cong refl) (auto split: option.splits)
  also have "\<dots> = ends R U fs nf n + (if f_obj f = OPipe n \<and> R f then d else 0)"
    using assms(1) by (simp add: sum.distrib ends_def)
  finally show ?thesis .
qed

lemma ends_file:
  assumes "fs i = Some f" and "f_obj g = f_obj f" and "R g = R f"
  shows "ends R U (fs(i \<mapsto> g)) nf n = ends R U fs nf n"
  unfolding ends_def using assms by (intro sum.cong refl) (auto split: option.splits)

lemma ends_le:
  assumes "\<And>i. 0 \<le> U i" and "i < nf" and "fs i = Some f" and "f_obj f = OPipe n" and "R f"
  shows "U i \<le> ends R U fs nf n"
proof -
  have "U i = (case fs i of Some f \<Rightarrow> if f_obj f = OPipe n \<and> R f then U i else 0 | None \<Rightarrow> 0)"
    using assms by simp
  also have "\<dots> \<le> ends R U fs nf n"
    unfolding ends_def using assms(1,2) by (intro member_le_sum) (auto split: option.splits)
  finally show ?thesis .
qed

lemma ends_new:
  assumes "fs nf = None" and "U nf = 0"
  shows "ends R U (fs(nf \<mapsto> f)) (Suc nf) n = ends R U fs nf n"
proof -
  have "ends R U (fs(nf \<mapsto> f)) nf n = ends R U fs nf n"
    unfolding ends_def by (intro sum.cong refl) auto
  then show ?thesis using assms by (simp add: ends_def)
qed

lemma balanced_use: "balanced B U k \<Longrightarrow> U i \<noteq> 0 \<Longrightarrow> \<exists>f. k_files k i = Some f \<and> f_refs f = U i \<and> i < k_next_file k"
  unfolding balanced_def by metis

lemma balanced_fresh: "balanced B U k \<Longrightarrow> k_next_file k \<le> i \<Longrightarrow> U i = 0 \<and> k_files k i = None"
  unfolding balanced_def by (metis not_None_eq not_less)


section \<open>Taking and dropping references\<close>

text \<open>A step on the heaps of open files and pipes and on the inodes, and on nothing else.\<close>

definition heap_step :: "kernel \<Rightarrow> kernel \<Rightarrow> bool" where
  "heap_step k k' \<longleftrightarrow> (\<exists>fs ps v. k' = k\<lparr>k_files := fs, k_pipes := ps, k_fs := v\<rparr>)"

lemma heap_stepD:
  "heap_step k k' \<Longrightarrow> k_procs k' = k_procs k \<and> k_next_pid k' = k_next_pid k \<and> k_runq k' = k_runq k \<and>
     k_next_file k' = k_next_file k \<and> k_next_pipe k' = k_next_pipe k \<and> k_tty k' = k_tty k \<and>
     k_current k' = k_current k"
  by (auto simp: heap_step_def)

text \<open>
  One reference of a file more or less, with the ends of its pipe: \<open>d\<close> is 1 for
  \<open>_acquire_fd\<close> and -1 for \<open>_release_file\<close>.
\<close>

definition moved :: "int \<Rightarrow> nat \<Rightarrow> open_file \<Rightarrow> kernel \<Rightarrow> kernel" where
  "moved d i f k = k\<lparr>k_files := (k_files k)(i \<mapsto> f\<lparr>f_refs := f_refs f + d\<rparr>),
     k_pipes := (case f_obj f of
        OPipe n \<Rightarrow> (k_pipes k)(n := map_option (\<lambda>x. x\<lparr>readers := readers x + (if f_readable f then d else 0),
            writers := writers x + (if f_writable f then d else 0)\<rparr>) (k_pipes k n))
      | _ \<Rightarrow> k_pipes k)\<rparr>"

lemma f_modes_refs [simp]: "f_readable (f\<lparr>f_refs := r\<rparr>) = f_readable f" "f_writable (f\<lparr>f_refs := r\<rparr>) = f_writable f"
  by (simp_all add: f_readable_def f_writable_def)

lemma balanced_moved:
  assumes b: "balanced {} U k" and f: "k_files k i = Some f" and u: "U i \<noteq> 0" and d: "0 \<le> U i + d"
  shows "balanced {} (U(i := U i + d)) (moved d i f k)"
proof -
  let ?fs = "(k_files k)(i \<mapsto> f\<lparr>f_refs := f_refs f + d\<rparr>)"
  have i: "i < k_next_file k" and r: "f_refs f = U i"
    using balanced_use [OF b u] f by auto
  have e: "ends R (U(i := U i + d)) ?fs (k_next_file k) n =
      ends R U (k_files k) (k_next_file k) n + (if f_obj f = OPipe n \<and> R f then d else 0)"
    if "R (f\<lparr>f_refs := f_refs f + d\<rparr>) = R f" for R n
    using ends_count [of i "k_next_file k" "k_files k" f R U d n, OF i f] ends_file [of "k_files k" i f "f\<lparr>f_refs := f_refs f + d\<rparr>" R] f that by simp
  have "pipe_counts (U(i := U i + d)) ?fs (k_next_file k) n x"
    if "k_pipes (moved d i f k) n = Some x" for n x
    using that b by (auto simp: moved_def balanced_def pipe_counts_def e split: obj.splits if_splits)
  moreover have "length (pbuf x) \<le> 4095 \<and> n < k_next_pipe k" if "k_pipes (moved d i f k) n = Some x" for n x
    using that b by (fastforce simp: moved_def balanced_def split: obj.splits if_splits)
  ultimately show ?thesis
    using b f i r d unfolding balanced_def
    by (auto simp: moved_def split: obj.splits)
qed

lemma wp_acquire:
  assumes b: "balanced {} U k" and u: "U i \<noteq> 0"
    and Q: "\<And>k'. heap_step k k' \<Longrightarrow> balanced {} (U(i := U i + 1)) k' \<Longrightarrow> k_fs k' = k_fs k \<Longrightarrow> Q () k'"
  shows "wp (acquire_fd i) Q E k"
proof -
  from balanced_use [OF b u] obtain f where f: "k_files k i = Some f" by blast
  have u0: "0 \<le> U i" using b by (simp add: balanced_def)
  have p: "k_pipes k n \<noteq> None" if "f_obj f = OPipe n" for n
    using b f that unfolding balanced_def by blast
  have "acquire_fd i k = (Inr (), moved 1 i f k)"
    using f p
    by (auto simp: acquire_fd_def uf_def gf_def thenE_def bindE_def modify_def in_pipe_def ret_def
        moved_def split: obj.splits option.splits)
  moreover have "heap_step k (moved 1 i f k)"
    unfolding heap_step_def moved_def by (cases k) auto
  moreover have "k_fs (moved 1 i f k) = k_fs k" by (simp add: moved_def)
  ultimately show ?thesis
    using Q balanced_moved [OF b f u, of 1] u0 by (simp add: wp_def)
qed


lemma pipe_end_positive:
  assumes b: "balanced {} U k" and f: "k_files k i = Some f" and u: "1 \<le> U i"
    and n: "f_obj f = OPipe n" and x: "k_pipes k n = Some x"
  shows "(f_readable f \<longrightarrow> 1 \<le> readers x) \<and> (f_writable f \<longrightarrow> 1 \<le> writers x)"
proof -
  have i: "i < k_next_file k" and c: "pipe_counts U (k_files k) (k_next_file k) n x" and U: "0 \<le> U j" for j
    using b f x by (auto simp: balanced_def)
  have "U i \<le> ends R U (k_files k) (k_next_file k) n" if "R f" for R
    using ends_le [of U i "k_next_file k" "k_files k" f n R] U i f n that by simp
  with u c show ?thesis by (fastforce simp: pipe_counts_def)
qed

text \<open>The last reference of an inode's open file lowers the count of the inode.\<close>

definition unref :: "overlay \<Rightarrow> overlay \<Rightarrow> bool" where
  "unref s t \<longleftrightarrow> t = s \<or> (\<exists>v. t = snd (upd v (\<lambda>v. v\<lparr>v_open_refs := max (v_open_refs v - 1) 0\<rparr>) s))"

lemma wp_release:
  assumes b: "balanced {} U k" and u: "1 \<le> U i"
    and Q: "\<And>k'. heap_step k k' \<Longrightarrow> balanced {} (U(i := U i - 1)) k' \<Longrightarrow>
      unref (k_fs k) (k_fs k') \<Longrightarrow> Q () k'"
  shows "wp (release_file i) Q E k"
proof -
  have u0: "U i \<noteq> 0" using u by simp
  from balanced_use [OF b u0] obtain f where f: "k_files k i = Some f" by blast
  have bal: "balanced {} (U(i := U i - 1)) (moved (- 1) i f k)"
    using balanced_moved [OF b f u0, of "- 1"] u by simp
  have step: "heap_step k (moved (- 1) i f k)"
    unfolding heap_step_def moved_def by (cases k) auto
  show ?thesis
  proof (cases "f_obj f")
    case (OPipe n)
    then obtain x where x: "k_pipes k n = Some x"
      using b f unfolding balanced_def by blast
    from pipe_end_positive [OF b f u OPipe x] have "release_file i k = (Inr (), moved (- 1) i f k)"
      using f x OPipe
      by (auto simp: release_file_def uf_def gf_def thenE_def bindE_def modify_def in_pipe_def
          moved_def max_def)
    moreover have "unref (k_fs k) (k_fs (moved (- 1) i f k))" by (simp add: moved_def unref_def)
    ultimately show ?thesis using Q [OF step bal] by (simp add: wp_def)
  next
    case (ONode v)
    let ?m = "upd v (\<lambda>v. v\<lparr>v_open_refs := max (v_open_refs v - 1) 0\<rparr>) :: (overlay, unit) sm"
    let ?k = "if f_refs f \<le> 1 then (moved (- 1) i f k)\<lparr>k_fs := snd (?m (k_fs k))\<rparr> else moved (- 1) i f k"
    have "release_file i k = (Inr (), ?k)"
      using f ONode
      by (simp add: release_file_def uf_def gf_def thenE_def bindE_def modify_def in_fs_def upd_def
          moved_def ret_def)
    moreover have "heap_step k ?k"
      unfolding heap_step_def moved_def by (cases k) auto
    moreover have "balanced {} (U(i := U i - 1)) ?k"
      using bal by (auto elim!: balanced_same)
    moreover have "unref (k_fs k) (k_fs ?k)" by (auto simp: moved_def unref_def)
    ultimately show ?thesis
      using Q [of ?k] unfolding wp_def by (simp only: prod.case sum.case)
  next
    case OTerminal
    then have "release_file i k = (Inr (), moved (- 1) i f k)"
      using f by (simp add: release_file_def uf_def gf_def thenE_def bindE_def modify_def moved_def ret_def)
    moreover have "unref (k_fs k) (k_fs (moved (- 1) i f k))" by (simp add: moved_def unref_def)
    ultimately show ?thesis using Q [OF step bal] by (simp add: wp_def)
  next
    case ONull
    then have "release_file i k = (Inr (), moved (- 1) i f k)"
      using f by (simp add: release_file_def uf_def gf_def thenE_def bindE_def modify_def moved_def ret_def)
    moreover have "unref (k_fs k) (k_fs (moved (- 1) i f k))" by (simp add: moved_def unref_def)
    ultimately show ?thesis using Q [OF step bal] by (simp add: wp_def)
  qed
qed

end
