(* ===== verification/Kernel_Inv.thy ===== *)
theory Kernel_Inv
  imports Kernel_Acct
begin

text \<open>
  The invariant of the kernel: process table, run queue, descriptors, overlay and terminal
  (\<open>kernel_ok\<close>), the same with a process that is running (\<open>kinv\<close>), and the rules by which the
  primitives of \<open>Kernel_State\<close> keep it.
\<close>

section \<open>The invariant\<close>

definition proc_ok :: "int \<Rightarrow> proc \<Rightarrow> bool" where
  "proc_ok i q \<longleftrightarrow> p_pid q = i \<and> 0 < i \<and> length (p_fds q) = 20 \<and> length (p_sigactions q) = 33 \<and>
     (p_cpu q = None \<longrightarrow> p_state q \<noteq> SLEEPING)"

text \<open>
  A process at rest: a zombie has no descriptors left, and a user process is in the run queue
  exactly when it can run.
\<close>

definition settled :: "int list \<Rightarrow> int \<Rightarrow> proc \<Rightarrow> bool" where
  "settled rq i q \<longleftrightarrow> (p_state q = ZOMBIE \<longrightarrow> set (p_fds q) \<subseteq> {None}) \<and>
     (\<not> p_kernel_task q \<longrightarrow> (i \<in> set rq \<longleftrightarrow> p_state q = RUNNING \<and> p_cpu q \<noteq> None))"

definition ptable_ok :: "int set \<Rightarrow> (int \<times> proc) list \<Rightarrow> int list \<Rightarrow> int \<Rightarrow> bool" where
  "ptable_ok X ps rq np \<longleftrightarrow> distinct (map fst ps) \<and> distinct rq \<and> 0 < np \<and> (\<forall>i \<in> set rq. i < np) \<and>
     (\<forall>i q. map_of ps i = Some q \<longrightarrow> i < np \<and> proc_ok i q \<and> (i \<notin> X \<longrightarrow> settled rq i q))"

text \<open>The processes in \<open>X\<close> are between two steps of one operation and need not be at rest.\<close>

definition kernel_ok :: "minixfs \<Rightarrow> int set \<Rightarrow> kernel \<Rightarrow> bool" where
  "kernel_ok fs X k \<longleftrightarrow> ptable_ok X (k_procs k) (k_runq k) (k_next_pid k) \<and>
     balanced {} (uses (k_procs k)) k \<and> ov_inv fs (k_fs k) \<and>
     (\<forall>t. k_tty k = Some t \<longrightarrow> tty_ok t)"

text \<open>While a process runs, it is the current one and is running.\<close>

definition active :: "int \<Rightarrow> kernel \<Rightarrow> bool" where
  "active p k \<longleftrightarrow> k_current k = Some p \<and>
     (\<exists>q. map_of (k_procs k) p = Some q \<and> p_state q = RUNNING \<and> p_cpu q \<noteq> None)"

definition kinv :: "minixfs \<Rightarrow> int set \<Rightarrow> int option \<Rightarrow> kernel \<Rightarrow> bool" where
  "kinv fs X A k \<longleftrightarrow> kernel_ok fs X k \<and> (\<forall>p. A = Some p \<longrightarrow> active p k)"

lemma kinv_ok: "kinv fs X A k \<Longrightarrow> kernel_ok fs X k"
  by (simp add: kinv_def)

lemma ptable_ok_proc: "ptable_ok X ps rq np \<Longrightarrow> map_of ps p = Some q \<Longrightarrow> p < np \<and> proc_ok p q"
  by (auto simp: ptable_ok_def)

lemma kinv_settled:
  "kinv fs X A k \<Longrightarrow> map_of (k_procs k) p = Some q \<Longrightarrow> p \<notin> X \<Longrightarrow> settled (k_runq k) p q"
  unfolding kinv_def kernel_ok_def ptable_ok_def by blast

lemma kinv_proc: "kinv fs X A k \<Longrightarrow> map_of (k_procs k) p = Some q \<Longrightarrow> proc_ok p q"
  using ptable_ok_proc by (auto simp: kinv_def kernel_ok_def)

text \<open>The fields the invariant does not read.\<close>

lemma kinv_upd [simp]:
  "kinv fs X A (k\<lparr>k_on_escape := b\<rparr>) = kinv fs X A k" "kinv fs X A (k\<lparr>k_jiffies := j\<rparr>) = kinv fs X A k"
  "kinv fs X A (k\<lparr>k_time_offset := j\<rparr>) = kinv fs X A k" "kinv fs X A (k\<lparr>k_hostname := h\<rparr>) = kinv fs X A k"
  "kinv fs X A (k\<lparr>k_exit_status := j\<rparr>) = kinv fs X A k" "kinv fs X A (k\<lparr>k_init_proc := ip\<rparr>) = kinv fs X A k"
  "kinv fs X A (k\<lparr>k_init_state := st\<rparr>) = kinv fs X A k" "kinv fs X A (k\<lparr>k_init_child := j\<rparr>) = kinv fs X A k"
  "kinv fs X A (k\<lparr>k_quit := b\<rparr>) = kinv fs X A k" "kinv fs X A (k\<lparr>k_monitor_pending := b\<rparr>) = kinv fs X A k"
  "kinv fs X A (k\<lparr>k_counts := cs\<rparr>) = kinv fs X A k" "kinv fs X A (k\<lparr>k_trace_capacity := j\<rparr>) = kinv fs X A k"
  "kinv fs X A (k\<lparr>k_recent := rs\<rparr>) = kinv fs X A k" "kinv fs X A (k\<lparr>k_profiling := b\<rparr>) = kinv fs X A k"
  "kinv fs X A (k\<lparr>k_history := hs\<rparr>) = kinv fs X A k" "kinv fs X A (k\<lparr>k_breakpoints := bs\<rparr>) = kinv fs X A k"
  "kinv fs X A (k\<lparr>k_temp_breakpoints := bs\<rparr>) = kinv fs X A k" "kinv fs X A (k\<lparr>k_step_request := j\<rparr>) = kinv fs X A k"
  "kinv fs X A (k\<lparr>k_debug_stop := ds\<rparr>) = kinv fs X A k" "kinv fs X A (k\<lparr>k_debug_target := ip\<rparr>) = kinv fs X A k"
  "kinv fs X A (k\<lparr>k_gone := gn\<rparr>) = kinv fs X A k"
  "kinv fs X A (k\<lparr>k_ticks := n\<rparr>) = kinv fs X A k" "kinv fs X A (k\<lparr>k_clock := cl\<rparr>) = kinv fs X A k"
  by (simp_all add: kinv_def kernel_ok_def balanced_def active_def)

lemma kinv_fs: "kinv fs X A k \<Longrightarrow> ov_inv fs v \<Longrightarrow> kinv fs X A (k\<lparr>k_fs := v\<rparr>)"
  by (simp add: kinv_def kernel_ok_def balanced_def active_def)

lemma kinv_tty: "kinv fs X A k \<Longrightarrow> (\<And>t. tm = Some t \<Longrightarrow> tty_ok t) \<Longrightarrow> kinv fs X A (k\<lparr>k_tty := tm\<rparr>)"
  by (simp add: kinv_def kernel_ok_def balanced_def active_def)

section \<open>Changing one process\<close>

lemma ptable_ok_map_entry:
  assumes "ptable_ok X ps rq np" and "map_of ps p = Some q"
    and "proc_ok p (f q)" and "p \<notin> X \<Longrightarrow> settled rq p (f q)"
  shows "ptable_ok X (AList.map_entry p f ps) rq np"
  using assms unfolding ptable_ok_def by auto

lemma kinv_map_entry:
  assumes k: "kinv fs X A k" and q: "map_of (k_procs k) p = Some q"
    and new: "proc_ok p (f q)" "p \<notin> X \<Longrightarrow> settled (k_runq k) p (f q)" "p_fds (f q) = p_fds q"
    and act: "A = Some p \<Longrightarrow> p_state (f q) = RUNNING \<and> p_cpu (f q) \<noteq> None"
  shows "kinv fs X A (k\<lparr>k_procs := AList.map_entry p f (k_procs k)\<rparr>)"
proof -
  have "distinct (map fst (k_procs k))"
    using k by (simp add: kinv_def kernel_ok_def ptable_ok_def)
  then have "uses (AList.map_entry p f (k_procs k)) = uses (k_procs k)"
    using q new(3) by (intro ext) (simp add: uses_map_entry proc_uses_def)
  moreover have "active r (k\<lparr>k_procs := AList.map_entry p f (k_procs k)\<rparr>)" if "A = Some r" for r
    using that k act q by (auto simp: kinv_def active_def)
  ultimately show ?thesis
    using k ptable_ok_map_entry [where ps = "k_procs k" and f = f and p = p and q = q] q new(1,2)
    by (auto simp: kinv_def kernel_ok_def elim!: balanced_same)
qed

definition quiet :: "(proc \<Rightarrow> proc) \<Rightarrow> bool" where
  "quiet f \<longleftrightarrow> (\<forall>q. p_pid (f q) = p_pid q \<and> p_fds (f q) = p_fds q \<and>
     length (p_sigactions (f q)) = length (p_sigactions q) \<and> (p_cpu (f q) = None) = (p_cpu q = None) \<and>
     p_state (f q) = p_state q \<and> p_kernel_task (f q) = p_kernel_task q)"

lemma kinv_quiet:
  assumes k: "kinv fs X A k" and f: "quiet f"
  shows "kinv fs X A (k\<lparr>k_procs := AList.map_entry p f (k_procs k)\<rparr>)"
proof (cases "map_of (k_procs k) p")
  case None
  then show ?thesis using k by (simp add: map_entry_absent)
next
  case (Some q)
  have ok: "proc_ok p q" using k Some by (rule kinv_proc)
  show ?thesis
  proof (rule kinv_map_entry [OF k Some])
    show "proc_ok p (f q)" using ok f by (simp add: proc_ok_def quiet_def)
    show "settled (k_runq k) p (f q)" if "p \<notin> X"
      using that k Some f by (auto simp: kinv_def kernel_ok_def ptable_ok_def settled_def quiet_def)
    show "p_fds (f q) = p_fds q" using f by (simp add: quiet_def)
    show "p_state (f q) = RUNNING \<and> p_cpu (f q) \<noteq> None" if "A = Some p"
      using that k Some f by (auto simp: kinv_def active_def quiet_def)
  qed
qed

section \<open>Rules of the primitives\<close>

lemma gives_up [gives_rules]: "quiet f \<Longrightarrow> gives (kinv fs X A) (up p f) (\<lambda>_. True)"
  unfolding up_def by (intro gives_modify kinv_quiet TrueI)

lemma gives_gp: "gives (kinv fs X A) (gp p) (proc_ok p)"
  by (auto simp: gives_def gp_def intro: kinv_proc split: option.splits)

lemma gives_in_fs:
  assumes "gives (ov_inv fs) m R"
  shows "gives (kinv fs X A) (in_fs m) R"
  unfolding gives_def
proof (intro allI impI)
  fix k
  assume k: "kinv fs X A k"
  then have "ov_inv fs (k_fs k)" by (simp add: kinv_def kernel_ok_def)
  then have "ov_inv fs (snd (m (k_fs k)))" "\<And>x. fst (m (k_fs k)) = Inr x \<Longrightarrow> R x"
    using assms by (auto simp: gives_def)
  then show "kinv fs X A (snd (in_fs m k)) \<and> (\<forall>x. fst (in_fs m k) = Inr x \<longrightarrow> R x)"
    using kinv_fs [OF k] by (simp add: in_fs_def split: prod.split) (metis snd_conv)
qed

lemma gives_host_time [gives_rules]: "gives (kinv fs X A) host_time (\<lambda>_. True)"
  by (simp add: gives_def host_time_def)

lemma gives_stamped:
  "(\<And>t. gives (ov_inv fs) (m t) (\<lambda>_. True)) \<Longrightarrow> gives (kinv fs X A) (stamped m) (\<lambda>_. True)"
  unfolding stamped_def by (intro gives_bindE [OF gives_host_time] gives_in_fs)

lemma quiet_cpu: "quiet (\<lambda>q. q\<lparr>p_cpu := map_option f (p_cpu q)\<rparr>)"
  by (simp add: quiet_def)

lemma gives_on_cpu [gives_rules]: "gives (kinv fs X A) (on_cpu p m) (\<lambda>_. True)"
  unfolding gives_def
proof (intro allI impI conjI)
  fix k
  assume k: "kinv fs X A k"
  show "kinv fs X A (snd (on_cpu p m k))"
  proof (cases "map_of (k_procs k) p")
    case (Some q)
    show ?thesis
    proof (cases "p_cpu q")
      case (Some c)
      let ?f = "\<lambda>q. q\<lparr>p_cpu := Some (snd (m c))\<rparr>"
      have eq: "AList.map_entry p ?f (k_procs k) =
          AList.map_entry p (\<lambda>q. q\<lparr>p_cpu := map_option (\<lambda>_. snd (m c)) (p_cpu q)\<rparr>) (k_procs k)"
        using \<open>map_of (k_procs k) p = Some q\<close> by (rule map_entry_local) (simp add: Some)
      have "kinv fs X A (k\<lparr>k_procs := AList.map_entry p ?f (k_procs k)\<rparr>)"
        unfolding eq by (rule kinv_quiet [OF k quiet_cpu])
      then show ?thesis
        using \<open>map_of (k_procs k) p = Some q\<close> Some
        by (cases "m c") (simp add: on_cpu_def get_cpu_def gp_def set_cpu_def up_def bindE_def thenE_def
            ret_def modify_def liftR_def)
    qed (use k \<open>map_of (k_procs k) p = Some q\<close> in
        \<open>simp add: on_cpu_def get_cpu_def gp_def bindE_def raise_def\<close>)
  qed (use k in \<open>simp add: on_cpu_def get_cpu_def gp_def bindE_def\<close>)
qed simp

lemma gives_on_user [gives_rules]: "gives (kinv fs X A) (on_user p m) (\<lambda>_. True)"
  unfolding on_user_def by (rule gives_on_cpu)

lemma gives_get_cpu [gives_rules]: "gives (kinv fs X A) (get_cpu p) (\<lambda>_. True)"
  unfolding get_cpu_def by (intro gives_bindE [OF gives_gp] gives_rules TrueI)

lemma gives_from_user [gives_rules]: "gives (kinv fs X A) (from_user p f) (\<lambda>_. True)"
  unfolding from_user_def by (intro gives_bindE [OF gives_get_cpu] gives_rules TrueI)

lemma gives_calls [gives_rules]:
  "gives (kinv fs X A) (k_cstr p a) (\<lambda>_. True)" "gives (kinv fs X A) (w32 p a v) (\<lambda>_. True)"
  "gives (kinv fs X A) (r32 p a) (\<lambda>_. True)" "gives (kinv fs X A) (k_walk p path) (\<lambda>_. True)"
  "gives (kinv fs X A) (walk_arg p a) (\<lambda>_. True)" "gives (kinv fs X A) (node i) (\<lambda>_. True)"
  "gives (kinv fs X A) (write_stat p a fl) (\<lambda>_. True)" "gives (kinv fs X A) now (\<lambda>_. True)"
  unfolding walk_arg_def write_stat_def now_def
  by (auto simp: k_cstr_def w32_def r32_def k_walk_def node_def
      intro!: gives_rules gives_seq gives_bindE [OF gives_gp] gives_in_fs gives_walk
        gives_True [OF gives_vn] gives_gets)

section \<open>The terminal\<close>

lemma tty_ok_view [simp]: "tty_ok (tty.extend t k) = tty_ok t" "tty_ok (tty.truncate u) = tty_ok u"
  by (simp_all add: tty_ok_def tty.defs)

lemma tty_more_extend [simp]: "tty.more (tty.extend t k) = k"
  by (simp add: tty.defs)

lemma leave_ok: "tty_inv (kinv fs X A) t \<Longrightarrow> kinv fs X A (leave_tty t)"
  unfolding tty_inv_def leave_tty_def by (intro kinv_tty) auto

lemma gives_in_tty:
  assumes "gives (tty_inv (kinv fs X A)) m R"
  shows "gives (kinv fs X A) (in_tty m) R"
  unfolding gives_def
proof (intro allI impI)
  fix k
  assume k: "kinv fs X A k"
  show "kinv fs X A (snd (in_tty m k)) \<and> (\<forall>x. fst (in_tty m k) = Inr x \<longrightarrow> R x)"
  proof (cases "k_tty k")
    case None
    with k show ?thesis by (simp add: in_tty_def)
  next
    case (Some t)
    then have "tty_inv (kinv fs X A) (tty.extend t k)"
      using k by (simp add: tty_inv_def kinv_def kernel_ok_def)
    with assms have "tty_inv (kinv fs X A) (snd (m (tty.extend t k)))"
      "\<And>x. fst (m (tty.extend t k)) = Inr x \<Longrightarrow> R x"
      by (auto simp: gives_def)
    with Some show ?thesis
      by (cases "m (tty.extend t k)") (auto simp: in_tty_def intro: leave_ok)
  qed
qed

lemma gives_out_tty:
  assumes "gives (kinv fs X A) m R"
  shows "gives (tty_inv (kinv fs X A)) (out_tty m) R"
  unfolding gives_def
proof (intro allI impI)
  fix t :: "kernel tty_scheme"
  assume t: "tty_inv (kinv fs X A) t"
  obtain r k where m: "m (leave_tty t) = (r, k)" by fastforce
  have k: "kinv fs X A k" and r: "\<And>x. r = Inr x \<Longrightarrow> R x"
    using assms leave_ok [OF t] m by (auto simp: gives_def)
  have "tty_inv (kinv fs X A) (snd (out_tty m t))"
    using k t m by (auto simp: out_tty_def tty_inv_def kinv_def kernel_ok_def split: option.splits)
  then show "tty_inv (kinv fs X A) (snd (out_tty m t)) \<and> (\<forall>x. fst (out_tty m t) = Inr x \<longrightarrow> R x)"
    using m r by (simp add: out_tty_def)
qed

lemma gives_write_console [gives_rules]: "gives (kinv fs X A) (write_console text) (\<lambda>_. True)"
  unfolding write_console_def
  by (intro gives_bindE [OF gives_gets [where R = "\<lambda>_. True"]] gives_option gives_in_tty gives_rules TrueI)

lemma gives_on_escape: "gives (kinv fs X A) (on_escape_k ch) (\<lambda>_. True)"
  unfolding on_escape_k_def Let_def by (intro gives_seq gives_rules TrueI; simp)

lemma callbacks_ok: "post_ok (kinv fs X A) post_default" "esc_ok (kinv fs X A) (tty_escape k)"
  by (auto simp: post_ok_def post_default_def esc_ok_def tty_escape_def split: if_splits
      intro!: gives_out_tty gives_on_escape gives_rules)

lemma gives_with_tty:
  "(\<And>k. gives (tty_inv (kinv fs X A)) (f (tty_escape k)) R) \<Longrightarrow> gives (kinv fs X A) (with_tty f) R"
  unfolding with_tty_def
  by (intro gives_bindE [OF gives_gets [where R = "\<lambda>e. \<exists>k. e = tty_escape k"]] gives_in_tty) auto

lemma caller_ok_process: "caller_ok (kinv fs X A) (caller_of p q)"
  by (auto simp: caller_ok_def caller_of_def intro!: gives_out_tty gives_rules)

section \<open>Open files and pipes\<close>

lemma gives_gf [gives_rules]: "gives (kinv fs X A) (gf i) (\<lambda>_. True)"
  by (simp add: gives_def gf_def split: option.split)

definition same_file :: "(open_file \<Rightarrow> open_file) \<Rightarrow> bool" where
  "same_file g \<longleftrightarrow> (\<forall>f. f_obj (g f) = f_obj f \<and> f_refs (g f) = f_refs f \<and>
     f_readable (g f) = f_readable f \<and> f_writable (g f) = f_writable f)"

lemma balanced_uf:
  assumes b: "balanced B U k" and g: "same_file g"
  shows "balanced B U (k\<lparr>k_files := (k_files k)(i := map_option g (k_files k i))\<rparr>)"
proof (cases "k_files k i")
  case None
  then have "(k_files k)(i := map_option g (k_files k i)) = k_files k" by auto
  with b show ?thesis by (simp add: balanced_def)
next
  case (Some f)
  have "ends R U ((k_files k)(i \<mapsto> g f)) (k_next_file k) n = ends R U (k_files k) (k_next_file k) n"
    if "R = f_readable \<or> R = f_writable" for R n
    using g that by (intro ends_file [where fs = "k_files k" and i = i and f = f, OF Some]) (auto simp: same_file_def)
  with b Some g show ?thesis
    unfolding balanced_def pipe_counts_def same_file_def by auto
qed

lemma gives_uf [gives_rules]: "same_file g \<Longrightarrow> gives (kinv fs X A) (uf i g) (\<lambda>_. True)"
  unfolding uf_def
  by (intro gives_modify TrueI) (simp add: kinv_def kernel_ok_def active_def balanced_uf)

text \<open>What reading and writing a pipe leave alone.\<close>

lemma gives_in_pipe:
  assumes "\<And>x. length (pbuf x) \<le> 4095 \<Longrightarrow> length (pbuf (snd (m x))) \<le> 4095"
    and "\<And>x. readers (snd (m x)) = readers x \<and> writers (snd (m x)) = writers x"
  shows "gives (kinv fs X A) (in_pipe n m) (\<lambda>_. True)"
proof -
  have "kinv fs X A (snd (in_pipe n m k))" if k: "kinv fs X A k" for k
  proof (cases "k_pipes k n")
    case (Some x)
    obtain r y where y: "m x = (r, y)" by fastforce
    have "balanced {} (uses (k_procs k)) (k\<lparr>k_pipes := (k_pipes k)(n \<mapsto> y)\<rparr>)"
      using k Some assms [of x] y
      unfolding kinv_def kernel_ok_def balanced_def pipe_counts_def by auto
    with k Some y show ?thesis
      by (simp add: in_pipe_def kinv_def kernel_ok_def active_def)
  qed (use k in \<open>simp add: in_pipe_def\<close>)
  then show ?thesis by (simp add: gives_def)
qed

lemma gives_pipe_rw [gives_rules]:
  "gives (kinv fs X A) (in_pipe n (pipe_read c)) (\<lambda>_. True)"
  "gives (kinv fs X A) (in_pipe n (pipe_write d)) (\<lambda>_. True)"
  by (intro gives_in_pipe; auto simp: pipe_read_def pipe_write_def pipe_space_def PIPE_SIZE_def Let_def)+

end
