(* ===== verification/Kernel_Keeps.thy ===== *)
theory Kernel_Keeps
  imports Kernel_Inv
begin

text \<open>
  Every system call keeps the invariant of the kernel, whether it returns or raises.
\<close>

lemmas kseq = gives_bindE [OF gives_gp] gives_bindE [where R = "\<lambda>_. True"] gives_thenE

lemma quietI:
  "(\<And>q. p_pid (f q) = p_pid q) \<Longrightarrow> (\<And>q. p_fds (f q) = p_fds q) \<Longrightarrow>
   (\<And>q. length (p_sigactions (f q)) = length (p_sigactions q)) \<Longrightarrow>
   (\<And>q. (p_cpu (f q) = None) = (p_cpu q = None)) \<Longrightarrow> (\<And>q. p_state (f q) = p_state q) \<Longrightarrow>
   (\<And>q. p_kernel_task (f q) = p_kernel_task q) \<Longrightarrow> quiet f"
  by (simp add: quiet_def)

lemma gives_for_each:
  "(\<And>x. gives I (f x) (\<lambda>_. True)) \<Longrightarrow> gives I (for_each f xs) (\<lambda>_. True)"
  by (induction xs) (simp_all add: gives_ret gives_thenE)

lemma gives_prod [gives_rules]:
  "(\<And>x y. gives I (m x y) R) \<Longrightarrow> gives I (case p of (x, y) \<Rightarrow> m x y) R"
  by (simp split: prod.split)

section \<open>Identity, time and memory\<close>

lemma keeps_identity [gives_rules]:
  "gives (kinv fs X A) (sys_setup p a b c) (\<lambda>_. True)" "gives (kinv fs X A) (sys_exit p a b c) (\<lambda>_. True)"
  "gives (kinv fs X A) (sys_getpid p a b c) (\<lambda>_. True)" "gives (kinv fs X A) (sys_getppid p a b c) (\<lambda>_. True)"
  "gives (kinv fs X A) (sys_getpgrp p a b c) (\<lambda>_. True)" "gives (kinv fs X A) (sys_getuid p a b c) (\<lambda>_. True)"
  "gives (kinv fs X A) (sys_geteuid p a b c) (\<lambda>_. True)" "gives (kinv fs X A) (sys_getgid p a b c) (\<lambda>_. True)"
  "gives (kinv fs X A) (sys_getegid p a b c) (\<lambda>_. True)" "gives (kinv fs X A) (sys_umask p a b c) (\<lambda>_. True)"
  "gives (kinv fs X A) (sys_nice p a b c) (\<lambda>_. True)" "gives (kinv fs X A) (sys_getgroups p a b c) (\<lambda>_. True)"
  unfolding sys_setup_def sys_exit_def sys_getpid_def sys_getppid_def sys_getpgrp_def sys_getuid_def
    sys_geteuid_def sys_getgid_def sys_getegid_def sys_umask_def sys_nice_def sys_getgroups_def
  by (intro kseq gives_rules TrueI; simp add: quiet_def)+

lemma keeps_setuid [gives_rules]:
  "gives (kinv fs X A) (sys_setuid p a b c) (\<lambda>_. True)" "gives (kinv fs X A) (sys_setgid p a b c) (\<lambda>_. True)"
  unfolding sys_setuid_def sys_setgid_def by (intro kseq gives_rules TrueI; simp add: quiet_def)+

lemma keeps_setreuid [gives_rules]:
  "gives (kinv fs X A) (sys_setreuid p a b c) (\<lambda>_. True)" "gives (kinv fs X A) (sys_setregid p a b c) (\<lambda>_. True)"
  unfolding sys_setreuid_def sys_setregid_def by (intro kseq gives_rules TrueI; simp add: quiet_def)+

lemma keeps_times [gives_rules]:
  "gives (kinv fs X A) (sys_time p a b c) (\<lambda>_. True)" "gives (kinv fs X A) (sys_stime p a b c) (\<lambda>_. True)"
  "gives (kinv fs X A) (sys_gettimeofday p a b c) (\<lambda>_. True)" "gives (kinv fs X A) (sys_times p a b c) (\<lambda>_. True)"
  unfolding sys_time_def sys_stime_def sys_gettimeofday_def sys_times_def
  by (intro kseq gives_rules TrueI; simp)+

lemma keeps_system [gives_rules]:
  "gives (kinv fs X A) (sys_uname p a b c) (\<lambda>_. True)" "gives (kinv fs X A) (sys_sethostname p a b c) (\<lambda>_. True)"
  "gives (kinv fs X A) (sys_sync p a b c) (\<lambda>_. True)" "gives (kinv fs X A) (sys_mount p a b c) (\<lambda>_. True)"
  "gives (kinv fs X A) (sys_umount p a b c) (\<lambda>_. True)" "gives (kinv fs X A) (sys_ulimit p a b c) (\<lambda>_. True)"
  "gives (kinv fs X A) (sys_getrlimit p a b c) (\<lambda>_. True)" "gives (kinv fs X A) (sys_setrlimit p a b c) (\<lambda>_. True)"
  "gives (kinv fs X A) (sys_brk p a b c) (\<lambda>_. True)"
  unfolding sys_uname_def sys_sethostname_def sys_sync_def sys_mount_def sys_umount_def sys_ulimit_def
    sys_getrlimit_def sys_setrlimit_def sys_brk_def
  by (intro kseq gives_rules gives_for_each TrueI; simp)+

section \<open>Paths\<close>

lemma keeps_paths [gives_rules]:
  "gives (kinv fs X A) (sys_chdir p a b c) (\<lambda>_. True)" "gives (kinv fs X A) (sys_chroot p a b c) (\<lambda>_. True)"
  "gives (kinv fs X A) (sys_access p a b c) (\<lambda>_. True)" "gives (kinv fs X A) (sys_chmod p a b c) (\<lambda>_. True)"
  "gives (kinv fs X A) (sys_chown p a b c) (\<lambda>_. True)" "gives (kinv fs X A) (sys_utime p a b c) (\<lambda>_. True)"
  "gives (kinv fs X A) (sys_stat p a b c) (\<lambda>_. True)" "gives (kinv fs X A) (sys_readlink p a b c) (\<lambda>_. True)"
  "gives (kinv fs X A) (sys_symlink p a b c) (\<lambda>_. True)"
  unfolding sys_chdir_def sys_chroot_def sys_access_def sys_chmod_def sys_chown_def sys_utime_def
    sys_stat_def sys_readlink_def sys_symlink_def
  by (intro kseq gives_rules gives_in_fs gives_chmod gives_chown gives_utime TrueI; simp add: quiet_def)+

lemma keeps_at_path:
  "(\<And>n q. gives (kinv fs X A) (f n q) (\<lambda>_. True)) \<Longrightarrow> gives (kinv fs X A) (at_path p a f) (\<lambda>_. True)"
  unfolding at_path_def by (intro kseq gives_rules TrueI)

lemma keeps_entries [gives_rules]:
  "gives (kinv fs X A) (sys_link p a b c) (\<lambda>_. True)" "gives (kinv fs X A) (sys_unlink p a b c) (\<lambda>_. True)"
  "gives (kinv fs X A) (sys_rename p a b c) (\<lambda>_. True)" "gives (kinv fs X A) (sys_mkdir p a b c) (\<lambda>_. True)"
  "gives (kinv fs X A) (sys_rmdir p a b c) (\<lambda>_. True)" "gives (kinv fs X A) (sys_mknod p a b c) (\<lambda>_. True)"
  unfolding sys_link_def sys_unlink_def sys_rename_def sys_mkdir_def sys_rmdir_def sys_mknod_def
  by (intro kseq keeps_at_path gives_stamped gives_link gives_unlink gives_rename gives_mkdir
      gives_rmdir gives_mknod gives_rules TrueI)+

end
