(* ===== verification/Kernel_Fds.thy ===== *)
theory Kernel_Fds
  imports Kernel_Keeps
begin

text \<open>
  The operations on descriptors: between their steps the heaps agree with a count that is not
  the one of the process tables (\<open>kbal\<close>), and each operation ends with the two equal again.
\<close>

section \<open>A count in transit\<close>

definition kbal :: "minixfs \<Rightarrow> int set \<Rightarrow> int option \<Rightarrow> (nat \<Rightarrow> int) \<Rightarrow> kernel \<Rightarrow> bool" where
  "kbal fs X A U k \<longleftrightarrow> ptable_ok X (k_procs k) (k_runq k) (k_next_pid k) \<and> balanced {} U k \<and>
     ov_inv fs (k_fs k) \<and> (\<forall>t. k_tty k = Some t \<longrightarrow> tty_ok t) \<and> (\<forall>p. A = Some p \<longrightarrow> active p k)"

lemma kinv_kbal: "kinv fs X A k \<longleftrightarrow> kbal fs X A (uses (k_procs k)) k"
  by (auto simp: kinv_def kernel_ok_def kbal_def)

lemma kbal_proc: "kbal fs X A U k \<Longrightarrow> map_of (k_procs k) p = Some q \<Longrightarrow> proc_ok p q"
  using ptable_ok_proc by (auto simp: kbal_def)

lemma gives_wp: "gives I m R \<longleftrightarrow> (\<forall>k. I k \<longrightarrow> wp m (\<lambda>x t. I t \<and> R x) (\<lambda>_. I) k)"
  unfolding gives_def wp_def
  by (intro iff_allI imp_cong refl) (auto split: prod.split sum.split)

lemma gives_wpI: "(\<And>k. I k \<Longrightarrow> wp m (\<lambda>_. I) (\<lambda>_. I) k) \<Longrightarrow> gives I m (\<lambda>_. True)"
  by (simp add: gives_wp)

lemma wp_gives: "gives I m R \<Longrightarrow> I k \<Longrightarrow> (\<And>x t. I t \<Longrightarrow> R x \<Longrightarrow> Q x t) \<Longrightarrow> (\<And>e t. I t \<Longrightarrow> E e t) \<Longrightarrow> wp m Q E k"
  by (auto simp: gives_wp elim!: wp_mono dest!: spec [of _ k])

lemma wp_then: "wp (thenE m n) Q E = wp m (\<lambda>_. wp n Q E) E"
  by (rule ext) (rule wp_thenE)

lemma wp_bind: "wp (bindE m f) Q E = wp m (\<lambda>x. wp (f x) Q E) E"
  by (rule ext) (rule wp_bindE)

lemma wp_return: "wp (ret x) Q E = Q x"
  by (rule ext) (rule wp_ret)

lemma wp_gp: "wp (gp p) Q E k = (case map_of (k_procs k) p of Some q \<Rightarrow> Q q k | None \<Rightarrow> E KeyError k)"
  by (simp add: wp_def gp_def split: option.split)

lemma wp_option: "wp (case x of None \<Rightarrow> m | Some y \<Rightarrow> n y) Q E k =
    (case x of None \<Rightarrow> wp m Q E k | Some y \<Rightarrow> wp (n y) Q E k)"
  by (simp split: option.split)

lemma wp_up: "wp (up p f) Q E k = Q () (k\<lparr>k_procs := AList.map_entry p f (k_procs k)\<rparr>)"
  by (simp add: up_def wp_modify)

lemma kbal_acquire:
  assumes k: "kbal fs X A U k" and u: "U i \<noteq> 0"
    and Q: "\<And>k'. kbal fs X A (U(i := U i + 1)) k' \<Longrightarrow> k_procs k' = k_procs k \<Longrightarrow>
      k_runq k' = k_runq k \<Longrightarrow> k_next_pid k' = k_next_pid k \<Longrightarrow> Q () k'"
  shows "wp (acquire_fd i) Q E k"
proof (rule wp_acquire [where U = U])
  show "balanced {} U k" using k by (simp add: kbal_def)
  fix k'
  assume s: "heap_step k k'" and b: "balanced {} (U(i := U i + 1)) k'" and f: "k_fs k' = k_fs k"
  from k b f heap_stepD [OF s] have "kbal fs X A (U(i := U i + 1)) k'"
    by (simp add: kbal_def active_def)
  with heap_stepD [OF s] show "Q () k'" by (intro Q) auto
qed (rule u)

lemma ov_inv_unref: "ov_inv fs s \<Longrightarrow> unref s t \<Longrightarrow> ov_inv fs t"
proof -
  have "gives (ov_inv fs) (upd v (\<lambda>v. v\<lparr>v_open_refs := max (v_open_refs v - 1) 0\<rparr>)) (\<lambda>_. True)" for v
    by (rule gives_upd) (simp_all add: vnode_ok_def)
  then show "ov_inv fs s \<Longrightarrow> unref s t \<Longrightarrow> ov_inv fs t"
    by (auto simp: unref_def gives_def)
qed

lemma kbal_release:
  assumes k: "kbal fs X A U k" and u: "1 \<le> U i"
    and Q: "\<And>k'. kbal fs X A (U(i := U i - 1)) k' \<Longrightarrow> k_procs k' = k_procs k \<Longrightarrow>
      k_runq k' = k_runq k \<Longrightarrow> k_next_pid k' = k_next_pid k \<Longrightarrow> Q () k'"
  shows "wp (release_file i) Q E k"
proof (rule wp_release [where U = U])
  show "balanced {} U k" using k by (simp add: kbal_def)
  fix k'
  assume s: "heap_step k k'" and b: "balanced {} (U(i := U i - 1)) k'" and f: "unref (k_fs k) (k_fs k')"
  from k f have "ov_inv fs (k_fs k')" by (auto simp: kbal_def intro: ov_inv_unref)
  with k b heap_stepD [OF s] have "kbal fs X A (U(i := U i - 1)) k'"
    by (simp add: kbal_def active_def)
  with heap_stepD [OF s] show "Q () k'" by (intro Q) auto
qed (rule u)

section \<open>A slot of the table\<close>

definition put_fd :: "int \<Rightarrow> int \<Rightarrow> nat option \<Rightarrow> kernel \<Rightarrow> kernel" where
  "put_fd p fd v k =
     k\<lparr>k_procs := AList.map_entry p (\<lambda>q. q\<lparr>p_fds := (p_fds q)[nat fd := v]\<rparr>) (k_procs k)\<rparr>"

lemma wp_set_fd: "wp (set_fd p fd v) Q E k = Q () (put_fd p fd v k)"
  by (simp add: set_fd_def put_fd_def wp_up)

lemma kbal_put_fd:
  assumes k: "kbal fs X A U k" and q: "map_of (k_procs k) p = Some q"
    and z: "v \<noteq> None \<Longrightarrow> p \<in> X \<or> p_state q \<noteq> ZOMBIE"
  shows "kbal fs X A U (put_fd p fd v k)"
proof -
  let ?q = "q\<lparr>p_fds := (p_fds q)[nat fd := v]\<rparr>"
  have ok: "proc_ok p ?q" using kbal_proc [OF k q] by (simp add: proc_ok_def)
  have st: "settled (k_runq k) p ?q" if "p \<notin> X"
  proof -
    have "settled (k_runq k) p q" using k q that unfolding kbal_def ptable_ok_def by blast
    then show ?thesis
      using z that by (auto simp: settled_def dest!: set_update_subset_insert [THEN subsetD])
  qed
  have "ptable_ok X (k_procs (put_fd p fd v k)) (k_runq k) (k_next_pid k)"
    using k q ok st ptable_ok_map_entry [of X "k_procs k" "k_runq k" "k_next_pid k" p q "\<lambda>q. q\<lparr>p_fds := (p_fds q)[nat fd := v]\<rparr>"]
    by (simp add: kbal_def put_fd_def)
  moreover have "active r (put_fd p fd v k)" if "active r k" for r
    using that q by (auto simp: active_def put_fd_def)
  ultimately show ?thesis
    using k by (auto simp: kbal_def put_fd_def elim!: balanced_same)
qed

lemma uses_put_fd:
  assumes k: "kbal fs X A U k" and q: "map_of (k_procs k) p = Some q" and fd: "nat fd < 20"
  shows "uses (k_procs (put_fd p fd v k)) i = uses (k_procs k) i
    - (if p_fds q ! nat fd = Some i then 1 else 0) + (if v = Some i then 1 else 0)"
proof -
  have "distinct (map fst (k_procs k))" using k by (simp add: kbal_def ptable_ok_def)
  moreover have "length (p_fds q) = 20" using kbal_proc [OF k q] by (simp add: proc_ok_def)
  ultimately show ?thesis
    using q fd by (simp add: put_fd_def uses_map_entry proc_uses_def count_list_update)
qed

lemma put_fd_proc [simp]:
  "map_of (k_procs k) p = Some q \<Longrightarrow>
   map_of (k_procs (put_fd p fd v k)) p = Some (q\<lparr>p_fds := (p_fds q)[nat fd := v]\<rparr>)"
  by (simp add: put_fd_def)

lemma slot_used:
  assumes k: "kbal fs X A U k" and q: "map_of (k_procs k) p = Some q"
    and fd: "nat fd < 20" and i: "p_fds q ! nat fd = Some i"
  shows "1 \<le> uses (k_procs k) i"
proof -
  have "Some i \<in> set (p_fds q)"
    using kbal_proc [OF k q] fd i by (metis nth_mem proc_ok_def)
  then have "1 \<le> proc_uses q i"
    using count_list_0_iff [of "p_fds q" "Some i"] by (simp add: proc_uses_def)
  moreover have "proc_uses q i \<le> uses (k_procs k) i"
    using k q by (intro proc_uses_le) (simp_all add: kbal_def ptable_ok_def)
  ultimately show ?thesis by simp
qed

section \<open>Closing, sharing and making descriptors\<close>

lemma wp_get_file:
  assumes "\<And>q i. map_of (k_procs k) p = Some q \<Longrightarrow> 0 \<le> fd \<Longrightarrow> nat fd < 20 \<Longrightarrow> p_fds q ! nat fd = Some i \<Longrightarrow> Q i k"
    and "\<And>e. E e k"
  shows "wp (get_file p fd) Q E k"
  using assms
  by (auto simp: get_file_def wp_bindE wp_gp fd_at_def NR_OPEN_def wp_raise wp_ret nat_less_iff
      split: option.splits)

lemma free_from_slot: "free_from fds start = Some fd \<Longrightarrow> fd < 20 \<and> fds ! nat fd = None"
  by (auto simp: free_from_def find_Some_iff NR_OPEN_def)

lemma wp_alloc_fd:
  assumes "\<And>q fd. map_of (k_procs k) p = Some q \<Longrightarrow> nat fd < 20 \<Longrightarrow> p_fds q ! nat fd = None \<Longrightarrow> Q fd k"
    and "\<And>e. E e k"
  shows "wp (alloc_fd p start) Q E k"
  using assms
  by (auto simp: alloc_fd_def wp_bindE wp_gp wp_raise wp_ret nat_less_iff dest!: free_from_slot split: option.splits)

lemma gives_get_file [gives_rules]: "gives (kinv fs X A) (get_file p fd) (\<lambda>_. True)"
  by (rule gives_wpI, rule wp_get_file)

lemma gives_alloc_fd: "gives (kinv fs X A) (alloc_fd p start) (\<lambda>_. True)"
  by (rule gives_wpI, rule wp_alloc_fd)

lemma wp_drop:
  assumes k: "kinv fs X A k" and q: "map_of (k_procs k) p = Some q" and fd: "nat fd < 20"
    and i: "p_fds q ! nat fd = Some i" and n: "v \<noteq> Some i"
    and Q: "\<And>k'. kinv fs X A k' \<Longrightarrow> k_procs k' = k_procs (put_fd p fd None k) \<Longrightarrow> Q () k'"
  shows "wp (release_file i) Q E (put_fd p fd None k)"
proof (rule kbal_release [where fs = fs and X = X and A = A and U = "uses (k_procs k)"])
  have kb: "kbal fs X A (uses (k_procs k)) k" using k by (simp add: kinv_kbal)
  then show "kbal fs X A (uses (k_procs k)) (put_fd p fd None k)" using q by (rule kbal_put_fd) simp
  show "1 \<le> uses (k_procs k) i" using kb q fd i by (rule slot_used)
  have "(uses (k_procs k))(i := uses (k_procs k) i - 1) = uses (k_procs (put_fd p fd None k))"
    by (rule ext) (simp add: uses_put_fd [OF kb q fd] i)
  then show "Q () k'" if "kbal fs X A ((uses (k_procs k))(i := uses (k_procs k) i - 1)) k'"
    "k_procs k' = k_procs (put_fd p fd None k)" for k'
    using that by (intro Q) (simp_all add: kinv_kbal)
qed

lemma wp_close:
  assumes k: "kinv fs X A k"
    and Q: "\<And>k' x. kinv fs X A k' \<Longrightarrow> k_procs k' = k_procs (put_fd p fd None k) \<Longrightarrow> Q x k'"
    and E: "\<And>e. E e k"
  shows "wp (sys_close p fd b c) Q E k"
  unfolding sys_close_def wp_bindE wp_thenE wp_set_fd
proof (rule wp_get_file)
  fix q i
  assume "map_of (k_procs k) p = Some q" "nat fd < 20" "p_fds q ! nat fd = Some i"
  then show "wp (release_file i) (\<lambda>_. wp (ret 0) Q E) E (put_fd p fd None k)"
    by (intro wp_drop [OF k, where v = None]) (auto simp: wp_ret intro: Q)
qed (rule E)

lemma keeps_close [gives_rules]: "gives (kinv fs X A) (sys_close p fd b c) (\<lambda>_. True)"
  by (rule gives_wpI, rule wp_close)

lemma wp_share:
  assumes k: "kinv fs X A k" and q: "map_of (k_procs k) p = Some q" and fd: "nat fd < 20"
    and free: "p_fds q ! nat fd = None" and u: "1 \<le> uses (k_procs k) i"
    and z: "p \<in> X \<or> p_state q \<noteq> ZOMBIE"
    and Q: "\<And>k'. kinv fs X A k' \<Longrightarrow> k_procs k' = k_procs (put_fd p fd (Some i) k) \<Longrightarrow> Q fd k'"
  shows "wp (share_fd p i fd) Q E k"
proof -
  let ?U = "uses (k_procs k)"
  have kb: "kbal fs X A ?U k" using k by (simp add: kinv_kbal)
  have "wp (acquire_fd i) (\<lambda>_. wp (set_fd p fd (Some i)) (\<lambda>_. wp (ret fd) Q E) E) E k"
  proof (rule kbal_acquire [OF kb])
    show "?U i \<noteq> 0" using u by simp
    fix k'
    assume a: "kbal fs X A (?U(i := ?U i + 1)) k'" "k_procs k' = k_procs k"
    have "?U(i := ?U i + 1) = uses (k_procs (put_fd p fd (Some i) k))"
      by (rule ext) (simp add: uses_put_fd [OF kb q fd] free)
    moreover have "k_procs (put_fd p fd (Some i) k') = k_procs (put_fd p fd (Some i) k)"
      by (simp add: put_fd_def a(2))
    ultimately show "wp (set_fd p fd (Some i)) (\<lambda>_. wp (ret fd) Q E) E k'"
      using kbal_put_fd [OF a(1), of p q "Some i" fd] a(2) q z
      by (auto simp: wp_set_fd wp_ret kinv_kbal intro!: Q)
  qed
  then show ?thesis by (simp add: share_fd_def wp_then)
qed

text \<open>The process whose call it is runs, so it is not a zombie.\<close>

lemma active_state: "kinv fs X (Some p) k \<Longrightarrow> map_of (k_procs k) p = Some q \<Longrightarrow> p_state q \<noteq> ZOMBIE"
  by (auto simp: kinv_def active_def)

lemma kinv_slot_used:
  "kinv fs X A k \<Longrightarrow> map_of (k_procs k) p = Some q \<Longrightarrow> nat fd < 20 \<Longrightarrow> p_fds q ! nat fd = Some i \<Longrightarrow>
   1 \<le> uses (k_procs k) i"
  using slot_used by (auto simp: kinv_kbal)

lemma wp_alloc_share:
  assumes k: "kinv fs X (Some p) k" and u: "1 \<le> uses (k_procs k) i"
    and Q: "\<And>k' x. kinv fs X (Some p) k' \<Longrightarrow> Q x k'" and E: "\<And>e. E e k"
  shows "wp (bindE (alloc_fd p start) (share_fd p i)) Q E k"
  unfolding wp_bindE
proof (rule wp_alloc_fd)
  fix q fd
  assume q: "map_of (k_procs k) p = Some q" "nat fd < 20" "p_fds q ! nat fd = None"
  with active_state [OF k q(1)] show "wp (share_fd p i fd) Q E k"
    by (intro wp_share [OF k q u]) (auto intro: Q)
qed (rule E)

lemma keeps_dup [gives_rules]: "gives (kinv fs X (Some p)) (sys_dup p a b c) (\<lambda>_. True)"
proof (rule gives_wpI)
  fix k assume k: "kinv fs X (Some p) k"
  then show "wp (sys_dup p a b c) (\<lambda>_. kinv fs X (Some p)) (\<lambda>_. kinv fs X (Some p)) k"
    unfolding sys_dup_def wp_bindE [of "get_file p a"]
    by (intro wp_get_file wp_alloc_share) (auto intro: kinv_slot_used)
qed

lemma quiet_cloexec [simp]: "quiet (\<lambda>q. q\<lparr>p_close_on_exec := g q\<rparr>)"
  by (simp add: quiet_def)

lemma gives_clear_cloexec [gives_rules]: "gives (kinv fs X A) (clear_cloexec p fd) (\<lambda>_. True)"
  unfolding clear_cloexec_def by (intro gives_rules) simp

lemma keeps_dup2 [gives_rules]: "gives (kinv fs X (Some p)) (sys_dup2 p old new c) (\<lambda>_. True)"
proof (rule gives_wpI)
  fix k
  let ?I = "kinv fs X (Some p)"
  assume k: "?I k"
  have share: "wp (bindE (share_fd p i new) (\<lambda>r. thenE (clear_cloexec p new) (ret r))) (\<lambda>_. ?I) (\<lambda>_. ?I) k'"
    if k': "?I k'" and q: "map_of (k_procs k') p = Some q" and old: "nat old < 20" "p_fds q ! nat old = Some i"
      and free: "nat new < 20" "p_fds q ! nat new = None" for k' q i
    unfolding wp_bindE
  proof (rule wp_share [OF k' q free])
    show "1 \<le> uses (k_procs k') i" using k' q old by (rule kinv_slot_used)
    show "p \<in> X \<or> p_state q \<noteq> ZOMBIE" using active_state [OF k' q] by simp
    have g: "gives ?I (thenE (clear_cloexec p new) (ret new)) (\<lambda>_. True)"
      by (intro gives_thenE gives_rules TrueI)
    show "wp (thenE (clear_cloexec p new) (ret new)) (\<lambda>_. ?I) (\<lambda>_. ?I) t" if "?I t" for t
      using g that by (rule wp_gives)
  qed
  show "wp (sys_dup2 p old new c) (\<lambda>_. ?I) (\<lambda>_. ?I) k"
    unfolding sys_dup2_def wp_bindE [of "get_file p old"]
  proof (rule wp_get_file, goal_cases)
    case (1 q i)
    then have q: "map_of (k_procs k) p = Some q" and old: "0 \<le> old" "nat old < 20" "p_fds q ! nat old = Some i"
      by auto
    show ?case
    proof (cases "0 \<le> new \<and> new < NR_OPEN \<and> old \<noteq> new")
      case True
      then have n: "nat new < 20" "nat new \<noteq> nat old" using old by (auto simp: NR_OPEN_def)
      have ok: "length (p_fds q) = 20" using kinv_proc [OF k q] by (simp add: proc_ok_def)
      have closed: "wp (sys_close p new 0 0) (\<lambda>_. wp (bindE (share_fd p i new)
          (\<lambda>r. thenE (clear_cloexec p new) (ret r))) (\<lambda>_. ?I) (\<lambda>_. ?I)) (\<lambda>_. ?I) k"
      proof (rule wp_close [OF k])
        show "wp (bindE (share_fd p i new) (\<lambda>r. thenE (clear_cloexec p new) (ret r))) (\<lambda>_. ?I) (\<lambda>_. ?I) k'"
          if "?I k'" "k_procs k' = k_procs (put_fd p new None k)" for k'
          using that q old n ok
          by (intro share [where q = "q\<lparr>p_fds := (p_fds q)[nat new := None]\<rparr>"]) simp_all
      qed (rule k)
      show ?thesis
      proof (cases "fd_at q new = None")
        case True
        with \<open>0 \<le> new \<and> new < NR_OPEN \<and> old \<noteq> new\<close> have "p_fds q ! nat new = None"
          by (simp add: fd_at_def)
        with True n share [OF k q old(2,3)] \<open>0 \<le> new \<and> new < NR_OPEN \<and> old \<noteq> new\<close> q show ?thesis
          by (simp add: wp_bindE [of "gp p"] wp_gp wp_thenE wp_ret)
      next
        case False
        with closed \<open>0 \<le> new \<and> new < NR_OPEN \<and> old \<noteq> new\<close> q show ?thesis
          by (simp add: wp_bindE [of "gp p"] wp_gp wp_thenE wp_return wp_bind [of "sys_close p new 0 0"])
      qed
    qed (use k in \<open>auto simp: wp_ret\<close>)
  qed (use k in simp)
qed

lemma and_or_ignored: "m AND n = 0 \<Longrightarrow> ((x AND NOT m) OR (y AND m)) AND n = x AND (n :: int)"
proof (rule bit_eqI)
  fix i
  assume "m AND n = 0"
  then have "\<not> (bit m i \<and> bit n i)" by (metis bit_and_iff bit_0_eq bot_apply bot_bool_def)
  then show "bit (((x AND NOT m) OR (y AND m)) AND n) i = bit (x AND n) i"
    by (auto simp: bit_simps)
qed

lemma same_file_flags:
  "same_file (\<lambda>f. f\<lparr>f_flags := (f_flags f AND NOT (O_APPEND OR O_NONBLOCK)) OR (arg AND (O_APPEND OR O_NONBLOCK))\<rparr>)"
proof -
  have "(O_APPEND OR O_NONBLOCK) AND O_ACCMODE = 0"
    by (simp add: O_APPEND_def O_NONBLOCK_def O_ACCMODE_def)
  from and_or_ignored [OF this] show ?thesis
    by (simp add: same_file_def f_readable_def f_writable_def)
qed

lemma keeps_fcntl [gives_rules]: "gives (kinv fs X (Some p)) (sys_fcntl p fd cmd arg) (\<lambda>_. True)"
proof (rule gives_wpI)
  fix k
  let ?I = "kinv fs X (Some p)"
  assume k: "?I k"
  have rest: "gives ?I (if cmd = 1 then
       bindE (gp p) (\<lambda>q. ret (if p_close_on_exec q AND push_bit (nat fd) 1 \<noteq> 0 then 1 else 0))
     else if cmd = 2 then
       thenE (if arg AND 1 \<noteq> 0
              then up p (\<lambda>q. q\<lparr>p_close_on_exec := p_close_on_exec q OR push_bit (nat fd) 1\<rparr>)
              else clear_cloexec p fd) (ret 0)
     else if cmd = 3 then bindE (gf f) (\<lambda>o'. ret (f_flags o'))
     else if cmd = 4 then
       thenE (uf f (\<lambda>o'. o'\<lparr>f_flags := (f_flags o' AND NOT (O_APPEND OR O_NONBLOCK)) OR
                                   (arg AND (O_APPEND OR O_NONBLOCK))\<rparr>)) (ret 0)
     else ret (- EINVAL)) (\<lambda>_. True)" for f
    by (intro kseq gives_rules same_file_flags TrueI) simp
  show "wp (sys_fcntl p fd cmd arg) (\<lambda>_. ?I) (\<lambda>_. ?I) k"
    unfolding sys_fcntl_def wp_bindE [of "get_file p fd"]
  proof (rule wp_get_file, goal_cases)
    case (1 q i)
    then have q: "map_of (k_procs k) p = Some q" "nat fd < 20" "p_fds q ! nat fd = Some i" by auto
    have dup: "wp (bindE (alloc_fd p arg) (share_fd p i)) (\<lambda>_. ?I) (\<lambda>_. ?I) k"
      using k kinv_slot_used [OF k q] by (rule wp_alloc_share) (auto intro: k)
    show ?case
    proof (cases "cmd = 0")
      case True
      then show ?thesis using dup by simp
    next
      case False
      then show ?thesis using rest [of i] k by (simp only: if_False) (erule (1) wp_gives)
    qed
  qed (use k in simp)
qed

section \<open>New open files\<close>

lemma balanced_new_file:
  assumes b: "balanced B U k" and f: "\<And>n. f_obj f \<noteq> OPipe n" and r: "0 \<le> f_refs f"
  shows "balanced B (U(k_next_file k := f_refs f)) (snd (new_file f k))"
proof -
  let ?i = "k_next_file k" and ?U = "U(k_next_file k := f_refs f)"
  have fresh: "U ?i = 0" "k_files k ?i = None" using balanced_fresh [OF b, of ?i] by auto
  have e: "ends R ?U ((k_files k)(?i \<mapsto> f)) (Suc ?i) n = ends R U (k_files k) ?i n" for R n
    unfolding ends_def using f by (auto intro!: sum.cong split: option.split)
  have "pipe_counts ?U ((k_files k)(?i \<mapsto> f)) (Suc ?i) n x = pipe_counts U (k_files k) ?i n x" for n x
    by (simp add: pipe_counts_def e)
  with b f r fresh show ?thesis
    unfolding balanced_def new_file_def by (auto simp: less_Suc_eq)
qed

lemma kbal_new_file:
  assumes k: "kbal fs X A U k" and f: "\<And>n. f_obj f \<noteq> OPipe n" and r: "0 \<le> f_refs f"
    and Q: "\<And>i k'. U i = 0 \<Longrightarrow> kbal fs X A (U(i := f_refs f)) k' \<Longrightarrow> k_procs k' = k_procs k \<Longrightarrow> Q i k'"
  shows "wp (new_file f) Q E k"
proof -
  have b: "balanced {} U k" using k by (simp add: kbal_def)
  have "kbal fs X A (U(k_next_file k := f_refs f)) (snd (new_file f k))"
    using k balanced_new_file [OF b f r] by (simp add: kbal_def new_file_def active_def)
  moreover have "U (k_next_file k) = 0" using balanced_fresh [OF b] by simp
  ultimately show ?thesis
    using Q [of "k_next_file k" "snd (new_file f k)"] by (simp add: wp_def new_file_def)
qed

text \<open>A new open file with one reference goes into a free slot.\<close>

lemma wp_install:
  assumes k: "kinv fs X A k" and q: "map_of (k_procs k) p = Some q" and fd: "nat fd < 20"
    and free: "p_fds q ! nat fd = None" and z: "p \<in> X \<or> p_state q \<noteq> ZOMBIE"
    and f: "\<And>n. f_obj f \<noteq> OPipe n" "f_refs f = 1"
    and Q: "\<And>k'. kinv fs X A k' \<Longrightarrow> Q x k'"
  shows "wp (bindE (new_file f) (\<lambda>i. thenE (set_fd p fd (Some i)) (ret x))) Q E k"
  unfolding wp_bindE
proof (rule kbal_new_file [where fs = fs and X = X and A = A])
  show kb: "kbal fs X A (uses (k_procs k)) k" using k by (simp add: kinv_kbal)
  show "0 \<le> f_refs f" using f by simp
  fix i k'
  assume i: "uses (k_procs k) i = 0" and k': "kbal fs X A ((uses (k_procs k))(i := f_refs f)) k'"
    and same: "k_procs k' = k_procs k"
  have q': "map_of (k_procs k') p = Some q" using q same by simp
  have "(uses (k_procs k))(i := f_refs f) = uses (k_procs (put_fd p fd (Some i) k'))"
    using free i f(2) by (intro ext) (auto simp: uses_put_fd [OF k' q' fd] same)
  then have "kinv fs X A (put_fd p fd (Some i) k')"
    using kbal_put_fd [OF k' q', of "Some i" fd] z by (simp add: kinv_kbal)
  then show "wp (thenE (set_fd p fd (Some i)) (ret x)) Q E k'"
    by (simp add: wp_then wp_set_fd wp_return Q)
qed (rule f)

lemma gives_open_device: "gives (kinv fs X A) (open_device i) (\<lambda>ob. \<forall>n. ob \<noteq> OPipe n)"
  unfolding open_device_def Let_def
  by (intro kseq gives_rules TrueI) (auto split: if_splits)

lemma catchE_gives:
  "gives I m R \<Longrightarrow> (\<And>e. gives I (h e) R) \<Longrightarrow> gives I (catchE m h) R"
  by (fastforce simp: gives_def catchE_def split: prod.splits sum.splits)

lemma gives_open_node: "gives (kinv fs X A) (open_node p name fl m) (\<lambda>_. True)"
  unfolding open_node_def
  by (intro catchE_gives; (split exn.split)?; intro kseq gives_rules gives_stamped gives_create TrueI conjI allI impI)

lemma kept_fs [kept_rules]: "kept k_procs (in_fs m)" "kept k_procs (node i)"
  by (simp_all add: kept_def in_fs_def node_def split: prod.split)

lemma keeps_open [gives_rules]: "gives (kinv fs X (Some p)) (sys_open p path fl m) (\<lambda>_. True)"
proof -
  let ?I = "kinv fs X (Some p)"
  define pos where "pos ob = (case ob of ONode n \<Rightarrow>
      thenE (in_fs (upd n (\<lambda>v. v\<lparr>v_open_refs := v_open_refs v + 1\<rparr>)))
      (bindE (node n) (\<lambda>v. ret (if fl AND O_APPEND \<noteq> 0 then vsize v else 0))) | _ \<Rightarrow> ret 0)" for ob
  have pos: "gives ?I (pos ob) (\<lambda>_. True)" "kept k_procs (pos ob)" for ob
    by (auto simp: pos_def vnode_ok_def split: obj.splits
        intro!: kseq gives_rules gives_in_fs gives_upd kept_rules)
  have install: "wp (bindE (alloc_fd p 0) (\<lambda>fd. bindE (pos ob) (\<lambda>ps.
      bindE (new_file ((OpenFile ob fl)\<lparr>f_pos := ps\<rparr>)) (\<lambda>f. thenE (set_fd p fd (Some f)) (ret fd)))))
      (\<lambda>_. ?I) (\<lambda>_. ?I) k" if k: "?I k" and ob: "\<forall>n. ob \<noteq> OPipe n" for ob k
    unfolding wp_bindE
  proof (rule wp_alloc_fd, goal_cases)
    case (1 q fd)
    then have q: "map_of (k_procs k) p = Some q" "nat fd < 20" "p_fds q ! nat fd = None" by auto
    have g: "gives (\<lambda>t. ?I t \<and> k_procs t = k_procs k) (pos ob) (\<lambda>_. True)"
      using pos by (intro gives_conj) (auto intro: kept_gives)
    show ?case
      using g
    proof (rule wp_gives, goal_cases)
      case (2 ps k')
      then have k': "?I k'" "k_procs k' = k_procs k" by auto
      show ?case
        using k'
        using q ob active_state [OF k q(1)]
        by (intro wp_install [where q = q, unfolded wp_bindE]) (auto simp: OpenFile_def)
    qed (use k in auto)
  qed (use k in simp)
  then have install: "gives ?I (bindE (alloc_fd p 0) (\<lambda>fd. bindE (pos ob) (\<lambda>ps.
      bindE (new_file ((OpenFile ob fl)\<lparr>f_pos := ps\<rparr>)) (\<lambda>f. thenE (set_fd p fd (Some f)) (ret fd)))))
      (\<lambda>_. True)" if "\<forall>n. ob \<noteq> OPipe n" for ob
    using that by (intro gives_wpI)
  show ?thesis
    unfolding sys_open_def pos_def [symmetric]
    by (intro gives_bindE [OF gives_open_node] gives_bindE [where R = "\<lambda>ob. \<forall>n. ob \<noteq> OPipe n", OF _ install]
        kseq gives_if gives_ret gives_option gives_open_device gives_stamped gives_vtruncate gives_calls TrueI)
      auto
qed

lemma keeps_creat [gives_rules]: "gives (kinv fs X (Some p)) (sys_creat p a b c) (\<lambda>_. True)"
  unfolding sys_creat_def by (rule keeps_open)

end
