(* ===== verification/Kernel_Pipe.thy ===== *)
theory Kernel_Pipe
  imports Kernel_Fds
begin

text \<open>
  \<open>pipe\<close>: between the new pipe and the end of the call its counters are not those of its
  descriptors, so the accounting exempts it until the call has set them.
\<close>

section \<open>The files of one pipe\<close>

lemma ends_files:
  assumes "\<And>i f. fs i = Some f \<Longrightarrow> f_obj f = OPipe n \<Longrightarrow> i \<in> S" and "S \<subseteq> {..<nf}"
  shows "ends R U fs nf n = (\<Sum>i \<in> S. case fs i of
     Some f \<Rightarrow> if f_obj f = OPipe n \<and> R f then U i else 0 | None \<Rightarrow> 0)"
  unfolding ends_def using assms by (intro sum.mono_neutral_right) (auto split: option.splits)

lemma balanced_done:
  assumes "balanced {n} U k" and "\<And>x. k_pipes k n = Some x \<Longrightarrow> pipe_counts U (k_files k) (k_next_file k) n x"
  shows "balanced {} U k"
  using assms unfolding balanced_def by auto metis

lemma balanced_exempt_file:
  assumes b: "balanced {n} U k" and f: "f_obj f = OPipe n" "k_pipes k n \<noteq> None" and r: "0 \<le> f_refs f"
  shows "balanced {n} (U(k_next_file k := f_refs f)) (snd (new_file f k))"
proof -
  let ?i = "k_next_file k" and ?U = "U(k_next_file k := f_refs f)"
  have fresh: "U ?i = 0" "k_files k ?i = None" using balanced_fresh [OF b, of ?i] by auto
  have "ends R ?U ((k_files k)(?i \<mapsto> f)) (Suc ?i) m = ends R U (k_files k) ?i m" if "m \<noteq> n" for R m
    unfolding ends_def using f that by (auto intro!: sum.cong split: option.split)
  then have "pipe_counts ?U ((k_files k)(?i \<mapsto> f)) (Suc ?i) m x = pipe_counts U (k_files k) ?i m x"
    if "m \<noteq> n" for m x
    using that by (simp add: pipe_counts_def)
  with b f r fresh show ?thesis
    unfolding balanced_def new_file_def by (auto simp: less_Suc_eq)
qed

lemma balanced_exempt_use:
  assumes b: "balanced {n} U k" and f: "k_files k i = Some f" "f_obj f = OPipe n" and u: "0 \<le> u" "u \<noteq> 0 \<Longrightarrow> f_refs f = u"
  shows "balanced {n} (U(i := u)) k"
proof -
  have "ends R (U(i := u)) (k_files k) (k_next_file k) m = ends R U (k_files k) (k_next_file k) m"
    if "m \<noteq> n" for R m
    unfolding ends_def using f that by (auto intro!: sum.cong split: option.split)
  then have "pipe_counts (U(i := u)) (k_files k) (k_next_file k) m x = pipe_counts U (k_files k) (k_next_file k) m x"
    if "m \<noteq> n" for m x
    using that by (simp add: pipe_counts_def)
  with b f u show ?thesis unfolding balanced_def by auto
qed

text \<open>The state of the call: the new pipe \<open>n\<close>, whose open files are those in \<open>S\<close>.\<close>

definition making :: "minixfs \<Rightarrow> int set \<Rightarrow> int option \<Rightarrow> nat \<Rightarrow> nat set \<Rightarrow> kernel \<Rightarrow> bool" where
  "making fs X A n S k \<longleftrightarrow> ptable_ok X (k_procs k) (k_runq k) (k_next_pid k) \<and>
     balanced {n} (uses (k_procs k)) k \<and> ov_inv fs (k_fs k) \<and> (\<forall>t. k_tty k = Some t \<longrightarrow> tty_ok t) \<and>
     (\<forall>p. A = Some p \<longrightarrow> active p k) \<and> k_pipes k n = Some Pipe_init \<and>
     (\<forall>i f. k_files k i = Some f \<longrightarrow> f_obj f = OPipe n \<longrightarrow> i \<in> S) \<and>
     (\<forall>i \<in> S. k_files k i \<noteq> None)"

lemma making_start:
  assumes "kinv fs X A k"
  shows "\<exists>n k'. new_pipe Pipe_init k = (Inr n, k') \<and> making fs X A n {} k' \<and> k_procs k' = k_procs k"
proof -
  let ?n = "k_next_pipe k" and ?k = "snd (new_pipe Pipe_init k)"
  have b: "balanced {} (uses (k_procs k)) k" using assms by (simp add: kinv_def kernel_ok_def)
  then have n: "k_pipes k ?n = None" unfolding balanced_def by (metis less_irrefl not_None_eq)
  then have files: "\<And>i f. k_files k i = Some f \<Longrightarrow> f_obj f \<noteq> OPipe ?n"
    using b unfolding balanced_def by blast
  have "balanced {?n} (uses (k_procs k)) ?k"
    using b unfolding balanced_def new_pipe_def
    by (auto simp: Pipe_init_def less_Suc_eq split: if_splits)
  with assms files have "making fs X A ?n {} ?k"
    by (auto simp: making_def kinv_def kernel_ok_def new_pipe_def active_def)
  then show ?thesis by (simp add: new_pipe_def)
qed

lemma making_unused:
  assumes m: "making fs X A n S k" and u: "\<And>i. i \<in> S \<Longrightarrow> uses (k_procs k) i = 0"
  shows "kinv fs X A k"
proof -
  have s: "S \<subseteq> {..<k_next_file k}"
    using m unfolding making_def balanced_def by (auto simp: lessThan_def)
  have "ends R (uses (k_procs k)) (k_files k) (k_next_file k) n = 0" for R
    using m u by (subst ends_files [OF _ s]) (auto simp: making_def intro!: sum.neutral split: option.split)
  then have "balanced {} (uses (k_procs k)) k"
    using m by (intro balanced_done [of n]) (auto simp: making_def pipe_counts_def Pipe_init_def)
  with m show ?thesis by (simp add: making_def kinv_def kernel_ok_def)
qed


lemma making_kbal:
  "making fs X A n S k \<Longrightarrow> ptable_ok X (k_procs k) (k_runq k) (k_next_pid k)"
  by (simp add: making_def)

lemma making_put:
  assumes m: "making fs X A n S k" and q: "map_of (k_procs k) p = Some q" and fd: "nat fd < 20"
    and z: "v \<noteq> None \<Longrightarrow> p \<in> X \<or> p_state q \<noteq> ZOMBIE"
  shows "ptable_ok X (k_procs (put_fd p fd v k)) (k_runq k) (k_next_pid k) \<and>
    (\<forall>r. A = Some r \<longrightarrow> active r (put_fd p fd v k)) \<and>
    uses (k_procs (put_fd p fd v k)) = (\<lambda>i. uses (k_procs k) i
      - (if p_fds q ! nat fd = Some i then 1 else 0) + (if v = Some i then 1 else 0))"
proof -
  let ?q = "q\<lparr>p_fds := (p_fds q)[nat fd := v]\<rparr>"
  have t: "ptable_ok X (k_procs k) (k_runq k) (k_next_pid k)" using m by (rule making_kbal)
  from ptable_ok_proc [OF t q] have ok: "proc_ok p q" by blast
  have d: "distinct (map fst (k_procs k))" using t by (simp add: ptable_ok_def)
  have st: "settled (k_runq k) p ?q" if "p \<notin> X"
  proof -
    have "settled (k_runq k) p q" using t q that unfolding ptable_ok_def by blast
    then show ?thesis
      using z that by (auto simp: settled_def dest!: set_update_subset_insert [THEN subsetD])
  qed
  have "ptable_ok X (k_procs (put_fd p fd v k)) (k_runq k) (k_next_pid k)"
    using t q ok st ptable_ok_map_entry [of X "k_procs k" "k_runq k" "k_next_pid k" p q "\<lambda>q. q\<lparr>p_fds := (p_fds q)[nat fd := v]\<rparr>"]
    by (simp add: put_fd_def proc_ok_def)
  moreover have "active r (put_fd p fd v k)" if "A = Some r" for r
    using that m q by (auto simp: making_def active_def put_fd_def)
  moreover have "uses (k_procs (put_fd p fd v k)) i = uses (k_procs k) i
      - (if p_fds q ! nat fd = Some i then 1 else 0) + (if v = Some i then 1 else 0)" for i
    using d ok q fd by (simp add: proc_ok_def put_fd_def uses_map_entry proc_uses_def count_list_update)
  ultimately show ?thesis by blast
qed

lemma making_add:
  assumes m: "making fs X A n S k" and q: "map_of (k_procs k) p = Some q" and fd: "nat fd < 20"
    and free: "p_fds q ! nat fd = None" and z: "p \<in> X \<or> p_state q \<noteq> ZOMBIE"
    and f: "f_obj f = OPipe n" "f_refs f = 1"
  shows "\<exists>i k1. new_file f k = (Inr i, k1) \<and> making fs X A n (insert i S) (put_fd p fd (Some i) k1) \<and>
    i \<notin> S \<and> k_files (put_fd p fd (Some i) k1) = (k_files k)(i \<mapsto> f) \<and> k_procs k1 = k_procs k \<and>
    uses (k_procs (put_fd p fd (Some i) k1)) = (uses (k_procs k))(i := 1)"
proof -
  let ?i = "k_next_file k" and ?k = "snd (new_file f k)"
  have b: "balanced {n} (uses (k_procs k)) k" using m by (simp add: making_def)
  have fresh: "uses (k_procs k) ?i = 0" "k_files k ?i = None" using balanced_fresh [OF b, of ?i] by auto
  have b': "balanced {n} ((uses (k_procs k))(?i := 1)) ?k"
    using balanced_exempt_file [OF b f(1)] f(2) m by (simp add: making_def)
  have same: "k_procs ?k = k_procs k" "k_runq ?k = k_runq k" "k_next_pid ?k = k_next_pid k"
    "k_fs ?k = k_fs k" "k_tty ?k = k_tty k" "k_pipes ?k = k_pipes k" "k_current ?k = k_current k"
    "k_files ?k = (k_files k)(?i \<mapsto> f)"
    by (simp_all add: new_file_def)
  note put = making_put [OF m q fd, of "Some ?i"]
  have u: "uses (k_procs (put_fd p fd (Some ?i) k)) = (uses (k_procs k))(?i := 1)"
    using put z fresh free by auto
  have eq: "k_procs (put_fd p fd (Some ?i) ?k) = k_procs (put_fd p fd (Some ?i) k)"
    by (simp add: put_fd_def same)
  have "balanced {n} ((uses (k_procs k))(?i := 1)) (put_fd p fd (Some ?i) ?k)"
    using b' by (rule balanced_same) (simp_all add: put_fd_def)
  moreover have "active r (put_fd p fd (Some ?i) ?k)" if "A = Some r" for r
    using put z that same by (simp add: active_def put_fd_def)
  ultimately have "making fs X A n (insert ?i S) (put_fd p fd (Some ?i) ?k)"
    using m put z unfolding making_def eq u
    by (auto simp: put_fd_def same)
  moreover have "?i \<notin> S" using fresh m by (auto simp: making_def)
  moreover have "new_file f k = (Inr ?i, ?k)" by (simp add: new_file_def)
  moreover have "k_files (put_fd p fd (Some ?i) ?k) = (k_files k)(?i \<mapsto> f)"
    by (simp add: put_fd_def same)
  ultimately show ?thesis using u eq same(1) by metis
qed


section \<open>The call\<close>

lemma wp_catchE: "wp (catchE m h) Q E s = wp m Q (\<lambda>e. wp (h e) Q E) s"
  by (simp add: wp_def catchE_def split: prod.split sum.split)

lemma wp_alloc_present:
  assumes "map_of (k_procs k) p = Some q"
    and "\<And>fd. nat fd < 20 \<Longrightarrow> p_fds q ! nat fd = None \<Longrightarrow> Q fd k" and "E (FsError EMFILE) k"
  shows "wp (alloc_fd p start) Q E k"
  using assms
  by (auto simp: alloc_fd_def wp_bindE wp_gp wp_raise wp_ret nat_less_iff dest!: free_from_slot split: option.splits)

lemma making_drop:
  assumes m: "making fs X A n {i} k" and q: "map_of (k_procs k) p = Some q" and fd: "nat fd < 20"
    and i: "p_fds q ! nat fd = Some i" and u: "uses (k_procs k) i = 1"
    and f: "k_files k i = Some f" "f_obj f = OPipe n"
  shows "kinv fs X A (put_fd p fd None k)"
proof -
  note put = making_put [OF m q fd, of None]
  have uses: "uses (k_procs (put_fd p fd None k)) = (uses (k_procs k))(i := 0)"
    using conjunct2 [OF conjunct2 [OF put]] i u by (auto simp: fun_eq_iff)
  have "balanced {n} (uses (k_procs k)) k" using m by (simp add: making_def)
  then have "balanced {n} ((uses (k_procs k))(i := 0)) k"
    using f by (rule balanced_exempt_use) simp_all
  then have "balanced {n} ((uses (k_procs k))(i := 0)) (put_fd p fd None k)"
    by (rule balanced_same) (simp_all add: put_fd_def)
  moreover have "ptable_ok X (k_procs (put_fd p fd None k)) (k_runq k) (k_next_pid k)"
    "\<forall>r. A = Some r \<longrightarrow> active r (put_fd p fd None k)"
    using put by auto
  ultimately have "making fs X A n {i} (put_fd p fd None k)"
    using m unfolding making_def uses by (simp add: put_fd_def)
  then show ?thesis using uses by (intro making_unused) auto
qed

lemma making_finish:
  assumes m: "making fs X A n {r, w} k" and "r \<noteq> w" and u: "uses (k_procs k) r = 1" "uses (k_procs k) w = 1"
    and f: "k_files k r = Some f" "f_obj f = OPipe n" "f_readable f" "\<not> f_writable f"
    and g: "k_files k w = Some g" "f_obj g = OPipe n" "\<not> f_readable g" "f_writable g"
  shows "kinv fs X A (k\<lparr>k_pipes := (k_pipes k)(n \<mapsto> Pipe_init\<lparr>readers := 1, writers := 1\<rparr>)\<rparr>)"
proof -
  let ?k = "k\<lparr>k_pipes := (k_pipes k)(n \<mapsto> Pipe_init\<lparr>readers := 1, writers := 1\<rparr>)\<rparr>"
  have s: "{r, w} \<subseteq> {..<k_next_file k}"
    using m f(1) g(1) unfolding making_def balanced_def by (auto simp: lessThan_def)
  have e: "ends R (uses (k_procs k)) (k_files k) (k_next_file k) n =
      (if R f then 1 else 0) + (if R g then 1 else 0)" for R
    using m u f g \<open>r \<noteq> w\<close> by (subst ends_files [OF _ s]) (auto simp: making_def)
  have "balanced {n} (uses (k_procs k)) ?k"
    using m unfolding making_def balanced_def by (auto simp: Pipe_init_def)
  then have "balanced {} (uses (k_procs k)) ?k"
    using e f g by (intro balanced_done [of n]) (auto simp: pipe_counts_def)
  with m show ?thesis by (simp add: making_def kinv_def kernel_ok_def active_def)
qed

lemma pipe_ends: "f_readable (OpenFile ob 0)" "\<not> f_writable (OpenFile ob 0)"
  "\<not> f_readable (OpenFile ob O_WRONLY)" "f_writable (OpenFile ob O_WRONLY)"
  by (simp_all add: f_readable_def f_writable_def OpenFile_def O_WRONLY_def O_ACCMODE_def)

lemma keeps_pipe [gives_rules]: "gives (kinv fs X (Some p)) (sys_pipe p fds b c) (\<lambda>_. True)"
proof (rule gives_wpI)
  fix k
  let ?I = "kinv fs X (Some p)"
  assume "?I k"
  then obtain n k1 where new: "new_pipe Pipe_init k = (Inr n, k1)" and m1: "making fs X (Some p) n {} k1"
    using making_start by blast
  then obtain q where q: "map_of (k_procs k1) p = Some q" and z: "p_state q \<noteq> ZOMBIE"
    by (auto simp: making_def active_def)
  show "wp (sys_pipe p fds b c) (\<lambda>_. ?I) (\<lambda>_. ?I) k"
    unfolding sys_pipe_def wp_bind wp_then
  proof (simp only: wp_def [of "new_pipe Pipe_init"] new prod.case sum.case,
      rule wp_alloc_present [OF q], goal_cases)
    case (1 rfd)
    let ?rf = "OpenFile (OPipe n) 0"
    from making_add [OF m1 q 1 _ _ , of ?rf] z obtain r k2
      where nf: "new_file ?rf k1 = (Inr r, k2)" and m2: "making fs X (Some p) n {r} (put_fd p rfd (Some r) k2)"
        and files: "k_files (put_fd p rfd (Some r) k2) = (k_files k1)(r \<mapsto> ?rf)"
        and procs: "k_procs k2 = k_procs k1"
        and uses: "uses (k_procs (put_fd p rfd (Some r) k2)) = (uses (k_procs k1))(r := 1)"
      by (auto simp: OpenFile_def)
    let ?k3 = "put_fd p rfd (Some r) k2" and ?q = "q\<lparr>p_fds := (p_fds q)[nat rfd := Some r]\<rparr>"
    have q3: "map_of (k_procs ?k3) p = Some ?q" using q procs by simp
    have len: "length (p_fds q) = 20"
      using ptable_ok_proc [OF making_kbal [OF m1] q] by (simp add: proc_ok_def)
    have fd3: "p_fds ?q ! nat rfd = Some r" using 1 len by simp
    show ?case
    proof (simp only: wp_def [of "new_file ?rf"] nf prod.case sum.case wp_set_fd wp_catchE,
        rule wp_alloc_present [OF q3], goal_cases)
      case (1 wfd)
      let ?wf = "OpenFile (OPipe n) O_WRONLY"
      from making_add [OF m2 q3 1, of ?wf] z obtain w k4
        where nf': "new_file ?wf ?k3 = (Inr w, k4)"
          and m4: "making fs X (Some p) n {w, r} (put_fd p wfd (Some w) k4)"
          and "w \<noteq> r" and files': "k_files (put_fd p wfd (Some w) k4) = (k_files ?k3)(w \<mapsto> ?wf)"
          and uses': "uses (k_procs (put_fd p wfd (Some w) k4)) = (uses (k_procs ?k3))(w := 1)"
        by (auto simp: OpenFile_def)
      let ?k5 = "put_fd p wfd (Some w) k4"
      have k6: "kinv fs X (Some p) (?k5\<lparr>k_pipes := (k_pipes ?k5)(n \<mapsto> Pipe_init\<lparr>readers := 1, writers := 1\<rparr>)\<rparr>)"
        using m4 \<open>w \<noteq> r\<close> uses uses' files files'
        by (intro making_finish [where r = r and w = w and f = ?rf and g = ?wf])
          (simp_all add: insert_commute pipe_ends, simp_all add: OpenFile_def)
      have pn: "k_pipes ?k5 n = Some Pipe_init" using m4 by (simp add: making_def)
      have "gives ?I (thenE (w32 p fds rfd) (thenE (w32 p (fds + 4) wfd) (ret 0))) (\<lambda>_. True)"
        by (intro gives_thenE gives_rules TrueI)
      from wp_gives [OF this k6] have "wp (thenE (in_pipe n (modify (\<lambda>q. q\<lparr>readers := 1, writers := 1\<rparr>)))
          (thenE (w32 p fds rfd) (thenE (w32 p (fds + 4) wfd) (ret 0)))) (\<lambda>_. ?I) (\<lambda>_. ?I) ?k5"
        by (simp add: wp_thenE wp_def [of "in_pipe n m" for m] in_pipe_def modify_def pn)
      then show ?case
        by (simp only: wp_def [of "new_file ?wf"] nf' prod.case sum.case wp_set_fd wp_then)
    next
      case 2
      have "kinv fs X (Some p) (put_fd p rfd None ?k3)"
        using m2 q3 1(1) fd3 uses files
        by (intro making_drop [where q = ?q and i = r and f = ?rf]) (simp_all add: OpenFile_def)
      then show ?case by (simp add: wp_thenE wp_set_fd wp_raise)
    qed
  next
    case 2
    then show ?case using m1 by (intro making_unused) auto
  qed
qed

end
