(* ===== verification/Kernel_Steps.thy ===== *)
theory Kernel_Steps
  imports Kernel_Pipe
begin

text \<open>
  The remaining system calls and the steps of the kernel around them: input and output,
  loading a program, processes, signals and their delivery.
\<close>

section \<open>Input and output\<close>

lemma gives_obj [gives_rules]:
  "(\<And>n. gives I (f n) R) \<Longrightarrow> (\<And>n. gives I (g n) R) \<Longrightarrow> gives I m R \<Longrightarrow> gives I m' R \<Longrightarrow>
   gives I (case ob of ONode n \<Rightarrow> f n | OPipe n \<Rightarrow> g n | OTerminal \<Rightarrow> m | ONull \<Rightarrow> m') R"
  by (simp split: obj.split)

lemma same_file_pos [simp]: "same_file (\<lambda>f. f\<lparr>f_pos := g f\<rparr>)"
  by (simp add: same_file_def f_readable_def f_writable_def)

lemma gives_move_pos [gives_rules]: "gives (kinv fs X A) (move_pos i d) (\<lambda>_. True)"
  unfolding move_pos_def by (intro gives_rules) simp

lemma gives_put_user [gives_rules]: "gives (kinv fs X A) (put_user p buf d) (\<lambda>_. True)"
  unfolding put_user_def by (intro kseq gives_rules TrueI)

lemma keeps_io [gives_rules]:
  "gives (kinv fs X A) (sys_read p a b c) (\<lambda>_. True)" "gives (kinv fs X A) (sys_write p a b c) (\<lambda>_. True)"
  "gives (kinv fs X A) (sys_lseek p a b c) (\<lambda>_. True)" "gives (kinv fs X A) (sys_ioctl p a b c) (\<lambda>_. True)"
  "gives (kinv fs X A) (sys_fstat p a b c) (\<lambda>_. True)"
  unfolding sys_read_def sys_write_def sys_lseek_def sys_ioctl_def sys_fstat_def
  by (intro kseq gives_rules gives_in_fs gives_vread gives_stamped gives_vwrite gives_with_tty
      gives_tty_read gives_tty_ioctl gives_in_tty gives_tty_write callbacks_ok caller_ok_process TrueI; simp)+

section \<open>Programs\<close>

lemma gives_resolve_rec: "gives (ov_inv fs) (resolve_rec k path argv cwd root) (\<lambda>_. True)"
proof (induction k arbitrary: path argv)
  case (Suc k)
  show ?case
    unfolding resolve_rec.simps
    by (intro gives_bindE [OF gives_walk] gives_bindE [OF gives_vn] gives_bindE [OF gives_vread]
        gives_bindE [where R = "\<lambda>_. True" and m = "liftR r" for r] gives_if gives_raise gives_liftR
        gives_option gives_prod gives_ret Suc TrueI)
qed (simp add: gives_raise)

lemma gives_load: "gives (ov_inv fs) (load_aout m i) (\<lambda>_. True)"
  unfolding load_aout_def Let_def
  by (intro gives_bindE [OF gives_vn] gives_bindE [OF gives_vread]
      gives_bindE [where R = "\<lambda>_. True" and m = "liftR r" for r] gives_thenE gives_if gives_raise
      gives_liftR gives_ret TrueI)

lemma gives_exec_image [gives_rules]: "gives (kinv fs X A) (exec_image path argv envp cwd root) (\<lambda>_. True)"
  unfolding exec_image_def resolve_exec_def
  by (intro kseq gives_in_fs gives_resolve_rec gives_load gives_prod TrueI)
    (auto intro: gives_rules split: prod.split sum.split)

lemma gives_make_cpu [gives_rules]: "gives (kinv fs X A) (make_cpu m q) (\<lambda>_. True)"
  unfolding make_cpu_def by (intro kseq gives_rules TrueI)

lemma gives_install_cpu:
  assumes "p \<in> X \<or> A = Some p"
  shows "gives (kinv fs X A) (install_cpu p c) (\<lambda>_. True)"
proof (rule gives_wpI)
  fix k
  assume k: "kinv fs X A k"
  show "wp (install_cpu p c) (\<lambda>_. kinv fs X A) (\<lambda>_. kinv fs X A) k"
  proof (cases "map_of (k_procs k) p")
    case None
    with k show ?thesis by (simp add: install_cpu_def wp_up map_entry_absent)
  next
    case (Some q)
    have "proc_ok p q" using k Some by (rule kinv_proc)
    moreover have "settled (k_runq k) p q \<and> p_cpu q \<noteq> None \<and> p_state q = RUNNING" if "p \<notin> X"
      using that assms k Some kinv_settled [OF k Some] by (auto simp: kinv_def active_def)
    moreover have "p_state q = RUNNING" if "A = Some p"
      using that k Some by (auto simp: kinv_def active_def)
    ultimately show ?thesis
      unfolding install_cpu_def wp_up
      by (intro kinv_map_entry [OF k Some]) (auto simp: proc_ok_def settled_def)
  qed
qed

lemma gives_start_cpu: "p \<in> X \<or> A = Some p \<Longrightarrow> gives (kinv fs X A) (start_cpu p im) (\<lambda>_. True)"
  unfolding start_cpu_def by (intro kseq gives_prod gives_make_cpu gives_install_cpu TrueI)

lemma gives_close_on_exec [gives_rules]: "gives (kinv fs X A) (close_on_exec p i) (\<lambda>_. True)"
  unfolding close_on_exec_def by (intro kseq gives_rules TrueI)

lemma gives_read_ptrs [gives_rules]: "gives (kinv fs X A) (from_user p (read_ptr_array a)) (\<lambda>_. True)"
  by (rule gives_from_user)

lemma keeps_execve [gives_rules]: "gives (kinv fs X (Some p)) (sys_execve p a b c) (\<lambda>_. True)"
  unfolding sys_execve_def
  by (intro kseq gives_start_cpu gives_for_each gives_rules TrueI disjI2 refl) (simp_all add: quiet_def)

section \<open>The process table and the run queue\<close>

lemma ptable_ok_add:
  assumes t: "ptable_ok X ps rq np" and q: "proc_ok np q" and rq: "rq' = rq \<or> rq' = rq @ [np]"
    and s: "np \<notin> X \<Longrightarrow> settled rq' np q"
  shows "ptable_ok X (AList.update np q ps) rq' (np + 1) \<and> map_of ps np = None"
proof -
  have none: "map_of ps np = None"
    using t unfolding ptable_ok_def by (metis less_irrefl not_None_eq)
  have np: "np \<notin> set rq" using t by (auto simp: ptable_ok_def)
  have old: "settled rq' i r = settled rq i r" if "i \<noteq> np" for i r
    using rq that by (auto simp: settled_def)
  have d: "distinct (map fst (AList.update np q ps))"
    using t by (simp add: ptable_ok_def distinct_update)
  have each: "i < np + 1 \<and> proc_ok i r \<and> (i \<notin> X \<longrightarrow> settled rq' i r)"
    if "map_of (AList.update np q ps) i = Some r" for i r
  proof (cases "i = np")
    case True
    with that q s show ?thesis by (simp add: update_conv')
  next
    case False
    with that have "map_of ps i = Some r" by (simp add: update_conv')
    with t have "i < np \<and> proc_ok i r \<and> (i \<notin> X \<longrightarrow> settled rq i r)"
      unfolding ptable_ok_def by blast
    with False old show ?thesis by simp
  qed
  have "0 < np" "distinct rq" "\<forall>i \<in> set rq. i < np" using t by (simp_all add: ptable_ok_def)
  then have "distinct rq' \<and> (\<forall>i \<in> set rq'. i < np + 1)" using rq np by (auto intro: less_imp_le)
  with \<open>0 < np\<close> d each none show ?thesis
    unfolding ptable_ok_def by simp
qed

lemma wp_new_process:
  assumes k: "kinv fs X None k"
    and Q: "\<And>k' p. kinv fs X None k' \<Longrightarrow> p = k_next_pid k \<Longrightarrow>
      map_of (k_procs k') p = Some ((Process p)\<lparr>p_cwd := Some ROOT, p_root := Some ROOT\<rparr>) \<Longrightarrow>
      p \<notin> set (k_runq k') \<Longrightarrow> map_of (k_procs k) p = None \<Longrightarrow> Q p k'"
  shows "wp new_process Q E k"
proof -
  let ?p = "k_next_pid k" and ?q = "(Process (k_next_pid k))\<lparr>p_cwd := Some ROOT, p_root := Some ROOT\<rparr>"
  let ?k = "k\<lparr>k_next_pid := ?p + 1, k_procs := AList.update ?p ?q (k_procs k)\<rparr>"
  have t: "ptable_ok X (k_procs k) (k_runq k) ?p" and "0 < ?p"
    using k by (auto simp: kinv_def kernel_ok_def ptable_ok_def)
  have ok: "proc_ok ?p ?q" using \<open>0 < ?p\<close> by (simp add: proc_ok_def Process_def NR_OPEN_def)
  have nq: "?p \<notin> set (k_runq k)" using t by (auto simp: ptable_ok_def)
  then have "settled (k_runq k) ?p ?q" by (simp add: settled_def Process_def)
  from ptable_ok_add [OF t ok disjI1 [OF refl] this]
  have t': "ptable_ok X (AList.update ?p ?q (k_procs k)) (k_runq k) (?p + 1)"
    and none: "map_of (k_procs k) ?p = None" by auto
  have "proc_uses ?q i = 0" for i by (simp add: proc_uses_def Process_def count_list_0_iff)
  then have "uses (AList.update ?p ?q (k_procs k)) = uses (k_procs k)"
    using none by (intro ext) (simp add: uses_add)
  then have "kinv fs X None ?k"
    using k t' by (auto simp: kinv_def kernel_ok_def elim!: balanced_same)
  then have "Q ?p ?k" using nq none by (intro Q) (simp_all add: update_conv')
  then show ?thesis
    by (simp add: new_process_def wp_bindE wp_thenE wp_ret add_proc_def wp_modify Process_def
        wp_def [of new_pid] new_pid_def)
qed

subsection \<open>fork\<close>

lemma wp_acquire_all:
  assumes "kbal fs X A U k" and "\<And>i. Some i \<in> set ds \<Longrightarrow> 1 \<le> U i"
    and "\<And>k'. kbal fs X A (\<lambda>i. U i + int (count_list ds (Some i))) k' \<Longrightarrow> k_procs k' = k_procs k \<Longrightarrow>
      k_runq k' = k_runq k \<Longrightarrow> k_next_pid k' = k_next_pid k \<Longrightarrow> Q () k'"
  shows "wp (for_each (\<lambda>f. case f of None \<Rightarrow> ret () | Some i \<Rightarrow> acquire_fd i) ds) Q E k"
  using assms
proof (induction ds arbitrary: U k)
  case Nil
  then show ?case by (simp add: wp_ret)
next
  case (Cons d ds)
  show ?case
  proof (cases d)
    case None
    with Cons.prems show ?thesis by (auto simp: wp_thenE wp_ret intro!: Cons.IH [of U])
  next
    case (Some i)
    have "wp (acquire_fd i) (\<lambda>_. wp (for_each (\<lambda>f. case f of None \<Rightarrow> ret () | Some i \<Rightarrow> acquire_fd i) ds) Q E) E k"
    proof (rule kbal_acquire [OF Cons.prems(1)])
      show "U i \<noteq> 0" using Cons.prems(2) [of i] Some by simp
      fix k'
      assume k': "kbal fs X A (U(i := U i + 1)) k'" "k_procs k' = k_procs k" "k_runq k' = k_runq k"
        "k_next_pid k' = k_next_pid k"
      show "wp (for_each (\<lambda>f. case f of None \<Rightarrow> ret () | Some i \<Rightarrow> acquire_fd i) ds) Q E k'"
      proof (rule Cons.IH [OF k'(1)])
        show "1 \<le> (U(i := U i + 1)) j" if "Some j \<in> set ds" for j
          using Cons.prems(2) [of j] that by auto
        have "(\<lambda>j. (U(i := U i + 1)) j + int (count_list ds (Some j))) =
            (\<lambda>j. U j + int (count_list (d # ds) (Some j)))"
          using Some by (intro ext) simp
        then show "Q () t" if "kbal fs X A (\<lambda>j. (U(i := U i + 1)) j + int (count_list ds (Some j))) t"
          "k_procs t = k_procs k'" "k_runq t = k_runq k'" "k_next_pid t = k_next_pid k'" for t
          using that k' by (intro Cons.prems(3)) simp_all
      qed
    qed
    with Some show ?thesis by (simp add: wp_thenE)
  qed
qed

lemma kinv_fork:
  assumes k: "kbal fs X A (\<lambda>i. uses (k_procs k) i + proc_uses q i) k"
    and q: "proc_ok (np - 1) q" "k_next_pid k = np" "map_of (k_procs k) (np - 1) = None"
    and t: "ptable_ok X (k_procs k) (k_runq k) (np - 1)" and s: "p_state q = RUNNING" "p_cpu q \<noteq> None"
  shows "kinv fs X A (k\<lparr>k_procs := AList.update (np - 1) q (k_procs k), k_runq := k_runq k @ [np - 1]\<rparr>)"
proof -
  have "settled (k_runq k @ [np - 1]) (np - 1) q" using s by (simp add: settled_def)
  from ptable_ok_add [OF t q(1) disjI2 [OF refl] this]
  have "ptable_ok X (AList.update (np - 1) q (k_procs k)) (k_runq k @ [np - 1]) np" by simp
  moreover have "uses (AList.update (np - 1) q (k_procs k)) = (\<lambda>i. uses (k_procs k) i + proc_uses q i)"
    using q(3) by (intro ext) (simp add: uses_add)
  moreover have "active r (k\<lparr>k_procs := AList.update (np - 1) q (k_procs k), k_runq := k_runq k @ [np - 1]\<rparr>)"
    if "active r k" for r
    using that q(3) by (auto simp: active_def update_conv')
  ultimately show ?thesis
    using k q(2) by (auto simp: kinv_def kernel_ok_def kbal_def elim!: balanced_same)
qed

lemma keeps_fork [gives_rules]: "gives (kinv fs X A) (sys_fork p a b c) (\<lambda>_. True)"
proof (rule gives_wpI)
  fix k
  let ?I = "kinv fs X A"
  assume k: "?I k"
  show "wp (sys_fork p a b c) (\<lambda>_. ?I) (\<lambda>_. ?I) k"
  proof (cases "map_of (k_procs k) p")
    case None
    with k show ?thesis by (simp add: sys_fork_def wp_bindE wp_gp)
  next
    case (Some q)
    show ?thesis
    proof (cases "p_cpu q")
      case None
      with Some k show ?thesis
        by (simp add: sys_fork_def wp_bindE wp_gp get_cpu_def wp_option wp_raise)
    next
      case (Some cq)
      let ?np = "k_next_pid k" and ?k1 = "k\<lparr>k_next_pid := k_next_pid k + 1\<rparr>"
      have t: "ptable_ok X (k_procs k) (k_runq k) ?np" and "0 < ?np"
        using k by (auto simp: kinv_def kernel_ok_def ptable_ok_def)
      have none: "map_of (k_procs k) ?np = None"
        using t unfolding ptable_ok_def by (metis less_irrefl not_None_eq)
      have qok: "proc_ok p q" using k \<open>map_of (k_procs k) p = Some q\<close> by (rule kinv_proc)
      have "\<forall>i \<in> set (k_runq k). i < ?np + 1" "\<And>i r. map_of (k_procs k) i = Some r \<Longrightarrow> i < ?np + 1"
        using t unfolding ptable_ok_def by (fastforce intro: less_imp_le)+
      then have "ptable_ok X (k_procs k) (k_runq k) (?np + 1)"
        using t unfolding ptable_ok_def by simp
      then have k1: "kbal fs X A (uses (k_procs k)) ?k1"
        using k by (auto simp: kinv_kbal kbal_def active_def elim!: balanced_same)
      have used: "1 \<le> uses (k_procs k) i" if i: "Some i \<in> set (p_fds q)" for i
      proof -
        obtain n where "n < 20" "p_fds q ! n = Some i"
          using i qok by (metis in_set_conv_nth proc_ok_def)
        then show ?thesis
          using kinv_slot_used [OF k \<open>map_of (k_procs k) p = Some q\<close>, of "int n" i] by simp
      qed
      have "wp (for_each (\<lambda>f. case f of None \<Rightarrow> ret () | Some i \<Rightarrow> acquire_fd i) (p_fds q))
         (\<lambda>_ k'. \<forall>cc. ?I (k'\<lparr>k_procs := AList.update ?np ((forked ?np q)\<lparr>p_fds := p_fds q, p_cpu := Some cc\<rparr>) (k_procs k'),
            k_runq := k_runq k' @ [?np]\<rparr>)) (\<lambda>_. ?I) ?k1"
      proof (rule wp_acquire_all [OF k1 used], assumption, rule allI)
        fix k' cc
        assume k': "kbal fs X A (\<lambda>i. uses (k_procs k) i + int (count_list (p_fds q) (Some i))) k'"
          "k_procs k' = k_procs ?k1" "k_runq k' = k_runq ?k1" "k_next_pid k' = k_next_pid ?k1"
        let ?c = "(forked ?np q)\<lparr>p_fds := p_fds q, p_cpu := Some cc\<rparr>"
        have "proc_ok ?np ?c"
          using qok \<open>0 < ?np\<close> by (simp add: proc_ok_def forked_def Process_def)
        then show "?I (k'\<lparr>k_procs := AList.update ?np ?c (k_procs k'), k_runq := k_runq k' @ [?np]\<rparr>)"
          using kinv_fork [of fs X A k' ?c "?np + 1"] k' none t
          by (simp add: proc_uses_def forked_def Process_def)
      qed
      then show ?thesis
        using \<open>map_of (k_procs k) p = Some q\<close> Some
        apply (simp add: sys_fork_def wp_bindE wp_gp get_cpu_def wp_option wp_ret wp_def [of new_pid]
            new_pid_def Let_def wp_thenE)
        apply (erule wp_mono)
         apply (simp_all add: make_cpu_def wp_bindE wp_gets wp_ret wp_thenE add_proc_def wp_modify forked_def Process_def)
        done
    qed
  qed
qed

subsection \<open>Waking and sleeping\<close>

lemma kinv_mono: "kinv fs X A k \<Longrightarrow> X \<subseteq> Y \<Longrightarrow> kinv fs Y A k"
  unfolding kinv_def kernel_ok_def ptable_ok_def by blast

lemma kinv_settle:
  assumes k: "kinv fs (insert p X) A k" and q: "map_of (k_procs k) p = Some q"
    and rq: "distinct rq" "set rq - {p} = set (k_runq k) - {p}" and s: "settled rq p q"
  shows "kinv fs X A (k\<lparr>k_runq := rq\<rparr>)"
proof -
  have t: "ptable_ok (insert p X) (k_procs k) (k_runq k) (k_next_pid k)"
    using k by (simp add: kinv_def kernel_ok_def)
  have other: "settled rq i r = settled (k_runq k) i r" if "i \<noteq> p" for i r
  proof -
    have "i \<in> set rq \<longleftrightarrow> i \<in> set (k_runq k)" using rq(2) that by blast
    then show ?thesis by (simp add: settled_def)
  qed
  have each: "i < k_next_pid k \<and> proc_ok i r \<and> (i \<notin> X \<longrightarrow> settled rq i r)"
    if "map_of (k_procs k) i = Some r" for i r
  proof -
    have "i < k_next_pid k \<and> proc_ok i r \<and> (i \<notin> insert p X \<longrightarrow> settled (k_runq k) i r)"
      using t that unfolding ptable_ok_def by blast
    with other [of i r] s that q show ?thesis by (cases "i = p") auto
  qed
  have "p < k_next_pid k" using each [OF q] by simp
  then have "\<forall>i \<in> set rq. i < k_next_pid k"
    using t rq(2) unfolding ptable_ok_def by (metis Diff_iff singletonD singletonI insertE)
  with t each rq(1) have "ptable_ok X (k_procs k) rq (k_next_pid k)"
    unfolding ptable_ok_def by simp
  with k show ?thesis
    by (auto simp: kinv_def kernel_ok_def active_def elim!: balanced_same)
qed

lemma wp_enqueue:
  assumes k: "kinv fs (insert p X) A k" and q: "map_of (k_procs k) p = Some q"
    and s: "p_state q = RUNNING" "p_cpu q \<noteq> None"
    and Q: "\<And>k'. kinv fs X A k' \<Longrightarrow> k_procs k' = k_procs k \<Longrightarrow> Q () k'"
  shows "wp (enqueue p) Q E k"
proof -
  let ?rq = "if p \<in> set (k_runq k) then k_runq k else k_runq k @ [p]"
  have "distinct (k_runq k)" using k by (simp add: kinv_def kernel_ok_def ptable_ok_def)
  then have "kinv fs X A (k\<lparr>k_runq := ?rq\<rparr>)"
    using s by (intro kinv_settle [OF k q]) (auto simp: settled_def)
  moreover have "(if p \<in> set (k_runq k) then k else k\<lparr>k_runq := k_runq k @ [p]\<rparr>) = k\<lparr>k_runq := ?rq\<rparr>"
    by simp
  ultimately have "Q () (if p \<in> set (k_runq k) then k else k\<lparr>k_runq := k_runq k @ [p]\<rparr>)"
    using Q [of "k\<lparr>k_runq := ?rq\<rparr>"] by (simp only:) simp
  then show ?thesis unfolding enqueue_def wp_modify .
qed

lemma wp_dequeue:
  assumes k: "kinv fs (insert p X) A k" and q: "map_of (k_procs k) p = Some q"
    and s: "p_state q \<noteq> RUNNING" "p_state q = ZOMBIE \<Longrightarrow> set (p_fds q) \<subseteq> {None}"
    and Q: "\<And>k'. kinv fs X A k' \<Longrightarrow> k_procs k' = k_procs k \<Longrightarrow> Q () k'"
  shows "wp (dequeue p) Q E k"
proof -
  have d: "distinct (k_runq k)" using k by (simp add: kinv_def kernel_ok_def ptable_ok_def)
  then have "kinv fs X A (k\<lparr>k_runq := remove1 p (k_runq k)\<rparr>)"
    using s by (intro kinv_settle [OF k q]) (auto simp: settled_def)
  then show ?thesis unfolding dequeue_def wp_modify by (intro Q) simp_all
qed

text \<open>A change of the state of a process, on the way to or from the queue.\<close>

lemma kinv_state:
  assumes k: "kinv fs X A k" and q: "map_of (k_procs k) p = Some q" and A: "A \<noteq> Some p"
    and f: "p_pid (f q) = p_pid q" "p_fds (f q) = p_fds q" "p_cpu (f q) = p_cpu q"
      "p_sigactions (f q) = p_sigactions q" "p_state (f q) = SLEEPING \<Longrightarrow> p_cpu q \<noteq> None"
  shows "kinv fs (insert p X) A (k\<lparr>k_procs := AList.map_entry p f (k_procs k)\<rparr>)"
  using kinv_proc [OF k q] A f
  by (intro kinv_map_entry [OF kinv_mono [OF k] q]) (auto simp: proc_ok_def)

lemma wp_on_cpu_modify:
  assumes k: "kinv fs X A k" and q: "map_of (k_procs k) p = Some q" "p_cpu q = Some c"
    and Q: "\<And>k'. kinv fs X A k' \<Longrightarrow> map_of (k_procs k') p = Some (q\<lparr>p_cpu := Some (g c)\<rparr>) \<Longrightarrow> Q () k'"
  shows "wp (on_cpu p (modify g)) Q E k"
proof -
  let ?k = "k\<lparr>k_procs := AList.map_entry p (\<lambda>q. q\<lparr>p_cpu := Some (g c)\<rparr>) (k_procs k)\<rparr>"
  have run: "on_cpu p (modify g) k = (Inr (), ?k)"
    using q by (simp add: on_cpu_def get_cpu_def gp_def set_cpu_def up_def bindE_def thenE_def ret_def
        modify_def liftR_def)
  then have "kinv fs X A ?k" using givesD [OF gives_on_cpu k, of p "modify g"] by simp
  with run q show ?thesis using Q [of ?k] by (simp add: wp_def)
qed

lemma wp_wake:
  assumes k: "kinv fs X A k" and q: "map_of (k_procs k) p = Some q"
    and Q: "\<And>k'. kinv fs X A k' \<Longrightarrow> Q () k'"
  shows "wp (k_wake p b) Q E k"
proof (cases "p_state q = SLEEPING")
  case False
  with k q Q show ?thesis by (simp add: k_wake_def wp_bindE wp_gp wp_ret)
next
  case True
  then obtain c where c: "p_cpu q = Some c" using kinv_proc [OF k q] by (auto simp: proc_ok_def)
  have A: "A \<noteq> Some p" using k q True by (auto simp: kinv_def active_def)
  let ?f = "\<lambda>q. q\<lparr>p_state := RUNNING, p_channel := None\<rparr>"
  let ?k1 = "k\<lparr>k_procs := AList.map_entry p ?f (k_procs k)\<rparr>"
  have k1: "kinv fs (insert p X) A ?k1" by (rule kinv_state [OF k q A]) simp_all
  have q1: "map_of (k_procs ?k1) p = Some (?f q)" using q by simp
  have enq: "wp (enqueue p) Q E t"
    if "kinv fs (insert p X) A t" "map_of (k_procs t) p = Some r" "p_state r = RUNNING" "p_cpu r \<noteq> None" for t r
    using that by (rule wp_enqueue) (rule Q)
  show ?thesis
  proof (cases "b \<and> p_restart q")
    case False
    then show ?thesis
      using q True c enq [OF k1 q1] by (auto simp: k_wake_def wp_bindE wp_gp wp_thenE wp_up wp_ret)
  next
    case interrupted: True
    let ?g = "\<lambda>c. set_rg EAX (- EINTR AND 0xFFFFFFFF) (c\<lparr>eip := (eip c + 2) AND 0xFFFFFFFF\<rparr>)"
    have "wp (on_cpu p (modify ?g)) (\<lambda>_. wp (thenE (up p (\<lambda>q. q\<lparr>p_restart := False\<rparr>)) (enqueue p)) Q E) E ?k1"
    proof (rule wp_on_cpu_modify [OF k1 q1])
      fix t
      assume t: "kinv fs (insert p X) A t" "map_of (k_procs t) p = Some (?f q\<lparr>p_cpu := Some (?g c)\<rparr>)"
      have "kinv fs (insert p X) A (t\<lparr>k_procs := AList.map_entry p (\<lambda>q. q\<lparr>p_restart := False\<rparr>) (k_procs t)\<rparr>)"
        by (rule kinv_quiet [OF t(1)]) (simp add: quiet_def)
      then show "wp (thenE (up p (\<lambda>q. q\<lparr>p_restart := False\<rparr>)) (enqueue p)) Q E t"
        using t(2) by (auto simp: wp_thenE wp_up intro: enq)
    qed (simp add: c)
    then show ?thesis
      using q True interrupted by (simp add: k_wake_def wp_bindE wp_gp wp_thenE wp_up wp_then)
  qed
qed

lemma gives_wake [gives_rules]: "gives (kinv fs X A) (k_wake p b) (\<lambda>_. True)"
proof (rule gives_wpI)
  fix k
  assume k: "kinv fs X A k"
  show "wp (k_wake p b) (\<lambda>_. kinv fs X A) (\<lambda>_. kinv fs X A) k"
  proof (cases "map_of (k_procs k) p")
    case None
    with k show ?thesis by (simp add: k_wake_def wp_bindE wp_gp)
  next
    case (Some q)
    with k show ?thesis by (rule wp_wake)
  qed
qed

lemma gives_post_signal [gives_rules]: "gives (kinv fs X A) (post_signal p sig) (\<lambda>_. True)"
  unfolding post_signal_def by (intro kseq gives_rules TrueI; simp add: quiet_def)

lemma keeps_signals [gives_rules]:
  "gives (kinv fs X A) (sys_kill p a b c) (\<lambda>_. True)" "gives (kinv fs X A) (sys_sgetmask p a b c) (\<lambda>_. True)"
  "gives (kinv fs X A) (sys_ssetmask p a b c) (\<lambda>_. True)" "gives (kinv fs X A) (sys_pause p a b c) (\<lambda>_. True)"
  "gives (kinv fs X A) (sys_setsid p a b c) (\<lambda>_. True)" "gives (kinv fs X A) (sys_setpgid p a b c) (\<lambda>_. True)"
  "gives (kinv fs X A) (sys_alarm p a b c) (\<lambda>_. True)" "gives (kinv fs X A) (sys_signal p a b c) (\<lambda>_. True)"
  "gives (kinv fs X A) (sys_sigaction p a b c) (\<lambda>_. True)"
  unfolding sys_kill_def sys_sgetmask_def sys_ssetmask_def sys_pause_def sys_setsid_def sys_setpgid_def
    sys_alarm_def sys_signal_def sys_sigaction_def set_action_def
  by (intro kseq gives_for_each gives_rules TrueI; simp add: quiet_def)+

section \<open>Waiting\<close>

definition dead :: "int \<Rightarrow> kernel \<Rightarrow> bool" where
  "dead i k \<longleftrightarrow> (\<forall>q. map_of (k_procs k) i = Some q \<longrightarrow> p_state q = ZOMBIE)"

lemma kinv_reap:
  assumes k: "kinv fs X A k" and q: "map_of (k_procs k) i = Some q" and z: "p_state q = ZOMBIE" and i: "i \<notin> X"
  shows "kinv fs X A (k\<lparr>k_procs := AList.delete i (k_procs k)\<rparr>)"
proof -
  have "set (p_fds q) \<subseteq> {None}" using kinv_settled [OF k q i] z by (simp add: settled_def)
  then have "proc_uses q j = 0" for j by (auto simp: proc_uses_def count_list_0_iff)
  then have "uses (AList.delete i (k_procs k)) = uses (k_procs k)"
    using k q by (intro ext) (simp add: uses_delete kinv_def kernel_ok_def ptable_ok_def)
  moreover have "ptable_ok X (AList.delete i (k_procs k)) (k_runq k) (k_next_pid k)"
    using k by (auto simp: kinv_def kernel_ok_def ptable_ok_def distinct_delete delete_conv')
  moreover have "active r (k\<lparr>k_procs := AList.delete i (k_procs k)\<rparr>)" if "A = Some r" for r
    using k q z that by (auto simp: kinv_def active_def delete_conv')
  ultimately show ?thesis
    using k by (auto simp: kinv_def kernel_ok_def elim!: balanced_same)
qed

lemma wp_reap:
  assumes k: "kinv fs X A k" and d: "dead i k" "i \<notin> X" and Q: "\<And>k'. kinv fs X A k' \<Longrightarrow> Q () k'"
    and E: "\<And>e. E e k"
  shows "wp (reap i) Q E k"
proof (cases "map_of (k_procs k) i")
  case None
  with E show ?thesis by (simp add: reap_def wp_bindE wp_gp)
next
  case (Some q)
  then have "kinv fs X A (k\<lparr>k_procs := AList.delete i (k_procs k)\<rparr>)"
    using d by (intro kinv_reap [OF k]) (auto simp: dead_def)
  then have 1: "kinv fs X A (k\<lparr>k_gone := g, k_history := h, k_procs := AList.delete i (k_procs k)\<rparr>)" for g h
    by (simp add: kinv_def kernel_ok_def balanced_def active_def)
  then have "kinv fs X A (k\<lparr>k_history := h, k_procs := AList.delete i (k_procs k)\<rparr>)" for h
    by (simp add: kinv_def kernel_ok_def balanced_def active_def)
  with 1 Some Q
  show ?thesis by (simp add: reap_def wp_bindE wp_gp wp_modify)
qed

lemma kept_other:
  "i \<noteq> p \<Longrightarrow> kept (\<lambda>k. map_of (k_procs k) i) (up p f)"
  "i \<noteq> p \<Longrightarrow> kept (\<lambda>k. map_of (k_procs k) i) (on_cpu p m)"
proof -
  show up: "i \<noteq> p \<Longrightarrow> kept (\<lambda>k. map_of (k_procs k) i) (up p f)" for f
    by (simp add: up_def kept_modify)
  have "kept (\<lambda>k. map_of (k_procs k) i) (get_cpu p)"
    unfolding get_cpu_def by (intro kept_rules) (simp add: kept_def gp_def split: option.split)
  then show "i \<noteq> p \<Longrightarrow> kept (\<lambda>k. map_of (k_procs k) i) (on_cpu p m)"
    unfolding on_cpu_def set_cpu_def by (intro kept_rules up)
qed

lemma keeps_waitpid [gives_rules]: "gives (kinv fs {} (Some p)) (sys_waitpid p a b c) (\<lambda>_. True)"
proof (rule gives_wpI)
  fix k
  let ?I = "kinv fs {} (Some p)"
  assume k: "?I k"
  have body: "wp (thenE (if b \<noteq> 0 then w32 p b (p_exit_code q AND 0xFFFFFFFF) else ret ())
      (thenE (up p (\<lambda>me. me\<lparr>p_cutime := p_cutime me + p_utime q, p_cstime := p_cstime me + p_stime q\<rparr>))
      (thenE (reap i) (ret (p_pid q))))) (\<lambda>_. ?I) (\<lambda>_. ?I) k"
    if z: "map_of (k_procs k) i = Some q" "p_state q = ZOMBIE" for i q
  proof -
    have i: "i \<noteq> p" using k z by (auto simp: kinv_def active_def)
    let ?J = "\<lambda>t. ?I t \<and> map_of (k_procs t) i = Some q"
    have w: "gives ?J (if b \<noteq> 0 then w32 p b (p_exit_code q AND 0xFFFFFFFF) else ret ()) (\<lambda>_. True)"
      using i unfolding w32_def on_user_def
      by (intro gives_conj gives_rules TrueI kept_gives [where I = "\<lambda>x. x = Some q"] kept_rules kept_other)
    have u: "gives ?J (up p (\<lambda>me. me\<lparr>p_cutime := p_cutime me + p_utime q, p_cstime := p_cstime me + p_stime q\<rparr>)) (\<lambda>_. True)"
      using i by (intro gives_conj gives_up kept_gives [where I = "\<lambda>x. x = Some q"] kept_other) (simp_all add: quiet_def)
    have r: "wp (thenE (reap i) (ret (p_pid q))) (\<lambda>_. ?I) (\<lambda>_. ?I) t" if "?J t" for t
      unfolding wp_thenE using that z(2) by (intro wp_reap [where X = "{}"]) (auto simp: dead_def wp_ret)
    show ?thesis
      unfolding wp_thenE using k z r
      by (intro wp_gives [OF w]) (auto simp: wp_then intro!: wp_gives [OF u])
  qed
  show "wp (sys_waitpid p a b c) (\<lambda>_. ?I) (\<lambda>_. ?I) k"
  proof (cases "map_of (k_procs k) p")
    case None
    with k show ?thesis by (simp add: sys_waitpid_def wp_bindE wp_gp)
  next
    case (Some me)
    have d: "distinct (map fst (k_procs k))" using k by (simp add: kinv_def kernel_ok_def ptable_ok_def)
    have found: "map_of (k_procs k) i = Some q \<and> p_state q = ZOMBIE"
      if "find (\<lambda>(i, q). p_state q = ZOMBIE) (filter f (filter g (k_procs k))) = Some (i, q)" for f g i q
      using that d by (auto simp: find_Some_iff intro: map_of_is_SomeI dest!: nth_mem)
    show ?thesis
      using Some k body found
      by (auto simp: sys_waitpid_def wp_bindE wp_gp wp_gets Let_def wp_ret wp_raise
          split: option.split)
  qed
qed

section \<open>Dispatch\<close>

lemma map_of_gives:
  "map_of xs n = Some f \<Longrightarrow> list_all (\<lambda>(i, g). P g) xs \<Longrightarrow> P f"
  by (induction xs) (auto split: if_splits)

lemma gives_dispatch: "gives (kinv fs {} (Some p)) (dispatch p nr a b c) (\<lambda>_. True)"
proof -
  have "gives (kinv fs {} (Some p)) (f p a b c) (\<lambda>_. True)" if "map_of syscall_table nr = Some f" for f
    using that
  proof (rule map_of_gives)
    show "list_all (\<lambda>(i, g). gives (kinv fs {} (Some p)) (g p a b c) (\<lambda>_. True)) syscall_table"
      unfolding syscall_table_def list.pred_inject(2) prod.case
      by (intro conjI list.pred_inject(1) gives_rules TrueI)
  qed
  then show ?thesis
    unfolding dispatch_def by (intro gives_if gives_ret gives_option TrueI)
qed

lemma gives_count_syscall: "gives (kinv fs X A) (count_syscall p nr a b c r) (\<lambda>_. True)"
  unfolding count_syscall_def by (intro kseq gives_rules TrueI; simp add: quiet_def)

lemma gives_syscall: "gives (kinv fs {} (Some p)) (syscall p nr a b c) (\<lambda>_. True)"
  unfolding syscall_def
  by (intro kseq gives_count_syscall catchE_gives gives_dispatch gives_option gives_ret gives_raise TrueI)

end
