(* ===== verification/Kernel_Exit.thy ===== *)
theory Kernel_Exit
  imports Kernel_Steps Kernel_Sched
begin

text \<open>
  The end of a process keeps the invariant of \<open>Kernel_Inv\<close> and settles the process: its
  descriptors are released, its children adopted, it leaves the run queue, its parent is told.
  The delivery of signals and the built-in init, which end and start processes, follow.
\<close>

section \<open>Releasing the descriptors\<close>

lemma wp_release_fd:
  assumes k: "kinv fs X A k" and q: "map_of (k_procs k) p = Some q" and i: "nat i < 20"
    and Q: "\<And>k'. kinv fs X A k' \<Longrightarrow> map_of (k_procs k') p = Some (q\<lparr>p_fds := (p_fds q)[nat i := None]\<rparr>) \<Longrightarrow> Q () k'"
  shows "wp (release_fd p i) Q E k"
proof (cases "p_fds q ! nat i")
  case None
  then have "(p_fds q)[nat i := None] = p_fds q" by (metis list_update_id)
  with k q None Q show ?thesis by (simp add: release_fd_def wp_bindE wp_gp wp_ret)
next
  case (Some f)
  have kb: "kbal fs X A (uses (k_procs k)) k" using k by (simp add: kinv_kbal)
  have "wp (thenE (release_file f) (set_fd p i None)) Q E k"
    unfolding wp_thenE
  proof (rule kbal_release [OF kb slot_used [OF kb q i Some]], goal_cases)
    case (1 k')
    have q': "map_of (k_procs k') p = Some q" using 1 q by simp
    have "kbal fs X A ((uses (k_procs k))(f := uses (k_procs k) f - 1)) (put_fd p i None k')"
      by (rule kbal_put_fd [OF 1(1) q']) simp
    moreover have "uses (k_procs (put_fd p i None k')) = (uses (k_procs k))(f := uses (k_procs k) f - 1)"
      using uses_put_fd [OF 1(1) q' i] Some 1(2) by (intro ext) simp
    ultimately show ?case
      using Q q' by (simp add: wp_set_fd kinv_kbal)
  qed
  with q Some show ?thesis by (simp add: release_fd_def wp_bindE wp_gp)
qed

lemma wp_release_fds:
  assumes "kinv fs X A k" and "map_of (k_procs k) p = Some q" and "\<forall>i \<in> set is. nat i < 20"
    and "\<And>k'. kinv fs X A k' \<Longrightarrow>
      map_of (k_procs k') p = Some (q\<lparr>p_fds := foldl (\<lambda>fds i. fds[nat i := None]) (p_fds q) is\<rparr>) \<Longrightarrow> Q () k'"
  shows "wp (for_each (release_fd p) is) Q E k"
  using assms
proof (induction "is" arbitrary: k q)
  case Nil
  then show ?case by (simp add: wp_ret)
next
  case (Cons i "is")
  show ?case
    unfolding for_each.simps wp_thenE
  proof (rule wp_release_fd [OF Cons.prems(1,2)], goal_cases)
    case 1
    then show ?case using Cons.prems(3) by simp
  next
    case (2 k')
    then show ?case using Cons.prems(3,4) by (intro Cons.IH [OF 2]) auto
  qed
qed

lemma cleared_nth:
  "nat j < length fds \<Longrightarrow> j \<in> set is \<or> fds ! nat j = None \<Longrightarrow> foldl (\<lambda>fds i. fds[nat i := None]) fds is ! nat j = None"
proof (induction "is" arbitrary: fds)
  case (Cons i "is")
  then show ?case by (cases "nat i = nat j") (auto simp: nth_list_update)
qed simp

lemma length_cleared [simp]: "length (foldl (\<lambda>fds i. fds[nat i := v]) fds is) = length fds"
  by (induction "is" arbitrary: fds) auto

lemma all_cleared:
  assumes "length fds = 20"
  shows "set (foldl (\<lambda>fds i. fds[nat i := None]) fds [0..NR_OPEN - 1]) \<subseteq> {None}"
proof
  fix x
  assume "x \<in> set (foldl (\<lambda>fds i. fds[nat i := None]) fds [0..NR_OPEN - 1])"
  then obtain j where "j < 20" "x = foldl (\<lambda>fds i. fds[nat i := None]) fds [0..NR_OPEN - 1] ! nat (int j)"
    using assms by (auto simp: in_set_conv_nth)
  then show "x \<in> {None}"
    using cleared_nth [of "int j" fds "[0..NR_OPEN - 1]"] assms by (simp add: NR_OPEN_def)
qed

section \<open>Ending\<close>

lemma map_of_adopt:
  "map_of (map (\<lambda>(i, q). (i, f q)) ps) i = map_option f (map_of ps i)"
  by (induction ps) auto

lemma kinv_adopt:
  assumes k: "kinv fs X A k"
  shows "kinv fs X A (snd (adopt p k))"
proof -
  let ?f = "\<lambda>q :: proc. if p_ppid q = p then q\<lparr>p_ppid := 1\<rparr> else q"
  have u: "uses (map (\<lambda>(i, q). (i, ?f q)) (k_procs k)) = uses (k_procs k)"
    by (rule uses_map) simp
  have keys: "map fst (map (\<lambda>(i, q). (i, ?f q)) (k_procs k)) = map fst (k_procs k)"
    by (simp add: case_prod_beta o_def)
  have ok: "proc_ok i (?f q) = proc_ok i q" "settled rq i (?f q) = settled rq i q"
    "proc_ok i (q\<lparr>p_ppid := 1\<rparr>) = proc_ok i q" "settled rq i (q\<lparr>p_ppid := 1\<rparr>) = settled rq i q" for i rq and q :: proc
    by (simp_all add: proc_ok_def settled_def)
  have a: "active r (k\<lparr>k_procs := map (\<lambda>(i, q). (i, ?f q)) (k_procs k)\<rparr>)" if r: "A = Some r" for r
  proof -
    obtain q where "map_of (k_procs k) r = Some q" "k_current k = Some r" "p_state q = RUNNING" "p_cpu q \<noteq> None"
      using k r by (auto simp: kinv_def active_def)
    then show ?thesis by (simp add: active_def map_of_adopt)
  qed
  have t: "ptable_ok X (map (\<lambda>(i, q). (i, ?f q)) (k_procs k)) (k_runq k) (k_next_pid k)"
    using k unfolding kinv_def kernel_ok_def ptable_ok_def keys
    by (auto simp: map_of_adopt ok simp del: map_map map_of_eq_Some_iff)
  show ?thesis
    using k a t unfolding kinv_def kernel_ok_def adopt_def modify_def
    by (auto simp: u elim!: balanced_same)
qed

lemma gives_tell_parent:
  "gives (kinv fs X A) (thenE (case parent of None \<Rightarrow> ret () | Some _ \<Rightarrow>
         thenE (post_signal i SIGCHLD)
         (bindE (gp i) (\<lambda>par. case (p_state par, p_channel par) of
            (SLEEPING, Some (ForChild _)) \<Rightarrow> k_wake i False
          | _ \<Rightarrow> ret ())))
       (if i = 0 then modify (\<lambda>k. k\<lparr>k_exit_status := code\<rparr>) else ret ())) (\<lambda>_. True)"
proof -
  have w: "gives (kinv fs X A) (case (s, ch) of (SLEEPING, Some (ForChild _)) \<Rightarrow> k_wake i False | _ \<Rightarrow> ret ()) (\<lambda>_. True)"
    for s ch
    using gives_wake gives_ret [of "\<lambda>_. True" "()"] by (auto split: pstate.split option.split channel.split)
  show ?thesis
    by (intro gives_thenE gives_option gives_if gives_bindE [OF gives_gp] w gives_rules TrueI; simp)
qed

lemma gives_tell:
  "gives (kinv fs X A) (bindE (gp p) (\<lambda>q. bindE (gets (\<lambda>k. map_of (k_procs k) (p_ppid q))) (\<lambda>parent.
       thenE (case parent of None \<Rightarrow> ret () | Some _ \<Rightarrow>
         thenE (post_signal (p_ppid q) SIGCHLD)
         (bindE (gp (p_ppid q)) (\<lambda>par. case (p_state par, p_channel par) of
            (SLEEPING, Some (ForChild _)) \<Rightarrow> k_wake (p_ppid q) False
          | _ \<Rightarrow> ret ())))
       (if p_ppid q = 0 then modify (\<lambda>k. k\<lparr>k_exit_status := code\<rparr>) else ret ())))) (\<lambda>_. True)"
  by (rule gives_bindE [OF gives_gp], rule gives_bindE [OF gives_gets [where R = "\<lambda>_. True"]], simp,
      rule gives_tell_parent)

lemma wp_exit:
  assumes k: "kinv fs (insert p X) A k" and q: "map_of (k_procs k) p = Some q" and A: "A \<noteq> Some p"
    and Q: "\<And>k'. kinv fs X A k' \<Longrightarrow> Q () k'" and E: "\<And>e k'. kinv fs X A k' \<Longrightarrow> E e k'"
  shows "wp (exit_process p code) Q E k"
proof -
  let ?Y = "insert p X"
  define z where "z q = q\<lparr>p_state := ZOMBIE, p_exit_code := code\<rparr>" for q :: proc
  have "kinv fs (insert p ?Y) A (k\<lparr>k_procs := AList.map_entry p z (k_procs k)\<rparr>)"
    by (rule kinv_state [OF k q A]) (simp_all add: z_def)
  then have dead: "kinv fs ?Y A (k\<lparr>k_procs := AList.map_entry p z (k_procs k)\<rparr>)" by simp
  have zq: "map_of (k_procs (k\<lparr>k_procs := AList.map_entry p z (k_procs k)\<rparr>)) p = Some (z q)"
    using q by simp
  have fds: "length (p_fds q) = 20" using kinv_proc [OF k q] by (simp add: proc_ok_def)
  define bare where "bare = (z q)\<lparr>p_fds := foldl (\<lambda>fds i. fds[nat i := None]) (p_fds (z q)) [0..NR_OPEN - 1]\<rparr>"
  have bare: "p_state bare = ZOMBIE" "set (p_fds bare) \<subseteq> {None}"
    using all_cleared [OF fds] by (simp_all add: bare_def z_def)
  show ?thesis
    unfolding exit_process_def wp_thenE wp_up z_def [symmetric]
  proof (rule wp_release_fds [OF dead zq], goal_cases)
    case 1
    show ?case by (auto simp: NR_OPEN_def)
  next
    case (2 k1)
    then have q1: "map_of (k_procs k1) p = Some bare" by (simp add: bare_def)
    let ?k2 = "k1\<lparr>k_procs := AList.map_entry p (\<lambda>q. q\<lparr>p_cpu := map_option (\<lambda>c. c\<lparr>mem := fresh_mem\<rparr>) (p_cpu q)\<rparr>) (k_procs k1)\<rparr>"
    let ?k3 = "snd (adopt p ?k2)"
    have k3: "kinv fs ?Y A ?k3" by (intro kinv_adopt kinv_quiet [OF 2(1) quiet_cpu])
    obtain q3 where q3: "map_of (k_procs ?k3) p = Some q3" "p_state q3 = ZOMBIE" "p_fds q3 = p_fds bare"
      using q1 bare(1) by (simp add: adopt_def modify_def map_of_adopt)
    have "wp (thenE (dequeue p) (bindE (gp p) (\<lambda>q. bindE (gets (\<lambda>k. map_of (k_procs k) (p_ppid q))) (\<lambda>parent.
       thenE (case parent of None \<Rightarrow> ret () | Some _ \<Rightarrow>
         thenE (post_signal (p_ppid q) SIGCHLD)
         (bindE (gp (p_ppid q)) (\<lambda>par. case (p_state par, p_channel par) of
            (SLEEPING, Some (ForChild _)) \<Rightarrow> k_wake (p_ppid q) False
          | _ \<Rightarrow> ret ())))
       (if p_ppid q = 0 then modify (\<lambda>k. k\<lparr>k_exit_status := code\<rparr>) else ret ()))))) Q E ?k3"
      unfolding wp_thenE
    proof (rule wp_dequeue [OF k3 q3(1)], goal_cases)
      case (3 k4)
      show ?case
        by (rule wp_gives [OF gives_tell 3(1)]) (simp_all add: Q E)
    qed (use bare q3 in auto)
    then show ?case by (simp add: wp_thenE wp_up wp_modify adopt_def modify_def)
  qed
qed

section \<open>Delivering signals\<close>

lemma wp_resume:
  assumes k: "kinv fs X None k" and q: "map_of (k_procs k) p = Some q"
    and f: "p_pid (f q) = p_pid q" "p_fds (f q) = p_fds q" "p_cpu (f q) = p_cpu q"
      "p_sigactions (f q) = p_sigactions q" "p_state (f q) = RUNNING"
    and s: "p_state q = SLEEPING"
    and Q: "\<And>k'. kinv fs X None k' \<Longrightarrow> Q () k'"
  shows "wp (thenE (up p f) (enqueue p)) Q E k"
proof -
  have c: "p_cpu q \<noteq> None" using kinv_proc [OF k q] s by (auto simp: proc_ok_def)
  have "kinv fs (insert p X) None (k\<lparr>k_procs := AList.map_entry p f (k_procs k)\<rparr>)"
    by (rule kinv_state [OF k q]) (simp_all add: f)
  then show ?thesis
    unfolding wp_thenE wp_up by (rule wp_enqueue [where q = "f q"]) (use q f c Q in auto)
qed

lemma gives_set_action [gives_rules]: "gives (kinv fs X A) (set_action p sig a) (\<lambda>_. True)"
  unfolding set_action_def by (intro gives_up) (simp add: quiet_def)

lemma gives_build_frame: "gives (kinv fs X None) (build_signal_frame p sig) (\<lambda>_. True)"
proof -
  have wake: "gives (kinv fs X None) (bindE (gp p) (\<lambda>q. thenE (if p_state q = SLEEPING then
              thenE (up p (\<lambda>q. q\<lparr>p_state := RUNNING, p_channel := None\<rparr>)) (enqueue p)
            else ret ()) (m q))) (\<lambda>_. True)"
    if m: "\<And>q. gives (kinv fs X None) (m q) (\<lambda>_. True)" for m :: "proc \<Rightarrow> unit km"
  proof (rule gives_wpI)
    fix k
    assume k: "kinv fs X None k"
    have m': "wp (m q) (\<lambda>_. kinv fs X None) (\<lambda>_. kinv fs X None) t" if "kinv fs X None t" for q t
      using m that by (simp add: gives_wp)
    show "wp (bindE (gp p) (\<lambda>q. thenE (if p_state q = SLEEPING then
              thenE (up p (\<lambda>q. q\<lparr>p_state := RUNNING, p_channel := None\<rparr>)) (enqueue p)
            else ret ()) (m q))) (\<lambda>_. kinv fs X None) (\<lambda>_. kinv fs X None) k"
    proof (cases "map_of (k_procs k) p")
      case None
      with k show ?thesis by (simp add: wp_bindE wp_gp)
    next
      case (Some q)
      have "wp (if p_state q = SLEEPING then
              thenE (up p (\<lambda>q. q\<lparr>p_state := RUNNING, p_channel := None\<rparr>)) (enqueue p)
            else ret ()) (\<lambda>_. wp (m q) (\<lambda>_. kinv fs X None) (\<lambda>_. kinv fs X None)) (\<lambda>_. kinv fs X None) k"
        using k Some m' by (auto simp: wp_ret intro!: wp_resume [OF k Some])
      with Some show ?thesis by (simp add: wp_bindE wp_gp wp_then)
    qed
  qed
  show ?thesis
    unfolding build_signal_frame_def case_prod_beta Let_def
    by (intro wake gives_bindE [OF gives_get_cpu] gives_thenE gives_if gives_rules TrueI;
        simp add: quiet_def)
qed

lemma wp_stop:
  assumes k: "kinv fs X None k" and q: "map_of (k_procs k) p = Some q" and c: "p_cpu q \<noteq> None \<or> s \<noteq> SLEEPING"
    and s: "s \<noteq> RUNNING" "s \<noteq> ZOMBIE"
    and f: "f q = q\<lparr>p_state := s, p_channel := p_channel (f q), p_restart := p_restart (f q)\<rparr>"
    and Q: "\<And>k'. kinv fs X None k' \<Longrightarrow> k_procs k' = AList.map_entry p f (k_procs k) \<Longrightarrow> Q () k'"
  shows "wp (thenE (up p f) (dequeue p)) Q E k"
proof -
  have e: "p_state (f q) = s" "p_fds (f q) = p_fds q" "p_cpu (f q) = p_cpu q" "p_pid (f q) = p_pid q"
    "p_sigactions (f q) = p_sigactions q"
    by (subst f, simp)+
  have "kinv fs (insert p X) None (k\<lparr>k_procs := AList.map_entry p f (k_procs k)\<rparr>)"
    by (rule kinv_state [OF k q]) (use c e in auto)
  then show ?thesis
    unfolding wp_thenE wp_up by (rule wp_dequeue [where q = "f q"]) (use q e s Q in auto)
qed

lemma wp_killed:
  assumes k: "kinv fs X None k" and q: "map_of (k_procs k) p = Some q"
    and Q: "\<And>k'. kinv fs X None k' \<Longrightarrow> Q () k'" and E: "\<And>e k'. kinv fs X None k' \<Longrightarrow> E e k'"
  shows "wp (thenE (if p_state q = SLEEPING then up p (\<lambda>q. q\<lparr>p_state := RUNNING\<rparr>) else ret ())
         (thenE (exit_process p sig)
           (if p_ppid q = 0 then modify (\<lambda>k. k\<lparr>k_exit_status := sig\<rparr>) else ret ()))) Q E k"
proof -
  have die: "wp (thenE (exit_process p sig) (if p_ppid q = 0 then modify (\<lambda>k. k\<lparr>k_exit_status := sig\<rparr>) else ret ())) Q E t"
    if "kinv fs (insert p X) None t" "map_of (k_procs t) p = Some r" for t r
    unfolding wp_thenE using that
    by (rule wp_exit) (auto simp: wp_modify wp_ret intro: Q E)
  have t: "kinv fs (insert p X) None (k\<lparr>k_procs := AList.map_entry p (\<lambda>q. q\<lparr>p_state := RUNNING\<rparr>) (k_procs k)\<rparr>)"
    by (rule kinv_state [OF k q]) simp_all
  show ?thesis
    using die [OF t] die [OF kinv_mono [OF k subset_insertI] q] q by (auto simp: wp_thenE [of "if _ then _ else _"] wp_up wp_ret)
qed

lemma gives_take_signal: "gives (kinv fs X None) (take_signal p sig) (\<lambda>_. True)"
proof (rule gives_wpI)
  fix k
  assume k: "kinv fs X None k"
  show "wp (take_signal p sig) (\<lambda>_. kinv fs X None) (\<lambda>_. kinv fs X None) k"
  proof (cases "map_of (k_procs k) p")
    case None
    with k show ?thesis by (simp add: take_signal_def wp_bindE wp_gp)
  next
    case (Some q)
    have "wp (build_signal_frame p sig) (\<lambda>_. kinv fs X None) (\<lambda>_. kinv fs X None) k"
      using gives_build_frame k by (simp add: gives_wp)
    moreover have "wp (thenE (up p (\<lambda>q. q\<lparr>p_state := STOPPED\<rparr>)) (dequeue p)) (\<lambda>_. kinv fs X None) (\<lambda>_. kinv fs X None) k"
      by (rule wp_stop [OF k Some, where s = STOPPED]) simp_all
    ultimately show ?thesis
      using k Some wp_killed [OF k Some]
      by (simp add: take_signal_def wp_bindE wp_gp wp_ret)
  qed
qed

lemma gives_deliver: "gives (kinv fs X None) (deliver_to p) (\<lambda>_. True)"
  unfolding deliver_to_def Let_def
  by (intro gives_bindE [OF gives_gp] gives_if gives_thenE gives_take_signal gives_rules TrueI; simp add: quiet_def)

lemma gives_each_proc: "(\<And>p. gives (kinv fs X A) (f p) (\<lambda>_. True)) \<Longrightarrow> gives (kinv fs X A) (each_proc f) (\<lambda>_. True)"
  unfolding each_proc_def by (intro gives_bindE [OF gives_gets [where R = "\<lambda>_. True"]] gives_for_each TrueI)

lemma gives_deliver_pending: "gives (kinv fs X None) deliver_pending (\<lambda>_. True)"
  unfolding deliver_pending_def
  by (intro gives_bindE [OF gives_gets [where R = "\<lambda>_. True"]] gives_for_each gives_deliver TrueI)

lemma gives_sigreturn: "gives (kinv fs X A) (sigreturn p) (\<lambda>_. True)"
proof -
  note on_cpu = gives_bindE [OF gives_on_cpu]
  show ?thesis
    unfolding sigreturn_def
    by (intro on_cpu gives_bindE [OF gives_gp] gives_thenE gives_if gives_rules TrueI; simp add: quiet_def)
qed

end
