(* ===== verification/Kernel_Boot.thy ===== *)
theory Kernel_Boot
  imports Kernel_Exit
begin

text \<open>
  Starting the first program, the built-in init and the shells it spawns: each leaves a new
  process that is settled, or not yet in the run queue and otherwise in order.
\<close>

section \<open>The standard descriptors\<close>

lemma wp_put_fd:
  assumes k: "kbal fs X A U k" and q: "map_of (k_procs k) p = Some q" and z: "p \<in> X \<or> p_state q \<noteq> ZOMBIE"
    and fd: "nat fd < 20" and free: "p_fds q ! nat fd = None"
    and Q: "kbal fs X A U (put_fd p fd (Some i) k) \<Longrightarrow>
      map_of (k_procs (put_fd p fd (Some i) k)) p = Some (q\<lparr>p_fds := (p_fds q)[nat fd := Some i]\<rparr>) \<Longrightarrow>
      uses (k_procs (put_fd p fd (Some i) k)) = (uses (k_procs k))(i := uses (k_procs k) i + 1) \<Longrightarrow>
      Q () (put_fd p fd (Some i) k)"
  shows "wp (set_fd p fd (Some i)) Q E k"
  unfolding wp_set_fd
proof (rule Q)
  show "kbal fs X A U (put_fd p fd (Some i) k)" using kbal_put_fd [OF k q] z by blast
  show "uses (k_procs (put_fd p fd (Some i) k)) = (uses (k_procs k))(i := uses (k_procs k) i + 1)"
    using free by (intro ext) (simp add: uses_put_fd [OF k q fd])
qed (use q in simp)

lemma wp_std_fds:
  assumes k: "kinv fs X A k" and q: "map_of (k_procs k) p = Some q" and free: "set (p_fds q) \<subseteq> {None}"
    and z: "p_state q \<noteq> ZOMBIE"
    and Q: "\<And>k' ds. kinv fs X A k' \<Longrightarrow> map_of (k_procs k') p = Some (q\<lparr>p_fds := ds\<rparr>) \<Longrightarrow> Q () k'"
  shows "wp (setup_std_fds p) Q E k"
proof (cases "k_tty k")
  case None
  then show ?thesis using Q [OF k, of "p_fds q"] q by (simp add: setup_std_fds_def wp_bindE wp_gets wp_ret)
next
  case (Some t)
  have len: "length (p_fds q) = 20" using kinv_proc [OF k q] by (simp add: proc_ok_def)
  have slot: "p_fds q ! n = None" if "n < 20" for n using free len that by (metis nth_mem singletonD subsetD)
  have kb: "kbal fs X A (uses (k_procs k)) k" using k by (simp add: kinv_kbal)
  have "wp (bindE (new_file (OpenFile OTerminal 0)) (\<lambda>i.
       bindE (new_file ((OpenFile OTerminal 1)\<lparr>f_refs := 2\<rparr>)) (\<lambda>o'.
       thenE (set_fd p 0 (Some i)) (thenE (set_fd p 1 (Some o')) (set_fd p 2 (Some o')))))) Q E k"
    unfolding wp_bindE
  proof (rule kbal_new_file [OF kb], goal_cases)
    case (3 i k1)
    show ?case
    proof (rule kbal_new_file [OF 3(2)], goal_cases)
      case (3 j k2)
      note U = 3(1) \<open>uses (k_procs k) i = 0\<close>
      have q2: "map_of (k_procs k2) p = Some q" and same: "k_procs k2 = k_procs k"
        using 3 \<open>k_procs k1 = k_procs k\<close> q by simp_all
      show ?case
        unfolding wp_thenE
      proof (rule wp_put_fd [OF 3(2) q2], goal_cases)
        case 4
        note k3 = 4
        show ?case
        proof (rule wp_put_fd [OF k3(1,2)], goal_cases)
          case 4
          note k4 = 4
          show ?case
          proof (rule wp_put_fd [OF k4(1,2)], goal_cases)
            case 4
            have "uses (k_procs (put_fd p 2 (Some j) (put_fd p 1 (Some j) (put_fd p 0 (Some i) k2)))) =
                (uses (k_procs k))(i := 1, j := 2)"
              using U by (intro ext) (auto simp: 4(3) k4(3) k3(3) same OpenFile_def split: if_splits)
            with 4(1) have "kinv fs X A (put_fd p 2 (Some j) (put_fd p 1 (Some j) (put_fd p 0 (Some i) k2)))"
              by (simp add: kinv_kbal OpenFile_def)
            from Q [OF this] 4(2) show ?case by simp
          qed (use z slot len in auto)
        qed (use z slot len in auto)
      qed (use z slot in auto)
    qed (simp_all add: OpenFile_def)
  qed (simp_all add: OpenFile_def)
  with Some show ?thesis by (simp add: setup_std_fds_def wp_bindE wp_gets)
qed

section \<open>Loading the first program\<close>

text \<open>A process that has its program and no descriptors yet.\<close>

definition has_program :: "int \<Rightarrow> kernel \<Rightarrow> bool" where
  "has_program p k \<longleftrightarrow> (\<exists>q. map_of (k_procs k) p = Some q \<and> p_state q = RUNNING \<and> p_cpu q \<noteq> None \<and>
     set (p_fds q) \<subseteq> {None})"

lemma kept_exec_image: "kept k_procs (exec_image path argv envp cwd root)"
  unfolding exec_image_def
  by (intro kept_rules) (simp add: kept_def raise_def ret_def split: sum.split prod.split)

lemma wp_start_cpu:
  assumes k: "kinv fs X None k" and q: "map_of (k_procs k) p = Some q" and s: "p_state q = RUNNING"
    "set (p_fds q) \<subseteq> {None}"
    and Q: "\<And>k'. kinv fs (insert p X) None k' \<Longrightarrow> has_program p k' \<Longrightarrow> Q () k'"
  shows "wp (start_cpu p im) Q E k"
proof -
  have k': "kinv fs (insert p X) None k" by (rule kinv_mono [OF k subset_insertI])
  have "kinv fs (insert p X) None (k\<lparr>k_procs := AList.map_entry p (\<lambda>q. q\<lparr>p_prof := prof_of q, p_cpu := Some c\<rparr>) (k_procs k)\<rparr>)" for c
    using kinv_proc [OF k q] by (intro kinv_map_entry [OF k' q]) (simp_all add: proc_ok_def)
  then show ?thesis
    using q s by (cases im) (auto simp: start_cpu_def make_cpu_def install_cpu_def wp_bindE wp_gp wp_gets wp_ret wp_up
        has_program_def intro!: Q)
qed

lemma wp_load:
  assumes k: "kinv fs X None k" and q: "map_of (k_procs k) p = Some q" and s: "p_state q = RUNNING"
    "set (p_fds q) \<subseteq> {None}"
    and Q: "\<And>k'. kinv fs (insert p X) None k' \<Longrightarrow> has_program p k' \<Longrightarrow> wp m Q E k'"
    and E: "\<And>e k'. kinv fs X None k' \<Longrightarrow> E e k'"
  shows "wp (bindE (exec_image path argv envp cwd root) (\<lambda>im. thenE (start_cpu p im) m)) Q E k"
  unfolding wp_bindE wp_thenE
proof (rule wp_gives [where I = "\<lambda>t. kinv fs X None t \<and> map_of (k_procs t) p = Some q" and R = "\<lambda>_. True"])
  show "gives (\<lambda>t. kinv fs X None t \<and> map_of (k_procs t) p = Some q) (exec_image path argv envp cwd root) (\<lambda>_. True)"
    by (intro gives_conj gives_exec_image kept_gives [OF kept_exec_image, where I = "\<lambda>ps. map_of ps p = Some q"])
qed (use k q s Q E in \<open>auto intro: wp_start_cpu\<close>)

lemma wp_name:
  assumes k: "kinv fs Y None k" "has_program p k" and f: "quiet f"
    and Q: "\<And>k'. kinv fs Y None k' \<Longrightarrow> has_program p k' \<Longrightarrow> Q () k'"
  shows "wp (up p f) Q E k"
proof -
  have "has_program p (k\<lparr>k_procs := AList.map_entry p f (k_procs k)\<rparr>)"
    using k(2) f by (auto simp: has_program_def quiet_def simp del: not_None_eq)
  then show ?thesis unfolding wp_up using k(1) f by (intro Q kinv_quiet)
qed

lemma wp_std_loaded:
  assumes k: "kinv fs Y None k" "has_program p k"
    and Q: "\<And>k' q. kinv fs Y None k' \<Longrightarrow> map_of (k_procs k') p = Some q \<Longrightarrow> p_state q = RUNNING \<Longrightarrow>
      p_cpu q \<noteq> None \<Longrightarrow> Q () k'"
  shows "wp (setup_std_fds p) Q E k"
proof -
  obtain q where "map_of (k_procs k) p = Some q" "p_state q = RUNNING" "p_cpu q \<noteq> None" "set (p_fds q) \<subseteq> {None}"
    using k(2) by (auto simp: has_program_def)
  then show ?thesis by (intro wp_std_fds [OF k(1), of p q]) (auto intro: Q)
qed

lemma Process_plain: "p_state (Process p) = RUNNING" "set (p_fds (Process p)) \<subseteq> {None}" "p_cpu (Process p) = None"
  by (auto simp: Process_def)

text \<open>\<open>boot\<close> leaves its process out of the run queue; \<open>run\<close> puts it in.\<close>

lemma wp_boot:
  assumes k: "kinv fs X None k"
    and Q: "\<And>p k' q. kinv fs (insert p X) None k' \<Longrightarrow> k_current k' = Some p \<Longrightarrow>
      map_of (k_procs k') p = Some q \<Longrightarrow> p_state q = RUNNING \<Longrightarrow> p_cpu q \<noteq> None \<Longrightarrow> Q p k'"
    and E: "\<And>e k'. kinv fs X None k' \<Longrightarrow> E e k'"
  shows "wp (boot path argv envp) Q E k"
  unfolding boot_def Let_def wp_bindE [of new_process]
proof (rule wp_new_process [OF k], goal_cases)
  case (1 k1 p)
  show ?case
    unfolding wp_bindE [of "gp p"] wp_gp 1(3) option.case
  proof (rule wp_load [OF 1(1,3)], goal_cases)
    case (3 k2)
    show ?case
      unfolding wp_thenE
      by (rule wp_name [OF 3], simp add: quiet_def, rule wp_std_loaded, assumption+)
        (auto simp: wp_modify wp_ret kinv_def kernel_ok_def balanced_def intro!: Q)
  qed (use Process_plain E in auto)
qed

lemma kinv_current: "kinv fs X None (k\<lparr>k_current := c\<rparr>) = kinv fs X None k"
  by (simp add: kinv_def kernel_ok_def balanced_def)

text \<open>The built-in init is a process without a CPU; it need not be in the run queue.\<close>

lemma wp_boot_init:
  assumes k: "kinv fs X None k"
    and Q: "\<And>p k' q. kinv fs X None k' \<Longrightarrow> k_current k' = Some p \<Longrightarrow>
      map_of (k_procs k') p = Some q \<Longrightarrow> p_kernel_task q \<Longrightarrow> Q p k'"
  shows "wp boot_init Q E k"
  unfolding boot_init_def wp_bindE
proof (rule wp_new_process [OF k], goal_cases)
  case (1 k1 p)
  let ?q = "(Process p)\<lparr>p_cwd := Some ROOT, p_root := Some ROOT\<rparr>"
  let ?f = "\<lambda>q. q\<lparr>p_name := ''init'', p_kernel_task := True\<rparr>"
  have "proc_ok p ?q" using kinv_proc [OF 1(1,3)] .
  then have k2: "kinv fs X None (k1\<lparr>k_procs := AList.map_entry p ?f (k_procs k1)\<rparr>)"
    by (intro kinv_map_entry [OF 1(1,3)]) (auto simp: proc_ok_def settled_def Process_plain)
  show ?case
    unfolding wp_thenE wp_up wp_modify
    by (rule wp_std_fds [where q = "?f ?q" and X = X and A = None and fs = fs])
      (use 1(3) k2 Process_plain [of p] in \<open>auto simp: wp_ret kinv_current intro!: Q\<close>)
qed

section \<open>Spawning\<close>

lemma wp_shell_up:
  assumes k: "kinv fs (insert p X) None k" and q: "map_of (k_procs k) p = Some q" "p_state q = RUNNING" "p_cpu q \<noteq> None"
    and Q: "\<And>k'. kinv fs X None k' \<Longrightarrow> Q p k'"
  shows "wp (thenE (bindE (gp p) (\<lambda>q. modify (\<lambda>k.
          if ns then k\<lparr>k_tty := map_option (\<lambda>t. t\<lparr>tt_session := p_session q, tt_pgrp := p_pgrp q\<rparr>) (k_tty k)\<rparr>
          else k))) (thenE (enqueue p) (ret p))) Q E k"
proof -
  let ?k = "if ns then k\<lparr>k_tty := map_option (\<lambda>t. t\<lparr>tt_session := p_session q, tt_pgrp := p_pgrp q\<rparr>) (k_tty k)\<rparr> else k"
  have "kinv fs (insert p X) None ?k"
    using k by (auto intro!: kinv_tty [OF k]) (simp add: kinv_def kernel_ok_def tty_ok_def)
  then have "wp (thenE (enqueue p) (ret p)) Q E ?k"
    unfolding wp_thenE using q by (elim wp_enqueue) (auto simp: wp_ret Q)
  with q show ?thesis by (simp add: wp_thenE [of "bindE _ _"] wp_bindE wp_gp wp_modify)
qed

text \<open>\<open>/etc/rc\<close> as the standard input of the first shell. Nothing is claimed when it is missing.\<close>

lemma wp_fs:
  assumes k: "kbal fs X A U k" and m: "gives (ov_inv fs) m R"
    and Q: "\<And>x k'. kbal fs X A U k' \<Longrightarrow> k_procs k' = k_procs k \<Longrightarrow> Q x k'" and E: "\<And>e k'. E e k'"
  shows "wp (in_fs m) Q E k"
proof -
  obtain r v where v: "m (k_fs k) = (r, v)" by fastforce
  have "ov_inv fs (k_fs k)" using k by (simp add: kbal_def)
  with m v have "ov_inv fs v" by (auto simp: gives_def)
  with k have "kbal fs X A U (k\<lparr>k_fs := v\<rparr>)" by (simp add: kbal_def balanced_def active_def)
  with v Q E show ?thesis by (cases r) (simp_all add: wp_def in_fs_def)
qed

lemma wp_redirect:
  assumes k: "kinv fs X A k" and q: "map_of (k_procs k) p = Some q" and z: "p_state q \<noteq> ZOMBIE"
    and Q: "\<And>k' ds. kinv fs X A k' \<Longrightarrow> map_of (k_procs k') p = Some (q\<lparr>p_fds := ds\<rparr>) \<Longrightarrow> Q () k'"
    and E: "\<And>e k'. E e k'"
  shows "wp (redirect_stdin p path) Q E k"
proof -
  let ?U = "\<lambda>i. uses (k_procs k) i - (if p_fds q ! 0 = Some i then 1 else 0)"
  have kb: "kbal fs X A (uses (k_procs k)) k" using k by (simp add: kinv_kbal)
  have open': "wp (bindE (in_fs (walk path (p_cwd q) (p_root q))) (\<lambda>i.
     thenE (in_fs (upd i (\<lambda>v. v\<lparr>v_open_refs := v_open_refs v + 1\<rparr>)))
     (bindE (new_file (OpenFile (ONode i) 0)) (\<lambda>f. set_fd p 0 (Some f))))) Q E k0"
    if k0: "kbal fs X A ?U k0" "k_procs k0 = k_procs k" for k0
    unfolding wp_bindE wp_thenE
  proof (rule wp_fs [OF k0(1) gives_walk], goal_cases)
    case (1 i k1)
    show ?case
    proof (rule wp_fs [OF 1(1) gives_upd], goal_cases)
      case (3 _ k2)
      show ?case
      proof (rule kbal_new_file [OF 3(1)], goal_cases)
        case (3 f k3)
        have q3: "map_of (k_procs k3) p = Some q" and same: "k_procs k3 = k_procs k"
          using 3 \<open>k_procs k2 = k_procs k1\<close> 1 k0 q by simp_all
        have "uses (k_procs (put_fd p 0 (Some f) k3)) = ?U(f := 1)"
          using 3(1) by (intro ext) (auto simp: uses_put_fd [OF 3(2) q3] same)
        moreover have "kbal fs X A (?U(f := 1)) (put_fd p 0 (Some f) k3)"
          using kbal_put_fd [OF 3(2) q3] z by (simp add: OpenFile_def)
        ultimately have "kinv fs X A (put_fd p 0 (Some f) k3)" by (simp add: kinv_kbal)
        then show ?case using Q q3 by (simp add: wp_set_fd)
      qed (simp_all add: OpenFile_def)
    qed (use E in \<open>simp_all add: vnode_ok_def\<close>)
  qed (use E in simp_all)
  show ?thesis
  proof (cases "p_fds q ! 0")
    case None
    with open' [of k] kb q show ?thesis by (simp add: redirect_stdin_def wp_bindE wp_gp wp_thenE wp_ret)
  next
    case (Some f)
    have "1 \<le> uses (k_procs k) f" using slot_used [OF kb q, of 0] Some by simp
    moreover have "(uses (k_procs k))(f := uses (k_procs k) f - 1) = ?U" using Some by auto
    ultimately have "wp (release_file f) (\<lambda>_. wp (bindE (in_fs (walk path (p_cwd q) (p_root q))) (\<lambda>i.
     thenE (in_fs (upd i (\<lambda>v. v\<lparr>v_open_refs := v_open_refs v + 1\<rparr>)))
     (bindE (new_file (OpenFile (ONode i) 0)) (\<lambda>f. set_fd p 0 (Some f))))) Q E) E k"
      using open' by (intro kbal_release [OF kb]) auto
    with Some q show ?thesis by (simp add: redirect_stdin_def wp_bindE [of "gp p"] wp_gp wp_thenE [of "release_file f"])
  qed
qed

text \<open>
  A spawned program is in the run queue. A failure to redirect it is the one error after its
  CPU has been set up.
\<close>

lemma wp_spawn:
  assumes k: "kinv fs X None k"
    and Q: "\<And>p k'. kinv fs X None k' \<Longrightarrow> Q p k'" and E: "\<And>e k'. kinv fs X None k' \<Longrightarrow> E e k'"
    and F: "\<And>e k'. inp \<noteq> None \<Longrightarrow> E e k'"
  shows "wp (spawn path argv envp inp ns) Q E k"
  unfolding spawn_def wp_bindE [of new_process]
proof (rule wp_new_process [OF k], goal_cases)
  case (1 k1 p)
  show ?case
  proof (cases "k_init_proc k1")
    case None
    then show ?thesis using 1(1) E by (simp add: wp_bindE wp_gets wp_raise)
  next
    case (Some i)
    let ?q = "((Process p)\<lparr>p_cwd := Some ROOT, p_root := Some ROOT\<rparr>)\<lparr>p_ppid := i, p_name := path\<rparr>"
    let ?k = "k1\<lparr>k_procs := AList.map_entry p (\<lambda>q. q\<lparr>p_ppid := i, p_name := path\<rparr>) (k_procs k1)\<rparr>"
    have k2: "kinv fs X None ?k" by (rule kinv_quiet [OF 1(1)]) (simp add: quiet_def)
    have q2: "map_of (k_procs ?k) p = Some ?q" using 1(3) by simp
    have start: "wp (thenE (if ns then up p (\<lambda>q. q\<lparr>p_leader := True, p_session := p_pid q, p_pgrp := p_pid q\<rparr>) else ret ()) m) Q E t"
      if t: "kinv fs (insert p X) None t" "has_program p t"
        and m: "\<And>t. kinv fs (insert p X) None t \<Longrightarrow> has_program p t \<Longrightarrow> wp m Q E t" for t and m :: "int km"
      unfolding wp_thenE using t m by (auto simp: wp_ret quiet_def intro!: wp_name [OF t])
    show ?thesis
      unfolding wp_bindE [of "gets _"] wp_gets Some option.case wp_thenE [of "up _ _"] wp_up
        wp_bindE [of "gp p"] wp_gp q2 option.case
    proof (rule wp_load [OF k2 q2], goal_cases)
      case (3 k3)
      then show ?case
        by (rule start) (cases "inp"; auto simp: wp_thenE [of "setup_std_fds p"] wp_thenE [of "ret ()"]
            wp_thenE [of "redirect_stdin p _"] wp_ret
            intro!: wp_std_loaded wp_redirect [where fs = fs and X = "insert p X" and A = None] wp_shell_up Q F)
    qed (use Process_plain E in auto)
  qed
qed

end
