(* ===== verification/Kvfs_Changes.thy ===== *)
theory Kvfs_Changes
  imports Tiny_Overlay
begin

text \<open>
  \<open>OverlayFS.changed_paths\<close> of \<open>src/kvfs.py\<close>: the report of what the overlay changed, which
  walks the directory tree from the root to find the paths of the changed inodes. A stack of
  the source is a list whose head is its top.
\<close>

section \<open>The walk\<close>

record trail =
  tr_found :: "(int \<times> string) list"
  tr_dirs :: "(int \<times> string) list"
  tr_seen :: "int list"
  tr_stack :: "(string \<times> int) list"

definition mark_found :: "(int \<times> change) list \<Rightarrow> int \<Rightarrow> string \<Rightarrow> trail \<Rightarrow> trail" where
  "mark_found ch ino path t =
     (if map_of ch ino \<noteq> None \<and> map_of (tr_found t) ino = None
      then t\<lparr>tr_found := (ino, path) # tr_found t\<rparr> else t)"

text \<open>A directory that is met for the first time is pushed; \<open>except FsError: continue\<close>.\<close>

definition enter_child :: "int \<Rightarrow> string \<Rightarrow> trail \<Rightarrow> (overlay, trail) sm" where
  "enter_child ino path t s =
     (if ino \<in> set (tr_seen t) then (Inr t, s)
      else case get ino s of
        (Inl (FsError _), s') \<Rightarrow> (Inr t, s')
      | (Inl e, s') \<Rightarrow> (Inl e, s')
      | (Inr i, s') \<Rightarrow>
          bindE (vn i) (\<lambda>v. ret (if v_is_dir v
            then t\<lparr>tr_seen := ino # tr_seen t, tr_dirs := (ino, path) # tr_dirs t,
                   tr_stack := (path, i) # tr_stack t\<rparr>
            else t)) s')"

fun tree_entries :: "(int \<times> change) list \<Rightarrow> string \<Rightarrow> (int \<times> string) list \<Rightarrow> trail \<Rightarrow> (overlay, trail) sm" where
  "tree_entries ch prefix [] t = ret t"
| "tree_entries ch prefix ((ino, name) # es) t =
     (if name = ''.'' \<or> name = ''..'' then tree_entries ch prefix es t
      else let path = prefix @ ''/'' @ name in
        bindE (enter_child ino path (mark_found ch ino path t)) (tree_entries ch prefix es))"

definition skips :: "exn \<Rightarrow> bool" where
  "skips e \<longleftrightarrow> (case e of FsError _ \<Rightarrow> True | MinixError \<Rightarrow> True | _ \<Rightarrow> False)"

text \<open>Every number that can be a directory: those in the table and those of the image.\<close>

definition numbers :: "overlay \<Rightarrow> int set" where
  "numbers s = {1..ninodes (sb (base_fs s))} \<union> dom (map_of (vnodes s))"

definition unseen :: "trail \<Rightarrow> overlay \<Rightarrow> nat" where
  "unseen t s = card (numbers s - set (tr_seen t)) + length (tr_stack t)"

lemma finite_numbers [simp]: "finite (numbers s)"
  by (simp add: numbers_def finite_dom_map_of)

lemma get_numbers: "get i s = (r, s') \<Longrightarrow> numbers s' = numbers s \<and> (r = Inr j \<longrightarrow> j = i \<and> i \<in> numbers s)"
  by (auto simp: get_def thenE_def bindE_def ret_def add_vnode_def modify_def numbers_def AList.update_conv'
      simp del: map_of_eq_None_iff split: option.splits if_splits sum.splits)

lemma enter_child_unseen:
  assumes "enter_child ino path t s = (Inr t', s')"
  shows "numbers s' = numbers s \<and> unseen t' s' = unseen t s"
proof (cases "ino \<in> set (tr_seen t)")
  case True
  with assms show ?thesis by (simp add: enter_child_def)
next
  case False
  obtain r s1 where g: "get ino s = (r, s1)" by fastforce
  note n = get_numbers [OF g]
  show ?thesis
  proof (cases r)
    case (Inl e)
    with g assms False n show ?thesis by (cases e) (auto simp: enter_child_def unseen_def)
  next
    case (Inr j)
    with n have j: "j = ino" "ino \<in> numbers s" by auto
    have "card (numbers s - set (tr_seen t)) = Suc (card (numbers s - set (tr_seen t) - {ino}))"
      using j(2) False by (intro card.remove) auto
    then have less: "card (numbers s - set (tr_seen t)) = Suc (card (numbers s - insert ino (set (tr_seen t))))"
      by (simp only: Diff_insert [symmetric])
    have "bindE (vn j) (\<lambda>v. ret (if v_is_dir v then t\<lparr>tr_seen := ino # tr_seen t, tr_dirs := (ino, path) # tr_dirs t,
        tr_stack := (path, j) # tr_stack t\<rparr> else t)) s1 = (Inr t', s')"
      using g assms False Inr by (simp add: enter_child_def)
    then have "s' = s1" "t' = t \<or> t' = t\<lparr>tr_seen := ino # tr_seen t, tr_dirs := (ino, path) # tr_dirs t,
        tr_stack := (path, j) # tr_stack t\<rparr>"
      by (auto simp: bindE_def vn_def ret_def split: option.splits if_splits)
    with n less show ?thesis by (auto simp: unseen_def)
  qed
qed

lemma tree_entries_unseen:
  "tree_entries ch prefix es t s = (Inr t', s') \<Longrightarrow> numbers s' = numbers s \<and> unseen t' s' = unseen t s"
proof (induction ch prefix es t arbitrary: s rule: tree_entries.induct)
  case (1 ch prefix t)
  then show ?case by (simp add: ret_def)
next
  case (2 ch prefix ino name es t)
  show ?case
  proof (cases "name = ''.'' \<or> name = ''..''")
    case True
    with 2 show ?thesis by (metis tree_entries.simps(2))
  next
    case False
    let ?path = "prefix @ ''/'' @ name"
    obtain t1 s1 where c: "enter_child ino ?path (mark_found ch ino ?path t) s = (Inr t1, s1)"
      and r: "tree_entries ch prefix es t1 s1 = (Inr t', s')"
      using 2(3) False by (auto simp: Let_def bindE_def split: prod.splits sum.splits)
    have "unseen (mark_found ch ino ?path t) s = unseen t s" by (simp add: unseen_def mark_found_def)
    with enter_child_unseen [OF c] 2(2) [OF False refl r] show ?thesis by simp
  qed
qed

lemma list_dir_state: "list_dir d s = (r, s') \<Longrightarrow> s' = s"
  by (auto simp: list_dir_def bindE_def vn_def raise_def ret_def base_dir_def base_def gets_def liftR_def
      split: option.splits if_splits sum.splits)

function walk_tree :: "(int \<times> change) list \<Rightarrow> trail \<Rightarrow> (overlay, trail) sm" where
  "walk_tree ch t s = (case tr_stack t of
     [] \<Rightarrow> (Inr t, s)
   | (prefix, d) # rest \<Rightarrow>
       (case list_dir d s of
          (Inl e, s') \<Rightarrow> if skips e then walk_tree ch (t\<lparr>tr_stack := rest\<rparr>) s' else (Inl e, s')
        | (Inr es, s') \<Rightarrow>
            (case tree_entries ch prefix es (t\<lparr>tr_stack := rest\<rparr>) s' of
               (Inl e, s'') \<Rightarrow> (Inl e, s'')
             | (Inr t', s'') \<Rightarrow> walk_tree ch t' s'')))"
  by pat_completeness auto

termination
  by (relation "measure (\<lambda>(ch, t, s). unseen t s)")
    (auto simp: unseen_def dest!: list_dir_state [OF sym] tree_entries_unseen [OF sym])

declare walk_tree.simps [simp del]

section \<open>The rows\<close>

text \<open>\<open>str\<close> of an integer.\<close>

fun digits10 :: "nat \<Rightarrow> string" where
  "digits10 n = (if n < 10 then [] else digits10 (n div 10)) @ [''0123456789'' ! (n mod 10)]"

declare digits10.simps [simp del]

definition decimal :: "int \<Rightarrow> string" where
  "decimal n = (if n < 0 then ''-'' else []) @ digits10 (nat \<bar>n\<bar>)"

definition lost_path :: "trail \<Rightarrow> overlay \<Rightarrow> int \<Rightarrow> string" where
  "lost_path t s ino = (case map_of (names s) ino of
     None \<Rightarrow> ''<inode '' @ decimal ino @ ''>''
   | Some (parent, name) \<Rightarrow> (case map_of (tr_dirs t) parent of
       Some dir \<Rightarrow> dir @ ''/'' @ name | None \<Rightarrow> name))"

definition changed_row :: "trail \<Rightarrow> int \<times> change \<Rightarrow> (overlay, string \<times> change \<times> int \<times> int) sm" where
  "changed_row t c = (case c of (ino, kind) \<Rightarrow>
     bindE (gets (\<lambda>s. case map_of (tr_found t) ino of Some p \<Rightarrow> p | None \<Rightarrow> lost_path t s ino)) (\<lambda>path.
     bindE (vn ino) (\<lambda>v. ret (path, kind, ino, vsize v))))"

fun changed_rows :: "trail \<Rightarrow> (int \<times> change) list \<Rightarrow> (overlay, (string \<times> change \<times> int \<times> int) list) sm" where
  "changed_rows t [] = ret []"
| "changed_rows t (c # cs) = bindE (changed_row t c) (\<lambda>r. bindE (changed_rows t cs) (\<lambda>rs. ret (r # rs)))"

definition changed_paths :: "(overlay, (string \<times> change \<times> int \<times> int) list) sm" where
  "changed_paths =
     bindE (gets changed_inodes) (\<lambda>ch.
     if ch = [] then ret []
     else
       bindE (walk_tree ch \<lparr>tr_found = [(ROOT, ''/'')], tr_dirs = [(ROOT, [])], tr_seen = [ROOT],
                tr_stack = [([], ROOT)]\<rparr>) (\<lambda>t. changed_rows t (sort_key fst ch)))"

section \<open>The report is true\<close>

text \<open>A list of names that leads from a directory to an inode in the logical file system.\<close>

fun leads :: "(int \<rightharpoonup> anode) \<Rightarrow> int \<Rightarrow> string list \<Rightarrow> int \<Rightarrow> bool" where
  "leads A d [] i \<longleftrightarrow> d = i"
| "leads A d (n # ns) i \<longleftrightarrow> (\<exists>a m e. A d = Some a \<and> a_dir a = Inr m \<and> m n = Some e \<and> leads A e ns i)"

definition names_path :: "string list \<Rightarrow> string" where
  "names_path ns = concat (map (\<lambda>n. ''/'' @ n) ns)"

definition path_to :: "(int \<rightharpoonup> anode) \<Rightarrow> string \<Rightarrow> int \<Rightarrow> bool" where
  "path_to A p i \<longleftrightarrow> (\<exists>ns. p = names_path ns \<and> ''.'' \<notin> set ns \<and> ''..'' \<notin> set ns \<and> leads A ROOT ns i)"

lemma leads_snoc:
  "leads A d (ns @ [n]) i \<longleftrightarrow> (\<exists>e a m. leads A d ns e \<and> A e = Some a \<and> a_dir a = Inr m \<and> m n = Some i)"
  by (induction ns arbitrary: d) (simp_all, blast)

lemma path_to_snoc:
  assumes "path_to A p d" and "A d = Some a" "a_dir a = Inr m" "m n = Some i" and "n \<noteq> ''.''" "n \<noteq> ''..''"
  shows "path_to A (p @ ''/'' @ n) i"
proof -
  obtain ns where "p = names_path ns" "''.'' \<notin> set ns" "''..'' \<notin> set ns" "leads A ROOT ns d"
    using assms(1) by (auto simp: path_to_def)
  then show ?thesis
    unfolding path_to_def using assms(2-)
    by (intro exI [of _ "ns @ [n]"]) (auto simp: names_path_def leads_snoc)
qed

definition trail_ok :: "(int \<rightharpoonup> anode) \<Rightarrow> trail \<Rightarrow> bool" where
  "trail_ok A t \<longleftrightarrow> (\<forall>(i, p) \<in> set (tr_found t). (i = ROOT \<and> p = ''/'') \<or> path_to A p i) \<and>
     (\<forall>(p, i) \<in> set (tr_stack t). path_to A p i)"

lemma first_named_distinct: "distinct (map snd es) \<Longrightarrow> (i, n) \<in> set es \<Longrightarrow> first_named n es = Some i"
  by (induction n es rule: first_named.induct) (auto, force)

lemma sim_list_dir:
  assumes "unique_names fs"
  shows "gives (sim fs s) (list_dir d) (\<lambda>es. \<exists>a m. abs_fs s d = Some a \<and> a_dir a = Inr m \<and>
    (\<forall>i n. (i, n) \<in> set es \<longleftrightarrow> m n = Some i))"
  unfolding list_dir_def
proof (rule gives_bindE [OF sim_vn], intro gives_if gives_raise)
  fix v
  assume v: "vnode_ok fs d v \<and> abs_fs s d = Some (anode_of fs v)" and dir: "\<not> \<not> v_is_dir v"
  show "gives (sim fs s) (case v_entries v of None \<Rightarrow> base_dir (v_base v)
      | Some es \<Rightarrow> ret (map (\<lambda>(name, ino). (ino, name)) es))
    (\<lambda>es. \<exists>a m. abs_fs s d = Some a \<and> a_dir a = Inr m \<and> (\<forall>i n. (i, n) \<in> set es \<longleftrightarrow> m n = Some i))"
  proof (intro gives_option)
    assume none: "v_entries v = None"
    show "gives (sim fs s) (base_dir (v_base v))
        (\<lambda>es. \<exists>a m. abs_fs s d = Some a \<and> a_dir a = Inr m \<and> (\<forall>i n. (i, n) \<in> set es \<longleftrightarrow> m n = Some i))"
    proof (rule gives_weaken [OF sim_base_dir])
      fix es
      assume "\<exists>b. v_base v = Some b \<and> read_dir fs b = Inr es"
      then obtain b where b: "v_base v = Some b" "read_dir fs b = Inr es" by blast
      have "get_inode fs d = Inr b" using v b(1) by (simp add: vnode_ok_def)
      with b(2) assms have "distinct (map snd es)" unfolding unique_names_def by blast
      then have "\<forall>i n. (i, n) \<in> set es \<longleftrightarrow> first_named n es = Some i"
        using first_named_distinct first_named_Some by metis
      with v dir none b show "\<exists>a m. abs_fs s d = Some a \<and> a_dir a = Inr m \<and> (\<forall>i n. (i, n) \<in> set es \<longleftrightarrow> m n = Some i)"
        by (auto simp: anode_dir)
    qed
  next
    fix es
    assume some: "v_entries v = Some es"
    then have "distinct (map fst es)" using v by (simp add: vnode_ok_def)
    with some v dir show "gives (sim fs s) (ret (map (\<lambda>(name, ino). (ino, name)) es))
        (\<lambda>es. \<exists>a m. abs_fs s d = Some a \<and> a_dir a = Inr m \<and> (\<forall>i n. (i, n) \<in> set es \<longleftrightarrow> m n = Some i))"
      by (intro gives_ret) (auto simp: anode_dir map_of_eq_Some_iff)
  qed
qed

lemma sim_enter_child:
  assumes "trail_ok A t" and "path_to A path ino"
  shows "gives (sim fs s) (enter_child ino path t) (trail_ok A)"
  unfolding gives_def
proof (intro allI impI)
  fix u
  assume u: "sim fs s u"
  have vn: "gives (sim fs s) (bindE (vn i) (\<lambda>v. ret (if v_is_dir v
      then t\<lparr>tr_seen := ino # tr_seen t, tr_dirs := (ino, path) # tr_dirs t, tr_stack := (path, ino) # tr_stack t\<rparr>
      else t))) (trail_ok A)" for i
    using assms by (intro sim_ops) (auto simp: trail_ok_def)
  note g = sim_get [of fs s ino, unfolded gives_def, rule_format, OF u]
  show "sim fs s (snd (enter_child ino path t u)) \<and> (\<forall>x. fst (enter_child ino path t u) = Inr x \<longrightarrow> trail_ok A x)"
    using g u assms vn [of ino, unfolded gives_def, rule_format, of "snd (get ino u)"]
    by (cases "get ino u"; cases "fst (get ino u)")
      (auto simp: enter_child_def split: exn.splits)
qed

lemma sim_tree_entries:
  assumes "path_to A prefix d" "A d = Some a" "a_dir a = Inr m"
  shows "trail_ok A t \<Longrightarrow> (\<forall>(i, n) \<in> set es. m n = Some i) \<Longrightarrow>
    gives (sim fs s) (tree_entries ch prefix es t) (trail_ok A)"
proof (induction es arbitrary: t)
  case Nil
  then show ?case by (simp add: gives_ret)
next
  case (Cons e es)
  obtain ino name where e: "e = (ino, name)" by (cases e)
  show ?case
  proof (cases "name = ''.'' \<or> name = ''..''")
    case True
    then show ?thesis using Cons e by auto
  next
    case False
    have p: "path_to A (prefix @ ''/'' @ name) ino"
      using path_to_snoc [OF assms] Cons(3) e False by auto
    have "trail_ok A (mark_found ch ino (prefix @ ''/'' @ name) t)"
      using Cons(2) p by (auto simp: mark_found_def trail_ok_def)
    from sim_enter_child [OF this p] show ?thesis
      using False Cons(3) unfolding e
      by (auto simp: Let_def intro!: gives_bindE [where R = "trail_ok A"] Cons(1))
  qed
qed

lemma sim_walk_tree:
  assumes "unique_names fs"
  shows "trail_ok (abs_fs s) t \<Longrightarrow> sim fs s u \<Longrightarrow>
    sim fs s (snd (walk_tree ch t u)) \<and> (\<forall>x. fst (walk_tree ch t u) = Inr x \<longrightarrow> trail_ok (abs_fs s) x)"
proof (induction ch t u rule: walk_tree.induct)
  case (1 ch t u)
  show ?case
  proof (cases "tr_stack t")
    case Nil
    with 1(3,4) show ?thesis by (simp add: walk_tree.simps [of ch t u])
  next
    case (Cons x rest)
    obtain prefix d where x: "x = (prefix, d)" by (cases x)
    obtain r u' where l: "list_dir d u = (r, u')" by fastforce
    have p: "path_to (abs_fs s) prefix d" and t: "trail_ok (abs_fs s) (t\<lparr>tr_stack := rest\<rparr>)"
      using 1(3) Cons x by (auto simp: trail_ok_def)
    note g = sim_list_dir [OF assms, of s d, unfolded gives_def, rule_format, OF 1(4), unfolded l, simplified]
    show ?thesis
    proof (cases r)
      case (Inl e)
      with 1(1) [OF Cons x [symmetric] l [symmetric] Inl _ t] g Cons x l show ?thesis
        by (auto simp: walk_tree.simps [of ch t u])
    next
      case (Inr es)
      then obtain a m where a: "abs_fs s d = Some a" "a_dir a = Inr m" and es: "\<forall>i n. (i, n) \<in> set es \<longleftrightarrow> m n = Some i"
        using g by auto
      then have a3: "\<forall>(i, n) \<in> set es. m n = Some i" by auto
      obtain q w where sc: "tree_entries ch prefix es (t\<lparr>tr_stack := rest\<rparr>) u' = (q, w)" by fastforce
      note h = sim_tree_entries [OF p a(1,2) t a3, of fs s ch, unfolded gives_def, rule_format, of u', unfolded sc, simplified]
      show ?thesis
      proof (cases q)
        case (Inl e)
        with g h Cons x l sc \<open>r = Inr es\<close> show ?thesis by (simp add: walk_tree.simps [of ch t u])
      next
        case q: (Inr t')
        with 1(2) [OF Cons x [symmetric] l [symmetric] Inr sc [symmetric] q] g h Cons x l sc Inr show ?thesis
          by (simp add: walk_tree.simps [of ch t u])
      qed
    qed
  qed
qed

section \<open>The report is complete\<close>

definition grows :: "trail \<Rightarrow> trail \<Rightarrow> bool" where
  "grows t t' \<longleftrightarrow> dom (map_of (tr_found t)) \<subseteq> dom (map_of (tr_found t')) \<and> set (tr_seen t) \<subseteq> set (tr_seen t') \<and>
     snd ` set (tr_stack t) \<subseteq> snd ` set (tr_stack t') \<and> set (tr_seen t') \<subseteq> set (tr_seen t) \<union> snd ` set (tr_stack t')"

lemma trail_grows_trans:
  assumes "grows t u" and "grows u v"
  shows "grows t v"
proof -
  have "set (tr_seen v) \<subseteq> set (tr_seen u) \<union> snd ` set (tr_stack v)" "set (tr_seen u) \<subseteq> set (tr_seen t) \<union> snd ` set (tr_stack u)"
    "snd ` set (tr_stack u) \<subseteq> snd ` set (tr_stack v)"
    using assms by (simp_all only: grows_def)
  then have "set (tr_seen v) \<subseteq> set (tr_seen t) \<union> snd ` set (tr_stack v)" by fast
  with assms show ?thesis unfolding grows_def by (meson subset_trans)
qed

definition entry_done :: "(int \<rightharpoonup> anode) \<Rightarrow> (int \<times> change) list \<Rightarrow> trail \<Rightarrow> int \<Rightarrow> bool" where
  "entry_done A ch t i \<longleftrightarrow> (map_of ch i \<noteq> None \<longrightarrow> i \<in> dom (map_of (tr_found t))) \<and>
     (\<forall>a. A i = Some a \<and> S_ISDIR (a_mode a) \<longrightarrow> i \<in> set (tr_seen t))"

lemma entry_done_grows: "entry_done A ch t i \<Longrightarrow> grows t t' \<Longrightarrow> entry_done A ch t' i"
  unfolding entry_done_def grows_def by blast

definition dir_done :: "(int \<rightharpoonup> anode) \<Rightarrow> (int \<times> change) list \<Rightarrow> trail \<Rightarrow> int \<Rightarrow> bool" where
  "dir_done A ch t d \<longleftrightarrow> (\<forall>a m n i. A d = Some a \<longrightarrow> a_dir a = Inr m \<longrightarrow> n \<noteq> ''.'' \<longrightarrow> n \<noteq> ''..'' \<longrightarrow>
     m n = Some i \<longrightarrow> entry_done A ch t i)"

lemma dir_done_grows:
  assumes "dir_done A ch t d" and g: "grows t t'"
  shows "dir_done A ch t' d"
  unfolding dir_done_def
proof (intro allI impI)
  fix a m n i
  assume "A d = Some a" "a_dir a = Inr m" "n \<noteq> ''.''" "n \<noteq> ''..''" "m n = Some i"
  then have "entry_done A ch t i" using assms(1) unfolding dir_done_def by simp
  then show "entry_done A ch t' i" using g by (rule entry_done_grows)
qed

definition covered :: "(int \<rightharpoonup> anode) \<Rightarrow> (int \<times> change) list \<Rightarrow> trail \<Rightarrow> bool" where
  "covered A ch t \<longleftrightarrow> ROOT \<in> set (tr_seen t) \<and> ROOT \<in> dom (map_of (tr_found t)) \<and>
     (\<forall>d \<in> set (tr_seen t). d \<in> snd ` set (tr_stack t) \<or> dir_done A ch t d)"

lemma get_fails:
  assumes "get i u = (Inl e, v)"
  shows "abs_fs u i = None"
proof -
  have none: "map_of (vnodes u) i = None" using assms by (cases "map_of (vnodes u) i") (simp_all add: get_def)
  moreover have "\<exists>e. get_inode (base_fs u) i = Inl e"
  proof (cases "1 \<le> i \<and> i \<le> ninodes (sb (base_fs u))")
    case True
    with assms none show ?thesis
      by (cases "get_inode (base_fs u) i")
        (simp_all add: get_def thenE_def bindE_def ret_def add_vnode_def modify_def del: map_of_eq_None_iff)
  qed (simp add: get_inode_def)
  ultimately show ?thesis by (auto simp: abs_fs_def peek_def)
qed

lemma sim_enter_done:
  "gives (sim fs s) (enter_child ino path t) (\<lambda>t'. grows t t' \<and>
     (\<forall>a. abs_fs s ino = Some a \<and> S_ISDIR (a_mode a) \<longrightarrow> ino \<in> set (tr_seen t')) \<and> tr_found t' = tr_found t)"
  (is "gives _ _ ?R")
  unfolding gives_def
proof (intro allI impI)
  fix u
  assume u: "sim fs s u"
  have vn: "gives (sim fs s) (bindE (vn ino) (\<lambda>v. ret (if v_is_dir v
      then t\<lparr>tr_seen := ino # tr_seen t, tr_dirs := (ino, path) # tr_dirs t, tr_stack := (path, ino) # tr_stack t\<rparr>
      else t))) ?R"
    by (intro sim_ops) (auto simp: grows_def v_is_dir_def)
  note g = sim_get [of fs s ino, unfolded gives_def, rule_format, OF u]
  have none: "abs_fs s ino = None" if "get ino u = (Inl e, v)" for e v
    using get_fails [OF that] u by (simp add: sim_def same_view_def)
  show "sim fs s (snd (enter_child ino path t u)) \<and> (\<forall>x. fst (enter_child ino path t u) = Inr x \<longrightarrow> ?R x)"
  proof (cases "ino \<in> set (tr_seen t)")
    case True
    with u show ?thesis by (simp add: enter_child_def grows_def)
  next
    case False
    obtain r v where r: "get ino u = (r, v)" by fastforce
    show ?thesis
    proof (cases r)
      case (Inl e)
      with g r False none show ?thesis by (auto simp: enter_child_def grows_def split: exn.splits)
    next
      case (Inr j)
      with g r have "j = ino" "sim fs s v" by auto
      have "enter_child ino path t u = bindE (vn ino) (\<lambda>v. ret (if v_is_dir v
          then t\<lparr>tr_seen := ino # tr_seen t, tr_dirs := (ino, path) # tr_dirs t, tr_stack := (path, ino) # tr_stack t\<rparr>
          else t)) v"
        using r Inr False \<open>j = ino\<close> by (simp add: enter_child_def)
      with vn \<open>sim fs s v\<close> show ?thesis unfolding gives_def by presburger
    qed
  qed
qed

lemma sim_scan_done:
  "gives (sim fs s) (tree_entries ch prefix es t) (\<lambda>t'. grows t t' \<and>
     (\<forall>(i, n) \<in> set es. n \<noteq> ''.'' \<longrightarrow> n \<noteq> ''..'' \<longrightarrow> entry_done (abs_fs s) ch t' i))"
proof (induction es arbitrary: t)
  case Nil
  show ?case by (simp add: gives_ret grows_def)
next
  case (Cons e es)
  obtain ino name where e: "e = (ino, name)" by (cases e)
  show ?case
  proof (cases "name = ''.'' \<or> name = ''..''")
    case True
    show ?thesis unfolding e using True by (auto intro: gives_weaken [OF Cons])
  next
    case False
    let ?p = "prefix @ ''/'' @ name" let ?t = "mark_found ch ino (prefix @ ''/'' @ name) t"
    have mark: "grows t ?t" "map_of ch ino \<noteq> None \<Longrightarrow> ino \<in> dom (map_of (tr_found ?t))"
      by (auto simp: mark_found_def grows_def)
    have "gives (sim fs s) (bindE (enter_child ino ?p ?t) (tree_entries ch prefix es)) (\<lambda>t'. grows t t' \<and>
      (\<forall>(i, n) \<in> set (e # es). n \<noteq> ''.'' \<longrightarrow> n \<noteq> ''..'' \<longrightarrow> entry_done (abs_fs s) ch t' i))"
    proof (rule gives_bindE [OF sim_enter_done], rule gives_weaken [OF Cons])
      fix u t'
      assume u: "grows ?t u \<and> (\<forall>a. abs_fs s ino = Some a \<and> S_ISDIR (a_mode a) \<longrightarrow> ino \<in> set (tr_seen u)) \<and>
          tr_found u = tr_found ?t"
        and t': "grows u t' \<and> (\<forall>(i, n) \<in> set es. n \<noteq> ''.'' \<longrightarrow> n \<noteq> ''..'' \<longrightarrow> entry_done (abs_fs s) ch t' i)"
      have "entry_done (abs_fs s) ch u ino" using u mark(2) by (simp add: entry_done_def)
      then have "entry_done (abs_fs s) ch t' ino" by (rule entry_done_grows) (use t' in blast)
      moreover have "grows t t'" by (rule trail_grows_trans [OF mark(1) trail_grows_trans]) (use u t' in blast)+
      ultimately show "grows t t' \<and>
          (\<forall>(i, n) \<in> set (e # es). n \<noteq> ''.'' \<longrightarrow> n \<noteq> ''..'' \<longrightarrow> entry_done (abs_fs s) ch t' i)"
        using t' e by auto
    qed
    then show ?thesis using False by (simp add: e Let_def)
  qed
qed

lemma list_dir_skipped:
  assumes "list_dir d u = (Inl e, v)" and "skips e" and "sim fs s u"
  shows "dir_done (abs_fs s) ch t d"
proof -
  have A: "abs_fs s = abs_fs u" "base_fs u = fs" using assms(3) by (auto simp: sim_def same_view_def ov_inv_base)
  obtain x where x: "map_of (vnodes u) d = Some x"
    using assms(1,2) by (cases "map_of (vnodes u) d") (auto simp: list_dir_def vn_def bindE_def skips_def)
  then have "abs_fs s d = Some (anode_of fs x)" using A by (simp add: abs_fs_present)
  moreover have "\<exists>e. a_dir (anode_of fs x) = Inl e"
    using assms(1,2) x A(2)
    by (auto simp: anode_of_def dir_map_def list_dir_def bindE_def vn_def raise_def ret_def base_dir_def base_def
        gets_def liftR_def skips_def split: if_splits option.splits sum.splits)
  ultimately show ?thesis by (auto simp: dir_done_def)
qed

lemma covered_pop:
  assumes "covered A ch t" "tr_stack t = (prefix, d) # rest" "grows (t\<lparr>tr_stack := rest\<rparr>) t'" "dir_done A ch t' d"
  shows "covered A ch t'"
proof -
  have "e \<in> snd ` set (tr_stack t') \<or> dir_done A ch t' e" if e: "e \<in> set (tr_seen t')" for e
  proof (cases "e = d \<or> e \<in> snd ` set (tr_stack t')")
    case False
    then have seen: "e \<in> set (tr_seen t)" using e assms(3) by (auto simp: grows_def)
    moreover have "e \<notin> snd ` set (tr_stack t)" using False assms(2,3) by (auto simp: grows_def)
    ultimately have "dir_done A ch t e" using assms(1) unfolding covered_def by blast
    then have "dir_done A ch (t\<lparr>tr_stack := rest\<rparr>) e" by (simp add: dir_done_def entry_done_def)
    then show ?thesis using dir_done_grows [OF _ assms(3)] by blast
  qed (use assms(4) in auto)
  moreover have "ROOT \<in> set (tr_seen t')" "ROOT \<in> dom (map_of (tr_found t'))"
    using assms(1,3) by (auto simp: covered_def grows_def)
  ultimately show ?thesis unfolding covered_def by blast
qed

lemma sim_walk_covered:
  assumes "unique_names fs"
  shows "covered (abs_fs s) ch t \<Longrightarrow> sim fs s u \<Longrightarrow> walk_tree ch t u = (Inr x, w) \<Longrightarrow>
    covered (abs_fs s) ch x \<and> tr_stack x = []"
proof (induction ch t u rule: walk_tree.induct)
  case (1 ch t u)
  show ?case
  proof (cases "tr_stack t")
    case Nil
    with 1(3,5) show ?thesis by (simp add: walk_tree.simps [of ch t u])
  next
    case (Cons y rest)
    obtain prefix d where y: "y = (prefix, d)" by (cases y)
    obtain r u' where l: "list_dir d u = (r, u')" by fastforce
    let ?t = "t\<lparr>tr_stack := rest\<rparr>"
    note g = sim_list_dir [OF assms, of s d, unfolded gives_def, rule_format, OF 1(4), unfolded l, simplified]
    show ?thesis
    proof (cases r)
      case (Inl e)
      then have sk: "skips e" and w: "walk_tree ch ?t u' = (Inr x, w)"
        using 1(5) Cons y l by (auto simp: walk_tree.simps [of ch t u] split: if_splits)
      have "dir_done (abs_fs s) ch ?t d" using list_dir_skipped [of d u e] l Inl sk 1(4) by simp
      then have "covered (abs_fs s) ch ?t"
        using covered_pop [OF 1(3) Cons [unfolded y]] by (simp add: grows_def)
      with 1(1) [OF Cons y [symmetric] l [symmetric] Inl sk] g w show ?thesis by simp
    next
      case (Inr es)
      then obtain a m where a: "abs_fs s d = Some a" "a_dir a = Inr m" "\<forall>i n. (i, n) \<in> set es \<longleftrightarrow> m n = Some i"
        using g by auto
      obtain t' v where sc: "tree_entries ch prefix es ?t u' = (Inr t', v)" and w: "walk_tree ch t' v = (Inr x, w)"
        using 1(5) Cons y l Inr by (auto simp: walk_tree.simps [of ch t u] split: prod.splits sum.splits)
      note h = sim_scan_done [of fs s ch prefix es ?t, unfolded gives_def, rule_format, of u', unfolded sc, simplified]
      have "grows ?t t'" "dir_done (abs_fs s) ch t' d"
        using h g a Inr by (auto simp: dir_done_def)
      then have "covered (abs_fs s) ch t'" by (rule covered_pop [OF 1(3) Cons [unfolded y]])
      with 1(2) [OF Cons y [symmetric] l [symmetric] Inr sc [symmetric] refl] g h w show ?thesis by simp
    qed
  qed
qed

lemma covered_all:
  assumes c: "covered A ch t" and top: "tr_stack t = []" and i: "map_of ch i \<noteq> None"
    and dirs: "\<And>d a m. A d = Some a \<Longrightarrow> a_dir a = Inr m \<Longrightarrow> S_ISDIR (a_mode a)"
  shows "d \<in> set (tr_seen t) \<Longrightarrow> leads A d ns i \<Longrightarrow> ''.'' \<notin> set ns \<Longrightarrow> ''..'' \<notin> set ns \<Longrightarrow> ns \<noteq> [] \<Longrightarrow>
    i \<in> dom (map_of (tr_found t))"
proof (induction ns arbitrary: d)
  case (Cons n ns)
  obtain a m e where a: "A d = Some a" "a_dir a = Inr m" "m n = Some e" and l: "leads A e ns i"
    using Cons(3) by auto
  have "dir_done A ch t d" using c top Cons(2) by (auto simp: covered_def)
  moreover have "n \<noteq> ''.''" "n \<noteq> ''..''" using Cons(4,5) by auto
  ultimately have e: "entry_done A ch t e" using a unfolding dir_done_def by blast
  show ?case
  proof (cases ns)
    case Nil
    with l e i show ?thesis by (auto simp: entry_done_def)
  next
    case (Cons n' ns')
    with l obtain b m' where "A e = Some b" "a_dir b = Inr m'" by auto
    with e dirs have "e \<in> set (tr_seen t)" by (auto simp: entry_done_def)
    with Cons.IH l Cons.prems Cons show ?thesis by simp
  qed
qed simp

text \<open>The rows.\<close>

definition row_path :: "trail \<Rightarrow> string \<times> change \<times> int \<times> int \<Rightarrow> bool" where
  "row_path t row \<longleftrightarrow> (case row of (p, c, i, z) \<Rightarrow> \<forall>q. map_of (tr_found t) i = Some q \<longrightarrow> p = q)"

lemma sim_changed_rows:
  "gives (sim fs s) (changed_rows t cs)
     (\<lambda>rows. map (\<lambda>(p, c, i, z). (i, c)) rows = cs \<and> (\<forall>row \<in> set rows. row_path t row))"
proof (induction cs)
  case Nil
  show ?case by (simp add: gives_ret)
next
  case (Cons c cs)
  obtain i k where c: "c = (i, k)" by (cases c)
  have "gives (sim fs s) (changed_row t c) (\<lambda>row. (case row of (p, c, i, z) \<Rightarrow> (i, c)) = c \<and> row_path t row)"
    unfolding changed_row_def c
    unfolding prod.case
    by (rule gives_bindE [OF gives_gets [where R = "\<lambda>p. \<forall>q. map_of (tr_found t) i = Some q \<longrightarrow> p = q"]])
      (simp, rule gives_bindE [OF sim_vn], rule gives_ret, simp add: row_path_def)
  then show ?case
    unfolding changed_rows.simps
    by (rule gives_bindE) (rule gives_bindE [OF Cons], rule gives_ret, auto)
qed

text \<open>C13. The report of the changes is exact: it lists each changed inode once, by number, leaves
  the file system as it was, and whenever a changed inode still has a path from the root, the path
  that is reported leads to it.\<close>

theorem changed_paths_exact:
  assumes inv: "ov_inv fs s" and un: "unique_names fs" and res: "changed_paths s = (Inr rows, t)"
  shows "ov_inv fs t \<and> abs_fs t = abs_fs s \<and>
    map (\<lambda>(p, c, i, z). (i, c)) rows = sort_key fst (changed_inodes s) \<and>
    (\<forall>(p, c, i, z) \<in> set rows. (\<exists>q. path_to (abs_fs s) q i) \<longrightarrow> (i = ROOT \<and> p = ''/'') \<or> path_to (abs_fs s) p i)"
proof (cases "changed_inodes s = []")
  case True
  with res inv show ?thesis by (simp add: changed_paths_def bindE_def gets_def ret_def)
next
  case False
  let ?ch = "changed_inodes s" let ?A = "abs_fs s"
  let ?t0 = "\<lparr>tr_found = [(ROOT, ''/'')], tr_dirs = [(ROOT, [])], tr_seen = [ROOT], tr_stack = [([], ROOT)]\<rparr>"
  obtain x u where w: "walk_tree ?ch ?t0 s = (Inr x, u)" and r: "changed_rows x (sort_key fst ?ch) u = (Inr rows, t)"
    using res False by (auto simp: changed_paths_def bindE_def gets_def split: prod.splits sum.splits)
  have s: "sim fs s s" using inv by (rule sim_refl)
  have root: "path_to ?A [] ROOT" unfolding path_to_def by (rule exI [of _ "[]"]) (simp add: names_path_def)
  have "sim fs s u \<and> trail_ok ?A x"
    using sim_walk_tree [OF un, of s ?t0 s ?ch] s root w by (simp add: trail_ok_def)
  then have u: "sim fs s u" and x: "trail_ok ?A x" by auto
  have "covered ?A ?ch ?t0" by (simp add: covered_def)
  then have cov: "covered ?A ?ch x" "tr_stack x = []"
    using sim_walk_covered [OF un _ s w] by auto
  note rows = gives_result [OF sim_changed_rows u r]
  have t: "sim fs s t" using givesD [OF sim_changed_rows u] r by (metis snd_conv)
  have "(i = ROOT \<and> p = ''/'') \<or> path_to ?A p i"
    if row: "(p, c, i, z) \<in> set rows" and q: "path_to ?A q i" for p c i z q
  proof -
    have "(i, c) \<in> set (sort_key fst ?ch)" using row rows by (force simp flip: rows [THEN conjunct1])
    then have "i \<in> fst ` set ?ch" by force
    then have ch: "map_of ?ch i \<noteq> None" by (metis map_of_eq_None_iff)
    obtain ns where ns: "''.'' \<notin> set ns" "''..'' \<notin> set ns" "leads ?A ROOT ns i" using q by (auto simp: path_to_def)
    have dirs: "S_ISDIR (a_mode a)" if "?A d = Some a" "a_dir a = Inr m" for d a m
      using that by (auto simp: abs_fs_def anode_of_def v_is_dir_def split: if_splits)
    have "ROOT \<in> set (tr_seen x)" "ROOT \<in> dom (map_of (tr_found x))" using cov(1) by (simp_all only: covered_def)
    then have "i \<in> dom (map_of (tr_found x))"
    proof (cases "ns = []")
      case True
      with ns(3) \<open>ROOT \<in> dom _\<close> show ?thesis by simp
    next
      case False
      show ?thesis
        by (rule covered_all [OF cov ch _ \<open>ROOT \<in> set _\<close> ns(3,1,2) False]) (rule dirs)
    qed
    then obtain pp where pp: "map_of (tr_found x) i = Some pp" by auto
    with rows row have "p = pp" by (auto simp: row_path_def)
    with pp x show ?thesis by (auto simp: trail_ok_def dest!: map_of_SomeD)
  qed
  then have "\<forall>(p, c, i, z) \<in> set rows. (\<exists>q. path_to ?A q i) \<longrightarrow> (i = ROOT \<and> p = ''/'') \<or> path_to ?A p i" by blast
  with t rows show ?thesis by (simp add: sim_def same_view_def)
qed

text \<open>The small image with a new directory: the root has changed, and \<open>/a\<close> is new.\<close>

lemma tiny_with_dir_inv: "ov_inv tiny_fs tiny_with_dir"
  using givesD [OF gives_mkdir tiny_ov_inv, of 7 "''/a''" "0x1ED" None None 0 0] tiny_mkdir by simp

lemma tiny_changes:
  "\<exists>t. changed_paths tiny_with_dir = (Inr [(''/'', ChangedDir, 1, 64), (''/a'', Created, 3, 32)], t)"
  by (simp add: changed_paths_def walk_tree.simps changed_inodes_def change_of_def list_dir_def run_simps
      enter_child_def mark_found_def changed_row_def vsize_def tiny_with_dir_def VInode_def v_is_dir_def
      type_simps ROOT_def tiny_sb_def tiny_inode tiny_nodes DIRENT_SIZE_def)

theorem changed_paths_exact_witness:
  "\<exists>t. changed_paths tiny_with_dir = (Inr [(''/'', ChangedDir, 1, 64), (''/a'', Created, 3, 32)], t) \<and>
    abs_fs t = abs_fs tiny_with_dir"
  using tiny_changes changed_paths_exact [OF tiny_with_dir_inv tiny_unique] by blast

end
