(* ===== verification/Cpu_Disasm.thy ===== *)
theory Cpu_Disasm
  imports Cpu_Decode
begin

text \<open>
  \<open>src/cpu_disasm.py\<close>: the disassembler. A reader is a cursor over the memory; \<open>None\<close> is the
  exception \<open>_Bad\<close>, an unknown opcode or a byte out of range. \<open>one_op\<close> and \<open>one_0f\<close> are the
  cascades of \<open>_one\<close> and \<open>_one_0f\<close> in the order of the code.
\<close>

section \<open>The reader\<close>

type_synonym 'a rd = "int \<Rightarrow> ('a \<times> int) option"

definition give :: "'a \<Rightarrow> 'a rd" where
  "give x p = Some (x, p)"

definition bad_insn :: "'a rd" where
  "bad_insn p = None"

definition seq_rd :: "'a rd \<Rightarrow> ('a \<Rightarrow> 'b rd) \<Rightarrow> 'b rd" where
  "seq_rd r f p = (case r p of None \<Rightarrow> None | Some (x, p') \<Rightarrow> f x p')"

definition here :: "int rd" where
  "here p = Some (p, p)"

definition d_u8 :: "'e addrspace \<Rightarrow> int rd" where
  "d_u8 m p = (case read_u8 p m of Inl _ \<Rightarrow> None | Inr v \<Rightarrow> Some (v, (p + 1) AND MASK32))"

definition d_u16 :: "'e addrspace \<Rightarrow> int rd" where
  "d_u16 m = seq_rd (d_u8 m) (\<lambda>lo. seq_rd (d_u8 m) (\<lambda>hi. give (lo OR push_bit 8 hi)))"

definition d_u32 :: "'e addrspace \<Rightarrow> int rd" where
  "d_u32 m = seq_rd (d_u8 m) (\<lambda>b0. seq_rd (d_u8 m) (\<lambda>b1. seq_rd (d_u8 m) (\<lambda>b2. seq_rd (d_u8 m) (\<lambda>b3.
     give (((b0 OR push_bit 8 b1) OR push_bit 16 b2) OR push_bit 24 b3)))))"

definition d_s8 :: "'e addrspace \<Rightarrow> int rd" where
  "d_s8 m = seq_rd (d_u8 m) (\<lambda>v. give (if v \<ge> 128 then v - 256 else v))"

definition d_s32 :: "'e addrspace \<Rightarrow> int rd" where
  "d_s32 m = seq_rd (d_u32 m) (\<lambda>v. give (if v \<ge> 0x80000000 then v - 0x100000000 else v))"

section \<open>Names and numbers\<close>

definition REG8_NAMES :: "string list" where
  "REG8_NAMES = [''al'', ''cl'', ''dl'', ''bl'', ''ah'', ''ch'', ''dh'', ''bh'']"

definition REG32_NAMES :: "string list" where
  "REG32_NAMES = [''eax'', ''ecx'', ''edx'', ''ebx'', ''esp'', ''ebp'', ''esi'', ''edi'']"

definition REG16_NAMES :: "string list" where
  "REG16_NAMES = [''ax'', ''cx'', ''dx'', ''bx'', ''sp'', ''bp'', ''si'', ''di'']"

definition ALU_NAMES :: "string list" where
  "ALU_NAMES = [''add'', ''or'', ''adc'', ''sbb'', ''and'', ''sub'', ''xor'', ''cmp'']"

definition CC_NAMES :: "string list" where
  "CC_NAMES = [''o'', ''no'', ''b'', ''ae'', ''e'', ''ne'', ''be'', ''a'',
     ''s'', ''ns'', ''p'', ''np'', ''l'', ''ge'', ''le'', ''g'']"

definition GRP3_NAMES :: "string list" where
  "GRP3_NAMES = [''test'', ''test'', ''not'', ''neg'', ''mul'', ''imul'', ''div'', ''idiv'']"

definition GRP5_NAMES :: "string list" where
  "GRP5_NAMES = [''inc'', ''dec'', ''call'', ''callf'', ''jmp'', ''jmpf'', ''push'', ''?'']"

definition SHIFT_NAMES :: "string list" where
  "SHIFT_NAMES = [''rol'', ''ror'', ''rcl'', ''rcr'', ''shl'', ''shr'', ''sal'', ''sar'']"

definition STRING_NAMES :: "int \<Rightarrow> string" where
  "STRING_NAMES op = (if op \<in> {0xA4, 0xA5} then ''movs'' else if op \<in> {0xA6, 0xA7} then ''cmps''
     else if op \<in> {0xAA, 0xAB} then ''stos'' else if op \<in> {0xAC, 0xAD} then ''lods'' else ''scas'')"

definition SIZEWORD :: "int \<Rightarrow> string" where
  "SIZEWORD sz = (if sz = 1 then ''byte'' else if sz = 2 then ''word'' else ''dword'')"

definition SEG_PREFIX :: "int list" where
  "SEG_PREFIX = [0x2E, 0x36, 0x3E, 0x26, 0x64, 0x65]"

definition hex_char :: "nat \<Rightarrow> char" where
  "hex_char d = ''0123456789abcdef'' ! d"

fun hex_text :: "nat \<Rightarrow> string" where
  "hex_text n = (if n < 16 then [hex_char n] else hex_text (n div 16) @ [hex_char (n mod 16)])"

declare hex_text.simps [simp del]

definition uhex :: "int \<Rightarrow> string" where
  "uhex v = ''0x'' @ hex_text (nat (v AND MASK32))"

definition disp_text :: "int \<Rightarrow> string" where
  "disp_text d = (if d \<ge> 0 then ''+0x'' @ hex_text (nat d) else ''-0x'' @ hex_text (nat (- d)))"

definition reg_name :: "int \<Rightarrow> int \<Rightarrow> string" where
  "reg_name i sz = (if sz = 1 then REG8_NAMES else if sz = 2 then REG16_NAMES else REG32_NAMES) ! nat i"

definition ptr_text :: "int \<Rightarrow> string \<Rightarrow> string" where
  "ptr_text sz s = (if take 1 s = ''['' then SIZEWORD sz @ '' '' @ s else s)"

section \<open>Operands\<close>

definition index_text :: "int \<Rightarrow> int \<Rightarrow> string" where
  "index_text i scale = (if scale > 1
     then REG32_NAMES ! nat i @ ''*'' @ [hex_char (nat scale)] else REG32_NAMES ! nat i)"

definition mem_text :: "int option \<Rightarrow> int option \<Rightarrow> int \<Rightarrow> int \<Rightarrow> string" where
  "mem_text base index scale disp =
     (let parts = (case base of None \<Rightarrow> [] | Some b \<Rightarrow> [REG32_NAMES ! nat b]) @
            (case index of None \<Rightarrow> [] | Some i \<Rightarrow> [index_text i scale])
      in if parts \<noteq> []
         then ''['' @ (case parts of [x, y] \<Rightarrow> x @ ''+'' @ y | _ \<Rightarrow> hd parts) @
           (if disp \<noteq> 0 then disp_text disp else '''') @ '']''
         else ''['' @ uhex disp @ '']'')"

text \<open>Base, index, scale and the displacement that comes with them, before \<open>mod\<close> adds its own.\<close>

definition dis_sib :: "'e addrspace \<Rightarrow> int \<Rightarrow> int \<Rightarrow> (int option \<times> int option \<times> int \<times> int) rd" where
  "dis_sib m md rm =
     (if rm = 4 then
        seq_rd (d_u8 m) (\<lambda>sib.
        let scale = push_bit (nat (drop_bit 6 sib)) 1; idx = drop_bit 3 sib AND 7; bse = sib AND 7;
            index = (if idx \<noteq> 4 then Some idx else None)
        in if bse = 5 \<and> md = 0 then seq_rd (d_s32 m) (\<lambda>d. give (None, index, scale, d))
           else give (Some bse, index, scale, 0))
      else if rm = 5 \<and> md = 0 then seq_rd (d_s32 m) (\<lambda>d. give (None, None, 1, d))
      else give (Some rm, None, 1, 0))"

definition dis_modrm :: "'e addrspace \<Rightarrow> int \<Rightarrow> (int \<times> int \<times> int \<times> string) rd" where
  "dis_modrm m sz =
     seq_rd (d_u8 m) (\<lambda>b.
     let md = drop_bit 6 b; reg = drop_bit 3 b AND 7; rm = b AND 7 in
     if md = 3 then give (md, reg, rm, reg_name rm sz)
     else seq_rd (dis_sib m md rm) (\<lambda>(base, index, scale, disp).
       seq_rd (if md = 1 then d_s8 m else if md = 2 then d_s32 m else give disp) (\<lambda>disp.
       give (md, reg, rm, mem_text base index scale disp))))"

section \<open>One-byte opcodes\<close>

definition d_imm :: "'e addrspace \<Rightarrow> int \<Rightarrow> int rd" where
  "d_imm m sz = (if sz = 2 then d_u16 m else d_u32 m)"

definition commas :: "string \<Rightarrow> string list \<Rightarrow> string" where
  "commas name ops = (case ops of [] \<Rightarrow> name
     | x # xs \<Rightarrow> name @ '' '' @ x @ concat (map (\<lambda>y. '', '' @ y) xs))"

text \<open>An instruction with a ModRM byte; the argument makes the text from \<open>reg\<close> and \<open>r/m\<close>.\<close>

definition on_modrm :: "'e addrspace \<Rightarrow> int \<Rightarrow> (int \<Rightarrow> string \<Rightarrow> string rd) \<Rightarrow> string rd" where
  "on_modrm m sz f = seq_rd (dis_modrm m sz) (\<lambda>(md, reg, rm, s). f reg s)"

text \<open>The target of a relative jump, behind the displacement that \<open>r\<close> reads.\<close>

definition jump_text :: "string \<Rightarrow> int rd \<Rightarrow> string rd" where
  "jump_text name r = seq_rd r (\<lambda>rel. seq_rd here (\<lambda>p. give (commas name [uhex ((p + rel) AND MASK32)])))"

definition dis_string :: "int \<Rightarrow> int \<Rightarrow> int option \<Rightarrow> string" where
  "dis_string op opsize rep =
     (let sz = (if op \<in> {0xA4, 0xA6, 0xAA, 0xAC, 0xAE} then 1 else opsize);
          name = STRING_NAMES op @ (if sz = 1 then ''b'' else if sz = 2 then ''w'' else ''d'')
      in if rep = Some 0xF3 then (if op \<in> {0xA6, 0xA7, 0xAE, 0xAF} then ''repe '' else ''rep '') @ name
         else if rep = Some 0xF2 then ''repne '' @ name else name)"

definition dis_alu :: "'e addrspace \<Rightarrow> int \<Rightarrow> int \<Rightarrow> string rd" where
  "dis_alu m op opsize =
     (let name = ALU_NAMES ! nat (drop_bit 3 op); form = op AND 7 in
      if form = 0 then on_modrm m 1 (\<lambda>reg s. give (commas name [ptr_text 1 s, REG8_NAMES ! nat reg]))
      else if form = 1 then on_modrm m opsize (\<lambda>reg s. give (commas name [ptr_text opsize s, reg_name reg opsize]))
      else if form = 2 then on_modrm m 1 (\<lambda>reg s. give (commas name [REG8_NAMES ! nat reg, ptr_text 1 s]))
      else if form = 3 then on_modrm m opsize (\<lambda>reg s. give (commas name [reg_name reg opsize, ptr_text opsize s]))
      else if form = 4 then seq_rd (d_u8 m) (\<lambda>v. give (commas name [''al'', uhex v]))
      else seq_rd (d_imm m opsize) (\<lambda>v. give (commas name [reg_name 0 opsize, uhex v])))"

definition dis_shift :: "'e addrspace \<Rightarrow> int \<Rightarrow> int \<Rightarrow> string rd" where
  "dis_shift m op opsize =
     (let sz = (if op \<in> {0xC0, 0xD0, 0xD2} then 1 else opsize) in
      on_modrm m sz (\<lambda>reg s.
        seq_rd (if op \<in> {0xC0, 0xC1} then seq_rd (d_u8 m) (\<lambda>v. give (uhex v))
                else if op \<in> {0xD0, 0xD1} then give ''1'' else give ''cl'')
          (\<lambda>cnt. give (commas (SHIFT_NAMES ! nat reg) [ptr_text sz s, cnt]))))"

definition dis_grp3 :: "'e addrspace \<Rightarrow> int \<Rightarrow> int \<Rightarrow> string rd" where
  "dis_grp3 m op opsize =
     (let sz = (if op = 0xF6 then 1 else opsize) in
      on_modrm m sz (\<lambda>reg s.
        if reg \<in> {0, 1} then
          seq_rd (if sz = 1 then d_u8 m else d_imm m sz) (\<lambda>v. give (commas ''test'' [ptr_text sz s, uhex v]))
        else give (commas (GRP3_NAMES ! nat reg) [ptr_text sz s])))"

section \<open>Two-byte opcodes\<close>

definition BT_NAMES :: "int \<Rightarrow> string" where
  "BT_NAMES sub = (if sub = 4 then ''bt'' else if sub = 5 then ''bts'' else if sub = 6 then ''btr'' else ''btc'')"

definition one_0f :: "'e addrspace \<Rightarrow> int \<Rightarrow> int \<Rightarrow> string rd" where
  "one_0f m op opsize =
     (if 0x80 \<le> op \<and> op \<le> 0x8F then jump_text (''j'' @ CC_NAMES ! nat (op AND 0xF)) (d_s32 m)
      else if 0x90 \<le> op \<and> op \<le> 0x9F then
        on_modrm m 1 (\<lambda>reg s. give (commas (''set'' @ CC_NAMES ! nat (op AND 0xF)) [ptr_text 1 s]))
      else if op = 0xAF then
        on_modrm m opsize (\<lambda>reg s. give (commas ''imul'' [reg_name reg opsize, ptr_text opsize s]))
      else if op \<in> {0xA3, 0xAB, 0xB3, 0xBB} then
        on_modrm m opsize (\<lambda>reg s. give (commas
          (if op = 0xA3 then ''bt'' else if op = 0xAB then ''bts'' else if op = 0xB3 then ''btr'' else ''btc'')
          [ptr_text opsize s, reg_name reg opsize]))
      else if op = 0xBA then
        on_modrm m opsize (\<lambda>reg s. if reg < 4 then bad_insn
          else seq_rd (d_u8 m) (\<lambda>v. give (commas (BT_NAMES reg) [ptr_text opsize s, uhex v])))
      else if op \<in> {0xBC, 0xBD} then
        on_modrm m opsize (\<lambda>reg s. give (commas (if op = 0xBC then ''bsf'' else ''bsr'')
          [reg_name reg opsize, ptr_text opsize s]))
      else if op \<in> {0xA4, 0xA5, 0xAC, 0xAD} then
        on_modrm m opsize (\<lambda>reg s.
          seq_rd (if op \<in> {0xA4, 0xAC} then seq_rd (d_u8 m) (\<lambda>v. give (uhex v)) else give ''cl'')
            (\<lambda>cnt. give (commas (if op \<in> {0xA4, 0xA5} then ''shld'' else ''shrd'')
               [ptr_text opsize s, reg_name reg opsize, cnt])))
      else if op \<in> {0xB6, 0xB7, 0xBE, 0xBF} then
        (let src = (if op \<in> {0xB6, 0xBE} then 1 else 2) in
         on_modrm m src (\<lambda>reg s. give (commas (if op \<in> {0xB6, 0xB7} then ''movzx'' else ''movsx'')
           [reg_name reg opsize, ptr_text src s])))
      else bad_insn)"

section \<open>The cascade\<close>

text \<open>\<open>one_high\<close> is the cascade from \<open>nop\<close> on.\<close>

definition one_high :: "'e addrspace \<Rightarrow> int \<Rightarrow> int \<Rightarrow> string rd" where
  "one_high m op opsize =
     (let wide = (\<lambda>a b. give (if opsize = 2 then a else b)) in
      if op = 0x90 then give ''nop''
      else if 0x91 \<le> op \<and> op \<le> 0x97 then
        give (commas ''xchg'' [reg_name 0 opsize, reg_name (op AND 7) opsize])
      else if op = 0x98 then wide ''cbw'' ''cwde''
      else if op = 0x99 then wide ''cwd'' ''cdq''
      else if op = 0x9C then wide ''pushf'' ''pushfd''
      else if op = 0x9D then wide ''popf'' ''popfd''
      else if op = 0x9E then give ''sahf''
      else if op = 0x9F then give ''lahf''
      else if op = 0xA0 then seq_rd (d_u32 m) (\<lambda>a. give (''mov al, ['' @ uhex a @ '']''))
      else if op = 0xA1 then
        seq_rd (d_u32 m) (\<lambda>a. give (''mov '' @ reg_name 0 opsize @ '', ['' @ uhex a @ '']''))
      else if op = 0xA2 then seq_rd (d_u32 m) (\<lambda>a. give (''mov ['' @ uhex a @ ''], al''))
      else if op = 0xA3 then
        seq_rd (d_u32 m) (\<lambda>a. give (''mov ['' @ uhex a @ ''], '' @ reg_name 0 opsize))
      else if 0xA4 \<le> op \<and> op \<le> 0xAF \<and> op \<noteq> 0xA8 \<and> op \<noteq> 0xA9 then give (dis_string op opsize None)
      else if op = 0xA8 then seq_rd (d_u8 m) (\<lambda>v. give (commas ''test'' [''al'', uhex v]))
      else if op = 0xA9 then
        seq_rd (d_imm m opsize) (\<lambda>v. give (commas ''test'' [reg_name 0 opsize, uhex v]))
      else if 0xB0 \<le> op \<and> op \<le> 0xB7 then
        seq_rd (d_u8 m) (\<lambda>v. give (commas ''mov'' [REG8_NAMES ! nat (op AND 7), uhex v]))
      else if 0xB8 \<le> op \<and> op \<le> 0xBF then
        seq_rd (d_imm m opsize) (\<lambda>v. give (commas ''mov'' [reg_name (op AND 7) opsize, uhex v]))
      else if op \<in> {0xC0, 0xC1, 0xD0, 0xD1, 0xD2, 0xD3} then dis_shift m op opsize
      else if op = 0xC3 then give ''ret''
      else if op = 0xC2 then seq_rd (d_u16 m) (\<lambda>v. give (commas ''ret'' [uhex v]))
      else if op = 0xC6 then
        on_modrm m 1 (\<lambda>reg s. seq_rd (d_u8 m) (\<lambda>v. give (commas ''mov'' [ptr_text 1 s, uhex v])))
      else if op = 0xC7 then
        on_modrm m opsize (\<lambda>reg s. seq_rd (d_imm m opsize)
          (\<lambda>v. give (commas ''mov'' [ptr_text opsize s, uhex v])))
      else if op = 0xC8 then
        seq_rd (d_u16 m) (\<lambda>n. seq_rd (d_u8 m) (\<lambda>l. give (commas ''enter'' [uhex n, uhex l])))
      else if op = 0xC9 then give ''leave''
      else if op = 0xCC then give ''int3''
      else if op = 0xCD then seq_rd (d_u8 m) (\<lambda>v. give (commas ''int'' [uhex v]))
      else if op = 0xD7 then give ''xlat''
      else if 0xE0 \<le> op \<and> op \<le> 0xE3 then
        jump_text ([''loopne'', ''loope'', ''loop'', ''jecxz''] ! nat (op - 0xE0)) (d_s8 m)
      else if op = 0xE8 then jump_text ''call'' (d_s32 m)
      else if op = 0xE9 then jump_text ''jmp'' (d_s32 m)
      else if op = 0xEB then jump_text ''jmp'' (d_s8 m)
      else if op = 0xF4 then give ''hlt''
      else if op \<in> {0xF6, 0xF7} then dis_grp3 m op opsize
      else if op = 0xF8 then give ''clc''
      else if op = 0xF9 then give ''stc''
      else if op = 0xFC then give ''cld''
      else if op = 0xFD then give ''std''
      else if op \<in> {0xFE, 0xFF} then
        (let sz = (if op = 0xFE then 1 else opsize) in
         on_modrm m sz (\<lambda>reg s. give (commas (GRP5_NAMES ! nat reg) [ptr_text sz s])))
      else if op = 0x0F then seq_rd (d_u8 m) (\<lambda>op2. one_0f m op2 opsize)
      else bad_insn)"

definition one_op :: "'e addrspace \<Rightarrow> int \<Rightarrow> int \<Rightarrow> string rd" where
  "one_op m op opsize =
     (if op < 0x40 \<and> op AND 7 < 6 then dis_alu m op opsize
      else if 0x40 \<le> op \<and> op \<le> 0x4F then
        give (commas (if op < 0x48 then ''inc'' else ''dec'') [reg_name (op AND 7) opsize])
      else if 0x50 \<le> op \<and> op \<le> 0x57 then give (commas ''push'' [reg_name (op AND 7) opsize])
      else if 0x58 \<le> op \<and> op \<le> 0x5F then give (commas ''pop'' [reg_name (op AND 7) opsize])
      else if op = 0x68 then seq_rd (d_imm m opsize) (\<lambda>v. give (commas ''push'' [uhex v]))
      else if op = 0x6A then seq_rd (d_s8 m) (\<lambda>v. give (commas ''push'' [uhex (v AND MASK32)]))
      else if op \<in> {0x69, 0x6B} then
        on_modrm m opsize (\<lambda>reg s.
          seq_rd (if op = 0x69 then d_imm m opsize else seq_rd (d_s8 m) (\<lambda>v. give (v AND MASK32)))
            (\<lambda>v. give (commas ''imul'' [reg_name reg opsize, ptr_text opsize s, uhex v])))
      else if 0x70 \<le> op \<and> op \<le> 0x7F then jump_text (''j'' @ CC_NAMES ! nat (op AND 0xF)) (d_s8 m)
      else if op \<in> {0x80, 0x81, 0x83} then
        (let sz = (if op = 0x80 then 1 else opsize) in
         on_modrm m sz (\<lambda>reg s.
           seq_rd (if op = 0x80 then d_u8 m else if op = 0x81 then d_imm m sz
                   else seq_rd (d_s8 m) (\<lambda>v. give (v AND MASK32)))
             (\<lambda>v. give (commas (ALU_NAMES ! nat reg) [ptr_text sz s, uhex v]))))
      else if op \<in> {0x84, 0x85, 0x86, 0x87} then
        (let sz = (if op \<in> {0x84, 0x86} then 1 else opsize) in
         on_modrm m sz (\<lambda>reg s. give (commas (if op \<in> {0x84, 0x85} then ''test'' else ''xchg'')
           [ptr_text sz s, reg_name reg sz])))
      else if op = 0x88 then on_modrm m 1 (\<lambda>reg s. give (commas ''mov'' [ptr_text 1 s, REG8_NAMES ! nat reg]))
      else if op = 0x89 then
        on_modrm m opsize (\<lambda>reg s. give (commas ''mov'' [ptr_text opsize s, reg_name reg opsize]))
      else if op = 0x8A then on_modrm m 1 (\<lambda>reg s. give (commas ''mov'' [REG8_NAMES ! nat reg, ptr_text 1 s]))
      else if op = 0x8B then
        on_modrm m opsize (\<lambda>reg s. give (commas ''mov'' [reg_name reg opsize, ptr_text opsize s]))
      else if op = 0x8D then on_modrm m opsize (\<lambda>reg s. give (commas ''lea'' [reg_name reg opsize, s]))
      else if op = 0x8F then on_modrm m opsize (\<lambda>reg s. give (commas ''pop'' [ptr_text opsize s]))
      else one_high m op opsize)"

section \<open>Instructions\<close>

text \<open>
  The prefix loop, with a bound on the prefixes. Every prefix is a byte of memory, read at the
  next address, so as many rounds as there are addresses are enough.
\<close>

fun dis_prefixes :: "nat \<Rightarrow> 'e addrspace \<Rightarrow> int \<Rightarrow> int option \<Rightarrow> (int \<times> int option \<times> int) rd" where
  "dis_prefixes 0 m opsize rep p = None"
| "dis_prefixes (Suc n) m opsize rep p =
     seq_rd (d_u8 m) (\<lambda>op.
       if op = 0x66 then dis_prefixes n m 2 rep
       else if op \<in> set SEG_PREFIX \<or> op = 0xF0 then dis_prefixes n m opsize rep
       else if op \<in> {0xF2, 0xF3} then dis_prefixes n m opsize (Some op)
       else give (opsize, rep, op)) p"

definition max_prefixes :: "'e addrspace \<Rightarrow> nat" where
  "max_prefixes m = nat (max (low_end m) TASK_SIZE) + 1"

definition dis_decode :: "'e addrspace \<Rightarrow> string rd" where
  "dis_decode m =
     seq_rd (dis_prefixes (max_prefixes m) m 4 None) (\<lambda>(opsize, rep, op).
     if rep \<noteq> None \<and> 0xA4 \<le> op \<and> op \<le> 0xAF \<and> op \<noteq> 0xA8 \<and> op \<noteq> 0xA9
     then give (dis_string op opsize rep)
     else if rep = Some 0xF3 \<and> op = 0x90 then give ''pause''
     else one_op m op opsize)"

definition safe_u8 :: "'e addrspace \<Rightarrow> int \<Rightarrow> int option" where
  "safe_u8 m a = (case read_u8 (a AND MASK32) m of Inl _ \<Rightarrow> None | Inr v \<Rightarrow> Some v)"

fun safe_bytes :: "'e addrspace \<Rightarrow> int \<Rightarrow> nat \<Rightarrow> bytes" where
  "safe_bytes m a 0 = []"
| "safe_bytes m a (Suc n) = (case safe_u8 m a of None \<Rightarrow> [] | Some v \<Rightarrow> word_of_int v # safe_bytes m (a + 1) n)"

definition byte_text :: "int \<Rightarrow> string" where
  "byte_text b = ''.byte 0x'' @ [hex_char (nat b div 16), hex_char (nat b mod 16)]"

definition disasm_one :: "'e addrspace \<Rightarrow> int \<Rightarrow> int \<times> string \<times> bytes" where
  "disasm_one m a =
     (case dis_decode m (a AND MASK32) of
        Some (s, p) \<Rightarrow>
          let d = (p - (a AND MASK32)) AND MASK32; n = (if d = 0 then 1 else d)
          in (n, s, safe_bytes m a (nat n))
      | None \<Rightarrow> (case safe_u8 m a of
          None \<Rightarrow> (1, ''(bad)'', [])
        | Some b \<Rightarrow> (1, byte_text b, [word_of_int b])))"

fun disasm_from :: "'e addrspace \<Rightarrow> int \<Rightarrow> nat \<Rightarrow> (int \<times> bytes \<times> string) list" where
  "disasm_from m a 0 = []"
| "disasm_from m a (Suc n) =
     (case disasm_one m a of (len, s, raw) \<Rightarrow> (a, raw, s) # disasm_from m ((a + len) AND MASK32) n)"

definition disasm_range :: "'e addrspace \<Rightarrow> int \<Rightarrow> int \<Rightarrow> (int \<times> bytes \<times> string) list" where
  "disasm_range m a count = disasm_from m (a AND MASK32) (nat count)"

end
