(* ===== verification/Kmonitor.thy ===== *)
theory Kmonitor
  imports Kernel_Sched Kvfs_Changes Cpu_Disasm
begin

text \<open>
  \<open>src/kmonitor.py\<close>: the monitor and debugger console. A command line is an ASCII string. What
  the monitor prints is a list of lines, each an English key for the format of the source with the
  data it formats; a table is a key with its rows. Not modelled: the Chinese words of the formats,
  percentages and wall-clock times derived from the data shown, and suspending the host terminal
  around a session. \<open>table\<close>, which aligns columns of wide characters, is modelled on its own.
\<close>

section \<open>Text in columns\<close>

text \<open>
  The parameter tells which characters are two columns wide (\<open>unicodedata.east_asian_width\<close>);
  \<open>sp\<close> is the space, \<open>white\<close> the characters that \<open>rstrip\<close> removes.
\<close>

definition dwidth :: "('c \<Rightarrow> bool) \<Rightarrow> 'c list \<Rightarrow> nat" where
  "dwidth wide s = sum_list (map (\<lambda>c. if wide c then 2 else 1) s)"

definition ljust :: "('c \<Rightarrow> bool) \<Rightarrow> 'c \<Rightarrow> 'c list \<Rightarrow> nat \<Rightarrow> 'c list" where
  "ljust wide sp s n = s @ replicate (n - dwidth wide s) sp"

definition rjust :: "('c \<Rightarrow> bool) \<Rightarrow> 'c \<Rightarrow> 'c list \<Rightarrow> nat \<Rightarrow> 'c list" where
  "rjust wide sp s n = replicate (n - dwidth wide s) sp @ s"

definition col_width :: "('c \<Rightarrow> bool) \<Rightarrow> 'c list list list \<Rightarrow> nat \<Rightarrow> nat" where
  "col_width wide rows i = Max (set (map (\<lambda>r. dwidth wide (r ! i)) rows))"

definition table_parts :: "('c \<Rightarrow> bool) \<Rightarrow> 'c \<Rightarrow> bool list \<Rightarrow> nat list \<Rightarrow> 'c list list \<Rightarrow> 'c list list" where
  "table_parts wide sp right widths row =
     map (\<lambda>i. (if right ! i then rjust else ljust) wide sp (row ! i) (widths ! i)) [0..<length widths]"

fun join_with :: "'c list \<Rightarrow> 'c list list \<Rightarrow> 'c list" where
  "join_with sep [] = []"
| "join_with sep [x] = x"
| "join_with sep (x # xs) = x @ sep @ join_with sep xs"

definition rstrip :: "('c \<Rightarrow> bool) \<Rightarrow> 'c list \<Rightarrow> 'c list" where
  "rstrip white s = rev (dropWhile white (rev s))"

definition table :: "('c \<Rightarrow> bool) \<Rightarrow> 'c \<Rightarrow> ('c \<Rightarrow> bool) \<Rightarrow> 'c list list \<Rightarrow> 'c list list list \<Rightarrow> bool list \<Rightarrow> 'c list list" where
  "table wide sp white headers rows right =
     (let widths = map (col_width wide (headers # rows)) [0..<length headers]
      in map (\<lambda>row. rstrip white (join_with [sp, sp] (table_parts wide sp right widths row))) (headers # rows))"

text \<open>\<open>n / d\<close> with one digit after the point, for \<open>d\<close> a power of two: the quotient is a float exactly.\<close>

definition tenths :: "int \<Rightarrow> int \<Rightarrow> int" where
  "tenths n d = (let q = 10 * n div d; r = 10 * n mod d in
     if 2 * r > d \<or> 2 * r = d \<and> odd q then q + 1 else q)"

definition point1 :: "int \<Rightarrow> string" where
  "point1 t = decimal (t div 10) @ ''.'' @ decimal (t mod 10)"

definition fmt_bytes :: "int \<Rightarrow> string" where
  "fmt_bytes n =
     (if n < 1024 then decimal n @ ''B''
      else if n < 1024 * 1024 then point1 (tenths n 1024) @ ''KB''
      else point1 (tenths n (1024 * 1024)) @ ''MB'')"

section \<open>Words and numbers of a command line\<close>

definition py_space :: "char \<Rightarrow> bool" where
  "py_space c \<longleftrightarrow> (let n = of_char c :: nat in 9 \<le> n \<and> n \<le> 13 \<or> 28 \<le> n \<and> n \<le> 32)"

function split_words :: "string \<Rightarrow> string list" where
  "split_words s = (let r = dropWhile py_space s in
     if r = [] then []
     else takeWhile (\<lambda>c. \<not> py_space c) r # split_words (dropWhile (\<lambda>c. \<not> py_space c) r))"
  by pat_completeness auto

termination
proof (relation "measure length", goal_cases)
  case 1
  show ?case by simp
next
  case (2 s r)
  obtain x xs where r: "r = x # xs" using 2(2) by (meson neq_Nil_conv)
  with 2 have "\<not> py_space x" using hd_dropWhile [of py_space s] by (metis list.sel(1))
  with r have "length (dropWhile (\<lambda>c. \<not> py_space c) r) < length r"
    by (simp add: le_imp_less_Suc length_dropWhile_le)
  moreover have "length r \<le> length s" using 2 by (simp add: length_dropWhile_le)
  ultimately show ?case by simp
qed

declare split_words.simps [simp del]

definition py_strip :: "string \<Rightarrow> string" where
  "py_strip s = rstrip py_space (dropWhile py_space s)"

definition lower_char :: "char \<Rightarrow> char" where
  "lower_char c = (let n = of_char c :: nat in if 65 \<le> n \<and> n \<le> 90 then char_of (n + 32) else c)"

definition py_lower :: "string \<Rightarrow> string" where
  "py_lower = map lower_char"

definition digit_val :: "char \<Rightarrow> nat option" where
  "digit_val c = (let n = of_char (lower_char c) :: nat in
     if 48 \<le> n \<and> n \<le> 57 then Some (n - 48) else if 97 \<le> n \<and> n \<le> 122 then Some (n - 87) else None)"

definition py_digit :: "char \<Rightarrow> bool" where
  "py_digit c \<longleftrightarrow> (let n = of_char c :: nat in 48 \<le> n \<and> n \<le> 57)"

definition py_isdigit :: "string \<Rightarrow> bool" where
  "py_isdigit s \<longleftrightarrow> s \<noteq> [] \<and> list_all py_digit s"

text \<open>Digits of base \<open>b\<close> with single underscores between them.\<close>

fun digits_val :: "nat \<Rightarrow> string \<Rightarrow> int \<Rightarrow> bool \<Rightarrow> int option" where
  "digits_val b [] acc after_digit = (if after_digit then Some acc else None)"
| "digits_val b (c # cs) acc after_digit =
     (if c = CHR ''_'' then (if after_digit then digits_val b cs acc False else None)
      else case digit_val c of
        None \<Rightarrow> None
      | Some d \<Rightarrow> if d < b then digits_val b cs (acc * int b + int d) True else None)"

definition py_sign :: "string \<Rightarrow> int \<times> string" where
  "py_sign s = (case s of
     c # r \<Rightarrow> if c = CHR ''-'' then (-1, r) else if c = CHR ''+'' then (1, r) else (1, s)
   | [] \<Rightarrow> (1, s))"

text \<open>\<open>int(s)\<close> and \<open>int(s, 0)\<close> for a word: \<open>None\<close> is \<open>ValueError\<close>.\<close>

definition py_int :: "string \<Rightarrow> int option" where
  "py_int s = (case py_sign s of (g, r) \<Rightarrow> map_option (\<lambda>v. g * v) (digits_val 10 r 0 False))"

definition skip_underscore :: "string \<Rightarrow> string" where
  "skip_underscore s = (case s of c # r \<Rightarrow> if c = CHR ''_'' then r else s | [] \<Rightarrow> s)"

definition nat_base0 :: "string \<Rightarrow> int option" where
  "nat_base0 r =
     (if take 1 r = ''0'' then
        let p = py_lower (take 2 r); t = skip_underscore (drop 2 r) in
        if p = ''0x'' then digits_val 16 t 0 False
        else if p = ''0o'' then digits_val 8 t 0 False
        else if p = ''0b'' then digits_val 2 t 0 False
        else if digits_val 10 r 0 False = Some 0 then Some 0 else None
      else digits_val 10 r 0 False)"

definition py_int0 :: "string \<Rightarrow> int option" where
  "py_int0 s = (case py_sign s of (g, r) \<Rightarrow> map_option (\<lambda>v. g * v) (nat_base0 r))"

section \<open>The console\<close>

datatype cell = Num int | Txt string | Raw bytes | Wait channel

datatype mon_line = Msg string "cell list" | Rows string "cell list list"

record monitor =
  mn_k :: kernel
  mn_last_addr :: "int option"
  mn_last_cmd :: string
  mn_layout :: bool
  mn_out :: "mon_line list"

definition Monitor_init :: "kernel \<Rightarrow> monitor" where
  "Monitor_init k = \<lparr>mn_k = k, mn_last_addr = None, mn_last_cmd = [], mn_layout = False, mn_out = []\<rparr>"

type_synonym 'a mm = "(monitor, 'a) sm"

definition say :: "string \<Rightarrow> cell list \<Rightarrow> unit mm" where
  "say key args = modify (\<lambda>m. m\<lparr>mn_out := mn_out m @ [Msg key args]\<rparr>)"

definition say_rows :: "string \<Rightarrow> cell list list \<Rightarrow> unit mm" where
  "say_rows key rows = modify (\<lambda>m. m\<lparr>mn_out := mn_out m @ [Rows key rows]\<rparr>)"

definition ask :: "(kernel \<Rightarrow> 'a) \<Rightarrow> 'a mm" where
  "ask f = gets (\<lambda>m. f (mn_k m))"

definition tell :: "'a km \<Rightarrow> 'a mm" where
  "tell f m = (case f (mn_k m) of (r, k) \<Rightarrow> (r, m\<lparr>mn_k := k\<rparr>))"

definition state_name :: "pstate \<Rightarrow> string" where
  "state_name st = (case st of RUNNING \<Rightarrow> ''running'' | SLEEPING \<Rightarrow> ''sleeping''
     | ZOMBIE \<Rightarrow> ''zombie'' | STOPPED \<Rightarrow> ''stopped'')"

definition ERRNO_NAMES :: "(int \<times> string) list" where
  "ERRNO_NAMES =
     [(1, ''EPERM''), (2, ''ENOENT''), (3, ''ESRCH''), (4, ''EINTR''), (5, ''EIO''), (6, ''ENXIO''),
      (7, ''E2BIG''), (8, ''ENOEXEC''), (9, ''EBADF''), (10, ''ECHILD''), (11, ''EAGAIN''),
      (12, ''ENOMEM''), (13, ''EACCES''), (14, ''EFAULT''), (16, ''EBUSY''), (17, ''EEXIST''),
      (18, ''EXDEV''), (19, ''ENODEV''), (20, ''ENOTDIR''), (21, ''EISDIR''), (22, ''EINVAL''),
      (23, ''ENFILE''), (24, ''EMFILE''), (25, ''ENOTTY''), (26, ''ETXTBSY''), (27, ''EFBIG''),
      (28, ''ENOSPC''), (29, ''ESPIPE''), (30, ''EROFS''), (31, ''EMLINK''), (32, ''EPIPE''),
      (34, ''ERANGE''), (38, ''ENOSYS''), (39, ''ENOTEMPTY'')]"

text \<open>The names of \<open>ksyscall.py\<close> that start with \<open>NR_\<close>, which have the values 0 to 87.\<close>

definition SYSCALL_NAMES :: "string list" where
  "SYSCALL_NAMES =
     [''setup'', ''exit'', ''fork'', ''read'', ''write'', ''open'', ''close'', ''waitpid'', ''creat'',
      ''link'', ''unlink'', ''execve'', ''chdir'', ''time'', ''mknod'', ''chmod'', ''chown'', ''break'',
      ''stat'', ''lseek'', ''getpid'', ''mount'', ''umount'', ''setuid'', ''getuid'', ''stime'', ''ptrace'',
      ''alarm'', ''fstat'', ''pause'', ''utime'', ''stty'', ''gtty'', ''access'', ''nice'', ''ftime'',
      ''sync'', ''kill'', ''rename'', ''mkdir'', ''rmdir'', ''dup'', ''pipe'', ''times'', ''prof'', ''brk'',
      ''setgid'', ''getgid'', ''signal'', ''geteuid'', ''getegid'', ''acct'', ''phys'', ''lock'', ''ioctl'',
      ''fcntl'', ''mpx'', ''setpgid'', ''ulimit'', ''uname'', ''umask'', ''chroot'', ''ustat'', ''dup2'',
      ''getppid'', ''getpgrp'', ''setsid'', ''sigaction'', ''sgetmask'', ''ssetmask'', ''setreuid'',
      ''setregid'', ''sigsuspend'', ''sigpending'', ''sethostname'', ''setrlimit'', ''getrlimit'',
      ''getrusage'', ''gettimeofday'', ''settimeofday'', ''getgroups'', ''setgroups'', ''select'',
      ''symlink'', ''lstat'', ''readlink'', ''uselib'', ''syscalls'']"

definition syscall_name :: "int \<Rightarrow> string" where
  "syscall_name nr = (if 0 \<le> nr \<and> nr \<le> 87 then SYSCALL_NAMES ! nat nr else ''#'' @ decimal nr)"

definition fmt_ret :: "int \<Rightarrow> string" where
  "fmt_ret r =
     (if -40 < r \<and> r < 0
      then decimal r @ ''('' @ (case map_of ERRNO_NAMES (- r) of Some n \<Rightarrow> n | None \<Rightarrow> ''?'') @ '')''
      else decimal r)"

section \<open>Processes, memory and files\<close>

definition chan_text :: "kernel \<Rightarrow> proc \<Rightarrow> string" where
  "chan_text k q =
     (let buffered = (\<lambda>n. case k_pipes k n of Some x \<Rightarrow> decimal (int (length (pbuf x))) | None \<Rightarrow> ''?'') in
      case p_channel q of
        None \<Rightarrow> ''-''
      | Some (PipeRead n) \<Rightarrow> ''piperead('' @ buffered n @ ''B)''
      | Some (PipeWrite n) \<Rightarrow> ''pipewrite('' @ buffered n @ ''B)''
      | Some (ForChild _) \<Rightarrow> ''wait''
      | Some (Pausing _) \<Rightarrow> ''pause''
      | Some OnTerminal \<Rightarrow> ''TTY'')"

definition proc_row :: "kernel \<Rightarrow> proc \<Rightarrow> cell list" where
  "proc_row k q = [Num (p_pid q), Num (p_ppid q), Num (p_pgrp q), Txt (state_name (p_state q)),
     Num (case p_cpu q of Some c \<Rightarrow> icount c | None \<Rightarrow> 0), Txt (chan_text k q),
     Txt (p_name q @ (if p_kernel_task q then ''(kernel)'' else []))]"

definition init_text :: "init_state \<Rightarrow> string" where
  "init_text s = (case s of InitDone \<Rightarrow> ''done'' | InitRc \<Rightarrow> ''rc'' | WaitRc \<Rightarrow> ''wait_rc''
     | InitShell \<Rightarrow> ''shell'' | WaitShell \<Rightarrow> ''wait_shell'')"

definition info_procs :: "unit mm" where
  "info_procs =
     bindE (ask (\<lambda>k. k)) (\<lambda>k.
     thenE (say_rows ''procs'' (map (\<lambda>(i, q). proc_row k q) (sort_key fst (k_procs k))))
       (say ''current'' ([case k_current k of Some p \<Rightarrow> Num p | None \<Rightarrow> Txt ''-'', Num (k_jiffies k)] @
          map Num (k_runq k) @ [Txt (init_text (k_init_state k))])))"

definition mem_row :: "proc \<Rightarrow> cell list list" where
  "mem_row q = (case p_cpu q of None \<Rightarrow> [] | Some c \<Rightarrow>
     let m = mem c; lo = low_end m; st = int (length (stack m)) in
     [[Num (p_pid q), Txt (fmt_bytes lo), Num (brk m), Txt (fmt_bytes st), Txt (fmt_bytes (lo + st)), Txt (p_name q)]])"

definition mem_total :: "kernel \<Rightarrow> int" where
  "mem_total k = sum_list (map (\<lambda>(i, q). case p_cpu q of None \<Rightarrow> 0
     | Some c \<Rightarrow> low_end (mem c) + int (length (stack (mem c)))) (k_procs k))"

definition info_mem :: "unit mm" where
  "info_mem =
     bindE (ask (\<lambda>k. k)) (\<lambda>k.
     thenE (say_rows ''mem'' (concat (map (\<lambda>(i, q). mem_row q) (sort_key fst (k_procs k)))))
       (say ''total'' [Txt (fmt_bytes (mem_total k)), Txt (fmt_bytes 0x4000000)]))"

definition change_text :: "change \<Rightarrow> string" where
  "change_text c = (case c of Deleted \<Rightarrow> ''deleted'' | Created \<Rightarrow> ''new'' | ChangedDir \<Rightarrow> ''changed directory''
     | ChangedFile \<Rightarrow> ''changed file'')"

definition info_fs :: "nat \<Rightarrow> unit mm" where
  "info_fs limit =
     bindE (ask (\<lambda>k. overlay_stats (k_fs k))) (\<lambda>(st, nxt, tracked).
     thenE (say ''overlay'' [])
     (thenE (say ''copied'' [Num (cow_files st), Num (cow_dirs st), Num (new_inodes st), Num (deleted_inodes st)])
     (thenE (say ''memory'' [Txt (fmt_bytes (nbytes st)), Num nxt])
     (bindE (tell (in_fs changed_paths)) (\<lambda>rows.
     thenE (if rows \<noteq> [] then
              thenE (say ''changes'' (Num (int (length rows)) # (if length rows > limit then [Num (int limit)] else [])))
                (say_rows ''changes'' (map (\<lambda>(path, kind, ino, size).
                   [Txt (change_text kind), Num ino, Txt (fmt_bytes size), Txt path]) (take limit rows)))
            else ret ())
     (bindE (ask (\<lambda>k. base_fs (k_fs k))) (\<lambda>fs.
     bindE (liftR (fs_stats fs)) (\<lambda>b.
     if total_inodes b = 0 \<or> total_zones b = 0 then raise ZeroDivisionError
     else
       thenE (say ''image'' [])
       (thenE (say ''used'' [Num (used_inodes b), Num (total_inodes b), Num (used_zones b), Num (total_zones b)])
         (say ''blocks'' [Num (magic (sb fs)), Num (name_len (sb fs))]))))))))))"

section \<open>System calls\<close>

definition trace_row :: "int \<times> int \<times> int \<times> int \<times> int \<times> int \<Rightarrow> cell list" where
  "trace_row r = (case r of (pid, nr, a, b, c, x) \<Rightarrow>
     [Num pid, Txt (syscall_name nr), Num a, Num b, Num c, Txt (fmt_ret x)])"

definition show_trace :: "int \<Rightarrow> unit mm" where
  "show_trace n =
     bindE (ask k_recent) (\<lambda>recent.
     if recent = [] then say ''trace empty'' []
     else
       let recs = bounded (nat (max n 1)) recent in
       thenE (say ''last calls'' [Num (int (length recs)), Num (int (length recent))])
         (say_rows ''trace'' (map trace_row recs)))"

definition info_syscalls :: "unit mm" where
  "info_syscalls =
     bindE (ask (\<lambda>k. k)) (\<lambda>k.
     if k_counts k = [] then say ''no calls'' []
     else
       thenE (say ''calls'' [Num (counter_total (k_counts k))])
       (thenE (say_rows ''counts'' (map (\<lambda>(nr, n). [Num nr, Txt (syscall_name nr), Num n])
                 (take 20 (sort_key (\<lambda>(nr, n). - n) (k_counts k)))))
       (thenE (show_trace 10)
         (say ''trace kept'' [Num (int (length (k_recent k))), Num (k_trace_capacity k)]))))"

section \<open>Registers, descriptors, terminal\<close>

text \<open>The object that \<open>current\<close> names, which may have been reaped.\<close>

definition current_proc :: "kernel \<Rightarrow> proc option" where
  "current_proc k = (case k_current k of None \<Rightarrow> None
     | Some p \<Rightarrow> (case map_of (k_procs k) p of Some q \<Rightarrow> Some q | None \<Rightarrow> k_gone k))"

definition has_cpu :: "proc \<Rightarrow> bool" where
  "has_cpu q \<longleftrightarrow> p_cpu q \<noteq> None"

definition default_proc :: "kernel \<Rightarrow> proc option" where
  "default_proc k =
     (let cur = current_proc k in
      if (case cur of None \<Rightarrow> True | Some q \<Rightarrow> \<not> has_cpu q)
      then (case find has_cpu (map snd (k_procs k)) of Some q \<Rightarrow> Some q | None \<Rightarrow> cur)
      else cur)"

definition pick_proc :: "string list \<Rightarrow> proc option mm" where
  "pick_proc args = (case args of
     a # _ \<Rightarrow>
       (case py_int a of
          None \<Rightarrow> thenE (say ''bad pid'' [Txt a]) (ret None)
        | Some pid \<Rightarrow>
            bindE (ask (\<lambda>k. map_of (k_procs k) pid)) (\<lambda>r. case r of
              None \<Rightarrow> thenE (say ''no process'' [Num pid]) (ret None)
            | Some q \<Rightarrow> ret (Some q)))
   | [] \<Rightarrow> ask default_proc)"

definition flag_text :: "int \<Rightarrow> string" where
  "flag_text f = concat (map (\<lambda>(ch, bit). if f AND bit \<noteq> 0 then [ch] else [])
     [(CHR ''C'', 0x1), (CHR ''P'', 0x4), (CHR ''A'', 0x10), (CHR ''Z'', 0x40), (CHR ''S'', 0x80),
      (CHR ''D'', 0x400), (CHR ''O'', 0x800)])"

definition flag_cell :: "int \<Rightarrow> cell" where
  "flag_cell f = Txt (if flag_text f = [] then ''-'' else flag_text f)"

definition reg_cells :: "cpu \<Rightarrow> nat \<Rightarrow> cell list" where
  "reg_cells c i = concat (map (\<lambda>j. [Txt (REG32_NAMES ! j), Num (regs c ! j)]) [i..<i + 4])"

definition info_cpu :: "string list \<Rightarrow> unit mm" where
  "info_cpu args =
     bindE (pick_proc args) (\<lambda>r. case r of None \<Rightarrow> ret () | Some q \<Rightarrow>
     (case p_cpu q of
        None \<Rightarrow> say ''kernel task'' [Num (p_pid q), Txt (p_name q)]
      | Some c \<Rightarrow>
          thenE (say ''process'' [Num (p_pid q), Txt (p_name q), Num (icount c)])
          (thenE (say ''regs'' (reg_cells c 0))
          (thenE (say ''regs'' (reg_cells c 4))
          (thenE (say ''eip'' [Num (eip c), Num (flags c), flag_cell (flags c)])
          (thenE (case mem_read (eip c) 8 (mem c) of
               Inr bs \<Rightarrow> say ''bytes'' [Raw bs] | Inl _ \<Rightarrow> say ''no bytes'' [])
          (bindE (ask k_profiling) (\<lambda>on. say ''profiling'' [Txt (if on then ''on'' else ''off'')]))))))))"

definition obj_cells :: "kernel \<Rightarrow> obj \<Rightarrow> cell list" where
  "obj_cells k ob = (case ob of
     ONode i \<Rightarrow> [Txt ''inode'', Num i, Num (case map_of (vnodes (k_fs k)) i of Some v \<Rightarrow> vsize v | None \<Rightarrow> 0)]
   | OPipe n \<Rightarrow> (case k_pipes k n of
       Some x \<Rightarrow> [Txt ''pipe'', Num (int (length (pbuf x))), Num (readers x), Num (writers x)] | None \<Rightarrow> [Txt ''pipe''])
   | OTerminal \<Rightarrow> [Txt ''terminal'']
   | ONull \<Rightarrow> [Txt ''null''])"

definition fd_row :: "kernel \<Rightarrow> proc \<Rightarrow> nat \<Rightarrow> cell list list" where
  "fd_row k q i = (case p_fds q ! i of None \<Rightarrow> [] | Some n \<Rightarrow> (case k_files k n of None \<Rightarrow> [] | Some f \<Rightarrow>
     [[Num (int i)] @ obj_cells k (f_obj f) @ [Num (f_pos f), Num (f_flags f), Num (f_refs f)] @
      (if p_close_on_exec q AND push_bit i 1 \<noteq> 0 then [Txt ''cloexec''] else [])]))"

definition info_fds :: "string list \<Rightarrow> unit mm" where
  "info_fds args =
     bindE (pick_proc args) (\<lambda>r. case r of None \<Rightarrow> ret () | Some q \<Rightarrow>
     thenE (say ''descriptors'' [Num (p_pid q), Txt (p_name q)])
     (bindE (ask (\<lambda>k. concat (map (fd_row k q) [0..<length (p_fds q)]))) (\<lambda>rows.
     if rows = [] then say ''none'' [] else say_rows ''descriptors'' rows)))"

definition mode_names :: "int \<Rightarrow> string list" where
  "mode_names lf = concat (map (\<lambda>(bit, name). if lf AND bit \<noteq> 0 then [name] else [])
     [(ICANON, ''ICANON''), (ECHO, ''ECHO''), (ISIG, ''ISIG''), (ECHOE, ''ECHOE'')])"

definition info_tty :: "unit mm" where
  "info_tty =
     bindE (ask k_tty) (\<lambda>tm. case tm of None \<Rightarrow> say ''no terminal'' [] | Some t \<Rightarrow>
     let (rows, cols) = term_size (tt_term t); cc = (\<lambda>i. uint (c_cc (tt_termios t) ! i)) in
     thenE (say ''terminal'' [Txt (case tt_term t of Scripted _ \<Rightarrow> ''ScriptedTerminal'' | Host _ \<Rightarrow> ''HostTerminal''),
              Txt (if is_tty (tt_term t) then ''interactive'' else ''not interactive''), Num rows, Num cols])
     (thenE (say ''discipline'' (map Txt (mode_names (c_lflag (tt_termios t)))))
     (thenE (say ''group'' [Num (tt_pgrp t), Num (tt_session t)])
     (thenE (say ''pending'' [Num (int (length (tt_ready t))), Num (int (length (tt_line t))),
               Txt (if tt_eof_pending t then ''True'' else ''False'')])
       (say ''c_cc'' [Num (64 + cc VINTR), Num (cc VERASE), Num (64 + cc VEOF)])))))"

definition info_console :: "unit mm" where
  "info_console =
     bindE (ask k_tty) (\<lambda>tm. case tm of None \<Rightarrow> say ''no record'' [] | Some t \<Rightarrow>
     if tt_tail t = [] then say ''no output'' []
     else say ''console'' [Num (int (length (tt_tail t))), Raw (tt_tail t)])"

section \<open>Commands that change the kernel\<close>

definition cmd_kill :: "string list \<Rightarrow> unit mm" where
  "cmd_kill args = (case args of
     [] \<Rightarrow> say ''usage kill'' []
   | a # rest \<Rightarrow>
       (case (py_int a, case rest of [] \<Rightarrow> Some 15 | b # _ \<Rightarrow> py_int b) of
          (Some pid, Some sig) \<Rightarrow>
            bindE (ask (\<lambda>k. map_of (k_procs k) pid)) (\<lambda>r. case r of
              None \<Rightarrow> say ''no process'' [Num pid]
            | Some q \<Rightarrow> thenE (tell (post_signal pid sig)) (say ''signalled'' [Num pid, Txt (p_name q), Num sig]))
        | _ \<Rightarrow> say ''not integers'' []))"

definition TRACE_VERBOSE :: int where "TRACE_VERBOSE = 5000"

definition cmd_trace :: "string list \<Rightarrow> unit mm" where
  "cmd_trace args = (case args of
     [] \<Rightarrow> bindE (ask (\<lambda>k. k)) (\<lambda>k. say ''usage trace'' [Num (k_trace_capacity k), Num (int (length (k_recent k)))])
   | a # rest \<Rightarrow>
       let sub = py_lower a in
       if sub \<in> {''show'', ''list'', ''dump''} then
         (case rest of
            [] \<Rightarrow> show_trace 30
          | b # _ \<Rightarrow> (case py_int b of None \<Rightarrow> say ''bad count'' [Txt b] | Some n \<Rightarrow> show_trace n))
       else if sub = ''on'' then
         (case (case rest of [] \<Rightarrow> Some TRACE_VERBOSE | b # _ \<Rightarrow> py_int b) of
            None \<Rightarrow> say ''bad capacity'' [Txt (hd rest)]
          | Some cap \<Rightarrow>
              thenE (tell (set_trace_capacity cap))
                (bindE (ask k_trace_capacity) (\<lambda>c. say ''capacity'' [Num c])))
       else if sub = ''off'' then
         thenE (tell (set_trace_capacity TRACE_DEFAULT))
           (bindE (ask k_trace_capacity) (\<lambda>c. say ''capacity back'' [Num c]))
       else say ''unknown trace'' [Txt sub])"

definition cmd_prof :: "string list \<Rightarrow> unit mm" where
  "cmd_prof args =
     (let sub = (case args of [] \<Rightarrow> ''show'' | a # _ \<Rightarrow> py_lower a) in
      if sub = ''on'' then thenE (tell (set_profiling True)) (say ''prof on'' [])
      else if sub = ''off'' then thenE (tell (set_profiling False)) (say ''prof off'' [])
      else if sub = ''reset'' then thenE (tell reset_profiling) (say ''prof reset'' [])
      else bindE (ask k_profiling) (\<lambda>on. say ''usage prof'' [Txt (if on then ''on'' else ''off'')]))"

section \<open>Performance of processes\<close>

record perf =
  pe_pid :: int
  pe_name :: string
  pe_icount :: int
  pe_counts :: "(int \<times> int) list"
  pe_prof :: "profiler option"
  pe_state :: string
  pe_alive :: bool

definition or_mark :: "string \<Rightarrow> string" where
  "or_mark s = (if s = [] then ''?'' else s)"

definition live_entry :: "proc \<Rightarrow> perf" where
  "live_entry q = \<lparr>pe_pid = p_pid q, pe_name = or_mark (p_name q), pe_icount = p_utime q,
     pe_counts = p_counts q, pe_prof = prof_of q, pe_state = state_name (p_state q), pe_alive = True\<rparr>"

definition dead_entry :: "proc_perf \<Rightarrow> perf" where
  "dead_entry r = \<lparr>pe_pid = pp_pid r, pe_name = or_mark (pp_name r), pe_icount = pp_icount r,
     pe_counts = pp_counts r, pe_prof = pp_prof r,
     pe_state = ''exit'' @ decimal (drop_bit 8 (pp_exit_code r) AND 0xFF), pe_alive = False\<rparr>"

definition perf_entries :: "kernel \<Rightarrow> perf list" where
  "perf_entries k = map live_entry (filter (\<lambda>q. \<not> p_kernel_task q) (map snd (k_procs k))) @
     map dead_entry (k_history k)"

definition basename :: "string \<Rightarrow> string" where
  "basename path = (if after_slash path = [] then path else after_slash path)"

text \<open>\<open>max(range(8), key=...)\<close>: the first category with the most instructions.\<close>

definition top_category :: "int list \<Rightarrow> nat" where
  "top_category cs = length (takeWhile (\<lambda>x. x \<noteq> Max (set cs)) cs)"

definition CAT_NAMES :: "string list" where
  "CAT_NAMES = [''ALU'', ''MOV'', ''stack'', ''branch'', ''string'', ''muldiv'', ''flag'', ''other'']"

definition top_cells :: "profiler option \<Rightarrow> cell list" where
  "top_cells pr = (case pr of
     None \<Rightarrow> [Txt ''-'']
   | Some p \<Rightarrow> if insns p = 0 then [Txt ''-'']
       else let i = top_category (cat_counts p) in [Txt (CAT_NAMES ! i), Num (cat_counts p ! i), Num (insns p)])"

definition perf_row :: "perf \<Rightarrow> cell list" where
  "perf_row e = [Num (pe_pid e), Txt (basename (pe_name e)), Txt (pe_state e), Num (pe_icount e),
     Num (counter_total (pe_counts e))] @ top_cells (pe_prof e)"

definition render_prof_detail :: "profiler option \<Rightarrow> unit mm" where
  "render_prof_detail pr = (case pr of
     None \<Rightarrow> say ''not sampled'' []
   | Some p \<Rightarrow>
       if insns p = 0 then say ''not sampled'' []
       else
         let total = insns p; cs = cat_counts p; span = push_bit (nat (bucket_shift p)) 1;
             order = sort_key (\<lambda>i. - (cs ! i)) [0..<length CAT_NAMES];
             top = take 10 (sort_key (\<lambda>(b, n). - n) (hot p));
             loads = sum_list (map (\<lambda>i. cs ! nat i) [CAT_MOV, CAT_STACK, CAT_STRING]);
             branches = cs ! nat CAT_BRANCH; strings = cs ! nat CAT_STRING
         in
         thenE (say ''samples'' [Num total])
         (thenE (say_rows ''categories'' (map (\<lambda>i. [Txt (CAT_NAMES ! i), Num (cs ! i)]) (filter (\<lambda>i. cs ! i \<noteq> 0) order)))
         (thenE (say ''hot'' [Num span, Num (int (length top))])
         (thenE (say_rows ''hot'' (map (\<lambda>(b, n). [Num (b * span), Num (b * span + span - 1), Num n]) top))
         (thenE (say ''derived'' [])
         (thenE (say ''memory'' [Num loads, Num total])
         (thenE (say ''branches'' [Num branches, Num total])
           (if strings \<noteq> 0 then say ''rep'' [Num (rep_elems p), Num strings] else ret ()))))))))"

definition profile_of :: "int \<Rightarrow> unit mm" where
  "profile_of pid =
     bindE (ask (\<lambda>k. find (\<lambda>e. pe_pid e = pid) (perf_entries k))) (\<lambda>r. case r of
       None \<Rightarrow> say ''no record'' [Num pid]
     | Some e \<Rightarrow>
         thenE (say ''process'' [Num pid, Txt (pe_name e), Txt (if pe_alive e then ''alive'' else ''gone''), Txt (pe_state e)])
         (thenE (say ''instructions'' [Num (pe_icount e)])
         (thenE (if pe_counts e \<noteq> [] then
                  thenE (say ''calls'' [Num (counter_total (pe_counts e))])
                    (say_rows ''calls'' (map (\<lambda>(nr, n). [Txt (syscall_name nr), Num n])
                       (take 15 (sort_key (\<lambda>(nr, n). - n) (pe_counts e)))))
                else say ''no calls'' [])
           (render_prof_detail (pe_prof e)))))"

definition info_profile_one :: "string \<Rightarrow> unit mm" where
  "info_profile_one s = (case py_int s of None \<Rightarrow> say ''bad pid'' [Txt s] | Some pid \<Rightarrow> profile_of pid)"

definition info_profile :: "string list \<Rightarrow> unit mm" where
  "info_profile args = (case args of
     a # _ \<Rightarrow> info_profile_one a
   | [] \<Rightarrow>
       bindE (ask perf_entries) (\<lambda>es. bindE (ask k_profiling) (\<lambda>on.
       if es = [] then say ''no entries'' []
       else
         thenE (say ''by process'' [Num (int (length (filter pe_alive es))),
                  Num (int (length (filter (\<lambda>e. \<not> pe_alive e) es))), Txt (if on then ''on'' else ''off'')])
         (thenE (say_rows ''by process'' (map perf_row (sort_key (\<lambda>e. - pe_icount e) es)))
           (say ''see one'' [])))))"

fun dump_each :: "perf list \<Rightarrow> int list \<Rightarrow> unit mm" where
  "dump_each [] seen = ret ()"
| "dump_each (e # es) seen =
     (if pe_pid e \<in> set seen then dump_each es seen
      else thenE (say [] []) (thenE (info_profile_one (decimal (pe_pid e))) (dump_each es (pe_pid e # seen))))"

definition dump_profile :: "unit mm" where
  "dump_profile = thenE (info_profile [])
     (bindE (ask perf_entries) (\<lambda>es. dump_each (sort_key (\<lambda>e. - pe_icount e) es) []))"

section \<open>The debugger\<close>

definition debug_proc :: "kernel \<Rightarrow> proc option" where
  "debug_proc k = (case k_debug_target k of
     Some pid \<Rightarrow> (case map_of (k_procs k) pid of Some q \<Rightarrow> Some q | None \<Rightarrow> default_proc k)
   | None \<Rightarrow> default_proc k)"

definition debug_cpu :: "kernel \<Rightarrow> (proc \<times> cpu) option" where
  "debug_cpu k = (case debug_proc k of None \<Rightarrow> None
     | Some q \<Rightarrow> (case p_cpu q of None \<Rightarrow> None | Some c \<Rightarrow> Some (q, c)))"

definition insn_cells :: "int \<times> bytes \<times> string \<Rightarrow> cell list" where
  "insn_cells r = (case r of (a, raw, s) \<Rightarrow> [Num a, Raw raw, Txt s])"

definition cur_insn :: "cpu \<Rightarrow> cell list" where
  "cur_insn c = (case disasm_one (mem c) (eip c) of (len, s, raw) \<Rightarrow> [Num (eip c), Raw raw, Txt s])"

definition marked :: "int \<Rightarrow> int \<times> bytes \<times> string \<Rightarrow> cell list" where
  "marked cur r = Txt (if fst r = cur then ''->'' else '' '') # insn_cells r"

text \<open>The words at the top of the stack, up to the first that cannot be read.\<close>

fun stack_rows :: "'e addrspace \<Rightarrow> int \<Rightarrow> nat \<Rightarrow> cell list list" where
  "stack_rows m a 0 = []"
| "stack_rows m a (Suc n) = (case read_u32 (a AND 0xFFFFFFFF) m of
     Inl _ \<Rightarrow> [] | Inr v \<Rightarrow> [Num (a AND 0xFFFFFFFF), Num v] # stack_rows m (a + 4) n)"

definition render_layout :: "cpu \<Rightarrow> unit mm" where
  "render_layout c =
     thenE (say ''disassembly'' [])
     (thenE (say_rows ''disassembly'' (map (marked (eip c)) (disasm_range (mem c) (eip c) 8)))
     (thenE (say ''registers'' [])
     (thenE (say ''regs'' (reg_cells c 0))
     (thenE (say ''regs'' (reg_cells c 4))
     (thenE (say ''eip'' [Num (eip c), Num (flags c), flag_cell (flags c)])
     (thenE (say ''stack'' [])
       (say_rows ''stack'' (stack_rows (mem c) (regs c ! 4) 6))))))))"

definition print_debug_stop :: "stop_reason \<Rightarrow> unit mm" where
  "print_debug_stop r =
     (let show = (\<lambda>pid. bindE (ask (\<lambda>k. map_of (k_procs k) pid)) (\<lambda>p.
            bindE (gets mn_layout) (\<lambda>lay.
            case p of None \<Rightarrow> ret () | Some q \<Rightarrow> (case p_cpu q of None \<Rightarrow> ret () | Some c \<Rightarrow>
              if lay then render_layout c
              else thenE (say ''insn'' (cur_insn c)) (say ''regs'' (reg_cells c 0 @ reg_cells c 4))))))
      in case r of
        StopBreak pid a \<Rightarrow> thenE (say ''break'' [Num a, Num pid]) (show pid)
      | StopUntil pid a \<Rightarrow> thenE (say ''until'' [Num a, Num pid]) (show pid)
      | StopExited pid code \<Rightarrow> say ''exited'' [Num pid, Num (drop_bit 8 code)]
      | StopBlocked pid ch \<Rightarrow> thenE (say ''blocked'' [Num pid, Wait ch]) (show pid)
      | StopStep pid \<Rightarrow> thenE (say ''step'' [Num pid]) (show pid)
      | StopHalted pid \<Rightarrow> thenE (say ''halted'' [Num pid]) (show pid)
      | StopExecve pid \<Rightarrow> thenE (say ''execve'' [Num pid]) (show pid)
      | StopSigreturn pid \<Rightarrow> thenE (say ''sigreturn'' [Num pid]) (show pid))"

definition set_layout :: "bool \<Rightarrow> unit mm" where
  "set_layout b = modify (\<lambda>m. m\<lparr>mn_layout := b\<rparr>)"

definition cmd_layout :: "string list \<Rightarrow> unit mm" where
  "cmd_layout args =
     (let sub = (case args of [] \<Rightarrow> ''toggle'' | a # _ \<Rightarrow> py_lower a) in
      if sub \<in> {''off'', ''none'', ''0'', ''no''} then thenE (set_layout False) (say ''layout off'' [])
      else
        thenE (if sub \<in> {''on'', ''asm'', ''1'', ''yes''} then set_layout True
               else bindE (gets mn_layout) (\<lambda>b. set_layout (\<not> b)))
        (bindE (gets mn_layout) (\<lambda>b.
         if \<not> b then say ''layout off'' []
         else thenE (say ''layout on'' []) (bindE (ask debug_cpu) (\<lambda>r. case r of
           None \<Rightarrow> ret () | Some (q, c) \<Rightarrow> render_layout c)))))"

definition cmd_step :: "string list \<Rightarrow> bool mm" where
  "cmd_step args =
     bindE (ask debug_cpu) (\<lambda>r. case r of
       None \<Rightarrow> thenE (say ''nothing to step'' []) (ret False)
     | Some (q, c) \<Rightarrow>
         if p_state q \<noteq> RUNNING
         then thenE (say ''not runnable'' [Num (p_pid q), Txt (state_name (p_state q))]) (ret False)
         else (case (case args of [] \<Rightarrow> Some 1 | a # _ \<Rightarrow> map_option (\<lambda>n. max n 1) (py_int a)) of
             None \<Rightarrow> thenE (say ''bad steps'' [Txt (hd args)]) (ret False)
           | Some n \<Rightarrow> thenE (tell (modify (\<lambda>k. k\<lparr>k_step_request := n\<rparr>))) (ret True)))"

text \<open>\<open>_parse_addr\<close>: a number or a register.\<close>

definition parse_addr :: "string \<Rightarrow> proc option \<Rightarrow> int option mm" where
  "parse_addr tok p =
     (let tok = py_strip tok; name = (if take 1 tok = ''$'' then drop 1 tok else tok);
          name = (if name = ''eip'' \<or> name = ''pc'' then ''_eip'' else name) in
      if name = ''_eip'' \<or> name \<in> set REG32_NAMES then
        (case p of
           None \<Rightarrow> thenE (say ''no registers'' []) (ret None)
         | Some q \<Rightarrow> (case p_cpu q of
             None \<Rightarrow> thenE (say ''no registers'' []) (ret None)
           | Some c \<Rightarrow> ret (Some (if name = ''_eip'' then eip c
               else regs c ! length (takeWhile (\<lambda>n. n \<noteq> name) REG32_NAMES)))))
      else (case py_int0 tok of
          Some v \<Rightarrow> ret (Some (v AND 0xFFFFFFFF))
        | None \<Rightarrow> thenE (say ''bad address'' [Txt tok]) (ret None)))"

definition set_last_addr :: "int \<Rightarrow> unit mm" where
  "set_last_addr a = modify (\<lambda>m. m\<lparr>mn_last_addr := Some a\<rparr>)"

definition after_row :: "int \<times> bytes \<times> string \<Rightarrow> int" where
  "after_row r = (fst r + int (length (fst (snd r)))) AND 0xFFFFFFFF"

definition cmd_disas :: "string list \<Rightarrow> unit mm" where
  "cmd_disas args =
     bindE (ask debug_cpu) (\<lambda>r. case r of
       None \<Rightarrow> say ''nothing to disassemble'' []
     | Some (q, c) \<Rightarrow>
         let counted = (length args \<ge> 2 \<and> take 2 (last args) \<noteq> ''0x'' \<and> py_isdigit (last args));
             count = (if counted then (case py_int (last args) of Some n \<Rightarrow> n | None \<Rightarrow> 8) else 8);
             rest = (if counted then butlast args else args) in
         bindE (gets mn_last_addr) (\<lambda>prev.
         bindE (case rest of
             t # _ \<Rightarrow> parse_addr t (Some q)
           | [] \<Rightarrow> ret (Some (case prev of Some a \<Rightarrow> a | None \<Rightarrow> eip c)))
           (\<lambda>a. case a of
              None \<Rightarrow> ret ()
            | Some a \<Rightarrow>
                let rows = disasm_range (mem c) a count in
                thenE (say_rows ''disas'' (map (marked (eip c)) rows))
                  (if rows = [] then ret () else set_last_addr (after_row (last rows))))))"

definition repr_char :: "int \<Rightarrow> string" where
  "repr_char v =
     (let c = (char_of (nat (v AND 0xFF)) :: char); n = v AND 0xFF in
      if n = 39 then [CHR 0x22, c, CHR 0x22]
      else [CHR 0x27] @
        (if n = 92 then [c, c] else if n = 9 then [CHR 0x5C, CHR ''t'']
         else if n = 10 then [CHR 0x5C, CHR ''n''] else if n = 13 then [CHR 0x5C, CHR ''r'']
         else if 32 \<le> n \<and> n < 127 \<or> 161 \<le> n \<and> n \<noteq> 173 then [c]
         else [CHR 0x5C, CHR ''x'', hex_char (nat n div 16), hex_char (nat n mod 16)]) @ [CHR 0x27])"

definition hex_padded :: "nat \<Rightarrow> int \<Rightarrow> string" where
  "hex_padded w v = (let s = hex_text (nat v) in replicate (w - length s) CHR ''0'' @ s)"

definition fmt_unit :: "int \<Rightarrow> char \<Rightarrow> nat \<Rightarrow> string" where
  "fmt_unit v fmt sz =
     (if fmt = CHR ''d'' then
        decimal (if v AND push_bit (sz * 8 - 1) 1 \<noteq> 0 then v - push_bit (sz * 8) 1 else v)
      else if fmt = CHR ''u'' then decimal v
      else if fmt = CHR ''c'' then repr_char v
      else ''0x'' @ hex_padded (sz * 2) v)"

text \<open>The specification after \<open>x/\<close>: a later letter replaces an earlier one.\<close>

fun spec_letters :: "string \<Rightarrow> char \<Rightarrow> char \<Rightarrow> char \<times> char" where
  "spec_letters [] fmt unt = (fmt, unt)"
| "spec_letters (c # cs) fmt unt =
     (if c \<in> set ''xduci'' then spec_letters cs c unt
      else if c \<in> set ''bhw'' then spec_letters cs fmt c
      else spec_letters cs fmt unt)"

definition spec_count :: "string \<Rightarrow> int" where
  "spec_count s = (case py_int (filter py_digit s) of Some n \<Rightarrow> n | None \<Rightarrow> 1)"

definition read_unit :: "nat \<Rightarrow> int \<Rightarrow> 'e addrspace \<Rightarrow> exn + int" where
  "read_unit sz a m = (if sz = 1 then read_u8 a m else if sz = 2 then read_u16 a m else read_u32 a m)"

definition unit_text :: "nat \<Rightarrow> char \<Rightarrow> 'e addrspace \<Rightarrow> int \<Rightarrow> string" where
  "unit_text sz fmt m a = (case read_unit sz (a AND 0xFFFFFFFF) m of
     Inl _ \<Rightarrow> ''<out of range>'' | Inr v \<Rightarrow> fmt_unit v fmt sz)"

definition dump_row :: "int \<Rightarrow> nat \<Rightarrow> string list \<Rightarrow> nat \<Rightarrow> cell list" where
  "dump_row addr sz vals j =
     (let per = 16 div sz in
      Num ((addr + int (j * per) * int sz) AND 0xFFFFFFFF) # map Txt (take per (drop (j * per) vals)))"

definition cmd_x :: "string list \<Rightarrow> unit mm" where
  "cmd_x args =
     bindE (ask debug_cpu) (\<lambda>r. case r of
       None \<Rightarrow> say ''no process'' []
     | Some (q, c) \<Rightarrow>
         let spec = (case args of a # _ \<Rightarrow> if take 1 a = ''/'' then Some (drop 1 a) else None | [] \<Rightarrow> None);
             rest = (if spec = None then args else tl args);
             count = (case spec of None \<Rightarrow> 1 | Some s \<Rightarrow> spec_count s);
             (fmt, unt) = (case spec of None \<Rightarrow> (CHR ''x'', CHR ''w'') | Some s \<Rightarrow> spec_letters s CHR ''x'' CHR ''w'')
         in
         bindE (gets mn_last_addr) (\<lambda>prev.
         bindE (case rest of t # _ \<Rightarrow> parse_addr t (Some q) | [] \<Rightarrow> ret prev) (\<lambda>a. case a of
           None \<Rightarrow> say ''usage x'' []
         | Some addr \<Rightarrow>
             if fmt = CHR ''i'' then
               let rows = disasm_range (mem c) addr count in
               thenE (say_rows ''x'' (map insn_cells rows))
                 (set_last_addr (if rows = [] then addr else after_row (last rows)))
             else
               let sz = (if unt = CHR ''b'' then 1 else if unt = CHR ''h'' then 2 else 4);
                   vals = map (\<lambda>i. unit_text sz fmt (mem c) (addr + int i * int sz)) [0..<nat count];
                   per = 16 div sz in
               thenE (say_rows ''x'' (map (dump_row addr sz vals) [0..<(length vals + per - 1) div per]))
                 (set_last_addr ((addr + count * int sz) AND 0xFFFFFFFF)))))"

definition cmd_break :: "string list \<Rightarrow> unit mm" where
  "cmd_break args =
     bindE (ask k_breakpoints) (\<lambda>bps. bindE (ask debug_proc) (\<lambda>p.
     case args of
       [] \<Rightarrow> if bps = [] then say ''no breakpoints'' [] else say ''breakpoints'' (map Num (sort bps))
     | a # rest \<Rightarrow>
         if a = ''list'' \<or> a = ''ls'' then
           (if bps = [] then say ''no breakpoints'' [] else say ''breakpoints'' (map Num (sort bps)))
         else if a \<in> {''del'', ''delete'', ''d'', ''clear''} then
           (case rest of
              [] \<Rightarrow> ret ()
            | b # _ \<Rightarrow>
                if b = ''all'' then thenE (tell (modify (\<lambda>k. k\<lparr>k_breakpoints := []\<rparr>))) (say ''all deleted'' [])
                else bindE (parse_addr b p) (\<lambda>r. case r of None \<Rightarrow> ret () | Some x \<Rightarrow>
                  thenE (tell (modify (\<lambda>k. k\<lparr>k_breakpoints := removeAll x (k_breakpoints k)\<rparr>)))
                    (say ''deleted'' [Num x])))
         else bindE (parse_addr a p) (\<lambda>r. case r of None \<Rightarrow> ret () | Some x \<Rightarrow>
           thenE (tell (modify (\<lambda>k. k\<lparr>k_breakpoints := List.insert x (k_breakpoints k)\<rparr>)))
             (say ''set'' [Num x]))))"

definition cmd_until :: "string list \<Rightarrow> bool mm" where
  "cmd_until args =
     bindE (ask debug_proc) (\<lambda>p. case args of
       [] \<Rightarrow> thenE (say ''usage until'' []) (ret False)
     | a # _ \<Rightarrow> bindE (parse_addr a p) (\<lambda>r. case r of
         None \<Rightarrow> ret False
       | Some x \<Rightarrow>
           thenE (tell (modify (\<lambda>k. k\<lparr>k_temp_breakpoints := List.insert x (k_temp_breakpoints k)\<rparr>))) (ret True)))"

section \<open>The command loop\<close>

text \<open>\<open>info trace n\<close> calls \<open>int\<close> on a word that only looks like a number: \<open>--5\<close> raises.\<close>

definition info_trace :: "string list \<Rightarrow> unit mm" where
  "info_trace args = (case args of
     a # _ \<Rightarrow>
       if py_isdigit (dropWhile (\<lambda>c. c = CHR ''-'') a)
       then (case py_int a of Some n \<Rightarrow> show_trace n | None \<Rightarrow> raise ValueError)
       else show_trace 30
   | [] \<Rightarrow> show_trace 30)"

definition cmd_info :: "string list \<Rightarrow> unit mm" where
  "cmd_info args = (case args of
     [] \<Rightarrow> say ''usage info'' []
   | a # rest \<Rightarrow>
       let what = py_lower a in
       if what \<in> {''procs'', ''proc''} then info_procs
       else if what \<in> {''mem'', ''memory''} then info_mem
       else if what = ''fs'' then info_fs 40
       else if what \<in> {''syscalls'', ''syscall''} then info_syscalls
       else if what \<in> {''cpu'', ''regs''} then info_cpu rest
       else if what \<in> {''fds'', ''fd''} then info_fds rest
       else if what = ''tty'' then info_tty
       else if what \<in> {''profile'', ''prof''} then info_profile rest
       else if what = ''console'' then info_console
       else if what = ''trace'' then info_trace rest
       else say ''unknown info'' [Txt what])"

definition stay :: "unit mm \<Rightarrow> bool mm" where
  "stay f = thenE f (ret False)"

definition LEAVING :: "string list" where
  "LEAVING = [''cont'', ''c'', ''continue'', ''quit'', ''q'', ''exit'']"

definition run_command :: "string \<Rightarrow> string list \<Rightarrow> bool mm" where
  "run_command cmd args =
     (if cmd \<in> {''cont'', ''c'', ''continue''} then thenE (say ''continuing'' []) (ret True)
      else if cmd \<in> {''quit'', ''q'', ''exit''} then
        thenE (tell (modify (\<lambda>k. k\<lparr>k_quit := True\<rparr>))) (thenE (say ''stopping'' []) (ret True))
      else if cmd \<in> {''help'', ''h'', ''?''} then stay (say ''help'' [])
      else if cmd = ''info'' then stay (cmd_info args)
      else if cmd = ''ps'' then stay info_procs
      else if cmd = ''regs'' then stay (info_cpu args)
      else if cmd = ''kill'' then stay (cmd_kill args)
      else if cmd = ''trace'' then stay (cmd_trace args)
      else if cmd = ''prof'' then stay (cmd_prof args)
      else if cmd \<in> {''si'', ''stepi'', ''step'', ''s''} then cmd_step args
      else if cmd \<in> {''disas'', ''disassemble'', ''u''} then stay (cmd_disas args)
      else if cmd = ''x'' then stay (cmd_x args)
      else if take 2 cmd = ''x/'' then stay (cmd_x (drop 1 cmd # args))
      else if cmd \<in> {''break'', ''b'', ''bp''} then stay (cmd_break args)
      else if cmd = ''until'' then cmd_until args
      else if cmd \<in> {''layout'', ''lay''} then stay (cmd_layout args)
      else stay (say ''unknown command'' [Txt cmd]))"

text \<open>\<open>dispatch\<close>: true when the session is over. An empty line repeats the last command.\<close>

definition mon_dispatch :: "string \<Rightarrow> bool mm" where
  "mon_dispatch line =
     bindE (gets mn_last_cmd) (\<lambda>prev.
     let line = (if line = [] then prev else line) in
     if line = [] then ret False
     else case split_words line of
       [] \<Rightarrow> raise IndexError
     | w # args \<Rightarrow>
         let cmd = py_lower w in
         thenE (if cmd \<notin> set LEAVING then modify (\<lambda>m. m\<lparr>mn_last_cmd := line\<rparr>) else ret ())
           (run_command cmd args))"

text \<open>A session reads the lines of its input; at their end \<open>read_line\<close> returns \<open>None\<close>.\<close>

fun mon_loop :: "string list \<Rightarrow> unit mm" where
  "mon_loop [] = ret ()"
| "mon_loop (line # rest) =
     bindE (mon_dispatch (py_strip line)) (\<lambda>leave. if leave then ret () else mon_loop rest)"

definition interact :: "string list \<Rightarrow> unit mm" where
  "interact input =
     bindE (ask k_debug_stop) (\<lambda>st.
     thenE (case st of
         Some r \<Rightarrow> thenE (print_debug_stop r) (tell (modify (\<lambda>k. k\<lparr>k_debug_stop := None\<rparr>)))
       | None \<Rightarrow> thenE (say [] []) (say ''welcome'' []))
       (mon_loop input))"

end
