(* ===== verification/Kmonitor_Keeps.thy ===== *)
theory Kmonitor_Keeps
  imports Kernel_Exit Kmonitor
begin

text \<open>
  What a session of the monitor keeps: the invariant of the kernel, for every line that is typed,
  also when a command raises.
\<close>

section \<open>The report of the changes\<close>

lemma sim_enter_keeps: "gives (sim fs s) (enter_child ino path t) (\<lambda>_. True)"
  unfolding gives_def
proof (intro allI impI)
  fix u
  assume u: "sim fs s u"
  have vn: "gives (sim fs s) (bindE (vn i) (\<lambda>v. ret (if v_is_dir v
      then t\<lparr>tr_seen := ino # tr_seen t, tr_dirs := (ino, path) # tr_dirs t, tr_stack := (path, i) # tr_stack t\<rparr>
      else t))) (\<lambda>_. True)" for i
    by (intro gives_bindE [OF sim_vn] gives_ret TrueI)
  note g = givesD [OF sim_get u, of ino]
  show "sim fs s (snd (enter_child ino path t u)) \<and> (\<forall>x. fst (enter_child ino path t u) = Inr x \<longrightarrow> True)"
  proof (cases "get ino u")
    case (Pair r u')
    then have u': "sim fs s u'" using g by simp
    show ?thesis using u givesD [OF vn u'] Pair by (cases r) (auto simp: enter_child_def u' split: exn.splits)
  qed
qed

lemma sim_entries_keep: "gives (sim fs s) (tree_entries ch prefix es t) (\<lambda>_. True)"
proof (induction ch prefix es t rule: tree_entries.induct)
  case (1 ch prefix t)
  show ?case by (simp add: gives_ret)
next
  case (2 ch prefix ino name es t)
  show ?case
    unfolding tree_entries.simps Let_def
    by (intro gives_if gives_bindE [OF sim_enter_keeps] 2) auto
qed

lemma sim_walk_keeps: "sim fs s u \<Longrightarrow> sim fs s (snd (walk_tree ch t u))"
proof (induction ch t u rule: walk_tree.induct)
  case (1 ch t u)
  show ?case
  proof (cases "tr_stack t")
    case Nil
    with 1(3) show ?thesis by (simp add: walk_tree.simps [of ch t u])
  next
    case (Cons x rest)
    obtain prefix d where x: "x = (prefix, d)" by (cases x)
    obtain r u' where l: "list_dir d u = (r, u')" by fastforce
    have u': "sim fs s u'" using 1(3) list_dir_state [OF l] by simp
    show ?thesis
    proof (cases r)
      case (Inl e)
      with 1(1) [OF Cons x [symmetric] l [symmetric] Inl _ u'] u' Cons x l show ?thesis
        by (auto simp: walk_tree.simps [of ch t u])
    next
      case (Inr es)
      obtain q w where sc: "tree_entries ch prefix es (t\<lparr>tr_stack := rest\<rparr>) u' = (q, w)" by fastforce
      then have w: "sim fs s w" using givesD [OF sim_entries_keep u'] by (metis snd_conv)
      show ?thesis
      proof (cases q)
        case (Inl e)
        with w Cons x l sc Inr show ?thesis by (simp add: walk_tree.simps [of ch t u])
      next
        case q: (Inr t')
        with 1(2) [OF Cons x [symmetric] l [symmetric] Inr sc [symmetric] q w] Cons x l sc Inr show ?thesis
          by (simp add: walk_tree.simps [of ch t u])
      qed
    qed
  qed
qed

lemma sim_rows_keep: "gives (sim fs s) (changed_rows t cs) (\<lambda>_. True)"
proof (induction cs)
  case (Cons c cs)
  have "gives (sim fs s) (changed_row t c) (\<lambda>_. True)"
    unfolding changed_row_def split_beta
    by (intro gives_bindE [OF gives_gets [where R = "\<lambda>_. True"]] gives_bindE [OF sim_vn] gives_ret TrueI)
  then show ?case
    unfolding changed_rows.simps by (rule gives_bindE) (intro gives_bindE [OF Cons] gives_ret TrueI)
qed (simp add: gives_ret)

lemma sim_changed_paths: "gives (sim fs s) changed_paths (\<lambda>_. True)"
proof -
  have "gives (sim fs s) (walk_tree ch t) (\<lambda>_. True)" for ch t
    by (simp add: gives_def sim_walk_keeps)
  then show ?thesis
    unfolding changed_paths_def
    by (intro gives_bindE [OF gives_gets [where R = "\<lambda>_. True"]] gives_if gives_ret sim_rows_keep TrueI)
      (rule gives_bindE, assumption, rule sim_rows_keep)
qed

lemma gives_changed_paths: "gives (ov_inv fs) changed_paths (\<lambda>_. True)"
  using sim_changed_paths unfolding gives_def by (metis sim_def sim_refl)

section \<open>Switching the profilers\<close>

lemma map_of_map_snd: "map_of (map (\<lambda>(i, q). (i, f q)) xs) i = map_option f (map_of xs i)"
  by (induction xs) auto

lemma kinv_map_procs:
  assumes k: "kinv fs X None k"
    and f: "\<And>q. p_pid (f q) = p_pid q" "\<And>q. p_fds (f q) = p_fds q" "\<And>q. p_state (f q) = p_state q"
      "\<And>q. p_kernel_task (f q) = p_kernel_task q" "\<And>q. p_sigactions (f q) = p_sigactions q"
      "\<And>q. p_cpu (f q) = None \<longleftrightarrow> p_cpu q = None"
  shows "kinv fs X None (k\<lparr>k_procs := map (\<lambda>(i, q). (i, f q)) (k_procs k)\<rparr>)"
proof -
  have u: "uses (map (\<lambda>(i, q). (i, f q)) (k_procs k)) = uses (k_procs k)"
    by (rule uses_map) (simp add: f)
  have keys: "map fst (map (\<lambda>(i, q). (i, f q)) (k_procs k)) = map fst (k_procs k)"
    by (simp add: case_prod_beta o_def)
  have ok: "proc_ok i (f q) = proc_ok i q" "settled rq i (f q) = settled rq i q" for i rq q
    using f(6) [of q] by (auto simp: proc_ok_def settled_def f)
  have "ptable_ok X (map (\<lambda>(i, q). (i, f q)) (k_procs k)) (k_runq k) (k_next_pid k)"
    using k unfolding kinv_def kernel_ok_def ptable_ok_def keys
    by (auto simp: map_of_map_snd ok simp del: map_map map_of_eq_Some_iff)
  then show ?thesis
    using k unfolding kinv_def kernel_ok_def by (auto simp: u elim!: balanced_same)
qed

lemma gives_set_profiling: "gives (kinv fs X None) (set_profiling b) (\<lambda>_. True)"
  unfolding set_profiling_def
proof (intro gives_modify TrueI)
  fix k
  assume "kinv fs X None k"
  then have "kinv fs X None (k\<lparr>k_profiling := b\<rparr>)" by simp
  then have "kinv fs X None (k\<lparr>k_profiling := b,
      k_procs := map (\<lambda>(i, q). (i, switch_profiling b q)) (k_procs (k\<lparr>k_profiling := b\<rparr>))\<rparr>)"
    by (rule kinv_map_procs) (simp_all add: switch_profiling_def split: option.split)
  then show "kinv fs X None (k\<lparr>k_profiling := b, k_procs := map (\<lambda>(i, q). (i, switch_profiling b q)) (k_procs k)\<rparr>)"
    by simp
qed

lemma gives_reset_profiling: "gives (kinv fs X None) reset_profiling (\<lambda>_. True)"
  unfolding reset_profiling_def
  by (intro gives_modify TrueI kinv_map_procs) (simp_all add: reset_prof_def)

lemma gives_set_trace_capacity: "gives (kinv fs X A) (set_trace_capacity n) (\<lambda>_. True)"
  unfolding set_trace_capacity_def by (intro gives_modify TrueI) (simp add: Let_def)

section \<open>Every command\<close>

text \<open>An assertion on the kernel, seen from the monitor.\<close>

definition on_kernel :: "(kernel \<Rightarrow> bool) \<Rightarrow> monitor \<Rightarrow> bool" where
  "on_kernel J m \<longleftrightarrow> J (mn_k m)"

definition mon_inv :: "minixfs \<Rightarrow> monitor \<Rightarrow> bool" where
  "mon_inv fs = on_kernel (kinv fs {} None)"

lemma mon_say: "gives (on_kernel J) (say key args) (\<lambda>_. True)"
  by (simp add: say_def gives_def modify_def on_kernel_def)

lemma mon_say_rows: "gives (on_kernel J) (say_rows key rows) (\<lambda>_. True)"
  by (simp add: say_rows_def gives_def modify_def on_kernel_def)

lemma mon_ask: "gives (on_kernel J) (ask f) (\<lambda>_. True)"
  by (simp add: ask_def gives_def gets_def)

lemma mon_gets: "gives (on_kernel J) (gets f) (\<lambda>_. True)"
  by (simp add: gives_def gets_def)

lemma mon_tell: "gives J f (\<lambda>_. True) \<Longrightarrow> gives (on_kernel J) (tell f) (\<lambda>_. True)"
  by (auto simp: tell_def gives_def on_kernel_def split: prod.splits)

lemma mon_tell_modify:
  "(\<And>k. J k \<Longrightarrow> J (f k)) \<Longrightarrow> gives (on_kernel J) (tell (modify f)) (\<lambda>_. True)"
  by (rule mon_tell) (simp add: gives_def modify_def)

lemma mon_modify: "(\<And>m. mn_k (f m) = mn_k m) \<Longrightarrow> gives (on_kernel J) (modify f) (\<lambda>_. True)"
  by (simp add: gives_def modify_def on_kernel_def)

lemma mon_bind: "gives I m (\<lambda>_. True) \<Longrightarrow> (\<And>x. gives I (f x) (\<lambda>_. True)) \<Longrightarrow> gives I (bindE m f) (\<lambda>_. True)"
  by (rule gives_bindE)

lemma mon_then: "gives I m (\<lambda>_. True) \<Longrightarrow> gives I n (\<lambda>_. True) \<Longrightarrow> gives I (thenE m n) (\<lambda>_. True)"
  by (rule gives_thenE)

lemma mon_ret: "gives I (ret x) (\<lambda>_. True)"
  by (simp add: gives_ret)

lemma mon_split: "(\<And>x y. gives I (f x y) (\<lambda>_. True)) \<Longrightarrow> gives I (case p of (x, y) \<Rightarrow> f x y) (\<lambda>_. True)"
  by (cases p) simp

lemma mon_list: "gives I m (\<lambda>_. True) \<Longrightarrow> (\<And>x xs. gives I (f x xs) (\<lambda>_. True)) \<Longrightarrow>
    gives I (case l of [] \<Rightarrow> m | x # xs \<Rightarrow> f x xs) (\<lambda>_. True)"
  by (cases l) simp_all

lemma mon_if: "gives I m (\<lambda>_. True) \<Longrightarrow> gives I n (\<lambda>_. True) \<Longrightarrow> gives I (if b then m else n) (\<lambda>_. True)"
  by simp

lemma mon_option: "gives I m (\<lambda>_. True) \<Longrightarrow> (\<And>x. gives I (f x) (\<lambda>_. True)) \<Longrightarrow>
    gives I (case r of None \<Rightarrow> m | Some x \<Rightarrow> f x) (\<lambda>_. True)"
  by (cases r) simp_all

lemma mon_sum: "(\<And>x. gives I (f x) (\<lambda>_. True)) \<Longrightarrow> (\<And>x. gives I (g x) (\<lambda>_. True)) \<Longrightarrow>
    gives I (case r of Inl x \<Rightarrow> f x | Inr x \<Rightarrow> g x) (\<lambda>_. True)"
  by (cases r) simp_all

lemma mon_liftR: "gives I (liftR r) (\<lambda>_. True)"
  by (simp add: gives_liftR)

lemmas mon_rules = mon_say mon_say_rows mon_ask mon_gets mon_ret mon_then mon_bind mon_split mon_list mon_if
  mon_option mon_sum mon_liftR gives_raise

lemma mon_pick_proc: "gives (on_kernel J) (pick_proc args) (\<lambda>_. True)"
  unfolding pick_proc_def by (intro mon_rules)

lemma mon_show_trace: "gives (on_kernel J) (show_trace n) (\<lambda>_. True)"
  unfolding show_trace_def Let_def by (intro mon_rules)

lemma mon_render_layout: "gives (on_kernel J) (render_layout c) (\<lambda>_. True)"
  unfolding render_layout_def by (intro mon_rules)

lemma mon_parse_addr: "gives (on_kernel J) (parse_addr tok p) (\<lambda>_. True)"
  unfolding parse_addr_def Let_def by (intro mon_rules)

lemma mon_profile_of: "gives (on_kernel J) (profile_of pid) (\<lambda>_. True)"
  unfolding profile_of_def render_prof_detail_def Let_def by (intro mon_rules)

lemmas mon_parts = mon_rules mon_pick_proc mon_show_trace mon_render_layout mon_parse_addr mon_profile_of

lemma mon_set_last_addr: "gives (on_kernel J) (set_last_addr a) (\<lambda>_. True)"
  unfolding set_last_addr_def by (rule mon_modify) simp

lemma mon_set_layout: "gives (on_kernel J) (set_layout b) (\<lambda>_. True)"
  unfolding set_layout_def by (rule mon_modify) simp

lemma mon_infos:
  "gives (on_kernel J) info_procs (\<lambda>_. True)" "gives (on_kernel J) info_mem (\<lambda>_. True)"
  "gives (on_kernel J) info_syscalls (\<lambda>_. True)" "gives (on_kernel J) (info_cpu args) (\<lambda>_. True)"
  "gives (on_kernel J) (info_fds args) (\<lambda>_. True)" "gives (on_kernel J) info_tty (\<lambda>_. True)"
  "gives (on_kernel J) (info_profile args) (\<lambda>_. True)" "gives (on_kernel J) info_console (\<lambda>_. True)"
  "gives (on_kernel J) (info_trace args) (\<lambda>_. True)"
  unfolding info_procs_def info_mem_def info_syscalls_def info_cpu_def info_fds_def info_tty_def info_profile_def
    info_profile_one_def info_console_def info_trace_def Let_def
  by (intro mon_parts)+

lemma mon_info_fs: "gives J (in_fs changed_paths) (\<lambda>_. True) \<Longrightarrow> gives (on_kernel J) (info_fs n) (\<lambda>_. True)"
  unfolding info_fs_def by (intro mon_parts mon_tell)

lemma mon_cmd_info: "gives J (in_fs changed_paths) (\<lambda>_. True) \<Longrightarrow> gives (on_kernel J) (cmd_info args) (\<lambda>_. True)"
  unfolding cmd_info_def Let_def by (intro mon_parts mon_infos mon_info_fs)

lemma mon_views:
  "gives (on_kernel J) (cmd_disas args) (\<lambda>_. True)" "gives (on_kernel J) (cmd_x args) (\<lambda>_. True)"
  "gives (on_kernel J) (cmd_layout args) (\<lambda>_. True)"
  unfolding cmd_disas_def cmd_x_def cmd_layout_def Let_def
  by (intro mon_parts mon_set_last_addr mon_set_layout)+

lemma mon_commands:
  "gives (mon_inv fs) (cmd_trace args) (\<lambda>_. True)" "gives (mon_inv fs) (cmd_prof args) (\<lambda>_. True)"
  "gives (mon_inv fs) (cmd_kill args) (\<lambda>_. True)" "gives (mon_inv fs) (cmd_step args) (\<lambda>_. True)"
  "gives (mon_inv fs) (cmd_break args) (\<lambda>_. True)" "gives (mon_inv fs) (cmd_until args) (\<lambda>_. True)"
  unfolding cmd_trace_def cmd_prof_def cmd_kill_def cmd_step_def cmd_break_def cmd_until_def Let_def mon_inv_def
  by (intro mon_parts mon_tell gives_set_trace_capacity gives_set_profiling
      gives_reset_profiling gives_post_signal mon_tell_modify; simp)+

lemma mon_run_command: "gives (mon_inv fs) (run_command cmd args) (\<lambda>_. True)"
  unfolding run_command_def stay_def mon_inv_def
  by (intro mon_parts mon_infos mon_cmd_info gives_in_fs gives_changed_paths mon_views
      mon_commands [unfolded mon_inv_def] mon_tell_modify; simp)

lemma mon_dispatch_keeps: "gives (mon_inv fs) (mon_dispatch line) (\<lambda>_. True)"
  unfolding mon_dispatch_def Let_def mon_inv_def
  by (intro mon_parts mon_run_command [unfolded mon_inv_def] mon_modify; simp)

lemma mon_loop_keeps: "gives (mon_inv fs) (mon_loop input) (\<lambda>_. True)"
  by (induction input) (auto intro: mon_bind mon_if mon_ret mon_dispatch_keeps)

lemma mon_print_debug_stop: "gives (on_kernel J) (print_debug_stop r) (\<lambda>_. True)"
  unfolding print_debug_stop_def Let_def by (cases r; simp only: stop_reason.case) (intro mon_parts)+

lemma interact_keeps: "gives (mon_inv fs) (interact input) (\<lambda>_. True)"
  unfolding interact_def mon_inv_def
  by (intro mon_parts mon_print_debug_stop mon_loop_keeps [unfolded mon_inv_def] mon_tell_modify; simp)

end
