(* ===== verification/Kernel_Loop.thy ===== *)
theory Kernel_Loop
  imports Kernel_Boot Kmonitor_Keeps Cpu_Frame
begin

text \<open>
  The scheduler keeps the invariant of \<open>Kernel_Inv\<close>: the pick from the run queue, a slice with
  the system calls made in it, what follows the slice, and the work between slices. The states
  a system reaches from its boot (\<open>reachable\<close>) all satisfy it.
\<close>

section \<open>A slice\<close>

lemma kinv_inactive: "kinv fs X A k \<Longrightarrow> kinv fs X None k"
  by (simp add: kinv_def)

lemma kinv_park:
  assumes "owner (kinv fs X (Some p)) c"
  shows "kinv fs X (Some p) (park p c)"
proof -
  let ?k = "cpu.more c"
  have k: "kinv fs X (Some p) ?k" using assms by (simp add: owner_def)
  then obtain q where q: "map_of (k_procs ?k) p = Some q" "p_state q = RUNNING" "p_cpu q \<noteq> None"
    by (auto simp: kinv_def active_def)
  then show ?thesis
    unfolding park_def using kinv_proc [OF k q(1)] kinv_settled [OF k q(1)]
    by (intro kinv_map_entry [OF k q(1)]) (auto simp: proc_ok_def settled_def)
qed

lemma more_unpark [simp]: "cpu.more (unpark p k c) = k"
  by (simp add: unpark_def cpu.defs split: option.split)

lemma more_set_rg [simp]: "cpu.more (set_rg r v c) = cpu.more c"
  by (simp add: set_rg_def)

lemma int_keeps: "upholds (owner (kinv fs {} (Some p))) (Some on_int_k)"
proof -
  let ?J = "kinv fs {} (Some p)"
  have "owner ?J (snd (on_int_k vec c))" if c: "owner ?J c" for vec and c :: "kernel cpu_scheme"
  proof (cases "vec = 0x80")
    case True
    have cur: "k_current (cpu.more c) = Some p" using c by (simp add: owner_def kinv_def active_def)
    obtain r k where s: "syscall p (rg EAX c) (rg EBX c) (rg ECX c) (rg EDX c) (park p c) = (r, k)" by fastforce
    then have "?J k" using gives_keeps [OF gives_syscall kinv_park [OF c]] by (metis snd_conv)
    with s cur True show ?thesis
      by (auto simp: on_int_k_def owner_def split: sum.split exn.split)
  qed (use c in \<open>simp add: on_int_k_def\<close>)
  then show ?thesis by (simp add: upholds_def gives_def)
qed

lemma fault_keeps: "upholds (owner J) (Some on_fault_k)"
  by (simp add: upholds_def on_fault_k_def gives_def raise_def)

lemmas run_keeps = owner_run [OF int_keeps fault_keeps]

lemma gives_debug_check: "gives (kinv fs X A) (debug_check pid pinned a) (\<lambda>_. True)"
  unfolding debug_check_def debug_break_def Let_def
  by (intro gives_bindE [OF gives_gets [where R = "\<lambda>_. True"]] gives_thenE gives_if gives_modify gives_ret TrueI; simp)

lemma debug_loop_keeps:
  "owner (kinv fs {} (Some p)) c \<Longrightarrow> owner (kinv fs {} (Some p)) (snd (debug_loop pid pinned n c))"
proof (induction n arbitrary: c)
  case (Suc n)
  let ?J = "kinv fs {} (Some p)"
  obtain r c1 where c1: "run (Some on_int_k) (Some on_fault_k) 1 c = (r, c1)" by fastforce
  then have J1: "owner ?J c1" using run_keeps [OF Suc.prems] by (metis snd_conv)
  obtain b c2 where c2: "in_kernel (debug_check pid pinned (eip c1)) c1 = (b, c2)" by fastforce
  then have "owner ?J c2"
    using gives_keeps [OF gives_debug_check [of fs "{}" "Some p"]] J1
    by (auto simp: in_kernel_def owner_def split: prod.splits) (metis snd_conv)
  with J1 c1 c2 Suc show ?case by (auto split: sum.split)
qed simp

lemma slice_keeps: "owner (kinv fs {} (Some p)) c \<Longrightarrow> owner (kinv fs {} (Some p)) (snd (slice pid c))"
  unfolding slice_def debug_slice_def Let_def
  by (auto simp: debug_loop_keeps bindE_def ret_def split: prod.splits sum.splits dest: run_keeps)
    (metis run_keeps snd_conv)+

section \<open>After the slice\<close>

lemma quiet_updates [simp]:
  "quiet (\<lambda>q. q\<lparr>p_utime := g q\<rparr>)" "quiet (\<lambda>q. q\<lparr>p_alarm_at := g q\<rparr>)"
  by (simp_all add: quiet_def)

lemma gives_charge: "gives (kinv fs X A) (charge p n) (\<lambda>_. True)"
  unfolding charge_def by (intro gives_thenE gives_up gives_modify TrueI; simp)

lemma gives_break: "gives (kinv fs X A) (break_if_active r) (\<lambda>_. True)"
  unfolding break_if_active_def debug_break_def
  by (intro gives_bindE [OF gives_gets [where R = "\<lambda>_. True"]] gives_if gives_modify gives_ret TrueI; simp)

lemma exit_absent:
  assumes "map_of (k_procs k) p = None"
  shows "exit_process p code k = (Inl KeyError, k)"
  using assms upto_rec1 [of 0 19]
  by (simp add: exit_process_def thenE_def bindE_def up_def modify_def map_entry_absent NR_OPEN_def
      release_fd_def gp_def)

lemma keeps_exit [gives_rules]: "gives (kinv fs X None) (exit_process p code) (\<lambda>_. True)"
proof (rule gives_wpI)
  fix k
  assume k: "kinv fs X None k"
  show "wp (exit_process p code) (\<lambda>_. kinv fs X None) (\<lambda>_. kinv fs X None) k"
  proof (cases "map_of (k_procs k) p")
    case None
    with k show ?thesis by (simp add: wp_def exit_absent)
  next
    case (Some q)
    show ?thesis by (rule wp_exit [OF kinv_mono [OF k subset_insertI] Some]) auto
  qed
qed

lemma wp_block:
  assumes k: "kinv fs X (Some p) k" and Q: "\<And>k'. kinv fs X None k' \<Longrightarrow> wp m Q E k'"
  shows "wp (thenE (up p (\<lambda>q. q\<lparr>p_state := SLEEPING, p_channel := Some ch, p_restart := True\<rparr>))
    (thenE (on_cpu p (modify g)) (thenE (dequeue p) m))) Q E k"
proof -
  let ?f = "\<lambda>q. q\<lparr>p_state := SLEEPING, p_channel := Some ch, p_restart := True\<rparr>"
  obtain q c where q: "map_of (k_procs k) p = Some q" "p_cpu q = Some c"
    using k by (auto simp: kinv_def active_def)
  have "kinv fs (insert p X) None (k\<lparr>k_procs := AList.map_entry p ?f (k_procs k)\<rparr>)"
    by (rule kinv_state [OF kinv_inactive [OF k] q(1)]) (simp_all add: q)
  then show ?thesis
    unfolding wp_thenE wp_up
  proof (rule wp_on_cpu_modify)
    fix k'
    assume "kinv fs (insert p X) None k'" "map_of (k_procs k') p = Some (?f q\<lparr>p_cpu := Some (g c)\<rparr>)"
    then show "wp (dequeue p) (\<lambda>_. wp m Q E) E k'" by (rule wp_dequeue) (simp_all add: Q)
  qed (use q in simp_all)
qed

lemma wp_after_slice:
  assumes k: "kinv fs {} (Some p) k"
  shows "wp (after_slice p pid r stopped) (\<lambda>_. kinv fs {} None) (\<lambda>_. kinv fs {} None) k"
proof -
  let ?I = "kinv fs {} None"
  have none: "?I k" using k by (rule kinv_inactive)
  have g: "wp m (\<lambda>_. ?I) (\<lambda>_. ?I) k'" if "gives ?I m (\<lambda>_. True)" "?I k'" for m :: "'a km" and k'
    using that by (simp add: gives_wp)
  have brk: "gives ?I (thenE (break_if_active s) (ret x)) (\<lambda>_. True)" for s and x :: "int option"
    by (intro gives_thenE gives_break gives_ret TrueI)
  show ?thesis
  proof (cases r)
    case (Inl e)
    show ?thesis
    proof (cases e)
      case (Blocked ch)
      then show ?thesis using Inl g [OF brk] by (auto simp: after_slice_def intro: wp_block [OF k])
    next
      case (Exited code)
      have "gives ?I (thenE (break_if_active (StopExited pid code)) (thenE (exit_process p code)
         (bindE (gp p) (\<lambda>q. ret (if p_ppid q = 0 then Some code else None))))) (\<lambda>_. True)"
        by (intro gives_thenE gives_break keeps_exit gives_bindE [OF gives_gp] gives_ret TrueI)
      with Inl Exited g none show ?thesis by (simp add: after_slice_def)
    next
      case (MagicJump a)
      have "gives ?I (thenE (sigreturn p) (thenE (break_if_active (StopSigreturn pid)) (ret (None :: int option)))) (\<lambda>_. True)"
        by (rule gives_thenE [OF gives_sigreturn brk])
      with Inl MagicJump g none show ?thesis by (simp add: after_slice_def)
    qed (use Inl none g [OF brk none] in \<open>simp_all add: after_slice_def wp_raise\<close>)
  next
    case (Inr u)
    have "gives ?I (thenE (exit_process p 0) (thenE (break_if_active (StopHalted pid)) (ret (None :: int option)))) (\<lambda>_. True)"
      by (intro gives_thenE keeps_exit brk TrueI)
    from g [OF this none] Inr none show ?thesis by (simp add: after_slice_def wp_ret)
  qed
qed

lemma wp_run_process:
  assumes k: "kinv fs {} None k" and p: "runnable k p" "p \<in> set (k_runq k)"
  shows "wp (run_process p) (\<lambda>_. kinv fs {} None) (\<lambda>_. kinv fs {} None) k"
proof -
  obtain q where q: "map_of (k_procs k) p = Some q" "p_state q = RUNNING" "\<not> p_kernel_task q"
    using p(1) by (auto simp: runnable_def split: option.splits)
  obtain c0 where c0: "p_cpu q = Some c0" using kinv_settled [OF k q(1)] p(2) q by (auto simp: settled_def)
  let ?k = "k\<lparr>k_current := Some p\<rparr>"
  have act: "kinv fs {} (Some p) ?k"
    using k q c0 kinv_current [where k = k and fs = fs and X = "{}" and c = "Some p"] by (simp add: kinv_def active_def)
  obtain r c where c: "slice p (cpu.extend c0 ?k) = (r, c)" by fastforce
  have "owner (kinv fs {} (Some p)) (cpu.extend c0 ?k)" using act by (simp add: owner_def cpu.defs)
  then have own: "owner (kinv fs {} (Some p)) c" using slice_keeps [where pid = p] c by (metis snd_conv)
  let ?k1 = "if r = Inl Replaced then cpu.more c else park p c"
  obtain r' k2 where a: "after_slice p p r (halted c) ?k1 = (r', k2)" by fastforce
  have "kinv fs {} (Some p) ?k1" using own kinv_park by (auto simp: owner_def)
  then have k2: "kinv fs {} None k2" using wp_after_slice [of fs p ?k1 p r "halted c"] a
    by (auto simp: wp_def split: sum.splits)
  let ?n = "max (icount c - icount c0) 1"
  have "gives (kinv fs {} None) (thenE (charge p ?n) (bindE (liftR r') (\<lambda>x. ret (x, ?n)))) (\<lambda>_. True)"
    by (intro gives_thenE gives_charge gives_bindE [where R = "\<lambda>_. True"] gives_ret TrueI)
      (simp add: gives_def liftR_def)
  from gives_keeps [OF this k2]
  have "case thenE (charge p ?n) (bindE (liftR r') (\<lambda>x. ret (x, ?n))) k2 of (x, t) \<Rightarrow> kinv fs {} None t"
    by (simp add: case_prod_beta)
  moreover have "p_pid q = p" using kinv_proc [OF k q(1)] by (simp add: proc_ok_def)
  ultimately show ?thesis
    using q c0 c a by (simp add: run_process_def wp_thenE wp_modify wp_bindE wp_gp get_cpu_def wp_option
        wp_ret wp_def [of "\<lambda>k. case slice p (cpu.extend c0 k) of (r, c) \<Rightarrow> _ r c k"] Let_def)
qed

section \<open>Choosing a process\<close>

lemma kinv_runq:
  assumes k: "kinv fs X A k" and rq: "distinct rq" "set rq \<subseteq> set (k_runq k)"
    and gone: "\<And>i q. map_of (k_procs k) i = Some q \<Longrightarrow> i \<in> set (k_runq k) \<Longrightarrow> i \<notin> set rq \<Longrightarrow> p_state q = ZOMBIE"
  shows "kinv fs X A (k\<lparr>k_runq := rq\<rparr>)"
proof -
  have s: "settled rq i q" if "settled (k_runq k) i q" "map_of (k_procs k) i = Some q" for i q
    using that gone [OF that(2)] rq(2) by (cases "i \<in> set rq") (auto simp: settled_def)
  have "ptable_ok X (k_procs k) rq (k_next_pid k)"
    using k rq s unfolding kinv_def kernel_ok_def ptable_ok_def by blast
  with k show ?thesis by (auto simp: kinv_def kernel_ok_def active_def elim!: balanced_same)
qed

lemma wp_pick_loop:
  assumes "kinv fs X None k" and "n \<le> length (k_runq k)"
  shows "wp (pick_loop n) (\<lambda>r t. kinv fs X None t \<and> (\<forall>p. r = Some p \<longrightarrow> runnable t p \<and> p \<in> set (k_runq t)))
    (\<lambda>_. kinv fs X None) k"
  using assms
proof (induction n arbitrary: k)
  case (Suc n)
  then obtain p ps where rq: "k_runq k = p # ps" by (cases "k_runq k") auto
  have d: "distinct (p # ps)" using Suc.prems(1) rq by (simp add: kinv_def kernel_ok_def ptable_ok_def)
  show ?case
  proof (cases "gone k p")
    case True
    have "kinv fs X None (k\<lparr>k_runq := ps\<rparr>)"
      using True rq d by (intro kinv_runq [OF Suc.prems(1)]) (auto simp: gone_def)
    with Suc.IH [of "k\<lparr>k_runq := ps\<rparr>"] Suc.prems rq True show ?thesis by (simp add: wp_def)
  next
    case False
    have "kinv fs X None (k\<lparr>k_runq := ps @ [p]\<rparr>)"
      using rq d by (intro kinv_runq [OF Suc.prems(1)]) auto
    with Suc.IH [of "k\<lparr>k_runq := ps @ [p]\<rparr>"] Suc.prems rq False show ?thesis by (simp add: wp_def Let_def)
  qed
qed (simp add: wp_def)

lemma gives_pump_tty [gives_rules]: "gives (kinv fs X A) (pump_tty b) (\<lambda>_. True)"
  unfolding pump_tty_def
  by (intro gives_bindE [OF gives_gets [where R = "\<lambda>_. True"]] gives_option gives_with_tty gives_pump callbacks_ok
      gives_ret TrueI)

lemma gives_schedule: "gives (kinv fs {} None) schedule (\<lambda>_. True)"
proof (rule gives_wpI)
  fix k
  let ?I = "kinv fs {} None"
  let ?idle = "bindE (gets (\<lambda>k. k)) (\<lambda>k.
       if \<not> some_alive k \<and> k_init_state k = InitDone then ret (Return (k_exit_status k))
       else thenE (pump_tty True) (thenE (modify (\<lambda>k. k\<lparr>k_jiffies := k_jiffies k + 2\<rparr>)) (ret Idled)))"
  let ?go = "\<lambda>p. bindE (run_process p) (\<lambda>(r, n). ret (case r of Some code \<Rightarrow> Return code | None \<Rightarrow> Ran n))"
  assume k: "?I k"
  have idle: "gives ?I ?idle (\<lambda>_. True)"
    by (intro gives_bindE [OF gives_gets [where R = "\<lambda>_. True"]] gives_if gives_thenE gives_pump_tty
        gives_modify gives_ret TrueI; simp)
  have run: "wp (?go p) (\<lambda>_. ?I) (\<lambda>_. ?I) t" if "?I t" "runnable t p" "p \<in> set (k_runq t)" for p t
    unfolding wp_bindE by (rule wp_mono [OF wp_run_process [OF that]]) (auto simp: wp_ret split: prod.split)
  have "wp pick (\<lambda>r t. ?I t \<and> (\<forall>p. r = Some p \<longrightarrow> runnable t p \<and> p \<in> set (k_runq t))) (\<lambda>_. ?I) k"
    using wp_pick_loop [OF k order_refl] by (simp add: pick_def wp_def)
  then have "wp pick (\<lambda>r. wp (case r of None \<Rightarrow> ?idle | Some p \<Rightarrow> ?go p) (\<lambda>_. ?I) (\<lambda>_. ?I)) (\<lambda>_. ?I) k"
  proof (rule wp_mono)
    fix r t
    assume "?I t \<and> (\<forall>p. r = Some p \<longrightarrow> runnable t p \<and> p \<in> set (k_runq t))"
    then show "wp (case r of None \<Rightarrow> ?idle | Some p \<Rightarrow> ?go p) (\<lambda>_. ?I) (\<lambda>_. ?I) t"
      using idle run by (cases r) (auto simp: gives_wp)
  qed
  then show "wp schedule (\<lambda>_. ?I) (\<lambda>_. ?I) k" by (simp add: schedule_def wp_bindE [of pick])
qed

section \<open>Between the slices\<close>

lemma gives_check_alarm: "gives (kinv fs X A) (check_alarm p) (\<lambda>_. True)"
  unfolding check_alarm_def
  by (intro gives_bindE [OF gives_gp] gives_bindE [OF gives_gets [where R = "\<lambda>_. True"]] gives_if gives_thenE
      gives_up gives_post_signal gives_ret TrueI; simp)

lemma gives_wake_waiter: "gives (kinv fs X A) (wake_waiter p) (\<lambda>_. True)"
  unfolding wake_waiter_def
  by (intro gives_bindE [OF gives_gp] gives_bindE [OF gives_gets [where R = "\<lambda>_. True"]] gives_if
      gives_wake gives_ret TrueI; simp)

lemma gives_events: "gives (kinv fs X None) events (\<lambda>_. True)"
  unfolding events_def
  by (intro gives_thenE gives_pump_tty gives_each_proc gives_check_alarm gives_wake_waiter gives_deliver_pending TrueI)

lemma gives_set_init: "gives (kinv fs X A) (set_init s) (\<lambda>_. True)"
  unfolding set_init_def by (intro gives_modify TrueI) simp

lemma wp_init_wait:
  assumes k: "kinv fs {} None k"
  shows "wp (init_wait b) (\<lambda>_. kinv fs {} None) (\<lambda>_. kinv fs {} None) k"
proof -
  let ?I = "kinv fs {} None"
  let ?fin = "bindE (gets console_alive) (\<lambda>alive. set_init (if \<not> b \<or> alive then InitShell else InitDone))"
  have fin: "wp ?fin (\<lambda>_. ?I) (\<lambda>_. ?I) t" if "?I t" for t
    using that by (simp add: wp_bindE wp_gets set_init_def wp_modify)
  have say: "wp (if b then write_console msg else ret ()) (\<lambda>_. wp ?fin (\<lambda>_. ?I) (\<lambda>_. ?I)) (\<lambda>_. ?I) t"
    if "?I t" for msg t
    by (rule wp_gives [where I = ?I and R = "\<lambda>_. True"]) (auto intro!: that fin [simplified] gives_rules)
  have reaped: "wp (reap (p_pid q)) (\<lambda>_. wp (if b then write_console msg else ret ())
      (\<lambda>_. wp ?fin (\<lambda>_. ?I) (\<lambda>_. ?I)) (\<lambda>_. ?I)) (\<lambda>_. ?I) k"
    if "map_of (k_procs k) i = Some q" "p_state q = ZOMBIE" for i q msg
  proof -
    have "p_pid q = i" using kinv_proc [OF k that(1)] by (simp add: proc_ok_def)
    with that show ?thesis by (intro wp_reap [OF k] say) (auto simp: dead_def k)
  qed
  show ?thesis
    using k fin [OF k] reaped
    by (auto simp: init_wait_def wp_bindE [of "gets (\<lambda>k. map_of (k_procs k) (k_init_child k))"] wp_gets
        wp_ret wp_thenE split: option.split)
qed

text \<open>
  A step of init. When the script cannot be started, the shell that was to read it stays half
  made; nothing is claimed of that state.
\<close>

lemma wp_init_step:
  assumes k: "kinv fs {} None k"
  shows "wp (init_step msg) (\<lambda>_ t. (k_init_state k = InitRc \<longrightarrow> k_init_state t = WaitRc) \<longrightarrow> kinv fs {} None t)
    (\<lambda>_ _. True) k"
proof -
  let ?I = "kinv fs {} None"
  have wait: "wp (init_wait b) (\<lambda>_. ?I) (\<lambda>_ _. True) k" for b
    by (rule wp_mono [OF wp_init_wait [OF k]]) auto
  have rc: "wp (spawn path argv envp (Some f) ns) (\<lambda>p t. ?I t) (\<lambda>_ _. True) k" for path argv envp f ns
    by (rule wp_spawn [OF k]) auto
  have shell: "wp (spawn path argv envp None ns) (\<lambda>p t. ?I t) (\<lambda>_. ?I) k" for path argv envp ns
    by (rule wp_spawn [OF k]) auto
  have failed: "wp (thenE (write_console d) (set_init InitDone)) (\<lambda>_. ?I) (\<lambda>_. ?I) t" if "?I t" for d t
    using that gives_thenE [OF gives_write_console gives_set_init] by (simp add: gives_wp)
  show ?thesis
  proof (cases "k_init_state k")
    case InitRc
    then show ?thesis
      by (auto simp: init_step_def wp_bindE wp_gets wp_catchE wp_modify wp_raise set_init_def
          intro!: wp_mono [OF rc])
  next
    case InitShell
    have "wp (if spawn_errors e then thenE (write_console (no_shell (msg e))) (set_init InitDone) else raise e)
        (\<lambda>_ t. ?I t) (\<lambda>_ _. True) t" if "?I t" for e t
      using that by (auto simp: wp_raise intro: wp_mono [OF failed])
    with InitShell show ?thesis
      by (auto simp: init_step_def wp_bindE wp_gets wp_catchE wp_modify intro!: wp_mono [OF shell])
  qed (use k wait in \<open>simp_all add: init_step_def wp_bindE wp_gets wp_ret\<close>)
qed

section \<open>Reachable states\<close>

text \<open>A kernel before it boots: trace capacity and profiling are set from the command line.\<close>

definition prepared :: "overlay \<Rightarrow> tty option \<Rightarrow> bool \<Rightarrow> (nat \<Rightarrow> int) \<Rightarrow> int \<Rightarrow> bool \<Rightarrow> kernel" where
  "prepared ov tm esc clk cap on = (Kernel_init ov tm esc clk)\<lparr>k_trace_capacity := cap, k_profiling := on\<rparr>"

lemma prepared_default: "prepared ov tm esc clk TRACE_DEFAULT False = Kernel_init ov tm esc clk"
  by (simp add: prepared_def Kernel_init_def)

text \<open>
  The states of a system between the parts of its turns, from the boot of one program or of
  the built-in init, with sessions of the monitor between turns, whatever is typed there, and with
  a debug target and a pending session set by the command line. The script of init is there: its
  step from \<open>InitRc\<close> goes on to \<open>WaitRc\<close>.
\<close>

inductive reachable :: "minixfs \<Rightarrow> (exn \<Rightarrow> bytes) \<Rightarrow> kernel \<Rightarrow> bool" for fs msg where
  booted: "ov_inv fs ov \<Longrightarrow> (\<And>t. tm = Some t \<Longrightarrow> tty_ok t) \<Longrightarrow>
    boot path argv envp (prepared ov tm esc clk cap on) = (Inr p, k) \<Longrightarrow> reachable fs msg (snd (enqueue p k))"
| init_booted: "ov_inv fs ov \<Longrightarrow> (\<And>t. tm = Some t \<Longrightarrow> tty_ok t) \<Longrightarrow>
    boot_init (prepared ov tm esc clk cap on) = (Inr p, k) \<Longrightarrow> reachable fs msg (snd (enqueue p k))"
| configured: "reachable fs msg k \<Longrightarrow> reachable fs msg (k\<lparr>k_debug_target := tg, k_monitor_pending := b\<rparr>)"
| monitored: "reachable fs msg k \<Longrightarrow> interact input m = (Inr (), m') \<Longrightarrow>
    mn_k m = k\<lparr>k_monitor_pending := False\<rparr> \<Longrightarrow> reachable fs msg (mn_k m')"
| events: "reachable fs msg k \<Longrightarrow> events k = (Inr (), k') \<Longrightarrow> reachable fs msg k'"
| init: "reachable fs msg k \<Longrightarrow> init_step msg k = (Inr (), k') \<Longrightarrow>
    (k_init_state k = InitRc \<Longrightarrow> k_init_state k' = WaitRc) \<Longrightarrow> reachable fs msg k'"
| scheduled: "reachable fs msg k \<Longrightarrow> schedule k = (Inr t, k') \<Longrightarrow> reachable fs msg k'"

inductive_cases reachable_cases: "reachable fs msg k"

lemma kinv_fresh:
  assumes "ov_inv fs ov" and "\<And>t. tm = Some t \<Longrightarrow> tty_ok t"
  shows "kinv fs {} None (Kernel_init ov tm esc clk)"
  using assms by (auto simp: Kernel_init_def kinv_def kernel_ok_def ptable_ok_def balanced_def fun_eq_iff)

lemma kinv_prepared:
  "ov_inv fs ov \<Longrightarrow> (\<And>t. tm = Some t \<Longrightarrow> tty_ok t) \<Longrightarrow> kinv fs {} None (prepared ov tm esc clk cap on)"
  using kinv_fresh by (simp add: prepared_def)

lemma reachable_kinv: "reachable fs msg k \<Longrightarrow> kinv fs {} None k"
proof (induction rule: reachable.induct)
  case (booted ov tm path argv envp esc clk cap on p k)
  have "wp (boot path argv envp) (\<lambda>p t. kinv fs {} None (snd (enqueue p t))) (\<lambda>_ _. True)
      (prepared ov tm esc clk cap on)"
  proof (rule wp_boot [OF kinv_prepared [OF booted(1,2)]], goal_cases)
    case (2 p t q)
    have "wp (enqueue p) (\<lambda>_. kinv fs {} None) (\<lambda>_. kinv fs {} None) t"
      by (rule wp_enqueue [OF 2(1,3,4,5)])
    then show ?case by (simp add: wp_snd)
  qed simp_all
  with booted(3) show ?case by (simp add: wp_def)
next
  case (init_booted ov tm esc clk cap on p k)
  have "wp boot_init (\<lambda>p t. kinv fs {} None (snd (enqueue p t))) (\<lambda>_ _. True) (prepared ov tm esc clk cap on)"
  proof (rule wp_boot_init [where fs = fs and X = "{}"], goal_cases)
    case 1
    show ?case by (rule kinv_prepared [OF init_booted(1,2)])
  next
    case (2 p t q)
    then have d: "distinct (k_runq t)" by (simp add: kinv_def kernel_ok_def ptable_ok_def)
    have s: "settled rq p q" for rq
      using kinv_settled [OF 2(1,3)] 2(4) by (auto simp: settled_def)
    show ?case
      using 2(1) d kinv_settle [OF kinv_mono [OF 2(1) subset_insertI] 2(3) _ _ s, of "k_runq t @ [p]"]
      by (auto simp: enqueue_def modify_def)
  qed
  with init_booted(3) show ?case by (simp add: wp_def)
next
  case (configured k tg b)
  then show ?case by simp
next
  case (monitored k input m m')
  then have "mon_inv fs m" by (simp add: mon_inv_def on_kernel_def)
  from givesD [OF interact_keeps this, of input] monitored(2) show ?case by (simp add: mon_inv_def on_kernel_def)
next
  case (events k k')
  then show ?case using gives_keeps [OF gives_events, of fs "{}" k] by simp
next
  case (init k k')
  from wp_init_step [OF init.IH, of msg] init.hyps show ?case by (auto simp: wp_def)
next
  case (scheduled k t k')
  then show ?case using gives_keeps [OF gives_schedule, of fs k] by simp
qed

end
