(* ===== verification/Kernel_Facts.thy ===== *)
theory Kernel_Facts
  imports Kernel_Loop
begin

text \<open>
  What the invariant says of the ends of a pipe, in descriptors, and the round robin of the
  scheduler.
\<close>

section \<open>Open ends\<close>

text \<open>The descriptors, over all processes, that name pipe \<open>n\<close> and satisfy \<open>R\<close>.\<close>

definition names_end :: "(open_file \<Rightarrow> bool) \<Rightarrow> kernel \<Rightarrow> nat \<Rightarrow> nat option \<Rightarrow> bool" where
  "names_end R k n d = (case d of None \<Rightarrow> False | Some i \<Rightarrow>
     (case k_files k i of None \<Rightarrow> False | Some f \<Rightarrow> f_obj f = OPipe n \<and> R f))"

definition open_ends :: "(open_file \<Rightarrow> bool) \<Rightarrow> kernel \<Rightarrow> nat \<Rightarrow> int" where
  "open_ends R k n = sum_list (map (\<lambda>(i, q). int (length (filter (names_end R k n) (p_fds q)))) (k_procs k))"

lemma ends_add: "ends R (\<lambda>i. U i + V i) fs nf n = ends R U fs nf n + ends R V fs nf n"
  by (simp add: ends_def flip: sum.distrib) (rule sum.cong; simp split: option.split)

lemma ends_zero [simp]: "ends R (\<lambda>i. 0) fs nf n = 0"
  unfolding ends_def by (rule sum.neutral) (auto split: option.split)

lemma ends_one:
  assumes "\<And>j f. k_files k j = Some f \<Longrightarrow> j < k_next_file k"
  shows "ends R (\<lambda>i. if d = Some i then 1 else 0) (k_files k) (k_next_file k) n =
    (if names_end R k n d then 1 else 0)"
proof (cases d)
  case None
  then show ?thesis by (simp add: names_end_def)
next
  case (Some j)
  have "ends R (\<lambda>i. if d = Some i then 1 else 0) (k_files k) (k_next_file k) n =
      (\<Sum>i < k_next_file k. if i = j then (if names_end R k n d then 1 else 0) else 0)"
    unfolding ends_def Some names_end_def by (rule sum.cong) (auto split: option.split)
  also have "\<dots> = (if names_end R k n d then 1 else 0)"
    using assms [of j] Some by (auto simp: names_end_def split: option.splits)
  finally show ?thesis .
qed

lemma ends_fds:
  assumes "\<And>j f. k_files k j = Some f \<Longrightarrow> j < k_next_file k"
  shows "ends R (\<lambda>i. int (count_list ds (Some i))) (k_files k) (k_next_file k) n =
    int (length (filter (names_end R k n) ds))"
proof (induction ds)
  case Nil
  show ?case by simp
next
  case (Cons d ds)
  have "(\<lambda>i. int (count_list (d # ds) (Some i))) = (\<lambda>i. int (count_list ds (Some i)) + (if d = Some i then 1 else 0))"
    by (intro ext) simp
  then show ?case using Cons ends_one [OF assms] by (simp add: ends_add)
qed

lemma ends_open:
  assumes "\<And>j f. k_files k j = Some f \<Longrightarrow> j < k_next_file k"
  shows "ends R (uses (k_procs k)) (k_files k) (k_next_file k) n = open_ends R k n"
proof -
  have "ends R (uses ps) (k_files k) (k_next_file k) n =
      sum_list (map (\<lambda>(i, q). int (length (filter (names_end R k n) (p_fds q)))) ps)" for ps
  proof (induction ps)
    case Nil
    show ?case by (simp add: uses_Nil [abs_def])
  next
    case (Cons a ps)
    obtain p q where a: "a = (p, q)" by fastforce
    have "uses (a # ps) = (\<lambda>i. int (count_list (p_fds q) (Some i)) + uses ps i)"
      by (intro ext) (simp add: a proc_uses_def)
    then show ?case using Cons ends_fds [OF assms] by (simp add: ends_add a)
  qed
  then show ?thesis by (simp add: open_ends_def)
qed

lemma kinv_pipe:
  assumes k: "kinv fs X A k" and x: "k_pipes k n = Some x"
  shows "readers x = open_ends f_readable k n" "writers x = open_ends f_writable k n" "length (pbuf x) \<le> 4095"
proof -
  have b: "balanced {} (uses (k_procs k)) k" using k by (simp add: kinv_def kernel_ok_def)
  then have nf: "k_files k j = Some f \<Longrightarrow> j < k_next_file k" for j f by (simp add: balanced_def)
  from b x have "pipe_counts (uses (k_procs k)) (k_files k) (k_next_file k) n x" "length (pbuf x) \<le> 4095"
    unfolding balanced_def by blast+
  then show "readers x = open_ends f_readable k n" "writers x = open_ends f_writable k n" "length (pbuf x) \<le> 4095"
    by (simp_all add: pipe_counts_def ends_open [OF nf])
qed

section \<open>The round robin\<close>

definition position :: "int \<Rightarrow> int list \<Rightarrow> nat" where
  "position p xs = length (takeWhile (\<lambda>x. x \<noteq> p) xs)"

lemma position_shift: "a \<noteq> p \<Longrightarrow> p \<in> set as \<Longrightarrow> position p (as @ [a]) = position p as \<and> position p (a # as) = Suc (position p as)"
  by (simp add: position_def takeWhile_append1)

lemma position_less: "p \<in> set xs \<Longrightarrow> position p xs < length xs"
  by (induction xs) (auto simp: position_def)

lemma runnable_cong: "k_procs k' = k_procs k \<Longrightarrow> runnable k' p = runnable k p \<and> gone k' p = gone k p"
  by (simp add: runnable_def gone_def)

lemma pick_loop_advances:
  assumes "runnable k p" and "p \<in> set (k_runq k)" and "position p (k_runq k) < n"
  shows "\<exists>r k'. pick_loop n k = (Inr (Some r), k') \<and> k_procs k' = k_procs k \<and>
    (r = p \<or> p \<in> set (k_runq k') \<and> position p (k_runq k') < position p (k_runq k))"
  using assms
proof (induction n arbitrary: k)
  case (Suc n)
  then obtain a as where rq: "k_runq k = a # as" by (cases "k_runq k") auto
  show ?case
  proof (cases "a = p")
    case True
    then have "\<not> gone k p" using Suc.prems(1) by (auto simp: gone_def runnable_def split: option.splits)
    moreover have "runnable (k\<lparr>k_runq := as @ [p]\<rparr>) p" using Suc.prems(1) by (simp add: runnable_def)
    ultimately show ?thesis using rq True by (simp add: Let_def)
  next
    case False
    then have p: "p \<in> set as" using rq Suc.prems(2) by simp
    note pos = position_shift [OF False p]
    show ?thesis
    proof (cases "gone k a")
      case True
      have "runnable (k\<lparr>k_runq := as\<rparr>) p" "position p as < n" using Suc.prems rq pos by (simp_all add: runnable_def)
      with Suc.IH [of "k\<lparr>k_runq := as\<rparr>"] p rq pos True show ?thesis by (auto intro: less_SucI)
    next
      case keep: False
      have "runnable (k\<lparr>k_runq := as @ [a]\<rparr>) p" "position p (as @ [a]) < n"
        using Suc.prems rq pos by (simp_all add: runnable_def)
      then obtain r k' where "pick_loop n (k\<lparr>k_runq := as @ [a]\<rparr>) = (Inr (Some r), k')" "k_procs k' = k_procs k"
          "r = p \<or> p \<in> set (k_runq k') \<and> position p (k_runq k') < position p as"
        using Suc.IH [of "k\<lparr>k_runq := as @ [a]\<rparr>"] p pos by auto
      with rq p pos keep show ?thesis by (auto simp: Let_def)
    qed
  qed
qed simp

text \<open>The processes that the next picks choose.\<close>

fun picks :: "nat \<Rightarrow> kernel \<Rightarrow> int list" where
  "picks 0 k = []"
| "picks (Suc n) k = (case pick k of (Inr (Some r), k') \<Rightarrow> r # picks n k' | _ \<Rightarrow> [])"

lemma picks_reach:
  "runnable k p \<Longrightarrow> p \<in> set (k_runq k) \<Longrightarrow> position p (k_runq k) < n \<Longrightarrow> p \<in> set (picks n k)"
proof (induction n arbitrary: k)
  case (Suc n)
  obtain r k' where k': "pick k = (Inr (Some r), k')" "k_procs k' = k_procs k"
    and r: "r = p \<or> p \<in> set (k_runq k') \<and> position p (k_runq k') < position p (k_runq k)"
    using pick_loop_advances [OF Suc.prems(1,2) position_less [OF Suc.prems(2)]] by (auto simp: pick_def)
  have "runnable k' p" using runnable_cong [OF k'(2)] Suc.prems(1) by blast
  with r k'(1) Suc.prems(3) Suc.IH [of k'] show ?case by auto
qed simp

end
