(* ===== verification/Tiny_Kernel.thy ===== *)
theory Tiny_Kernel
  imports Kernel_Facts Kexec_Props
begin

text \<open>
  A kernel over the small image whose file \<open>/f\<close> is a program, booted from it: a concrete
  reachable state for the witnesses.
\<close>

definition tiny_kernel :: kernel where
  "tiny_kernel = Kernel_init tiny_exe None False (\<lambda>_. 0)"

lemma tiny_kinv: "kinv tiny_fs {} None tiny_kernel"
  unfolding tiny_kernel_def by (rule kinv_fresh [OF tiny_exe_inv]) simp

lemma fresh_mem_eq: "fresh_mem = fresh_space"
  by (simp add: fresh_mem_def fresh_space_def)

lemma tiny_load_exact:
  "\<exists>s'. load_aout fresh_space 2 tiny_exe = (Inr ((0, 6), load_program [0xCD, 0x80] [] 4 fresh_space), s')"
proof -
  have b: "take 2 (drop 1024 tiny_program) = [0xCD, 0x80]"
    unfolding tiny_program_parts(3) by simp
  have "brk (load_program [0xCD, 0x80] [] 4 fresh_space) = 6" by (simp add: load_program_def Let_def)
  then show ?thesis
    by (simp add: load_aout_def vread_def run_simps tiny_exe_node VInode_def v_is_regular_def
        v_is_dir_def type_simps py_slice_nonneg EXEC_HDR_def tiny_program_parts(1,2) aout_validate_def
        tiny_header_def ZMAGIC_def MAX_TOTAL_def vsize_def N_TXTOFF_def b)
qed

lemma tiny_image_mem: "mem_ok (load_program [0xCD, 0x80] [] 4 fresh_space)"
  "stack_low (load_program [0xCD, 0x80] [] 4 fresh_space) = 66584576"
  using fresh_space_ok as_wf_load_program [of fresh_space "[0xCD, 0x80]" "[]" 4]
  by (simp_all add: mem_ok_def separated_def load_program_def Let_def)

lemma tiny_stack: "\<exists>sp m. setup_stack [[102]] default_env (load_program [0xCD, 0x80] [] 4 fresh_space) = (Inr sp, m) \<and>
    mem_ok m \<and> stack_low m = 66584576"
proof -
  have "area [[102]] + area default_env \<le> ARG_AREA" "66584576 \<le> sp_of [[102]] default_env"
    by (simp_all add: default_env_def encode_name_def x86mem_consts sp_of_def stack_top_def)
  then show ?thesis
    using setup_stack_in_place [OF tiny_image_mem(1), of "[[102]]" default_env] tiny_image_mem(2) by metis
qed

lemma tiny_resolve: "resolve_exec ''/f'' [[102]] (Some 1) (Some 1) tiny_exe = (Inr (2, [[102]]), tiny_exe)"
proof -
  have w: "walk ''/f'' (Some 1) (Some 1) tiny_exe = (Inr 2, tiny_exe)"
    by (simp add: tiny_exe_def upd_result ov_eval starts_slash_def split_slash_def)
  have h: "py_slice tiny_program 0 128 = take 128 tiny_program" by (simp add: py_slice_nonneg)
  have s: "parse_shebang (take 128 tiny_program) = Inr None"
    by (simp add: parse_shebang_def tiny_program_def pack32_def)
  have v: "vread 2 0 128 tiny_exe = (Inr (take 128 tiny_program), tiny_exe)"
    by (simp add: vread_def run_simps tiny_exe_node VInode_def v_is_dir_def type_simps h)
  have n: "vn 2 tiny_exe = (Inr ((VInode 2 0x81ED 0 0 1 0 0 3 (Some tiny_file))\<lparr>v_data := Some tiny_program\<rparr>), tiny_exe)"
    by (simp add: vn_def tiny_exe_node)
  have f: "(5 :: nat) = Suc 4" by simp
  show ?thesis
    unfolding resolve_exec_def f resolve_rec.simps
    by (simp add: bindE_def w n v s liftR_def ret_def v_is_regular_def VInode_def type_simps)
qed

text \<open>The booted kernel, and what the invariant says of it.\<close>

lemma tiny_boot: "\<exists>k q c. boot ''/f'' [[102]] [] tiny_kernel = (Inr 1, k) \<and>
    k_procs k = [(1, q)] \<and> q = (Process 1)\<lparr>p_cwd := Some ROOT, p_root := Some ROOT, p_name := ''/f'', p_cpu := Some c\<rparr> \<and>
    k_runq k = [] \<and> k_current k = Some 1 \<and> k_files k = Map.empty \<and> k_pipes k = Map.empty \<and>
    k_next_file k = 0 \<and> k_next_pipe k = 0 \<and> mem_ok (mem c) \<and> stack_low (mem c) = 66584576"
proof -
  obtain s' where l: "load_aout fresh_space 2 tiny_exe = (Inr ((0, 6), load_program [0xCD, 0x80] [] 4 fresh_space), s')"
    using tiny_load_exact by blast
  obtain sp m where st: "setup_stack [[102]] default_env (load_program [0xCD, 0x80] [] 4 fresh_space) = (Inr sp, m)"
      "mem_ok m" "stack_low m = 66584576"
    using tiny_stack by blast
  show ?thesis
    by (simp add: boot_def tiny_kernel_def Kernel_init_def new_process_def new_pid_def add_proc_def bindE_def thenE_def
        gp_def ret_def modify_def exec_image_def in_fs_def Process_def tiny_resolve [folded ROOT_def] l st fresh_mem_eq
        start_cpu_def make_cpu_def gets_def install_cpu_def up_def setup_std_fds_def prof_of_def CPU_init_def set_rg_def)
qed

text \<open>The state the run starts from, with its one process in the run queue.\<close>

definition tiny_state :: kernel where
  "tiny_state = snd (enqueue 1 (snd (boot ''/f'' [[102]] [] tiny_kernel)))"

lemma tiny_state_facts:
  obtains q c where "k_procs tiny_state = [(1, q)]" "p_cpu q = Some c" "p_state q = RUNNING" "\<not> p_kernel_task q"
    "p_fds q = replicate 20 None" "k_runq tiny_state = [1]" "k_current tiny_state = Some 1"
    "k_files tiny_state = Map.empty" "k_pipes tiny_state = Map.empty" "k_next_file tiny_state = 0"
    "k_next_pipe tiny_state = 0" "mem_ok (mem c)" "stack_low (mem c) = 66584576" "p_pid q = 1"
  using tiny_boot
  by (auto simp: tiny_state_def enqueue_def modify_def Process_def NR_OPEN_def)

lemma tiny_reachable: "reachable tiny_fs msg tiny_state"
proof -
  obtain k where "boot ''/f'' [[102]] [] tiny_kernel = (Inr 1, k)" using tiny_boot by blast
  then show ?thesis
    unfolding tiny_state_def tiny_kernel_def
    by (auto intro: booted [OF tiny_exe_inv, where cap = TRACE_DEFAULT and on = False, unfolded prepared_default])
qed

lemma tiny_active: "kinv tiny_fs {} (Some 1) tiny_state"
proof (rule tiny_state_facts)
  fix q c
  assume "k_procs tiny_state = [(1, q)]" "p_cpu q = Some c" "p_state q = RUNNING" "k_current tiny_state = Some 1"
  then show ?thesis using reachable_kinv [OF tiny_reachable] by (simp add: kinv_def active_def)
qed

text \<open>A word written to the stack area.\<close>

lemma write_stack:
  assumes "mem_ok m" and "stack_low m \<le> a" and "a + 4 \<le> TASK_SIZE"
  shows "write_u32 a v m = (Inr (), poke_stack a (pack32 v) m)"
  using assms by (simp add: write_u32_eq mem_write_unfold in_low_def in_stack_def mem_ok_def separated_def pack32_def)

text \<open>\<open>pipe\<close> called by that process: the two descriptors, written to its stack.\<close>

lemma tiny_pipe:
  "\<exists>k x. syscall 1 NR_PIPE 67108000 0 0 tiny_state = (Inr 0, k) \<and> k_pipes k 0 = Some x \<and> readers x = 1 \<and> writers x = 1"
proof (rule tiny_state_facts)
  fix q c
  assume t: "k_procs tiny_state = [(1, q)]" "p_cpu q = Some c" "p_fds q = replicate 20 None"
    "k_files tiny_state = Map.empty" "k_pipes tiny_state = Map.empty" "k_next_file tiny_state = 0"
    "k_next_pipe tiny_state = 0" "mem_ok (mem c)" "stack_low (mem c) = 66584576"
  have w: "write_u32 67108000 v (mem c) = (Inr (), poke_stack 67108000 (pack32 v) (mem c))" for v
    using t by (intro write_stack) (simp_all add: x86mem_consts)
  have "mem_ok (snd (write_u32 67108000 v (mem c)))" for v
    unfolding write_u32_eq using t by (intro mem_ok_write)
  then have ok: "mem_ok (poke_stack 67108000 (pack32 v) (mem c))" for v by (simp add: w)
  have w2: "write_u32 67108004 v (poke_stack 67108000 (pack32 u) (mem c)) =
      (Inr (), poke_stack 67108004 (pack32 v) (poke_stack 67108000 (pack32 u) (mem c)))" for u v
    using t ok by (intro write_stack) (simp_all add: x86mem_consts)
  have table: "map_of syscall_table NR_PIPE = Some sys_pipe"
    by (simp add: syscall_table_def syscall_numbers NR_SYS_OPEN_def)
  have nr: "\<not> NR_SYSCALLS \<le> NR_PIPE" by (simp add: NR_SYSCALLS_def NR_PIPE_def)
  have fds: "replicate 20 None = None # None # replicate 18 (None :: nat option)" by (simp add: numeral_eq_Suc)
  have free: "free_from (None # xs) 0 = Some 0" "free_from (Some i # None # xs) 0 = Some 1" for i xs
    by (simp_all add: free_from_def NR_OPEN_def upto_rec1)
  have new: "wp (new_pipe x) Q E k = Q (k_next_pipe k) (snd (new_pipe x k))"
    "wp (new_file f) Q E k = Q (k_next_file k) (snd (new_file f k))" for x f Q E k
    by (simp_all add: wp_def new_pipe_def new_file_def)
  have mem: "wp (on_user 1 m) Q E k = (case map_of (k_procs k) 1 of Some q \<Rightarrow> (case p_cpu q of Some c \<Rightarrow>
      (case m (mem c) of (Inr x, m') \<Rightarrow> Q x (k\<lparr>k_procs := AList.map_entry 1 (\<lambda>q. q\<lparr>p_cpu := Some (c\<lparr>mem := m'\<rparr>)\<rparr>) (k_procs k)\<rparr>)
       | (Inl e, m') \<Rightarrow> wp (on_user 1 m) Q E k) | None \<Rightarrow> wp (on_user 1 m) Q E k) | None \<Rightarrow> wp (on_user 1 m) Q E k)"
    for m :: "(insn addrspace, unit) sm" and Q E k
    by (auto simp: wp_def on_user_def on_cpu_def get_cpu_def gp_def set_cpu_def up_def on_mem_def bindE_def thenE_def
        ret_def modify_def liftR_def split: option.split sum.split prod.split)
  have pipe: "wp (in_pipe n m) Q E k = (case k_pipes k n of Some x \<Rightarrow>
      (case m x of (Inr y, x') \<Rightarrow> Q y (k\<lparr>k_pipes := (k_pipes k)(n \<mapsto> x')\<rparr>) | (Inl e, x') \<Rightarrow> wp (in_pipe n m) Q E k)
     | None \<Rightarrow> wp (in_pipe n m) Q E k)" for n and m :: "(pipe, unit) sm" and Q E k
    by (auto simp: wp_def in_pipe_def split: option.split sum.split prod.split)
  have "wp (syscall 1 NR_PIPE 67108000 0 0) (\<lambda>r k. r = 0 \<and> (\<exists>x. k_pipes k 0 = Some x \<and> readers x = 1 \<and> writers x = 1))
      (\<lambda>_ _. False) tiny_state"
    by (simp add: syscall_def dispatch_def table nr sys_pipe_def wp_simps wp_catchE new new_pipe_def new_file_def
        alloc_fd_def wp_gp free t fds wp_set_fd put_fd_def pipe w32_def mem w w2 count_syscall_def wp_up modify_def)
  then show ?thesis by (auto simp: wp_def split: prod.splits sum.splits)
qed

end
