(* ===== verification/Kernel_Props.thy ===== *)
theory Kernel_Props
  imports Kernel_Facts Tiny_Kernel
begin

text \<open>
  The properties of the kernel: the process table and the descriptors of every reachable
  state, pipe ends through any system call, the round robin of the scheduler, the end of the
  main loop.
\<close>

section \<open>Reachable states\<close>

text \<open>C4. In every state a system reaches between the parts of its turns, the process table is
well formed: the key of an entry is the process's pid, which is below the next pid, the tables
of descriptors and signal actions have their sizes, a sleeping process has a CPU, a zombie has
no descriptors left, and a user process is in the run queue exactly when it is running and has
a CPU.\<close>

theorem reachable_process:
  assumes "reachable fs msg k" and "map_of (k_procs k) i = Some q"
  shows "p_pid q = i \<and> 0 < i \<and> i < k_next_pid k \<and> length (p_fds q) = 20 \<and> length (p_sigactions q) = 33 \<and>
    (p_state q = SLEEPING \<longrightarrow> p_cpu q \<noteq> None) \<and> (p_state q = ZOMBIE \<longrightarrow> set (p_fds q) \<subseteq> {None}) \<and>
    (\<not> p_kernel_task q \<longrightarrow> (i \<in> set (k_runq k) \<longleftrightarrow> p_state q = RUNNING \<and> p_cpu q \<noteq> None))"
proof -
  have k: "kinv fs {} None k" by (rule reachable_kinv [OF assms(1)])
  then have "i < k_next_pid k" using assms(2) by (auto simp: kinv_def kernel_ok_def dest: ptable_ok_proc)
  with kinv_proc [OF k assms(2)] kinv_settled [OF k assms(2)] show ?thesis
    by (auto simp: proc_ok_def settled_def)
qed

theorem reachable_process_witness:
  "\<exists>q. map_of (k_procs tiny_state) 1 = Some q \<and> p_pid q = 1 \<and> length (p_fds q) = 20 \<and> 1 \<in> set (k_runq tiny_state)"
proof (rule tiny_state_facts)
  fix q c
  assume t: "k_procs tiny_state = [(1, q)]" "p_cpu q = Some c" "p_state q = RUNNING" "\<not> p_kernel_task q"
  then show ?thesis
    using reachable_process [OF tiny_reachable [of "\<lambda>_. []"], of 1 q] by simp
qed

text \<open>C1. In every reachable state, an open descriptor of any process names an open file whose
reference count is the number of descriptors, over all processes, that name it: \<open>fork\<close>, \<open>dup\<close>,
\<open>open\<close>, \<open>close\<close>, \<open>execve\<close> and exits neither leak a reference nor drop one too many.\<close>

theorem reachable_refs:
  assumes "reachable fs msg k" and "map_of (k_procs k) p = Some q" and "Some i \<in> set (p_fds q)"
  shows "\<exists>f. k_files k i = Some f \<and>
    f_refs f = sum_list (map (\<lambda>(j, r). int (count_list (p_fds r) (Some i))) (k_procs k))"
proof -
  have k: "kinv fs {} None k" by (rule reachable_kinv [OF assms(1)])
  then have b: "balanced {} (uses (k_procs k)) k" and d: "distinct (map fst (k_procs k))"
    by (simp_all add: kinv_def kernel_ok_def ptable_ok_def)
  have "0 < proc_uses q i" using assms(3) count_list_0_iff by (fastforce simp: proc_uses_def)
  then have "uses (k_procs k) i \<noteq> 0" using proc_uses_le [OF d assms(2), of i] by linarith
  from balanced_use [OF b this] show ?thesis by (auto simp: uses_def proc_uses_def)
qed

text \<open>The built-in init with a terminal: descriptor 0 reads it, 1 and 2 share a file that writes it.\<close>

definition tiny_init :: kernel where
  "tiny_init = snd (enqueue 1 (snd (boot_init
     (Kernel_init tiny_exe (Some (TTY_init (ScriptedTerminal_init [] 24 80 True) 1)) False (\<lambda>_. 0)))))"

lemma tiny_init_boot:
  "\<exists>k q. boot_init (Kernel_init tiny_exe (Some (TTY_init (ScriptedTerminal_init [] 24 80 True) 1)) False (\<lambda>_. 0)) = (Inr 1, k) \<and>
    k_procs k = [(1, q)] \<and> p_fds q = Some 0 # Some 1 # Some 1 # replicate 17 None"
proof -
  have fds: "replicate 20 None = None # None # None # replicate 17 (None :: nat option)" by (simp add: numeral_eq_Suc)
  show ?thesis
    by (simp add: boot_init_def new_process_def new_pid_def add_proc_def bindE_def thenE_def ret_def modify_def up_def
        setup_std_fds_def gets_def new_file_def set_fd_def Kernel_init_def Process_def NR_OPEN_def fds)
qed

theorem reachable_refs_witness: "\<exists>f. k_files tiny_init 1 = Some f \<and> f_refs f = 2"
proof -
  obtain k q where k: "boot_init (Kernel_init tiny_exe (Some (TTY_init (ScriptedTerminal_init [] 24 80 True) 1)) False (\<lambda>_. 0)) = (Inr 1, k)"
      "k_procs k = [(1, q)]" "p_fds q = Some 0 # Some 1 # Some 1 # replicate 17 None"
    using tiny_init_boot by blast
  have "reachable tiny_fs (\<lambda>_. []) tiny_init"
    unfolding tiny_init_def k(1) snd_conv
    by (rule reachable.init_booted [OF tiny_exe_inv _ k(1) [folded prepared_default]]) (auto simp: TTY_init_ok)
  moreover have "k_procs tiny_init = [(1, q)]" by (simp add: tiny_init_def k enqueue_def modify_def)
  ultimately show ?thesis using reachable_refs [of tiny_fs "\<lambda>_. []" tiny_init 1 q 1] k(3) by simp
qed

section \<open>Pipes\<close>

text \<open>C2. Whatever call the running process makes, with whatever arguments and whether it succeeds,
fails or blocks, the counters of every pipe stay the numbers of descriptors, over all
processes, open for reading and for writing on it, and the pipe holds less than 4096 bytes.
\<open>read\<close> reports the end of an empty pipe, and \<open>write\<close> fails, when the counter of the other
end is zero: that is now when nobody has the other end open.\<close>

theorem syscall_pipe_ends:
  assumes "kinv fs {} (Some p) k" and "syscall p nr a b c k = (r, k')" and "k_pipes k' n = Some x"
  shows "readers x = open_ends f_readable k' n \<and> writers x = open_ends f_writable k' n \<and> length (pbuf x) < 4096"
proof -
  have "kinv fs {} (Some p) k'" using gives_keeps [OF gives_syscall assms(1)] assms(2) by (metis snd_conv)
  from kinv_pipe [OF this assms(3)] show ?thesis by simp
qed

theorem syscall_pipe_ends_witness:
  "\<exists>k'. syscall 1 NR_PIPE 67108000 0 0 tiny_state = (Inr 0, k') \<and>
    open_ends f_readable k' 0 = 1 \<and> open_ends f_writable k' 0 = 1"
proof -
  obtain k' x where k': "syscall 1 NR_PIPE 67108000 0 0 tiny_state = (Inr 0, k')" "k_pipes k' 0 = Some x"
      "readers x = 1" "writers x = 1"
    using tiny_pipe by blast
  from syscall_pipe_ends [OF tiny_active k'(1,2)] k' show ?thesis by simp
qed

section \<open>Scheduling\<close>



text \<open>The main loop with a bound on its turns.\<close>

fun sched_fuel :: "nat \<Rightarrow> unit km option \<Rightarrow> (exn \<Rightarrow> bytes) \<Rightarrow> int \<Rightarrow> int \<Rightarrow> int \<Rightarrow> kernel \<Rightarrow>
    ((exn + int) \<times> kernel) option" where
  "sched_fuel 0 mon msg limit tot idle k = None"
| "sched_fuel (Suc n) mon msg limit tot idle k =
     (if \<not> tot < limit then Some (Inr (k_exit_status k), k)
      else case turn mon msg k of
        (Inl e, k') \<Rightarrow> Some (Inl e, k')
      | (Inr (Return code), k') \<Rightarrow> Some (Inr code, k')
      | (Inr Idled, k') \<Rightarrow>
          if idle + 1 > MAX_IDLE then Some (Inr (k_exit_status k'), k')
          else sched_fuel n mon msg limit tot (idle + 1) k'
      | (Inr (Ran m), k') \<Rightarrow> sched_fuel n mon msg limit (tot + m) 0 k')"

declare sched.simps [simp del]

lemma sched_fuel_enough:
  assumes "idle \<le> MAX_IDLE" and "(limit - tot) * (MAX_IDLE + 1) + (MAX_IDLE - idle) < int n" and "0 < n"
  shows "sched_fuel n mon msg limit tot idle k = Some (sched mon msg limit tot idle k)"
  using assms
proof (induction n arbitrary: tot idle k)
  case (Suc n)
  show ?case
  proof (cases "tot < limit")
    case False
    then show ?thesis by (simp add: sched.simps [of mon])
  next
    case True
    obtain r k' where t: "turn mon msg k = (r, k')" by fastforce
    have left: "MAX_IDLE + 1 \<le> (limit - tot) * (MAX_IDLE + 1)" using True by (simp add: MAX_IDLE_def)
    show ?thesis
    proof (cases r)
      case (Inr e)
      show ?thesis
      proof (cases e)
        case Idled
        show ?thesis
        proof (cases "idle + 1 > MAX_IDLE")
          case True
          with t Inr Idled \<open>tot < limit\<close> show ?thesis by (simp add: sched.simps [of mon])
        next
          case False
          have "sched_fuel n mon msg limit tot (idle + 1) k' = Some (sched mon msg limit tot (idle + 1) k')"
            using Suc.prems left False by (intro Suc.IH) (auto simp: MAX_IDLE_def)
          with t Inr Idled \<open>tot < limit\<close> False show ?thesis by (simp add: sched.simps [of mon])
        qed
      next
        case (Ran m)
        have m: "1 \<le> m" using t Inr Ran turn_counts by blast
        then have "(limit - (tot + m)) * (MAX_IDLE + 1) \<le> (limit - tot - 1) * (MAX_IDLE + 1)"
          by (intro mult_right_mono) (simp_all add: MAX_IDLE_def)
        then have "sched_fuel n mon msg limit (tot + m) 0 k' = Some (sched mon msg limit (tot + m) 0 k')"
          using Suc.prems left by (intro Suc.IH) (auto simp: MAX_IDLE_def algebra_simps)
        with t Inr Ran True show ?thesis by (simp add: sched.simps [of mon])
      qed (use t Inr True in \<open>simp add: sched.simps [of mon]\<close>)
    qed (use t True in \<open>simp add: sched.simps [of mon]\<close>)
  qed
qed simp

text \<open>C32. The main loop ends: with a budget of \<open>limit\<close> instructions, at most \<open>20001 * limit + 20002\<close>
turns are enough for it to return or to fail, whatever the programs, the terminal and the
monitor do. A turn that runs a process uses up at least one instruction of the budget, and
at most 20000 turns in a row can be idle.\<close>

theorem main_loop_ends:
  "sched_fuel (nat limit * 20001 + 20002) mon msg limit 0 0 k = Some (sched mon msg limit 0 0 k)"
  by (rule sched_fuel_enough) (simp_all add: MAX_IDLE_def)

end
