(* ===== verification/Kernel_Sigframe.thy ===== *)
theory Kernel_Sigframe
  imports Tiny_Kernel Cpu_Props
begin

text \<open>
  The frame a signal handler runs on: the words \<open>_build_signal_frame\<close> pushes on the user stack
  are the ones \<open>_sigreturn\<close> pops.
\<close>

section \<open>Words on the stack\<close>

text \<open>\<open>pushed ws c c'\<close>: the CPU \<open>c'\<close> is \<open>c\<close> with the words \<open>ws\<close> pushed, the first one first.\<close>

definition words :: "int list \<Rightarrow> bytes" where
  "words ws = concat (map pack32 ws)"

lemma words_simps [simp]: "words [] = []" "words (w # ws) = pack32 w @ words ws"
  "words (ws @ vs) = words ws @ words vs" "length (words ws) = 4 * length ws"
  by (simp_all add: words_def) (induction ws; simp)

definition pushed :: "int list \<Rightarrow> cpu \<Rightarrow> cpu \<Rightarrow> bool" where
  "pushed ws c c' \<longleftrightarrow> (\<exists>m. c' = set_rg ESP (rg ESP c - 4 * int (length ws)) (c\<lparr>mem := m\<rparr>) \<and> mem_ok m \<and>
     stack_low m = stack_low (mem c) \<and> holds byte_at m (rg ESP c - 4 * int (length ws)) (words (rev ws)) \<and>
     (\<forall>x. rg ESP c \<le> x \<longrightarrow> byte_at m x = byte_at (mem c) x))"

definition stack_room :: "int list \<Rightarrow> cpu \<Rightarrow> bool" where
  "stack_room ws c \<longleftrightarrow> length (regs c) = 8 \<and> mem_ok (mem c) \<and>
     stack_low (mem c) + 4 * int (length ws) \<le> rg ESP c \<and> rg ESP c \<le> TASK_SIZE"

lemma rg_after_set: "length (regs c) = 8 \<Longrightarrow> nat i < 8 \<Longrightarrow> rg j (set_rg i v c) = (if nat i = nat j then v else rg j c)"
  by (auto simp: rg_def set_rg_def)

lemma set_rg_fields [simp]: "mem (set_rg i v c) = mem c" "eip (set_rg i v c) = eip c" "flags (set_rg i v c) = flags c"
  "length (regs (set_rg i v c)) = length (regs c)" "set_rg i u (set_rg i v c) = set_rg i u c"
  "set_rg i v (c\<lparr>mem := m\<rparr>) = (set_rg i v c)\<lparr>mem := m\<rparr>" "rg i (c\<lparr>mem := m\<rparr>) = rg i c" "rg i (c\<lparr>eip := a\<rparr>) = rg i c"
  by (simp_all add: set_rg_def rg_def)

lemma push_word:
  assumes "stack_room [w] c"
  shows "\<exists>c'. push32 w c = (Inr (), c') \<and> pushed [w] c c'"
proof -
  have ok: "mem_ok (mem c)" and r: "stack_low (mem c) + 4 \<le> rg ESP c" "rg ESP c \<le> TASK_SIZE"
    and len: "length (regs c) = 8"
    using assms by (simp_all add: stack_room_def)
  have lo: "0 \<le> stack_low (mem c)" using ok by (simp add: mem_ok_def as_wf_def)
  let ?a = "rg ESP c - 4"
  have sp: "?a AND MASK32 = ?a"
    using r lo by (simp add: MASK32_def TASK_SIZE_def and_masks)
  let ?m = "poke_stack ?a (pack32 w) (mem c)"
  have w: "write_u32 ?a w (mem c) = (Inr (), ?m)" using r by (intro write_stack [OF ok]) simp_all
  have at: "byte_at ?m x = (if ?a \<le> x \<and> x < ?a + 4 then Some (pack32 w ! nat (x - ?a)) else byte_at (mem c) x)" for x
    using byte_at_poke_stack [OF ok, of ?a "pack32 w" x] r by (simp add: in_stack_def)
  have "mem_ok ?m" using mem_ok_write [OF ok, of ?a "pack32 w"] w by (simp add: write_u32_eq)
  moreover have "holds byte_at ?m ?a (pack32 w)" by (simp add: holds_def at)
  ultimately show ?thesis
    using sp w len by (auto simp: push32_def bindE_def gets_def Let_def thenE_def on_mem_def modify_def pushed_def at)
qed

lemma pushed_room: "stack_room (ws @ vs) c \<Longrightarrow> pushed ws c c' \<Longrightarrow> stack_room vs c' \<and> rg ESP c' = rg ESP c - 4 * int (length ws)"
  by (auto simp: stack_room_def pushed_def rg_after_set)

lemma pushed_append:
  assumes r: "stack_room ws c" and a: "pushed ws c c1" and b: "pushed vs c1 c2"
  shows "pushed (ws @ vs) c c2"
proof -
  obtain m1 m2 where m1: "c1 = set_rg ESP (rg ESP c - 4 * int (length ws)) (c\<lparr>mem := m1\<rparr>)"
      "stack_low m1 = stack_low (mem c)" "holds byte_at m1 (rg ESP c - 4 * int (length ws)) (words (rev ws))"
      "\<And>x. rg ESP c \<le> x \<Longrightarrow> byte_at m1 x = byte_at (mem c) x"
    and m2: "c2 = set_rg ESP (rg ESP c1 - 4 * int (length vs)) (c1\<lparr>mem := m2\<rparr>)" "mem_ok m2"
      "stack_low m2 = stack_low (mem c1)" "holds byte_at m2 (rg ESP c1 - 4 * int (length vs)) (words (rev vs))"
      "\<And>x. rg ESP c1 \<le> x \<Longrightarrow> byte_at m2 x = byte_at (mem c1) x"
    using a b by (auto simp: pushed_def)
  have esp: "rg ESP c1 = rg ESP c - 4 * int (length ws)" using pushed_room [of ws "[]" c c1] r a by simp
  have mem1: "mem c1 = m1" using m1(1) by simp
  have "holds byte_at m2 (rg ESP c - 4 * int (length ws)) (words (rev ws))"
    using m1(3) m2(5) esp mem1 by (simp add: holds_def)
  then have "holds byte_at m2 (rg ESP c - 4 * int (length (ws @ vs))) (words (rev (ws @ vs)))"
    using m2(4) esp by (simp add: holds_append algebra_simps)
  moreover have "byte_at m2 x = byte_at (mem c) x" if "rg ESP c \<le> x" for x
    using that m2(5) [of x] m1(4) [of x] esp mem1 by simp
  moreover have "c2 = set_rg ESP (rg ESP c - 4 * int (length (ws @ vs))) (c\<lparr>mem := m2\<rparr>)"
    using m2(1) [unfolded esp] m1(1) by (simp add: algebra_simps)
  ultimately show ?thesis
    using m1(2) m2(2,3) mem1 unfolding pushed_def by (intro exI [of _ m2]) simp
qed

lemma push_words: "stack_room ws c \<Longrightarrow> \<exists>c'. push_all ws c = (Inr (), c') \<and> pushed ws c c'"
proof (induction ws arbitrary: c)
  case Nil
  then show ?case
    by (auto simp: push_all_def ret_def pushed_def stack_room_def set_rg_def rg_def intro!: exI [of _ "mem c"])
next
  case (Cons w ws)
  have one: "stack_room [w] c" using Cons.prems by (simp add: stack_room_def)
  obtain c1 where c1: "push32 w c = (Inr (), c1)" "pushed [w] c c1" using push_word [OF one] by blast
  have "stack_room ws c1" using pushed_room [of "[w]" ws c c1] Cons.prems c1 by simp
  then obtain c2 where c2: "push_all ws c1 = (Inr (), c2)" "pushed ws c1 c2" using Cons.IH by blast
  have "pushed ([w] @ ws) c c2" by (rule pushed_append [OF one c1(2) c2(2)])
  with c1 c2 show ?case by (auto simp: push_all_def thenE_def bindE_def)
qed

lemma pop_word:
  assumes ok: "mem_ok (mem c)" and h: "holds byte_at (mem c) (rg ESP c) (pack32 w @ bs)"
    and lo: "stack_low (mem c) \<le> rg ESP c" "rg ESP c + 4 \<le> TASK_SIZE" and w: "u32 w"
  shows "pop32 c = (Inr w, set_rg ESP (rg ESP c + 4) c)"
proof -
  have "0 \<le> stack_low (mem c)" using ok by (simp add: mem_ok_def as_wf_def)
  then have "(rg ESP c + 4) AND MASK32 = rg ESP c + 4"
    using lo by (simp add: MASK32_def TASK_SIZE_def and_masks)
  moreover have "read_u32 (rg ESP c) (mem c) = Inr w"
    using h w by (intro read_u32_high [OF ok _ lo(1)]) (simp_all add: holds_append u32_def)
  ultimately show ?thesis
    by (simp add: pop32_def bindE_def thenE_def gets_def from_mem_def modify_def ret_def)
qed

section \<open>The frame\<close>

lemma wp_on_cpu:
  assumes "map_of (k_procs k) p = Some q" and "p_cpu q = Some c" and "m c = (Inr x, c')"
  shows "wp (on_cpu p m) Q E k = Q x (k\<lparr>k_procs := AList.map_entry p (\<lambda>q. q\<lparr>p_cpu := Some c'\<rparr>) (k_procs k)\<rparr>)"
  using assms by (simp add: wp_def on_cpu_def get_cpu_def gp_def set_cpu_def up_def bindE_def thenE_def ret_def
      modify_def liftR_def)

lemma wp_on_cpu_mod:
  "map_of (k_procs k) p = Some q \<Longrightarrow> p_cpu q = Some c \<Longrightarrow> wp (on_cpu p (modify f)) Q E k =
   Q () (k\<lparr>k_procs := AList.map_entry p (\<lambda>q. q\<lparr>p_cpu := Some (f c)\<rparr>) (k_procs k)\<rparr>)"
  by (rule wp_on_cpu) (simp_all add: modify_def)

definition frame_words :: "int \<Rightarrow> proc \<Rightarrow> cpu \<Rightarrow> int list" where
  "frame_words sig q c = (case p_sigactions q ! nat sig of (handler, m, fl, restorer) \<Rightarrow>
     [eip c, flags c, rg EDX c, rg ECX c, rg EAX c] @ (if fl AND SA_NOMASK \<noteq> 0 then [] else [p_blocked q]) @
     [sig, if restorer \<noteq> 0 then restorer else MAGIC_SIGRETURN])"

lemma wp_build_frame:
  assumes q: "map_of (k_procs k) p = Some q" "p_cpu q = Some c" "p_state q \<noteq> SLEEPING"
    and r: "stack_room (frame_words sig q c) c"
    and act: "p_sigactions q ! nat sig = (handler, m, fl, restorer)"
    and Q: "\<And>k' q' c'. map_of (k_procs k') p = Some q' \<Longrightarrow> p_cpu q' = Some (c'\<lparr>eip := handler\<rparr>) \<Longrightarrow>
      pushed (frame_words sig q c) c c' \<Longrightarrow> p_sigframes q' = p_sigframes q @ [fl AND SA_NOMASK = 0] \<Longrightarrow> Q () k'"
  shows "wp (build_signal_frame p sig) Q E k"
proof -
  let ?regs = "[eip c, flags c, rg EDX c, rg ECX c, rg EAX c]"
  let ?mask = "if fl AND SA_NOMASK \<noteq> 0 then [] else [p_blocked q]"
  let ?rest = "if restorer \<noteq> 0 then restorer else MAGIC_SIGRETURN"
  have ws: "frame_words sig q c = ((?regs @ ?mask) @ [sig]) @ [?rest]" by (simp add: frame_words_def act)
  have step: "\<exists>c2. push_all vs c1 = (Inr (), c2) \<and> pushed (ws @ vs) c c2"
    if "pushed ws c c1" "stack_room ws c" "stack_room (ws @ vs) c" for ws vs c1
    using push_words pushed_room [OF that(3,1)] pushed_append [OF that(2,1)] by blast
  have room: "stack_room ?regs c" "stack_room (?regs @ ?mask) c" "stack_room ((?regs @ ?mask) @ [sig]) c"
    using r unfolding ws by (auto simp: stack_room_def)
  obtain c1 where c1: "push_all ?regs c = (Inr (), c1)" "pushed ?regs c c1" using push_words [OF room(1)] by blast
  obtain c2 where c2: "push_all ?mask c1 = (Inr (), c2)" "pushed (?regs @ ?mask) c c2"
    using step [OF c1(2) room(1,2)] by blast
  obtain c3 where c3: "push32 sig c2 = (Inr (), c3)" "pushed ((?regs @ ?mask) @ [sig]) c c3"
    using step [OF c2(2) room(2,3)] by (auto simp: push_all_def thenE_def bindE_def ret_def split: prod.splits sum.splits)
  obtain c4 where c4: "push32 ?rest c3 = (Inr (), c4)" "pushed (((?regs @ ?mask) @ [sig]) @ [?rest]) c c4"
    using step [OF c3(2) room(3) r [unfolded ws]]
    by (auto simp: push_all_def thenE_def bindE_def ret_def split: prod.splits sum.splits)
  have mask: "fl AND SA_NOMASK \<noteq> 0 \<Longrightarrow> c2 = c1" "fl AND SA_NOMASK = 0 \<Longrightarrow> push32 (p_blocked q) c1 = (Inr (), c2)"
    using c2(1) by (auto simp: push_all_def ret_def thenE_def bindE_def split: prod.splits sum.splits)
  note on = wp_on_cpu [where m = "push_all ?regs" and c = c, OF _ _ c1(1)] wp_on_cpu [where m = "push32 sig" and c = c2, OF _ _ c3(1)]
    wp_on_cpu [where m = "push32 ?rest" and c = c3, OF _ _ c4(1)]
    wp_on_cpu_mod
  have framed: "pushed (frame_words sig q c) c c4" using c4(2) ws by simp
  show ?thesis
  proof (cases "fl AND SA_NOMASK = 0")
    case True
    note on' = on wp_on_cpu [where m = "push32 (p_blocked q)" and c = c1, OF _ _ mask(2) [OF True]]
    show ?thesis
      using q act framed True
      by (simp add: build_signal_frame_def wp_bindE wp_thenE wp_gp wp_up wp_ret get_cpu_def on' set_action_def Let_def Q)
  next
    case False
    then show ?thesis
      using q act framed mask(1)
      by (simp add: build_signal_frame_def wp_bindE wp_thenE wp_gp wp_up wp_ret get_cpu_def on set_action_def Let_def Q)
  qed
qed

section \<open>The way back\<close>

definition frame_at :: "cpu \<Rightarrow> int list \<Rightarrow> bool" where
  "frame_at c ws \<longleftrightarrow> length (regs c) = 8 \<and> mem_ok (mem c) \<and> holds byte_at (mem c) (rg ESP c) (words ws) \<and>
     stack_low (mem c) \<le> rg ESP c \<and> rg ESP c + 4 * int (length ws) \<le> TASK_SIZE \<and> list_all u32 ws"

lemma frame_at_set [simp]:
  "nat i \<noteq> 4 \<Longrightarrow> nat i < 8 \<Longrightarrow> frame_at (set_rg i v c) ws = frame_at c ws" "frame_at (set_eflags f c) ws = frame_at c ws"
  by (auto simp: frame_at_def rg_after_set set_eflags_def set_rg_def rg_def)

lemma frame_pop:
  assumes "frame_at c (w # ws)"
  shows "pop32 c = (Inr w, set_rg ESP (rg ESP c + 4) c) \<and> frame_at (set_rg ESP (rg ESP c + 4) c) ws"
proof
  show "pop32 c = (Inr w, set_rg ESP (rg ESP c + 4) c)"
    using assms by (intro pop_word [where bs = "words ws"]) (simp_all add: frame_at_def)
  show "frame_at (set_rg ESP (rg ESP c + 4) c) ws"
    using assms by (simp add: frame_at_def rg_after_set holds_append)
qed

lemma wp_sigreturn:
  assumes q: "map_of (k_procs k) p = Some q" "p_cpu q = Some c" "p_sigframes q = fr @ [b]"
    and f: "frame_at c (sig # (if b then [bl] else []) @ [a, cx, dx, fl, ip])"
    and Q: "\<And>k' q' c'. map_of (k_procs k') p = Some q' \<Longrightarrow> p_cpu q' = Some c' \<Longrightarrow> p_sigframes q' = fr \<Longrightarrow>
      p_blocked q' = (if b then bl else p_blocked q) \<Longrightarrow>
      c' = (set_eflags fl (set_rg EDX dx (set_rg ECX cx (set_rg EAX a
        (set_rg ESP (rg ESP c + (if b then 28 else 24)) c)))))\<lparr>eip := ip\<rparr> \<Longrightarrow> Q () k'"
  shows "wp (sigreturn p) Q E k"
proof -
  have pop: "wp (on_cpu p pop32) R E' t = R w (t\<lparr>k_procs := AList.map_entry p (\<lambda>q. q\<lparr>p_cpu := Some (set_rg ESP (rg ESP d + 4) d)\<rparr>) (k_procs t)\<rparr>)"
    if "map_of (k_procs t) p = Some r" "p_cpu r = Some d" "frame_at d (w # ws)" for R E' t r d w ws
    using that frame_pop [OF that(3)] by (intro wp_on_cpu [OF that(1,2)]) simp
  have into: "wp (on_cpu p (bindE pop32 (\<lambda>v. modify (g v)))) R E' t =
      R () (t\<lparr>k_procs := AList.map_entry p (\<lambda>q. q\<lparr>p_cpu := Some (g w (set_rg ESP (rg ESP d + 4) d))\<rparr>) (k_procs t)\<rparr>)"
    if "map_of (k_procs t) p = Some r" "p_cpu r = Some d" "frame_at d (w # ws)" for g R E' t r d w ws
    using that frame_pop [OF that(3)] by (intro wp_on_cpu [OF that(1,2)]) (simp add: bindE_def modify_def)
  have len: "length (regs c) = 8" using f by (simp add: frame_at_def)
  define c1 where "c1 = set_rg ESP (rg ESP c + 4) c"
  have f1: "frame_at c1 ((if b then [bl] else []) @ [a, cx, dx, fl, ip])"
    unfolding c1_def using frame_pop [OF f] by simp
  define c2 where "c2 = (if b then set_rg ESP (rg ESP c1 + 4) c1 else c1)"
  have f2: "frame_at c2 [a, cx, dx, fl, ip]"
    using f1 frame_pop [of c1 bl "[a, cx, dx, fl, ip]"] by (auto simp: c2_def split: if_splits)
  define c3 where "c3 = set_rg EAX a (set_rg ESP (rg ESP c2 + 4) c2)"
  have f3: "frame_at c3 [cx, dx, fl, ip]" using frame_pop [OF f2] by (simp add: c3_def)
  define c4 where "c4 = set_rg ECX cx (set_rg ESP (rg ESP c3 + 4) c3)"
  have f4: "frame_at c4 [dx, fl, ip]" using frame_pop [OF f3] by (simp add: c4_def)
  define c5 where "c5 = set_rg EDX dx (set_rg ESP (rg ESP c4 + 4) c4)"
  have f5: "frame_at c5 [fl, ip]" using frame_pop [OF f4] by (simp add: c5_def)
  define c6 where "c6 = set_eflags fl (set_rg ESP (rg ESP c5 + 4) c5)"
  have f6: "frame_at c6 [ip]" using frame_pop [OF f5] by (simp add: c6_def)
  have c7: "(set_rg ESP (rg ESP c6 + 4) c6)\<lparr>eip := ip\<rparr> = (set_eflags fl (set_rg EDX dx (set_rg ECX cx (set_rg EAX a
        (set_rg ESP (rg ESP c + (if b then 28 else 24)) c)))))\<lparr>eip := ip\<rparr>"
  proof -
    obtain r0 r1 r2 r3 r4 r5 r6 r7 where "regs c = [r0, r1, r2, r3, r4, r5, r6, r7]"
      using len by (auto simp: numeral_eq_Suc length_Suc_conv)
    then show ?thesis
      by (cases b) (simp_all add: c6_def c5_def c4_def c3_def c2_def c1_def set_rg_def rg_def set_eflags_def)
  qed
  note into' = into [where d = c2 and w = a and ws = "[cx, dx, fl, ip]", OF _ _ f2]
    into [where d = c3 and w = cx and ws = "[dx, fl, ip]", OF _ _ f3]
    into [where d = c4 and w = dx and ws = "[fl, ip]", OF _ _ f4]
    into [where d = c5 and w = fl and ws = "[ip]", OF _ _ f5]
    into [where d = c6 and w = ip and ws = "[]", OF _ _ f6] c3_def [symmetric] c4_def [symmetric] c5_def [symmetric] c6_def [symmetric]
  note pop' = pop [where d = c and w = sig, OF _ _ f, folded c1_def]
  show ?thesis
  proof (cases b)
    case True
    have f1': "frame_at c1 (bl # [a, cx, dx, fl, ip])" using f1 True by simp
    have c2: "set_rg ESP (rg ESP c1 + 4) c1 = c2" using True by (simp add: c2_def)
    show ?thesis
      using q True c7
      by (simp add: sigreturn_def wp_bindE wp_thenE wp_gp wp_up wp_ret pop' pop [where d = c1, OF _ _ f1'] c2 into' Q)
  next
    case False
    have c2: "c1 = c2" using False by (simp add: c2_def)
    show ?thesis
      using q False c7
      by (simp add: sigreturn_def wp_bindE wp_thenE wp_gp wp_up wp_ret pop' c2 into' Q)
  qed
qed

section \<open>There and back\<close>

lemma flags_restored: "flags_ok f \<Longrightarrow> (f AND 0x0CD5) OR EFLAGS_BASE = f"
proof -
  assume f: "flags_ok f"
  have "f = f AND 0xED7" using f by (simp add: flags_ok_def)
  also have "\<dots> = f AND (0xCD5 OR 0x202)" by simp
  also have "\<dots> = (f AND 0xCD5) OR (f AND 0x202)" by (simp only: bit.conj_disj_distrib)
  also have "\<dots> = (f AND 0xCD5) OR EFLAGS_BASE" using f by (simp add: flags_ok_def EFLAGS_BASE_def)
  finally show ?thesis by simp
qed

lemma u32_flags: "flags_ok f \<Longrightarrow> u32 f"
proof -
  assume f: "flags_ok f"
  then have e: "f = f AND 0xED7" by (simp add: flags_ok_def)
  have "0 \<le> f AND 0xED7" "f AND 0xED7 \<le> 0xED7" by (simp_all add: AND_upper2)
  with e show ?thesis by (simp add: u32_def)
qed

lemma pushed_frame_at:
  assumes p: "pushed ws c c1" and len: "length (regs c2) = 8" and m: "mem_ok (mem c2)" "stack_low (mem c2) \<le> rg ESP c2"
    and esp: "rg ESP c2 = rg ESP c1 + 4 * int (length ws - n)" and n: "n \<le> length ws" and u: "list_all u32 (take n ws)"
    and top: "rg ESP c \<le> TASK_SIZE" and regs: "length (regs c) = 8"
    and same: "\<And>x. rg ESP c2 \<le> x \<Longrightarrow> x < rg ESP c \<Longrightarrow> byte_at (mem c2) x = byte_at (mem c1) x"
  shows "frame_at c2 (rev (take n ws))"
proof -
  obtain m1 where c1: "c1 = set_rg ESP (rg ESP c - 4 * int (length ws)) (c\<lparr>mem := m1\<rparr>)"
      "holds byte_at m1 (rg ESP c - 4 * int (length ws)) (words (rev ws))"
    using p by (auto simp: pushed_def)
  have e1: "rg ESP c1 = rg ESP c - 4 * int (length ws)" using c1 regs by (simp add: rg_after_set)
  have e2: "rg ESP c2 = rg ESP c - 4 * int n" using esp e1 n by (simp add: of_nat_diff)
  have "rev ws = rev (drop n ws) @ rev (take n ws)" by (simp flip: rev_append)
  then have "holds byte_at (mem c1) (rg ESP c - 4 * int n) (words (rev (take n ws)))"
    using c1 n by (simp add: holds_append of_nat_diff algebra_simps)
  then have "holds byte_at (mem c2) (rg ESP c2) (words (rev (take n ws)))"
    using same e2 n by (auto simp: holds_def)
  then show ?thesis using len m u e2 n top by (simp add: frame_at_def list_all_rev)
qed

text \<open>C9. A signal handler is transparent: after \<open>_build_signal_frame\<close> the program is in the
handler, and when the handler has returned - the stack pointer is past the return address, the
words above it are as they were, registers and everything else are arbitrary - \<open>_sigreturn\<close>
brings back \<open>eax\<close>, \<open>ecx\<close>, \<open>edx\<close>, the flags, the instruction pointer, the stack pointer and the
list of frames, and the mask of blocked signals when it was pushed; it leaves \<open>ebx\<close>, \<open>ebp\<close>,
\<open>esi\<close>, \<open>edi\<close> and memory as the handler left them.\<close>

theorem handler_transparent:
  assumes q: "map_of (k_procs k) p = Some q" "p_cpu q = Some c" "p_state q \<noteq> SLEEPING"
    and c: "cpu_ok c" "u32 (eip c)" "stack_low (mem c) + 32 \<le> rg ESP c" "rg ESP c \<le> TASK_SIZE"
    and sig: "u32 (p_blocked q)" "u32 sig"
    and act: "p_sigactions q ! nat sig = (handler, m, fl, restorer)"
    and built: "build_signal_frame p sig k = (r, k1)" "map_of (k_procs k1) p = Some q1" "p_cpu q1 = Some c1"
    and ret: "map_of (k_procs k2) p = Some q2" "p_cpu q2 = Some c2" "p_sigframes q2 = p_sigframes q1"
      "length (regs c2) = 8" "rg ESP c2 = rg ESP c1 + 4" "mem_ok (mem c2)" "stack_low (mem c2) \<le> rg ESP c2"
      "\<And>x. rg ESP c2 \<le> x \<Longrightarrow> x < rg ESP c \<Longrightarrow> byte_at (mem c2) x = byte_at (mem c1) x"
  shows "r = Inr () \<and> eip c1 = handler \<and>
    (\<exists>k3 q3 c3. sigreturn p k2 = (Inr (), k3) \<and> map_of (k_procs k3) p = Some q3 \<and> p_cpu q3 = Some c3 \<and>
      rg EAX c3 = rg EAX c \<and> rg ECX c3 = rg ECX c \<and> rg EDX c3 = rg EDX c \<and> rg ESP c3 = rg ESP c \<and>
      flags c3 = flags c \<and> eip c3 = eip c \<and> p_sigframes q3 = p_sigframes q \<and>
      p_blocked q3 = (if fl AND SA_NOMASK = 0 then p_blocked q else p_blocked q2) \<and>
      (\<forall>i \<in> {EBX, EBP, ESI, EDI}. rg i c3 = rg i c2) \<and> mem c3 = mem c2)"
proof -
  let ?ws = "frame_words sig q c" and ?b = "fl AND SA_NOMASK = 0"
  have ok: "length (regs c) = 8" "mem_ok (mem c)" "flags_ok (flags c)" using c(1) by (simp_all add: cpu_ok_def)
  have ws: "?ws = ([eip c, flags c, rg EDX c, rg ECX c, rg EAX c] @ (if ?b then [p_blocked q] else []) @ [sig]) @
      [if restorer \<noteq> 0 then restorer else MAGIC_SIGRETURN]"
    by (simp add: frame_words_def act)
  have lws: "length ?ws = (if ?b then 8 else 7)" by (simp add: ws)
  have room: "stack_room ?ws c" using c ok by (simp add: stack_room_def lws)
  have "wp (build_signal_frame p sig) (\<lambda>x t. \<exists>q' c'. map_of (k_procs t) p = Some q' \<and> p_cpu q' = Some (c'\<lparr>eip := handler\<rparr>) \<and>
      pushed ?ws c c' \<and> p_sigframes q' = p_sigframes q @ [?b]) (\<lambda>_ _. False) k"
    by (rule wp_build_frame [OF q room act]) blast
  then obtain c' where r: "r = Inr ()" and c1: "c1 = c'\<lparr>eip := handler\<rparr>" "pushed ?ws c c'"
      "p_sigframes q1 = p_sigframes q @ [?b]"
    using built by (auto simp: wp_def split: sum.splits)
  let ?n = "length ?ws - 1"
  have take: "take ?n ?ws = [eip c, flags c, rg EDX c, rg ECX c, rg EAX c] @ (if ?b then [p_blocked q] else []) @ [sig]"
    unfolding ws by simp
  have regs: "u32 (rg EAX c)" "u32 (rg ECX c)" "u32 (rg EDX c)" using u32_rg [OF c(1)] by simp_all
  have "frame_at c2 (rev (take ?n ?ws))"
  proof (rule pushed_frame_at [OF c1(2)])
    show "list_all u32 (take ?n ?ws)" unfolding take using regs c(2) sig u32_flags [OF ok(3)] by simp
    show "rg ESP c2 = rg ESP c' + 4 * int (length ?ws - ?n)" using ret(5) c1(1) by (simp add: lws)
    show "byte_at (mem c2) x = byte_at (mem c') x" if "rg ESP c2 \<le> x" "x < rg ESP c" for x
      using ret(8) [OF that] c1(1) by simp
  qed (use ret c ok in simp_all)
  then have f: "frame_at c2 (sig # (if ?b then [p_blocked q] else []) @ [rg EAX c, rg ECX c, rg EDX c, flags c, eip c])"
    unfolding take by (simp split: if_splits)
  have frames: "p_sigframes q2 = p_sigframes q @ [?b]" using ret(3) c1(3) by simp
  have esp: "rg ESP c2 + (if ?b then 28 else 24) = rg ESP c"
    using ret(5) c1 ok by (auto simp: pushed_def rg_after_set lws)
  obtain r0 r1 r2' r3 r4 r5 r6 r7 where rs: "regs c2 = [r0, r1, r2', r3, r4, r5, r6, r7]"
    using ret(4) by (auto simp: numeral_eq_Suc length_Suc_conv)
  have "wp (sigreturn p) (\<lambda>_ t. \<exists>q3 c3. map_of (k_procs t) p = Some q3 \<and> p_cpu q3 = Some c3 \<and>
      rg EAX c3 = rg EAX c \<and> rg ECX c3 = rg ECX c \<and> rg EDX c3 = rg EDX c \<and> rg ESP c3 = rg ESP c \<and>
      flags c3 = flags c \<and> eip c3 = eip c \<and> p_sigframes q3 = p_sigframes q \<and>
      p_blocked q3 = (if ?b then p_blocked q else p_blocked q2) \<and>
      (\<forall>i \<in> {EBX, EBP, ESI, EDI}. rg i c3 = rg i c2) \<and> mem c3 = mem c2) (\<lambda>_ _. False) k2"
    by (rule wp_sigreturn [OF ret(1,2) frames f])
      (use esp in \<open>auto simp: flags_restored [OF ok(3)] set_eflags_def set_rg_def rg_def rs\<close>)
  then show ?thesis
    using r c1(1) by (auto simp: wp_def split: prod.splits sum.splits)
qed

text \<open>A process in a loop with a handler for signal 10 at 256.\<close>

definition handled_cpu :: cpu where
  "handled_cpu = set_rg ESP TASK_SIZE spin"

definition handled_proc :: proc where
  "handled_proc = (Process 1)\<lparr>p_cpu := Some handled_cpu, p_sigactions := (replicate 33 (0, 0, 0, 0))[10 := (256, 0, 0, 0)]\<rparr>"

definition handled :: kernel where
  "handled = tiny_kernel\<lparr>k_procs := [(1, handled_proc)]\<rparr>"

text \<open>The handler overwrites \<open>eax\<close> and returns.\<close>

definition clobbered :: "kernel \<Rightarrow> kernel" where
  "clobbered k = k\<lparr>k_procs := AList.map_entry 1
     (\<lambda>q. q\<lparr>p_cpu := map_option (\<lambda>c. set_rg EAX 7 (set_rg ESP (rg ESP c + 4) c)) (p_cpu q)\<rparr>) (k_procs k)\<rparr>"

lemma handled_ok: "cpu_ok handled_cpu" "rg ESP handled_cpu = TASK_SIZE" "stack_low (mem handled_cpu) = TASK_SIZE - 4096"
  "eip handled_cpu = 0" "rg EAX handled_cpu = 0"
  using cpu_ok_set_rg [OF spin_ok, of TASK_SIZE ESP]
  by (simp_all add: handled_cpu_def u32_def TASK_SIZE_def rg_def set_rg_def spin_def CPU_init_def spin_mem_def
      load_program_def AddressSpace_init_def Let_def round_page_div)

theorem handler_transparent_witness:
  "\<exists>k1 k3 q3 c3. build_signal_frame 1 10 handled = (Inr (), k1) \<and> sigreturn 1 (clobbered k1) = (Inr (), k3) \<and>
    map_of (k_procs k3) 1 = Some q3 \<and> p_cpu q3 = Some c3 \<and> rg EAX c3 = 0 \<and> eip c3 = 0 \<and> rg ESP c3 = TASK_SIZE"
proof -
  have q: "map_of (k_procs handled) 1 = Some handled_proc" "p_cpu handled_proc = Some handled_cpu"
    "p_state handled_proc \<noteq> SLEEPING" "p_sigactions handled_proc ! nat 10 = (256, 0, 0, 0)" "p_blocked handled_proc = 0"
    by (simp_all add: handled_def handled_proc_def Process_def)
  have len: "length (regs handled_cpu) = 8" "mem_ok (mem handled_cpu)"
    using handled_ok(1) by (simp_all add: cpu_ok_def)
  have "stack_room (frame_words 10 handled_proc handled_cpu) handled_cpu"
    using handled_ok len q(4) by (simp add: stack_room_def frame_words_def)
  then have "wp (build_signal_frame 1 10) (\<lambda>x t. \<exists>q' c'. map_of (k_procs t) 1 = Some q' \<and>
      p_cpu q' = Some (c'\<lparr>eip := 256\<rparr>) \<and> pushed (frame_words 10 handled_proc handled_cpu) handled_cpu c') (\<lambda>_ _. False) handled"
    by (intro wp_build_frame [OF q(1-3) _ q(4)]) blast+
  then obtain k1 q1 c1 where k1: "build_signal_frame 1 10 handled = (Inr (), k1)" "map_of (k_procs k1) 1 = Some q1"
      "p_cpu q1 = Some c1" "length (regs c1) = 8" "mem_ok (mem c1)" "stack_low (mem c1) = TASK_SIZE - 4096"
      "rg ESP c1 = TASK_SIZE - 32"
    using len handled_ok(2,3) q(4)
    by (auto simp: wp_def pushed_def rg_after_set frame_words_def split: prod.splits sum.splits)
  let ?c2 = "set_rg EAX 7 (set_rg ESP (rg ESP c1 + 4) c1)"
  have "map_of (k_procs (clobbered k1)) 1 = Some (q1\<lparr>p_cpu := Some ?c2\<rparr>)"
    using k1 by (simp add: clobbered_def)
  from handler_transparent [OF q(1-3) handled_ok(1) _ _ _ _ _ q(4) k1(1-3) this]
  show ?thesis
    using k1 handled_ok q(5) by (auto simp: rg_after_set u32_def TASK_SIZE_def)
qed

end
