(* ===== verification/Cpu_Disasm_Props.thy ===== *)
theory Cpu_Disasm_Props
  imports Cpu_Disasm Cpu_Props
begin

text \<open>
  The disassembler follows the decoder of the CPU: from the same address it passes over the
  same bytes. \<open>follows\<close> relates a decoder to a reader, and has a rule for each construct.
\<close>

section \<open>Reading bytes\<close>

lemma read_u8_inside:
  assumes "mem_ok m" and "read_u8 a m = Inr v"
  shows "0 \<le> a \<and> a < TASK_SIZE \<and> (a + 1) AND MASK32 = a + 1 \<and> 0 \<le> v \<and> v < 256"
proof -
  have "0 \<le> stack_low m" "low_end m \<le> stack_low m" "stack_low m \<le> TASK_SIZE"
    using assms(1) by (auto simp: mem_ok_def separated_def as_wf_def)
  with assms(2) have "0 \<le> a \<and> a < TASK_SIZE" "0 \<le> v \<and> v < 256"
    by (auto simp: read_u8_def uint_byte_bounds split: if_splits)
  then show ?thesis by (simp add: MASK32_def and_masks TASK_SIZE_def)
qed

lemma d_u8_at: "mem_ok m \<Longrightarrow> read_u8 a m = Inr v \<Longrightarrow> d_u8 m a = Some (v, a + 1)"
  using read_u8_inside [of m a v] by (simp add: d_u8_def)

lemma read_u16_parts:
  assumes "mem_ok m" and "read_u16 a m = Inr v"
  shows "\<exists>x y. read_u8 a m = Inr x \<and> read_u8 (a + 1) m = Inr y"
  using assms
  by (auto simp: read_u16_def read_u8_def in_low_def in_stack_def mem_ok_def as_wf_def separated_def split: if_splits)

lemma read_u32_parts:
  assumes "mem_ok m" and "read_u32 a m = Inr v"
  shows "\<exists>x y z w. read_u8 a m = Inr x \<and> read_u8 (a + 1) m = Inr y \<and> read_u8 (a + 2) m = Inr z \<and>
    read_u8 (a + 3) m = Inr w"
  using assms
  by (auto simp: read_u32_def read_u8_def in_low_def in_stack_def mem_ok_def as_wf_def separated_def split: if_splits)

lemma d_u16_at: "mem_ok m \<Longrightarrow> read_u16 a m = Inr v \<Longrightarrow> \<exists>u. d_u16 m a = Some (u, a + 2)"
  using read_u16_parts [of m a v] by (auto simp: d_u16_def seq_rd_def give_def d_u8_at)

lemma d_u32_at:
  assumes "mem_ok m" and "read_u32 a m = Inr v"
  shows "\<exists>u. d_u32 m a = Some (u, a + 4)"
proof -
  obtain x y z w where "read_u8 a m = Inr x" "read_u8 (a + 1) m = Inr y" "read_u8 (a + 2) m = Inr z"
      "read_u8 (a + 3) m = Inr w"
    using read_u32_parts [OF assms] by blast
  then have "d_u8 m a = Some (x, a + 1)" "d_u8 m (a + 1) = Some (y, a + 2)" "d_u8 m (a + 2) = Some (z, a + 3)"
    "d_u8 m (a + 3) = Some (w, a + 4)"
    using d_u8_at [OF assms(1)] by fastforce+
  then show ?thesis by (simp add: d_u32_def seq_rd_def give_def)
qed

lemma d_s8_at: "mem_ok m \<Longrightarrow> read_u8 a m = Inr v \<Longrightarrow> \<exists>u. d_s8 m a = Some (u, a + 1)"
  by (simp add: d_s8_def seq_rd_def give_def d_u8_at)

lemma d_s32_at: "mem_ok m \<Longrightarrow> read_u32 a m = Inr v \<Longrightarrow> \<exists>u. d_s32 m a = Some (u, a + 4)"
  using d_u32_at [of m a v] by (auto simp: d_s32_def seq_rd_def give_def)

section \<open>Following a decoder\<close>

definition follows :: "insn addrspace \<Rightarrow> ('a \<Rightarrow> bool) \<Rightarrow> ('a \<Rightarrow> 'b \<Rightarrow> int \<Rightarrow> bool) \<Rightarrow> ('x, 'a) cm \<Rightarrow> 'b rd \<Rightarrow> bool" where
  "follows m G P cm r \<longleftrightarrow> (\<forall>c x c'. mem c = m \<longrightarrow> cm c = (Inr x, c') \<longrightarrow> G x \<longrightarrow>
     mem c' = m \<and> (\<exists>y. r (eip c) = Some (y, eip c') \<and> P x y (eip c')))"

named_theorems follow_rules \<open>introduction rules for \<open>follows\<close>\<close>

lemma followsD:
  assumes "follows m G P cm r" and "mem c = m" and "cm c = (Inr x, c')" and "G x"
  obtains y where "mem c' = m" "r (eip c) = Some (y, eip c')" "P x y (eip c')"
  using assms unfolding follows_def by blast

lemma followsI:
  "(\<And>c x c'. mem c = m \<Longrightarrow> cm c = (Inr x, c') \<Longrightarrow> G x \<Longrightarrow>
     mem c' = m \<and> (\<exists>y. r (eip c) = Some (y, eip c') \<and> P x y (eip c'))) \<Longrightarrow> follows m G P cm r"
  unfolding follows_def by blast

lemma bindE_Inr:
  assumes "bindE cm f c = (Inr x, c')"
  obtains u d where "cm c = (Inr u, d)" "f u d = (Inr x, c')"
  using assms by (auto simp: bindE_def split: prod.splits sum.splits)

lemma follows_bind:
  assumes r: "follows m (\<lambda>_. True) P cm r" and f: "\<And>x y p. P x y p \<Longrightarrow> follows m G Q (f x) (g y)"
  shows "follows m G Q (bindE cm f) (seq_rd r g)"
proof (rule followsI)
  fix c x c'
  assume c: "mem c = m" "bindE cm f c = (Inr x, c')" "G x"
  obtain u d where u: "cm c = (Inr u, d)" "f u d = (Inr x, c')" using c(2) by (rule bindE_Inr)
  obtain y where y: "mem d = m" "r (eip c) = Some (y, eip d)" "P u y (eip d)"
    using followsD [OF r c(1) u(1)] by blast
  from followsD [OF f [OF y(3)] y(1) u(2) c(3)]
  show "mem c' = m \<and> (\<exists>y. seq_rd r g (eip c) = Some (y, eip c') \<and> Q x y (eip c'))"
    using y(2) by (auto simp: seq_rd_def)
qed

lemma follows_gets:
  assumes f: "\<And>t. follows m G Q (f t) r"
  shows "follows m G Q (bindE (gets g) f) r"
proof (rule followsI)
  fix c x c'
  assume c: "mem c = m" "bindE (gets g) f c = (Inr x, c')" "G x"
  then have "f (g c) c = (Inr x, c')" by (simp add: bindE_def gets_def)
  from followsD [OF f c(1) this c(3)]
  show "mem c' = m \<and> (\<exists>y. r (eip c) = Some (y, eip c') \<and> Q x y (eip c'))" by blast
qed

lemma follows_here:
  assumes f: "\<And>p. follows m G Q cm (f p)"
  shows "follows m G Q cm (seq_rd here f)"
proof (rule followsI)
  fix c x c'
  assume c: "mem c = m" "cm c = (Inr x, c')" "G x"
  from followsD [OF f c, of "eip c"]
  show "mem c' = m \<and> (\<exists>y. seq_rd here f (eip c) = Some (y, eip c') \<and> Q x y (eip c'))"
    unfolding seq_rd_def here_def by (simp only: option.case prod.case) blast
qed

definition any :: "'a \<Rightarrow> 'b \<Rightarrow> int \<Rightarrow> bool" where
  "any x y p = True"

lemma follows_ret: "follows m G any (ret x) (give y)"
  by (auto intro!: followsI simp: ret_def give_def any_def)

lemma follows_if: "(b \<Longrightarrow> follows m G P cm r) \<Longrightarrow> (\<not> b \<Longrightarrow> follows m G P cm' r') \<Longrightarrow>
  follows m G P (if b then cm else cm') (if b then r else r')"
  by simp

lemma follows_map:
  assumes "follows m (\<lambda>_. True) any cm r"
  shows "follows m (\<lambda>_. True) any (bindE cm (\<lambda>v. ret (f v))) r"
proof (rule followsI)
  fix c x c'
  assume c: "mem c = m" "bindE cm (\<lambda>v. ret (f v)) c = (Inr x, c')"
  obtain u d where u: "cm c = (Inr u, d)" "ret (f u) d = (Inr x, c')" using c(2) by (rule bindE_Inr)
  obtain y where "mem d = m" "r (eip c) = Some (y, eip d)" using followsD [OF assms c(1) u(1)] by blast
  with u(2) show "mem c' = m \<and> (\<exists>y. r (eip c) = Some (y, eip c') \<and> any x y (eip c'))"
    by (simp add: ret_def any_def)
qed

lemma follows_give:
  assumes "follows m (\<lambda>_. True) any cm r"
  shows "follows m (\<lambda>_. True) any cm (seq_rd r (\<lambda>v. give (f v)))"
proof (rule followsI)
  fix c x c'
  assume c: "mem c = m" "cm c = (Inr x, c')"
  obtain y where "mem c' = m" "r (eip c) = Some (y, eip c')" using followsD [OF assms c] by blast
  then show "mem c' = m \<and> (\<exists>y. seq_rd r (\<lambda>v. give (f v)) (eip c) = Some (y, eip c') \<and> any x y (eip c'))"
    by (simp add: seq_rd_def give_def any_def)
qed

lemmas fetch_defs = fetch8_def fetch16_def fetch32_def thenE_def gets_def from_mem_def set_eip_def modify_def ret_def

lemma follows_read:
  assumes f: "\<And>c x c'. cm c = (Inr x, c') \<Longrightarrow> rd (eip c) (mem c) = Inr x \<and> mem c' = mem c \<and> eip c' = eip c + n"
    and r: "\<And>a v. rd a m = Inr v \<Longrightarrow> \<exists>u. r a = Some (u, a + n)"
  shows "follows m (\<lambda>_. True) any cm r"
proof (rule followsI)
  fix c x c'
  assume c: "mem c = m" "cm c = (Inr x, c')"
  have f': "rd (eip c) m = Inr x" "mem c' = m" "eip c' = eip c + n" using f [OF c(2)] c(1) by simp_all
  obtain u where "r (eip c) = Some (u, eip c')" using r [OF f'(1)] f'(3) by auto
  with f'(2) show "mem c' = m \<and> (\<exists>y. r (eip c) = Some (y, eip c') \<and> any x y (eip c'))"
    unfolding any_def by blast
qed

lemma fetch_reads:
  "fetch8 c = (Inr x, c') \<Longrightarrow> read_u8 (eip c) (mem c) = Inr x \<and> mem c' = mem c \<and> eip c' = eip c + 1"
  "fetch16 c = (Inr x, c') \<Longrightarrow> read_u16 (eip c) (mem c) = Inr x \<and> mem c' = mem c \<and> eip c' = eip c + 2"
  "fetch32 c = (Inr x, c') \<Longrightarrow> read_u32 (eip c) (mem c) = Inr x \<and> mem c' = mem c \<and> eip c' = eip c + 4"
  by (auto simp: fetch_defs bindE_def split: sum.splits)

lemma follows_fetch:
  assumes ok: "mem_ok m"
  shows "follows m (\<lambda>_. True) any fetch8 (d_u8 m)" "follows m (\<lambda>_. True) any fetch8 (d_s8 m)"
    "follows m (\<lambda>_. True) any fetch16 (d_u16 m)" "follows m (\<lambda>_. True) any fetch32 (d_u32 m)"
    "follows m (\<lambda>_. True) any fetch32 (d_s32 m)"
proof -
  show "follows m (\<lambda>_. True) any fetch8 (d_u8 m)" "follows m (\<lambda>_. True) any fetch8 (d_s8 m)"
    by (rule follows_read [OF fetch_reads(1)]; simp add: d_u8_at [OF ok] d_s8_at [OF ok])+
  show "follows m (\<lambda>_. True) any fetch16 (d_u16 m)"
    by (rule follows_read [OF fetch_reads(2)]; simp add: d_u16_at [OF ok])
  show "follows m (\<lambda>_. True) any fetch32 (d_u32 m)" "follows m (\<lambda>_. True) any fetch32 (d_s32 m)"
    by (rule follows_read [OF fetch_reads(3)]; simp add: d_u32_at [OF ok] d_s32_at [OF ok])+
qed

lemma follows_op:
  assumes ok: "mem_ok m"
  shows "follows m (\<lambda>_. True) (\<lambda>x y p. x = y \<and> 0 \<le> x \<and> x < 256) fetch8 (d_u8 m)"
proof (rule followsI)
  fix c :: "'a cpu_scheme" and x c'
  assume c: "mem c = m" "fetch8 c = (Inr x, c')"
  then show "mem c' = m \<and> (\<exists>y. d_u8 m (eip c) = Some (y, eip c') \<and> x = y \<and> 0 \<le> x \<and> x < 256)"
    using fetch_reads(1) [OF c(2)] d_u8_at [OF ok] read_u8_inside [OF ok] by auto
qed

section \<open>The ModRM byte\<close>

lemma bindR_Inr: "bindR r f = Inr x \<Longrightarrow> \<exists>v. r = Inr v \<and> f v = Inr x"
  by (cases r) simp_all

lemma dis_sib_at:
  assumes ok: "mem_ok m" and s: "sib_base md rm a m = Inr (base, index, scale, disp, a')"
  shows "\<exists>b i sc d. dis_sib m md rm a = Some ((b, i, sc, d), a')"
  using s
  by (auto simp: sib_base_def dis_sib_def seq_rd_def give_def Let_def d_u8_at [OF ok]
      dest!: bindR_Inr d_s32_at [OF ok] split: if_splits)

lemma dis_modrm_at:
  assumes ok: "mem_ok m" and s: "modrm_at a m = Inr (mm, a')"
  shows "\<exists>md rm t. dis_modrm m sz a = Some ((md, modrm_reg mm, rm, t), a')"
proof -
  obtain b where b: "read_u8 a m = Inr b" using s by (auto simp: modrm_at_def dest: bindR_Inr)
  note db = d_u8_at [OF ok b]
  show ?thesis
  proof (cases "drop_bit 6 b = 3")
    case True
    with s b db show ?thesis
      by (auto simp: modrm_at_def dis_modrm_def seq_rd_def give_def Let_def modrm_reg_def)
  next
    case False
    obtain base index scale disp a1 where sb: "sib_base (drop_bit 6 b) (b AND 7) (a + 1) m = Inr (base, index, scale, disp, a1)"
      using s b False by (auto simp: modrm_at_def Let_def dest!: bindR_Inr)
    obtain b' i sc d where db': "dis_sib m (drop_bit 6 b) (b AND 7) (a + 1) = Some ((b', i, sc, d), a1)"
      using dis_sib_at [OF ok sb] by blast
    show ?thesis
      using s b sb db' False
      by (auto simp: modrm_at_def dis_modrm_def seq_rd_def give_def Let_def modrm_reg_def db
          dest!: bindR_Inr d_s8_at [OF ok] d_s32_at [OF ok] split: if_splits)
  qed
qed

lemma follows_modrm:
  assumes ok: "mem_ok m"
  shows "follows m (\<lambda>_. True) (\<lambda>x y p. modrm_reg x = fst (snd y)) modrm_dec (dis_modrm m sz)"
proof (rule followsI)
  fix c x c'
  assume c: "mem c = m" "modrm_dec c = (Inr x, c')"
  then have "modrm_at (eip c) m = Inr (x, eip c')" "mem c' = m"
    by (auto simp: modrm_dec_def fetch_defs bindE_def split: sum.splits)
  with dis_modrm_at [OF ok, of "eip c" x "eip c'" sz]
  show "mem c' = m \<and> (\<exists>y. dis_modrm m sz (eip c) = Some (y, eip c') \<and> modrm_reg x = fst (snd y))" by auto
qed

section \<open>The decoded instruction\<close>

text \<open>What is claimed of an instruction that is not \<open>H_bad\<close>: its length ends where the reader is.\<close>

definition good :: "insn \<Rightarrow> bool" where
  "good e \<longleftrightarrow> e_fn e \<noteq> H_bad"

definition ends_at :: "int \<Rightarrow> insn \<Rightarrow> string \<Rightarrow> int \<Rightarrow> bool" where
  "ends_at start e s p \<longleftrightarrow> e_len e = p - start"

lemma follows_mk:
  "follows m good (ends_at start) (mk start v sz mm imm) (give t)"
  "follows m good (ends_at start) (mk_reg start f sz reg base imm) (give t)"
  "follows m good (ends_at start) (mk_E start f sz reg imm) (give t)"
  by (auto intro!: followsI simp: mk_def mk_reg_def mk_E_def gets_def give_def ends_at_def Let_def split: prod.splits)

lemma follows_bad:
  "follows m good (ends_at start) (mk_bad start sz mm op) r"
  "follows m good (ends_at start) (mk_E start H_bad sz op imm) r"
  by (auto intro!: followsI simp: mk_bad_def mk_def mk_reg_def mk_E_def gets_def bindE_def ret_def good_def Let_def
      split: prod.splits)

lemma follows_on_modrm:
  assumes ok: "mem_ok m" and f: "\<And>x s. follows m G Q (f x) (g (modrm_reg x) s)"
  shows "follows m G Q (bindE modrm_dec f) (on_modrm m sz g)"
  unfolding on_modrm_def
proof (rule follows_bind [OF follows_modrm [OF ok]])
  fix x :: modrm and y :: "int \<times> int \<times> int \<times> string" and p
  assume e: "modrm_reg x = fst (snd y)"
  obtain md reg rm s where y: "y = (md, reg, rm, s)" by (cases y)
  show "follows m G Q (f x) (case y of (md, reg, rm, s) \<Rightarrow> g reg s)" using f [of x s] e by (simp add: y)
qed

lemma follows_with_modrm:
  "mem_ok m \<Longrightarrow> follows m good (ends_at start) (with_modrm start v sz imm) (on_modrm m sz' (\<lambda>reg s. give (t reg s)))"
  unfolding with_modrm_def by (intro follows_on_modrm follows_mk)

lemma follows_imm:
  assumes ok: "mem_ok m"
  shows "sz = 2 \<or> sz = 4 \<Longrightarrow> follows m (\<lambda>_. True) any (fetch_imm sz) (d_imm m sz)"
    "sz = 1 \<or> sz = 2 \<or> sz = 4 \<Longrightarrow> follows m (\<lambda>_. True) any (fetch_imm sz) (if sz = 1 then d_u8 m else d_imm m sz)"
    "follows m (\<lambda>_. True) any (fetch_imm 1) (d_u8 m)"
  using follows_fetch [OF ok] by (auto simp: fetch_imm_def d_imm_def)

lemmas one_op_defs = one_op_def one_high_def

section \<open>One decoder at a time\<close>

lemma follows_then:
  assumes "follows m (\<lambda>_. True) any cm r" and "\<And>x y. follows m G Q (f x) (g y)"
  shows "follows m G Q (bindE cm f) (seq_rd r g)"
  using assms(1) by (rule follows_bind) (rule assms(2))

lemma follows_jump:
  assumes "follows m (\<lambda>_. True) any cm r"
  shows "follows m good (ends_at start)
    (bindE cm (\<lambda>v. bindE (gets (jump_target (g v))) (\<lambda>t. mk_E start f sz reg t))) (jump_text name r)"
  unfolding jump_text_def by (intro follows_then [OF assms] follows_gets follows_here follows_mk)

lemma follows_split:
  assumes "\<And>a b. follows m G P (f a b) r"
  shows "follows m G P (case x of (a, b) \<Rightarrow> f a b) r"
  using assms by (cases x) simp

lemma follows_alu:
  assumes ok: "mem_ok m" and "opsize = 2 \<or> opsize = 4"
  shows "follows m good (ends_at start) (dec_alu op opsize start) (dis_alu m op opsize)"
  unfolding dec_alu_def dis_alu_def Let_def
  by (intro follows_if follows_with_modrm follows_then follows_mk follows_fetch follows_imm assms)

lemma follows_shift:
  assumes ok: "mem_ok m" and "opsize = 2 \<or> opsize = 4"
  shows "follows m good (ends_at start) (dec_shift op opsize start) (dis_shift m op opsize)"
  unfolding dec_shift_def dis_shift_def Let_def
  by (intro follows_on_modrm follows_then follows_split follows_if)
    (auto intro: follows_if follows_then follows_fetch follows_ret follows_mk follows_bad ok)

lemma follows_grp_f7:
  assumes ok: "mem_ok m" and "opsize = 2 \<or> opsize = 4"
  shows "follows m good (ends_at start) (dec_grp_f7 op opsize start) (dis_grp3 m op opsize)"
  using assms(2) unfolding dec_grp_f7_def dis_grp3_def Let_def
  by (auto intro!: follows_on_modrm ok follows_then follows_mk follows_imm)

lemma follows_if_cm:
  "(b \<Longrightarrow> follows m G P cm r) \<Longrightarrow> (\<not> b \<Longrightarrow> follows m G P cm' r) \<Longrightarrow> follows m G P (if b then cm else cm') r"
  by simp

lemma follows_if_rd:
  "(b \<Longrightarrow> follows m G P cm r) \<Longrightarrow> (\<not> b \<Longrightarrow> follows m G P cm r') \<Longrightarrow> follows m G P cm (if b then r else r')"
  by simp

lemma follows_bt:
  assumes ok: "mem_ok m" and "op \<in> {0xA3, 0xAB, 0xB3, 0xBB, 0xBA}"
  shows "follows m good (ends_at start) (dec_bt op opsize start) (one_0f m op opsize)"
  using assms(2) unfolding dec_bt_def
  by (auto simp: one_0f_def intro!: follows_on_modrm follows_if follows_then follows_mk follows_bad follows_fetch ok)

lemma follows_shd:
  assumes ok: "mem_ok m" and "op \<in> {0xA4, 0xA5, 0xAC, 0xAD}"
  shows "follows m good (ends_at start) (dec_shd op opsize start) (one_0f m op opsize)"
  using assms(2) unfolding dec_shd_def
  by (auto simp: one_0f_def intro!: follows_on_modrm follows_then follows_mk follows_ret follows_give follows_fetch ok)

lemma follows_0f:
  assumes ok: "mem_ok m" and "0 \<le> op \<and> op < 256"
  shows "follows m good (ends_at start) (DEC0F op opsize start) (one_0f m op opsize)"
  unfolding DEC0F_def
  apply (intro follows_if_cm)
  subgoal using ok by (simp add: dec_jcc32_def one_0f_def follows_jump follows_fetch)
  subgoal using ok by (simp add: dec_setcc_def one_0f_def follows_with_modrm)
  subgoal using ok by (simp add: one_0f_def follows_with_modrm)
  subgoal using ok by (simp only: follows_bt)
  subgoal using ok by (auto simp add: one_0f_def follows_with_modrm)
  subgoal using ok by (simp only: follows_shd)
  subgoal using ok by (auto simp add: dec_movx_def one_0f_def follows_with_modrm)
  subgoal by (rule follows_bad)
  done

lemma follows_push_imm:
  assumes ok: "mem_ok m" and sz: "opsize = 2 \<or> opsize = 4" and op: "op \<in> {0x68, 0x6A}"
  shows "follows m good (ends_at start) (dec_push_imm op opsize start) (one_op m op opsize)"
  using op sz unfolding dec_push_imm_def
  by safe (simp_all add: one_op_defs,
    auto intro!: follows_on_modrm follows_then follows_mk follows_ret follows_map follows_give
      follows_fetch follows_imm ok)

lemma follows_imul3:
  assumes ok: "mem_ok m" and sz: "opsize = 2 \<or> opsize = 4" and op: "op \<in> {0x69, 0x6B}"
  shows "follows m good (ends_at start) (dec_imul3 op opsize start) (one_op m op opsize)"
  using op sz unfolding dec_imul3_def
  by safe (simp_all add: one_op_defs,
    auto intro!: follows_on_modrm follows_then follows_mk follows_ret follows_map follows_give
      follows_fetch follows_imm ok)

lemma follows_alu_imm:
  assumes ok: "mem_ok m" and sz: "opsize = 2 \<or> opsize = 4" and op: "op \<in> {0x80, 0x81, 0x83}"
  shows "follows m good (ends_at start) (dec_alu_imm op opsize start) (one_op m op opsize)"
  using op sz unfolding dec_alu_imm_def Let_def
  by safe (simp_all add: one_op_defs,
    auto intro!: follows_on_modrm follows_then follows_mk follows_ret follows_map follows_give
      follows_fetch follows_imm ok)

lemma follows_moffs:
  assumes ok: "mem_ok m" and sz: "opsize = 2 \<or> opsize = 4" and op: "op \<in> {0xA0, 0xA1, 0xA2, 0xA3}"
  shows "follows m good (ends_at start) (dec_moffs op opsize start) (one_op m op opsize)"
  using op sz unfolding dec_moffs_def
  by safe (simp_all add: one_op_defs,
    auto intro!: follows_on_modrm follows_then follows_mk follows_ret follows_map follows_give
      follows_fetch follows_imm ok)

lemma follows_test_acc_imm:
  assumes ok: "mem_ok m" and sz: "opsize = 2 \<or> opsize = 4" and op: "op \<in> {0xA8, 0xA9}"
  shows "follows m good (ends_at start) (dec_test_acc_imm op opsize start) (one_op m op opsize)"
  using op sz unfolding dec_test_acc_imm_def Let_def
  by safe (simp_all add: one_op_defs,
    auto intro!: follows_on_modrm follows_then follows_mk follows_ret follows_map follows_give
      follows_fetch follows_imm ok)

lemma follows_mov_rm_imm:
  assumes ok: "mem_ok m" and sz: "opsize = 2 \<or> opsize = 4" and op: "op \<in> {0xC6, 0xC7}"
  shows "follows m good (ends_at start) (dec_mov_rm_imm op opsize start) (one_op m op opsize)"
  using op sz unfolding dec_mov_rm_imm_def Let_def
  by safe (simp_all add: one_op_defs,
    auto intro!: follows_on_modrm follows_then follows_mk follows_ret follows_map follows_give
      follows_fetch follows_imm ok)

lemma ret_then: "bindE (ret x) f = f x"
  by (simp add: bindE_def ret_def fun_eq_iff)

lemma follows_int:
  assumes ok: "mem_ok m" and op: "op \<in> {0xCC, 0xCD}"
  shows "follows m good (ends_at start) (dec_int op opsize start) (one_op m op opsize)"
  using op unfolding dec_int_def
  by safe (simp_all add: one_op_defs ret_then follows_mk follows_then follows_fetch ok)

lemma follows_grp_ff:
  assumes ok: "mem_ok m" and op: "op \<in> {0xFE, 0xFF}"
  shows "follows m good (ends_at start) (dec_grp_ff op opsize start) (one_op m op opsize)"
  using op unfolding dec_grp_ff_def Let_def
  by safe (simp_all add: one_op_defs Let_def,
    (intro follows_on_modrm ok follows_if_cm follows_mk follows_bad)+)

lemma follows_DEC:
  assumes ok: "mem_ok m" and op: "0 \<le> op \<and> op < 256" and sz: "opsize = 2 \<or> opsize = 4"
  shows "follows m good (ends_at start) (DEC op opsize start) (one_op m op opsize)"
  unfolding DEC_def
  apply (intro follows_if_cm)
  subgoal using ok sz by (simp add: one_op_defs follows_alu)
  subgoal using ok sz by (simp add: one_op_defs dec_0f_def) (rule follows_bind [OF follows_op]; simp add: follows_0f)
  subgoal by (simp add: dec_incdec_r_def one_op_defs follows_mk)
  subgoal by (simp add: dec_push_r_def one_op_defs follows_mk)
  subgoal by (simp add: dec_pop_r_def one_op_defs follows_mk)
  subgoal using ok sz by (simp add: follows_push_imm)
  subgoal using ok sz by (simp add: follows_imul3)
  subgoal using ok by (simp add: dec_jcc8_def one_op_defs follows_jump follows_fetch)
  subgoal using ok sz by (simp only: follows_alu_imm)
  subgoal using ok by (elim disjE; simp add: one_op_defs dec_test_rm_r_def follows_with_modrm)
  subgoal using ok by (elim disjE; simp add: one_op_defs dec_xchg_def follows_with_modrm)
  subgoal using ok by (elim disjE; simp add: one_op_defs dec_mov_rm_r_def follows_with_modrm)
  subgoal using ok by (elim disjE; simp add: one_op_defs dec_mov_r_rm_def follows_with_modrm)
  subgoal using ok by (simp add: one_op_defs dec_lea_def follows_with_modrm)
  subgoal using ok by (simp add: one_op_defs dec_pop_rm_def follows_with_modrm)
  subgoal by (simp add: dec_simple_def one_op_defs follows_mk)
  subgoal by (simp add: dec_xchg_eax_r_def one_op_defs follows_mk)
  subgoal by (simp add: dec_simple_def one_op_defs follows_mk)
  subgoal by (simp add: dec_simple_def one_op_defs follows_mk)
  subgoal by (simp add: dec_simple_def one_op_defs follows_mk)
  subgoal by (simp add: dec_simple_def one_op_defs follows_mk)
  subgoal by (simp add: dec_simple_def one_op_defs follows_mk)
  subgoal by (simp add: dec_simple_def one_op_defs follows_mk)
  subgoal premises p
  proof -
    have "op \<in> {0xA0, 0xA1, 0xA2, 0xA3}" using p by auto
    then show ?thesis using ok sz by (simp only: follows_moffs)
  qed
  subgoal using ok sz by (simp add: follows_test_acc_imm)
  subgoal by (simp add: dec_string_def one_op_defs follows_mk)
  subgoal using ok by (simp add: dec_mov_r8_imm_def one_op_defs follows_then follows_fetch follows_mk)
  subgoal using ok sz by (simp add: dec_mov_r_imm_def one_op_defs follows_then follows_imm follows_mk)
  subgoal using ok sz by (simp only: insert_iff empty_iff, elim disjE; simp add: one_op_defs follows_shift)
  subgoal using ok by (simp add: dec_ret_n_def one_op_defs follows_then follows_fetch follows_mk)
  subgoal by (simp add: dec_simple_def one_op_defs follows_mk)
  subgoal using ok sz by (simp add: follows_mov_rm_imm)
  subgoal using ok by (simp add: dec_enter_def one_op_defs follows_then follows_fetch follows_mk)
  subgoal by (simp add: dec_simple_def one_op_defs follows_mk)
  subgoal using ok sz by (simp add: follows_int)
  subgoal by (simp add: dec_simple_def one_op_defs follows_mk)
  subgoal using ok by (simp add: dec_loop_def one_op_defs follows_jump follows_fetch)
  subgoal using ok by (simp add: dec_call_rel_def one_op_defs follows_jump follows_fetch)
  subgoal using ok by (simp add: dec_jmp_rel32_def one_op_defs follows_jump follows_fetch)
  subgoal using ok by (simp add: dec_jmp_rel8_def one_op_defs follows_jump follows_fetch)
  subgoal by (simp add: dec_simple_def one_op_defs follows_mk)
  subgoal using ok sz by (elim disjE; simp add: one_op_defs follows_grp_f7)
  subgoal by (simp add: dec_simple_def one_op_defs follows_mk)
  subgoal by (simp add: dec_simple_def one_op_defs follows_mk)
  subgoal by (simp add: dec_simple_def one_op_defs follows_mk)
  subgoal by (simp add: dec_simple_def one_op_defs follows_mk)
  subgoal using ok by (simp add: follows_grp_ff)
  subgoal by (rule follows_bad)
  done

section \<open>The cursor stays an address\<close>

definition u32_rd :: "'a rd \<Rightarrow> bool" where
  "u32_rd r \<longleftrightarrow> (\<forall>p x p'. u32 p \<longrightarrow> r p = Some (x, p') \<longrightarrow> u32 p')"

lemma u32_rd_basic:
  "u32_rd (give x)" "u32_rd bad_insn" "u32_rd here" "u32_rd (d_u8 m)"
  by (auto simp: u32_rd_def give_def bad_insn_def here_def d_u8_def u32_def MASK32_def and_masks
      split: sum.splits)

lemma u32_rd_seq:
  assumes r: "u32_rd r" and f: "\<And>x. u32_rd (f x)"
  shows "u32_rd (seq_rd r f)"
  unfolding u32_rd_def
proof (intro allI impI)
  fix p x p'
  assume p: "u32 p" "seq_rd r f p = Some (x, p')"
  then obtain y q where q: "r p = Some (y, q)" "f y q = Some (x, p')"
    by (auto simp: seq_rd_def split: option.splits prod.splits)
  then have "u32 q" using r p(1) unfolding u32_rd_def by blast
  with q(2) f [of y] show "u32 p'" unfolding u32_rd_def by blast
qed

lemma u32_rd_if: "u32_rd r \<Longrightarrow> u32_rd r' \<Longrightarrow> u32_rd (if b then r else r')"
  by simp

lemma u32_rd_split: "(\<And>x y. u32_rd (f x y)) \<Longrightarrow> u32_rd (case z of (x, y) \<Rightarrow> f x y)"
  by (cases z) simp

lemma u32_rd_numbers:
  "u32_rd (d_u16 m)" "u32_rd (d_u32 m)" "u32_rd (d_s8 m)" "u32_rd (d_s32 m)" "u32_rd (d_imm m sz)"
  unfolding d_u16_def d_u32_def d_s8_def d_s32_def d_imm_def
  by (intro u32_rd_seq u32_rd_basic u32_rd_if)+

lemma u32_rd_modrm: "u32_rd (dis_modrm m sz)"
  unfolding dis_modrm_def dis_sib_def Let_def
  by (intro u32_rd_seq u32_rd_basic u32_rd_if u32_rd_split u32_rd_numbers)

lemma u32_rd_on_modrm: "(\<And>reg s. u32_rd (f reg s)) \<Longrightarrow> u32_rd (on_modrm m sz f)"
  unfolding on_modrm_def by (intro u32_rd_seq u32_rd_modrm u32_rd_split)

lemma u32_rd_jump: "u32_rd r \<Longrightarrow> u32_rd (jump_text name r)"
  unfolding jump_text_def by (intro u32_rd_seq u32_rd_basic)

lemmas u32_rd_rules = u32_rd_seq u32_rd_basic u32_rd_if u32_rd_numbers u32_rd_on_modrm u32_rd_jump

lemma u32_rd_parts: "u32_rd (dis_alu m op sz)" "u32_rd (dis_shift m op sz)" "u32_rd (dis_grp3 m op sz)"
  "u32_rd (one_0f m op sz)"
  unfolding dis_alu_def dis_shift_def dis_grp3_def one_0f_def Let_def by (intro u32_rd_rules)+

lemma u32_rd_one_op: "u32_rd (one_op m op sz)"
  unfolding one_op_defs Let_def by (intro u32_rd_rules u32_rd_parts)

section \<open>Prefixes\<close>

definition rep_opt :: "int \<Rightarrow> int option" where
  "rep_opt r = (if r = 0 then None else Some r)"

lemma dis_prefixes_follow:
  "prefix_loop op opsize rep a m = Inr (opsize', rep', op', a') \<Longrightarrow> mem_ok m \<Longrightarrow> read_u8 (a - 1) m = Inr op \<Longrightarrow>
   nat (TASK_SIZE - (a - 1)) < n \<Longrightarrow>
   dis_prefixes n m opsize (rep_opt rep) (a - 1) = Some ((opsize', rep_opt rep', op'), a')
     \<and> read_u8 (a' - 1) m = Inr op'"
proof (induction op opsize rep a m arbitrary: n rule: prefix_loop.induct)
  case (1 op opsize rep a m)
  obtain k where n: "n = Suc k" using 1(5) by (cases n) auto
  have a: "0 \<le> a - 1" "a - 1 < TASK_SIZE" using read_u8_inside [OF 1(3,4)] by auto
  have d: "d_u8 m (a - 1) = Some (op, a)" using d_u8_at [OF 1(3,4)] by simp
  show ?case
  proof (cases "op \<in> set PREFIXES")
    case True
    obtain b where b: "read_u8 a m = Inr b"
      and l: "prefix_loop b (if op = 0x66 then 2 else opsize) (if op = 0xF2 \<or> op = 0xF3 then op else rep)
         (a + 1) m = Inr (opsize', rep', op', a')"
      using prefix_loop_step [OF 1(2) True] by metis
    have k: "nat (TASK_SIZE - (a + 1 - 1)) < k" using 1(5) n a by auto
    have "read_u8 (a + 1 - 1) m = Inr b" using b by simp
    from 1(1) [OF True b l 1(3) this k]
    show ?thesis
      using True d n by (auto simp: seq_rd_def PREFIXES_def SEG_PREFIX_def rep_opt_def split: if_splits)
  next
    case False
    with 1(2) have "opsize' = opsize" "rep' = rep" "op' = op" "a' = a"
      by (subst (asm) prefix_loop.simps; simp)+
    with False d n 1(4) show ?thesis
      by (simp add: seq_rd_def give_def PREFIXES_def SEG_PREFIX_def)
  qed
qed

section \<open>From the address of an instruction\<close>

lemma decode_rest_cases:
  assumes "decode_rest a op c = (Inr e, c')"
  obtains os rp op' a' where "prefix_loop op 4 0 (a + 1) (mem c) = Inr (os, rp, op', a')"
    "(if rp \<noteq> 0 \<and> 0xA4 \<le> op' \<and> op' \<le> 0xAF \<and> op' \<noteq> 0xA8 \<and> op' \<noteq> 0xA9
       then mk_E a H_string os op' rp
       else if rp \<noteq> 0 \<and> op' = 0x90 then mk_E a H_nop os 0 0
       else DEC op' os a) (c\<lparr>eip := a'\<rparr>) = (Inr e, c')"
proof (cases "op \<in> set PREFIXES")
  case True
  with assms that show ?thesis
    by (auto simp: decode_rest_def bindE_def from_mem_def thenE_def set_eip_def modify_def
        split: sum.splits)
next
  case False
  then have "prefix_loop op 4 0 (a + 1) (mem c) = Inr (4, 0, op, a + 1)"
    by (subst prefix_loop.simps) simp
  with False assms that show ?thesis
    by (auto simp: decode_rest_def thenE_def bindE_def set_eip_def modify_def)
qed

lemma decode_follows:
  fixes c c' :: "'x cpu_scheme"
  assumes ok: "mem_ok (mem c)" and dec: "decode a c = (Inr e, c')" and e: "good e"
  shows "\<exists>s. dis_decode (mem c) a = Some (s, eip c')"
proof -
  let ?m = "mem c"
  obtain op where op: "read_u8 a ?m = Inr op"
    and rest: "decode_rest a op (c\<lparr>insn_start := a\<rparr>) = (Inr e, c')"
    using dec by (auto simp: decode_alt split: sum.splits)
  from rest obtain os rp op' a' where l: "prefix_loop op 4 0 (a + 1) ?m = Inr (os, rp, op', a')"
    and fin: "(if rp \<noteq> 0 \<and> 0xA4 \<le> op' \<and> op' \<le> 0xAF \<and> op' \<noteq> 0xA8 \<and> op' \<noteq> 0xA9
         then mk_E a H_string os op' rp
         else if rp \<noteq> 0 \<and> op' = 0x90 then mk_E a H_nop os 0 0
         else DEC op' os a) (c\<lparr>insn_start := a, eip := a'\<rparr>) = (Inr e, c')"
    by (rule decode_rest_cases) auto
  have p: "dis_prefixes (max_prefixes ?m) ?m 4 None a = Some ((os, rep_opt rp, op'), a')"
    and op': "read_u8 (a' - 1) ?m = Inr op'"
    using dis_prefixes_follow [OF l ok, of "max_prefixes ?m"] op read_u8_inside [OF ok op]
    by (auto simp: max_prefixes_def rep_opt_def)
  let ?d = "c\<lparr>insn_start := a, eip := a'\<rparr>"
  let ?r = "if rep_opt rp \<noteq> None \<and> 0xA4 \<le> op' \<and> op' \<le> 0xAF \<and> op' \<noteq> 0xA8 \<and> op' \<noteq> 0xA9
     then give (dis_string op' os (rep_opt rp))
     else if rep_opt rp = Some 0xF3 \<and> op' = 0x90 then give ''pause'' else one_op ?m op' os"
  have os: "os = 2 \<or> os = 4" using prefix_loop_ok [OF l] by simp
  have nop: "one_op ?m 0x90 os = give ''nop''" by (simp add: one_op_defs)
  have "follows ?m good (ends_at a) (DEC op' os a :: ('x, insn) cm) (one_op ?m op' os)"
    using read_u8_inside [OF ok op'] by (intro follows_DEC [OF ok _ os]) simp
  then have "follows ?m good (ends_at a) (if rp \<noteq> 0 \<and> 0xA4 \<le> op' \<and> op' \<le> 0xAF \<and> op' \<noteq> 0xA8 \<and> op' \<noteq> 0xA9
         then mk_E a H_string os op' rp
         else if rp \<noteq> 0 \<and> op' = 0x90 then mk_E a H_nop os 0 0
         else DEC op' os a :: ('x, insn) cm) ?r"
    by (auto simp: rep_opt_def follows_mk nop)
  from followsD [OF this _ fin e] obtain s where "?r a' = Some (s, eip c')" by auto
  then have "dis_decode ?m a = Some (s, eip c')"
    by (simp add: dis_decode_def seq_rd_def p)
  then show ?thesis by blast
qed

lemma u32_rd_prefixes: "u32_rd (dis_prefixes n m opsize rep)"
proof (induction n arbitrary: opsize rep)
  case 0
  show ?case by (simp add: u32_rd_def)
next
  case (Suc n)
  have "u32_rd (\<lambda>p. seq_rd (d_u8 m) (\<lambda>op.
       if op = 0x66 then dis_prefixes n m 2 rep
       else if op \<in> set SEG_PREFIX \<or> op = 0xF0 then dis_prefixes n m opsize rep
       else if op \<in> {0xF2, 0xF3} then dis_prefixes n m opsize (Some op)
       else give (opsize, rep, op)) p)"
    by (intro u32_rd_rules Suc)
  then show ?case unfolding u32_rd_def dis_prefixes.simps .
qed

lemma u32_rd_decode: "u32_rd (dis_decode m)"
  unfolding dis_decode_def by (intro u32_rd_rules u32_rd_split u32_rd_prefixes u32_rd_one_op)

text \<open>C7. The disassembler agrees with the CPU on where instructions end: wherever the decoder of
  \<open>cpu86\<close> accepts the bytes at \<open>a\<close>, from the prefixes to the last immediate, the disassembler
  reads exactly the same bytes, so it names an instruction (never \<open>.byte\<close>), of the decoded
  length, and shows those bytes.\<close>

theorem disasm_follows_cpu:
  assumes "mem_ok (mem c)" and "decode a c = (Inr e, c')" and "e_fn e \<noteq> H_bad"
  shows "\<exists>s. dis_decode (mem c) a = Some (s, eip c')
    \<and> disasm_one (mem c) a = (e_len e, s, safe_bytes (mem c) a (nat (e_len e)))"
proof -
  obtain s where s: "dis_decode (mem c) a = Some (s, eip c')"
    using decode_follows [OF assms(1,2)] assms(3) by (auto simp: good_def)
  have len: "a < eip c'" "e_len e = eip c' - a" using decode_local(1,2) [OF assms(2)] by auto
  obtain op where "read_u8 a (mem c) = Inr op" using assms(2) by (auto simp: decode_alt split: sum.splits)
  from read_u8_inside [OF assms(1) this] have a: "u32 a" by (simp add: u32_def TASK_SIZE_def)
  with u32_rd_decode [of "mem c"] s have p: "u32 (eip c')" unfolding u32_rd_def by blast
  have "a AND MASK32 = a" "(eip c' - a) AND MASK32 = eip c' - a"
    using a p len by (auto simp: u32_def MASK32_def and_masks)
  with s len show ?thesis by (simp add: disasm_one_def Let_def)
qed

text \<open>The jump to itself, two bytes long.\<close>

lemma spin_decode: "decode 0 spin = (Inr spin_insn, spin\<lparr>eip := 2\<rparr>)"
  by (simp add: cpu_eval spin_def spin_mem_def CPU_init_def load_program_def AddressSpace_init_def
      ICACHE_MAX_TEXT_def spin_insn_def replicate_2)

theorem disasm_follows_cpu_witness:
  "\<exists>s. dis_decode spin_mem 0 = Some (s, 2) \<and> disasm_one spin_mem 0 = (2, s, safe_bytes spin_mem 0 2)"
  using disasm_follows_cpu [OF _ spin_decode] spin_ok
  by (simp add: spin_def CPU_init_def cpu_ok_def spin_insn_def)

end
