(* ===== verification/Ktty_Host.thy ===== *)
theory Ktty_Host
  imports Ktty
begin

text \<open>
  The rest of \<open>HostTerminal\<close> in \<open>src/ktty.py\<close>: the modes of the host's terminal, which the emulator
  makes raw, hands back for a session of the monitor and at its end, and the two readers of Windows.
  What \<open>termios.tcgetattr\<close>, \<open>tcsetattr\<close> and \<open>tty.setraw\<close> do to the terminal is its settings, of
  any type, and the function that makes them raw.
\<close>

section \<open>Raw mode\<close>

text \<open>The \<open>try\<close> of \<open>_enter_raw\<close>: both calls work, or one of them raises.\<close>

datatype raw_try = Get_fails | Set_fails | Works

record 'a host_mode =
  hm_settings :: 'a
  hm_tty :: bool
  hm_raw :: bool
  hm_saved :: "'a option"
  hm_was_raw :: bool

definition enter_raw :: "('a \<Rightarrow> 'a) \<Rightarrow> raw_try \<Rightarrow> 'a host_mode \<Rightarrow> 'a host_mode" where
  "enter_raw setraw try m = (case try of
     Get_fails \<Rightarrow> m\<lparr>hm_raw := False\<rparr>
   | Set_fails \<Rightarrow> m\<lparr>hm_saved := Some (hm_settings m), hm_raw := False\<rparr>
   | Works \<Rightarrow> m\<lparr>hm_saved := Some (hm_settings m), hm_settings := setraw (hm_settings m), hm_raw := True\<rparr>)"

definition restore_mode :: "'a host_mode \<Rightarrow> 'a host_mode" where
  "restore_mode m = (case hm_saved m of
     Some a \<Rightarrow> if hm_raw m then m\<lparr>hm_settings := a, hm_raw := False\<rparr> else m
   | None \<Rightarrow> m)"

definition suspend :: "'a host_mode \<Rightarrow> 'a host_mode" where
  "suspend m = restore_mode (m\<lparr>hm_was_raw := hm_raw m\<rparr>)"

definition resume :: "('a \<Rightarrow> 'a) \<Rightarrow> raw_try \<Rightarrow> 'a host_mode \<Rightarrow> 'a host_mode" where
  "resume setraw try m = (if hm_was_raw m \<and> hm_tty m then enter_raw setraw try m else m)"

definition HostTerminal_mode :: "('a \<Rightarrow> 'a) \<Rightarrow> raw_try \<Rightarrow> 'a \<Rightarrow> bool \<Rightarrow> 'a host_mode" where
  "HostTerminal_mode setraw try settings is_a_tty =
     (let m = \<lparr>hm_settings = settings, hm_tty = is_a_tty, hm_raw = False, hm_saved = None, hm_was_raw = False\<rparr>
      in if is_a_tty then enter_raw setraw try m else m)"

text \<open>A session of the monitor: \<open>Monitor.interact\<close> suspends the terminal before and resumes it \<open>finally\<close>.\<close>

definition session_modes :: "('a \<Rightarrow> 'a) \<Rightarrow> raw_try \<Rightarrow> 'a host_mode \<Rightarrow> 'a host_mode" where
  "session_modes setraw try m = resume setraw try (suspend m)"

section \<open>Windows\<close>

text \<open>
  A key gives one byte, or a prefix and a scan code. The console is polled until a key gives bytes or
  the time is over: the list has the keys waiting at each poll.
\<close>

datatype win_key = Key byte | Special byte byte

definition key_bytes :: "win_key \<Rightarrow> bytes" where
  "key_bytes k = (case k of Key b \<Rightarrow> translate_windows_key [b] [] | Special p s \<Rightarrow> translate_windows_key [p] [s])"

fun read_windows_console :: "bool \<Rightarrow> win_key list list \<Rightarrow> bytes" where
  "read_windows_console no_wait [] = []"
| "read_windows_console no_wait (keys # polls) =
     (let out = concat (map key_bytes keys)
      in if out \<noteq> [] \<or> no_wait then out else read_windows_console no_wait polls)"

text \<open>The reader thread of a pipe, the buffer it shares, and the polls of that buffer.\<close>

definition reader_chunk :: "bytes \<Rightarrow> bytes \<times> bool \<Rightarrow> bytes \<times> bool" where
  "reader_chunk chunk s = (if chunk = [] then (fst s, True) else (fst s @ chunk, snd s))"

definition drain_thread_buf :: "bytes \<times> bool \<Rightarrow> bytes \<times> (bytes \<times> bool)" where
  "drain_thread_buf s = (fst s, ([], snd s))"

text \<open>Each poll finds the buffer with what the thread has added since the last one.\<close>

fun read_thread :: "bool \<Rightarrow> bytes list list \<Rightarrow> bytes \<times> bool \<Rightarrow> bytes \<times> (bytes \<times> bool)" where
  "read_thread no_wait [] s = ([], s)"
| "read_thread no_wait (chunks # polls) s =
     (let s = fold reader_chunk chunks s; (data, s) = drain_thread_buf s
      in if data \<noteq> [] \<or> no_wait then (data, s)
         else if snd s then ([], s)
         else read_thread no_wait polls s)"

definition thread_at_eof :: "bytes \<times> bool \<Rightarrow> bool" where
  "thread_at_eof s \<longleftrightarrow> snd s \<and> fst s = []"

section \<open>Properties\<close>

definition given_back :: "'a \<Rightarrow> 'a host_mode \<Rightarrow> bool" where
  "given_back a m \<longleftrightarrow> (if hm_raw m then hm_saved m = Some a else hm_settings m = a)"

lemma restore_given: "given_back a m \<Longrightarrow> hm_settings (restore_mode m) = a \<and> \<not> hm_raw (restore_mode m)"
  by (auto simp: restore_mode_def given_back_def split: option.splits if_splits)

lemma suspend_given: "given_back a m \<Longrightarrow> hm_settings (suspend m) = a \<and> \<not> hm_raw (suspend m)"
  unfolding suspend_def by (rule restore_given) (simp add: given_back_def)

lemma enter_given: "hm_settings m = a \<Longrightarrow> given_back a (enter_raw setraw try m)"
  by (simp add: enter_raw_def given_back_def split: raw_try.split)

lemma session_given:
  assumes "given_back a m"
  shows "given_back a (session_modes setraw try m)"
proof (cases "hm_was_raw (suspend m) \<and> hm_tty (suspend m)")
  case True
  then show ?thesis using suspend_given [OF assms] by (simp add: session_modes_def resume_def enter_given)
next
  case False
  then show ?thesis using suspend_given [OF assms] by (auto simp: session_modes_def resume_def given_back_def)
qed

lemma sessions_given: "given_back a m \<Longrightarrow> given_back a (fold (session_modes setraw) tries m)"
  by (induction tries arbitrary: m) (simp_all add: session_given)


text \<open>No byte of a pipe is lost or reordered by the polls of its buffer.\<close>

lemma read_thread_chunks: "fst (fold reader_chunk chunks s) = fst s @ concat chunks"
  by (induction chunks arbitrary: s) (auto simp: reader_chunk_def)

end
