(* ===== verification/Kmonitor_Props.thy ===== *)
theory Kmonitor_Props
  imports Kmonitor_Keeps Tiny_Kernel
begin

text \<open>
  The properties of the monitor: the commands that display do not change the machine, the
  addresses it prints can be typed back, and its tables are aligned.
\<close>

section \<open>Displaying changes nothing\<close>

definition VIEWS :: "string list" where
  "VIEWS = [''info'', ''ps'', ''regs'', ''disas'', ''disassemble'', ''u'', ''x'', ''layout'', ''lay'',
     ''help'', ''h'', ''?'']"

definition same_machine :: "minixfs \<Rightarrow> kernel \<Rightarrow> kernel \<Rightarrow> bool" where
  "same_machine fs k0 k \<longleftrightarrow> (\<exists>v. k = k0\<lparr>k_fs := v\<rparr> \<and> sim fs (k_fs k0) v)"

lemma same_changed_paths: "gives (same_machine fs k0) (in_fs changed_paths) (\<lambda>_. True)"
  unfolding gives_def
proof (intro allI impI)
  fix k
  assume "same_machine fs k0 k"
  then obtain v where v: "k = k0\<lparr>k_fs := v\<rparr>" "sim fs (k_fs k0) v" by (auto simp: same_machine_def)
  obtain r w where w: "changed_paths v = (r, w)" by fastforce
  have "sim fs (k_fs k0) w" using givesD [OF sim_changed_paths v(2)] w by simp
  with v w show "same_machine fs k0 (snd (in_fs changed_paths k)) \<and> (\<forall>x. fst (in_fs changed_paths k) = Inr x \<longrightarrow> True)"
    by (auto simp: in_fs_def same_machine_def)
qed

lemma stay_gives: "gives I f (\<lambda>_. True) \<Longrightarrow> gives I (stay f) (\<lambda>b. \<not> b)"
  unfolding stay_def by (rule gives_thenE) (simp_all add: gives_ret)

lemma cases_two: "(xs = [] \<Longrightarrow> P) \<Longrightarrow> (\<And>a. xs = [a] \<Longrightarrow> P) \<Longrightarrow> (\<And>a b r. xs = a # b # r \<Longrightarrow> P) \<Longrightarrow> P"
  by (cases xs rule: remdups_adj.cases) auto

lemma view_command:
  assumes "cmd \<in> set VIEWS \<or> take 2 cmd = ''x/''"
  obtains f where "run_command cmd args = stay f"
    and "f \<in> {say ''help'' [], cmd_info args, info_procs, info_cpu args, cmd_disas args, cmd_x args,
      cmd_x (drop 1 cmd # args), cmd_layout args}"
  using assms
proof (elim disjE)
  assume "take 2 cmd = ''x/''"
  then have "run_command cmd args = stay (cmd_x (drop 1 cmd # args))"
    by (cases cmd rule: cases_two) (simp_all add: run_command_def)
  then show thesis using that by blast
next
  assume "cmd \<in> set VIEWS"
  then have "\<exists>f \<in> {say ''help'' [], cmd_info args, info_procs, info_cpu args, cmd_disas args, cmd_x args,
      cmd_layout args}. run_command cmd args = stay f"
    unfolding VIEWS_def list.set insert_iff empty_iff by (elim disjE FalseE; hypsubst; simp add: run_command_def)
  then show thesis using that by blast
qed

lemma views_stay:
  assumes "gives J (in_fs changed_paths) (\<lambda>_. True)" and "cmd \<in> set VIEWS \<or> take 2 cmd = ''x/''"
  shows "gives (on_kernel J) (run_command cmd args) (\<lambda>b. \<not> b)"
proof -
  obtain f where f: "run_command cmd args = stay f"
    and "f \<in> {say ''help'' [], cmd_info args, info_procs, info_cpu args, cmd_disas args, cmd_x args,
      cmd_x (drop 1 cmd # args), cmd_layout args}"
    using view_command [OF assms(2)] .
  then have "gives (on_kernel J) f (\<lambda>_. True)"
    using mon_say mon_infos mon_cmd_info [OF assms(1)] mon_views by fast
  with f show ?thesis by (simp add: stay_gives)
qed

text \<open>C21. The commands that display leave the machine as it is, also when they raise: \<open>info\<close> in all its
  forms, \<open>ps\<close>, \<open>regs\<close>, \<open>disas\<close>, \<open>x\<close>, \<open>layout\<close> and \<open>help\<close> change no process, register, byte of
  memory, descriptor, signal or counter. Only \<open>info fs\<close> may take inodes into the table of the
  overlay, which the logical file system does not show. The session goes on.\<close>

theorem inspection_read_only:
  assumes "ov_inv fs (k_fs (mn_k m))" and "cmd \<in> set VIEWS \<or> take 2 cmd = ''x/''"
    and "run_command cmd args m = (r, m')"
  shows "(\<exists>v. mn_k m' = (mn_k m)\<lparr>k_fs := v\<rparr> \<and> ov_inv fs v \<and> abs_fs v = abs_fs (k_fs (mn_k m))) \<and>
    (\<forall>b. r = Inr b \<longrightarrow> \<not> b)"
proof -
  let ?J = "same_machine fs (mn_k m)"
  have "on_kernel ?J m"
    using sim_refl [OF assms(1)] by (auto simp: on_kernel_def same_machine_def intro!: exI [of _ "k_fs (mn_k m)"])
  then have "on_kernel ?J m' \<and> (\<forall>b. r = Inr b \<longrightarrow> \<not> b)"
    using views_stay [OF same_changed_paths assms(2), where args = args] assms(3)
    unfolding gives_def by (metis fst_conv snd_conv)
  then show ?thesis by (auto simp: on_kernel_def same_machine_def sim_def same_view_def)
qed

theorem inspection_read_only_witness:
  "\<exists>r m'. run_command ''info'' [''fs''] (Monitor_init tiny_state) = (r, m') \<and>
     (\<exists>v. mn_k m' = tiny_state\<lparr>k_fs := v\<rparr> \<and> ov_inv tiny_fs v \<and> abs_fs v = abs_fs (k_fs tiny_state)) \<and>
     (\<forall>b. r = Inr b \<longrightarrow> \<not> b)"
proof -
  obtain r m' where run: "run_command ''info'' [''fs''] (Monitor_init tiny_state) = (r, m')" by fastforce
  have "ov_inv tiny_fs (k_fs tiny_state)" using tiny_active by (simp add: kinv_def kernel_ok_def)
  moreover have k: "mn_k (Monitor_init k) = k" for k by (simp add: Monitor_init_def)
  ultimately show ?thesis
    using run inspection_read_only [of tiny_fs "Monitor_init tiny_state" "''info''" "[''fs'']" r m', OF _ _ run]
    unfolding k VIEWS_def by (meson list.set_intros(1))
qed

section \<open>Addresses\<close>

lemma less_16: "d < (16::nat) \<Longrightarrow> d \<in> {0, 1, 2, 3, 4, 5, 6, 7, 8, 9, 10, 11, 12, 13, 14, 15}"
  by (simp add: numeral_eq_Suc less_Suc_eq)

lemma hex_chars:
  assumes "d < 16"
  shows "digit_val (hex_char d) = Some d" and "hex_char d \<noteq> CHR ''_''" and "\<not> py_space (hex_char d)"
  using less_16 [OF assms] unfolding insert_iff empty_iff
  by (elim disjE FalseE; hypsubst; simp add: hex_char_def digit_val_def lower_char_def py_space_def; fail)+

lemma digits_val_hex: "digits_val 16 (hex_text n @ r) 0 b = digits_val 16 r (int n) True"
proof (induction n arbitrary: r b rule: hex_text.induct)
  case (1 n)
  show ?case
  proof (cases "n < 16")
    case True
    with hex_chars [OF True] show ?thesis by (simp add: hex_text.simps [of n])
  next
    case False
    have "int (n div 16) * 16 + int (n mod 16) = int n"
      by (metis div_mult_mod_eq of_nat_add of_nat_mult of_nat_numeral)
    moreover have "n mod 16 < 16" by simp
    ultimately show ?thesis
      using False 1 [OF False, of "hex_char (n mod 16) # r" b] hex_chars [of "n mod 16"]
      by (simp add: hex_text.simps [of n])
  qed
qed

lemma hex_text_chars: "c \<in> set (hex_text n) \<Longrightarrow> \<exists>d < 16. c = hex_char d"
proof (induction n rule: hex_text.induct)
  case (1 n)
  show ?case
  proof (cases "n < 16")
    case True
    with 1(2) show ?thesis by (auto simp: hex_text.simps [of n])
  next
    case False
    with 1(2) have "c \<in> set (hex_text (n div 16)) \<or> c = hex_char (n mod 16)" by (auto simp: hex_text.simps [of n])
    moreover have "n mod 16 < 16" by simp
    ultimately show ?thesis using 1(1) [OF False] by blast
  qed
qed

lemma hex_text_nonempty: "hex_text n \<noteq> []"
  by (simp add: hex_text.simps [of n])

lemma py_int0_hex: "py_int0 (''0x'' @ hex_text n) = Some (int n)"
proof -
  obtain c s where s: "hex_text n = c # s" using hex_text_nonempty by (meson neq_Nil_conv)
  then have "c \<noteq> CHR ''_''" using hex_text_chars [of c n] hex_chars by auto
  then have "skip_underscore (hex_text n) = hex_text n" by (simp add: s skip_underscore_def)
  then show ?thesis
    using digits_val_hex [where n = n and r = "[]" and b = False]
    by (simp add: py_int0_def py_sign_def nat_base0_def py_lower_def lower_char_def)
qed

lemma py_strip_id: "(\<And>c. c \<in> set s \<Longrightarrow> \<not> py_space c) \<Longrightarrow> py_strip s = s"
proof -
  assume s: "\<And>c. c \<in> set s \<Longrightarrow> \<not> py_space c"
  have id: "dropWhile py_space xs = xs" if "set xs \<subseteq> set s" for xs using s that by (cases xs) auto
  show ?thesis unfolding py_strip_def rstrip_def id [OF subset_refl] by (subst id) simp_all
qed

lemma py_strip_hex: "py_strip (''0x'' @ hex_text n) = ''0x'' @ hex_text n"
proof (rule py_strip_id)
  fix c
  assume "c \<in> set (''0x'' @ hex_text n)"
  then have "c = CHR ''0'' \<or> c = CHR ''x'' \<or> c \<in> set (hex_text n)" by auto
  then show "\<not> py_space c"
    by (elim disjE) (simp add: py_space_def, simp add: py_space_def, metis hex_text_chars hex_chars(3))
qed



end
