(* ===== verification/Pager.thy ===== *)
theory Pager
  imports Prelude "HOL-Library.Char_ord"
begin

text \<open>
  \<open>src/pager.py\<close>: the pager of the image browser. Its keys come either from a list, as the tests
  inject them, or from the characters of the terminal through \<open>_decode_key\<close>. What it writes is a
  list of pieces; the percentage of the status line and the flush of the host's output are not
  modelled, nor are the cbreak mode of \<open>read_key_tty\<close> and a Ctrl-C that arrives as a signal.
\<close>

section \<open>Keys\<close>

definition ESC :: char where "ESC = CHR 0x1B"

text \<open>\<open>read(1)\<close>, which returns the empty string at the end of the input.\<close>

fun getch :: "string \<Rightarrow> string \<times> string" where
  "getch [] = ([], [])"
| "getch (c # s) = ([c], s)"

definition decode_key :: "string \<Rightarrow> string \<times> string" where
  "decode_key s =
     (let (ch, s) = getch s in
      if ch = [ESC] then
        let (c2, s) = getch s in
        if c2 = ''['' \<or> c2 = ''O'' then
          let (c3, s) = getch s in
          if c3 = ''A'' then (''k'', s)
          else if c3 = ''B'' then (''j'', s)
          else if c3 = ''5'' then (''b'', snd (getch s))
          else if c3 = ''6'' then (''f'', snd (getch s))
          else (''q'', s)
        else (''q'', s)
      else if ch = [CHR 0x03] \<or> ch = [] then (''q'', s)
      else if ch = [CHR 0x04] then (''d'', s)
      else if ch = [CHR 0x15] then (''u'', s)
      else (ch, s))"

datatype key_source = Keys "string list" | Terminal_keys string

text \<open>The end of an injected list raises \<open>StopIteration\<close>, which the loop reads as \<open>q\<close>.\<close>

fun next_key :: "key_source \<Rightarrow> string \<times> key_source" where
  "next_key (Keys []) = (''q'', Keys [])"
| "next_key (Keys (k # ks)) = (k, Keys ks)"
| "next_key (Terminal_keys s) = (case decode_key s of (k, r) \<Rightarrow> (k, Terminal_keys r))"

section \<open>Screens\<close>

record pager =
  pg_lines :: "string list"
  pg_name :: string
  pg_height :: nat
  pg_width :: nat
  pg_keys :: "key_source option"
  pg_ansi :: bool

text \<open>The height of a terminal leaves one line for the status.\<close>

definition Pager_init :: "string list \<Rightarrow> string \<Rightarrow> nat option \<Rightarrow> nat option \<Rightarrow> key_source option \<Rightarrow> bool \<Rightarrow>
  nat \<times> nat \<Rightarrow> pager" where
  "Pager_init lines name height width keys ansi term =
     \<lparr>pg_lines = lines, pg_name = name,
      pg_height = (case height of Some h \<Rightarrow> h | None \<Rightarrow> max (snd term - 1) 1),
      pg_width = (case width of Some w \<Rightarrow> w | None \<Rightarrow> fst term),
      pg_keys = keys, pg_ansi = ansi\<rparr>"

datatype piece = Clear_screen | Shown string | Status string nat nat nat bool bool | Newline

definition pager_status :: "pager \<Rightarrow> nat \<Rightarrow> piece" where
  "pager_status p pos =
     (let total = length (pg_lines p); stop = min (pos + pg_height p) total
      in Status (pg_name p) (pos + 1) stop total (stop \<ge> total) (pg_ansi p))"

definition pager_draw :: "pager \<Rightarrow> nat \<Rightarrow> piece list" where
  "pager_draw p pos =
     (if pg_ansi p then [Clear_screen] else []) @
     map (\<lambda>line. Shown (take (pg_width p) line)) (take (pg_height p) (drop pos (pg_lines p))) @
     [pager_status p pos]"

section \<open>The loop\<close>

definition max_top :: "pager \<Rightarrow> nat" where
  "max_top p = length (pg_lines p) - pg_height p"

definition pager_move :: "pager \<Rightarrow> string \<Rightarrow> nat \<Rightarrow> nat" where
  "pager_move p key pos =
     (let half = max (pg_height p div 2) 1 in
      if key = ''j'' \<or> key = [CHR 0x0D] \<or> key = [CHR 0x0A] then min (pos + 1) (max_top p)
      else if key = ''k'' then pos - 1
      else if key = ''f'' \<or> key = '' '' \<or> key = ''n'' then min (pos + pg_height p) (max_top p)
      else if key = ''b'' \<or> key = ''p'' then pos - pg_height p
      else if key = ''d'' then min (pos + half) (max_top p)
      else if key = ''u'' then pos - half
      else if key = ''g'' then 0
      else if key = ''G'' then max_top p
      else pos)"

fun source_size :: "key_source \<Rightarrow> nat" where
  "source_size (Keys ks) = length ks"
| "source_size (Terminal_keys s) = length s"

lemma getch_shorter: "length (snd (getch s)) \<le> length s"
  by (cases s) simp_all

lemma decode_key_shorter:
  assumes "decode_key s = (k, r)" and "k \<noteq> ''q''"
  shows "length r < length s"
proof (cases s)
  case Nil
  with assms show ?thesis by (simp add: decode_key_def ESC_def)
next
  case (Cons c t)
  have "length r \<le> length t"
    using assms Cons getch_shorter [of t] getch_shorter [of "snd (getch t)"]
      getch_shorter [of "snd (getch (snd (getch t)))"]
    by (auto simp: decode_key_def split: if_splits prod.splits)
  with Cons show ?thesis by simp
qed

lemma next_key_shorter:
  assumes "next_key src = (k, rest)" and "k \<noteq> ''q''"
  shows "source_size rest < source_size src"
  using assms by (cases src rule: next_key.cases) (auto split: prod.splits dest: decode_key_shorter)

function pager_loop :: "pager \<Rightarrow> key_source \<Rightarrow> nat \<Rightarrow> piece list" where
  "pager_loop p src pos =
     pager_draw p pos @
     (case next_key src of (key, rest) \<Rightarrow>
        if key = ''q'' \<or> key = ''Q'' then [] else pager_loop p rest (pager_move p key pos))"
  by pat_completeness auto

termination
proof (relation "measure (\<lambda>(p, src, pos). source_size src)", goal_cases)
  case 1
  show ?case by simp
next
  case (2 p src pos key rest)
  then show ?case using next_key_shorter [of src key rest] by simp
qed

declare pager_loop.simps [simp del]

definition pager_run :: "pager \<Rightarrow> piece list" where
  "pager_run p =
     (if pg_lines p = [] then []
      else case pg_keys p of
        None \<Rightarrow> map Shown (pg_lines p)
      | Some src \<Rightarrow>
          if length (pg_lines p) \<le> pg_height p then map Shown (pg_lines p)
          else pager_loop p src 0 @ (if pg_ansi p then [Newline] else []))"

section \<open>Properties\<close>

lemma pager_move_bound: "pos \<le> max_top p \<Longrightarrow> pager_move p key pos \<le> max_top p"
  unfolding pager_move_def Let_def by (simp only: split: if_split) (simp add: le_diff_conv)

definition one_key :: "pager \<Rightarrow> nat \<Rightarrow> nat \<Rightarrow> bool" where
  "one_key p a b \<longleftrightarrow> (\<exists>key. b = pager_move p key a)"

lemma pager_loop_screens:
  "pos \<le> max_top p \<Longrightarrow> \<exists>tops. pager_loop p src pos = concat (map (pager_draw p) (pos # tops)) \<and>
     (\<forall>t \<in> set tops. t \<le> max_top p) \<and> successively (one_key p) (pos # tops)"
proof (induction p src pos rule: pager_loop.induct)
  case (1 p src pos)
  obtain key rest where k: "next_key src = (key, rest)" by fastforce
  show ?case
  proof (cases "key = ''q'' \<or> key = ''Q''")
    case True
    with k show ?thesis by (intro exI [of _ "[]"]) (simp add: pager_loop.simps [of p src pos])
  next
    case False
    let ?t = "pager_move p key pos"
    have b: "?t \<le> max_top p" using 1(2) by (rule pager_move_bound)
    obtain tops where t: "pager_loop p rest ?t = concat (map (pager_draw p) (?t # tops))"
      "\<forall>t \<in> set tops. t \<le> max_top p" "successively (one_key p) (?t # tops)"
      using 1(1) [OF k [symmetric] False b] by blast
    show ?thesis
      using t b k False
      by (intro exI [of _ "?t # tops"]) (auto simp: pager_loop.simps [of p src pos] one_key_def)
  qed
qed



end
