(* ===== verification/Minix_shell.thy ===== *)
theory Minix_shell
  imports Kmonitor Pager
begin

text \<open>
  \<open>src/minix_shell.py\<close>: the interactive browser of an image. A command line is an ASCII string; what
  the shell prints is a list of lines, plain text where the source prints only ASCII and otherwise a
  key with the data the format shows. Parsed from the standard library are \<open>shlex.split\<close> and the line
  parser of \<open>cmd.Cmd\<close>. Not modelled: the words of the formats, the percentages of \<open>stat\<close>, local
  time (the number of seconds is shown) and the help texts.
\<close>

section \<open>Paths\<close>

fun norm_parts :: "string list \<Rightarrow> string list \<Rightarrow> string list" where
  "norm_parts [] parts = parts"
| "norm_parts (part # rest) parts =
     (if part = [] \<or> part = ''.'' then norm_parts rest parts
      else if part = ''..'' then norm_parts rest (if parts \<noteq> [] then butlast parts else parts)
      else norm_parts rest (parts @ [part]))"

definition normalize_path :: "string \<Rightarrow> string \<Rightarrow> string" where
  "normalize_path base_path path =
     (let path = (if starts_slash path then path else rstrip_slash base_path @ ''/'' @ path)
      in ''/'' @ join_with ''/'' (norm_parts (split_slash path) []))"

section \<open>Words of a command line\<close>

text \<open>\<open>shlex.split\<close>: the states of its reader; an escape returns to the word or to a double quote.\<close>

datatype lex = Blank | Word | Quoted char | Escaped "char option"

definition lex_white :: "char \<Rightarrow> bool" where
  "lex_white c \<longleftrightarrow> c = CHR '' '' \<or> c = CHR 0x09 \<or> c = CHR 0x0D \<or> c = CHR 0x0A"

definition lex_quote :: "char \<Rightarrow> bool" where
  "lex_quote c \<longleftrightarrow> c = CHR 0x27 \<or> c = CHR 0x22"

definition lex_end :: "string \<Rightarrow> bool \<Rightarrow> string list \<Rightarrow> string list" where
  "lex_end token quoted rest = (if token \<noteq> [] \<or> quoted then token # rest else rest)"

fun lex_split :: "lex \<Rightarrow> string \<Rightarrow> bool \<Rightarrow> string \<Rightarrow> exn + string list" where
  "lex_split Blank token quoted [] = Inr []"
| "lex_split Blank token quoted (c # s) =
     (if lex_white c then lex_split Blank [] False s
      else if c = CHR 0x5C then lex_split (Escaped None) [] False s
      else if lex_quote c then lex_split (Quoted c) [] False s
      else lex_split Word [c] False s)"
| "lex_split Word token quoted [] = Inr (lex_end token quoted [])"
| "lex_split Word token quoted (c # s) =
     (if lex_white c then
        bindR (lex_split Blank [] False s) (\<lambda>rest. Inr (lex_end token quoted rest))
      else if lex_quote c then lex_split (Quoted c) token quoted s
      else if c = CHR 0x5C then lex_split (Escaped None) token quoted s
      else lex_split Word (token @ [c]) quoted s)"
| "lex_split (Quoted q) token quoted [] = Inl ValueError"
| "lex_split (Quoted q) token quoted (c # s) =
     (if c = q then lex_split Word token True s
      else if c = CHR 0x5C \<and> q = CHR 0x22 then lex_split (Escaped (Some q)) token True s
      else lex_split (Quoted q) (token @ [c]) True s)"
| "lex_split (Escaped back) token quoted [] = Inl ValueError"
| "lex_split (Escaped back) token quoted (c # s) =
     (case back of
        None \<Rightarrow> lex_split Word (token @ [c]) quoted s
      | Some q \<Rightarrow> lex_split (Quoted q)
          (token @ (if c \<noteq> CHR 0x5C \<and> c \<noteq> q then [CHR 0x5C] else []) @ [c]) quoted s)"

definition shlex_split :: "string \<Rightarrow> exn + string list" where
  "shlex_split line = lex_split Blank [] False line"

text \<open>\<open>cmd.Cmd.parseline\<close>: \<open>None\<close> for a line that names no command.\<close>

definition identchar :: "char \<Rightarrow> bool" where
  "identchar c \<longleftrightarrow> (let n = of_char c :: nat in
     48 \<le> n \<and> n \<le> 57 \<or> 65 \<le> n \<and> n \<le> 90 \<or> 97 \<le> n \<and> n \<le> 122 \<or> n = 95)"

definition parseline :: "string \<Rightarrow> (string \<times> string) option \<times> string" where
  "parseline line =
     (let line = py_strip line in
      if line = [] \<or> take 1 line = ''!'' then (None, line)
      else
        let line = (if take 1 line = ''?'' then ''help '' @ drop 1 line else line)
        in (Some (takeWhile identchar line, py_strip (dropWhile identchar line)), line))"

section \<open>The shell\<close>

datatype sh_line = Plain string | Data string "cell list" | Trouble problem | Paged "piece list"

record shell =
  sh_cwd :: inode
  sh_path :: string
  sh_out :: "sh_line list"

type_synonym 'a shm = "(shell, 'a) sm"

definition MinixShell_init :: "minixfs \<Rightarrow> exn + shell" where
  "MinixShell_init fs = bindR (get_inode fs ROOT_INODE) (\<lambda>root.
     Inr \<lparr>sh_cwd = root, sh_path = ''/'', sh_out = []\<rparr>)"

definition sh_print :: "sh_line \<Rightarrow> unit shm" where
  "sh_print l = modify (\<lambda>s. s\<lparr>sh_out := sh_out s @ [l]\<rparr>)"

definition sh_resolve :: "minixfs \<Rightarrow> string \<Rightarrow> inode shm" where
  "sh_resolve fs path = bindE (gets sh_cwd) (\<lambda>cwd. liftR (resolve fs path (Some cwd)))"

definition sh_args :: "string \<Rightarrow> string list shm" where
  "sh_args line = liftR (shlex_split line)"

definition do_pwd :: "unit shm" where
  "do_pwd = bindE (gets sh_path) (\<lambda>p. sh_print (Plain p))"

definition do_cd :: "minixfs \<Rightarrow> string \<Rightarrow> unit shm" where
  "do_cd fs arg =
     bindE (sh_args arg) (\<lambda>args.
     let path = (case args of a # _ \<Rightarrow> a | [] \<Rightarrow> ''/'') in
     bindE (sh_resolve fs path) (\<lambda>inode.
     if \<not> i_is_dir inode then sh_print (Data ''not a directory'' [Txt path])
     else modify (\<lambda>s. s\<lparr>sh_cwd := inode, sh_path := normalize_path (sh_path s) path\<rparr>)))"

section \<open>ls\<close>

definition format_long :: "inode \<Rightarrow> string \<Rightarrow> cell list" where
  "format_long i name =
     [Txt (mode_string i), Num (i_nlinks i), Num (i_uid i), Num (i_gid i)] @
     (if i_is_device i then [Num (fst (i_devno i)), Num (snd (i_devno i))] else [Num (i_size i)]) @
     [Num (i_mtime i), Txt name]"

fun ls_long :: "minixfs \<Rightarrow> (int \<times> string) list \<Rightarrow> unit shm" where
  "ls_long fs [] = ret ()"
| "ls_long fs ((num, name) # es) =
     bindE (liftR (get_inode fs num)) (\<lambda>child.
     thenE (sh_print (Data ''long'' (format_long child name))) (ls_long fs es))"

definition ls_path :: "minixfs \<Rightarrow> bool \<Rightarrow> bool \<Rightarrow> bool \<Rightarrow> string \<Rightarrow> unit shm" where
  "ls_path fs long_fmt multiple first path =
     bindE (sh_resolve fs path) (\<lambda>inode.
     thenE (if multiple then thenE (if first then ret () else sh_print (Plain [])) (sh_print (Plain (path @ '':'')))
            else ret ())
     (if i_is_dir inode then
        bindE (liftR (read_dir fs inode)) (\<lambda>raw.
        let entries = sort_key snd raw in
        if long_fmt then ls_long fs entries
        else sh_print (Plain (join_with ''  '' (filter (\<lambda>n. n \<noteq> ''.'' \<and> n \<noteq> ''..'') (map snd entries)))))
      else sh_print (if long_fmt then Data ''long'' (format_long inode path) else Plain path)))"

fun ls_paths :: "minixfs \<Rightarrow> bool \<Rightarrow> bool \<Rightarrow> bool \<Rightarrow> string list \<Rightarrow> unit shm" where
  "ls_paths fs long_fmt multiple first [] = ret ()"
| "ls_paths fs long_fmt multiple first (p # ps) =
     thenE (ls_path fs long_fmt multiple first p) (ls_paths fs long_fmt multiple False ps)"

definition do_ls :: "minixfs \<Rightarrow> string \<Rightarrow> unit shm" where
  "do_ls fs arg =
     bindE (sh_args arg) (\<lambda>args.
     let paths = filter (\<lambda>a. take 1 a \<noteq> ''-'') args; paths = (if paths = [] then [''.''] else paths)
     in ls_paths fs (''-l'' \<in> set args) (length paths > 1) True paths)"

section \<open>stat, inode, info, checkfs\<close>

definition inode_info :: "inode \<Rightarrow> string \<Rightarrow> unit shm" where
  "inode_info i name =
     thenE (sh_print (Data ''file'' [Txt name]))
     (thenE (sh_print (Data ''inode'' [Num (i_num i), Txt (i_type_name i)]))
     (thenE (sh_print (if i_is_device i
          then Data ''device'' [Num (fst (i_devno i)), Num (snd (i_devno i)), Num (i_zones i ! 0)]
          else Data ''size'' [Num (i_size i), Num ((i_size i + 1023) div 1024)]))
     (thenE (sh_print (Data ''mode'' [Txt (mode_string i), Num (i_mode i AND 0xFFF), Num (i_nlinks i)]))
     (thenE (sh_print (Data ''owner'' [Num (i_uid i), Num (i_gid i)]))
       (sh_print (Data ''mtime'' [Num (i_mtime i)]))))))"

definition print_fs_stats :: "minixfs \<Rightarrow> unit shm" where
  "print_fs_stats fs =
     bindE (liftR (fs_stats fs)) (\<lambda>st.
     thenE (sh_print (Data ''file system'' []))
     (thenE (sh_print (Data ''block size'' [Num (magic (sb fs)), Num (name_len (sb fs))]))
     (thenE (sh_print (Data ''inodes'' [Num (used_inodes st), Num (total_inodes st)]))
     (thenE (sh_print (Data ''zones'' [Num (used_zones st), Num (total_zones st), Num (firstdatazone (sb fs))]))
       (sh_print (Data ''capacity'' [Num (total_zones st * 1024), Num (used_zones st * 1024),
          Num ((total_zones st - used_zones st) * 1024)]))))))"

fun stat_paths :: "minixfs \<Rightarrow> bool \<Rightarrow> string list \<Rightarrow> unit shm" where
  "stat_paths fs first [] = ret ()"
| "stat_paths fs first (p # ps) =
     thenE (if first then ret () else sh_print (Plain []))
     (bindE (sh_resolve fs p) (\<lambda>i. thenE (inode_info i p) (stat_paths fs False ps)))"

definition do_stat :: "minixfs \<Rightarrow> string \<Rightarrow> unit shm" where
  "do_stat fs arg =
     bindE (sh_args arg) (\<lambda>args. if args = [] then print_fs_stats fs else stat_paths fs True args)"

definition parse_inode_arg :: "string \<Rightarrow> string \<Rightarrow> int option shm" where
  "parse_inode_arg arg usage =
     bindE (sh_args arg) (\<lambda>args. case args of
       [a] \<Rightarrow> (case py_int0 (py_strip a) of
           Some n \<Rightarrow> ret (Some n)
         | None \<Rightarrow> thenE (sh_print (Data ''bad number'' [Txt a])) (ret None))
     | _ \<Rightarrow> thenE (sh_print (Data usage [])) (ret None))"

definition print_inode_raw :: "minixfs \<Rightarrow> int \<Rightarrow> unit shm" where
  "print_inode_raw fs num =
     bindE (liftR (get_inode fs num)) (\<lambda>i.
     bindE (liftR (inode_allocated fs num)) (\<lambda>allocated.
     thenE (sh_print (Data ''inode'' [Num num, Txt (if allocated then ''allocated'' else ''free'')]))
     (thenE (sh_print (Data ''mode'' [Num (i_mode i), Txt (mode_string i), Txt (i_type_name i)]))
     (thenE (sh_print (Data ''owner'' [Num (i_uid i), Num (i_gid i), Num (i_nlinks i)]))
     (thenE (sh_print (Data ''size'' [Num (i_size i)]))
     (thenE (sh_print (Data ''mtime'' [Num (i_mtime i)]))
       (sh_print (Data ''zones'' (map Num (take 7 (i_zones i)) @ [Num (i_zones i ! 7), Num (i_zones i ! 8)])))))))))"

definition do_inode :: "minixfs \<Rightarrow> string \<Rightarrow> unit shm" where
  "do_inode fs arg =
     bindE (parse_inode_arg arg ''usage inode'') (\<lambda>n. case n of None \<Rightarrow> ret () | Some num \<Rightarrow> print_inode_raw fs num)"

fun print_refs :: "(string \<times> string) list \<Rightarrow> unit shm" where
  "print_refs [] = ret ()"
| "print_refs ((dpath, name) # rs) =
     thenE (sh_print (Plain (''  '' @ child_path dpath name))) (print_refs rs)"

definition do_info :: "minixfs \<Rightarrow> string \<Rightarrow> unit shm" where
  "do_info fs arg =
     bindE (parse_inode_arg arg ''usage info'') (\<lambda>n. case n of
       None \<Rightarrow> ret ()
     | Some num \<Rightarrow>
         thenE (print_inode_raw fs num)
         (bindE (liftR (get_inode fs num)) (\<lambda>i.
          bindE (liftR (find_references fs num)) (\<lambda>refs.
          thenE (if refs = [] then sh_print (Data ''no references'' [])
                 else thenE (sh_print (Data ''references'' [Num (int (length refs))])) (print_refs refs))
            (if i_nlinks i \<noteq> int (length refs)
             then sh_print (Data ''nlinks differs'' [Num (i_nlinks i), Num (int (length refs))]) else ret ())))))"

fun print_problems :: "problem list \<Rightarrow> unit shm" where
  "print_problems [] = ret ()"
| "print_problems (p # ps) = thenE (sh_print (Trouble p)) (print_problems ps)"

definition do_checkfs :: "minixfs \<Rightarrow> string \<Rightarrow> unit shm" where
  "do_checkfs fs arg =
     bindE (liftR (check_fs fs)) (\<lambda>r.
     thenE (print_problems (problems r))
       (sh_print (Data ''checked'' [Num (inodes_checked r), Num (zones_checked r), Num (int (length (problems r)))])))"

section \<open>file, dump, less\<close>

definition AOUT_MAGIC :: "(int \<times> string) list" where
  "AOUT_MAGIC = [(0x107, ''OMAGIC''), (0x108, ''NMAGIC''), (0x10B, ''ZMAGIC''), (0xCC, ''QMAGIC'')]"

definition strip_space :: "byte \<Rightarrow> bool" where
  "strip_space b \<longleftrightarrow> 9 \<le> uint b \<and> uint b \<le> 13 \<or> uint b = 32"

definition printable :: "byte \<Rightarrow> bool" where
  "printable b \<longleftrightarrow> 32 \<le> uint b \<and> uint b < 127"

text \<open>
  \<open>p / n > 0.95\<close> for at most 1024 bytes is \<open>20 * p > 19 * n\<close>: the two differ from equality by more
  than the rounding of the quotient, and at equality the quotient rounds to the literal.
\<close>

definition looks_text :: "bytes \<Rightarrow> bool" where
  "looks_text head \<longleftrightarrow>
     20 * length (filter (\<lambda>b. printable b \<or> uint b \<in> {9, 10, 13}) head) > 19 * length head"

definition classify :: "minixfs \<Rightarrow> inode \<Rightarrow> exn + string" where
  "classify fs i =
     (if \<not> i_is_regular i then Inr (i_type_name i)
      else if i_size i = 0 then Inr ''empty''
      else bindR (read_file fs i 0 (Some 1024)) (\<lambda>head.
        case (if length head \<ge> 4 then map_of AOUT_MAGIC (le32 head) else None) of
          Some name \<Rightarrow> Inr (''a.out '' @ name)
        | None \<Rightarrow>
            if take 2 head = [0x23, 0x21] then
              Inr (''script '' @ latin1 (rstrip strip_space
                (dropWhile strip_space (takeWhile (\<lambda>b. b \<noteq> 10) (drop 2 head)))))
            else if take 2 head = [0x1F, 0x8B] then Inr ''gzip''
            else if take 2 head = [0x1F, 0x9D] then Inr ''compress''
            else if 0 \<notin> set head then
              (if head = [] then Inl ZeroDivisionError
               else if looks_text head then Inr ''text'' else Inr ''binary'')
            else Inr ''binary''))"

fun file_paths :: "minixfs \<Rightarrow> string list \<Rightarrow> unit shm" where
  "file_paths fs [] = ret ()"
| "file_paths fs (p # ps) =
     bindE (sh_resolve fs p) (\<lambda>i. bindE (liftR (classify fs i)) (\<lambda>kind.
     thenE (sh_print (Data ''kind'' [Txt p, Txt kind])) (file_paths fs ps)))"

definition do_file :: "minixfs \<Rightarrow> string \<Rightarrow> unit shm" where
  "do_file fs arg =
     bindE (sh_args arg) (\<lambda>args. if args = [] then sh_print (Data ''usage file'' []) else file_paths fs args)"

definition hex2 :: "byte \<Rightarrow> string" where
  "hex2 b = [hex_char (unat b div 16), hex_char (unat b mod 16)]"

text \<open>\<open>format(v, '08x')\<close>: the sign counts among the eight columns.\<close>

definition hex8 :: "int \<Rightarrow> string" where
  "hex8 v = (if v < 0 then CHR ''-'' # hex_padded 7 (- v) else hex_padded 8 v)"

definition hex_part :: "bytes \<Rightarrow> string" where
  "hex_part row =
     (let h = join_with '' '' (map (\<lambda>i. if i < length row then hex2 (row ! i) else ''  '') [0..<16])
      in take 23 h @ '' '' @ drop 23 h)"

definition ascii_part :: "bytes \<Rightarrow> string" where
  "ascii_part row = map (\<lambda>b. if printable b then char_of (unat b) else CHR ''.'') row"

definition dump_line :: "int \<Rightarrow> bytes \<Rightarrow> string" where
  "dump_line a row = hex8 a @ ''  '' @ hex_part row @ ''  |'' @ ascii_part row @ ''|''"

function dump_lines :: "int \<Rightarrow> bytes \<Rightarrow> string list" where
  "dump_lines a data =
     (if data = [] then [hex8 a]
      else dump_line a (take 16 data) # dump_lines (a + int (length (take 16 data))) (drop 16 data))"
  by pat_completeness auto

termination
  by (relation "measure (\<lambda>(a, data). length data)") auto

declare dump_lines.simps [simp del]

fun print_plain :: "string list \<Rightarrow> unit shm" where
  "print_plain [] = ret ()"
| "print_plain (l # ls) = thenE (sh_print (Plain l)) (print_plain ls)"

definition do_dump :: "minixfs \<Rightarrow> string \<Rightarrow> unit shm" where
  "do_dump fs arg =
     bindE (sh_args arg) (\<lambda>args.
     if args = [] \<or> length args > 3 then sh_print (Data ''usage dump'' [])
     else
       bindE (sh_resolve fs (hd args)) (\<lambda>inode.
       case (if length args > 1 then py_int0 (py_strip (args ! 1)) else Some 0,
             if length args > 2 then map_option Some (py_int0 (py_strip (args ! 2))) else Some None) of
         (Some off, Some len) \<Rightarrow>
           bindE (liftR (read_file fs inode off len)) (\<lambda>data. print_plain (dump_lines off data))
       | _ \<Rightarrow> sh_print (Data ''dump needs integers'' [])))"

text \<open>\<open>str.splitlines\<close> on Latin-1 text.\<close>

definition line_break :: "char \<Rightarrow> bool" where
  "line_break c \<longleftrightarrow> (let n = of_char c :: nat in 10 \<le> n \<and> n \<le> 13 \<or> 28 \<le> n \<and> n \<le> 30 \<or> n = 133)"

fun splitlines :: "string \<Rightarrow> string \<Rightarrow> string list" where
  "splitlines line [] = (if line = [] then [] else [line])"
| "splitlines line (c # s) =
     (if c = CHR 0x0D \<and> take 1 s = [CHR 0x0A] then line # splitlines [] (tl s)
      else if line_break c then line # splitlines [] s
      else splitlines (line @ [c]) s)"

text \<open>
  The options a test injects, the size of the terminal, and what is typed when both ends of the
  shell are a terminal.
\<close>

record pager_opts =
  po_height :: "nat option"
  po_width :: "nat option"
  po_keys :: "key_source option"
  po_ansi :: "bool option"
  po_term :: "nat \<times> nat"
  po_typed :: "string option"

definition less_pager :: "pager_opts \<Rightarrow> string \<Rightarrow> string \<Rightarrow> pager" where
  "less_pager po name t =
     (let interactive = (if po_keys po = None \<and> po_ansi po = None then po_typed po else None)
      in Pager_init (splitlines [] t) name (po_height po) (po_width po)
        (case interactive of Some typed \<Rightarrow> Some (Terminal_keys typed) | None \<Rightarrow> po_keys po)
        (case interactive of Some typed \<Rightarrow> True | None \<Rightarrow> po_ansi po = Some True)
        (po_term po))"

definition do_less :: "minixfs \<Rightarrow> pager_opts \<Rightarrow> string \<Rightarrow> unit shm" where
  "do_less fs po arg =
     bindE (sh_args arg) (\<lambda>args. case args of
       [a] \<Rightarrow>
         bindE (sh_resolve fs a) (\<lambda>inode.
         bindE (liftR (read_file fs inode 0 None)) (\<lambda>data.
         sh_print (Paged (pager_run (less_pager po a (latin1 data))))))
     | _ \<Rightarrow> sh_print (Data ''usage less'' []))"

section \<open>The command loop\<close>

definition sh_default :: "string \<Rightarrow> unit shm" where
  "sh_default line = (case split_words line of
     w # _ \<Rightarrow> sh_print (Data ''unknown command'' [Txt w]) | [] \<Rightarrow> raise IndexError)"

definition sh_command :: "minixfs \<Rightarrow> pager_opts \<Rightarrow> string \<Rightarrow> string \<Rightarrow> string \<Rightarrow> bool shm" where
  "sh_command fs po cmd arg line =
     (let stays = (\<lambda>f. thenE f (ret False)) in
      if cmd = ''exit'' \<or> cmd = ''quit'' \<or> cmd = ''q'' \<or> cmd = ''EOF'' then ret True
      else if cmd = ''pwd'' then stays do_pwd
      else if cmd = ''cd'' then stays (do_cd fs arg)
      else if cmd = ''ls'' then stays (do_ls fs arg)
      else if cmd = ''stat'' then stays (do_stat fs arg)
      else if cmd = ''inode'' then stays (do_inode fs arg)
      else if cmd = ''info'' then stays (do_info fs arg)
      else if cmd = ''checkfs'' then stays (do_checkfs fs arg)
      else if cmd = ''file'' then stays (do_file fs arg)
      else if cmd = ''dump'' then stays (do_dump fs arg)
      else if cmd = ''less'' then stays (do_less fs po arg)
      else if cmd = ''help'' then stays (sh_print (Data ''help'' [Txt arg]))
      else stays (sh_default line))"

definition cmd_onecmd :: "minixfs \<Rightarrow> pager_opts \<Rightarrow> string \<Rightarrow> bool shm" where
  "cmd_onecmd fs po line =
     (case parseline line of
        (None, l) \<Rightarrow> if l = [] then ret False else thenE (sh_default l) (ret False)
      | (Some (cmd, arg), l) \<Rightarrow> sh_command fs po cmd arg l)"

text \<open>\<open>MinixShell.onecmd\<close> catches only \<open>MinixError\<close>.\<close>

definition onecmd :: "minixfs \<Rightarrow> pager_opts \<Rightarrow> string \<Rightarrow> bool shm" where
  "onecmd fs po line s =
     (case cmd_onecmd fs po line s of
        (Inl MinixError, t) \<Rightarrow> thenE (sh_print (Data ''error'' [])) (ret False) t
      | r \<Rightarrow> r)"

text \<open>\<open>cmdloop\<close>: the end of the input is the command \<open>EOF\<close>.\<close>

fun cmdloop :: "minixfs \<Rightarrow> pager_opts \<Rightarrow> string list \<Rightarrow> unit shm" where
  "cmdloop fs po [] = thenE (onecmd fs po ''EOF'') (ret ())"
| "cmdloop fs po (line # rest) =
     bindE (onecmd fs po line) (\<lambda>stop. if stop then ret () else cmdloop fs po rest)"

text \<open>\<open>main\<close> after the options are parsed: the exit code with what the session printed.\<close>

definition shell_main :: "bytes \<Rightarrow> int option \<Rightarrow> pager_opts \<Rightarrow> string list \<Rightarrow> (exn + int) \<times> sh_line list" where
  "shell_main img off po input =
     (case MinixFS_init img off of
        Inl e \<Rightarrow> if e = MinixError then (Inr 1, []) else (Inl e, [])
      | Inr fs \<Rightarrow> (case MinixShell_init fs of
          Inl e \<Rightarrow> (Inl e, [])
        | Inr s \<Rightarrow> (case cmdloop fs po input s of
            (Inl e, t) \<Rightarrow> (Inl e, sh_out t)
          | (Inr _, t) \<Rightarrow> (Inr 0, sh_out t))))"

end
