(* ===== verification/Minix_shell_Props.thy ===== *)
theory Minix_shell_Props
  imports Minix_shell Kmonitor_Props
begin

text \<open>
  The properties of the image browser: the path it shows names the directory it is in, and a dump
  shows the bytes of the file.
\<close>

section \<open>The working directory and its path\<close>

text \<open>
  What the lexical treatment of \<open>..\<close> relies on: in the directories of the image \<open>..\<close> names the
  directory that the entry was found in, and the root is its own parent.
\<close>

definition parents_ok :: "minixfs \<Rightarrow> bool" where
  "parents_ok fs \<longleftrightarrow>
     (\<forall>n d name c. get_inode fs n = Inr d \<longrightarrow> name \<noteq> ''.'' \<longrightarrow> name \<noteq> ''..'' \<longrightarrow>
        dir_lookup fs d name = Inr (Some c) \<longrightarrow> i_is_dir c \<longrightarrow> dir_lookup fs c ''..'' = Inr (Some d)) \<and>
     (\<forall>r. get_inode fs ROOT_INODE = Inr r \<longrightarrow> dir_lookup fs r ''..'' = Inr (Some r))"

definition proper :: "string \<Rightarrow> bool" where
  "proper n \<longleftrightarrow> n \<noteq> [] \<and> n \<noteq> ''.'' \<and> n \<noteq> ''..'' \<and> CHR ''/'' \<notin> set n"

lemma dir_lookup_get: "dir_lookup fs d name = Inr (Some c) \<Longrightarrow> \<exists>n. get_inode fs n = Inr c"
  by (auto simp: dir_lookup_def bindR_Inr_iff split: option.splits)

lemma resolve_parts_get:
  "resolve_parts fs d ps = Inr c \<Longrightarrow> \<exists>n. get_inode fs n = Inr d \<Longrightarrow> \<exists>n. get_inode fs n = Inr c"
proof (induction ps arbitrary: d)
  case (Cons p ps)
  then show ?case
  proof (cases "p = [] \<or> p = ''.''")
    case False
    with Cons.prems(1) obtain e where "dir_lookup fs d p = Inr (Some e)" "resolve_parts fs e ps = Inr c"
      by (auto simp: bindR_Inr_iff split: if_splits option.splits)
    with Cons.IH dir_lookup_get show ?thesis by blast
  qed auto
qed simp

lemma resolve_parts_snoc:
  assumes "resolve_parts fs d (ps @ [p]) = Inr c" and "proper p"
  obtains e where "resolve_parts fs d ps = Inr e" "dir_lookup fs e p = Inr (Some c)"
  using assms
  by (auto simp: resolve_parts_append bindR_Inr_iff proper_def split: if_splits option.splits)

lemma norm_resolves:
  assumes ok: "parents_ok fs" and root: "get_inode fs ROOT_INODE = Inr root"
  shows "resolve_parts fs root ns = Inr d \<Longrightarrow> Ball (set ns) proper \<Longrightarrow>
    \<forall>p \<in> set ps. CHR ''/'' \<notin> set p \<Longrightarrow> resolve_parts fs d ps = Inr e \<Longrightarrow>
    resolve_parts fs root (norm_parts ps ns) = Inr e \<and> Ball (set (norm_parts ps ns)) proper"
proof (induction ps arbitrary: ns d)
  case Nil
  then show ?case by simp
next
  case (Cons p ps)
  consider "p = [] \<or> p = ''.''" | "p = ''..''" | "proper p"
    using Cons.prems(3) by (auto simp: proper_def)
  then show ?case
  proof cases
    case 1
    with Cons show ?thesis by auto
  next
    case 2
    then obtain c where c: "dir_lookup fs d ''..'' = Inr (Some c)" "resolve_parts fs c ps = Inr e" "i_is_dir d"
      using Cons.prems(4) by (auto simp: bindR_Inr_iff split: if_splits option.splits)
    show ?thesis
    proof (cases ns rule: rev_cases)
      case Nil
      with Cons.prems(1) have "d = root" by simp
      with ok root c(1) have "c = root" by (auto simp: parents_ok_def)
      with Cons.IH [of "[]" root] Nil 2 c(2) Cons.prems(3) show ?thesis by simp
    next
      case (snoc ms n)
      with Cons.prems(2) have n: "proper n" "Ball (set ms) proper" by auto
      obtain d' where d': "resolve_parts fs root ms = Inr d'" "dir_lookup fs d' n = Inr (Some d)"
        using resolve_parts_snoc [OF Cons.prems(1) [unfolded snoc] n(1)] .
      obtain k where "get_inode fs k = Inr d'" using resolve_parts_get [OF d'(1)] root by blast
      then have "dir_lookup fs d ''..'' = Inr (Some d')"
        using ok n(1) d'(2) c(3) unfolding parents_ok_def proper_def by blast
      with c(1) have "c = d'" by simp
      with Cons.IH [OF d'(1) n(2)] c(2) Cons.prems(3) 2 snoc show ?thesis by simp
    qed
  next
    case 3
    then obtain c where c: "dir_lookup fs d p = Inr (Some c)" "resolve_parts fs c ps = Inr e" "i_is_dir d"
      using Cons.prems(4) by (auto simp: proper_def bindR_Inr_iff split: if_splits option.splits)
    have "resolve_parts fs root (ns @ [p]) = Inr c"
      using Cons.prems(1) c 3 by (simp add: resolve_parts_append proper_def)
    moreover have "Ball (set (ns @ [p])) proper" using Cons.prems(2) 3 by simp
    moreover have "\<forall>p \<in> set ps. CHR ''/'' \<notin> set p" using Cons.prems(3) by simp
    ultimately have "resolve_parts fs root (norm_parts ps (ns @ [p])) = Inr e \<and>
        Ball (set (norm_parts ps (ns @ [p]))) proper"
      using Cons.IH c(2) by blast
    moreover have "norm_parts (p # ps) ns = norm_parts ps (ns @ [p])" using 3 by (simp add: proper_def)
    ultimately show ?thesis by simp
  qed
qed

lemma norm_parts_append: "norm_parts (xs @ ys) acc = norm_parts ys (norm_parts xs acc)"
  by (induction xs acc rule: norm_parts.induct) auto

lemma norm_parts_proper: "Ball (set ns) proper \<Longrightarrow> norm_parts ns acc = acc @ ns"
  by (induction ns arbitrary: acc) (auto simp: proper_def)

lemma split_slash_word: "CHR ''/'' \<notin> set s \<Longrightarrow> split_slash s = [s]"
proof -
  have "CHR ''/'' \<notin> set s \<Longrightarrow> split_slash_aux acc s = [rev acc @ s]" for acc
    by (induction s arbitrary: acc) auto
  then show "CHR ''/'' \<notin> set s \<Longrightarrow> split_slash s = [s]" by (simp add: split_slash_def)
qed

lemma split_slash_no_slash: "p \<in> set (split_slash s) \<Longrightarrow> CHR ''/'' \<notin> set p"
proof -
  have "p \<in> set (split_slash_aux acc s) \<Longrightarrow> CHR ''/'' \<notin> set acc \<Longrightarrow> CHR ''/'' \<notin> set p" for acc
    by (induction acc s rule: split_slash_aux.induct) (auto split: if_splits)
  then show "p \<in> set (split_slash s) \<Longrightarrow> CHR ''/'' \<notin> set p" by (simp add: split_slash_def)
qed

lemma split_slash_joined:
  "Ball (set ns) proper \<Longrightarrow> ns \<noteq> [] \<Longrightarrow> split_slash (join_with ''/'' ns) = ns"
proof (induction "''/''" ns rule: join_with.induct)
  case (3 x y ys)
  then show ?case by (simp add: split_slash_join split_slash_word proper_def)
qed (simp_all add: split_slash_word proper_def)

definition path_of :: "string list \<Rightarrow> string" where
  "path_of ns = ''/'' @ join_with ''/'' ns"

lemma norm_parts_path:
  assumes "Ball (set ns) proper"
  shows "norm_parts (split_slash (path_of ns)) acc = acc @ ns"
proof (cases "ns = []")
  case True
  then show ?thesis using split_slash_join [of "[]" "[]"] by (simp add: path_of_def split_slash_def)
next
  case False
  then show ?thesis
    using assms split_slash_join [of "[]" "join_with ''/'' ns"]
    by (simp add: path_of_def split_slash_joined norm_parts_proper split_slash_word)
qed

lemma join_last:
  "ns \<noteq> [] \<Longrightarrow> Ball (set ns) proper \<Longrightarrow> \<exists>s c. join_with ''/'' ns = s @ [c] \<and> c \<noteq> CHR ''/''"
proof (induction "''/''" ns rule: join_with.induct)
  case (2 x)
  then show ?case by (cases x rule: rev_cases) (auto simp: proper_def)
next
  case (3 x y ys)
  then obtain s c where "join_with ''/'' (y # ys) = s @ [c]" "c \<noteq> CHR ''/''" by auto
  then show ?case by (intro exI [of _ "x @ ''/'' @ s"] exI [of _ c]) simp
qed simp

lemma norm_parts_joined:
  assumes "Ball (set ns) proper"
  shows "norm_parts (split_slash (rstrip_slash (path_of ns) @ ''/'' @ path)) [] = norm_parts (split_slash path) ns"
proof (cases "ns = []")
  case True
  then show ?thesis
    using split_slash_join [of "[]" path] by (simp add: path_of_def rstrip_slash_def split_slash_word)
next
  case False
  then obtain s c where "join_with ''/'' ns = s @ [c]" "c \<noteq> CHR ''/''" using join_last assms by blast
  then have "rstrip_slash (path_of ns) = path_of ns" by (simp add: path_of_def rstrip_slash_def)
  then show ?thesis
    by (simp add: split_slash_join norm_parts_append norm_parts_path [OF assms])
qed

lemma resolve_proper:
  assumes "get_inode fs ROOT_INODE = Inr root" and "Ball (set ns) proper"
  shows "resolve fs (path_of ns) cwd = resolve_parts fs root ns"
proof -
  have "split_slash (path_of ns) = [] # split_slash (join_with ''/'' ns)"
    using split_slash_join [of "[]" "join_with ''/'' ns"] by (simp add: path_of_def split_slash_word)
  moreover have "resolve_parts fs root (split_slash (join_with ''/'' ns)) = resolve_parts fs root ns"
    using assms(2) by (cases "ns = []") (simp_all add: split_slash_joined split_slash_word)
  ultimately show ?thesis
    using assms(1) by (simp add: resolve_def path_of_def starts_slash_def)
qed

definition here_ok :: "minixfs \<Rightarrow> shell \<Rightarrow> bool" where
  "here_ok fs s \<longleftrightarrow> (\<exists>root ns. get_inode fs ROOT_INODE = Inr root \<and> Ball (set ns) proper \<and>
     sh_path s = path_of ns \<and> resolve_parts fs root ns = Inr (sh_cwd s))"

lemma cd_here:
  assumes "parents_ok fs" and "here_ok fs s" and "resolve fs path (Some (sh_cwd s)) = Inr e"
  shows "here_ok fs (s\<lparr>sh_cwd := e, sh_path := normalize_path (sh_path s) path\<rparr>)"
proof -
  obtain root ns where s: "get_inode fs ROOT_INODE = Inr root" "Ball (set ns) proper"
    "sh_path s = path_of ns" "resolve_parts fs root ns = Inr (sh_cwd s)"
    using assms(2) by (auto simp: here_ok_def)
  define d ms where "d = (if starts_slash path then root else sh_cwd s)" and
    "ms = (if starts_slash path then [] else ns)"
  have "resolve_parts fs d (split_slash path) = Inr e" "resolve_parts fs root ms = Inr d" "Ball (set ms) proper"
    using assms(3) s by (auto simp: resolve_def d_def ms_def split: if_splits)
  then have "resolve_parts fs root (norm_parts (split_slash path) ms) = Inr e \<and>
      Ball (set (norm_parts (split_slash path) ms)) proper"
    using norm_resolves [OF assms(1) s(1)] split_slash_no_slash by blast
  moreover have "normalize_path (sh_path s) path = path_of (norm_parts (split_slash path) ms)"
    using norm_parts_joined [OF s(2), of path]
    by (simp add: normalize_path_def s(3) ms_def path_of_def)
  ultimately show ?thesis using s(1) by (auto simp: here_ok_def)
qed

lemma gives_cd:
  assumes "parents_ok fs"
  shows "gives (here_ok fs) (do_cd fs arg) (\<lambda>_. True)"
  unfolding gives_def
proof (intro allI impI)
  fix s
  assume s: "here_ok fs s"
  let ?p = "case (case shlex_split arg of Inr a \<Rightarrow> a) of a # _ \<Rightarrow> a | [] \<Rightarrow> ''/''"
  have "here_ok fs (s\<lparr>sh_out := out\<rparr>)" for out using s by (simp add: here_ok_def)
  then show "here_ok fs (snd (do_cd fs arg s)) \<and> (\<forall>x. fst (do_cd fs arg s) = Inr x \<longrightarrow> True)"
    using s cd_here [OF assms s]
    by (auto simp: do_cd_def sh_args_def sh_resolve_def sh_print_def bindE_def liftR_def gets_def modify_def
        Let_def split: sum.splits)
qed

lemma sh_print_keeps: "gives (here_ok fs) (sh_print l) (\<lambda>_. True)"
  by (simp add: gives_def sh_print_def modify_def here_ok_def)

lemma sh_gets: "gives I (gets f) (\<lambda>_. True)"
  by (simp add: gives_def gets_def)

lemmas sh_rules = sh_print_keeps sh_gets mon_ret mon_then mon_bind mon_split mon_list mon_if mon_option
  mon_sum mon_liftR gives_raise

lemma sh_each:
  "gives (here_ok fs) (ls_long g es) (\<lambda>_. True)" "gives (here_ok fs) (ls_paths g l mu b ps) (\<lambda>_. True)"
  "gives (here_ok fs) (stat_paths g b ps) (\<lambda>_. True)" "gives (here_ok fs) (print_refs rs) (\<lambda>_. True)"
  "gives (here_ok fs) (print_problems pbs) (\<lambda>_. True)" "gives (here_ok fs) (file_paths g ps) (\<lambda>_. True)"
  "gives (here_ok fs) (print_plain ls) (\<lambda>_. True)"
proof -
  show long: "gives (here_ok fs) (ls_long g es) (\<lambda>_. True)" for es
    by (induction es rule: ls_long.induct) (simp_all only: ls_long.simps, (intro sh_rules; assumption?)+)
  show "gives (here_ok fs) (ls_paths g l mu b ps) (\<lambda>_. True)"
    by (induction ps arbitrary: b) (simp_all only: ls_paths.simps ls_path_def sh_resolve_def Let_def,
      (intro sh_rules long; assumption?)+)
  show "gives (here_ok fs) (stat_paths g b ps) (\<lambda>_. True)"
    by (induction ps arbitrary: b) (simp_all only: stat_paths.simps inode_info_def sh_resolve_def,
      (intro sh_rules; assumption?)+)
  show "gives (here_ok fs) (print_refs rs) (\<lambda>_. True)"
    by (induction rs rule: print_refs.induct) (simp_all only: print_refs.simps, (intro sh_rules; assumption?)+)
  show "gives (here_ok fs) (print_problems pbs) (\<lambda>_. True)"
    by (induction pbs) (simp_all only: print_problems.simps, (intro sh_rules; assumption?)+)
  show "gives (here_ok fs) (file_paths g ps) (\<lambda>_. True)"
    by (induction ps) (simp_all only: file_paths.simps sh_resolve_def, (intro sh_rules; assumption?)+)
  show "gives (here_ok fs) (print_plain ls) (\<lambda>_. True)"
    by (induction ls) (simp_all only: print_plain.simps, (intro sh_rules; assumption?)+)
qed

lemma sh_commands:
  "gives (here_ok fs) (do_ls g arg) (\<lambda>_. True)" "gives (here_ok fs) (do_stat g arg) (\<lambda>_. True)"
  "gives (here_ok fs) (do_inode g arg) (\<lambda>_. True)" "gives (here_ok fs) (do_info g arg) (\<lambda>_. True)"
  "gives (here_ok fs) (do_checkfs g arg) (\<lambda>_. True)" "gives (here_ok fs) (do_file g arg) (\<lambda>_. True)"
  "gives (here_ok fs) (do_dump g arg) (\<lambda>_. True)" "gives (here_ok fs) (do_less g po arg) (\<lambda>_. True)"
  "gives (here_ok fs) do_pwd (\<lambda>_. True)" "gives (here_ok fs) (sh_default line) (\<lambda>_. True)"
  unfolding do_ls_def do_stat_def do_inode_def do_info_def do_checkfs_def do_file_def do_dump_def do_less_def
    do_pwd_def sh_default_def print_fs_stats_def parse_inode_arg_def print_inode_raw_def sh_args_def
    sh_resolve_def Let_def
  by (intro sh_rules sh_each)+

lemma onecmd_keeps:
  assumes "parents_ok fs"
  shows "gives (here_ok fs) (onecmd fs po line) (\<lambda>_. True)"
proof -
  have c: "gives (here_ok fs) (cmd_onecmd fs po line) (\<lambda>_. True)"
    unfolding cmd_onecmd_def sh_command_def Let_def
    by (intro sh_rules sh_commands gives_cd [OF assms])
  have p: "gives (here_ok fs) (thenE (sh_print l) (ret b)) (\<lambda>_. True)" for l and b :: bool
    by (intro sh_rules)
  show ?thesis
    unfolding gives_def
  proof (intro allI impI)
    fix s
    assume s: "here_ok fs s"
    obtain r t where t: "cmd_onecmd fs po line s = (r, t)" by fastforce
    with c s have "here_ok fs t" by (auto simp: gives_def)
    with p show "here_ok fs (snd (onecmd fs po line s)) \<and> (\<forall>x. fst (onecmd fs po line s) = Inr x \<longrightarrow> True)"
      by (simp add: onecmd_def t gives_def split: sum.split exn.split)
  qed
qed

lemma cmdloop_keeps:
  assumes "parents_ok fs"
  shows "gives (here_ok fs) (cmdloop fs po input) (\<lambda>_. True)"
  by (induction input) (simp_all only: cmdloop.simps, (intro sh_rules onecmd_keeps [OF assms]; assumption?)+)

text \<open>C22. In a session of the browser over an image whose \<open>..\<close> entries name the parents, the path of the
  prompt always leads from the root to the directory the shell is in, whatever the commands and
  also after errors.\<close>

theorem shell_path_true:
  assumes "parents_ok fs" and "MinixShell_init fs = Inr s0" and "cmdloop fs po input s0 = (r, s)"
  shows "resolve fs (sh_path s) None = Inr (sh_cwd s)"
proof -
  have "here_ok fs s0"
    using assms(2) by (auto simp: MinixShell_init_def bindR_Inr_iff here_ok_def path_of_def intro!: exI [of _ "[]"])
  then have "here_ok fs s" using cmdloop_keeps [OF assms(1)] assms(3) by (metis gives_def snd_conv)
  then show ?thesis by (auto simp: here_ok_def resolve_proper)
qed

text \<open>An image with one directory \<open>d\<close> below its root.\<close>

definition nested_img :: bytes where
  "nested_img = replicate 1024 0
     @ [2, 0, 7, 0, 1, 0, 1, 0, 5, 0, 0, 0, 0xA0, 0x86, 1, 0, 0x7F, 0x13] @ replicate 1006 0
     @ [6] @ replicate 1023 0 @ [6] @ replicate 1023 0
     @ [0xED, 0x41, 0, 0, 48, 0, 0, 0, 0, 0, 0, 0, 0, 3, 5, 0] @ replicate 16 0
     @ [0xED, 0x41, 0, 0, 32, 0, 0, 0, 0, 0, 0, 0, 0, 2, 6, 0] @ replicate 976 0
     @ [1, 0, 0x2E] @ replicate 13 0 @ [1, 0, 0x2E, 0x2E] @ replicate 12 0
     @ [2, 0, 0x64] @ replicate 989 0
     @ [2, 0, 0x2E] @ replicate 13 0 @ [1, 0, 0x2E, 0x2E] @ replicate 1004 0"

definition nested_fs :: minixfs where
  "nested_fs = \<lparr>fp = nested_img, offset = 0, sb = tiny_sb\<rparr>"

definition nested_root :: inode where
  "nested_root = \<lparr>i_num = 1, i_mode = 0x41ED, i_uid = 0, i_size = 48, i_mtime = 0, i_gid = 0,
     i_nlinks = 3, i_zones = [5, 0, 0, 0, 0, 0, 0, 0, 0]\<rparr>"

definition nested_dir :: inode where
  "nested_dir = \<lparr>i_num = 2, i_mode = 0x41ED, i_uid = 0, i_size = 32, i_mtime = 0, i_gid = 0,
     i_nlinks = 2, i_zones = [6, 0, 0, 0, 0, 0, 0, 0, 0]\<rparr>"

lemma nested_sb: "sb nested_fs = tiny_sb"
  by (simp add: nested_fs_def)

lemma nested_blocks:
  "read_block nested_fs 4 = [0xED, 0x41, 0, 0, 48, 0, 0, 0, 0, 0, 0, 0, 0, 3, 5, 0] @ replicate 16 0
     @ [0xED, 0x41, 0, 0, 32, 0, 0, 0, 0, 0, 0, 0, 0, 2, 6, 0] @ replicate 976 0"
  "read_block nested_fs 5 = [1, 0, 0x2E] @ replicate 13 0 @ [1, 0, 0x2E, 0x2E] @ replicate 12 0
     @ [2, 0, 0x64] @ replicate 989 0"
  "read_block nested_fs 6 = [2, 0, 0x2E] @ replicate 13 0 @ [1, 0, 0x2E, 0x2E] @ replicate 1004 0"
  by (simp_all add: read_block_def nested_fs_def nested_img_def read_block_at_def file_read_def
      BLOCK_SIZE_def)

lemma nested_inode:
  "get_inode nested_fs 1 = Inr nested_root" "get_inode nested_fs 2 = Inr nested_dir"
proof -
  have i: "inode_table_block tiny_sb = 4"
    by (simp add: tiny_sb_def inode_table_block_def)
  have "py_slice (read_block nested_fs 4) 0 32 =
     [0xED, 0x41, 0, 0, 48, 0, 0, 0, 0, 0, 0, 0, 0, 3, 5, 0] @ replicate 16 0"
    and "py_slice (read_block nested_fs 4) 32 64 =
     [0xED, 0x41, 0, 0, 32, 0, 0, 0, 0, 0, 0, 0, 0, 2, 6, 0] @ replicate 16 0"
    by (simp_all add: nested_blocks py_slice_nonneg)
  moreover have "sb nested_fs = tiny_sb" by (simp add: nested_fs_def)
  ultimately show "get_inode nested_fs 1 = Inr nested_root" "get_inode nested_fs 2 = Inr nested_dir"
    by (simp_all add: get_inode_def i minix_consts)
      (simp_all add: tiny_sb_def Inode_parse_def nested_root_def nested_dir_def u16_at_def u32_at_def
        le16_def le32_def upt_conv_Cons drop_Cons')
qed

lemma nested_read:
  "read_file nested_fs nested_root 0 None =
     Inr ([1, 0, 0x2E] @ replicate 13 0 @ [1, 0, 0x2E, 0x2E] @ replicate 12 0
          @ [2, 0, 0x64] @ replicate 13 0)"
  "read_file nested_fs nested_dir 0 None =
     Inr ([2, 0, 0x2E] @ replicate 13 0 @ [1, 0, 0x2E, 0x2E] @ replicate 12 0)"
  by (simp_all add: read_file_def readable_type_def i_is_dir_def i_is_regular_def i_is_symlink_def
      S_ISDIR_def S_ISREG_def S_ISLNK_def S_IFMT_def nested_root_def nested_dir_def BLOCK_SIZE_def
      read_loop.simps [of _ _ _ _ 0] read_loop.simps [of _ _ _ _ 1] zone_at_def py_index_def
      nested_blocks py_slice_nonneg)

lemma nested_char: "char_of (100 :: nat) = CHR ''d''"
  by code_simp

lemma nested_is_dir: "i_is_dir nested_root" "i_is_dir nested_dir"
  by (simp_all add: nested_root_def nested_dir_def i_is_dir_def S_ISDIR_def S_IFMT_def)

lemma nested_entries:
  "read_dir nested_fs nested_root = Inr [(1, ''.''), (1, ''..''), (2, ''d'')]"
  "read_dir nested_fs nested_dir = Inr [(2, ''.''), (1, ''..'')]"
  by (simp_all add: read_dir_def nested_read nested_is_dir dirent_size_def name_len_def nested_sb
      tiny_sb_def minix_consts range_step_def upt_conv_Cons py_slice_nonneg u16_at_def le16_def latin1_def
      tiny_chars nested_char)

lemma nested_lookup:
  "dir_lookup nested_fs nested_root ''..'' = Inr (Some nested_root)"
  "dir_lookup nested_fs nested_dir ''..'' = Inr (Some nested_root)"
  by (simp_all add: dir_lookup_def nested_entries nested_inode)

lemma nested_parents: "parents_ok nested_fs"
  unfolding parents_ok_def
proof (intro conjI allI impI)
  fix n d name c
  assume d: "get_inode nested_fs n = Inr d" and name: "name \<noteq> ''.''" "name \<noteq> ''..''"
    and c: "dir_lookup nested_fs d name = Inr (Some c)"
  have "n = 1 \<or> n = 2" using get_inode_Inr [OF d] by (auto simp: nested_fs_def tiny_sb_def)
  with d have "d = nested_root \<or> d = nested_dir" by (auto simp: nested_inode)
  with c name have "d = nested_root" "c = nested_dir"
    by (auto simp: dir_lookup_def nested_entries nested_inode split: if_splits)
  then show "dir_lookup nested_fs c ''..'' = Inr (Some d)" by (simp add: nested_lookup)
next
  fix r
  assume "get_inode nested_fs ROOT_INODE = Inr r"
  then show "dir_lookup nested_fs r ''..'' = Inr (Some r)" by (simp add: ROOT_INODE_def nested_inode nested_lookup)
qed

theorem shell_path_true_witness:
  "\<exists>r s. cmdloop nested_fs (\<lparr>po_height = None, po_width = None, po_keys = None, po_ansi = None,
       po_term = (80, 24), po_typed = None\<rparr>) [''cd d'', ''cd ../nowhere'', ''pwd'']
       \<lparr>sh_cwd = nested_root, sh_path = ''/'', sh_out = []\<rparr> = (r, s) \<and>
     resolve nested_fs (sh_path s) None = Inr (sh_cwd s)"
proof -
  have i: "MinixShell_init nested_fs = Inr \<lparr>sh_cwd = nested_root, sh_path = ''/'', sh_out = []\<rparr>"
    by (simp add: MinixShell_init_def ROOT_INODE_def nested_inode)
  obtain r s where "cmdloop nested_fs (\<lparr>po_height = None, po_width = None, po_keys = None, po_ansi = None,
       po_term = (80, 24), po_typed = None\<rparr>) [''cd d'', ''cd ../nowhere'', ''pwd'']
       \<lparr>sh_cwd = nested_root, sh_path = ''/'', sh_out = []\<rparr> = (r, s)" by fastforce
  with shell_path_true [OF nested_parents i this] show ?thesis by blast
qed

section \<open>Dumps\<close>

text \<open>What a reader of a dump takes from a line: the two columns of each byte, where there are any.\<close>

definition unhex2 :: "string \<Rightarrow> byte option" where
  "unhex2 s = (case map digit_val s of [Some a, Some b] \<Rightarrow> Some (word_of_nat (16 * a + b)) | _ \<Rightarrow> None)"

definition hex_column :: "string \<Rightarrow> nat \<Rightarrow> string" where
  "hex_column line i = take 2 (drop (10 + 3 * i + (if i < 8 then 0 else 1)) line)"

definition undump_line :: "string \<Rightarrow> bytes" where
  "undump_line line = concat (map (\<lambda>i. case unhex2 (hex_column line i) of Some b \<Rightarrow> [b] | None \<Rightarrow> []) [0..<16])"

lemma length_hex_text: "n < 16 ^ k \<Longrightarrow> 0 < k \<Longrightarrow> length (hex_text n) \<le> k"
proof (induction n arbitrary: k rule: hex_text.induct)
  case (1 n)
  show ?case
  proof (cases "n < 16")
    case True
    with 1(3) show ?thesis by (simp add: hex_text.simps [of n])
  next
    case False
    then obtain j where j: "k = Suc j" "0 < j" using 1(2,3) by (cases k; cases "k - 1") auto
    then have "n div 16 < 16 ^ j" using 1(2) by (simp add: less_mult_imp_div_less mult.commute)
    with 1(1) [OF False _ j(2)] False j show ?thesis by (simp add: hex_text.simps [of n])
  qed
qed

lemma length_hex8:
  assumes "0 \<le> a" and "a < 2 ^ 32"
  shows "length (hex8 a) = 8"
proof -
  have "nat a < 16 ^ 8" using assms by simp
  from length_hex_text [OF this] assms(1) show ?thesis by (simp add: hex8_def hex_padded_def Let_def)
qed

lemma join_column:
  "i < length cells \<Longrightarrow> \<forall>c \<in> set cells. length c = 2 \<Longrightarrow> take 2 (drop (3 * i) (join_with '' '' cells)) = cells ! i"
proof (induction "'' ''" cells arbitrary: i rule: join_with.induct)
  case (3 x y ys)
  show ?case
  proof (cases i)
    case 0
    with 3(3) show ?thesis by simp
  next
    case (Suc j)
    with 3(3) have "drop (3 * i) (join_with '' '' (x # y # ys)) = drop (3 * j) (join_with '' '' (y # ys))"
      by (simp add: drop_Cons')
    with 3(1) [of j] 3(2,3) Suc show ?thesis by simp
  qed
qed auto

lemma join_length:
  "cells \<noteq> [] \<Longrightarrow> \<forall>c \<in> set cells. length c = 2 \<Longrightarrow> length (join_with '' '' cells) = 3 * length cells - 1"
  by (induction "'' ''" cells rule: join_with.induct) auto

lemma hex2_column:
  assumes "length (hex8 a) = 8" and "i < 16" and "length row \<le> 16"
  shows "hex_column (dump_line a row) i = (if i < length row then hex2 (row ! i) else ''  '')"
proof -
  let ?cells = "map (\<lambda>i. if i < length row then hex2 (row ! i) else ''  '') [0..<16]"
  let ?h = "join_with '' '' ?cells"
  have two: "\<forall>c \<in> set ?cells. length c = 2" by (auto simp: hex2_def)
  have len: "length ?h = 47" using join_length [OF _ two] by simp
  have col: "take 2 (drop (3 * i) ?h) = ?cells ! i" using join_column [OF _ two] assms(2) by simp
  let ?k = "3 * i + (if i < 8 then 0 else 1)"
  have "length (hex_part row) = 48" using len by (simp add: hex_part_def Let_def)
  moreover have "?k + 2 \<le> 48" using assms(2) by simp
  ultimately have k: "?k + 2 \<le> length (hex_part row)" by simp
  have "hex_column (dump_line a row) i = take 2 (drop ?k (hex_part row @ ''  |'' @ ascii_part row @ ''|''))"
    using assms(1) by (simp add: hex_column_def dump_line_def del: append_Cons)
  also have "\<dots> = take 2 (drop ?k (hex_part row))" using k by (simp del: append_Cons)
  also have "take 2 (drop ?k (hex_part row)) = take 2 (drop (3 * i) ?h)"
  proof (cases "i < 8")
    case True
    then have "take 2 (drop (3 * i) (take 23 ?h)) = take 2 (drop (3 * i) ?h)" "3 * i + 2 \<le> 23"
      by (simp_all add: take_drop min_def)
    then show ?thesis using True len by (simp add: hex_part_def Let_def take_drop)
  next
    case False
    then have "drop (3 * i - 23) (drop 23 ?h) = drop (3 * i) ?h" by simp
    then show ?thesis using False len by (simp add: hex_part_def Let_def drop_Cons')
  qed
  finally show ?thesis using col assms(2) by simp
qed

lemma unhex2_hex2: "unhex2 (hex2 b) = Some b"
proof -
  have "unat b < 256" using unsigned_less [of b] by simp
  then have "unat b div 16 < 16" by simp
  then show ?thesis
    by (simp add: unhex2_def hex2_def hex_chars mult_div_mod_eq)
qed

lemma undump_dump_line:
  assumes "length (hex8 a) = 8" and "length row \<le> 16"
  shows "undump_line (dump_line a row) = row"
proof -
  have b: "unhex2 ''  '' = None" by (simp add: unhex2_def digit_val_def lower_char_def)
  have "undump_line (dump_line a row) = concat (map (\<lambda>i. if i < length row then [row ! i] else []) [0..<16])"
    unfolding undump_line_def
    by (rule arg_cong [where f = concat], rule map_cong [OF refl])
      (use assms b in \<open>simp add: hex2_column unhex2_hex2\<close>)
  also have "[0..<16] = [0..<length row] @ [length row..<16]"
    using assms(2) upt_add_eq_append [of 0 "length row" "16 - length row"] by simp
  also have "concat (map (\<lambda>i. if i < length row then [row ! i] else []) \<dots>) = map ((!) row) [0..<length row]"
  proof -
    have "map (\<lambda>i. if i < length row then [row ! i] else []) [0..<length row] = map (\<lambda>i. [row ! i]) [0..<length row]"
      by simp
    moreover have "concat (map (\<lambda>i. if i < length row then [row ! i] else []) [length row..<16]) = []"
      by simp
    ultimately show ?thesis by (simp only: map_append concat_append concat_map_singleton append_Nil2)
  qed
  finally show ?thesis by (simp add: map_nth)
qed

text \<open>C37. A hexadecimal dump of a file shows it exactly: the bytes read back from the hexadecimal columns of
  its lines are the bytes that were read, none lost or doubled at the ends of the rows, and the last
  line is the offset after them, for every window that ends within 4 GB.\<close>

theorem dump_exact:
  assumes "0 \<le> a" and "a + int (length data) < 2 ^ 32"
  shows "concat (map undump_line (butlast (dump_lines a data))) = data \<and>
    last (dump_lines a data) = hex8 (a + int (length data))"
  using assms
proof (induction a data rule: dump_lines.induct)
  case (1 a data)
  show ?case
  proof (cases "data = []")
    case True
    then show ?thesis by (simp add: dump_lines.simps [of a])
  next
    case False
    let ?row = "take 16 data" and ?rest = "dump_lines (a + int (length (take 16 data))) (drop 16 data)"
    have lines: "dump_lines a data = dump_line a ?row # ?rest" using False by (subst dump_lines.simps) simp
    have ne: "?rest \<noteq> []" by (subst dump_lines.simps) simp
    have n: "int (length ?row) + int (length (drop 16 data)) = int (length data)"
      by (metis append_take_drop_id length_append of_nat_add)
    then have "concat (map undump_line (butlast ?rest)) = drop 16 data \<and>
        last ?rest = hex8 (a + int (length ?row) + int (length (drop 16 data)))"
      using 1(1) [OF False] 1(2,3) by (simp only: add.assoc)
    moreover have "undump_line (dump_line a ?row) = ?row"
      using length_hex8 [of a] 1(2,3) by (intro undump_dump_line) simp_all
    moreover have "?row @ drop 16 data = data" by simp
    ultimately show ?thesis
      unfolding lines using ne n by (simp only: butlast.simps last.simps if_False list.map concat.simps add.assoc)
  qed
qed

theorem dump_exact_witness:
  "concat (map undump_line (butlast (dump_lines 16 [0x7F, 0x45, 0x4C, 0x46, 10, 0, 1, 2, 3, 4, 5, 6, 7, 8, 9, 0xFF, 0x20]))) =
     [0x7F, 0x45, 0x4C, 0x46, 10, 0, 1, 2, 3, 4, 5, 6, 7, 8, 9, 0xFF, 0x20] \<and>
   last (dump_lines 16 [0x7F, 0x45, 0x4C, 0x46, 10, 0, 1, 2, 3, 4, 5, 6, 7, 8, 9, 0xFF, 0x20]) = hex8 33"
  using dump_exact [of 16 "[0x7F, 0x45, 0x4C, 0x46, 10, 0, 1, 2, 3, 4, 5, 6, 7, 8, 9, 0xFF, 0x20]"] by simp

end
