(* ===== verification/Emulator.thy ===== *)
theory Emulator
  imports Kmonitor
begin

text \<open>
  \<open>src/emulator.py\<close>: the entry point. \<open>split_argv\<close> divides the command line between the emulator
  and the program; \<open>main\<close> builds image, overlay, terminal and kernel, boots, runs the main loop and
  turns the exit status into an exit code. The options are a record, as \<open>argparse\<close> leaves them;
  the content of the file of \<open>--load-overlay\<close> is part of it. The messages on the host's console,
  Ctrl-C on the host and the modes of its terminal are not modelled.
\<close>

section \<open>Whose argument is it\<close>

definition VALUE_OPTS :: "string list" where
  "VALUE_OPTS = [''--offset'', ''--max-insns'', ''--save-overlay'', ''--load-overlay'', ''--escape'']"

definition is_option :: "string \<Rightarrow> bool" where
  "is_option a \<longleftrightarrow> take 1 a = ''-'' \<and> a \<noteq> ''-''"

function split_loop :: "bool \<Rightarrow> string list \<Rightarrow> string list \<times> string list" where
  "split_loop seen_image argv =
     (case argv of
        [] \<Rightarrow> ([], [])
      | a # rest \<Rightarrow>
          if is_option a then
            (case (if a \<in> set VALUE_OPTS then rest else []) of
               v # others \<Rightarrow> (case split_loop seen_image others of (head, tail) \<Rightarrow> (a # v # head, tail))
             | [] \<Rightarrow> (case split_loop seen_image rest of (head, tail) \<Rightarrow> (a # head, tail)))
          else if \<not> seen_image then (case split_loop True rest of (head, tail) \<Rightarrow> (a # head, tail))
          else ([], argv))"
  by pat_completeness auto

termination
  by (relation "measure (\<lambda>(seen, argv). length argv)") (auto split: if_splits)

declare split_loop.simps [simp del]

definition split_argv :: "string list \<Rightarrow> string list \<times> string list" where
  "split_argv argv = split_loop False argv"

section \<open>Building the kernel\<close>

record options =
  o_offset :: "int option"
  o_max_insns :: int
  o_trace :: bool
  o_profile :: bool
  o_save :: bool
  o_load :: "(int \<times> (int \<times> saved) list) option"
  o_monitor :: bool
  o_debug :: bool
  o_escape :: string

definition default_options :: options where
  "default_options = \<lparr>o_offset = None, o_max_insns = 2000000000, o_trace = False, o_profile = False,
     o_save = False, o_load = None, o_monitor = False, o_debug = False, o_escape = ''a''\<rparr>"

definition upper_char :: "char \<Rightarrow> char" where
  "upper_char c = (let n = of_char c :: nat in if 97 \<le> n \<and> n \<le> 122 then char_of (n - 32) else c)"

definition parse_escape :: "string \<Rightarrow> int option" where
  "parse_escape s =
     (if py_lower s = ''none'' \<or> py_lower s = ''off'' \<or> s = [] then Some 0
      else case s of [c] \<Rightarrow> Some (of_char (upper_char c) AND 0x1F) | _ \<Rightarrow> None)"

definition build_kernel :: "bytes \<Rightarrow> int option \<Rightarrow> terminal \<Rightarrow> int \<Rightarrow> (nat \<Rightarrow> int) \<Rightarrow> exn + kernel" where
  "build_kernel img off term escape clk =
     bindR (MinixFS_init img off) (\<lambda>base.
     bindR (OverlayFS_init base) (\<lambda>fs.
     Inr (Kernel_init fs (Some (TTY_init term escape)) True clk)))"

definition configure :: "options \<Rightarrow> int \<Rightarrow> unit km" where
  "configure opts escape =
     thenE (if o_trace opts then set_trace_capacity TRACE_VERBOSE else ret ())
     (thenE (if o_profile opts then set_profiling True else ret ())
       (if escape = 0 then modify (\<lambda>k. k\<lparr>k_on_escape := False\<rparr>) else ret ()))"

definition load_overlay :: "options \<Rightarrow> unit km" where
  "load_overlay opts = (case o_load opts of None \<Rightarrow> ret () | Some blob \<Rightarrow> in_fs (import_changes blob))"

text \<open>No program means the built-in init; \<open>--debug\<close> follows the program.\<close>

definition start_program :: "options \<Rightarrow> string list \<Rightarrow> unit km" where
  "start_program opts tail =
     (case tail of
        [] \<Rightarrow> bindE boot_init (\<lambda>_. ret ())
      | program # _ \<Rightarrow>
          bindE (boot program (map utf8 tail) []) (\<lambda>pid.
          if o_debug opts then modify (\<lambda>k. k\<lparr>k_debug_target := Some pid\<rparr>) else ret ()))"

definition stop_first :: "options \<Rightarrow> unit km" where
  "stop_first opts =
     (if o_monitor opts \<or> o_debug opts then modify (\<lambda>k. k\<lparr>k_monitor_pending := True\<rparr>) else ret ())"

section \<open>Running it\<close>

definition exit_code :: "int \<Rightarrow> int" where
  "exit_code code = (if code > 0 then drop_bit 8 code AND 0xFF else 0)"

text \<open>What \<open>finally\<close> writes to the standard error: the trace and the profile.\<close>

definition final_dump :: "options \<Rightarrow> unit mm" where
  "final_dump opts =
     thenE (if o_trace opts then bindE (ask k_trace_capacity) show_trace else ret ())
       (if o_profile opts then dump_profile else ret ())"

record outcome =
  oc_result :: "exn + int"
  oc_kernel :: "kernel option"
  oc_dump :: "mon_line list"
  oc_saved :: "(int \<times> (int \<times> saved) list) option"

definition stopped :: "exn + int \<Rightarrow> kernel option \<Rightarrow> outcome" where
  "stopped r k = \<lparr>oc_result = r, oc_kernel = k, oc_dump = [], oc_saved = None\<rparr>"

definition run_machine :: "options \<Rightarrow> unit km \<Rightarrow> (exn \<Rightarrow> bytes) \<Rightarrow> kernel \<Rightarrow> outcome" where
  "run_machine opts session msg k =
     (case thenE (stop_first opts) (run_kernel (Some session) msg (o_max_insns opts)) k of
        (r, k') \<Rightarrow>
          (case final_dump opts (Monitor_init k') of
             (Inl e, m) \<Rightarrow> \<lparr>oc_result = Inl e, oc_kernel = Some k', oc_dump = mn_out m, oc_saved = None\<rparr>
           | (Inr _, m) \<Rightarrow>
               \<lparr>oc_result = (case r of Inl e \<Rightarrow> Inl e | Inr code \<Rightarrow> Inr (exit_code code)),
                oc_kernel = Some k', oc_dump = mn_out m,
                oc_saved = (case r of Inr _ \<Rightarrow> if o_save opts then Some (export_changes (k_fs k')) else None
                            | Inl _ \<Rightarrow> None)\<rparr>))"

definition main :: "options \<Rightarrow> string list \<Rightarrow> bytes \<Rightarrow> terminal \<Rightarrow> (nat \<Rightarrow> int) \<Rightarrow> unit km \<Rightarrow> (exn \<Rightarrow> bytes) \<Rightarrow> outcome" where
  "main opts tail img term clk session msg =
     (case parse_escape (o_escape opts) of
        None \<Rightarrow> stopped (Inr 2) None
      | Some escape \<Rightarrow>
          (case build_kernel img (o_offset opts) term escape clk of
             Inl e \<Rightarrow> stopped (if e = MinixError then Inr 1 else Inl e) None
           | Inr k0 \<Rightarrow>
               (case thenE (configure opts escape) (load_overlay opts) k0 of
                  (Inl e, k) \<Rightarrow> stopped (Inl e) (Some k)
                | (Inr _, k1) \<Rightarrow>
                    (case start_program opts tail k1 of
                       (Inl (FsError _), k) \<Rightarrow> stopped (Inr 1) (Some k)
                     | (Inl (ExecError _), k) \<Rightarrow> stopped (Inr 1) (Some k)
                     | (Inl e, k) \<Rightarrow> stopped (Inl e) (Some k)
                     | (Inr _, k2) \<Rightarrow> run_machine opts session msg k2))))"

end
