(* ===== verification/Kernel_Run.thy ===== *)
theory Kernel_Run
  imports Kernel_Loop
begin

text \<open>
  The main loop as a whole: from a reachable state, with a monitor session that keeps to reachable
  states, every completed turn ends in a reachable state, and so does the loop when it returns. The
  one way out is a turn in which init cannot start the shell that reads \<open>/etc/rc\<close>: its process stays
  half made.
\<close>

text \<open>A session of the monitor, as a step of the kernel.\<close>

definition session_of :: "string list \<Rightarrow> monitor \<Rightarrow> unit km" where
  "session_of input m k = (case interact input (m\<lparr>mn_k := k\<rparr>) of (r, m') \<Rightarrow> (r, mn_k m'))"

definition session_ok :: "minixfs \<Rightarrow> (exn \<Rightarrow> bytes) \<Rightarrow> unit km \<Rightarrow> bool" where
  "session_ok fs msg m \<longleftrightarrow>
     (\<forall>k k'. reachable fs msg k \<longrightarrow> m (k\<lparr>k_monitor_pending := False\<rparr>) = (Inr (), k') \<longrightarrow> reachable fs msg k')"

lemma session_ok_of: "session_ok fs msg (session_of input m)"
  unfolding session_ok_def session_of_def
  by (auto split: prod.splits intro: monitored)

lemma not_pending: "reachable fs msg k \<Longrightarrow> reachable fs msg (k\<lparr>k_monitor_pending := False\<rparr>)"
  by (drule configured [where tg = "k_debug_target k" and b = False]) simp

lemma session_ok_ret: "session_ok fs msg (ret ())"
  by (auto simp: session_ok_def ret_def not_pending)

lemma reachable_session:
  assumes "reachable fs msg k" and "\<And>m. mon = Some m \<Longrightarrow> session_ok fs msg m"
    and "enter_monitor mon k = (Inr (), k')"
  shows "reachable fs msg k'"
  using assms
  by (auto simp: enter_monitor_def bindE_def thenE_def gets_def modify_def ret_def session_ok_def not_pending
      split: if_splits option.splits)

section \<open>A turn\<close>

text \<open>The turn in which the script of init cannot be started.\<close>

definition rc_fails :: "unit km option \<Rightarrow> (exn \<Rightarrow> bytes) \<Rightarrow> kernel \<Rightarrow> bool" where
  "rc_fails mon msg k \<longleftrightarrow>
     (case thenE (enter_monitor mon) events k of
        (Inl _, _) \<Rightarrow> False
      | (Inr _, k1) \<Rightarrow> k_init_state k1 = InitRc \<and> k_init_state (snd (init_step msg k1)) \<noteq> WaitRc)"

lemma reachable_turn:
  assumes k: "reachable fs msg k" and ok: "\<And>m. mon = Some m \<Longrightarrow> session_ok fs msg m"
    and t: "turn mon msg k = (Inr r, k')" and rc: "\<not> rc_fails mon msg k"
  shows "reachable fs msg k'"
proof (cases "k_quit k")
  case False
  then obtain k1 where k1: "enter_monitor mon k = (Inr (), k1)"
    and rest: "(if k_quit k1 then ret (Return (k_exit_status k1))
       else thenE events (thenE (init_step msg) schedule)) k1 = (Inr r, k')"
    using t by (auto simp: turn_def bindE_def gets_def thenE_Inr_iff)
  have r1: "reachable fs msg k1" by (rule reachable_session [OF k ok k1])
  show ?thesis
  proof (cases "k_quit k1")
    case False
    with rest obtain k2 k3 where k2: "events k1 = (Inr (), k2)" and k3: "init_step msg k2 = (Inr (), k3)"
      and k': "schedule k3 = (Inr r, k')"
      by (auto simp: thenE_Inr_iff)
    have "thenE (enter_monitor mon) events k = (Inr (), k2)" using k1 k2 by (simp add: thenE_Inr_iff)
    with rc k3 have "k_init_state k2 = InitRc \<Longrightarrow> k_init_state k3 = WaitRc" by (simp add: rc_fails_def)
    with r1 k2 k3 k' show ?thesis by (blast intro: reachable.events reachable.init scheduled)
  qed (use rest r1 in \<open>simp add: ret_def\<close>)
qed (use t k in \<open>simp add: turn_def bindE_def gets_def ret_def\<close>)

section \<open>The loop\<close>

inductive passes :: "unit km option \<Rightarrow> (exn \<Rightarrow> bytes) \<Rightarrow> kernel \<Rightarrow> kernel \<Rightarrow> bool" for mon msg where
  start: "passes mon msg k k"
| turn: "turn mon msg k = (Inr r, t) \<Longrightarrow> passes mon msg t u \<Longrightarrow> passes mon msg k u"

lemma reachable_passes:
  assumes "passes mon msg k t" and "reachable fs msg k" and "\<And>m. mon = Some m \<Longrightarrow> session_ok fs msg m"
    and "\<And>u. passes mon msg k u \<Longrightarrow> \<not> rc_fails mon msg u"
  shows "reachable fs msg t"
  using assms by (induction rule: passes.induct) (blast intro: passes.intros reachable_turn)+

lemma sched_passes:
  assumes "sched mon msg limit tot idle k = (Inr c, k')"
  shows "passes mon msg k k'"
  using assms
proof (induction mon msg limit tot idle k rule: sched.induct)
  case (1 mon msg limit tot idle k)
  show ?case
  proof (cases "tot < limit")
    case True
    obtain r t where t: "turn mon msg k = (r, t)" by fastforce
    show ?thesis
      using 1(3) True t 1(1,2) [of r t]
      by (subst (asm) sched.simps)
        (auto split: sum.splits turn_end.splits if_splits intro: passes.intros)
  qed (use 1(3) in \<open>auto simp: sched.simps [of mon msg limit tot idle k] intro: passes.start\<close>)
qed

lemma sched_reachable:
  assumes "reachable fs msg k" and "\<And>m. mon = Some m \<Longrightarrow> session_ok fs msg m"
    and "sched mon msg limit tot idle k = (Inr c, k')"
    and "\<And>u. passes mon msg k u \<Longrightarrow> \<not> rc_fails mon msg u"
  shows "reachable fs msg k'"
  using reachable_passes [OF sched_passes [OF assms(3)] assms(1,2,4)] .

end
