(* ===== verification/Emulator_Props.thy ===== *)
theory Emulator_Props
  imports Emulator Kernel_Run Tiny_Kernel
begin

text \<open>
  The properties of the entry point: which words of the command line reach the program, the states the
  main loop starts from and ends in, and the exit code.
\<close>

section \<open>The command line\<close>

text \<open>Options of the emulator, each with its value where it takes one.\<close>

inductive opt_words :: "string list \<Rightarrow> bool" where
  none: "opt_words []"
| flag: "is_option a \<Longrightarrow> a \<notin> set VALUE_OPTS \<Longrightarrow> opt_words ws \<Longrightarrow> opt_words (a # ws)"
| valued: "a \<in> set VALUE_OPTS \<Longrightarrow> opt_words ws \<Longrightarrow> opt_words (a # v # ws)"

lemma value_opts_options: "a \<in> set VALUE_OPTS \<Longrightarrow> is_option a"
  unfolding VALUE_OPTS_def list.set insert_iff empty_iff
  by (elim disjE FalseE; hypsubst; simp add: is_option_def)

lemma split_options:
  "opt_words ws \<Longrightarrow> split_loop seen (ws @ rest) = (case split_loop seen rest of (head, tail) \<Rightarrow> (ws @ head, tail))"
proof (induction rule: opt_words.induct)
  case none
  show ?case by (simp split: prod.split)
next
  case (flag a ws)
  then show ?case by (subst split_loop.simps) (simp split: prod.split)
next
  case (valued a ws v)
  then show ?case using value_opts_options [OF valued(1)]
    by (subst split_loop.simps) (simp split: prod.split)
qed

lemma split_words_kept: "fst (split_loop seen argv) @ snd (split_loop seen argv) = argv"
proof (induction seen argv rule: split_loop.induct)
  case (1 seen argv)
  show ?case
  proof (cases argv)
    case Nil
    then show ?thesis by (simp add: split_loop.simps [of seen "[]"])
  next
    case (Cons a rest)
    consider (valued) v others where "is_option a" "a \<in> set VALUE_OPTS" "rest = v # others"
      | (flag) "is_option a" "a \<notin> set VALUE_OPTS \<or> rest = []" | (img) "\<not> is_option a" "\<not> seen"
      | (program) "\<not> is_option a" "seen"
      by (cases rest) auto
    then show ?thesis
    proof cases
      case valued
      then have "fst (split_loop seen others) @ snd (split_loop seen others) = others"
        using 1(2) [OF Cons valued(1)] by simp
      with Cons valued show ?thesis
        by (simp add: split_loop.simps [of seen "a # v # others"] case_prod_beta)
    next
      case flag
      then have none: "(if a \<in> set VALUE_OPTS then rest else []) = []" by auto
      then have "fst (split_loop seen rest) @ snd (split_loop seen rest) = rest"
        using 1(1) [OF Cons flag(1)] by simp
      with Cons flag(1) none show ?thesis
        by (simp add: split_loop.simps [of seen "a # rest"] case_prod_beta)
    next
      case img
      then have "fst (split_loop True rest) @ snd (split_loop True rest) = rest"
        using 1(3) [OF Cons] by simp
      with Cons img show ?thesis
        by (simp add: split_loop.simps [of False "a # rest"] case_prod_beta)
    next
      case program
      with Cons show ?thesis by (simp add: split_loop.simps [of True "a # rest"])
    qed
  qed
qed

text \<open>C36. The command line is divided where the program's name stands: the options before the image and
  between image and program go to the emulator with their values, and the program gets its name and
  everything after it as typed, even words that look like options of the emulator. Whatever the command line,
  no word is lost or moved.\<close>

theorem split_argv_exact:
  "(opt_words ws \<and> \<not> is_option img \<and> opt_words vs \<and> \<not> is_option program \<longrightarrow>
     split_argv (ws @ img # vs @ program # args) = (ws @ img # vs, program # args)) \<and>
   (\<forall>argv. fst (split_argv argv) @ snd (split_argv argv) = argv)"
proof (intro conjI impI allI)
  assume a: "opt_words ws \<and> \<not> is_option img \<and> opt_words vs \<and> \<not> is_option program"
  have "split_loop True (program # args) = ([], program # args)"
    using a by (subst split_loop.simps) simp
  with a have "split_loop True (vs @ program # args) = (vs, program # args)" by (simp add: split_options)
  with a have "split_loop False (img # vs @ program # args) = (img # vs, program # args)"
    by (subst split_loop.simps) simp
  with a show "split_argv (ws @ img # vs @ program # args) = (ws @ img # vs, program # args)"
    by (simp add: split_argv_def split_options)
qed (simp add: split_argv_def split_words_kept)

theorem split_argv_exact_witness:
  "split_argv [''--max-insns'', ''100'', ''hdc.img'', ''--trace'', ''/bin/ls'', ''--trace'', ''-l''] =
     ([''--max-insns'', ''100'', ''hdc.img'', ''--trace''], [''/bin/ls'', ''--trace'', ''-l''])"
proof -
  have "opt_words [''--max-insns'', ''100'']" "opt_words [''--trace'']"
    by (auto intro!: opt_words.intros simp: VALUE_OPTS_def is_option_def)
  then show ?thesis
    using split_argv_exact [of "[''--max-insns'', ''100'']" "''hdc.img''" "[''--trace'']" "''/bin/ls''" "[''--trace'', ''-l'']"]
    by (simp add: is_option_def)
qed

text \<open>
  An abbreviation that \<open>argparse\<close> would take for \<open>--max-insns\<close> is not known here: its value counts as the
  image, and the image as the program.
\<close>

lemma abbreviation_misread: "split_argv [''--max'', ''100'', ''hdc.img''] = ([''--max'', ''100''], [''hdc.img''])"
  by (simp add: split_argv_def split_loop.simps is_option_def VALUE_OPTS_def)

section \<open>The state the main loop starts from\<close>

lemma configure_prepared:
  "configure opts escape (Kernel_init fs tm True clk) =
     (Inr (), prepared fs tm (escape \<noteq> 0) clk (if o_trace opts then TRACE_VERBOSE else TRACE_DEFAULT) (o_profile opts))"
  by (simp add: configure_def thenE_def bindE_def ret_def modify_def set_trace_capacity_def set_profiling_def
      prepared_def Kernel_init_def bounded_def TRACE_VERBOSE_def TRACE_DEFAULT_def)

lemma enqueue_configured:
  "snd (enqueue p (k\<lparr>k_debug_target := tg, k_monitor_pending := b\<rparr>)) =
     (snd (enqueue p k))\<lparr>k_debug_target := tg, k_monitor_pending := b\<rparr>"
  by (simp add: enqueue_def modify_def)

lemma booted_current:
  assumes "kinv fs {} None k" and "boot path argv envp k = (Inr p, k')"
  shows "k_current k' = Some p"
proof -
  have "wp (boot path argv envp) (\<lambda>p t. k_current t = Some p) (\<lambda>_ _. True) k"
    by (rule wp_boot [OF assms(1)]) simp_all
  with assms(2) show ?thesis by (simp add: wp_def)
qed

lemma init_current:
  assumes "kinv fs {} None k" and "boot_init k = (Inr p, k')"
  shows "k_current k' = Some p"
proof -
  have "wp boot_init (\<lambda>p t. k_current t = Some p) (\<lambda>_ _. True) k"
    by (rule wp_boot_init [OF assms(1)])
  with assms(2) show ?thesis by (simp add: wp_def)
qed

lemma reachable_configured:
  assumes "reachable fs msg (snd (enqueue p k))"
  shows "reachable fs msg (snd (enqueue p (k\<lparr>k_debug_target := tg, k_monitor_pending := b\<rparr>)))"
  unfolding enqueue_configured by (rule configured [OF assms])

lemma stop_first_run:
  "stop_first opts k = (Inr (), k\<lparr>k_debug_target := k_debug_target k,
     k_monitor_pending := (o_monitor opts \<or> o_debug opts \<or> k_monitor_pending k)\<rparr>)"
  by (simp add: stop_first_def modify_def ret_def)

lemma start_reachable:
  assumes ov: "ov_inv fs ov" and k: "k = prepared ov (Some (TTY_init term escape)) esc clk cap on"
    and run: "start_program opts tail k = (Inr u, k')"
  shows "\<exists>p. k_current k' = Some p \<and> reachable fs msg (snd (enqueue p k'))"
proof -
  have tty: "tty_ok t" if "Some (TTY_init term escape) = Some t" for t
    using that TTY_init_ok by auto
  have inv: "kinv fs {} None k" unfolding k by (rule kinv_prepared [OF ov tty])
  show ?thesis
  proof (cases tail)
    case Nil
    with run obtain p where p: "boot_init k = (Inr p, k')"
      by (auto simp: start_program_def bindE_def ret_def split: prod.splits sum.splits)
    have "reachable fs msg (snd (enqueue p k'))" by (rule init_booted [OF ov _ p [unfolded k]]) (rule tty)
    with init_current [OF inv p] show ?thesis by blast
  next
    case (Cons program args)
    with run obtain p t where p: "boot program (map utf8 tail) [] k = (Inr p, t)"
      and k': "k' = t\<lparr>k_debug_target := (if o_debug opts then Some p else k_debug_target t),
        k_monitor_pending := k_monitor_pending t\<rparr>"
      by (auto simp: start_program_def bindE_def ret_def modify_def split: prod.splits sum.splits if_splits)
    have "reachable fs msg (snd (enqueue p t))" by (rule booted [OF ov _ p [unfolded k]]) (rule tty)
    then have "reachable fs msg (snd (enqueue p k'))" unfolding k' by (rule reachable_configured)
    moreover have "k_current k' = Some p" using booted_current [OF inv p] by (simp add: k')
    ultimately show ?thesis by blast
  qed
qed

lemma exit_code_byte: "0 \<le> exit_code c \<and> exit_code c < 256"
  by (simp add: exit_code_def and_masks)

lemma run_kernel_at:
  "k_current k = Some p \<Longrightarrow> run_kernel mon msg limit k = sched mon msg limit 0 0 (snd (enqueue p k))"
  by (simp add: run_kernel_def bindE_def thenE_def gets_def enqueue_def modify_def)

text \<open>What \<open>run_machine\<close> gives back.\<close>

lemma run_machine_outcome:
  assumes "k_current k = Some p"
  shows "\<exists>k'. k' = k\<lparr>k_debug_target := k_debug_target k,
       k_monitor_pending := (o_monitor opts \<or> o_debug opts \<or> k_monitor_pending k)\<rparr> \<and>
     oc_kernel (run_machine opts session msg k) =
       Some (snd (sched (Some session) msg (o_max_insns opts) 0 0 (snd (enqueue p k')))) \<and>
     (\<forall>c. oc_result (run_machine opts session msg k) = Inr c \<longrightarrow> 0 \<le> c \<and> c < 256 \<and>
        (\<exists>x. fst (sched (Some session) msg (o_max_insns opts) 0 0 (snd (enqueue p k'))) = Inr x))"
proof -
  let ?k = "k\<lparr>k_debug_target := k_debug_target k,
     k_monitor_pending := (o_monitor opts \<or> o_debug opts \<or> k_monitor_pending k)\<rparr>"
  have "k_current ?k = Some p" using assms by simp
  from run_kernel_at [OF this, of "Some session" msg "o_max_insns opts"]
  have s: "thenE (stop_first opts) (run_kernel (Some session) msg (o_max_insns opts)) k =
      sched (Some session) msg (o_max_insns opts) 0 0 (snd (enqueue p ?k))"
    by (simp only: thenE_def bindE_def stop_first_run prod.case sum.case)
  show ?thesis
    by (intro exI [of _ ?k] conjI refl)
      (auto simp: run_machine_def s exit_code_byte split: prod.splits sum.splits)
qed

lemma build_kernel_init:
  assumes "build_kernel img off term escape clk = Inr k" and "MinixFS_init img off = Inr fs"
    and "1 \<le> ninodes (sb fs)"
  obtains ov where "ov_inv fs ov" "k = Kernel_init ov (Some (TTY_init term escape)) True clk"
  using assms ov_inv_init by (auto simp: build_kernel_def bindR_Inr_iff)



end
