(* ===== verification/Spec2Isabelle.thy ===== *)
theory Spec2Isabelle
  imports X86mem_Props Minixfs_Props Kvfs_Props Cpu_Props Ktty_Props Kexec_Props Kernel_Props Kernel_Sigframe Cpu_Disasm_Props Kvfs_Changes Ktty_Host Kmonitor_Props Minix_shell_Props Emulator_Props
begin

text \<open>
  A verification development for minixfs, an emulator of Linux 0.11 written in Python: it
  reads a Minix v1 disk image, interprets the i386 user code of its programs and implements
  the system calls of the kernel they expect.

  \<^bold>\<open>The program.\<close> \<open>minixfs.py\<close> parses the image (superblock, inodes, zone trees, directories)
  and checks its consistency. \<open>kvfs.py\<close> lays a writable overlay over it: inodes are taken into
  a table when they are first touched and their contents copied when they are first written;
  it also has the pipes. \<open>x86mem.py\<close> is the address space of a process, with the cache of
  decoded instructions; \<open>cpu86.py\<close> decodes and executes instructions on it, and
  \<open>cpu_disasm.py\<close> prints them. \<open>kexec.py\<close> loads an a.out file from the overlay into an address
  space and lays out the initial stack. \<open>ktty.py\<close> is the terminal and its line discipline.
  \<open>kernel.py\<close> ties them together: processes, descriptors, signals, the system calls of
  \<open>ksyscall.py\<close>'s table, and the scheduler, which gives each process's CPU a slice of
  \<open>TIMESLICE\<close> instructions and reacts to how it ended. \<open>kmonitor.py\<close> is the console that stops
  the scheduler between slices to display, debug and control the machine. \<open>emulator.py\<close> builds
  the whole from a command line and runs it. \<open>minix_shell.py\<close> with \<open>pager.py\<close> is a second
  program, a browser of images.

  \<^bold>\<open>The style of the model.\<close> A method that changes an object or raises is a function from the
  object's record to a result and the new record (\<open>('s, 'a) sm\<close> of theory \<open>Prelude\<close>), a
  result being \<open>Inl\<close> of an exception (\<open>exn\<close>, one constructor for each the code raises) or
  \<open>Inr\<close> of a value; \<open>bindE\<close>, \<open>thenE\<close>, \<open>ret\<close>, \<open>raise\<close>, \<open>modify\<close> and \<open>gets\<close> compose them, and
  the state of a raising method is the one it left. Objects the code shares by reference are
  named by numbers in tables of the owner. Python integers are \<open>int\<close>, so the masks of the
  code are in the model; bytes are 8-bit words. All definitions are executable and total:
  loops recurse over what bounds them in the code (a step count, a list, a size), or have a
  termination proof (the tree walks, the main loop, the pager, the word splitters); no fuel is
  used beyond the code's own bounds (the five levels of \<open>resolve_exec\<close>'s interpreters, the 512
  pointers of an argument vector). \<open>main_loop_ends\<close> restates the main loop with fuel and
  shows how many turns are enough.

  \<^bold>\<open>The theories.\<close>
  \<^item> \<open>Prelude\<close>: exceptions, the state monad, its calculi (\<open>wp\<close>; \<open>gives\<close> and \<open>keeps\<close> for
    invariants; \<open>kept\<close> for views that do not change), little-endian packing, slices.
    \<open>Byte_Memory\<close>, \<open>Bounded_Fifo\<close> and \<open>Windowed\<close>: the interfaces the components rely on, as
    locales interpreted on the components' own operations (an address space as a byte memory,
    a pipe as a bounded queue, a file as a source of windows).
  \<^item> \<open>X86mem\<close>: \<open>x86mem.py\<close>. \<open>X86mem_Props\<close>: reading what was written, the break, strings.
  \<^item> \<open>Minixfs\<close>, \<open>Minixfs_Check\<close>: \<open>minixfs.py\<close>; \<open>Minixfs_Window\<close>, \<open>Minixfs_Props\<close>: files
    read in windows, statistics, path resolution, what a clean check certifies.
    \<open>Tiny_Image\<close>: the small image of the witnesses.
  \<^item> \<open>Kvfs\<close>: \<open>kvfs.py\<close>; \<open>Kvfs_Inv\<close>: its invariant and its pipes; \<open>Kvfs_Spec\<close>: the abstract
    file system it refines; \<open>Tiny_Overlay\<close>, \<open>Kvfs_Props\<close>: the properties and their witnesses.
    \<open>Kvfs_Changes\<close>: the report of changed paths, exact and without effect.
  \<^item> \<open>Cpu_State\<close>, \<open>Cpu_Exec\<close>, \<open>Cpu_Decode\<close>: \<open>cpu86.py\<close> (state and primitives; templates and
    handlers; decoders and main loop). \<open>Cpu_Local\<close>, \<open>Cpu_Inv\<close>: decoding depends on the
    instruction's bytes only, and the invariant of a run. \<open>Cpu_Frame\<close>: what a run leaves
    alone. \<open>Cpu_Arith\<close>, \<open>Cpu_Props\<close>: arithmetic against mathematical integers, the cache.
    \<open>Cpu_Disasm\<close>, \<open>Cpu_Disasm_Props\<close>: the disassembler, and that it follows the decoder.
  \<^item> \<open>Ktty\<close>, \<open>Ktty_Inv\<close>, \<open>Ktty_Props\<close>: \<open>ktty.py\<close>, its invariant, the line editor it refines.
    \<open>Ktty_Host\<close>: the modes of the host's terminal, which it always gets back, and the readers of
    Windows.
  \<^item> \<open>Kexec\<close>, \<open>Kexec_Stack\<close>, \<open>Kexec_Props\<close>: \<open>kexec.py\<close>, with \<open>Ksyscall\<close>: program image, stack.
  \<^item> \<open>Kernel_State\<close>, \<open>Kernel_Calls\<close>, \<open>Kernel_Files\<close>, \<open>Kernel_IO\<close>, \<open>Kernel_Proc\<close>,
    \<open>Kernel_Signal\<close>, \<open>Kernel_Sched\<close>: \<open>kernel.py\<close> and the table of \<open>ksyscall.py\<close>.
    \<open>Kernel_Acct\<close>: the accounting of descriptors. \<open>Kernel_Inv\<close>: the invariant of the kernel.
    \<open>Kernel_Keeps\<close>, \<open>Kernel_Fds\<close>, \<open>Kernel_Pipe\<close>, \<open>Kernel_Steps\<close>, \<open>Kernel_Exit\<close>, \<open>Kernel_Boot\<close>:
    every system call and every step around them keeps it, whether it returns or raises.
    \<open>Kernel_Loop\<close>: the scheduler keeps it, and the states a machine reaches from its boot
    (\<open>reachable\<close>), sessions of the monitor included, satisfy it; a step of the built-in init
    that fails to start the script \<open>/etc/rc\<close> is outside \<open>reachable\<close>. \<open>Kernel_Run\<close>: when the
    main loop returns, it returns in a reachable state. \<open>Kernel_Facts\<close>,
    \<open>Kernel_Props\<close>, \<open>Kernel_Sigframe\<close>: what follows for processes, descriptors, pipes, the
    round robin and signal frames. \<open>Tiny_Kernel\<close>: a booted kernel for the witnesses.
  \<^item> \<open>Kmonitor\<close>: \<open>kmonitor.py\<close>. \<open>Kmonitor_Keeps\<close>: every session keeps the invariant of the
    kernel. \<open>Kmonitor_Props\<close>: displaying changes nothing, addresses can be typed back.
  \<^item> \<open>Pager\<close>: \<open>pager.py\<close> and its screens. \<open>Minix_shell\<close>: \<open>minix_shell.py\<close>, with \<open>shlex.split\<close> and
    the line parser of \<open>cmd.Cmd\<close>. \<open>Minix_shell_Props\<close>: the path of the prompt, dumps.
  \<^item> \<open>Emulator\<close>: \<open>emulator.py\<close>. \<open>Emulator_Props\<close>: the division of the command line, and that
    \<open>main\<close> runs the main loop from a reachable state to a reachable state.

  \<^bold>\<open>Not modelled.\<close> The texts of error messages (a parameter where one reaches the console) and
  the words of the formats of the monitor and the browser, whose lines are a key with the data
  they show; percentages and wall-clock measurements; the declaration of options to \<open>argparse\<close>;
  Ctrl-C on the host and the escape sequences of its Windows console;
  the assembly of handler source text in \<open>cpu86.py\<close>, whose results are modelled instead. Reads of
  the host's clock are a parameter of the kernel's state, the answers of the host terminal a list
  in the terminal's state. Command lines of the consoles are ASCII. The memory a monitor has of its
  last command and address lasts for a session of \<open>interact\<close>; in the main loop a session is a
  parameter.
\<close>

end
